(* ===== verification/Gateway_Prelude.thy ===== *)
theory Gateway_Prelude
  imports Main "HOL-Library.Word"
begin

text \<open>
  Shared vocabulary of the development: the machine integers of the ESP32-S3
  (\<open>uint8_t\<close>, \<open>uint16_t\<close>, \<open>uint32_t\<close> as words; \<open>size_t\<close> as \<^typ>\<open>nat\<close>, with
  \<open>SIZE_MAX\<close> the largest 32-bit value), C strings as HOL strings, the parts of the C library
  the sources call (\<open>isdigit\<close>, \<open>isspace\<close>, \<open>strtol\<close>, \<open>snprintf\<close> with decimal
  conversions), the error codes of ESP-IDF, and the result type of code that reads arrays by
  index.

  Conventions. A C string is the list of the characters before its terminating NUL; reading
  the position of the terminator gives the character 0. A fixed-size \<open>char\<close> array is the
  list of the characters before its first NUL, or all of them when there is none. A pointer the
  program may pass as NULL is an \<open>option\<close>; an out-parameter is part of the result, so the
  guards that only test an out-parameter for NULL have no counterpart.
\<close>

unbundle bit_operations_syntax

named_theorems outcome_simps "unfolding and splitting of computations that may fault"
named_theorems cstr_simps "evaluation of the C string functions"

section \<open>Machine integers\<close>

type_synonym u8 = "8 word"
type_synonym u16 = "16 word"
type_synonym u32 = "32 word"

definition SIZE_MAX :: nat where
  "SIZE_MAX = 4294967295"

definition UINT32_MAX :: u32 where
  "UINT32_MAX = 0xFFFFFFFF"

definition LONG_MAX :: int where
  "LONG_MAX = 2147483647"

definition LONG_MIN :: int where
  "LONG_MIN = -2147483648"

section \<open>Error codes\<close>

datatype esp_err =
    ESP_OK | ESP_FAIL | ESP_ERR_NO_MEM | ESP_ERR_INVALID_ARG | ESP_ERR_INVALID_STATE
  | ESP_ERR_INVALID_SIZE | ESP_ERR_NOT_FOUND | ESP_ERR_NOT_SUPPORTED | ESP_ERR_TIMEOUT
  | ESP_ERR_INVALID_RESPONSE | ESP_ERR_INVALID_VERSION | ESP_ERR_NVS_NOT_FOUND
  | ESP_ERR_OTHER nat

section \<open>Characters and strings\<close>

abbreviation code :: "char \<Rightarrow> nat" where
  "code c \<equiv> of_char c"

definition byte_of :: "char \<Rightarrow> u8" where
  "byte_of c = word_of_nat (code c)"

definition char_of_byte :: "u8 \<Rightarrow> char" where
  "char_of_byte b = char_of (unat b)"

definition NUL :: char where
  "NUL = CHR 0x00"

definition CR :: char where
  "CR = CHR 0x0D"

definition LF :: char where
  "LF = CHR 0x0A"

definition TAB :: char where
  "TAB = CHR 0x09"

text \<open>Reading position \<open>i\<close> of a C string: the terminator follows the last character.\<close>

definition cchar :: "string \<Rightarrow> nat \<Rightarrow> char" where
  "cchar s i = (if i < length s then s ! i else NUL)"

definition cbyte :: "string \<Rightarrow> nat \<Rightarrow> u8" where
  "cbyte s i = byte_of (cchar s i)"

definition cstring :: "string \<Rightarrow> bool" where
  "cstring s \<longleftrightarrow> NUL \<notin> set s"

text \<open>The C string that starts at a buffer's first character.\<close>

definition cstr_view :: "string \<Rightarrow> string" where
  "cstr_view buf = takeWhile (\<lambda>c. c \<noteq> NUL) buf"

definition has_prefix :: "string \<Rightarrow> string \<Rightarrow> bool" where
  "has_prefix line prefix \<longleftrightarrow> take (length prefix) line = prefix"

definition isdigit :: "char \<Rightarrow> bool" where
  "isdigit c \<longleftrightarrow> 48 \<le> code c \<and> code c \<le> 57"

definition isspace :: "char \<Rightarrow> bool" where
  "isspace c \<longleftrightarrow> code c = 32 \<or> 9 \<le> code c \<and> code c \<le> 13"

definition isxdigit :: "char \<Rightarrow> bool" where
  "isxdigit c \<longleftrightarrow> isdigit c \<or> 65 \<le> code c \<and> code c \<le> 70 \<or> 97 \<le> code c \<and> code c \<le> 102"

definition isalnum :: "char \<Rightarrow> bool" where
  "isalnum c \<longleftrightarrow> isdigit c \<or> 65 \<le> code c \<and> code c \<le> 90 \<or> 97 \<le> code c \<and> code c \<le> 122"

definition toupper :: "char \<Rightarrow> char" where
  "toupper c = (if 97 \<le> code c \<and> code c \<le> 122 then char_of (code c - 32) else c)"

subsection \<open>Decimal numbers: printing and strtol\<close>

definition digit_char :: "nat \<Rightarrow> char" where
  "digit_char d = char_of (48 + d)"

fun dec :: "nat \<Rightarrow> string" where
  "dec n = (if n < 10 then [digit_char n] else dec (n div 10) @ [digit_char (n mod 10)])"

declare dec.simps [simp del]

text \<open>The conversions \<open>%0wu\<close> and \<open>%0wd\<close> of \<open>snprintf\<close> for a non-negative argument.\<close>

definition dec_pad :: "nat \<Rightarrow> nat \<Rightarrow> string" where
  "dec_pad w n = replicate (w - length (dec n)) (CHR ''0'') @ dec n"

fun digits_value :: "nat \<Rightarrow> string \<Rightarrow> nat \<times> string" where
  "digits_value acc [] = (acc, [])"
| "digits_value acc (c # cs) =
     (if isdigit c then digits_value (10 * acc + (code c - 48)) cs else (acc, c # cs))"

definition clamp_long :: "int \<Rightarrow> int" where
  "clamp_long v = (if v > LONG_MAX then LONG_MAX else if v < LONG_MIN then LONG_MIN else v)"

text \<open>
  \<open>strtol(s, &end, 10)\<close>: the value and the rest of the string at \<open>end\<close>; with no digits the
  value is 0 and \<open>end\<close> is \<open>s\<close>. Out-of-range values saturate.
\<close>

definition strtol :: "string \<Rightarrow> int \<times> string" where
  "strtol s =
     (let p = dropWhile isspace s;
          neg = (p \<noteq> [] \<and> hd p = CHR ''-'');
          q = (if p \<noteq> [] \<and> (hd p = CHR ''-'' \<or> hd p = CHR ''+'') then tl p else p)
      in if q \<noteq> [] \<and> isdigit (hd q)
         then (let (v, rest) = digits_value 0 q
               in (clamp_long (if neg then - int v else int v), rest))
         else (0, s))"

section \<open>Computations that read arrays\<close>

text \<open>
  \<open>Ret\<close>: the call returned a value; \<open>Err\<close>: it took an error return; \<open>Fault\<close>: it accessed an
  array out of bounds, which C leaves undefined.
\<close>

datatype ('e, 'a) outcome = Ret 'a | Err 'e | Fault

primrec and_then :: "('e, 'a) outcome \<Rightarrow> ('a \<Rightarrow> ('e, 'b) outcome) \<Rightarrow> ('e, 'b) outcome" where
  "and_then (Ret a) f = f a"
| "and_then (Err e) f = Err e"
| "and_then Fault f = Fault"

primrec on_err :: "('e, 'a) outcome \<Rightarrow> 'f \<Rightarrow> ('f, 'a) outcome" where
  "on_err (Ret a) e' = Ret a"
| "on_err (Err e) e' = Err e'"
| "on_err Fault e' = Fault"

definition guard_ret :: "bool \<Rightarrow> 'e \<Rightarrow> ('e, unit) outcome" where
  "guard_ret b e = (if b then Ret () else Err e)"

definition aread :: "'a list \<Rightarrow> nat \<Rightarrow> ('e, 'a) outcome" where
  "aread xs i = (if i < length xs then Ret (xs ! i) else Fault)"

section \<open>Lemmas\<close>

subsection \<open>Characters\<close>

lemma char_of_byte_of [simp]: "char_of_byte (byte_of c) = c"
proof -
  have "unat (byte_of c) = code c"
    using nat_of_char_less_256 [of c] by (simp add: byte_of_def unat_of_nat)
  then show ?thesis by (simp add: char_of_byte_def)
qed

lemma byte_of_char_of [simp]: "byte_of (char_of_byte b) = b"
proof -
  have "unat b < 256" using unsigned_less [of b, where 'a = nat] by simp
  then show ?thesis by (simp add: byte_of_def char_of_byte_def)
qed

lemma byte_of_eq_iff [simp]: "byte_of c = byte_of d \<longleftrightarrow> c = d"
  by (metis char_of_byte_of)

lemma byte_of_NUL [simp]: "byte_of c = 0 \<longleftrightarrow> c = NUL"
proof -
  have "byte_of NUL = 0" by (simp add: byte_of_def NUL_def)
  then show ?thesis by (metis byte_of_eq_iff)
qed

lemma char_of_byte_NUL [simp]: "char_of_byte b = NUL \<longleftrightarrow> b = 0"
  by (metis byte_of_NUL byte_of_char_of)

lemma char_of_byte_eq_iff [simp]: "char_of_byte a = char_of_byte b \<longleftrightarrow> a = b"
  by (metis byte_of_char_of)

lemma cstring_simps [simp]:
  "cstring []"
  "cstring (c # s) \<longleftrightarrow> c \<noteq> NUL \<and> cstring s"
  "cstring (s @ t) \<longleftrightarrow> cstring s \<and> cstring t"
  by (auto simp: cstring_def)

lemma cstring_drop [simp]: "cstring s \<Longrightarrow> cstring (drop n s)"
  by (auto simp: cstring_def dest: in_set_dropD)

lemma cstr_view_cstring [simp]: "cstring (cstr_view s)"
  by (auto simp: cstring_def cstr_view_def dest: set_takeWhileD)

lemma cstr_view_id [simp]: "cstring s \<Longrightarrow> cstr_view s = s"
  by (auto simp: cstring_def cstr_view_def takeWhile_eq_all_conv)

lemma cchar_simps [simp]:
  "cchar (c # s) 0 = c" "cchar (c # s) (Suc i) = cchar s i" "cchar [] i = NUL"
  by (simp_all add: cchar_def)

lemma cbyte_simps [simp]:
  "cbyte (c # s) 0 = byte_of c" "cbyte (c # s) (Suc i) = cbyte s i" "cbyte [] i = 0"
  by (simp_all add: cbyte_def)

lemma cchar_numeral [simp]:
  "cchar (c # s) (numeral k) = cchar s (pred_numeral k)" "cchar (c # s) 1 = cchar s 0"
  by (simp_all add: numeral_eq_Suc)

lemma cbyte_numeral [simp]:
  "cbyte (c # s) (numeral k) = cbyte s (pred_numeral k)" "cbyte (c # s) 1 = cbyte s 0"
  by (simp_all add: cbyte_def)

lemma has_prefix_append [simp]: "has_prefix (p @ s) p"
  by (simp add: has_prefix_def)

lemma has_prefix_iff: "has_prefix s p \<longleftrightarrow> (\<exists>r. s = p @ r)"
  by (auto simp: has_prefix_def) (metis append_take_drop_id)

subsection \<open>Decimal numbers\<close>

lemma code_digit_char [simp]: "d < 10 \<Longrightarrow> code (digit_char d) = 48 + d"
  by (simp add: digit_char_def)

lemma isdigit_digit_char [simp]: "d < 10 \<Longrightarrow> isdigit (digit_char d)"
  by (simp add: isdigit_def)

lemma isdigit_not_space [simp]: "isdigit c \<Longrightarrow> \<not> isspace c"
  by (auto simp: isdigit_def isspace_def)

lemma isdigit_not_sign: "isdigit c \<Longrightarrow> c \<noteq> CHR ''-'' \<and> c \<noteq> CHR ''+''"
  by (auto simp: isdigit_def)

lemma dec_ne [simp]: "dec n \<noteq> []"
  by (subst dec.simps) simp

lemma dec_digits: "c \<in> set (dec n) \<Longrightarrow> isdigit c"
proof (induction n rule: dec.induct)
  case (1 n)
  then show ?case by (subst (asm) dec.simps) (auto split: if_splits)
qed

lemma digits_value_append:
  "\<forall>c \<in> set s. isdigit c \<Longrightarrow> digits_value acc (s @ t) = digits_value (fst (digits_value acc s)) t"
  by (induction s arbitrary: acc) auto

lemma digits_value_dec_aux: "fst (digits_value 0 (dec n)) = n"
proof (induction n rule: dec.induct)
  case (1 n)
  show ?case
  proof (cases "n < 10")
    case True
    then show ?thesis by (simp add: dec.simps [of n])
  next
    case False
    with 1 have "fst (digits_value 0 (dec (n div 10))) = n div 10" by simp
    with False show ?thesis
      by (simp add: dec.simps [of n] digits_value_append dec_digits)
  qed
qed

lemma digits_value_stop:
  "r = [] \<or> \<not> isdigit (hd r) \<Longrightarrow> digits_value acc r = (acc, r)"
  by (cases r) auto

lemma digits_value_dec:
  assumes "r = [] \<or> \<not> isdigit (hd r)"
  shows "digits_value 0 (dec n @ r) = (n, r)"
  using assms by (simp add: digits_value_append dec_digits digits_value_dec_aux digits_value_stop)

lemma dec_hd_digit: "isdigit (hd (dec n))"
  by (metis dec_digits dec_ne hd_in_set)

text \<open>Printing a number and reading it back with \<open>strtol\<close>, behind any leading blanks.\<close>

lemma strtol_dec:
  assumes "\<forall>c \<in> set ws. isspace c" and "r = [] \<or> \<not> isdigit (hd r)" and "int n \<le> LONG_MAX"
  shows "strtol (ws @ dec n @ r) = (int n, r)"
proof -
  have "dropWhile isspace (dec n @ r) = dec n @ r"
    using dec_hd_digit [of n] by (cases "dec n") auto
  then have p: "dropWhile isspace (ws @ dec n @ r) = dec n @ r"
    using assms(1) by (simp add: dropWhile_append2)
  have h: "hd (dec n @ r) = hd (dec n)" by simp
  show ?thesis
    using assms(2,3) dec_hd_digit [of n] isdigit_not_sign [OF dec_hd_digit [of n]]
    by (simp add: strtol_def p h digits_value_dec clamp_long_def LONG_MIN_def)
qed

subsection \<open>Computations that read arrays\<close>

lemma and_then_assoc: "and_then (and_then m f) g = and_then m (\<lambda>x. and_then (f x) g)"
  by (cases m) auto

lemma and_then_Ret_iff [outcome_simps]:
  "and_then m f = Ret b \<longleftrightarrow> (\<exists>a. m = Ret a \<and> f a = Ret b)"
  by (cases m) auto

lemma and_then_Fault_iff [outcome_simps]:
  "and_then m f = Fault \<longleftrightarrow> m = Fault \<or> (\<exists>a. m = Ret a \<and> f a = Fault)"
  by (cases m) auto

lemma on_err_Ret_iff [outcome_simps, simp]: "on_err m e = Ret a \<longleftrightarrow> m = Ret a"
  by (cases m) auto

lemma on_err_Fault_iff [outcome_simps, simp]: "on_err m e = Fault \<longleftrightarrow> m = Fault"
  by (cases m) auto

lemma guard_ret_iff [outcome_simps, simp]:
  "guard_ret b e = Ret u \<longleftrightarrow> b" "guard_ret b e \<noteq> Fault" "guard_ret b e = Err e' \<longleftrightarrow> \<not> b \<and> e' = e"
  by (auto simp: guard_ret_def)

lemma aread_iff [outcome_simps]:
  "aread xs i = Ret a \<longleftrightarrow> i < length xs \<and> xs ! i = a"
  "aread xs i = Fault \<longleftrightarrow> length xs \<le> i"
  "aread xs i \<noteq> Err e"
  by (auto simp: aread_def)

subsection \<open>Words and bits\<close>

lemma All_less_numeral:
  "(\<forall>n<numeral k. P n) \<longleftrightarrow> (\<forall>n<pred_numeral k. P n) \<and> P (pred_numeral k)"
  by (simp only: numeral_eq_Suc All_less_Suc) auto

lemma word_eq_bitsI: "(\<forall>n<LENGTH('a). bit a n = bit b n) \<Longrightarrow> a = (b :: 'a::len word)"
  by (auto intro: bit_word_eqI)

lemma word_eq_bits: "a = (b :: 'a::len word) \<longleftrightarrow> (\<forall>n<LENGTH('a). bit a n = bit b n)"
  by (auto intro: word_eq_bitsI)

lemma bit_u8_ge: "8 \<le> n \<Longrightarrow> \<not> bit (b::u8) n"
  using bit_imp_le_length [of b n] by auto

lemma bit_word_less:
  fixes w :: "'a::len word"
  assumes "unat w < 2 ^ k" and "k \<le> n"
  shows "\<not> bit w n"
proof -
  have "unat w < 2 ^ n"
    using assms by (meson less_le_trans one_le_numeral power_increasing)
  then have "\<not> bit (unat w) n" by (simp add: bit_iff_odd)
  then show ?thesis
    by (metis bit_imp_possible_bit bit_unsigned_iff possible_bit_nat)
qed

lemma unat_less_bits:
  fixes w :: "'a::len word"
  assumes "\<forall>n<LENGTH('a). k \<le> n \<longrightarrow> \<not> bit w n"
  shows "unat w < 2 ^ k"
proof -
  have "\<not> bit w n" if "k \<le> n" for n
    using assms that bit_imp_le_length by blast
  then have "take_bit k w = w"
    by (intro bit_eqI) (metis bit_take_bit_iff not_less)
  then have "unat w = take_bit k (unat w)"
    by (metis unsigned_take_bit_eq)
  then show ?thesis
    by (metis take_bit_nat_less_exp)
qed

end
