(* ===== verification/Gsm7.thy ===== *)
theory Gsm7
  imports Gateway_Prelude
begin

text \<open>
  The GSM 03.38 and UTF-8 codec, \<open>components/sms_codec/sms_gsm7.c\<close>: the alphabet tables,
  reading and writing one UTF-8 code point, and the conversion between UTF-8 text and septets.
  The lemmas show that the UTF-8 reader accepts exactly the canonical encodings of non-zero
  Unicode scalar values, that reading undoes writing, and that decoding undoes encoding.
\<close>

section \<open>Tables\<close>

definition s_gsm7_basic :: "u32 list" where
  "s_gsm7_basic = [
    0x0040, 0x00A3, 0x0024, 0x00A5, 0x00E8, 0x00E9, 0x00F9, 0x00EC,
    0x00F2, 0x00C7, 0x000A, 0x00D8, 0x00F8, 0x000D, 0x00C5, 0x00E5,
    0x0394, 0x005F, 0x03A6, 0x0393, 0x039B, 0x03A9, 0x03A0, 0x03A8,
    0x03A3, 0x0398, 0x039E, 0x001B, 0x00C6, 0x00E6, 0x00DF, 0x00C9,
    0x0020, 0x0021, 0x0022, 0x0023, 0x00A4, 0x0025, 0x0026, 0x0027,
    0x0028, 0x0029, 0x002A, 0x002B, 0x002C, 0x002D, 0x002E, 0x002F,
    0x0030, 0x0031, 0x0032, 0x0033, 0x0034, 0x0035, 0x0036, 0x0037,
    0x0038, 0x0039, 0x003A, 0x003B, 0x003C, 0x003D, 0x003E, 0x003F,
    0x00A1, 0x0041, 0x0042, 0x0043, 0x0044, 0x0045, 0x0046, 0x0047,
    0x0048, 0x0049, 0x004A, 0x004B, 0x004C, 0x004D, 0x004E, 0x004F,
    0x0050, 0x0051, 0x0052, 0x0053, 0x0054, 0x0055, 0x0056, 0x0057,
    0x0058, 0x0059, 0x005A, 0x00C4, 0x00D6, 0x00D1, 0x00DC, 0x00A7,
    0x00BF, 0x0061, 0x0062, 0x0063, 0x0064, 0x0065, 0x0066, 0x0067,
    0x0068, 0x0069, 0x006A, 0x006B, 0x006C, 0x006D, 0x006E, 0x006F,
    0x0070, 0x0071, 0x0072, 0x0073, 0x0074, 0x0075, 0x0076, 0x0077,
    0x0078, 0x0079, 0x007A, 0x00E4, 0x00F6, 0x00F1, 0x00FC, 0x00E0]"

record gsm7_extension =
  codepoint :: u32
  extension :: u8

definition s_gsm7_extension :: "gsm7_extension list" where
  "s_gsm7_extension = [
    \<lparr>codepoint = 0x000C, extension = 0x0A\<rparr>,
    \<lparr>codepoint = 0x005E, extension = 0x14\<rparr>,
    \<lparr>codepoint = 0x007B, extension = 0x28\<rparr>,
    \<lparr>codepoint = 0x007D, extension = 0x29\<rparr>,
    \<lparr>codepoint = 0x005C, extension = 0x2F\<rparr>,
    \<lparr>codepoint = 0x005B, extension = 0x3C\<rparr>,
    \<lparr>codepoint = 0x007E, extension = 0x3D\<rparr>,
    \<lparr>codepoint = 0x005D, extension = 0x3E\<rparr>,
    \<lparr>codepoint = 0x007C, extension = 0x40\<rparr>,
    \<lparr>codepoint = 0x20AC, extension = 0x65\<rparr>]"

section \<open>UTF-8\<close>

text \<open>The code point at the cursor and the cursor behind it.\<close>

definition sms_utf8_next :: "string \<Rightarrow> (u32 \<times> string) option" where
  "sms_utf8_next s =
     (let p = cbyte s in
      if p 0 = 0 then None
      else if p 0 < 0x80 then Some (ucast (p 0), drop 1 s)
      else if p 0 AND 0xE0 = 0xC0 then
        (if p 1 AND 0xC0 \<noteq> 0x80 then None
         else let cp = push_bit 6 (ucast (p 0 AND 0x1F)) OR ucast (p 1 AND 0x3F)
              in if cp < 0x80 then None else Some (cp, drop 2 s))
      else if p 0 AND 0xF0 = 0xE0 then
        (if p 1 AND 0xC0 \<noteq> 0x80 \<or> p 2 AND 0xC0 \<noteq> 0x80 then None
         else let cp = push_bit 12 (ucast (p 0 AND 0x0F)) OR push_bit 6 (ucast (p 1 AND 0x3F))
                       OR ucast (p 2 AND 0x3F)
              in if cp < 0x800 \<or> 0xD800 \<le> cp \<and> cp \<le> 0xDFFF then None else Some (cp, drop 3 s))
      else if p 0 AND 0xF8 = 0xF0 then
        (if p 1 AND 0xC0 \<noteq> 0x80 \<or> p 2 AND 0xC0 \<noteq> 0x80 \<or> p 3 AND 0xC0 \<noteq> 0x80 then None
         else let cp = push_bit 18 (ucast (p 0 AND 0x07)) OR push_bit 12 (ucast (p 1 AND 0x3F))
                       OR push_bit 6 (ucast (p 2 AND 0x3F)) OR ucast (p 3 AND 0x3F)
              in if cp < 0x10000 \<or> 0x10FFFF < cp then None else Some (cp, drop 4 s))
      else None)"

text \<open>The octets \<open>sms_utf8_append\<close> computes for a code point.\<close>

definition utf8_octets :: "u32 \<Rightarrow> u8 list option" where
  "utf8_octets cp =
     (if cp \<le> 0x7F then Some [ucast cp]
      else if cp \<le> 0x7FF then
        Some [0xC0 OR ucast (drop_bit 6 cp), 0x80 OR ucast (cp AND 0x3F)]
      else if cp \<le> 0xFFFF \<and> \<not> (0xD800 \<le> cp \<and> cp \<le> 0xDFFF) then
        Some [0xE0 OR ucast (drop_bit 12 cp), 0x80 OR ucast (drop_bit 6 cp AND 0x3F),
              0x80 OR ucast (cp AND 0x3F)]
      else if cp \<le> 0x10FFFF then
        Some [0xF0 OR ucast (drop_bit 18 cp), 0x80 OR ucast (drop_bit 12 cp AND 0x3F),
              0x80 OR ucast (drop_bit 6 cp AND 0x3F), 0x80 OR ucast (cp AND 0x3F)]
      else None)"

text \<open>
  The buffer is the list of the characters written so far; its length is \<open>*length\<close>, and the
  terminator the code writes behind it is implicit.
\<close>

definition sms_utf8_append :: "u32 \<Rightarrow> string \<Rightarrow> nat \<Rightarrow> string option" where
  "sms_utf8_append cp buffer capacity =
     (if capacity \<le> length buffer then None
      else case utf8_octets cp of
        None \<Rightarrow> None
      | Some out \<Rightarrow>
          if capacity \<le> length out + length buffer then None
          else Some (buffer @ map char_of_byte out))"

section \<open>GSM 03.38\<close>

text \<open>The one or two septets of a code point.\<close>

definition gsm7_find :: "u32 \<Rightarrow> u8 list option" where
  "gsm7_find cp =
     (case find (\<lambda>i. i \<noteq> 0x1B \<and> s_gsm7_basic ! i = cp) [0..<128] of
        Some i \<Rightarrow> Some [word_of_nat i]
      | None \<Rightarrow>
          (case find (\<lambda>e. codepoint e = cp) s_gsm7_extension of
             Some e \<Rightarrow> Some [0x1B, extension e]
           | None \<Rightarrow> None))"

lemma sms_utf8_next_shorter:
  "sms_utf8_next s = Some (cp, r) \<Longrightarrow> length r < length s"
  by (cases s) (auto simp: sms_utf8_next_def Let_def split: if_splits)

function gsm7_count_loop :: "nat \<Rightarrow> string \<Rightarrow> nat" where
  "gsm7_count_loop n cursor =
     (if cchar cursor 0 = NUL then n
      else case sms_utf8_next cursor of
        None \<Rightarrow> SIZE_MAX
      | Some (cp, rest) \<Rightarrow>
          (case gsm7_find cp of
             None \<Rightarrow> SIZE_MAX
           | Some ss \<Rightarrow>
               if SIZE_MAX - n < length ss then SIZE_MAX
               else gsm7_count_loop (n + length ss) rest))"
  by pat_completeness auto
termination
  by (relation "measure (\<lambda>(n, cursor). length cursor)") (auto dest: sms_utf8_next_shorter)

definition sms_gsm7_septet_count :: "string \<Rightarrow> nat" where
  "sms_gsm7_septet_count utf8_text = gsm7_count_loop 0 utf8_text"

function gsm7_encode_loop :: "nat \<Rightarrow> u8 list \<Rightarrow> string \<Rightarrow> u8 list option" where
  "gsm7_encode_loop capacity out cursor =
     (if cchar cursor 0 = NUL then Some out
      else case sms_utf8_next cursor of
        None \<Rightarrow> None
      | Some (cp, rest) \<Rightarrow>
          (case gsm7_find cp of
             None \<Rightarrow> None
           | Some ss \<Rightarrow>
               if capacity < length out + length ss then None
               else gsm7_encode_loop capacity (out @ ss) rest))"
  by pat_completeness auto
termination
  by (relation "measure (\<lambda>(capacity, out, cursor). length cursor)")
     (auto dest: sms_utf8_next_shorter)

definition sms_gsm7_encode :: "string \<Rightarrow> nat \<Rightarrow> u8 list option" where
  "sms_gsm7_encode utf8_text septet_capacity = gsm7_encode_loop septet_capacity [] utf8_text"

definition gsm7_extension_decode :: "u8 \<Rightarrow> u32 option" where
  "gsm7_extension_decode value =
     map_option codepoint (find (\<lambda>e. extension e = value) s_gsm7_extension)"

fun gsm7_decode_loop :: "nat \<Rightarrow> string \<Rightarrow> u8 list \<Rightarrow> string option" where
  "gsm7_decode_loop capacity out [] = Some out"
| "gsm7_decode_loop capacity out (s # ss) =
     (if s = 0x1B then
        (case ss of
           [] \<Rightarrow> None
         | e # ss' \<Rightarrow>
             (case gsm7_extension_decode e of
                None \<Rightarrow> None
              | Some cp \<Rightarrow>
                  (case sms_utf8_append cp out capacity of
                     None \<Rightarrow> None
                   | Some out' \<Rightarrow> gsm7_decode_loop capacity out' ss')))
      else
        (case sms_utf8_append (s_gsm7_basic ! unat (s AND 0x7F)) out capacity of
           None \<Rightarrow> None
         | Some out' \<Rightarrow> gsm7_decode_loop capacity out' ss))"

definition sms_gsm7_decode :: "u8 list \<Rightarrow> nat \<Rightarrow> string option" where
  "sms_gsm7_decode septets utf8_capacity =
     (if utf8_capacity = 0 then None else gsm7_decode_loop utf8_capacity [] septets)"

declare gsm7_count_loop.simps [simp del] gsm7_encode_loop.simps [simp del]

section \<open>Texts as code points\<close>

text \<open>The code points of a C string, the specification the loops of this file refine.\<close>

function utf8_codepoints :: "string \<Rightarrow> u32 list option" where
  "utf8_codepoints s =
     (if cchar s 0 = NUL then Some []
      else case sms_utf8_next s of
        None \<Rightarrow> None
      | Some (cp, rest) \<Rightarrow> map_option ((#) cp) (utf8_codepoints rest))"
  by pat_completeness auto
termination
  by (relation "measure length") (auto dest: sms_utf8_next_shorter)

declare utf8_codepoints.simps [simp del]

definition text_of_codepoints :: "u32 list \<Rightarrow> string" where
  "text_of_codepoints cps = concat (map (\<lambda>cp. map char_of_byte (the (utf8_octets cp))) cps)"

fun gsm7_septets :: "u32 list \<Rightarrow> u8 list option" where
  "gsm7_septets [] = Some []"
| "gsm7_septets (cp # cps) =
     (case gsm7_find cp of
        None \<Rightarrow> None
      | Some ss \<Rightarrow> map_option ((@) ss) (gsm7_septets cps))"

definition gsm7_of_text :: "string \<Rightarrow> u8 list option" where
  "gsm7_of_text s = Option.bind (utf8_codepoints s) gsm7_septets"

definition scalar_value :: "u32 \<Rightarrow> bool" where
  "scalar_value cp \<longleftrightarrow> cp \<le> 0x10FFFF \<and> \<not> (0xD800 \<le> cp \<and> cp \<le> 0xDFFF)"

text \<open>The code points the reader assembles from two, three and four octets.\<close>

definition utf8_cp2 :: "u8 \<Rightarrow> u8 \<Rightarrow> u32" where
  "utf8_cp2 b0 b1 = push_bit 6 (ucast (b0 AND 0x1F)) OR ucast (b1 AND 0x3F)"
definition utf8_cp3 :: "u8 \<Rightarrow> u8 \<Rightarrow> u8 \<Rightarrow> u32" where
  "utf8_cp3 b0 b1 b2 = push_bit 12 (ucast (b0 AND 0x0F)) OR push_bit 6 (ucast (b1 AND 0x3F)) OR ucast (b2 AND 0x3F)"
definition utf8_cp4 :: "u8 \<Rightarrow> u8 \<Rightarrow> u8 \<Rightarrow> u8 \<Rightarrow> u32" where
  "utf8_cp4 b0 b1 b2 b3 = push_bit 18 (ucast (b0 AND 0x07)) OR push_bit 12 (ucast (b1 AND 0x3F))
                       OR push_bit 6 (ucast (b2 AND 0x3F)) OR ucast (b3 AND 0x3F)"

definition continuation :: "u8 \<Rightarrow> bool" where
  "continuation b \<longleftrightarrow> bit b 7 \<and> \<not> bit b 6"

section \<open>UTF-8 lemmas\<close>

lemma lead2: "(b::u8) AND 0xE0 = 0xC0 \<longleftrightarrow> bit b 7 \<and> bit b 6 \<and> \<not> bit b 5"
  by (auto simp: word_eq_bits bit_simps All_less_numeral)
lemma lead3: "(b::u8) AND 0xF0 = 0xE0 \<longleftrightarrow> bit b 7 \<and> bit b 6 \<and> bit b 5 \<and> \<not> bit b 4"
  by (auto simp: word_eq_bits bit_simps All_less_numeral)
lemma lead4: "(b::u8) AND 0xF8 = 0xF0 \<longleftrightarrow> bit b 7 \<and> bit b 6 \<and> bit b 5 \<and> bit b 4 \<and> \<not> bit b 3"
  by (auto simp: word_eq_bits bit_simps All_less_numeral)
lemma cont: "(b::u8) AND 0xC0 = 0x80 \<longleftrightarrow> bit b 7 \<and> \<not> bit b 6"
  by (auto simp: word_eq_bits bit_simps All_less_numeral)
lemma ascii: "(b::u8) < 0x80 \<longleftrightarrow> \<not> bit b 7"
proof
  assume "b < 0x80"
  then have "unat b < 2 ^ 7" by (simp add: word_less_nat_alt)
  then show "\<not> bit b 7" by (rule bit_word_less) simp
next
  assume a: "\<not> bit b 7"
  then have "unat b < 2 ^ 7" by (intro unat_less_bits) (simp add: All_less_numeral)
  then show "b < 0x80" by (simp add: word_less_nat_alt)
qed

lemmas utf8_masks = lead2 lead3 lead4 cont ascii

lemma high_bits:
  fixes cp :: u32
  shows "cp \<le> 0x7F \<Longrightarrow> 7 \<le> n \<Longrightarrow> \<not> bit cp n"
  "cp \<le> 0x7FF \<Longrightarrow> 11 \<le> n \<Longrightarrow> \<not> bit cp n"
  "cp \<le> 0xFFFF \<Longrightarrow> 16 \<le> n \<Longrightarrow> \<not> bit cp n"
  "cp \<le> 0x10FFFF \<Longrightarrow> 21 \<le> n \<Longrightarrow> \<not> bit cp n"
  using bit_word_less [of cp 7 n] bit_word_less [of cp 11 n] bit_word_less [of cp 16 n]
    bit_word_less [of cp 21 n]
  by (simp_all add: word_le_nat_alt)

lemma assemble2:
  fixes cp :: u32
  assumes "cp \<le> 0x7FF"
  shows "push_bit 6 (ucast ((0xC0 OR (ucast (drop_bit 6 cp) :: u8)) AND 0x1F))
           OR ucast ((0x80 OR (ucast (cp AND 0x3F) :: u8)) AND 0x3F) = cp"
  using high_bits(2) [OF assms]
  by (intro word_eq_bitsI) (simp add: bit_simps All_less_numeral)

lemma assemble3:
  fixes cp :: u32
  assumes "cp \<le> 0xFFFF"
  shows "push_bit 12 (ucast ((0xE0 OR (ucast (drop_bit 12 cp) :: u8)) AND 0x0F))
           OR push_bit 6 (ucast ((0x80 OR (ucast (drop_bit 6 cp AND 0x3F) :: u8)) AND 0x3F))
           OR ucast ((0x80 OR (ucast (cp AND 0x3F) :: u8)) AND 0x3F) = cp"
  using high_bits(3) [OF assms]
  by (intro word_eq_bitsI) (simp add: bit_simps All_less_numeral)

lemma assemble4:
  fixes cp :: u32
  assumes "cp \<le> 0x10FFFF"
  shows "push_bit 18 (ucast ((0xF0 OR (ucast (drop_bit 18 cp) :: u8)) AND 0x07))
           OR push_bit 12 (ucast ((0x80 OR (ucast (drop_bit 12 cp AND 0x3F) :: u8)) AND 0x3F))
           OR push_bit 6 (ucast ((0x80 OR (ucast (drop_bit 6 cp AND 0x3F) :: u8)) AND 0x3F))
           OR ucast ((0x80 OR (ucast (cp AND 0x3F) :: u8)) AND 0x3F) = cp"
  using high_bits(4) [OF assms]
  by (intro word_eq_bitsI) (simp add: bit_simps All_less_numeral)

lemma bit7_nonzero: "bit (b::u8) 7 \<Longrightarrow> b \<noteq> 0"
  by auto

lemma utf8_next1: "b \<noteq> 0 \<Longrightarrow> \<not> bit b 7 \<Longrightarrow> sms_utf8_next (char_of_byte b # r) = Some (ucast b, r)"
  by (simp add: sms_utf8_next_def Let_def utf8_masks)

lemma utf8_next2:
  assumes "bit b0 7" "bit b0 6" "\<not> bit b0 5" "continuation b1" "\<not> utf8_cp2 b0 b1 < 0x80"
  shows "sms_utf8_next (char_of_byte b0 # char_of_byte b1 # r) = Some (utf8_cp2 b0 b1, r)"
  using assms bit7_nonzero [of b0]
  by (simp add: sms_utf8_next_def Let_def utf8_masks continuation_def utf8_cp2_def)

lemma utf8_next3:
  assumes "bit b0 7" "bit b0 6" "bit b0 5" "\<not> bit b0 4" "continuation b1" "continuation b2"
    "\<not> utf8_cp3 b0 b1 b2 < 0x800" "\<not> (0xD800 \<le> utf8_cp3 b0 b1 b2 \<and> utf8_cp3 b0 b1 b2 \<le> 0xDFFF)"
  shows "sms_utf8_next (char_of_byte b0 # char_of_byte b1 # char_of_byte b2 # r) = Some (utf8_cp3 b0 b1 b2, r)"
  using assms bit7_nonzero [of b0]
  by (simp add: sms_utf8_next_def Let_def utf8_masks continuation_def utf8_cp3_def)

lemma utf8_next4:
  assumes "bit b0 7" "bit b0 6" "bit b0 5" "bit b0 4" "\<not> bit b0 3" "continuation b1" "continuation b2" "continuation b3"
    "\<not> utf8_cp4 b0 b1 b2 b3 < 0x10000" "utf8_cp4 b0 b1 b2 b3 \<le> 0x10FFFF"
  shows "sms_utf8_next (char_of_byte b0 # char_of_byte b1 # char_of_byte b2 # char_of_byte b3 # r) = Some (utf8_cp4 b0 b1 b2 b3, r)"
  using assms bit7_nonzero [of b0]
  by (simp add: sms_utf8_next_def Let_def utf8_masks continuation_def utf8_cp4_def)

lemma continuation_nonzero: "continuation b \<Longrightarrow> b \<noteq> 0"
  by (auto simp: continuation_def)

lemma cbytes_split:
  assumes "cbyte s k \<noteq> 0"
  shows "s = map (\<lambda>i. char_of_byte (cbyte s i)) [0..<Suc k] @ drop (Suc k) s"
proof -
  have k: "k < length s" using assms by (auto simp: cbyte_def cchar_def split: if_splits)
  then have "map (\<lambda>i. char_of_byte (cbyte s i)) [0..<Suc k] = take (Suc k) s"
    by (intro nth_equalityI) (auto simp: cbyte_def cchar_def simp del: upt_Suc)
  then show ?thesis by (metis append_take_drop_id)
qed

lemma utf8_next_cases:
  assumes "sms_utf8_next s = Some (cp, r)"
  obtains (one) b where "s = char_of_byte b # r" "b \<noteq> 0" "\<not> bit b 7" "cp = ucast b"
  | (two) b0 b1 where "s = map char_of_byte [b0, b1] @ r" "bit b0 7" "bit b0 6" "\<not> bit b0 5" "continuation b1"
     "cp = utf8_cp2 b0 b1" "\<not> cp < 0x80"
  | (three) b0 b1 b2 where "s = map char_of_byte [b0, b1, b2] @ r" "bit b0 7" "bit b0 6" "bit b0 5" "\<not> bit b0 4"
     "continuation b1" "continuation b2"  "cp = utf8_cp3 b0 b1 b2" "\<not> cp < 0x800" "\<not> (0xD800 \<le> cp \<and> cp \<le> 0xDFFF)"
  | (four) b0 b1 b2 b3 where "s = map char_of_byte [b0, b1, b2, b3] @ r" "bit b0 7" "bit b0 6" "bit b0 5" "bit b0 4" "\<not> bit b0 3"
     "continuation b1" "continuation b2" "continuation b3" "cp = utf8_cp4 b0 b1 b2 b3" "\<not> cp < 0x10000" "cp \<le> 0x10FFFF"
proof -
  let ?p = "cbyte s"
  consider "?p 0 \<noteq> 0" "\<not> bit (?p 0) 7" "cp = ucast (?p 0)" "r = drop 1 s"
    | "bit (?p 0) 7" "bit (?p 0) 6" "\<not> bit (?p 0) 5" "continuation (?p 1)"
      "cp = utf8_cp2 (?p 0) (?p 1)" "\<not> cp < 0x80" "r = drop 2 s"
    | "bit (?p 0) 7" "bit (?p 0) 6" "bit (?p 0) 5" "\<not> bit (?p 0) 4"
      "continuation (?p 1)" "continuation (?p 2)" "cp = utf8_cp3 (?p 0) (?p 1) (?p 2)"
      "\<not> cp < 0x800" "\<not> (0xD800 \<le> cp \<and> cp \<le> 0xDFFF)" "r = drop 3 s"
    | "bit (?p 0) 7" "bit (?p 0) 6" "bit (?p 0) 5" "bit (?p 0) 4" "\<not> bit (?p 0) 3"
      "continuation (?p 1)" "continuation (?p 2)" "continuation (?p 3)"
      "cp = utf8_cp4 (?p 0) (?p 1) (?p 2) (?p 3)" "\<not> cp < 0x10000" "cp \<le> 0x10FFFF" "r = drop 4 s"
    using assms
    by (simp add: sms_utf8_next_def Let_def utf8_masks continuation_def utf8_cp2_def utf8_cp3_def
        utf8_cp4_def split: if_splits) force+
  then show thesis
  proof cases
    case 1
    then show thesis using one cbytes_split [of s 0] by simp
  next
    case 2
    then have "s = map char_of_byte [?p 0, ?p 1] @ drop 2 s"
      using cbytes_split [of s 1] by (simp add: continuation_nonzero numeral_2_eq_2)
    with 2 show thesis by (intro two) simp_all
  next
    case 3
    then have "s = map char_of_byte [?p 0, ?p 1, ?p 2] @ drop 3 s"
      using cbytes_split [of s 2] by (simp add: continuation_nonzero numeral_2_eq_2 numeral_3_eq_3)
    with 3 show thesis by (intro three) simp_all
  next
    case 4
    then have "s = map char_of_byte [?p 0, ?p 1, ?p 2, ?p 3] @ drop 4 s"
      using cbytes_split [of s 3] by (simp add: continuation_nonzero eval_nat_numeral)
    with 4 show thesis by (intro four) simp_all
  qed
qed

lemma cp_ranges:
  fixes cp :: u32
  shows "cp < 0x80 \<longleftrightarrow> cp \<le> 0x7F" "cp < 0x800 \<longleftrightarrow> cp \<le> 0x7FF" "cp < 0x10000 \<longleftrightarrow> cp \<le> 0xFFFF"
  by (auto simp: word_less_nat_alt word_le_nat_alt)

lemma utf8_octets_lead: 
  fixes cp :: u32
  shows "cp \<le> 0x7FF \<Longrightarrow> b = 0xC0 OR (ucast (drop_bit 6 cp) :: u8) \<Longrightarrow> bit b 7 \<and> bit b 6 \<and> \<not> bit b 5"
   "cp \<le> 0xFFFF \<Longrightarrow> b = 0xE0 OR (ucast (drop_bit 12 cp) :: u8) \<Longrightarrow> bit b 7 \<and> bit b 6 \<and> bit b 5 \<and> \<not> bit b 4"
   "cp \<le> 0x10FFFF \<Longrightarrow> b = 0xF0 OR (ucast (drop_bit 18 cp) :: u8) \<Longrightarrow> bit b 7 \<and> bit b 6 \<and> bit b 5 \<and> bit b 4 \<and> \<not> bit b 3"
  using high_bits(2-4) [of cp] by (simp_all add: bit_simps)

lemma continuation_octet: "continuation (0x80 OR ucast ((w::u32) AND 0x3F))"
  by (simp add: continuation_def bit_simps)

lemma utf8_next_octets:
  assumes "scalar_value cp" and "cp \<noteq> 0" and "utf8_octets cp = Some bs"
  shows "sms_utf8_next (map char_of_byte bs @ r) = Some (cp, r)"
proof -
  consider (a) "cp \<le> 0x7F" | (b) "\<not> cp \<le> 0x7F" "cp \<le> 0x7FF" 
    | (c) "\<not> cp \<le> 0x7FF" "cp \<le> 0xFFFF" "\<not> cp \<le> 0x7F"
    | (d) "\<not> cp \<le> 0xFFFF" "cp \<le> 0x10FFFF" "\<not> cp \<le> 0x7F" "\<not> cp \<le> 0x7FF"
    using assms(1) by (fastforce simp: scalar_value_def word_le_nat_alt)
  then show ?thesis
  proof cases
    case a
    have e: "ucast (ucast cp :: u8) = cp"
      using high_bits(1) [OF a] by (intro word_eq_bitsI) (simp add: bit_simps All_less_numeral)
    then have "(ucast cp :: u8) \<noteq> 0" using assms(2) by auto
    then have "sms_utf8_next (char_of_byte (ucast cp) # r) = Some (ucast (ucast cp :: u8), r)"
      using high_bits(1) [OF a] by (intro utf8_next1) (simp_all add: bit_simps)
    then show ?thesis using assms(3) a e by (auto simp: utf8_octets_def)
  next
    case b
    then show ?thesis using assms(3) utf8_next2 [of "0xC0 OR ucast (drop_bit 6 cp)" "0x80 OR ucast (cp AND 0x3F)" r]
      utf8_octets_lead(1) [OF b(2) refl]
      by (auto simp: utf8_octets_def continuation_octet utf8_cp2_def assemble2 cp_ranges)
  next
    case c
    then show ?thesis using assms(1,3) utf8_next3 [of "0xE0 OR ucast (drop_bit 12 cp)" "0x80 OR ucast (drop_bit 6 cp AND 0x3F)" "0x80 OR ucast (cp AND 0x3F)" r]
      utf8_octets_lead(2) [OF c(2) refl]
      by (auto simp: utf8_octets_def continuation_octet utf8_cp3_def assemble3 scalar_value_def cp_ranges)
  next
    case d
    then show ?thesis using assms(1,3) utf8_next4 [of "0xF0 OR ucast (drop_bit 18 cp)" "0x80 OR ucast (drop_bit 12 cp AND 0x3F)" "0x80 OR ucast (drop_bit 6 cp AND 0x3F)" "0x80 OR ucast (cp AND 0x3F)" r]
      utf8_octets_lead(3) [OF d(2) refl]
      by (auto simp: utf8_octets_def continuation_octet utf8_cp4_def assemble4 scalar_value_def cp_ranges)
  qed
qed

lemma octets2:
  assumes "bit b0 7" "bit b0 6" "\<not> bit b0 5" "continuation b1" "cp = utf8_cp2 b0 b1"
  shows "0xC0 OR ucast (drop_bit 6 cp) = b0" "0x80 OR ucast (cp AND 0x3F) = b1" "cp \<le> 0x7FF"
proof -
  show "0xC0 OR ucast (drop_bit 6 cp) = b0" "0x80 OR ucast (cp AND 0x3F) = b1"
    using assms
    by (intro word_eq_bitsI, simp add: bit_simps All_less_numeral utf8_cp2_def continuation_def)+
  have "unat cp < 2 ^ 11"
    by (rule unat_less_bits) (simp add: assms bit_simps utf8_cp2_def All_less_numeral)
  then show "cp \<le> 0x7FF" by (simp add: word_le_nat_alt)
qed

lemma octets3:
  assumes "bit b0 7" "bit b0 6" "bit b0 5" "\<not> bit b0 4" "continuation b1" "continuation b2" "cp = utf8_cp3 b0 b1 b2"
  shows "0xE0 OR ucast (drop_bit 12 cp) = b0" "0x80 OR ucast (drop_bit 6 cp AND 0x3F) = b1" "0x80 OR ucast (cp AND 0x3F) = b2" "cp \<le> 0xFFFF"
proof -
  show "0xE0 OR ucast (drop_bit 12 cp) = b0" "0x80 OR ucast (drop_bit 6 cp AND 0x3F) = b1" "0x80 OR ucast (cp AND 0x3F) = b2"
    using assms
    by (intro word_eq_bitsI, simp add: bit_simps All_less_numeral utf8_cp3_def continuation_def)+
  have "unat cp < 2 ^ 16"
    by (rule unat_less_bits) (simp add: assms bit_simps utf8_cp3_def All_less_numeral)
  then show "cp \<le> 0xFFFF" by (simp add: word_le_nat_alt)
qed

lemma octets4:
  assumes "bit b0 7" "bit b0 6" "bit b0 5" "bit b0 4" "\<not> bit b0 3" "continuation b1" "continuation b2" "continuation b3" "cp = utf8_cp4 b0 b1 b2 b3"
  shows "0xF0 OR ucast (drop_bit 18 cp) = b0" "0x80 OR ucast (drop_bit 12 cp AND 0x3F) = b1" "0x80 OR ucast (drop_bit 6 cp AND 0x3F) = b2" "0x80 OR ucast (cp AND 0x3F) = b3"
  using assms
  by (intro word_eq_bitsI, simp add: bit_simps All_less_numeral utf8_cp4_def continuation_def)+

lemma ascii_range: "\<not> bit (b::u8) 7 \<Longrightarrow> (ucast b :: u32) \<le> 0x7F"
proof -
  assume "\<not> bit b 7"
  then have "unat (ucast b :: u32) < 2 ^ 7"
    by (intro unat_less_bits) (auto simp: All_less_numeral bit_simps dest!: bit_imp_le_length)
  then show ?thesis by (simp add: word_le_nat_alt)
qed

lemma scalar_valueI:
  "cp \<le> 0x7FF \<Longrightarrow> scalar_value cp"
  "cp \<le> 0xFFFF \<Longrightarrow> \<not> (0xD800 \<le> cp \<and> cp \<le> 0xDFFF) \<Longrightarrow> scalar_value cp"
  "\<not> cp \<le> 0xFFFF \<Longrightarrow> cp \<le> 0x10FFFF \<Longrightarrow> scalar_value cp"
  by (auto simp: scalar_value_def word_le_nat_alt)

lemma cp_mono:
  fixes cp :: u32
  shows "\<not> cp \<le> 0x7FF \<Longrightarrow> \<not> cp \<le> 0x7F" "\<not> cp \<le> 0xFFFF \<Longrightarrow> \<not> cp \<le> 0x7FF" "\<not> cp \<le> 0x7F \<Longrightarrow> cp \<noteq> 0"
  "cp \<le> 0x7F \<Longrightarrow> cp \<le> 0x7FF"
  by (auto simp: word_le_nat_alt)

lemma utf8_next_canonical:
  assumes "sms_utf8_next s = Some (cp, r)"
  shows "scalar_value cp \<and> cp \<noteq> 0 \<and> (\<exists>bs. utf8_octets cp = Some bs \<and> s = map char_of_byte bs @ r)"
  using assms
proof (cases rule: utf8_next_cases)
  case (one b)
  then have r: "cp \<le> 0x7F" using ascii_range by simp
  moreover have u: "ucast cp = b"
    using one(4) by (intro word_eq_bitsI) (simp add: bit_simps All_less_numeral)
  ultimately have "utf8_octets cp = Some [b]" by (simp add: utf8_octets_def)
  moreover have "cp \<noteq> 0" using u one(2) by auto
  ultimately show ?thesis
    using one(1) scalar_valueI(1) [OF cp_mono(4) [OF r]] by (intro conjI exI [of _ "[b]"]) simp_all
next
  case (two b0 b1)
  note o = octets2 [OF two(2-6)]
  have n: "\<not> cp \<le> 0x7F" using two(7) unfolding cp_ranges .
  with o have "utf8_octets cp = Some [b0, b1]" by (simp add: utf8_octets_def)
  then show ?thesis using two(1) scalar_valueI(1) [OF o(3)] cp_mono(3) [OF n] by blast
next
  case (three b0 b1 b2)
  note o = octets3 [OF three(2-8)]
  have n: "\<not> cp \<le> 0x7FF" using three(9) unfolding cp_ranges .
  with o three(10) have "utf8_octets cp = Some [b0, b1, b2]"
    using cp_mono(1) [OF n] by (simp add: utf8_octets_def)
  then show ?thesis
    using three(1) scalar_valueI(2) [OF o(4) three(10)] cp_mono(3) [OF cp_mono(1) [OF n]] by blast
next
  case (four b0 b1 b2 b3)
  note o = octets4 [OF four(2-10)]
  have n: "\<not> cp \<le> 0xFFFF" using four(11) unfolding cp_ranges .
  with o four(12) have "utf8_octets cp = Some [b0, b1, b2, b3]"
    using cp_mono(2) [OF n] cp_mono(1) [OF cp_mono(2) [OF n]] by (simp add: utf8_octets_def)
  then show ?thesis
    using four(1) scalar_valueI(3) [OF n four(12)] cp_mono(3) [OF cp_mono(1) [OF cp_mono(2) [OF n]]]
    by blast
qed

section \<open>Lemmas on texts\<close>

lemma text_of_codepoints_simps [simp]:
  "text_of_codepoints [] = []"
  "text_of_codepoints (cp # cps) = map char_of_byte (the (utf8_octets cp)) @ text_of_codepoints cps"
  "text_of_codepoints (cps @ cps') = text_of_codepoints cps @ text_of_codepoints cps'"
  by (simp_all add: text_of_codepoints_def)

lemma scalar_octets:
  assumes "scalar_value cp"
  obtains bs where "utf8_octets cp = Some bs" "bs \<noteq> []" "length bs \<le> 4"
  using assms by (fastforce simp: scalar_value_def utf8_octets_def split: if_splits)

lemma cchar_0_iff: "cstring s \<Longrightarrow> cchar s 0 = NUL \<longleftrightarrow> s = []"
  by (cases s) auto

lemma utf8_codepoints_text:
  assumes "cstring s" and "utf8_codepoints s = Some cps"
  shows "s = text_of_codepoints cps \<and> (\<forall>cp \<in> set cps. scalar_value cp \<and> cp \<noteq> 0)"
  using assms
proof (induction s arbitrary: cps rule: utf8_codepoints.induct)
  case (1 s)
  show ?case
  proof (cases "s = []")
    case True
    with 1 show ?thesis by (simp add: utf8_codepoints.simps [of "[]"])
  next
    case False
    then have c: "cchar s 0 \<noteq> NUL" using "1.prems" by (simp add: cchar_0_iff)
    then obtain cp r cps' where n: "sms_utf8_next s = Some (cp, r)"
      and r: "utf8_codepoints r = Some cps'" and cps: "cps = cp # cps'"
      using "1.prems"(2) by (auto simp: utf8_codepoints.simps [of s] split: option.splits)
    from utf8_next_canonical [OF n] obtain bs where bs: "utf8_octets cp = Some bs" "s = map char_of_byte bs @ r"
      and v: "scalar_value cp" "cp \<noteq> 0" by blast
    have "cstring r" using "1.prems"(1) bs by simp
    with "1.IH" [OF c n refl] r have "r = text_of_codepoints cps' \<and> (\<forall>cp \<in> set cps'. scalar_value cp \<and> cp \<noteq> 0)"
      by blast
    with cps bs v show ?thesis by simp
  qed
qed

lemma gsm7_find_cases:
  assumes "gsm7_find cp = Some ss"
  obtains (basic) i where "ss = [word_of_nat i]" "i < 128" "i \<noteq> 0x1B" "s_gsm7_basic ! i = cp"
  | (ext) e where "ss = [0x1B, extension e]" "e \<in> set s_gsm7_extension" "codepoint e = cp"
  using assms unfolding gsm7_find_def
  by (auto simp: find_Some_iff in_set_conv_nth split: option.splits)

lemma gsm7_find_length: "gsm7_find cp = Some ss \<Longrightarrow> length ss = 1 \<or> length ss = 2"
  by (erule gsm7_find_cases) auto

lemma gsm7_extension_decode_extension:
  "e \<in> set s_gsm7_extension \<Longrightarrow> gsm7_extension_decode (extension e) = Some (codepoint e)"
  by (auto simp: s_gsm7_extension_def gsm7_extension_decode_def)

lemma and_7F_basic: "i < 128 \<Longrightarrow> unat (word_of_nat i AND (0x7F::u8)) = i"
proof -
  assume i: "i < 128"
  then have "unat (word_of_nat i :: u8) < 2 ^ 7" by (simp add: unat_of_nat)
  then have "(word_of_nat i :: u8) AND 0x7F = word_of_nat i"
    using bit_word_less [of "word_of_nat i :: u8" 7 7]
    by (intro word_eq_bitsI) (simp add: bit_simps All_less_numeral)
  with i show ?thesis by (simp add: unat_of_nat)
qed

lemma utf8_append_octets:
  assumes "utf8_octets cp = Some bs" and "length out + length bs < capacity"
  shows "sms_utf8_append cp out capacity = Some (out @ map char_of_byte bs)"
  using assms by (simp add: sms_utf8_append_def)

lemma gsm7_decode_find:
  assumes "gsm7_find cp = Some fs" and "utf8_octets cp = Some bs"
    and "length out + length bs < capacity"
  shows "gsm7_decode_loop capacity out (fs @ ss) = gsm7_decode_loop capacity (out @ map char_of_byte bs) ss"
  using assms(1)
proof (cases rule: gsm7_find_cases)
  case (basic i)
  have "(word_of_nat i :: u8) \<noteq> 0x1B"
  proof
    assume "(word_of_nat i :: u8) = 0x1B"
    then have "unat (word_of_nat i :: u8) = 27" by simp
    then show False using basic by (simp add: unat_of_nat)
  qed
  then show ?thesis
    using basic utf8_append_octets [OF assms(2,3)] by (simp add: and_7F_basic)
next
  case (ext e)
  then show ?thesis
    using utf8_append_octets [OF assms(2,3)] by (simp add: gsm7_extension_decode_extension)
qed

lemma gsm7_decode_septets:
  assumes "gsm7_septets cps = Some ss" and "\<forall>cp \<in> set cps. scalar_value cp"
    and "length out + length (text_of_codepoints cps) < capacity"
  shows "gsm7_decode_loop capacity out ss = Some (out @ text_of_codepoints cps)"
  using assms
proof (induction cps arbitrary: ss out)
  case Nil
  then show ?case by simp
next
  case (Cons cp cps)
  from Cons.prems(1) obtain fs ss' where f: "gsm7_find cp = Some fs" "gsm7_septets cps = Some ss'"
    and ss: "ss = fs @ ss'" by (auto split: option.splits)
  from Cons.prems(2) obtain bs where bs: "utf8_octets cp = Some bs"
    by (auto elim: scalar_octets)
  show ?case
    using Cons.prems(2,3) Cons.IH [OF f(2), of "out @ map char_of_byte bs"] gsm7_decode_find [OF f(1) bs] bs ss
    by simp
qed

lemma gsm7_of_text_rec:
  "gsm7_of_text s =
     (if cchar s 0 = NUL then Some []
      else case sms_utf8_next s of
        None \<Rightarrow> None
      | Some (cp, r) \<Rightarrow>
          (case gsm7_find cp of
             None \<Rightarrow> None
           | Some ss \<Rightarrow> map_option ((@) ss) (gsm7_of_text r)))"
proof -
  have "Option.bind (map_option ((#) cp) (utf8_codepoints r)) gsm7_septets =
      (case gsm7_find cp of None \<Rightarrow> None
       | Some ss \<Rightarrow> map_option ((@) ss) (Option.bind (utf8_codepoints r) gsm7_septets))" for cp r
    by (cases "utf8_codepoints r") (auto split: option.splits)
  then show ?thesis
    unfolding gsm7_of_text_def by (subst utf8_codepoints.simps) (auto split: option.splits)
qed

lemma gsm7_encode_loop_spec:
  "length out \<le> capacity \<Longrightarrow>
   gsm7_encode_loop capacity out s =
     (case gsm7_of_text s of
        None \<Rightarrow> None
      | Some ss \<Rightarrow> if length out + length ss \<le> capacity then Some (out @ ss) else None)"
proof (induction capacity out s rule: gsm7_encode_loop.induct)
  case (1 capacity out s)
  then show ?case
    by (subst gsm7_encode_loop.simps, subst gsm7_of_text_rec) (auto split: option.splits)
qed

lemma gsm7_count_loop_spec:
  "n \<le> SIZE_MAX \<Longrightarrow>
   gsm7_count_loop n s =
     (case gsm7_of_text s of
        None \<Rightarrow> SIZE_MAX
      | Some ss \<Rightarrow> if n + length ss \<le> SIZE_MAX then n + length ss else SIZE_MAX)"
proof (induction n s rule: gsm7_count_loop.induct)
  case (1 n s)
  then show ?case
    by (subst gsm7_count_loop.simps, subst gsm7_of_text_rec) (auto split: option.splits)
qed

lemma sms_gsm7_encode_spec:
  "sms_gsm7_encode s capacity =
     (case gsm7_of_text s of
        None \<Rightarrow> None
      | Some ss \<Rightarrow> if length ss \<le> capacity then Some ss else None)"
  by (simp add: sms_gsm7_encode_def gsm7_encode_loop_spec split: option.splits)

lemma sms_gsm7_septet_count_spec:
  "sms_gsm7_septet_count s =
     (case gsm7_of_text s of
        None \<Rightarrow> SIZE_MAX
      | Some ss \<Rightarrow> min (length ss) SIZE_MAX)"
  by (simp add: sms_gsm7_septet_count_def gsm7_count_loop_spec split: option.splits)

lemma gsm7_of_text_decode:
  assumes "cstring s" and "gsm7_of_text s = Some ss" and "length s < capacity"
  shows "sms_gsm7_decode ss capacity = Some s"
proof -
  obtain cps where cps: "utf8_codepoints s = Some cps" "gsm7_septets cps = Some ss"
    using assms(2) by (auto simp: gsm7_of_text_def bind_eq_Some_conv)
  from utf8_codepoints_text [OF assms(1) cps(1)] gsm7_decode_septets [OF cps(2), of "[]" capacity] assms(3)
  show ?thesis by (auto simp: sms_gsm7_decode_def)
qed

section \<open>Properties\<close>

text \<open>C17: the UTF-8 reader accepts only canonical UTF-8. Whenever \<open>sms_utf8_next\<close> returns
  a code point, it is a non-zero Unicode scalar value (no surrogate, nothing above 0x10FFFF) and
  the bytes it consumed are exactly the encoding \<open>sms_utf8_append\<close> computes for it, so
  over-long forms, stray continuation bytes and sequences cut off by the terminator are refused.\<close>

theorem utf8_next_accepts_only_canonical:
  assumes "sms_utf8_next s = Some (cp, rest)"
  shows "scalar_value cp \<and> cp \<noteq> 0 \<and>
    (\<exists>octets. utf8_octets cp = Some octets \<and> s = map char_of_byte octets @ rest)"
  using assms by (rule utf8_next_canonical)

theorem utf8_next_accepts_only_canonical_witness:
  "sms_utf8_next [CHR 0xC3, CHR 0xA4, CHR ''x''] = Some (0xE4, ''x'') \<and>
   scalar_value 0xE4 \<and>
   (\<exists>octets. utf8_octets 0xE4 = Some octets \<and>
      [CHR 0xC3, CHR 0xA4, CHR ''x''] = map char_of_byte octets @ ''x'')"
proof -
  have h: "sms_utf8_next [CHR 0xC3, CHR 0xA4, CHR ''x''] = Some (0xE4, ''x'')" by code_simp
  show ?thesis using h utf8_next_accepts_only_canonical [OF h] by blast
qed

text \<open>reading undoes writing. Appending a non-zero scalar value to a buffer and reading
  the bytes that were appended gives the same code point back and stops right behind them.\<close>

theorem utf8_append_then_next:
  assumes "scalar_value cp" and "cp \<noteq> 0"
    and "sms_utf8_append cp buffer capacity = Some buffer'"
  shows "take (length buffer) buffer' = buffer \<and> length buffer' < capacity \<and>
    sms_utf8_next (drop (length buffer) buffer' @ rest) = Some (cp, rest)"
  using assms utf8_next_octets [OF assms(1,2)]
  by (auto simp: sms_utf8_append_def split: if_splits option.splits)

theorem utf8_append_then_next_witness:
  "sms_utf8_append 0x20AC ''a'' 8 = Some [CHR ''a'', CHR 0xE2, CHR 0x82, CHR 0xAC] \<and>
   sms_utf8_next [CHR 0xE2, CHR 0x82, CHR 0xAC, CHR ''z''] = Some (0x20AC, ''z'')"
proof -
  have v: "scalar_value 0x20AC" by code_simp
  have h: "sms_utf8_append 0x20AC ''a'' 8 = Some [CHR ''a'', CHR 0xE2, CHR 0x82, CHR 0xAC]"
    by code_simp
  show ?thesis using h utf8_append_then_next [OF v _ h, of "''z''"] by simp
qed

text \<open>C14: the text conversion is loss-free. Whenever a C string can be encoded as GSM 03.38
  septets, decoding these septets into a buffer with room for it gives the same string back.\<close>

theorem gsm7_decode_encode:
  assumes "cstring text" and "sms_gsm7_encode text septet_capacity = Some septets"
    and "length text < utf8_capacity"
  shows "sms_gsm7_decode septets utf8_capacity = Some text"
  using assms gsm7_of_text_decode
  by (auto simp: sms_gsm7_encode_spec split: option.splits if_splits)

theorem gsm7_decode_encode_witness:
  "sms_gsm7_encode [CHR ''{'', CHR 0xC3, CHR 0xA4] 160 = Some [0x1B, 0x28, 0x7B] \<and>
   sms_gsm7_decode [0x1B, 0x28, 0x7B] 32 = Some [CHR ''{'', CHR 0xC3, CHR 0xA4]"
proof -
  have h: "sms_gsm7_encode [CHR ''{'', CHR 0xC3, CHR 0xA4] 160 = Some [0x1B, 0x28, 0x7B]"
    by code_simp
  have c: "cstring [CHR ''{'', CHR 0xC3, CHR 0xA4]" by code_simp
  show ?thesis using h gsm7_decode_encode [OF c h, of 32] by simp
qed

text \<open>the septet count is exact. \<open>sms_gsm7_septet_count\<close> gives a number other than
  \<open>SIZE_MAX\<close> only for a text that \<open>sms_gsm7_encode\<close> accepts, and then the encoding
  succeeds exactly for the capacities of at least that number, with that many septets.\<close>

theorem gsm7_septet_count_exact:
  assumes "sms_gsm7_septet_count text = n" and "n \<noteq> SIZE_MAX"
  shows "(\<exists>septets. sms_gsm7_encode text septet_capacity = Some septets \<and> length septets = n)
    = (n \<le> septet_capacity)"
  using assms
  by (auto simp: sms_gsm7_encode_spec sms_gsm7_septet_count_spec min_def split: option.splits if_splits)

theorem gsm7_septet_count_exact_witness:
  "(\<exists>septets. sms_gsm7_encode ''a{'' 3 = Some septets \<and> length septets = 3) = (3 \<le> (3::nat))"
proof -
  have "gsm7_of_text ''a{'' = Some [0x61, 0x1B, 0x28]" by code_simp
  then have h: "sms_gsm7_septet_count ''a{'' = 3"
    by (simp add: sms_gsm7_septet_count_spec SIZE_MAX_def)
  show ?thesis by (rule gsm7_septet_count_exact [OF h]) (simp add: SIZE_MAX_def)
qed

text \<open>a surrogate is not rejected. For a code point of the surrogate range
  \<open>sms_utf8_append\<close> falls through to the four-octet form and reports success, with bytes that
  the reader of the same file refuses.\<close>

theorem utf8_append_surrogate:
  assumes "0xD800 \<le> cp" and "cp \<le> 0xDFFF" and "length buffer + 4 < capacity"
  shows "\<exists>buffer'. sms_utf8_append cp buffer capacity = Some buffer' \<and>
    length buffer' = length buffer + 4 \<and>
    sms_utf8_next (drop (length buffer) buffer') = None"
proof -
  define o0 :: u8 where "o0 = 0xF0 OR ucast (drop_bit 18 cp)"
  define o1 :: u8 where "o1 = 0x80 OR ucast (drop_bit 12 cp AND 0x3F)"
  define o2 :: u8 where "o2 = 0x80 OR ucast (drop_bit 6 cp AND 0x3F)"
  define o3 :: u8 where "o3 = 0x80 OR ucast (cp AND 0x3F)"
  note o_defs = o0_def o1_def o2_def o3_def
  have r: "\<not> cp \<le> 0x7F" "\<not> cp \<le> 0x7FF" "cp \<le> 0xFFFF" "cp \<le> 0x10FFFF"
    using assms(1,2) by (simp_all add: word_le_nat_alt)
  then have o: "utf8_octets cp = Some [o0, o1, o2, o3]"
    using assms(1,2) by (simp add: utf8_octets_def o_defs)
  have b: "bit o0 7 \<and> bit o0 6 \<and> bit o0 5 \<and> bit o0 4"
    using utf8_octets_lead(3) [OF r(4) refl] by (simp add: o0_def)
  have cp: "utf8_cp4 o0 o1 o2 o3 = cp"
    using assemble4 [OF r(4)] by (simp add: utf8_cp4_def o_defs)
  have "sms_utf8_next (map char_of_byte [o0, o1, o2, o3]) = None"
  proof (rule ccontr)
    assume "sms_utf8_next (map char_of_byte [o0, o1, o2, o3]) \<noteq> None"
    then obtain c q where n: "sms_utf8_next (map char_of_byte [o0, o1, o2, o3]) = Some (c, q)"
      by auto
    from n show False
    proof (cases rule: utf8_next_cases)
      case (four b0 b1 b2 b3)
      then have "c = cp" using cp by simp
      with four(11) r(3) show False unfolding cp_ranges by simp
    qed (use b in auto)
  qed
  then show ?thesis using o assms(3) by (auto simp: sms_utf8_append_def)
qed

theorem utf8_append_surrogate_witness:
  "\<exists>buffer'. sms_utf8_append 0xD800 [] 16 = Some buffer' \<and> length buffer' = 4 \<and>
     sms_utf8_next buffer' = None"
  using utf8_append_surrogate [of "0xD800" "[]" 16] by simp

end
