(* ===== verification/Pdu_Octets.thy ===== *)
theory Pdu_Octets
  imports Gsm7
begin

text \<open>
  The octet level of \<open>components/sms_codec/sms_pdu.c\<close>: hexadecimal text, and the packing of
  septets into octets behind an optional user-data header. The lemmas describe both directions of
  the packing bit by bit; from them follow that unpacking undoes packing and that the header
  octets survive it.
\<close>

section \<open>Hexadecimal text\<close>

datatype sms_pdu_decode_result =
    SMS_PDU_DECODE_INVALID_HEX
  | SMS_PDU_DECODE_TRUNCATED
  | SMS_PDU_DECODE_UNSUPPORTED
  | SMS_PDU_DECODE_INVALID
  | SMS_PDU_DECODE_TEXT_TOO_LONG

definition hex_value :: "char \<Rightarrow> int" where
  "hex_value ch =
     (if 48 \<le> code ch \<and> code ch \<le> 57 then int (code ch) - 48
      else if 97 \<le> code ch \<and> code ch \<le> 102 then int (code ch) - 97 + 10
      else if 65 \<le> code ch \<and> code ch \<le> 70 then int (code ch) - 65 + 10
      else -1)"

fun hex_decode_loop :: "string \<Rightarrow> (sms_pdu_decode_result, u8 list) outcome" where
  "hex_decode_loop [] = Ret []"
| "hex_decode_loop [h] = Err SMS_PDU_DECODE_INVALID_HEX"
| "hex_decode_loop (h # l # rest) =
     (let high = hex_value h; low = hex_value l
      in if high < 0 \<or> low < 0 then Err SMS_PDU_DECODE_INVALID_HEX
         else and_then (hex_decode_loop rest)
                (\<lambda>out. Ret (word_of_int (push_bit 4 high OR low) # out)))"

definition hex_decode :: "string \<Rightarrow> nat \<Rightarrow> (sms_pdu_decode_result, u8 list) outcome" where
  "hex_decode hex out_capacity =
     (let len = length hex
      in if len mod 2 \<noteq> 0 then Err SMS_PDU_DECODE_INVALID_HEX
         else if len div 2 > out_capacity then Err SMS_PDU_DECODE_TRUNCATED
         else hex_decode_loop hex)"

definition hex_digits :: string where
  "hex_digits = ''0123456789ABCDEF''"

definition hex_encode :: "u8 list \<Rightarrow> nat \<Rightarrow> string option" where
  "hex_encode data out_capacity =
     (if out_capacity < length data * 2 + 1 then None
      else Some (concat (map (\<lambda>b. [hex_digits ! unat (drop_bit 4 b), hex_digits ! unat (b AND 0x0F)]) data)))"

section \<open>Septets\<close>

definition header_septets :: "nat \<Rightarrow> nat" where
  "header_septets header_bytes = (header_bytes * 8 + 6) div 7"

fun pack_loop :: "nat \<Rightarrow> u8 list \<Rightarrow> nat \<Rightarrow> u8 list \<Rightarrow> u8 list" where
  "pack_loop total_bytes out pos [] = out"
| "pack_loop total_bytes out pos (s # ss) =
     (let value = s AND 0x7F;
          byte_index = pos div 8;
          shift = pos mod 8;
          out = out[byte_index := out ! byte_index OR push_bit shift value];
          out = (if shift > 1 \<and> byte_index + 1 < total_bytes
                 then out[byte_index + 1 := out ! (byte_index + 1) OR drop_bit (8 - shift) value]
                 else out)
      in pack_loop total_bytes out (pos + 7) ss)"

text \<open>The packed octets and the user-data length in septets.\<close>

definition pack_septets :: "u8 list \<Rightarrow> u8 list \<Rightarrow> nat \<Rightarrow> (u8 list \<times> u8) option" where
  "pack_septets septets udh out_capacity =
     (let udh_len = length udh;
          hseptets = (if udh_len > 0 then header_septets udh_len else 0);
          total_septets = hseptets + length septets;
          total_bytes = (total_septets * 7 + 7) div 8
      in if total_septets > 255 \<or> total_bytes > out_capacity then None
         else let out = udh @ drop udh_len (replicate total_bytes 0)
              in Some (pack_loop total_bytes out (hseptets * 7) septets, word_of_nat total_septets))"

text \<open>
  \<open>packed\<close> is the memory from the pointer on; \<open>packed_len\<close> is the length the caller passes.
\<close>

fun unpack_loop :: "u8 list \<Rightarrow> nat \<Rightarrow> nat \<Rightarrow> nat \<Rightarrow> (unit, u8 list) outcome" where
  "unpack_loop packed packed_len pos 0 = Ret []"
| "unpack_loop packed packed_len pos (Suc count) =
     (let byte_index = pos div 8;
          shift = pos mod 8
      in if packed_len \<le> byte_index then Err ()
         else and_then (aread packed byte_index) (\<lambda>b0.
           let value = (ucast (drop_bit shift b0) :: u16) in
           and_then
             (if shift > 1 then
                (if packed_len \<le> byte_index + 1 then Err ()
                 else and_then (aread packed (byte_index + 1)) (\<lambda>b1.
                        Ret (value OR push_bit (8 - shift) (ucast b1))))
              else Ret value) (\<lambda>value.
           and_then (unpack_loop packed packed_len (pos + 7) count) (\<lambda>rest.
             Ret (ucast (value AND 0x7F) # rest)))))"

definition unpack_septets :: "u8 list \<Rightarrow> nat \<Rightarrow> nat \<Rightarrow> nat \<Rightarrow> (unit, u8 list) outcome" where
  "unpack_septets packed packed_len start_bit count = unpack_loop packed packed_len start_bit count"

text \<open>Bit \<open>j\<close> of an octet sequence, least significant bit of each octet first.\<close>

definition bit_at :: "u8 list \<Rightarrow> nat \<Rightarrow> bool" where
  "bit_at bs j = bit (bs ! (j div 8)) (j mod 8)"

text \<open>The septet that starts at bit \<open>pos\<close>.\<close>

definition septet_at :: "u8 list \<Rightarrow> nat \<Rightarrow> u8" where
  "septet_at bs pos = horner_sum of_bool 2 (map (\<lambda>b. bit_at bs (pos + b)) [0..<7])"

text \<open>The septets an optional header occupies in front of the text.\<close>

definition udh_septets :: "nat \<Rightarrow> nat" where
  "udh_septets udh_len = (if udh_len > 0 then header_septets udh_len else 0)"

section \<open>Lemmas on hexadecimal text\<close>

lemma hex_value_digit: "n < 16 \<Longrightarrow> hex_value (hex_digits ! n) = int n"
  by (auto simp: hex_digits_def hex_value_def numeral_eq_Suc less_Suc_eq)

lemma nibbles_word:
  fixes b :: u8
  shows "word_of_int (push_bit 4 (int (unat (drop_bit 4 b))) OR int (unat (b AND 0x0F))) = b"
proof -
  have "word_of_int (push_bit 4 (uint (drop_bit 4 b)) OR uint (b AND 0x0F)) = b"
    by (intro word_eq_bitsI) (simp add: bit_simps All_less_numeral)
  then show ?thesis by simp
qed

lemma nibble_bounds:
  fixes b :: u8
  shows "unat (drop_bit 4 b) < 16" "unat (b AND 0x0F) < 16"
  using unat_less_bits [of 4 "drop_bit 4 b"] unat_less_bits [of 4 "b AND 0x0F"]
  by (simp_all add: bit_simps All_less_numeral bit_u8_ge)

lemma hex_decode_loop_encode:
  "hex_decode_loop (concat (map (\<lambda>b. [hex_digits ! unat (drop_bit 4 b), hex_digits ! unat (b AND 0x0F)]) bs))
   = Ret bs"
proof (induction bs)
  case (Cons b bs)
  then show ?case
    using nibbles_word [of b] by (simp add: hex_value_digit nibble_bounds)
qed simp

lemma hex_encode_length: "hex_encode bs c = Some s \<Longrightarrow> length s = 2 * length bs"
  by (induction bs arbitrary: s) (auto simp: hex_encode_def split: if_splits)

lemma hex_decode_loop_length:
  "hex_decode_loop s = Ret bs \<Longrightarrow> length s = 2 * length bs"
  by (induction s arbitrary: bs rule: hex_decode_loop.induct)
     (auto simp: Let_def outcome_simps split: if_splits)

lemma hex_decode_loop_no_fault [simp]: "hex_decode_loop s \<noteq> Fault"
  by (induction s rule: hex_decode_loop.induct) (auto simp: Let_def outcome_simps)

lemma hex_decode_no_fault [simp]: "hex_decode s c \<noteq> Fault"
  by (simp add: hex_decode_def Let_def)

lemma hex_decode_length: "hex_decode s c = Ret bs \<Longrightarrow> length bs \<le> c"
  by (auto simp: hex_decode_def Let_def dest!: hex_decode_loop_length split: if_splits)

lemma hex_decode_chars: "hex_decode s c = Ret bs \<Longrightarrow> length s = 2 * length bs"
  by (auto simp: hex_decode_def Let_def dest!: hex_decode_loop_length split: if_splits)

lemma hex_decode_encode:
  "hex_encode bs c = Some s \<Longrightarrow> length bs \<le> c' \<Longrightarrow> hex_decode s c' = Ret bs"
  using hex_encode_length [of bs c s] hex_decode_loop_encode [of bs]
  by (auto simp: hex_decode_def hex_encode_def split: if_splits)

section \<open>Lemmas on septets\<close>

lemma bit_septet_at: "bit (septet_at bs pos) b \<longleftrightarrow> b < 7 \<and> bit_at bs (pos + b)"
  by (auto simp: septet_at_def bit_horner_sum_bit_iff possible_bit_word)

lemma and_7F_bit: "bit ((s::u8) AND 0x7F) b \<longleftrightarrow> b < 7 \<and> bit s b"
proof (cases "b < 8")
  case True
  then show ?thesis by (auto simp: numeral_eq_Suc less_Suc_eq bit_simps)
next
  case False
  then show ?thesis by (simp add: bit_u8_ge)
qed

lemma pack_loop_length [simp]: "length (pack_loop n out pos ss) = length out"
  by (induction ss arbitrary: out pos) (auto simp: Let_def)

lemma pack_step_bit:
  fixes out :: "u8 list" and s :: u8
  assumes "pos + 7 \<le> 8 * length out" and "j < 8 * length out"
  defines "value \<equiv> s AND 0x7F" and "bi \<equiv> pos div 8" and "sh \<equiv> pos mod 8"
  defines "out1 \<equiv> out[bi := out ! bi OR push_bit sh value]"
  defines "out2 \<equiv> (if sh > 1 \<and> bi + 1 < length out
      then out1[bi + 1 := out1 ! (bi + 1) OR drop_bit (8 - sh) value] else out1)"
  shows "bit_at out2 j \<longleftrightarrow> bit_at out j \<or> (pos \<le> j \<and> j < pos + 7 \<and> bit s (j - pos))"
proof -
  define q r where "q = j div 8" and "r = j mod 8"
  have j: "j = 8 * q + r" "r < 8" by (simp_all add: q_def r_def)
  have pos: "pos = 8 * bi + sh" "sh < 8" by (simp_all add: bi_def sh_def)
  have len: "bi < length out" "q < length out" using assms(1,2) j pos by auto
  have vb: "bit value b \<longleftrightarrow> b < 7 \<and> bit s b" for b
    by (simp add: value_def and_7F_bit)
  have in1: "sh > 1 \<Longrightarrow> bi + 1 < length out" using assms(1) pos by auto
  have bj: "bit_at out j \<longleftrightarrow> bit (out ! q) r" by (simp add: bit_at_def q_def r_def)
  consider "q = bi" | "q = bi + 1" | "q \<noteq> bi" "q \<noteq> bi + 1" by blast
  then show ?thesis
  proof cases
    case 1
    have "bit_at out2 j \<longleftrightarrow> bit (out ! bi OR push_bit sh value) r"
      using len 1 by (simp add: bit_at_def out2_def out1_def flip: q_def r_def)
    also have "\<dots> \<longleftrightarrow> bit (out ! bi) r \<or> (sh \<le> r \<and> r - sh < 7 \<and> bit s (r - sh))"
      using j(2) by (auto simp: bit_or_iff bit_push_bit_iff vb)
    also have "\<dots> \<longleftrightarrow> bit_at out j \<or> (pos \<le> j \<and> j < pos + 7 \<and> bit s (j - pos))"
      using 1 j pos by (auto simp: bit_at_def simp flip: q_def r_def)
    finally show ?thesis .
  next
    case 2
    then have dist: "pos \<le> j" "j - pos = r + (8 - sh)" "j < pos + 7 \<longleftrightarrow> r + (8 - sh) < 7"
      using j pos by auto
    show ?thesis
    proof (cases "sh > 1")
      case True
      have "bit_at out2 j \<longleftrightarrow> bit (out ! (bi + 1) OR drop_bit (8 - sh) value) r"
        using len 2 True in1 by (simp add: bit_at_def out2_def out1_def flip: q_def r_def)
      also have "\<dots> \<longleftrightarrow> bit (out ! (bi + 1)) r \<or> (r + (8 - sh) < 7 \<and> bit s (r + (8 - sh)))"
        by (auto simp: bit_or_iff bit_drop_bit_eq vb add.commute)
      also have "\<dots> \<longleftrightarrow> bit_at out j \<or> (pos \<le> j \<and> j < pos + 7 \<and> bit s (j - pos))"
        unfolding bj using 2 dist by simp
      finally show ?thesis .
    next
      case False
      then show ?thesis
        using len 2 j pos by (auto simp: bit_at_def out2_def out1_def simp flip: q_def r_def)
    qed
  next
    case 3
    then show ?thesis
      using len j pos by (auto simp: bit_at_def out2_def out1_def simp flip: q_def r_def)
  qed
qed

lemma pack_loop_bit:
  assumes "pos + 7 * length ss \<le> 8 * length out" and "j < 8 * length out"
  shows "bit_at (pack_loop (length out) out pos ss) j \<longleftrightarrow>
    bit_at out j \<or> (\<exists>i < length ss. pos + 7 * i \<le> j \<and> j < pos + 7 * i + 7 \<and> bit (ss ! i) (j - (pos + 7 * i)))"
  using assms
proof (induction ss arbitrary: out pos)
  case Nil
  then show ?case by simp
next
  case (Cons s ss)
  define out' where "out' =
    (let value = s AND 0x7F; byte_index = pos div 8; shift = pos mod 8;
          out = out[byte_index := out ! byte_index OR push_bit shift value]
     in if shift > 1 \<and> byte_index + 1 < length out
                 then out[byte_index + 1 := out ! (byte_index + 1) OR drop_bit (8 - shift) value]
                 else out)"
  have l: "length out' = length out" by (simp add: out'_def Let_def)
  have p: "pack_loop (length out) out pos (s # ss) = pack_loop (length out') out' (pos + 7) ss"
    by (simp add: out'_def Let_def)
  have b: "bit_at out' j \<longleftrightarrow> bit_at out j \<or> (pos \<le> j \<and> j < pos + 7 \<and> bit s (j - pos))"
    using pack_step_bit [of pos out j s] Cons.prems by (simp add: out'_def Let_def)
  have ih: "bit_at (pack_loop (length out') out' (pos + 7) ss) j \<longleftrightarrow> bit_at out' j \<or>
    (\<exists>i < length ss. pos + 7 + 7 * i \<le> j \<and> j < pos + 7 + 7 * i + 7 \<and> bit (ss ! i) (j - (pos + 7 + 7 * i)))"
    using Cons.prems l by (intro Cons.IH) simp_all
  show ?case
    unfolding p ih b by (simp add: Ex_less_Suc2 algebra_simps)
qed

lemma word_septet_eqI:
  fixes a b :: u8
  assumes "\<And>n. n < 7 \<Longrightarrow> bit a n = bit b n" and "\<not> bit a 7" and "\<not> bit b 7"
  shows "a = b"
  using assms by (intro word_eq_bitsI) (simp add: All_less_numeral)

lemma septet_value:
  assumes "pos div 8 + (if pos mod 8 > 1 then 1 else 0) < length packed"
  shows "(ucast (((if pos mod 8 > 1
      then ucast (drop_bit (pos mod 8) (packed ! (pos div 8))) OR push_bit (8 - pos mod 8) (ucast (packed ! (pos div 8 + 1)))
      else ucast (drop_bit (pos mod 8) (packed ! (pos div 8)))) :: u16) AND 0x7F) :: u8) = septet_at packed pos"
    (is "?v = _")
proof (rule word_septet_eqI)
  define bi sh where "bi = pos div 8" and "sh = pos mod 8"
  have pos: "pos = 8 * bi + sh" "sh < 8" by (simp_all add: bi_def sh_def)
  fix n :: nat assume n: "n < 7"
  have m: "bit (0x7F :: u16) n" using n by (auto simp: numeral_eq_Suc less_Suc_eq bit_simps)
  have d: "(pos + n) div 8 = (if sh + n < 8 then bi else bi + 1)"
    using pos n by auto
  have e: "(pos + n) mod 8 = (if sh + n < 8 then sh + n else sh + n - 8)"
  proof (cases "sh + n < 8")
    case True
    then show ?thesis using pos(1) by (simp add: add.assoc)
  next
    case False
    have "(pos + n) mod 8 = (sh + n) mod 8" using pos(1) by (simp add: add.assoc)
    also have "\<dots> = sh + n - 8" using False pos(2) n by (simp add: le_mod_geq)
    finally show ?thesis using False by simp
  qed
  have l: "bit ?v n \<longleftrightarrow> bit (packed ! bi) (sh + n) \<or>
      (sh > 1 \<and> 8 - sh \<le> n \<and> bit (packed ! (bi + 1)) (n - (8 - sh)))"
    using n m by (auto simp: bit_simps simp flip: bi_def sh_def)
  show "bit ?v n = bit (septet_at packed pos) n"
  proof (cases "sh + n < 8")
    case True
    then show ?thesis unfolding l using n pos(2) by (auto simp: bit_septet_at bit_at_def d e)
  next
    case False
    then have "sh > 1" "8 - sh \<le> n" "n - (8 - sh) = sh + n - 8" using n pos(2) by auto
    with False show ?thesis unfolding l using n by (simp add: bit_septet_at bit_at_def d e bit_u8_ge)
  qed
next
  show "\<not> bit ?v 7" by (simp add: bit_simps)
  show "\<not> bit (septet_at packed pos) 7" by (simp add: bit_septet_at)
qed

lemma unpack_loop_spec:
  assumes "packed_len \<le> length packed"
  shows "unpack_loop packed packed_len pos count =
    (if count = 0 \<or> pos + 7 * count \<le> 8 * packed_len
     then Ret (map (\<lambda>i. septet_at packed (pos + 7 * i)) [0..<count]) else Err ())"
proof (induction count arbitrary: pos)
  case 0
  show ?case by simp
next
  case (Suc count)
  define bi sh where "bi = pos div 8" and "sh = pos mod 8"
  have pos: "pos = 8 * bi + sh" "sh < 8" by (simp_all add: bi_def sh_def)
  show ?case
  proof (cases "pos + 7 \<le> 8 * packed_len")
    case True
    have a: "pos div 8 + (if pos mod 8 > 1 then 1 else 0) < packed_len"
      using True pos(1) unfolding bi_def [symmetric] sh_def [symmetric] by auto
    then have v: "septet_at packed pos = (ucast (((if pos mod 8 > 1
      then ucast (drop_bit (pos mod 8) (packed ! (pos div 8))) OR push_bit (8 - pos mod 8) (ucast (packed ! (pos div 8 + 1)))
      else ucast (drop_bit (pos mod 8) (packed ! (pos div 8)))) :: u16) AND 0x7F) :: u8)"
      using septet_value [of pos packed] assms by simp
    have "unpack_loop packed packed_len pos (Suc count) =
        and_then (unpack_loop packed packed_len (pos + 7) count) (\<lambda>rest. Ret (septet_at packed pos # rest))"
      using a assms by (cases "pos mod 8 > 1") (simp_all add: Let_def aread_def v)
    moreover have "map (\<lambda>i. septet_at packed (pos + 7 * i)) [0..<Suc count] =
        septet_at packed pos # map (\<lambda>i. septet_at packed (pos + 7 + 7 * i)) [0..<count]"
      by (simp add: upt_conv_Cons map_Suc_upt [symmetric] algebra_simps del: upt_Suc)
    ultimately show ?thesis
      using True Suc.IH [of "pos + 7"] by (auto simp: algebra_simps)
  next
    case False
    have "unpack_loop packed packed_len pos (Suc count) = Err ()"
    proof (cases "packed_len \<le> pos div 8")
      case t: False
      then have "sh > 1" "packed_len \<le> bi + 1"
        using False pos unfolding bi_def [symmetric] by auto
      then show ?thesis using t assms by (simp add: Let_def aread_def sh_def bi_def)
    qed (simp add: Let_def)
    then show ?thesis using False by simp
  qed
qed

lemma header_septets_bound: "8 * n \<le> 7 * header_septets n"
  by (simp add: header_septets_def)

lemma udh_septets_bound: "8 * n \<le> 7 * udh_septets n"
  using header_septets_bound by (simp add: udh_septets_def)

lemma septet_at_eqI:
  "(\<And>b. b < 7 \<Longrightarrow> bit_at bs (pos + b) = bit s b) \<Longrightarrow> septet_at bs pos = s AND 0x7F"
  by (rule word_septet_eqI) (auto simp: bit_septet_at and_7F_bit)

lemma bit_at_append: "j < 8 * length bs \<Longrightarrow> bit_at (bs @ behind) j = bit_at bs j"
  by (simp add: bit_at_def nth_append) (simp add: less_mult_imp_div_less)

lemma octet_eqI:
  fixes a b :: u8
  assumes "\<And>n. n < 8 \<Longrightarrow> bit a n = bit b n"
  shows "a = b"
  using assms by (intro word_eq_bitsI) simp

lemma pack_septets_Some:
  assumes "pack_septets ss udh cap = Some (out, udl)"
  defines "hs \<equiv> udh_septets (length udh)"
  shows "unat udl = hs + length ss" "length out = ((hs + length ss) * 7 + 7) div 8" "length out \<le> cap"
    "hs + length ss \<le> 255" "take (length udh) out = udh"
    "\<And>i. i < length ss \<Longrightarrow> septet_at out (hs * 7 + 7 * i) = ss ! i AND 0x7F"
proof -
  define tb where "tb = ((hs + length ss) * 7 + 7) div 8"
  define out0 where "out0 = udh @ drop (length udh) (replicate tb (0::u8))"
  have s: "hs + length ss \<le> 255" "tb \<le> cap" "out = pack_loop tb out0 (hs * 7) ss" "udl = word_of_nat (hs + length ss)"
    using assms(1) by (auto simp: pack_septets_def hs_def udh_septets_def Let_def tb_def out0_def split: if_splits)
  have hb: "8 * length udh \<le> 7 * hs" unfolding hs_def by (rule udh_septets_bound)
  have u: "length udh \<le> tb" using hb by (simp add: tb_def)
  then have l0: "length out0 = tb" by (simp add: out0_def)
  show "unat udl = hs + length ss" unfolding s(4) using s(1) by (subst unat_of_nat) simp
  show "length out = ((hs + length ss) * 7 + 7) div 8" "length out \<le> cap"
    using s(2,3) l0 unfolding tb_def [symmetric] by simp_all
  show "hs + length ss \<le> 255" by (rule s(1))
  have room: "hs * 7 + 7 * length ss \<le> 8 * length out0" unfolding l0 by (simp add: tb_def)
  have zero: "\<not> bit_at out0 j" if "hs * 7 \<le> j" "j < 8 * tb" for j
  proof -
    have "length udh \<le> j div 8" "j div 8 < tb" using that hb by (auto simp: less_mult_imp_div_less)
    then show ?thesis by (simp add: bit_at_def out0_def nth_append)
  qed
  have bits: "bit_at out j \<longleftrightarrow> bit_at out0 j \<or>
      (\<exists>i < length ss. hs * 7 + 7 * i \<le> j \<and> j < hs * 7 + 7 * i + 7 \<and> bit (ss ! i) (j - (hs * 7 + 7 * i)))"
    if "j < 8 * tb" for j
    using pack_loop_bit [OF room, of j] that l0 s(3) by simp
  show "take (length udh) out = udh"
  proof (rule nth_equalityI)
    show "length (take (length udh) out) = length udh" using u l0 s(3) by simp
    fix k assume "k < length (take (length udh) out)"
    then have k: "k < length udh" by simp
    have "out ! k = out0 ! k"
    proof (rule octet_eqI)
      fix n :: nat assume n: "n < 8"
      have "8 * k + n < 7 * hs" using k n hb by linarith
      then have "bit_at out (8 * k + n) = bit_at out0 (8 * k + n)"
        using bits [of "8 * k + n"] k u n by auto
      then show "bit (out ! k) n = bit (out0 ! k) n" using n by (simp add: bit_at_def)
    qed
    then show "take (length udh) out ! k = udh ! k" using k by (simp add: out0_def nth_append)
  qed
  fix i assume i: "i < length ss"
  show "septet_at out (hs * 7 + 7 * i) = ss ! i AND 0x7F"
  proof (rule septet_at_eqI)
    fix b :: nat assume b: "b < 7"
    let ?j = "hs * 7 + 7 * i + b"
    have j: "?j < 8 * tb" using i b room unfolding l0 by linarith
    have at: "i' = i" if "hs * 7 + 7 * i' \<le> ?j" "?j < hs * 7 + 7 * i' + 7" for i'
      using that b by presburger
    have "bit_at out ?j \<longleftrightarrow> (\<exists>i' < length ss. hs * 7 + 7 * i' \<le> ?j \<and> ?j < hs * 7 + 7 * i' + 7 \<and>
        bit (ss ! i') (?j - (hs * 7 + 7 * i')))"
      using bits [OF j] zero [OF _ j] by simp
    also have "\<dots> \<longleftrightarrow> bit (ss ! i) (?j - (hs * 7 + 7 * i))"
      using at i b by (metis add.assoc add_less_cancel_left le_add1)
    finally show "bit_at out ?j = bit (ss ! i) b" by simp
  qed
qed

lemma unpack_pack:
  assumes "pack_septets ss udh cap = Some (out, udl)"
  shows "unpack_septets (out @ behind) (length out) (udh_septets (length udh) * 7) (length ss) =
    Ret (map (\<lambda>s. s AND 0x7F) ss)"
proof -
  let ?hs = "udh_septets (length udh)"
  note p = pack_septets_Some [OF assms]
  have room: "?hs * 7 + 7 * length ss \<le> 8 * length out" using p(2) by simp
  have "septet_at (out @ behind) (?hs * 7 + 7 * i) = ss ! i AND 0x7F" if "i < length ss" for i
  proof -
    have "septet_at (out @ behind) (?hs * 7 + 7 * i) = septet_at out (?hs * 7 + 7 * i)"
      using room that unfolding septet_at_def
      by (intro arg_cong [where f = "horner_sum of_bool 2"] map_cong refl bit_at_append) auto
    then show ?thesis using p(6) [OF that] by simp
  qed
  then have "map (\<lambda>i. septet_at (out @ behind) (?hs * 7 + 7 * i)) [0..<length ss] = map (\<lambda>s. s AND 0x7F) ss"
    by (intro nth_equalityI) simp_all
  then show ?thesis using room by (simp add: unpack_septets_def unpack_loop_spec)
qed

section \<open>Properties\<close>

text \<open>unpacking undoes packing, with or without a user-data header. When
  \<open>pack_septets\<close> succeeds, its output starts with the header octets unchanged, its length is
  that of the septets it counts and fits the capacity, and \<open>unpack_septets\<close> started behind
  the header, on these octets followed by any others, returns the septets (their low seven bits).\<close>

theorem septets_unpack_pack:
  assumes "pack_septets septets udh out_capacity = Some (packed, udl)"
  shows "take (length udh) packed = udh \<and>
    unat udl = udh_septets (length udh) + length septets \<and>
    length packed = (unat udl * 7 + 7) div 8 \<and> length packed \<le> out_capacity \<and>
    unpack_septets (packed @ behind) (length packed) (udh_septets (length udh) * 7) (length septets)
      = Ret (map (\<lambda>s. s AND 0x7F) septets)"
  using pack_septets_Some [OF assms] unpack_pack [OF assms] by simp

theorem septets_unpack_pack_witness:
  "pack_septets [0x68, 0x65, 0x6C] [0x05, 0x00, 0x03, 0x2A, 0x02, 0x01] 140
     = Some ([0x05, 0x00, 0x03, 0x2A, 0x02, 0x01, 0xD0, 0x65, 0x36], 10) \<and>
   unpack_septets ([0x05, 0x00, 0x03, 0x2A, 0x02, 0x01, 0xD0, 0x65, 0x36] @ [0xFF])
     (length [0x05, 0x00, 0x03, 0x2A, 0x02, 0x01, 0xD0, 0x65, 0x36 :: u8])
     (udh_septets (length [0x05, 0x00, 0x03, 0x2A, 0x02, 0x01 :: u8]) * 7)
     (length [0x68, 0x65, 0x6C :: u8])
     = Ret (map (\<lambda>s. s AND 0x7F) [0x68, 0x65, 0x6C])"
proof -
  have h: "pack_septets [0x68, 0x65, 0x6C] [0x05, 0x00, 0x03, 0x2A, 0x02, 0x01] 140
     = Some ([0x05, 0x00, 0x03, 0x2A, 0x02, 0x01, 0xD0, 0x65, 0x36], 10)" by code_simp
  show ?thesis using h septets_unpack_pack [OF h, of "[0xFF]"] by blast
qed

text \<open>hexadecimal text. Decoding what \<open>hex_encode\<close> wrote gives the octets back
  whenever they fit the buffer, and any text decodes to at most the buffer's capacity, with two
  characters per octet, never outside the bounds of the string or the buffer.\<close>

theorem hex_text_roundtrip:
  "(hex_encode data out_capacity = Some text \<longrightarrow> length data \<le> capacity \<longrightarrow>
      hex_decode text capacity = Ret data) \<and>
   hex_decode input capacity \<noteq> Fault \<and>
   (\<forall>octets. hex_decode input capacity = Ret octets \<longrightarrow>
      length octets \<le> capacity \<and> length input = 2 * length octets)"
  using hex_decode_encode [of data out_capacity "text" capacity] hex_decode_length [of input capacity]
    hex_decode_chars [of input capacity]
  by simp

theorem hex_text_roundtrip_witness:
  "hex_encode [0x07, 0xAB] 8 = Some ''07AB'' \<and> hex_decode ''07AB'' 176 = Ret [0x07, 0xAB]"
proof -
  have h: "hex_encode [0x07, 0xAB] 8 = Some ''07AB''" by code_simp
  show ?thesis using h hex_text_roundtrip [of "[0x07, 0xAB]" 8 "''07AB''" 176 "[]"] by simp
qed

end
