(* ===== verification/Pdu_Encode.thy ===== *)
theory Pdu_Encode
  imports Pdu_Octets "HOL-Library.Monad_Syntax"
begin

text \<open>
  The encoding half of \<open>components/sms_codec/sms_pdu.c\<close>: addresses, concatenation headers,
  SMS-SUBMIT PDUs, the splitting of long texts and the two entry points
  \<open>sms_submit_encode\<close> and \<open>sms_submit_preflight\<close>. A PDU buffer is the list of the octets
  written so far; a function that returns \<open>false\<close> gives \<open>None\<close>.
\<close>

section \<open>Data\<close>

datatype sms_encoding =
  SMS_ENCODING_GSM7 | SMS_ENCODING_UCS2 | SMS_ENCODING_8BIT | SMS_ENCODING_UNKNOWN

record sms_concat_info =
  cc_present :: bool
  cc_is_16bit :: bool
  cc_reference :: u16
  cc_total_parts :: u8
  cc_part_number :: u8

definition no_concat :: sms_concat_info where
  "no_concat = \<lparr>cc_present = False, cc_is_16bit = False, cc_reference = 0,
     cc_total_parts = 0, cc_part_number = 0\<rparr>"

record sms_submit_segment =
  seg_encoding :: sms_encoding
  seg_concat :: sms_concat_info
  segment_number :: u8
  segment_count :: u8
  tpdu_length_octets :: nat
  pdu_hex :: string

definition SMS_MAX_SEGMENTS :: nat where
  "SMS_MAX_SEGMENTS = 16"

definition SMS_MAX_PDU_OCTETS :: nat where
  "SMS_MAX_PDU_OCTETS = 176"

definition SMS_MAX_PDU_HEX :: nat where
  "SMS_MAX_PDU_HEX = SMS_MAX_PDU_OCTETS * 2 + 1"

definition SMS_MAX_GSM7_SEPTETS :: nat where
  "SMS_MAX_GSM7_SEPTETS = SMS_MAX_SEGMENTS * 160"

definition SMS_MAX_UCS2_UNITS :: nat where
  "SMS_MAX_UCS2_UNITS = SMS_MAX_SEGMENTS * 70"

section \<open>Buffers and addresses\<close>

definition buffer_put :: "u8 list \<Rightarrow> u8 \<Rightarrow> u8 list option" where
  "buffer_put buffer byte =
     (if SMS_MAX_PDU_OCTETS \<le> length buffer then None else Some (buffer @ [byte]))"

definition buffer_append :: "u8 list \<Rightarrow> u8 list \<Rightarrow> u8 list option" where
  "buffer_append buffer data =
     (if length buffer + length data > SMS_MAX_PDU_OCTETS then None else Some (buffer @ data))"

text \<open>The digits behind an optional plus sign, and whether there was one.\<close>

definition address_validate :: "string \<Rightarrow> (string \<times> bool) option" where
  "address_validate address =
     (let intl = (cchar address 0 = CHR ''+'');
          digits = (if intl then drop 1 address else address);
          len = length digits
      in if len = 0 \<or> len > 20 then None
         else if list_all isdigit digits then Some (digits, intl)
         else None)"

fun address_digits_loop :: "u8 list \<Rightarrow> string \<Rightarrow> u8 list option" where
  "address_digits_loop buffer [] = Some buffer"
| "address_digits_loop buffer [d] =
     (let low = word_of_nat (code d - 48); high = 0x0F
      in buffer_put buffer (low OR push_bit 4 high))"
| "address_digits_loop buffer (d # e # ds) =
     (let low = word_of_nat (code d - 48); high = word_of_nat (code e - 48)
      in do { buffer \<leftarrow> buffer_put buffer (low OR push_bit 4 high);
              address_digits_loop buffer ds })"

definition address_encode :: "u8 list \<Rightarrow> string \<Rightarrow> u8 list option" where
  "address_encode buffer address =
     do { (digits, international) \<leftarrow> address_validate address;
          buffer \<leftarrow> buffer_put buffer (word_of_nat (length digits));
          buffer \<leftarrow> buffer_put buffer (if international then 0x91 else 0x81);
          address_digits_loop buffer digits }"

definition concat_header :: "u16 \<Rightarrow> u8 \<Rightarrow> u8 \<Rightarrow> u8 list" where
  "concat_header ref total_parts sequence =
     (if ref \<le> 0xFF then [0x05, 0x00, 0x03, ucast ref, total_parts, sequence]
      else [0x06, 0x08, 0x04, ucast (drop_bit 8 ref), ucast ref, total_parts, sequence])"

section \<open>One SMS-SUBMIT PDU\<close>

definition submit_first_octet :: "bool \<Rightarrow> nat \<Rightarrow> u8" where
  "submit_first_octet request_status_report udh_len =
     (let first = 0x01;
          first = (if request_status_report then first OR 0x20 else first)
      in if udh_len > 0 then first OR 0x40 else first)"

definition build_submit_pdu ::
  "string \<Rightarrow> sms_encoding \<Rightarrow> bool \<Rightarrow> u8 list \<Rightarrow> u8 list \<Rightarrow> sms_submit_segment \<Rightarrow> sms_submit_segment option"
where
  "build_submit_pdu recipient encoding request_status_report udh payload segment =
     do { pdu \<leftarrow> buffer_put [] 0x00;
          let tpdu_start = length pdu;
          pdu \<leftarrow> buffer_put pdu (submit_first_octet request_status_report (length udh));
          pdu \<leftarrow> buffer_put pdu 0x00;
          pdu \<leftarrow> address_encode pdu recipient;
          pdu \<leftarrow> buffer_put pdu 0x00;
          pdu \<leftarrow>
            (case encoding of
               SMS_ENCODING_GSM7 \<Rightarrow>
                 do { pdu \<leftarrow> buffer_put pdu 0x00;
                      (packed, udl) \<leftarrow> pack_septets payload udh 140;
                      pdu \<leftarrow> buffer_put pdu udl;
                      buffer_append pdu packed }
             | SMS_ENCODING_UCS2 \<Rightarrow>
                 do { pdu \<leftarrow> buffer_put pdu 0x08;
                      let ud_octets = length udh + length payload;
                      if ud_octets > 140 then None
                      else do {
                        pdu \<leftarrow> buffer_put pdu (word_of_nat ud_octets);
                        pdu \<leftarrow> (if length udh > 0 then buffer_append pdu udh else Some pdu);
                        buffer_append pdu payload } }
             | _ \<Rightarrow> None);
          hex \<leftarrow> hex_encode pdu SMS_MAX_PDU_HEX;
          Some (segment\<lparr>seg_encoding := encoding,
                        tpdu_length_octets := length pdu - tpdu_start,
                        pdu_hex := hex\<rparr>) }"

section \<open>Splitting\<close>

text \<open>The number of septets the next part takes.\<close>

definition gsm7_part_size :: "u8 list \<Rightarrow> nat \<Rightarrow> nat \<Rightarrow> nat" where
  "gsm7_part_size septets per_segment pos =
     (let take = length septets - pos
      in if take > per_segment
         then (if per_segment > 0 \<and> septets ! (pos + per_segment - 1) = 0x1B
               then per_segment - 1 else per_segment)
         else take)"

function split_gsm7_loop :: "u8 list \<Rightarrow> nat \<Rightarrow> nat \<Rightarrow> nat \<Rightarrow> nat list \<Rightarrow> nat list option" where
  "split_gsm7_loop septets per_segment pos parts offsets =
     (if pos < length septets then
        (if SMS_MAX_SEGMENTS \<le> parts then None
         else let take = gsm7_part_size septets per_segment pos
              in if take = 0 then None
                 else split_gsm7_loop septets per_segment (pos + take) (parts + 1) (offsets @ [pos + take]))
      else Some offsets)"
  by pat_completeness auto
termination
  by (relation "measure (\<lambda>(septets, per_segment, pos, parts, offsets). length septets - pos)") auto

text \<open>The offsets of the parts, with the end of the last one; one more than there are parts.\<close>

definition split_gsm7 :: "u8 list \<Rightarrow> nat \<Rightarrow> nat list option" where
  "split_gsm7 septets per_segment = split_gsm7_loop septets per_segment 0 0 [0]"

definition ucs2_units :: "u32 \<Rightarrow> u16 list" where
  "ucs2_units cp =
     (if cp \<le> 0xFFFF then [ucast cp]
      else let cp = cp - 0x10000
           in [ucast (0xD800 OR drop_bit 10 cp), ucast (0xDC00 OR (cp AND 0x03FF))])"

function utf8_to_ucs2_loop :: "nat \<Rightarrow> u16 list \<Rightarrow> string \<Rightarrow> u16 list option" where
  "utf8_to_ucs2_loop capacity out cursor =
     (if cchar cursor 0 = NUL then Some out
      else case sms_utf8_next cursor of
        None \<Rightarrow> None
      | Some (cp, rest) \<Rightarrow>
          if cp \<le> 0xFFFF then
            (if 0xD800 \<le> cp \<and> cp \<le> 0xDFFF \<or> capacity \<le> length out then None
             else utf8_to_ucs2_loop capacity (out @ ucs2_units cp) rest)
          else
            (if cp > 0x10FFFF \<or> length out + 2 > capacity then None
             else utf8_to_ucs2_loop capacity (out @ ucs2_units cp) rest))"
  by pat_completeness auto
termination
  by (relation "measure (\<lambda>(capacity, out, cursor). length cursor)")
     (auto dest: sms_utf8_next_shorter)

definition utf8_to_ucs2 :: "string \<Rightarrow> nat \<Rightarrow> u16 list option" where
  "utf8_to_ucs2 utf8_text capacity = utf8_to_ucs2_loop capacity [] utf8_text"

definition ucs2_part_size :: "u16 list \<Rightarrow> nat \<Rightarrow> nat \<Rightarrow> nat" where
  "ucs2_part_size units units_per_segment cursor =
     (let count = min (length units - cursor) units_per_segment
      in if count > 0 \<and> cursor + count < length units \<and>
            0xD800 \<le> units ! (cursor + count - 1) \<and> units ! (cursor + count - 1) \<le> 0xDBFF
         then count - 1 else count)"

function split_ucs2_loop :: "u16 list \<Rightarrow> nat \<Rightarrow> nat \<Rightarrow> nat \<Rightarrow> nat list \<Rightarrow> nat list option" where
  "split_ucs2_loop units units_per_segment cursor parts offsets =
     (if cursor < length units then
        (if SMS_MAX_SEGMENTS \<le> parts then None
         else let count = ucs2_part_size units units_per_segment cursor
              in if count = 0 then None
                 else split_ucs2_loop units units_per_segment (cursor + count) (parts + 1)
                        (offsets @ [cursor + count]))
      else Some offsets)"
  by pat_completeness auto
termination
  by (relation "measure (\<lambda>(units, per, cursor, parts, offsets). length units - cursor)") auto

text \<open>The loop of \<open>sms_submit_preflight\<close>, which only counts.\<close>

function count_ucs2_loop :: "u16 list \<Rightarrow> nat \<Rightarrow> nat \<Rightarrow> nat \<Rightarrow> nat option" where
  "count_ucs2_loop units units_per_segment cursor parts =
     (if cursor < length units then
        (if SMS_MAX_SEGMENTS \<le> parts then None
         else let count = ucs2_part_size units units_per_segment cursor
              in if count = 0 then None
                 else count_ucs2_loop units units_per_segment (cursor + count) (parts + 1))
      else Some parts)"
  by pat_completeness auto
termination
  by (relation "measure (\<lambda>(units, per, cursor, parts). length units - cursor)") auto

definition ucs2_payload :: "u16 list \<Rightarrow> u8 list" where
  "ucs2_payload units = concat (map (\<lambda>u. [ucast (drop_bit 8 u), ucast u]) units)"

section \<open>Entry points\<close>

definition segment_single :: "sms_submit_segment \<Rightarrow> sms_submit_segment" where
  "segment_single segment =
     segment\<lparr>segment_number := 1, segment_count := 1,
             seg_concat := (seg_concat segment)\<lparr>cc_present := False\<rparr>\<rparr>"

definition segment_part :: "u16 \<Rightarrow> nat \<Rightarrow> nat \<Rightarrow> sms_submit_segment \<Rightarrow> sms_submit_segment" where
  "segment_part concat_reference parts i segment =
     segment\<lparr>segment_number := word_of_nat (i + 1), segment_count := word_of_nat parts,
             seg_concat := \<lparr>cc_present = True, cc_is_16bit = concat_reference > 0xFF,
               cc_reference = concat_reference, cc_total_parts = word_of_nat parts,
               cc_part_number = word_of_nat (i + 1)\<rparr>\<rparr>"

text \<open>
  The loop over the parts: part \<open>i\<close> has the payload \<open>part_payload i\<close>.
\<close>

fun submit_parts_loop ::
  "string \<Rightarrow> sms_encoding \<Rightarrow> bool \<Rightarrow> u16 \<Rightarrow> nat \<Rightarrow> (nat \<Rightarrow> u8 list) \<Rightarrow> nat list \<Rightarrow>
   sms_submit_segment list \<Rightarrow> sms_submit_segment list option"
where
  "submit_parts_loop recipient encoding srr concat_reference parts part_payload [] segments = Some segments"
| "submit_parts_loop recipient encoding srr concat_reference parts part_payload (i # is) segments =
     do { let udh = concat_header concat_reference (word_of_nat parts) (word_of_nat (i + 1));
          seg \<leftarrow> build_submit_pdu recipient encoding srr udh (part_payload i) (segments ! i);
          submit_parts_loop recipient encoding srr concat_reference parts part_payload is
            (segments[i := segment_part concat_reference parts i seg]) }"

definition part_slice :: "nat list \<Rightarrow> 'a list \<Rightarrow> nat \<Rightarrow> 'a list" where
  "part_slice offsets xs i = take (offsets ! (i + 1) - offsets ! i) (drop (offsets ! i) xs)"

text \<open>
  \<open>segments\<close> is the caller's array, \<open>max_segments\<close> its length; the result is the array and the
  segment count.
\<close>

definition sms_submit_encode ::
  "string \<Rightarrow> string \<Rightarrow> bool \<Rightarrow> u16 \<Rightarrow> sms_submit_segment list \<Rightarrow> (sms_submit_segment list \<times> nat) option"
where
  "sms_submit_encode recipient utf8_text request_status_report concat_reference segments =
     (let max_segments = length segments in
      if max_segments = 0 then None
      else do {
        _ \<leftarrow> address_validate recipient;
        let gsm_count = sms_gsm7_septet_count utf8_text;
        if gsm_count \<noteq> SIZE_MAX then
          if gsm_count > SMS_MAX_GSM7_SEPTETS then None
          else do {
            septets \<leftarrow> sms_gsm7_encode utf8_text SMS_MAX_GSM7_SEPTETS;
            if length septets \<le> 160 then do {
              seg \<leftarrow> build_submit_pdu recipient SMS_ENCODING_GSM7 request_status_report [] septets (segments ! 0);
              Some (segments[0 := segment_single seg], 1) }
            else do {
              let udh_len = length (concat_header concat_reference 1 1);
              let capacity = 160 - header_septets udh_len;
              offsets \<leftarrow> split_gsm7 septets capacity;
              let parts = length offsets - 1;
              if parts > max_segments \<or> parts > 255 then None
              else do {
                segments \<leftarrow> submit_parts_loop recipient SMS_ENCODING_GSM7 request_status_report
                  concat_reference parts (part_slice offsets septets) [0..<parts] segments;
                Some (segments, parts) } } }
        else do {
          units \<leftarrow> utf8_to_ucs2 utf8_text SMS_MAX_UCS2_UNITS;
          if length units \<le> 70 then do {
            seg \<leftarrow> build_submit_pdu recipient SMS_ENCODING_UCS2 request_status_report []
              (ucs2_payload units) (segments ! 0);
            Some (segments[0 := segment_single seg], 1) }
          else do {
            let udh_len = length (concat_header concat_reference 1 1);
            let units_per_segment = (140 - udh_len) div 2;
            offsets \<leftarrow> split_ucs2_loop units units_per_segment 0 0 [0];
            let parts = length offsets - 1;
            if parts = 0 \<or> parts > max_segments \<or> parts > 255 then None
            else do {
              segments \<leftarrow> submit_parts_loop recipient SMS_ENCODING_UCS2 request_status_report
                concat_reference parts (\<lambda>i. ucs2_payload (part_slice offsets units i)) [0..<parts] segments;
              Some (segments, parts) } } } })"

text \<open>
  \<open>None\<close> stands for the return value \<open>false\<close>, with which the out-parameters are the unknown
  encoding and 0.
\<close>

definition sms_submit_preflight :: "string \<Rightarrow> string \<Rightarrow> u16 \<Rightarrow> (sms_encoding \<times> nat) option" where
  "sms_submit_preflight recipient utf8_text concat_reference =
     do {
       _ \<leftarrow> address_validate recipient;
       let gsm_count = sms_gsm7_septet_count utf8_text;
       if gsm_count \<noteq> SIZE_MAX then
         if gsm_count > SMS_MAX_GSM7_SEPTETS then None
         else if gsm_count \<le> 160 then Some (SMS_ENCODING_GSM7, 1)
         else do {
           septets \<leftarrow> sms_gsm7_encode utf8_text SMS_MAX_GSM7_SEPTETS;
           let udh_len = length (concat_header concat_reference 1 1);
           let capacity = 160 - header_septets udh_len;
           offsets \<leftarrow> split_gsm7 septets capacity;
           let parts = length offsets - 1;
           if parts = 0 \<or> parts > SMS_MAX_SEGMENTS then None
           else Some (SMS_ENCODING_GSM7, parts) }
       else do {
         units \<leftarrow> utf8_to_ucs2 utf8_text SMS_MAX_UCS2_UNITS;
         if length units \<le> 70 then Some (SMS_ENCODING_UCS2, 1)
         else do {
           let udh_len = length (concat_header concat_reference 1 1);
           let units_per_segment = (140 - udh_len) div 2;
           parts \<leftarrow> count_ucs2_loop units units_per_segment 0 0;
           if parts = 0 \<or> parts > SMS_MAX_SEGMENTS then None
           else Some (SMS_ENCODING_UCS2, parts) } } }"

declare split_gsm7_loop.simps [simp del] utf8_to_ucs2_loop.simps [simp del]
  split_ucs2_loop.simps [simp del] count_ucs2_loop.simps [simp del]

section \<open>Shape of a PDU\<close>

text \<open>The octets of an address and of a whole PDU, as specifications of the code above.\<close>

fun digit_octets :: "string \<Rightarrow> u8 list" where
  "digit_octets [] = []"
| "digit_octets [d] = [word_of_nat (code d - 48) OR push_bit 4 0x0F]"
| "digit_octets (d # e # ds) = (word_of_nat (code d - 48) OR push_bit 4 (word_of_nat (code e - 48))) # digit_octets ds"

definition address_octets :: "string \<times> bool \<Rightarrow> u8 list" where
  "address_octets = (\<lambda>(digits, intl). word_of_nat (length digits) # (if intl then 0x91 else 0x81) # digit_octets digits)"

definition submit_octets :: "string \<times> bool \<Rightarrow> sms_encoding \<Rightarrow> bool \<Rightarrow> nat \<Rightarrow> u8 \<Rightarrow> u8 list \<Rightarrow> u8 list" where
  "submit_octets v encoding srr udh_len udl ud =
     [0x00, submit_first_octet srr udh_len, 0x00] @ address_octets v @
     [0x00, (if encoding = SMS_ENCODING_GSM7 then 0x00 else 0x08), udl] @ ud"

section \<open>Lemmas on one PDU\<close>

lemma buffer_put_Some [simp]: "length b < 176 \<Longrightarrow> buffer_put b x = Some (b @ [x])"
  by (simp add: buffer_put_def SMS_MAX_PDU_OCTETS_def)

lemma buffer_append_Some [simp]: "length b + length xs \<le> 176 \<Longrightarrow> buffer_append b xs = Some (b @ xs)"
  by (simp add: buffer_append_def SMS_MAX_PDU_OCTETS_def)

lemma digit_octets_length [simp]: "length (digit_octets ds) = (length ds + 1) div 2"
  by (induction ds rule: digit_octets.induct) auto

lemma address_digits_loop_spec:
  "length b + (length ds + 1) div 2 \<le> 176 \<Longrightarrow> address_digits_loop b ds = Some (b @ digit_octets ds)"
  by (induction b ds rule: address_digits_loop.induct) (auto simp: Let_def)

lemma address_validate_bounds:
  "address_validate a = Some (ds, i) \<Longrightarrow> 0 < length ds \<and> length ds \<le> 20 \<and> (\<forall>c \<in> set ds. isdigit c)
    \<and> a = (if i then CHR ''+'' # ds else ds)"
  by (cases a) (auto simp: address_validate_def Let_def list_all_iff split: if_splits)

lemma address_octets_length: "address_validate a = Some v \<Longrightarrow> length (address_octets v) \<le> 12"
  by (cases v) (auto simp: address_octets_def dest: address_validate_bounds)

lemma address_encode_spec:
  "length b + 12 \<le> 176 \<Longrightarrow> address_encode b a = map_option (\<lambda>v. b @ address_octets v) (address_validate a)"
  by (cases "address_validate a")
     (auto simp: address_encode_def address_octets_def address_digits_loop_spec split: prod.splits dest!: address_validate_bounds)

lemma hex_encode_Some: "length bs \<le> 176 \<Longrightarrow> \<exists>s. hex_encode bs SMS_MAX_PDU_HEX = Some s"
  by (simp add: hex_encode_def SMS_MAX_PDU_HEX_def SMS_MAX_PDU_OCTETS_def)

lemma submit_octets_length:
  "address_validate a = Some v \<Longrightarrow> length ud \<le> 140 \<Longrightarrow> length (submit_octets v e s u udl ud) \<le> 158"
  using address_octets_length [of a v] by (simp add: submit_octets_def)

lemma build_gsm7_spec:
  assumes "address_validate a = Some v" and "pack_septets payload udh 140 = Some (packed, udl)"
  shows "build_submit_pdu a SMS_ENCODING_GSM7 srr udh payload seg =
    (let octets = submit_octets v SMS_ENCODING_GSM7 srr (length udh) udl packed
     in Some (seg\<lparr>seg_encoding := SMS_ENCODING_GSM7, tpdu_length_octets := length octets - 1,
          pdu_hex := the (hex_encode octets SMS_MAX_PDU_HEX)\<rparr>))"
proof -
  have l: "length packed \<le> 140" using pack_septets_Some(3) [OF assms(2)] by simp
  note al = address_octets_length [OF assms(1)]
  have o: "length (submit_octets v SMS_ENCODING_GSM7 srr (length udh) udl packed) \<le> 176"
    using submit_octets_length [OF assms(1) l, of SMS_ENCODING_GSM7 srr "length udh" udl] by simp
  from hex_encode_Some [OF this] show ?thesis
    using assms l al
    by (auto simp: build_submit_pdu_def address_encode_spec submit_octets_def Let_def)
qed

lemma build_ucs2_spec:
  assumes "address_validate a = Some v" and "length udh + length payload \<le> 140"
  shows "build_submit_pdu a SMS_ENCODING_UCS2 srr udh payload seg =
    (let octets = submit_octets v SMS_ENCODING_UCS2 srr (length udh) (word_of_nat (length udh + length payload)) (udh @ payload)
     in Some (seg\<lparr>seg_encoding := SMS_ENCODING_UCS2, tpdu_length_octets := length octets - 1,
          pdu_hex := the (hex_encode octets SMS_MAX_PDU_HEX)\<rparr>))"
proof -
  note al = address_octets_length [OF assms(1)]
  have o: "length (submit_octets v SMS_ENCODING_UCS2 srr (length udh) (word_of_nat (length udh + length payload)) (udh @ payload)) \<le> 176"
    using submit_octets_length [OF assms(1), of "udh @ payload" SMS_ENCODING_UCS2 srr "length udh"] assms(2) by (simp add: submit_octets_def)
  from hex_encode_Some [OF this] show ?thesis
    using assms al
    by (auto simp: build_submit_pdu_def address_encode_spec submit_octets_def Let_def simp del: of_nat_add)
qed

lemma pack_septets_room:
  "udh_septets (length udh) + length ss \<le> 160 \<Longrightarrow> \<exists>packed udl. pack_septets ss udh 140 = Some (packed, udl)"
  by (auto simp: pack_septets_def udh_septets_def Let_def)

end
