(* ===== verification/Pdu_Split.thy ===== *)
theory Pdu_Split
  imports Pdu_Encode
begin

text \<open>
  Splitting a text into the parts of a concatenated message. Both splitters of \<open>sms_pdu.c\<close>
  have the same shape: characters become one code unit or a pair whose first unit is a lead
  (the escape septet of GSM 03.38, the high surrogate of UTF-16), a part takes as many units as
  fit and gives one back when it would end in a lead. The locale \<open>part_splitter\<close> states this
  contract and proves once that the parts are the units of consecutive runs of whole characters;
  the interpretations discharge it for \<open>split_gsm7\<close> and for the UCS-2 loop.
\<close>

section \<open>The contract of a splitter\<close>

locale part_splitter =
  fixes units_of :: "'c \<Rightarrow> 'u list option"
    and units_all :: "'c list \<Rightarrow> 'u list option"
    and lead :: "'u \<Rightarrow> bool"
    and part_size :: "'u list \<Rightarrow> nat \<Rightarrow> nat \<Rightarrow> nat"
    and split_loop :: "'u list \<Rightarrow> nat \<Rightarrow> nat \<Rightarrow> nat \<Rightarrow> nat list \<Rightarrow> nat list option"
  assumes units_of: "units_of c = Some us \<Longrightarrow>
      (\<exists>u. us = [u] \<and> \<not> lead u) \<or> (\<exists>l u. us = [l, u] \<and> lead l \<and> \<not> lead u)"
    and units_Nil: "units_all [] = Some []"
    and units_Cons: "units_all (c # cs) =
      (case units_of c of None \<Rightarrow> None | Some us \<Rightarrow> map_option ((@) us) (units_all cs))"
    and part_size: "0 < per \<Longrightarrow> part_size xs per pos =
      (if length xs - pos \<le> per then length xs - pos
       else if lead (xs ! (pos + per - 1)) then per - 1 else per)"
    and split_loop: "split_loop xs per pos parts offsets =
      (if pos < length xs then
         (if SMS_MAX_SEGMENTS \<le> parts then None
          else let n = part_size xs per pos
               in if n = 0 then None else split_loop xs per (pos + n) (parts + 1) (offsets @ [pos + n]))
       else Some offsets)"
begin

lemma units_ConsE:
  assumes "units_all (c # cs) = Some us"
  obtains v w where "units_of c = Some v" "units_all cs = Some w" "us = v @ w"
  using assms by (auto simp: units_Cons split: option.splits)

text \<open>A cut is at an item boundary, or one unit behind a boundary, in the middle of a pair.\<close>

lemma cut_cases:
  assumes "units_all cs = Some us" and "n \<le> length us"
  shows "(\<exists>k. units_all (take k cs) = Some (take n us) \<and> units_all (drop k cs) = Some (drop n us) \<and>
      (0 < n \<longrightarrow> \<not> lead (us ! (n - 1)))) \<or>
    (0 < n \<and> lead (us ! (n - 1)) \<and>
      (\<exists>k. units_all (take k cs) = Some (take (n - 1) us) \<and> units_all (drop k cs) = Some (drop (n - 1) us)))"
  using assms
proof (induction cs arbitrary: us n)
  case Nil
  then show ?case by (auto simp: units_Nil intro: exI [of _ 0])
next
  case (Cons c cs)
  from Cons.prems(1) obtain v w where v: "units_of c = Some v" and w: "units_all cs = Some w"
    and us: "us = v @ w" by (rule units_ConsE)
  have zero: "\<exists>k. units_all (take k (c # cs)) = Some [] \<and> units_all (drop k (c # cs)) = Some us"
    using Cons.prems(1) by (intro exI [of _ 0]) (simp add: units_Nil)
  show ?case
  proof (cases "n < length v")
    case True
    then consider "n = 0" | l u where "v = [l, u]" "lead l" "n = 1"
      using units_of [OF v] by fastforce
    then show ?thesis
    proof cases
      case 1
      then show ?thesis using zero by simp
    next
      case 2
      then show ?thesis using zero us by simp
    qed
  next
    case False
    define m where "m = n - length v"
    have n: "n = length v + m" using False by (simp add: m_def)
    have pos: "0 < length v" and end_ok: "\<not> lead (last v)" using units_of [OF v] by auto
    have ext: "units_all (take (Suc k) (c # cs)) = Some (v @ take j w) \<and>
        units_all (drop (Suc k) (c # cs)) = Some (drop (length v + j) us)"
      if "units_all (take k cs) = Some (take j w)" "units_all (drop k cs) = Some (drop j w)" for k j
      using that v us by (simp add: units_Cons)
    have "m \<le> length w" using Cons.prems(2) us n by simp
    from Cons.IH [OF w this] show ?thesis
    proof (elim disjE)
      assume "\<exists>k. units_all (take k cs) = Some (take m w) \<and> units_all (drop k cs) = Some (drop m w) \<and>
          (0 < m \<longrightarrow> \<not> lead (w ! (m - 1)))"
      then obtain k where k: "units_all (take k cs) = Some (take m w)" "units_all (drop k cs) = Some (drop m w)"
        "0 < m \<longrightarrow> \<not> lead (w ! (m - 1))" by blast
      have "\<not> lead (us ! (n - 1))"
        using k(3) end_ok pos us n by (cases "m = 0") (auto simp: nth_append last_conv_nth)
      then show ?thesis
        using ext [OF k(1,2)] us n by (intro disjI1 exI [of _ "Suc k"]) simp
    next
      assume a: "0 < m \<and> lead (w ! (m - 1)) \<and>
        (\<exists>k. units_all (take k cs) = Some (take (m - 1) w) \<and> units_all (drop k cs) = Some (drop (m - 1) w))"
      then obtain k where k: "units_all (take k cs) = Some (take (m - 1) w)" "units_all (drop k cs) = Some (drop (m - 1) w)"
        by blast
      have "length v + (m - 1) = n - 1" "lead (us ! (n - 1))" using a us n by (auto simp: nth_append)
      then show ?thesis
        using ext [OF k] a us n by (intro disjI2 conjI exI [of _ "Suc k"]) (auto simp: take_append)
    qed
  qed
qed

lemma part_boundary:
  assumes "units_all cs = Some (drop pos xs)" and "pos < length xs" and "2 \<le> per"
  defines "n \<equiv> part_size xs per pos"
  shows "0 < n \<and> n \<le> per \<and> pos + n \<le> length xs \<and>
    (\<exists>k. units_all (take k cs) = Some (take n (drop pos xs)) \<and> units_all (drop k cs) = Some (drop (pos + n) xs))"
proof (cases "length xs - pos \<le> per")
  case True
  then have "n = length xs - pos" using assms(3) by (simp add: n_def part_size)
  then show ?thesis using assms(1,2) True
    by (auto simp: units_Nil intro!: exI [of _ "length cs"])
next
  case False
  have m: "per \<le> length (drop pos xs)" using False by simp
  have l: "drop pos xs ! (per - 1) = xs ! (pos + per - 1)" using False assms(2,3) by simp
  show ?thesis
  proof (cases "lead (xs ! (pos + per - 1))")
    case True
    then have "n = per - 1" using False assms(3) by (simp add: n_def part_size)
    then show ?thesis using cut_cases [OF assms(1) m] True l assms(3) False
      by (auto simp: add.commute)
  next
    case nl: False
    then have "n = per" using False assms(3) by (simp add: n_def part_size)
    then show ?thesis using cut_cases [OF assms(1) m] nl l assms(3) False
      by (auto simp: add.commute)
  qed
qed

lemma split_loop_parts:
  assumes "split_loop xs per pos parts offsets = Some os"
    and "units_all cs = Some (drop pos xs)" and "2 \<le> per" and "parts \<le> SMS_MAX_SEGMENTS" "pos \<le> length xs"
  shows "\<exists>css new. os = offsets @ new \<and> concat css = cs \<and> length css = length new \<and>
    parts + length new \<le> SMS_MAX_SEGMENTS \<and>
    (\<forall>i < length css. units_all (css ! i) = Some (part_slice (pos # new) xs i) \<and>
       0 < length (part_slice (pos # new) xs i) \<and> length (part_slice (pos # new) xs i) \<le> per)"
  using assms
proof (induction "length xs - pos" arbitrary: pos parts offsets cs rule: less_induct)
  case less
  show ?case
  proof (cases "pos < length xs")
    case False
    then have "os = offsets" using less.prems(1) by (simp add: split_loop [of _ _ pos])
    moreover have "cs = []"
    proof (rule ccontr)
      assume "cs \<noteq> []"
      then obtain c cs' where "cs = c # cs'" by (cases cs) auto
      with less.prems(2) False units_of show False by (fastforce elim!: units_ConsE)
    qed
    ultimately show ?thesis using less.prems(4) by (intro exI [of _ "[]"]) simp
  next
    case True
    define n where "n = part_size xs per pos"
    from part_boundary [OF less.prems(2) True less.prems(3)] obtain k
      where n: "0 < n" "n \<le> per" "pos + n \<le> length xs"
        and k: "units_all (take k cs) = Some (take n (drop pos xs))" "units_all (drop k cs) = Some (drop (pos + n) xs)"
      unfolding n_def by blast
    have p: "parts < SMS_MAX_SEGMENTS" and
      r: "split_loop xs per (pos + n) (parts + 1) (offsets @ [pos + n]) = Some os"
      using less.prems(1) True n(1) by (auto simp: split_loop [of _ _ pos] n_def Let_def split: if_splits)
    have d: "length xs - (pos + n) < length xs - pos" using True n(1) by simp
    from less.hyps [OF d r k(2) less.prems(3)] n p obtain css new
      where ih: "os = (offsets @ [pos + n]) @ new" "concat css = drop k cs" "length css = length new"
        "parts + 1 + length new \<le> SMS_MAX_SEGMENTS"
        "\<forall>i < length css. units_all (css ! i) = Some (part_slice ((pos + n) # new) xs i) \<and>
         0 < length (part_slice ((pos + n) # new) xs i) \<and> length (part_slice ((pos + n) # new) xs i) \<le> per"
      by auto
    have s0: "part_slice (pos # (pos + n) # new) xs 0 = take n (drop pos xs)" by (simp add: part_slice_def)
    have sS: "part_slice (pos # (pos + n) # new) xs (Suc i) = part_slice ((pos + n) # new) xs i" for i
      by (simp add: part_slice_def)
    have len: "length (take n (drop pos xs)) = n" using n(3) by simp
    show ?thesis
    proof (intro exI [of _ "take k cs # css"] exI [of _ "(pos + n) # new"] conjI allI impI)
      fix i assume i: "i < length (take k cs # css)"
      show "units_all ((take k cs # css) ! i) = Some (part_slice (pos # (pos + n) # new) xs i)"
        using i ih(5) k(1) s0 sS by (cases i) auto
      show "0 < length (part_slice (pos # (pos + n) # new) xs i)"
        using i ih(5) s0 sS n(1) len by (cases i) auto
      show "length (part_slice (pos # (pos + n) # new) xs i) \<le> per"
        using i ih(5) s0 sS n(2) len by (cases i) auto
    qed (use ih in auto)
  qed
qed

lemma split_parts:
  assumes "split_loop xs per 0 0 [0] = Some os" and "units_all cs = Some xs" and "2 \<le> per" and "per < length xs"
  obtains css where "concat css = cs" "length css = length os - 1" "2 \<le> length css" "length css \<le> SMS_MAX_SEGMENTS"
    "\<And>i. i < length css \<Longrightarrow> units_all (css ! i) = Some (part_slice os xs i) \<and> length (part_slice os xs i) \<le> per"
proof -
  from split_loop_parts [of xs per 0 0 "[0]" os cs] assms
  obtain css new where p: "os = 0 # new" "concat css = cs" "length css = length new" "length new \<le> SMS_MAX_SEGMENTS"
    "\<And>i. i < length css \<Longrightarrow> units_all (css ! i) = Some (part_slice os xs i) \<and> length (part_slice os xs i) \<le> per"
    by auto
  have "2 \<le> length css"
  proof (rule ccontr)
    assume "\<not> 2 \<le> length css"
    then consider "css = []" | c where "css = [c]" by (cases css; cases "tl css") auto
    then show False
    proof cases
      case 1
      then show False using p(2) assms by (auto simp: units_Nil)
    next
      case 2
      then show False using p(2) p(5) [of 0] assms(2,4) by auto
    qed
  qed
  then show ?thesis using p by (intro that) auto
qed

end

section \<open>The GSM 03.38 splitter\<close>

lemma gsm7_extension_not_escape: "e \<in> set s_gsm7_extension \<Longrightarrow> extension e \<noteq> 0x1B"
  by (auto simp: s_gsm7_extension_def)

lemma gsm7_find_units:
  "gsm7_find c = Some us \<Longrightarrow> (\<exists>u. us = [u] \<and> u \<noteq> 0x1B) \<or> (\<exists>l u. us = [l, u] \<and> l = 0x1B \<and> u \<noteq> 0x1B)"
proof (erule gsm7_find_cases)
  fix i :: nat assume i: "us = [word_of_nat i]" "i < 128" "i \<noteq> 0x1B"
  have "word_of_nat i \<noteq> (0x1B :: u8)"
    using i(2,3) by (auto dest: arg_cong [where f = unat] simp: unat_of_nat)
  with i(1) show ?thesis by blast
qed (use gsm7_extension_not_escape in blast)

interpretation gsm7_split: part_splitter gsm7_find gsm7_septets "\<lambda>u. u = 0x1B" gsm7_part_size split_gsm7_loop
proof (unfold_locales, goal_cases)
  case (1 c us)
  then show ?case by (rule gsm7_find_units)
next
  case (5 xs per pos parts offsets)
  show ?case by (subst split_gsm7_loop.simps) simp
qed (auto simp: gsm7_part_size_def Let_def)

section \<open>The UCS-2 splitter\<close>

text \<open>The code units of one character and of a sequence of characters.\<close>

definition ucs2_of_codepoint :: "u32 \<Rightarrow> u16 list option" where
  "ucs2_of_codepoint cp = (if scalar_value cp then Some (ucs2_units cp) else None)"

fun ucs2_of_codepoints :: "u32 list \<Rightarrow> u16 list option" where
  "ucs2_of_codepoints [] = Some []"
| "ucs2_of_codepoints (cp # cps) =
     (case ucs2_of_codepoint cp of
        None \<Rightarrow> None
      | Some us \<Rightarrow> map_option ((@) us) (ucs2_of_codepoints cps))"

definition ucs2_of_text :: "string \<Rightarrow> u16 list option" where
  "ucs2_of_text s = Option.bind (utf8_codepoints s) ucs2_of_codepoints"

definition high_surrogate :: "u16 \<Rightarrow> bool" where
  "high_surrogate u \<longleftrightarrow> 0xD800 \<le> u \<and> u \<le> 0xDBFF"

lemma ucast_bmp: "cp \<le> 0xFFFF \<Longrightarrow> unat (ucast (cp :: u32) :: u16) = unat cp"
  by (simp add: unsigned_ucast_eq take_bit_eq_mod word_le_nat_alt)

lemma bmp_not_surrogate:
  assumes "cp \<le> 0xFFFF" and "scalar_value cp"
  shows "\<not> (0xD800 \<le> (ucast cp :: u16) \<and> (ucast cp :: u16) \<le> 0xDFFF)"
  using assms by (simp add: scalar_value_def word_le_nat_alt ucast_bmp)

lemma or_shifted:
  fixes x :: nat
  assumes "x < 1024"
  shows "push_bit 10 m OR x = push_bit 10 m + x"
proof (rule disjunctive_add [symmetric])
  fix n
  have "take_bit 10 x = x" using assms by (simp add: take_bit_nat_eq_self)
  then have "bit x n \<Longrightarrow> n < 10" by (metis bit_take_bit_iff)
  then show "\<not> bit (push_bit 10 m) n \<or> \<not> bit x n" by (auto simp: bit_push_bit_iff)
qed

lemma surrogates:
  fixes cp :: u32
  assumes "\<not> cp \<le> 0xFFFF" and "cp \<le> 0x10FFFF"
  defines "v \<equiv> cp - 0x10000"
  shows "unat (ucast (0xD800 OR drop_bit 10 v) :: u16) = 0xD800 + unat v div 1024"
    "unat (ucast (0xDC00 OR (v AND 0x3FF)) :: u16) = 0xDC00 + unat v mod 1024"
    "unat v < 2 ^ 20" "unat cp = unat v + 0x10000"
proof -
  have v: "unat v = unat cp - 0x10000" 
    using assms(1) by (simp add: v_def unat_sub word_le_nat_alt)
  then show lt: "unat v < 2 ^ 20" and "unat cp = unat v + 0x10000"
    using assms(1,2) by (simp_all add: word_le_nat_alt)
  have d: "unat v div 1024 < 1024" using lt by simp
  have "unat ((0xD800 :: u32) OR drop_bit 10 v) = push_bit 10 54 OR (unat v div 1024)"
    by (simp add: unsigned_or_eq unsigned_drop_bit_eq drop_bit_eq_div push_bit_eq_mult unat_div_distrib)
  then have 1: "unat ((0xD800 :: u32) OR drop_bit 10 v) = 0xD800 + unat v div 1024"
    using or_shifted [OF d, of 54] by (simp add: push_bit_eq_mult)
  have "unat (v AND 0x3FF) = unat v mod 1024"
    using take_bit_eq_mask [of 10 "unat v"] by (simp add: unsigned_and_eq mask_eq_exp_minus_1 take_bit_eq_mod)
  then show "unat (ucast (0xDC00 OR (v AND 0x3FF)) :: u16) = 0xDC00 + unat v mod 1024"
    using or_shifted [of "unat v mod 1024" 55]
    by (simp add: unsigned_ucast_eq unsigned_or_eq push_bit_eq_mult take_bit_eq_mod)
  show "unat (ucast (0xD800 OR drop_bit 10 v) :: u16) = 0xD800 + unat v div 1024"
    using 1 d by (simp add: unsigned_ucast_eq take_bit_eq_mod)
qed

lemma ucs2_units_of_codepoint:
  assumes "ucs2_of_codepoint cp = Some us"
  shows "(\<exists>u. us = [u] \<and> \<not> high_surrogate u) \<or> (\<exists>l u. us = [l, u] \<and> high_surrogate l \<and> \<not> high_surrogate u)"
proof -
  have c: "scalar_value cp" and us: "us = ucs2_units cp"
    using assms by (auto simp: ucs2_of_codepoint_def split: if_splits)
  show ?thesis
  proof (cases "cp \<le> 0xFFFF")
    case True
    then show ?thesis using bmp_not_surrogate [OF True c] us
      by (auto simp: ucs2_units_def high_surrogate_def word_le_nat_alt)
  next
    case False
    note s = surrogates [OF False]
    have "cp \<le> 0x10FFFF" using c by (simp add: scalar_value_def)
    note s = surrogates [OF False this]
    have "unat (cp - 0x10000) div 1024 < 1024" using s(3) by simp
    then have "high_surrogate (ucast (0xD800 OR drop_bit 10 (cp - 0x10000)))"
      "\<not> high_surrogate (ucast (0xDC00 OR (cp - 0x10000 AND 0x3FF)))"
      unfolding high_surrogate_def word_le_nat_alt s(1,2) by simp_all
    then show ?thesis using False us by (simp add: ucs2_units_def Let_def)
  qed
qed

lemma ucs2_part_size_spec:
  "0 < per \<Longrightarrow> ucs2_part_size xs per pos =
     (if length xs - pos \<le> per then length xs - pos
      else if high_surrogate (xs ! (pos + per - 1)) then per - 1 else per)"
  by (auto simp: ucs2_part_size_def high_surrogate_def Let_def min_def)

interpretation ucs2_split: part_splitter ucs2_of_codepoint ucs2_of_codepoints high_surrogate ucs2_part_size split_ucs2_loop
proof (unfold_locales, goal_cases)
  case (1 c us)
  then show ?case by (rule ucs2_units_of_codepoint)
next
  case (4 per xs pos)
  then show ?case by (rule ucs2_part_size_spec)
next
  case (5 xs per pos parts offsets)
  show ?case by (subst split_ucs2_loop.simps) simp
qed auto

lemma ucs2_units_length: "ucs2_of_codepoint cp = Some us \<Longrightarrow> us = ucs2_units cp \<and> length us = (if cp \<le> 0xFFFF then 1 else 2)"
  by (auto simp: ucs2_of_codepoint_def ucs2_units_def Let_def split: if_splits)

lemma ucs2_of_text_rec:
  "ucs2_of_text s =
     (if cchar s 0 = NUL then Some []
      else case sms_utf8_next s of
        None \<Rightarrow> None
      | Some (cp, r) \<Rightarrow> map_option ((@) (ucs2_units cp)) (ucs2_of_text r))"
proof -
  have "ucs2_of_codepoint cp = Some (ucs2_units cp)" if "sms_utf8_next s = Some (cp, r)" for cp r
    using utf8_next_canonical [OF that] by (simp add: ucs2_of_codepoint_def)
  then show ?thesis
    by (subst ucs2_of_text_def, subst utf8_codepoints.simps)
       (auto simp: ucs2_of_text_def map_option_case split: option.splits)
qed

lemma utf8_to_ucs2_loop_spec:
  "length out \<le> capacity \<Longrightarrow>
   utf8_to_ucs2_loop capacity out s =
     (case ucs2_of_text s of
        None \<Rightarrow> None
      | Some us \<Rightarrow> if length out + length us \<le> capacity then Some (out @ us) else None)"
proof (induction capacity out s rule: utf8_to_ucs2_loop.induct)
  case (1 capacity out s)
  show ?case
  proof (cases "cchar s 0 = NUL \<or> sms_utf8_next s = None")
    case True
    then show ?thesis using "1.prems" by (subst utf8_to_ucs2_loop.simps, subst ucs2_of_text_rec) auto
  next
    case False
    then obtain cp r where n: "cchar s 0 \<noteq> NUL" "sms_utf8_next s = Some (cp, r)" by auto
    have sc: "scalar_value cp" using utf8_next_canonical [OF n(2)] by simp
    have l: "length (ucs2_units cp) = (if cp \<le> 0xFFFF then 1 else 2)" by (simp add: ucs2_units_def Let_def)
    have ih: "length out + length (ucs2_units cp) \<le> capacity \<Longrightarrow>
      utf8_to_ucs2_loop capacity (out @ ucs2_units cp) r = (case ucs2_of_text r of None \<Rightarrow> None
      | Some us \<Rightarrow> if length (out @ ucs2_units cp) + length us \<le> capacity then Some ((out @ ucs2_units cp) @ us) else None)"
      using "1.IH" [OF n refl] sc l by (cases "cp \<le> 0xFFFF") (auto simp: scalar_value_def not_le)
    show ?thesis using n sc l ih
      by (subst utf8_to_ucs2_loop.simps, subst ucs2_of_text_rec)
         (auto simp: scalar_value_def not_le split: option.splits if_splits)
  qed
qed

lemma utf8_to_ucs2_spec:
  "utf8_to_ucs2 s capacity =
     (case ucs2_of_text s of None \<Rightarrow> None | Some us \<Rightarrow> if length us \<le> capacity then Some us else None)"
  by (cases "ucs2_of_text s") (simp_all add: utf8_to_ucs2_def utf8_to_ucs2_loop_spec)

end
