(* ===== verification/Pdu_Submit.thy ===== *)
theory Pdu_Submit
  imports Pdu_Split
begin

text \<open>
  The entry points \<open>sms_submit_encode\<close> and \<open>sms_submit_preflight\<close>: the predicate \<open>submitted\<close>
  describes the segments of a message by the characters each part carries, the lemma
  \<open>encode_outcome\<close> shows that the encoder produces exactly such segments whenever the
  preflight check accepts the message and the caller's array is long enough.
\<close>

section \<open>The loop over the parts\<close>

lemma count_ucs2_loop_split:
  "length offsets = parts + 1 \<Longrightarrow>
   count_ucs2_loop units per cursor parts = map_option (\<lambda>os. length os - 1) (split_ucs2_loop units per cursor parts offsets)"
proof (induction units per cursor parts arbitrary: offsets rule: count_ucs2_loop.induct)
  case (1 units per cursor parts)
  then show ?case
    by (subst count_ucs2_loop.simps, subst split_ucs2_loop.simps) (auto simp: Let_def)
qed

text \<open>The segment the loop writes at index \<open>i\<close>.\<close>

definition built_segment ::
  "string \<Rightarrow> sms_encoding \<Rightarrow> bool \<Rightarrow> u8 list \<Rightarrow> u8 list \<Rightarrow> sms_submit_segment \<Rightarrow> sms_submit_segment" where
  "built_segment r enc srr udh payload seg = the (build_submit_pdu r enc srr udh payload seg)"

lemma submit_parts_loop_spec:
  assumes "\<And>i seg. i < parts \<Longrightarrow>
      build_submit_pdu r enc srr (concat_header ref (word_of_nat parts) (word_of_nat (i + 1))) (pl i) seg \<noteq> None"
    and "k \<le> parts" "parts \<le> length segs"
  shows "submit_parts_loop r enc srr ref parts pl [k..<parts] segs =
    Some (map (\<lambda>i. if k \<le> i \<and> i < parts
      then segment_part ref parts i (built_segment r enc srr (concat_header ref (word_of_nat parts) (word_of_nat (i + 1))) (pl i) (segs ! i))
      else segs ! i) [0..<length segs])"
  using assms(2,3)
proof (induction "parts - k" arbitrary: k segs)
  case 0
  then have "map (\<lambda>i. if k \<le> i \<and> i < parts
      then segment_part ref parts i (built_segment r enc srr (concat_header ref (word_of_nat parts) (word_of_nat (i + 1))) (pl i) (segs ! i))
      else segs ! i) [0..<length segs] = segs"
    by (intro nth_equalityI) auto
  with 0 show ?case by simp
next
  case (Suc d)
  then have k: "k < parts" by simp
  then obtain seg where b: "build_submit_pdu r enc srr (concat_header ref (word_of_nat parts) (word_of_nat (k + 1))) (pl k) (segs ! k) = Some seg"
    using assms(1) by blast
  have bs: "built_segment r enc srr (concat_header ref (word_of_nat parts) (word_of_nat (k + 1))) (pl k) (segs ! k) = seg"
    using b by (simp add: built_segment_def)
  have "submit_parts_loop r enc srr ref parts pl [k..<parts] segs =
      submit_parts_loop r enc srr ref parts pl [Suc k..<parts] (segs[k := segment_part ref parts k seg])"
    using k b by (simp add: upt_conv_Cons Let_def)
  also have "\<dots> = Some (map (\<lambda>i. if Suc k \<le> i \<and> i < parts
      then segment_part ref parts i (built_segment r enc srr (concat_header ref (word_of_nat parts) (word_of_nat (i + 1))) (pl i) (segs[k := segment_part ref parts k seg] ! i))
      else segs[k := segment_part ref parts k seg] ! i) [0..<length segs])"
    using Suc.hyps(2) k Suc.prems Suc.hyps(1) [of "Suc k" "segs[k := segment_part ref parts k seg]"] by simp
  also have "\<dots> = Some (map (\<lambda>i. if k \<le> i \<and> i < parts
      then segment_part ref parts i (built_segment r enc srr (concat_header ref (word_of_nat parts) (word_of_nat (i + 1))) (pl i) (segs ! i))
      else segs ! i) [0..<length segs])"
    using k Suc.prems bs by (auto simp: nth_list_update)
  finally show ?case .
qed

section \<open>What the encoder produces\<close>

text \<open>The user data of one part: the characters \<open>cps\<close> behind the header \<open>udh\<close>.\<close>

fun part_data :: "sms_encoding \<Rightarrow> u32 list \<Rightarrow> u8 list \<Rightarrow> u8 \<Rightarrow> u8 list \<Rightarrow> bool" where
  "part_data SMS_ENCODING_GSM7 cps udh udl ud \<longleftrightarrow>
     (case gsm7_septets cps of None \<Rightarrow> False | Some ss \<Rightarrow> pack_septets ss udh 140 = Some (ud, udl))"
| "part_data SMS_ENCODING_UCS2 cps udh udl ud \<longleftrightarrow>
     (case ucs2_of_codepoints cps of None \<Rightarrow> False
      | Some us \<Rightarrow> ud = udh @ ucs2_payload us \<and> length ud \<le> 140 \<and> udl = word_of_nat (length ud))"
| "part_data _ cps udh udl ud \<longleftrightarrow> False"

definition segment_with :: "string \<times> bool \<Rightarrow> sms_encoding \<Rightarrow> bool \<Rightarrow> nat \<Rightarrow> u8 \<Rightarrow> u8 list \<Rightarrow> sms_submit_segment \<Rightarrow> bool" where
  "segment_with v enc srr udh_len udl ud seg \<longleftrightarrow>
     seg_encoding seg = enc \<and>
     tpdu_length_octets seg = length (submit_octets v enc srr udh_len udl ud) - 1 \<and>
     hex_encode (submit_octets v enc srr udh_len udl ud) SMS_MAX_PDU_HEX = Some (pdu_hex seg)"

lemma ucs2_payload_length [simp]: "length (ucs2_payload us) = 2 * length us"
  by (induction us) (auto simp: ucs2_payload_def)

lemma build_gsm7_part:
  assumes "address_validate r = Some v" and "gsm7_septets cps = Some ss" and "udh_septets (length udh) + length ss \<le> 160"
  obtains udl ud where "part_data SMS_ENCODING_GSM7 cps udh udl ud" "length ud \<le> 140"
    "\<And>seg. \<exists>s. build_submit_pdu r SMS_ENCODING_GSM7 srr udh ss seg = Some s \<and> segment_with v SMS_ENCODING_GSM7 srr (length udh) udl ud s"
proof -
  obtain ud udl where p: "pack_septets ss udh 140 = Some (ud, udl)" using pack_septets_room [OF assms(3)] by blast
  have l: "length ud \<le> 140" using pack_septets_Some(3) [OF p] .
  have o: "length (submit_octets v SMS_ENCODING_GSM7 srr (length udh) udl ud) \<le> 176"
    using submit_octets_length [OF assms(1) l, of SMS_ENCODING_GSM7 srr "length udh" udl] by simp
  show ?thesis
    using p l assms(2) hex_encode_Some [OF o]
    by (intro that [of udl ud]) (auto simp: build_gsm7_spec [OF assms(1) p] segment_with_def Let_def)
qed

lemma build_ucs2_part:
  assumes "address_validate r = Some v" and "ucs2_of_codepoints cps = Some us" and "length udh + 2 * length us \<le> 140"
  obtains udl ud where "part_data SMS_ENCODING_UCS2 cps udh udl ud" "length ud \<le> 140"
    "\<And>seg. \<exists>s. build_submit_pdu r SMS_ENCODING_UCS2 srr udh (ucs2_payload us) seg = Some s \<and> segment_with v SMS_ENCODING_UCS2 srr (length udh) udl ud s"
proof -
  define ud udl where "ud = udh @ ucs2_payload us" and "udl = (word_of_nat (length ud) :: u8)"
  have l: "length ud \<le> 140" using assms(3) by (simp add: ud_def)
  have o: "length (submit_octets v SMS_ENCODING_UCS2 srr (length udh) udl ud) \<le> 176"
    using submit_octets_length [OF assms(1) l, of SMS_ENCODING_UCS2 srr "length udh" udl] by simp
  have l': "length udh + length (ucs2_payload us) \<le> 140" using assms(3) by simp
  have udl': "(word_of_nat (length udh + length (ucs2_payload us)) :: u8) = udl" by (simp add: udl_def ud_def)
  show ?thesis
    using l assms(2) hex_encode_Some [OF o]
    by (intro that [of udl ud])
       (auto simp: build_ucs2_spec [OF assms(1) l'] udl' segment_with_def Let_def simp flip: ud_def, auto simp: ud_def udl_def)
qed

definition part_header :: "nat \<Rightarrow> u16 \<Rightarrow> nat \<Rightarrow> u8 list" where
  "part_header n ref i = (if n = 1 then [] else concat_header ref (word_of_nat n) (word_of_nat (i + 1)))"

definition part_concat :: "nat \<Rightarrow> u16 \<Rightarrow> nat \<Rightarrow> sms_concat_info" where
  "part_concat n ref i = \<lparr>cc_present = True, cc_is_16bit = ref > 0xFF, cc_reference = ref,
     cc_total_parts = word_of_nat n, cc_part_number = word_of_nat (i + 1)\<rparr>"

text \<open>
  \<open>segs\<close> is the caller's array \<open>segments\<close> after the characters \<open>cpss\<close>, one list for each of
  \<open>n\<close> parts, were written into its first \<open>n\<close> places.
\<close>

definition submitted_part :: "string \<times> bool \<Rightarrow> sms_encoding \<Rightarrow> bool \<Rightarrow> u16 \<Rightarrow> nat \<Rightarrow> nat \<Rightarrow> u32 list \<Rightarrow> sms_submit_segment \<Rightarrow> bool" where
  "submitted_part v enc srr ref n i cps seg \<longleftrightarrow>
     (\<exists>udl ud. part_data enc cps (part_header n ref i) udl ud \<and> length ud \<le> 140 \<and>
        segment_with v enc srr (length (part_header n ref i)) udl ud seg) \<and>
     segment_number seg = word_of_nat (i + 1) \<and> segment_count seg = word_of_nat n \<and>
     (if n = 1 then \<not> cc_present (seg_concat seg) else seg_concat seg = part_concat n ref i)"

definition submitted :: "string \<times> bool \<Rightarrow> sms_encoding \<Rightarrow> bool \<Rightarrow> u16 \<Rightarrow> nat \<Rightarrow> u32 list list \<Rightarrow> sms_submit_segment list \<Rightarrow> sms_submit_segment list \<Rightarrow> bool" where
  "submitted v enc srr ref n cpss segments segs \<longleftrightarrow>
     length segs = length segments \<and>
     (\<forall>i < n. submitted_part v enc srr ref n i (cpss ! i) (segs ! i)) \<and>
     (\<forall>i < length segs. n \<le> i \<longrightarrow> segs ! i = segments ! i)"

lemma concat_header_length [simp]: "length (concat_header ref a b) = (if ref \<le> 0xFF then 6 else 7)"
  by (simp add: concat_header_def)

lemma segment_with_updates [simp]:
  "segment_with v enc srr l udl ud (segment_single s) = segment_with v enc srr l udl ud s"
  "segment_with v enc srr l udl ud (segment_part ref n i s) = segment_with v enc srr l udl ud s"
  by (simp_all add: segment_with_def segment_single_def segment_part_def)

lemma segment_fields [simp]:
  "segment_number (segment_single s) = 1" "segment_count (segment_single s) = 1"
  "cc_present (seg_concat (segment_single s)) = False"
  "segment_number (segment_part ref n i s) = word_of_nat (i + 1)" "segment_count (segment_part ref n i s) = word_of_nat n"
  "seg_concat (segment_part ref n i s) = part_concat n ref i"
  by (simp_all add: segment_single_def segment_part_def part_concat_def)

lemma parts_submitted:
  assumes b: "\<And>i. i < n \<Longrightarrow> \<exists>udl ud. part_data enc (cpss ! i) (part_header n ref i) udl ud \<and> length ud \<le> 140 \<and>
      (\<forall>seg. \<exists>s. build_submit_pdu r enc srr (part_header n ref i) (pl i) seg = Some s \<and>
        segment_with v enc srr (length (part_header n ref i)) udl ud s)"
    and n: "2 \<le> n" "n \<le> length segments"
  shows "\<exists>segs. submit_parts_loop r enc srr ref n pl [0..<n] segments = Some segs \<and>
    submitted v enc srr ref n cpss segments segs"
proof -
  have h: "part_header n ref i = concat_header ref (word_of_nat n) (word_of_nat (i + 1))" for i
    using n by (simp add: part_header_def)
  let ?seg = "\<lambda>i. built_segment r enc srr (part_header n ref i) (pl i) (segments ! i)"
  have l: "submit_parts_loop r enc srr ref n pl [0..<n] segments =
    Some (map (\<lambda>i. if 0 \<le> i \<and> i < n then segment_part ref n i (?seg i) else segments ! i) [0..<length segments])"
    unfolding h
  proof (rule submit_parts_loop_spec)
    show "build_submit_pdu r enc srr (concat_header ref (word_of_nat n) (word_of_nat (i + 1))) (pl i) seg \<noteq> None"
      if "i < n" for i seg
      using b [OF that] h [of i] by fastforce
  qed (use n in simp_all)
  have "submitted_part v enc srr ref n i (cpss ! i) (segment_part ref n i (?seg i))" if i: "i < n" for i
  proof -
    from b [OF i] obtain udl ud s where "part_data enc (cpss ! i) (part_header n ref i) udl ud" "length ud \<le> 140"
      "build_submit_pdu r enc srr (part_header n ref i) (pl i) (segments ! i) = Some s"
      "segment_with v enc srr (length (part_header n ref i)) udl ud s" by blast
    then show ?thesis using n(1) by (auto simp: submitted_part_def built_segment_def)
  qed
  with l n show ?thesis by (auto simp: submitted_def)
qed

lemma single_submitted:
  assumes b: "\<exists>udl ud. part_data enc cps [] udl ud \<and> length ud \<le> 140 \<and>
      (\<forall>seg. \<exists>s. build_submit_pdu r enc srr [] pl seg = Some s \<and> segment_with v enc srr 0 udl ud s)"
    and n: "0 < length segments"
  shows "\<exists>seg. build_submit_pdu r enc srr [] pl (segments ! 0) = Some seg \<and>
    submitted v enc srr ref 1 [cps] segments (segments[0 := segment_single seg])"
proof -
  from b obtain udl ud s where "part_data enc cps [] udl ud" "length ud \<le> 140"
      "build_submit_pdu r enc srr [] pl (segments ! 0) = Some s" "segment_with v enc srr 0 udl ud s" by blast
  with n show ?thesis by (auto simp: submitted_def submitted_part_def part_header_def)
qed

text \<open>The outcome of both entry points once the text is encoded and split.\<close>

definition encode_outcome ::
  "string \<Rightarrow> string \<Rightarrow> bool \<Rightarrow> u16 \<Rightarrow> sms_submit_segment list \<Rightarrow> bool" where
  "encode_outcome r t srr ref segments \<longleftrightarrow>
     (case sms_submit_preflight r t ref of
        None \<Rightarrow> sms_submit_encode r t srr ref segments = None
      | Some (enc, n) \<Rightarrow>
          1 \<le> n \<and> n \<le> SMS_MAX_SEGMENTS \<and>
          (if n \<le> length segments
           then (\<exists>v cpss segs. address_validate r = Some v \<and> utf8_codepoints t = Some (concat cpss) \<and> length cpss = n \<and>
                 sms_submit_encode r t srr ref segments = Some (segs, n) \<and> submitted v enc srr ref n cpss segments segs)
           else sms_submit_encode r t srr ref segments = None))"

lemma gsm7_split_outcome:
  assumes v: "address_validate r = Some v" and cps: "gsm7_septets cps = Some ss" and big: "160 < length ss"
    and sp: "split_gsm7 ss (160 - header_septets (length (concat_header ref 1 1))) = Some os"
  shows "2 \<le> length os - 1 \<and> length os - 1 \<le> SMS_MAX_SEGMENTS \<and>
    (length os - 1 \<le> length segments \<longrightarrow>
      (\<exists>cpss segs. concat cpss = cps \<and> length cpss = length os - 1 \<and>
        submit_parts_loop r SMS_ENCODING_GSM7 srr ref (length os - 1) (part_slice os ss) [0..<length os - 1] segments = Some segs \<and>
        submitted v SMS_ENCODING_GSM7 srr ref (length os - 1) cpss segments segs))"
proof -
  define per where "per = 160 - header_septets (length (concat_header ref 1 1))"
  have per: "per = (if ref \<le> 0xFF then 153 else 152)" by (simp add: per_def header_septets_def)
  from gsm7_split.split_parts [of ss per os cps] sp cps per big
  obtain css where p: "concat css = cps" "length css = length os - 1" "2 \<le> length css" "length css \<le> SMS_MAX_SEGMENTS"
    "\<And>i. i < length css \<Longrightarrow> gsm7_septets (css ! i) = Some (part_slice os ss i) \<and> length (part_slice os ss i) \<le> per"
    unfolding split_gsm7_def per_def [symmetric] by (auto split: if_splits)
  note two = p(3) and n = p(2) [symmetric]
  have b: "\<exists>udl ud. part_data SMS_ENCODING_GSM7 (css ! i) (part_header (length css) ref i) udl ud \<and> length ud \<le> 140 \<and>
      (\<forall>seg. \<exists>s. build_submit_pdu r SMS_ENCODING_GSM7 srr (part_header (length css) ref i) (part_slice os ss i) seg = Some s \<and>
        segment_with v SMS_ENCODING_GSM7 srr (length (part_header (length css) ref i)) udl ud s)" if "i < length css" for i
  proof -
    have "length (part_header (length css) ref i) = (if ref \<le> 0xFF then 6 else 7)"
      using two by (simp add: part_header_def)
    then have "udh_septets (length (part_header (length css) ref i)) + length (part_slice os ss i) \<le> 160"
      using p(5) [OF that] per by (auto simp: udh_septets_def header_septets_def split: if_splits)
    from build_gsm7_part [OF v _ this, of "css ! i" srr] p(5) [OF that] show ?thesis by blast
  qed
  show ?thesis
    using parts_submitted [OF b two, of segments] p(1,4) two unfolding n by blast
qed

lemma ucs2_split_outcome:
  assumes v: "address_validate r = Some v" and cps: "ucs2_of_codepoints cps = Some us" and big: "70 < length us"
    and sp: "split_ucs2_loop us ((140 - length (concat_header ref 1 1)) div 2) 0 0 [0] = Some os"
  shows "2 \<le> length os - 1 \<and> length os - 1 \<le> SMS_MAX_SEGMENTS \<and>
    (length os - 1 \<le> length segments \<longrightarrow>
      (\<exists>cpss segs. concat cpss = cps \<and> length cpss = length os - 1 \<and>
        submit_parts_loop r SMS_ENCODING_UCS2 srr ref (length os - 1) (\<lambda>i. ucs2_payload (part_slice os us i)) [0..<length os - 1] segments = Some segs \<and>
        submitted v SMS_ENCODING_UCS2 srr ref (length os - 1) cpss segments segs))"
proof -
  define per where "per = (140 - length (concat_header ref 1 1)) div 2"
  have per: "per = (if ref \<le> 0xFF then 67 else 66)" by (simp add: per_def)
  from ucs2_split.split_parts [of us per os cps] sp cps per big
  obtain css where p: "concat css = cps" "length css = length os - 1" "2 \<le> length css" "length css \<le> SMS_MAX_SEGMENTS"
    "\<And>i. i < length css \<Longrightarrow> ucs2_of_codepoints (css ! i) = Some (part_slice os us i) \<and> length (part_slice os us i) \<le> per"
    unfolding per_def [symmetric] by (auto split: if_splits)
  note two = p(3) and n = p(2) [symmetric]
  have b: "\<exists>udl ud. part_data SMS_ENCODING_UCS2 (css ! i) (part_header (length css) ref i) udl ud \<and> length ud \<le> 140 \<and>
      (\<forall>seg. \<exists>s. build_submit_pdu r SMS_ENCODING_UCS2 srr (part_header (length css) ref i) (ucs2_payload (part_slice os us i)) seg = Some s \<and>
        segment_with v SMS_ENCODING_UCS2 srr (length (part_header (length css) ref i)) udl ud s)" if "i < length css" for i
  proof -
    have "length (part_header (length css) ref i) = (if ref \<le> 0xFF then 6 else 7)"
      using two by (simp add: part_header_def)
    then have "length (part_header (length css) ref i) + 2 * length (part_slice os us i) \<le> 140"
      using p(5) [OF that] per by (auto split: if_splits)
    from build_ucs2_part [OF v _ this, of "css ! i" srr] p(5) [OF that] show ?thesis by blast
  qed
  show ?thesis
    using parts_submitted [OF b two, of segments] p(1,4) two unfolding n by blast
qed

lemma single_gsm7:
  assumes "address_validate r = Some v" and "gsm7_septets cps = Some ss" and "length ss \<le> 160" and "0 < length segments"
  shows "\<exists>seg. build_submit_pdu r SMS_ENCODING_GSM7 srr [] ss (segments ! 0) = Some seg \<and>
    submitted v SMS_ENCODING_GSM7 srr ref 1 [cps] segments (segments[0 := segment_single seg])"
proof -
  have "udh_septets (length ([] :: u8 list)) + length ss \<le> 160" using assms(3) by (simp add: udh_septets_def)
  from build_gsm7_part [OF assms(1,2) this, of srr] obtain udl ud
    where "part_data SMS_ENCODING_GSM7 cps [] udl ud" "length ud \<le> 140"
    "\<And>seg. \<exists>s. build_submit_pdu r SMS_ENCODING_GSM7 srr [] ss seg = Some s \<and> segment_with v SMS_ENCODING_GSM7 srr 0 udl ud s"
    by (metis list.size(3))
  then show ?thesis using assms(4) by (intro single_submitted exI [of _ udl] exI [of _ ud]) simp_all
qed

lemma single_ucs2:
  assumes "address_validate r = Some v" and "ucs2_of_codepoints cps = Some us" and "length us \<le> 70" and "0 < length segments"
  shows "\<exists>seg. build_submit_pdu r SMS_ENCODING_UCS2 srr [] (ucs2_payload us) (segments ! 0) = Some seg \<and>
    submitted v SMS_ENCODING_UCS2 srr ref 1 [cps] segments (segments[0 := segment_single seg])"
proof -
  have "length ([] :: u8 list) + 2 * length us \<le> 140" using assms(3) by simp
  from build_ucs2_part [OF assms(1,2) this, of srr] obtain udl ud
    where "part_data SMS_ENCODING_UCS2 cps [] udl ud" "length ud \<le> 140"
    "\<And>seg. \<exists>s. build_submit_pdu r SMS_ENCODING_UCS2 srr [] (ucs2_payload us) seg = Some s \<and> segment_with v SMS_ENCODING_UCS2 srr 0 udl ud s"
    by (metis list.size(3))
  then show ?thesis using assms(4) by (intro single_submitted exI [of _ udl] exI [of _ ud]) simp_all
qed

text \<open>The two branches of the entry points, with the text encoded.\<close>

lemma gsm7_branch:
  fixes ref :: u16
  assumes "address_validate r = Some v" and "gsm7_of_text t = Some ss" and "sms_gsm7_septet_count t \<noteq> SIZE_MAX"
  defines "sp \<equiv> split_gsm7 ss (160 - header_septets (length (concat_header ref 1 1)))"
  shows "sms_submit_preflight r t ref =
      (if length ss \<le> 160 then Some (SMS_ENCODING_GSM7, 1)
       else if SMS_MAX_GSM7_SEPTETS < length ss then None
       else do { os \<leftarrow> sp;
                 if length os - 1 = 0 \<or> SMS_MAX_SEGMENTS < length os - 1 then None
                 else Some (SMS_ENCODING_GSM7, length os - 1) })"
    and "sms_submit_encode r t srr ref segments =
      (if segments = [] then None
       else if length ss \<le> 160
         then do { seg \<leftarrow> build_submit_pdu r SMS_ENCODING_GSM7 srr [] ss (segments ! 0);
                   Some (segments[0 := segment_single seg], 1) }
       else if SMS_MAX_GSM7_SEPTETS < length ss then None
       else do { os \<leftarrow> sp;
                 if length segments < length os - 1 \<or> 255 < length os - 1 then None
                 else do { segs \<leftarrow> submit_parts_loop r SMS_ENCODING_GSM7 srr ref (length os - 1) (part_slice os ss) [0..<length os - 1] segments;
                           Some (segs, length os - 1) } })"
proof -
  have c: "sms_gsm7_septet_count t = length ss"
    using assms(2,3) by (auto simp: sms_gsm7_septet_count_spec min_def split: if_splits)
  have e: "sms_gsm7_encode t SMS_MAX_GSM7_SEPTETS = (if length ss \<le> SMS_MAX_GSM7_SEPTETS then Some ss else None)"
    using assms(2) by (simp add: sms_gsm7_encode_spec)
  have m: "length ss \<le> 160 \<Longrightarrow> length ss \<le> SMS_MAX_GSM7_SEPTETS"
    by (simp add: SMS_MAX_GSM7_SEPTETS_def SMS_MAX_SEGMENTS_def)
  show "sms_submit_preflight r t ref = (if length ss \<le> 160 then Some (SMS_ENCODING_GSM7, 1)
       else if SMS_MAX_GSM7_SEPTETS < length ss then None
       else do { os \<leftarrow> sp;
                 if length os - 1 = 0 \<or> SMS_MAX_SEGMENTS < length os - 1 then None
                 else Some (SMS_ENCODING_GSM7, length os - 1) })"
    unfolding sp_def sms_submit_preflight_def Let_def assms(1) c using assms(3) e m unfolding c by auto
  show "sms_submit_encode r t srr ref segments =
      (if segments = [] then None
       else if length ss \<le> 160
         then do { seg \<leftarrow> build_submit_pdu r SMS_ENCODING_GSM7 srr [] ss (segments ! 0);
                   Some (segments[0 := segment_single seg], 1) }
       else if SMS_MAX_GSM7_SEPTETS < length ss then None
       else do { os \<leftarrow> sp;
                 if length segments < length os - 1 \<or> 255 < length os - 1 then None
                 else do { segs \<leftarrow> submit_parts_loop r SMS_ENCODING_GSM7 srr ref (length os - 1) (part_slice os ss) [0..<length os - 1] segments;
                           Some (segs, length os - 1) } })"
    unfolding sp_def sms_submit_encode_def Let_def assms(1) c using assms(3) e m unfolding c by auto
qed

lemma ucs2_branch:
  fixes ref :: u16
  assumes "address_validate r = Some v" and "sms_gsm7_septet_count t = SIZE_MAX" and "utf8_to_ucs2 t SMS_MAX_UCS2_UNITS = Some us"
  defines "sp \<equiv> split_ucs2_loop us ((140 - length (concat_header ref 1 1)) div 2) 0 0 [0]"
  shows "sms_submit_preflight r t ref =
      (if length us \<le> 70 then Some (SMS_ENCODING_UCS2, 1)
       else do { os \<leftarrow> sp;
                 if length os - 1 = 0 \<or> SMS_MAX_SEGMENTS < length os - 1 then None
                 else Some (SMS_ENCODING_UCS2, length os - 1) })"
    and "sms_submit_encode r t srr ref segments =
      (if segments = [] then None
       else if length us \<le> 70
         then do { seg \<leftarrow> build_submit_pdu r SMS_ENCODING_UCS2 srr [] (ucs2_payload us) (segments ! 0);
                   Some (segments[0 := segment_single seg], 1) }
       else do { os \<leftarrow> sp;
                 if length os - 1 = 0 \<or> length segments < length os - 1 \<or> 255 < length os - 1 then None
                 else do { segs \<leftarrow> submit_parts_loop r SMS_ENCODING_UCS2 srr ref (length os - 1) (\<lambda>i. ucs2_payload (part_slice os us i)) [0..<length os - 1] segments;
                           Some (segs, length os - 1) } })"
  using assms(1-3) count_ucs2_loop_split [of "[0]" 0 us "(140 - length (concat_header ref 1 1)) div 2" 0]
  unfolding sp_def sms_submit_preflight_def sms_submit_encode_def Let_def
  by (auto simp: map_option_case split: option.splits)

lemma gsm7_outcome:
  assumes v: "address_validate r = Some v" and ss: "gsm7_of_text t = Some ss" and c: "sms_gsm7_septet_count t \<noteq> SIZE_MAX"
  shows "encode_outcome r t srr ref segments"
proof -
  note br = gsm7_branch [OF v ss c]
  from ss obtain cps where cps: "utf8_codepoints t = Some cps" "gsm7_septets cps = Some ss"
    by (auto simp: gsm7_of_text_def bind_eq_Some_conv)
  show ?thesis
  proof (cases "length ss \<le> 160")
    case True
    then show ?thesis
      using cps v single_gsm7 [OF v cps(2) True, of segments srr ref]
      by (cases "segments = []") (auto simp: encode_outcome_def br SMS_MAX_SEGMENTS_def Suc_le_eq intro!: exI [of _ "[cps]"])
  next
    case big: False
    show ?thesis
    proof (cases "SMS_MAX_GSM7_SEPTETS < length ss \<or> split_gsm7 ss (160 - header_septets (length (concat_header ref 1 1))) = None")
      case True
      then show ?thesis using big by (auto simp: encode_outcome_def br)
    next
      case False
      then obtain os where os: "split_gsm7 ss (160 - header_septets (length (concat_header ref 1 1))) = Some os" by auto
      from gsm7_split_outcome [OF v cps(2) _ os, of segments srr] big show ?thesis
        using False os cps(1) v by (auto simp: encode_outcome_def br SMS_MAX_SEGMENTS_def)
    qed
  qed
qed

lemma ucs2_outcome:
  assumes v: "address_validate r = Some v" and c: "sms_gsm7_septet_count t = SIZE_MAX" and us: "utf8_to_ucs2 t SMS_MAX_UCS2_UNITS = Some us"
  shows "encode_outcome r t srr ref segments"
proof -
  note br = ucs2_branch [OF v c us]
  have "ucs2_of_text t = Some us" using us by (auto simp: utf8_to_ucs2_spec split: option.splits if_splits)
  then obtain cps where cps: "utf8_codepoints t = Some cps" "ucs2_of_codepoints cps = Some us"
    by (auto simp: ucs2_of_text_def bind_eq_Some_conv)
  show ?thesis
  proof (cases "length us \<le> 70")
    case True
    then show ?thesis
      using cps v single_ucs2 [OF v cps(2) True, of segments srr ref]
      by (cases "segments = []") (auto simp: encode_outcome_def br SMS_MAX_SEGMENTS_def Suc_le_eq intro!: exI [of _ "[cps]"])
  next
    case big: False
    show ?thesis
    proof (cases "split_ucs2_loop us ((140 - length (concat_header ref 1 1)) div 2) 0 0 [0]")
      case None
      then show ?thesis using big by (auto simp: encode_outcome_def br)
    next
      case (Some os)
      from ucs2_split_outcome [OF v cps(2) _ Some, of segments srr] big show ?thesis
        using Some cps(1) v by (auto simp: encode_outcome_def br SMS_MAX_SEGMENTS_def)
    qed
  qed
qed

lemma encode_outcome: "encode_outcome r t srr ref segments"
proof (cases "address_validate r")
  case None
  then show ?thesis by (simp add: encode_outcome_def sms_submit_preflight_def sms_submit_encode_def Let_def)
next
  case v: (Some v)
  show ?thesis
  proof (cases "sms_gsm7_septet_count t = SIZE_MAX")
    case False
    then have "\<exists>ss. gsm7_of_text t = Some ss" by (auto simp: sms_gsm7_septet_count_spec split: option.splits)
    with v False show ?thesis by (auto intro: gsm7_outcome)
  next
    case True
    show ?thesis
    proof (cases "utf8_to_ucs2 t SMS_MAX_UCS2_UNITS")
      case None
      then show ?thesis using v True
        by (simp add: encode_outcome_def sms_submit_preflight_def sms_submit_encode_def Let_def)
    qed (use v True ucs2_outcome in blast)
  qed
qed

lemma submitted_octets:
  assumes "address_validate r = Some v" and "submitted_part v enc srr ref n i cps seg" and "i < n" "n \<le> SMS_MAX_SEGMENTS"
  obtains octets where "hex_decode (pdu_hex seg) SMS_MAX_PDU_OCTETS = Ret octets" "length octets \<le> 158"
    "tpdu_length_octets seg + 1 = length octets" "length (pdu_hex seg) < SMS_MAX_PDU_HEX"
    "unat (segment_number seg) = i + 1" "unat (segment_count seg) = n" "cc_present (seg_concat seg) \<longleftrightarrow> n > 1"
proof -
  from assms(2) obtain udl ud where d: "length ud \<le> 140"
    and w: "segment_with v enc srr (length (part_header n ref i)) udl ud seg"
    by (auto simp: submitted_part_def)
  let ?o = "submit_octets v enc srr (length (part_header n ref i)) udl ud"
  have l: "length ?o \<le> 158" by (rule submit_octets_length [OF assms(1) d])
  have h: "hex_encode ?o SMS_MAX_PDU_HEX = Some (pdu_hex seg)" using w by (simp add: segment_with_def)
  have dec: "hex_decode (pdu_hex seg) SMS_MAX_PDU_OCTETS = Ret ?o"
    using hex_decode_encode [OF h] l by (simp add: SMS_MAX_PDU_OCTETS_def)
  have "length (pdu_hex seg) = 2 * length ?o" using hex_decode_chars [OF dec] .
  then show ?thesis
    using dec l w assms(2-4)
    by (intro that [of ?o])
       (auto simp: segment_with_def submit_octets_def SMS_MAX_PDU_HEX_def SMS_MAX_PDU_OCTETS_def SMS_MAX_SEGMENTS_def
         submitted_part_def part_concat_def unat_of_nat simp del: of_nat_Suc split: if_splits)
qed

section \<open>Properties\<close>

text \<open>C19: the preflight check agrees with the encoder. \<open>sms_submit_encode\<close> succeeds with
  \<open>n\<close> segments exactly when \<open>sms_submit_preflight\<close> accepts recipient, text and reference, predicts
  \<open>n\<close>, and the caller's array has room for them; so a message the preflight accepts can always be
  encoded into an array of 16 segments.\<close>

theorem submit_encode_iff_preflight:
  "(\<exists>segs. sms_submit_encode recipient utf8_text request_status_report concat_reference segments = Some (segs, n)) =
   (\<exists>encoding. sms_submit_preflight recipient utf8_text concat_reference = Some (encoding, n) \<and> n \<le> length segments)"
  using encode_outcome [of recipient utf8_text request_status_report concat_reference segments]
  by (auto simp: encode_outcome_def split: option.splits if_splits)

text \<open>the segments of an encoded message. There are between 1 and 16; every one is a
  hexadecimal PDU that fits its 353-character buffer and decodes to at most 158 octets, its TPDU
  length excludes exactly the SMSC octet, the segments are numbered 1 to \<open>n\<close> and carry
  concatenation data exactly when there is more than one; the rest of the caller's array is
  unchanged.\<close>

theorem submit_segments_fit:
  assumes "sms_submit_encode recipient utf8_text request_status_report concat_reference segments = Some (segs, n)"
  shows "length segs = length segments \<and> 1 \<le> n \<and> n \<le> SMS_MAX_SEGMENTS \<and>
    (\<forall>i < n. \<exists>octets. hex_decode (pdu_hex (segs ! i)) SMS_MAX_PDU_OCTETS = Ret octets \<and> length octets \<le> 158 \<and>
       tpdu_length_octets (segs ! i) + 1 = length octets \<and> length (pdu_hex (segs ! i)) < SMS_MAX_PDU_HEX \<and>
       unat (segment_number (segs ! i)) = i + 1 \<and> unat (segment_count (segs ! i)) = n \<and>
       (cc_present (seg_concat (segs ! i)) \<longleftrightarrow> n > 1)) \<and>
    (\<forall>i < length segs. n \<le> i \<longrightarrow> segs ! i = segments ! i)"
proof -
  from encode_outcome [of recipient utf8_text request_status_report concat_reference segments] assms
  obtain enc v cpss where n: "1 \<le> n" "n \<le> SMS_MAX_SEGMENTS" and v: "address_validate recipient = Some v"
    and s: "submitted v enc request_status_report concat_reference n cpss segments segs"
    by (auto simp: encode_outcome_def split: option.splits if_splits)
  have "\<exists>octets. hex_decode (pdu_hex (segs ! i)) SMS_MAX_PDU_OCTETS = Ret octets \<and> length octets \<le> 158 \<and>
       tpdu_length_octets (segs ! i) + 1 = length octets \<and> length (pdu_hex (segs ! i)) < SMS_MAX_PDU_HEX \<and>
       unat (segment_number (segs ! i)) = i + 1 \<and> unat (segment_count (segs ! i)) = n \<and>
       (cc_present (seg_concat (segs ! i)) \<longleftrightarrow> n > 1)" if i: "i < n" for i
  proof -
    from s i have "submitted_part v enc request_status_report concat_reference n i (cpss ! i) (segs ! i)"
      by (simp add: submitted_def)
    from submitted_octets [OF v this i n(2)] show ?thesis by metis
  qed
  with n s show ?thesis by (auto simp: submitted_def)
qed

theorem submit_segments_fit_witness:
  "\<exists>segs n. sms_submit_encode ''+4915'' ''Hi'' False 7 [undefined] = Some (segs, n) \<and>
     n \<le> SMS_MAX_SEGMENTS \<and> unat (segment_count (segs ! 0)) = n"
proof -
  have v: "address_validate ''+4915'' = Some (''4915'', True)" by code_simp
  have s: "gsm7_of_text ''Hi'' = Some [0x48, 0x69]" by code_simp
  then have c: "sms_gsm7_septet_count ''Hi'' \<noteq> SIZE_MAX" by (simp add: sms_gsm7_septet_count_spec SIZE_MAX_def)
  have "sms_submit_preflight ''+4915'' ''Hi'' 7 = Some (SMS_ENCODING_GSM7, 1)"
    by (simp add: gsm7_branch(1) [OF v s c])
  then obtain segs where e: "sms_submit_encode ''+4915'' ''Hi'' False 7 [undefined] = Some (segs, 1)"
    using encode_outcome [of "''+4915''" "''Hi''" False 7 "[undefined]"] by (auto simp: encode_outcome_def)
  show ?thesis using e submit_segments_fit [OF e] by auto
qed

end
