(* ===== verification/Pdu_Decode.thy ===== *)
theory Pdu_Decode
  imports Pdu_Encode
begin

text \<open>
  The decoding half of \<open>components/sms_codec/sms_pdu.c\<close>: addresses, data coding, user-data
  headers, timestamps, user data, and the decoders of SMS-DELIVER and SMS-STATUS-REPORT PDUs.
  Every read of the PDU is \<open>aread\<close> on the octets that were decoded from the hexadecimal text, so
  a read behind them is the outcome \<open>Fault\<close>; a write behind a local array is a \<open>Fault\<close> too. An
  error return is \<open>Err\<close> with the code the function returns; what the function left in its
  out-parameter before such a return is not part of the result.
\<close>

section \<open>Data\<close>

datatype sms_pdu_type = SMS_PDU_TYPE_UNKNOWN | SMS_PDU_TYPE_DELIVER | SMS_PDU_TYPE_STATUS_REPORT

record sms_deliver =
  dl_sender :: string
  dl_encoding :: sms_encoding
  dl_concat :: sms_concat_info
  dl_service_center_timestamp :: string
  dl_text :: string

record sms_status_report =
  sr_message_reference :: u8
  sr_recipient :: string
  sr_service_center_timestamp :: string
  sr_discharge_timestamp :: string
  sr_status :: u8
  sr_delivered :: bool

definition SMS_MAX_ADDRESS_LENGTH :: nat where
  "SMS_MAX_ADDRESS_LENGTH = 24"

definition SMS_MAX_TEXT_UTF8 :: nat where
  "SMS_MAX_TEXT_UTF8 = 2048"

text \<open>Writing \<open>n\<close> elements from the start of an array of \<open>capacity\<close> elements.\<close>

definition array_room :: "nat \<Rightarrow> nat \<Rightarrow> ('e, unit) outcome" where
  "array_room n capacity = (if n \<le> capacity then Ret () else Fault)"

definition of_option :: "'e \<Rightarrow> 'a option \<Rightarrow> ('e, 'a) outcome" where
  "of_option e r = (case r of None \<Rightarrow> Err e | Some a \<Rightarrow> Ret a)"

section \<open>Addresses\<close>

definition nibble_char :: "u8 \<Rightarrow> char option" where
  "nibble_char nibble =
     (if nibble \<le> 9 then Some (char_of (48 + unat nibble))
      else if nibble = 0x0A then Some (CHR ''*'')
      else if nibble = 0x0B then Some (CHR ''#'')
      else if nibble \<ge> 0x0C \<and> nibble \<le> 0x0E then Some (char_of (97 + (unat nibble - 12)))
      else None)"

text \<open>The loop from semi-octet \<open>i\<close> on, \<open>n\<close> of them left; \<open>out\<close> is what has been written.\<close>

fun address_semi_loop :: "u8 list \<Rightarrow> nat \<Rightarrow> nat \<Rightarrow> nat \<Rightarrow> string \<Rightarrow> (unit, string) outcome" where
  "address_semi_loop data out_capacity i 0 out = Ret out"
| "address_semi_loop data out_capacity i (Suc n) out =
     and_then (aread data (i div 2)) (\<lambda>b.
       let nibble = (if i mod 2 = 0 then b AND 0x0F else drop_bit 4 b)
       in case nibble_char nibble of
            None \<Rightarrow> Err ()
          | Some ch \<Rightarrow>
              if length out + 1 \<ge> out_capacity then Err ()
              else address_semi_loop data out_capacity (i + 1) n (out @ [ch]))"

definition address_decode :: "u8 list \<Rightarrow> nat \<Rightarrow> nat \<Rightarrow> u8 \<Rightarrow> nat \<Rightarrow> (unit, string) outcome" where
  "address_decode data data_len semi_octet_count toa out_capacity =
     (if out_capacity = 0 then Err ()
      else let required_bytes = (semi_octet_count + 1) div 2 in
      if data_len < required_bytes then Err ()
      else let ton = drop_bit 4 toa AND 0x07 in
      if ton = 0x05 then
        let septet_count = (semi_octet_count * 4) div 7 in
        if septet_count > 11 then Err ()
        else and_then (array_room septet_count 11) (\<lambda>_.
             and_then (unpack_septets data required_bytes 0 septet_count) (\<lambda>septets.
             of_option () (sms_gsm7_decode septets out_capacity)))
      else if ton = 0x01 then
        (if 1 \<ge> out_capacity then Err ()
         else address_semi_loop data out_capacity 0 semi_octet_count ''+'')
      else address_semi_loop data out_capacity 0 semi_octet_count [])"

section \<open>Data coding and user-data headers\<close>

definition dcs_encoding :: "u8 \<Rightarrow> sms_encoding" where
  "dcs_encoding dcs =
     (if dcs AND 0xC0 = 0x00 then
        (if dcs AND 0x20 \<noteq> 0 then SMS_ENCODING_UNKNOWN
         else let v = drop_bit 2 dcs AND 0x03
              in if v = 0 then SMS_ENCODING_GSM7
                 else if v = 1 then SMS_ENCODING_8BIT
                 else if v = 2 then SMS_ENCODING_UCS2
                 else SMS_ENCODING_UNKNOWN)
      else if dcs AND 0xF0 = 0xF0 then
        (if dcs AND 0x04 \<noteq> 0 then SMS_ENCODING_8BIT else SMS_ENCODING_GSM7)
      else SMS_ENCODING_UNKNOWN)"

function udh_loop :: "u8 list \<Rightarrow> nat \<Rightarrow> nat \<Rightarrow> sms_concat_info \<Rightarrow> (unit, sms_concat_info) outcome" where
  "udh_loop udh stop pos cc =
     (if pos + 2 \<le> stop then
        and_then (aread udh pos) (\<lambda>iei.
        and_then (aread udh (pos + 1)) (\<lambda>len.
          let pos = pos + 2 in
          if pos + unat len > stop then Err ()
          else
            and_then
              (if iei = 0x00 \<and> len = 3 then
                 and_then (aread udh pos) (\<lambda>ref.
                 and_then (aread udh (pos + 1)) (\<lambda>tot.
                 and_then (aread udh (pos + 2)) (\<lambda>part.
                   Ret \<lparr>cc_present = True, cc_is_16bit = False, cc_reference = ucast ref,
                        cc_total_parts = tot, cc_part_number = part\<rparr>)))
               else if iei = 0x08 \<and> len = 4 then
                 and_then (aread udh pos) (\<lambda>high.
                 and_then (aread udh (pos + 1)) (\<lambda>low.
                 and_then (aread udh (pos + 2)) (\<lambda>tot.
                 and_then (aread udh (pos + 3)) (\<lambda>part.
                   Ret \<lparr>cc_present = True, cc_is_16bit = True,
                        cc_reference = push_bit 8 (ucast high) OR ucast low,
                        cc_total_parts = tot, cc_part_number = part\<rparr>))))
               else Ret cc)
              (\<lambda>cc. udh_loop udh stop (pos + unat len) cc)))
      else Ret cc)"
  by pat_completeness auto
termination
  by (relation "measure (\<lambda>(udh, stop, pos, cc). stop - pos)") auto

definition parse_concat_udh :: "u8 list \<Rightarrow> nat \<Rightarrow> (unit, sms_concat_info) outcome" where
  "parse_concat_udh udh udh_len =
     (if udh_len = 0 then Ret no_concat
      else and_then (aread udh 0) (\<lambda>udhl.
        if unat udhl + 1 > udh_len then Err ()
        else and_then (udh_loop udh (unat udhl + 1) 1 no_concat) (\<lambda>cc.
          if cc_present cc \<and> (cc_total_parts cc = 0 \<or> cc_part_number cc = 0 \<or>
               cc_part_number cc > cc_total_parts cc)
          then Err () else Ret cc)))"

function nls_loop :: "u8 list \<Rightarrow> nat \<Rightarrow> nat \<Rightarrow> (unit, bool) outcome" where
  "nls_loop udh stop pos =
     (if pos + 2 \<le> stop then
        and_then (aread udh pos) (\<lambda>iei.
        and_then (aread udh (pos + 1)) (\<lambda>len.
          if pos + 2 + unat len > stop then Ret False
          else if iei = 0x24 \<or> iei = 0x25 then Ret True
          else nls_loop udh stop (pos + 2 + unat len)))
      else Ret False)"
  by pat_completeness auto
termination
  by (relation "measure (\<lambda>(udh, stop, pos). stop - pos)") auto

definition udh_has_national_language_shift :: "u8 list \<Rightarrow> nat \<Rightarrow> (unit, bool) outcome" where
  "udh_has_national_language_shift udh udh_len =
     (if udh_len = 0 then Ret False
      else and_then (aread udh 0) (\<lambda>udhl.
        if unat udhl + 1 > udh_len then Ret False
        else nls_loop udh (unat udhl + 1) 1))"

section \<open>Timestamps\<close>

definition semi_octet_value :: "u8 \<Rightarrow> int" where
  "semi_octet_value byte =
     (let tens = uint (byte AND 0x0F); ones = uint (drop_bit 4 byte AND 0x0F)
      in if tens > 9 \<or> ones > 9 then -1 else tens * 10 + ones)"

definition timestamp_text :: "int \<Rightarrow> int \<Rightarrow> int \<Rightarrow> int \<Rightarrow> int \<Rightarrow> int \<Rightarrow> bool \<Rightarrow> int \<Rightarrow> string" where
  "timestamp_text yy month day hour minute second negative quarters =
     (let tz_minutes = quarters * 15;
          tz_hours = tz_minutes div 60;
          tz_mins = tz_minutes mod 60;
          year = (if yy \<ge> 70 then 1900 + yy else 2000 + yy)
      in dec_pad 4 (nat year) @ ''-'' @ dec_pad 2 (nat month) @ ''-'' @ dec_pad 2 (nat day) @ ''T'' @
         dec_pad 2 (nat hour) @ '':'' @ dec_pad 2 (nat minute) @ '':'' @ dec_pad 2 (nat second) @
         (if negative then ''-'' else ''+'') @ dec_pad 2 (nat tz_hours) @ '':'' @ dec_pad 2 (nat tz_mins))"

definition timestamp_decode :: "u8 list \<Rightarrow> nat \<Rightarrow> nat \<Rightarrow> (unit, string) outcome" where
  "timestamp_decode data data_len out_capacity =
     (if data_len < 7 \<or> out_capacity < 24 then Err ()
      else
        and_then (aread data 0) (\<lambda>d0. and_then (aread data 1) (\<lambda>d1. and_then (aread data 2) (\<lambda>d2.
        and_then (aread data 3) (\<lambda>d3. and_then (aread data 4) (\<lambda>d4. and_then (aread data 5) (\<lambda>d5.
        and_then (aread data 6) (\<lambda>d6.
          let yy = semi_octet_value d0; month = semi_octet_value d1; day = semi_octet_value d2;
              hour = semi_octet_value d3; minute = semi_octet_value d4; second = semi_octet_value d5;
              negative = (d6 AND 0x08 \<noteq> 0);
              quarters = uint (d6 AND 0x07) * 10 + uint (drop_bit 4 d6 AND 0x0F)
          in if yy < 0 \<or> month < 1 \<or> month > 12 \<or> day < 1 \<or> day > 31 \<or>
                hour < 0 \<or> hour > 23 \<or> minute < 0 \<or> minute > 59 \<or> second < 0 \<or> second > 59 \<or>
                quarters < 0 \<or> quarters > 79
             then Err ()
             else let written = timestamp_text yy month day hour minute second negative quarters
                  in if 0 < length written \<and> length written < out_capacity then Ret written else Err ()))))))))"

section \<open>User data\<close>

definition ud_unit :: "u8 \<Rightarrow> u8 \<Rightarrow> u32" where
  "ud_unit high low = push_bit 8 (ucast high) OR ucast low"

function ucs2_text_loop :: "u8 list \<Rightarrow> nat \<Rightarrow> nat \<Rightarrow> string \<Rightarrow> nat \<Rightarrow> (sms_pdu_decode_result, string) outcome" where
  "ucs2_text_loop ud udl text_capacity out pos =
     (if pos + 1 < udl then
        and_then (aread ud pos) (\<lambda>h.
        and_then (aread ud (pos + 1)) (\<lambda>l.
          let cp = ud_unit h l; pos = pos + 2 in
          if 0xD800 \<le> cp \<and> cp \<le> 0xDBFF then
            (if pos + 1 \<ge> udl then Err SMS_PDU_DECODE_INVALID
             else
               and_then (aread ud pos) (\<lambda>h.
               and_then (aread ud (pos + 1)) (\<lambda>l.
                 let low = ud_unit h l in
                 if low < 0xDC00 \<or> low > 0xDFFF then Err SMS_PDU_DECODE_INVALID
                 else let pos = pos + 2;
                          cp = 0x10000 + push_bit 10 (cp - 0xD800) + (low - 0xDC00)
                      in case sms_utf8_append cp out text_capacity of
                           None \<Rightarrow> Err SMS_PDU_DECODE_TEXT_TOO_LONG
                         | Some out \<Rightarrow> ucs2_text_loop ud udl text_capacity out pos)))
          else if 0xDC00 \<le> cp \<and> cp \<le> 0xDFFF then Err SMS_PDU_DECODE_INVALID
          else case sms_utf8_append cp out text_capacity of
                 None \<Rightarrow> Err SMS_PDU_DECODE_TEXT_TOO_LONG
               | Some out \<Rightarrow> ucs2_text_loop ud udl text_capacity out pos))
      else Ret out)"
  by pat_completeness auto
termination
  by (relation "measure (\<lambda>(ud, udl, cap, out, pos). udl - pos)") auto

text \<open>
  The checks on a user-data header both encodings share: its length in octets, including the
  length octet itself, and the concatenation data.
\<close>

definition user_data_header :: "u8 list \<Rightarrow> nat \<Rightarrow> (sms_pdu_decode_result, nat \<times> sms_concat_info) outcome" where
  "user_data_header ud limit =
     (if limit = 0 then Err SMS_PDU_DECODE_INVALID
      else and_then (aread ud 0) (\<lambda>udhl.
        let header_bytes = unat udhl + 1 in
        if header_bytes > limit then Err SMS_PDU_DECODE_INVALID
        else and_then (on_err (parse_concat_udh ud header_bytes) SMS_PDU_DECODE_INVALID) (\<lambda>cc.
          and_then (on_err (udh_has_national_language_shift ud header_bytes) SMS_PDU_DECODE_INVALID) (\<lambda>nls.
            if nls then Err SMS_PDU_DECODE_UNSUPPORTED else Ret (header_bytes, cc)))))"

definition decode_user_data ::
  "u8 \<Rightarrow> u8 \<Rightarrow> u8 \<Rightarrow> u8 list \<Rightarrow> nat \<Rightarrow> nat \<Rightarrow>
   (sms_pdu_decode_result, sms_encoding \<times> sms_concat_info \<times> string) outcome"
where
  "decode_user_data first_octet dcs udl ud ud_available text_capacity =
     (if text_capacity = 0 then Err SMS_PDU_DECODE_INVALID
      else let encoding = dcs_encoding dcs; has_udh = (first_octet AND 0x40 \<noteq> 0) in
      case encoding of
        SMS_ENCODING_GSM7 \<Rightarrow>
          (let packed_bytes = (unat udl * 7 + 7) div 8 in
           if packed_bytes > ud_available \<or> udl > 160 then Err SMS_PDU_DECODE_TRUNCATED
           else
             and_then
               (if has_udh then
                  and_then (user_data_header ud packed_bytes) (\<lambda>(header_bytes, cc).
                    let hseptets = header_septets header_bytes in
                    if hseptets > unat udl then Err SMS_PDU_DECODE_INVALID
                    else Ret (hseptets, hseptets * 7, cc))
                else Ret (0, 0, no_concat)) (\<lambda>(hseptets, start_bit, cc).
             let text_septets = unat udl - hseptets in
             and_then (array_room text_septets 160) (\<lambda>_.
             and_then (on_err (unpack_septets ud packed_bytes start_bit text_septets) SMS_PDU_DECODE_TRUNCATED) (\<lambda>septets.
             and_then (of_option SMS_PDU_DECODE_TEXT_TOO_LONG (sms_gsm7_decode septets text_capacity)) (\<lambda>out.
               Ret (encoding, cc, cstr_view out))))))
      | SMS_ENCODING_UCS2 \<Rightarrow>
          (if unat udl > ud_available \<or> udl > 140 then Err SMS_PDU_DECODE_TRUNCATED
           else
             and_then
               (if has_udh then user_data_header ud (unat udl) else Ret (0, no_concat)) (\<lambda>(pos, cc).
             if (unat udl - pos) mod 2 \<noteq> 0 then Err SMS_PDU_DECODE_INVALID
             else and_then (ucs2_text_loop ud (unat udl) text_capacity [] pos) (\<lambda>out.
               Ret (encoding, cc, cstr_view out))))
      | SMS_ENCODING_8BIT \<Rightarrow> Err SMS_PDU_DECODE_UNSUPPORTED
      | SMS_ENCODING_UNKNOWN \<Rightarrow> Err SMS_PDU_DECODE_UNSUPPORTED)"

section \<open>Decoders\<close>

definition sms_pdu_type_detect :: "string \<Rightarrow> (unit, sms_pdu_type) outcome" where
  "sms_pdu_type_detect hex =
     (case hex_decode hex SMS_MAX_PDU_OCTETS of
        Fault \<Rightarrow> Fault
      | Err _ \<Rightarrow> Ret SMS_PDU_TYPE_UNKNOWN
      | Ret pdu \<Rightarrow>
          if length pdu < 2 then Ret SMS_PDU_TYPE_UNKNOWN
          else and_then (aread pdu 0) (\<lambda>smsc_len.
            if 1 + unat smsc_len \<ge> length pdu then Ret SMS_PDU_TYPE_UNKNOWN
            else and_then (aread pdu (1 + unat smsc_len)) (\<lambda>first.
              Ret (if first AND 0x03 = 0x00 then SMS_PDU_TYPE_DELIVER
                   else if first AND 0x03 = 0x02 then SMS_PDU_TYPE_STATUS_REPORT
                   else SMS_PDU_TYPE_UNKNOWN))))"

text \<open>The common start of both decoders: the octets, the first TPDU octet and the position behind it.\<close>

definition tpdu_start :: "string \<Rightarrow> (sms_pdu_decode_result, u8 list \<times> u8 \<times> nat) outcome" where
  "tpdu_start hex =
     and_then (hex_decode hex SMS_MAX_PDU_OCTETS) (\<lambda>pdu.
       if length pdu < 2 then Err SMS_PDU_DECODE_TRUNCATED
       else and_then (aread pdu 0) (\<lambda>smsc_len.
         let pos = 1 in
         if pos + unat smsc_len \<ge> length pdu then Err SMS_PDU_DECODE_TRUNCATED
         else let pos = pos + unat smsc_len
              in and_then (aread pdu pos) (\<lambda>first. Ret (pdu, first, pos + 1))))"

definition sms_deliver_decode :: "string \<Rightarrow> (sms_pdu_decode_result, sms_deliver) outcome" where
  "sms_deliver_decode hex =
     and_then (tpdu_start hex) (\<lambda>(pdu, first, pos).
       if first AND 0x03 \<noteq> 0x00 \<or> pos + 2 > length pdu then Err SMS_PDU_DECODE_UNSUPPORTED
       else
         and_then (aread pdu pos) (\<lambda>oa_digits.
         and_then (aread pdu (pos + 1)) (\<lambda>oa_toa.
           let pos = pos + 2; oa_bytes = (unat oa_digits + 1) div 2 in
           if pos + oa_bytes + 10 > length pdu then Err SMS_PDU_DECODE_INVALID
           else
             and_then (on_err (address_decode (drop pos pdu) (length pdu - pos) (unat oa_digits) oa_toa
                        SMS_MAX_ADDRESS_LENGTH) SMS_PDU_DECODE_INVALID) (\<lambda>sender.
             let pos = pos + oa_bytes + 1 in
             and_then (aread pdu pos) (\<lambda>dcs.
             let pos = pos + 1 in
             and_then (on_err (timestamp_decode (drop pos pdu) (length pdu - pos) 40) SMS_PDU_DECODE_INVALID) (\<lambda>ts.
             let pos = pos + 7 in
             if pos \<ge> length pdu then Err SMS_PDU_DECODE_TRUNCATED
             else
               and_then (aread pdu pos) (\<lambda>udl.
               let pos = pos + 1 in
               and_then (decode_user_data first dcs udl (drop pos pdu) (length pdu - pos) SMS_MAX_TEXT_UTF8)
                 (\<lambda>(encoding, cc, body).
               Ret \<lparr>dl_sender = sender, dl_encoding = encoding, dl_concat = cc,
                    dl_service_center_timestamp = ts, dl_text = body\<rparr>)))))))) "

definition sms_status_report_decode :: "string \<Rightarrow> (sms_pdu_decode_result, sms_status_report) outcome" where
  "sms_status_report_decode hex =
     and_then (tpdu_start hex) (\<lambda>(pdu, first, pos).
       if first AND 0x03 \<noteq> 0x02 \<or> pos + 3 > length pdu then Err SMS_PDU_DECODE_UNSUPPORTED
       else
         and_then (aread pdu pos) (\<lambda>reference.
         and_then (aread pdu (pos + 1)) (\<lambda>ra_digits.
         and_then (aread pdu (pos + 2)) (\<lambda>ra_toa.
           let pos = pos + 3; ra_bytes = (unat ra_digits + 1) div 2 in
           if pos + ra_bytes + 15 > length pdu then Err SMS_PDU_DECODE_INVALID
           else
             and_then (on_err (address_decode (drop pos pdu) (length pdu - pos) (unat ra_digits) ra_toa
                        SMS_MAX_ADDRESS_LENGTH) SMS_PDU_DECODE_INVALID) (\<lambda>recipient.
             let pos = pos + ra_bytes in
             and_then (on_err (timestamp_decode (drop pos pdu) (length pdu - pos) 40) SMS_PDU_DECODE_INVALID) (\<lambda>scts.
             let pos = pos + 7 in
             and_then (on_err (timestamp_decode (drop pos pdu) (length pdu - pos) 40) SMS_PDU_DECODE_INVALID) (\<lambda>dt.
             let pos = pos + 7 in
             if pos \<ge> length pdu then Err SMS_PDU_DECODE_TRUNCATED
             else and_then (aread pdu pos) (\<lambda>status.
               Ret \<lparr>sr_message_reference = reference, sr_recipient = recipient,
                    sr_service_center_timestamp = scts, sr_discharge_timestamp = dt,
                    sr_status = status, sr_delivered = status < 0x20\<rparr>))))))))"

definition sms_encoding_name :: "sms_encoding \<Rightarrow> string" where
  "sms_encoding_name encoding =
     (case encoding of
        SMS_ENCODING_GSM7 \<Rightarrow> ''gsm7''
      | SMS_ENCODING_UCS2 \<Rightarrow> ''ucs2''
      | SMS_ENCODING_8BIT \<Rightarrow> ''8bit''
      | SMS_ENCODING_UNKNOWN \<Rightarrow> ''unknown'')"

declare udh_loop.simps [simp del] nls_loop.simps [simp del] ucs2_text_loop.simps [simp del]

section \<open>No read or write out of bounds\<close>

lemma array_room_iff [outcome_simps]:
  "array_room n c = Fault \<longleftrightarrow> c < n" "array_room n c = Ret u \<longleftrightarrow> n \<le> c" "array_room n c \<noteq> Err e"
  by (auto simp: array_room_def)

lemma of_option_no_Fault [simp]: "of_option e r \<noteq> Fault"
  by (cases r) (auto simp: of_option_def)

lemma of_option_Ret [simp]: "of_option e r = Ret a \<longleftrightarrow> r = Some a"
  by (cases r) (auto simp: of_option_def)

lemma address_semi_loop_no_Fault:
  "(i + n + 1) div 2 \<le> length data \<Longrightarrow> address_semi_loop data cap i n out \<noteq> Fault"
proof (induction n arbitrary: i out)
  case (Suc n)
  then have "i div 2 < length data" by simp
  then show ?case using Suc.prems
    by (auto simp: aread_def Let_def Suc.IH split: option.splits)
qed simp

lemma address_semi_loop_length:
  "address_semi_loop data cap i n out = Ret r \<Longrightarrow> length out < cap \<Longrightarrow> length r < cap"
proof (induction n arbitrary: i out)
  case (Suc n)
  then show ?case by (auto simp: Let_def and_then_Ret_iff split: option.splits if_splits)
qed simp

lemma unpack_septets_no_Fault:
  "packed_len \<le> length packed \<Longrightarrow> unpack_septets packed packed_len start n \<noteq> Fault"
  by (simp add: unpack_septets_def unpack_loop_spec)

lemma address_decode_no_Fault:
  "data_len \<le> length data \<Longrightarrow> address_decode data data_len n toa cap \<noteq> Fault"
  unfolding address_decode_def Let_def
  by (auto simp: outcome_simps unpack_septets_no_Fault address_semi_loop_no_Fault)

lemma udh_loop_no_Fault: "stop \<le> length udh \<Longrightarrow> udh_loop udh stop pos cc \<noteq> Fault"
proof (induction udh stop pos cc rule: udh_loop.induct)
  case (1 udh stop pos cc)
  show ?case
  proof (cases "pos + 2 \<le> stop")
    case True
    have "udh_loop udh stop (pos + 2 + unat len) c \<noteq> Fault" if "\<not> pos + 2 + unat len > stop" for len :: u8 and c
      using "1.IH" [OF True refl that "1.prems"] .
    then show ?thesis
      using True "1.prems" by (subst udh_loop.simps) (auto simp: Let_def outcome_simps split: if_splits)
  next
    case False
    then show ?thesis by (simp add: udh_loop.simps [of udh])
  qed
qed

lemma nls_loop_no_Fault: "stop \<le> length udh \<Longrightarrow> nls_loop udh stop pos \<noteq> Fault"
proof (induction udh stop pos rule: nls_loop.induct)
  case (1 udh stop pos)
  then show ?case by (subst nls_loop.simps) (auto simp: outcome_simps split: if_splits)
qed

lemma user_data_header_no_Fault: "limit \<le> length ud \<Longrightarrow> user_data_header ud limit \<noteq> Fault"
  by (auto simp: user_data_header_def parse_concat_udh_def udh_has_national_language_shift_def Let_def
      outcome_simps udh_loop_no_Fault nls_loop_no_Fault split: if_splits)

lemma user_data_header_bound: "user_data_header ud limit = Ret (h, cc) \<Longrightarrow> 0 < h \<and> h \<le> limit"
  by (auto simp: user_data_header_def Let_def outcome_simps split: if_splits)

lemma timestamp_decode_no_Fault: "data_len \<le> length data \<Longrightarrow> timestamp_decode data data_len cap \<noteq> Fault"
  by (auto simp: timestamp_decode_def Let_def outcome_simps split: if_splits)

lemma ucs2_text_loop_no_Fault: "udl \<le> length ud \<Longrightarrow> ucs2_text_loop ud udl cap out pos \<noteq> Fault"
proof (induction ud udl cap out pos rule: ucs2_text_loop.induct)
  case (1 ud udl cap out pos)
  then show ?case
    by (subst ucs2_text_loop.simps) (auto simp: Let_def aread_def split: option.splits)
qed

lemma decode_user_data_no_Fault:
  assumes "avail \<le> length ud"
  shows "decode_user_data first dcs udl ud avail cap \<noteq> Fault"
proof -
  have "unat udl \<le> 160" if "udl \<le> 160" using that by (simp add: word_le_nat_alt)
  then show ?thesis
    using assms unfolding decode_user_data_def Let_def
    by (auto split: sms_encoding.splits prod.splits if_splits
        simp: not_less outcome_simps user_data_header_no_Fault unpack_septets_no_Fault ucs2_text_loop_no_Fault)
qed

lemma tpdu_start_no_Fault: "tpdu_start s \<noteq> Fault"
  by (auto simp: tpdu_start_def Let_def outcome_simps split: if_splits)

lemma tpdu_start_Ret: "tpdu_start s = Ret (pdu, first, pos) \<Longrightarrow> 0 < pos \<and> pos \<le> length pdu \<and> length pdu \<le> SMS_MAX_PDU_OCTETS"
  by (auto simp: tpdu_start_def Let_def outcome_simps dest: hex_decode_length split: if_splits)

lemma deliver_decode_no_Fault: "sms_deliver_decode s \<noteq> Fault"
  unfolding sms_deliver_decode_def Let_def
  by (auto simp: outcome_simps tpdu_start_no_Fault address_decode_no_Fault timestamp_decode_no_Fault decode_user_data_no_Fault
      dest: tpdu_start_Ret split: prod.splits if_splits)

lemma status_report_decode_no_Fault: "sms_status_report_decode s \<noteq> Fault"
  unfolding sms_status_report_decode_def Let_def
  by (auto simp: outcome_simps tpdu_start_no_Fault address_decode_no_Fault timestamp_decode_no_Fault
      dest: tpdu_start_Ret split: prod.splits if_splits)

lemma pdu_type_detect_no_Fault: "sms_pdu_type_detect s \<noteq> Fault"
  by (auto simp: sms_pdu_type_detect_def outcome_simps split: outcome.splits if_splits)

end
