(* ===== verification/Pdu_Text.thy ===== *)
theory Pdu_Text
  imports Pdu_Decode
begin

text \<open>
  What the decoders of \<open>sms_pdu.c\<close> return: they never access memory out of bounds, every string
  they store fits its field with the terminator, texts are valid UTF-8, and concatenation data is
  consistent.
\<close>

section \<open>Decoded texts are valid UTF-8\<close>

lemma utf8_append_Some:
  "sms_utf8_append cp out cap = Some r \<Longrightarrow> r = out @ text_of_codepoints [cp] \<and> length r < cap"
  by (auto simp: sms_utf8_append_def split: option.splits if_splits)

lemma gsm7_basic_scalar:
  assumes "i < 128"
  shows "scalar_value (s_gsm7_basic ! i) \<and> s_gsm7_basic ! i \<noteq> 0"
proof -
  have "list_all (\<lambda>cp. scalar_value cp \<and> cp \<noteq> 0) s_gsm7_basic" by code_simp
  moreover have "length s_gsm7_basic = 128" by code_simp
  ultimately show ?thesis using assms by (simp add: list_all_length)
qed

lemma gsm7_extension_scalar:
  "gsm7_extension_decode e = Some cp \<Longrightarrow> scalar_value cp \<and> cp \<noteq> 0"
proof -
  have "list_all (\<lambda>e. scalar_value (codepoint e) \<and> codepoint e \<noteq> 0) s_gsm7_extension" by code_simp
  then show "gsm7_extension_decode e = Some cp \<Longrightarrow> scalar_value cp \<and> cp \<noteq> 0"
    by (auto simp: gsm7_extension_decode_def find_Some_iff list_all_length)
qed

lemma and_7F_less: "unat ((s :: u8) AND 0x7F) < 128"
  using unat_less_bits [of 7 "s AND 0x7F"] by (simp add: bit_simps All_less_numeral)

lemma gsm7_decode_loop_text:
  "gsm7_decode_loop cap out ss = Some r \<Longrightarrow> length out < cap \<Longrightarrow>
   length r < cap \<and> (\<exists>cps. r = out @ text_of_codepoints cps \<and> (\<forall>cp \<in> set cps. scalar_value cp \<and> cp \<noteq> 0))"
proof (induction cap out ss rule: gsm7_decode_loop.induct)
  case (1 cap out)
  then show ?case by (auto intro: exI [of _ "[]"])
next
  case (2 cap out s ss)
  have step: ?case if a: "sms_utf8_append cp out cap = Some out'" and v: "scalar_value cp \<and> cp \<noteq> 0"
    and ih: "length r < cap \<and> (\<exists>cps. r = out' @ text_of_codepoints cps \<and> (\<forall>cp \<in> set cps. scalar_value cp \<and> cp \<noteq> 0))"
    for cp out'
  proof -
    from ih obtain cps where "r = out' @ text_of_codepoints cps" "\<forall>cp \<in> set cps. scalar_value cp \<and> cp \<noteq> 0" by blast
    then show ?thesis
      using ih v utf8_append_Some [OF a] by (intro conjI exI [of _ "cp # cps"]) auto
  qed
  show ?case
  proof (cases "s = 0x1B")
    case True
    with "2.prems"(1) obtain e ss' cp out' where e: "ss = e # ss'" "gsm7_extension_decode e = Some cp"
      "sms_utf8_append cp out cap = Some out'" "gsm7_decode_loop cap out' ss' = Some r"
      by (auto split: list.splits option.splits)
    show ?thesis
      by (rule step [OF e(3) gsm7_extension_scalar [OF e(2)]])
         (rule "2.IH"(1) [OF True e(1,2,3,4) conjunct2 [OF utf8_append_Some [OF e(3)]]])
  next
    case False
    with "2.prems"(1) obtain out' where e: "sms_utf8_append (s_gsm7_basic ! unat (s AND 0x7F)) out cap = Some out'"
      "gsm7_decode_loop cap out' ss = Some r"
      by (auto split: option.splits)
    show ?thesis
      by (rule step [OF e(1) gsm7_basic_scalar [OF and_7F_less]])
         (rule "2.IH"(2) [OF False e conjunct2 [OF utf8_append_Some [OF e(1)]]])
  qed
qed

lemma push_ten: "unat (x :: u32) \<le> 0x3FF \<Longrightarrow> unat (push_bit 10 x) = 1024 * unat x"
  by (simp add: push_bit_eq_mult unat_word_ariths)

text \<open>The code point of a surrogate pair.\<close>

lemma surrogate_pair_value:
  fixes h l :: u32
  assumes "0xD800 \<le> h" "h \<le> 0xDBFF" "0xDC00 \<le> l" "l \<le> 0xDFFF"
  shows "unat (0x10000 + push_bit 10 (h - 0xD800) + (l - 0xDC00)) =
    0x10000 + 1024 * (unat h - 0xD800) + (unat l - 0xDC00)"
proof -
  have u: "unat (h - 0xD800) = unat h - 0xD800" "unat (l - 0xDC00) = unat l - 0xDC00"
    using assms(1,3) by (simp_all add: unat_sub word_le_nat_alt)
  have b: "unat h - 0xD800 \<le> 0x3FF" "unat l - 0xDC00 \<le> 0x3FF"
    using assms(2,4) by (simp_all add: word_le_nat_alt)
  have p: "unat (push_bit 10 (h - 0xD800)) = 1024 * (unat h - 0xD800)"
    using u(1) b(1) push_ten [of "h - 0xD800"] by simp
  have "unat (0x10000 + push_bit 10 (h - 0xD800)) = 0x10000 + 1024 * (unat h - 0xD800)"
    using p b(1) by (subst unat_add_lem [THEN iffD1]) simp_all
  then show ?thesis
    using u(2) b by (subst unat_add_lem [THEN iffD1]) simp_all
qed

lemma surrogate_pair_scalar:
  fixes h l :: u32
  assumes "0xD800 \<le> h" "h \<le> 0xDBFF" "0xDC00 \<le> l" "l \<le> 0xDFFF"
  shows "scalar_value (0x10000 + push_bit 10 (h - 0xD800) + (l - 0xDC00))"
    and "\<not> 0x10000 + push_bit 10 (h - 0xD800) + (l - 0xDC00) \<le> 0xFFFF"
proof -
  have "unat h - 0xD800 \<le> 0x3FF" "unat l - 0xDC00 \<le> 0x3FF"
    using assms(2,4) by (simp_all add: word_le_nat_alt)
  then show "scalar_value (0x10000 + push_bit 10 (h - 0xD800) + (l - 0xDC00))"
    "\<not> 0x10000 + push_bit 10 (h - 0xD800) + (l - 0xDC00) \<le> 0xFFFF"
    unfolding scalar_value_def word_le_nat_alt surrogate_pair_value [OF assms] by simp_all
qed

lemma unit_bound: "ud_unit h l \<le> 0xFFFF"
proof -
  have "unat (ud_unit h l) < 2 ^ 16" unfolding ud_unit_def
    by (rule unat_less_bits) (simp add: bit_simps All_less_numeral bit_u8_ge)
  then show ?thesis by (simp add: word_le_nat_alt)
qed

lemma ucs2_text_loop_text:
  "ucs2_text_loop ud udl cap out pos = Ret r \<Longrightarrow> length out < cap \<Longrightarrow>
   length r < cap \<and> (\<exists>cps. r = out @ text_of_codepoints cps \<and> (\<forall>cp \<in> set cps. scalar_value cp))"
proof (induction ud udl cap out pos rule: ucs2_text_loop.induct)
  case (1 ud udl cap out pos)
  have step: ?case if a: "sms_utf8_append cp out cap = Some out'" and v: "scalar_value cp"
    and ih: "length r < cap \<and> (\<exists>cps. r = out' @ text_of_codepoints cps \<and> (\<forall>cp \<in> set cps. scalar_value cp))"
    for cp out'
  proof -
    from ih obtain cps where "r = out' @ text_of_codepoints cps" "\<forall>cp \<in> set cps. scalar_value cp" by blast
    then show ?thesis
      using ih v utf8_append_Some [OF a] by (intro conjI exI [of _ "cp # cps"]) auto
  qed
  show ?case
  proof (cases "pos + 1 < udl")
    case False
    then show ?thesis using "1.prems" by (subst (asm) ucs2_text_loop.simps) (auto intro: exI [of _ "[]"])
  next
    case True
    note loop = "1.prems"(1) [unfolded ucs2_text_loop.simps [of ud udl cap out pos]]
    from loop True obtain h l where r: "aread ud pos = Ret h" "aread ud (pos + 1) = Ret l"
      by (auto simp: outcome_simps)
    define cp where "cp = ud_unit h l"
    show ?thesis
    proof (cases "0xD800 \<le> cp \<and> cp \<le> 0xDBFF")
      case sur: True
      with loop True r obtain h' l' out' where r': "\<not> pos + 2 + 1 \<ge> udl" "\<not> (ud_unit h' l' < 0xDC00 \<or> ud_unit h' l' > 0xDFFF)"
        "sms_utf8_append (0x10000 + push_bit 10 (cp - 0xD800) + (ud_unit h' l' - 0xDC00)) out cap = Some out'"
        "ucs2_text_loop ud udl cap out' (pos + 2 + 2) = Ret r"
        by (auto simp: Let_def outcome_simps cp_def split: option.splits if_splits)
      have v: "scalar_value (0x10000 + push_bit 10 (cp - 0xD800) + (ud_unit h' l' - 0xDC00))"
        using sur r'(2) by (intro surrogate_pair_scalar(1)) auto
      show ?thesis
        by (rule step [OF r'(3) v])
           (rule "1.IH"(1) [OF True cp_def refl sur r'(1) refl r'(2) refl refl r'(3,4) conjunct2 [OF utf8_append_Some [OF r'(3)]]])
    next
      case nsur: False
      with loop True r obtain out' where r': "\<not> (0xDC00 \<le> cp \<and> cp \<le> 0xDFFF)" "sms_utf8_append cp out cap = Some out'"
        "ucs2_text_loop ud udl cap out' (pos + 2) = Ret r"
        by (auto simp: Let_def outcome_simps cp_def split: option.splits if_splits)
      have v: "scalar_value cp"
        using nsur r'(1) unit_bound [of h l] by (intro scalar_valueI(2)) (auto simp: cp_def word_le_nat_alt)
      show ?thesis
        by (rule step [OF r'(2) v])
           (rule "1.IH"(2) [OF True cp_def refl nsur r'(1,2,3) conjunct2 [OF utf8_append_Some [OF r'(2)]]])
    qed
  qed
qed

lemma octets_nonzero: "utf8_octets cp = Some bs \<Longrightarrow> cp \<noteq> 0 \<Longrightarrow> 0 \<notin> set bs"
proof -
  have nz: "b \<noteq> 0" if "bit b 7" for b :: u8 using that by auto
  have one: "(ucast cp :: u8) \<noteq> 0" if "cp \<le> 0x7F" "cp \<noteq> 0"
  proof
    assume "(ucast cp :: u8) = 0"
    then have "unat (ucast cp :: u8) = 0" by simp
    then show False using that by (simp add: unsigned_ucast_eq take_bit_eq_mod word_le_nat_alt unat_eq_zero)
  qed
  have z: "\<not> bit (0 :: u8) 7" by simp
  assume "utf8_octets cp = Some bs" "cp \<noteq> 0"
  then show "0 \<notin> set bs" using one
    by (auto simp: utf8_octets_def split: if_splits dest!: arg_cong [where f = "\<lambda>w :: u8. bit w 7"] simp: bit_simps)
qed

lemma octets_cstring: "utf8_octets cp = Some bs \<Longrightarrow> cp \<noteq> 0 \<Longrightarrow> cstring (map char_of_byte bs)"
  using octets_nonzero by (auto simp: cstring_def eq_commute [of NUL])

lemma text_of_codepoints_cstring:
  "\<forall>cp \<in> set cps. scalar_value cp \<and> cp \<noteq> 0 \<Longrightarrow> cstring (text_of_codepoints cps)"
proof (induction cps)
  case (Cons cp cps)
  then obtain bs where b: "utf8_octets cp = Some bs" by (auto elim: scalar_octets)
  with octets_cstring [OF b] Cons show ?case by simp
qed simp

lemma utf8_codepoints_of_text:
  "\<forall>cp \<in> set cps. scalar_value cp \<and> cp \<noteq> 0 \<Longrightarrow> utf8_codepoints (text_of_codepoints cps) = Some cps"
proof (induction cps)
  case Nil
  then show ?case by (simp add: utf8_codepoints.simps [of "[]"])
next
  case (Cons cp cps)
  then obtain bs where b: "utf8_octets cp = Some bs" "bs \<noteq> []" by (auto elim: scalar_octets)
  then have "cchar (text_of_codepoints (cp # cps)) 0 \<noteq> NUL"
    using octets_nonzero [OF b(1)] Cons.prems by (cases bs) auto
  then show ?case
    using Cons utf8_next_octets [of cp bs "text_of_codepoints cps"] b
    by (subst utf8_codepoints.simps) simp
qed

lemma cstr_view_text:
  "\<forall>cp \<in> set cps. scalar_value cp \<Longrightarrow>
   cstr_view (text_of_codepoints cps) = text_of_codepoints (takeWhile (\<lambda>cp. cp \<noteq> 0) cps)"
proof (induction cps)
  case Nil
  then show ?case by (simp add: cstr_view_def)
next
  case (Cons cp cps)
  then obtain bs where b: "utf8_octets cp = Some bs" by (auto elim: scalar_octets)
  show ?case
  proof (cases "cp = 0")
    case True
    then have "bs = [0]" using b by (simp add: utf8_octets_def)
    then show ?thesis using True b by (simp add: cstr_view_def)
  next
    case False
    then have c: "\<And>c. c \<in> set (map char_of_byte bs) \<Longrightarrow> c \<noteq> NUL" using octets_nonzero [OF b] by auto
    have "cstr_view (map char_of_byte bs @ t) = map char_of_byte bs @ cstr_view t" for t
      unfolding cstr_view_def by (rule takeWhile_append2) (use c in blast)
    then show ?thesis using False Cons b by simp
  qed
qed

text \<open>Texts of valid code points.\<close>

definition valid_text :: "string \<Rightarrow> bool" where
  "valid_text s \<longleftrightarrow> (\<exists>cps. (\<forall>cp \<in> set cps. scalar_value cp \<and> cp \<noteq> 0) \<and> s = text_of_codepoints cps)"

lemma valid_text_utf8: "valid_text s \<longleftrightarrow> cstring s \<and> utf8_codepoints s \<noteq> None"
  unfolding valid_text_def
  using utf8_codepoints_of_text text_of_codepoints_cstring utf8_codepoints_text by (metis option.exhaust option.distinct(1))

lemma valid_text_view:
  assumes "\<forall>cp \<in> set cps. scalar_value cp"
  shows "valid_text (cstr_view (text_of_codepoints cps))"
  unfolding valid_text_def cstr_view_text [OF assms]
  by (intro exI [of _ "takeWhile (\<lambda>cp. cp \<noteq> 0) cps"]) (use assms in \<open>auto dest: set_takeWhileD\<close>)

section \<open>Fields of a decoded PDU\<close>

lemma dec_length: "n < 10 ^ Suc w \<Longrightarrow> length (dec n) \<le> Suc w"
proof (induction w arbitrary: n)
  case 0
  then show ?case by (simp add: dec.simps [of n])
next
  case (Suc w)
  show ?case
  proof (cases "n < 10")
    case True
    then show ?thesis by (simp add: dec.simps [of n])
  next
    case False
    have "n div 10 < 10 ^ Suc w" using Suc.prems by (simp add: less_mult_imp_div_less)
    from Suc.IH [OF this] False show ?thesis by (simp add: dec.simps [of n])
  qed
qed

lemma dec_pad_length: "0 < w \<Longrightarrow> n < 10 ^ w \<Longrightarrow> length (dec_pad w n) = w"
  using dec_length [of n "w - 1"] by (cases w) (simp_all add: dec_pad_def)

lemma dec_pad_lengths:
  "n < 100 \<Longrightarrow> length (dec_pad 2 n) = 2" "n < 10000 \<Longrightarrow> length (dec_pad 4 n) = 4"
  by (rule dec_pad_length; simp)+

lemma semi_octet_less: "semi_octet_value b < 100"
  by (simp add: semi_octet_value_def Let_def)

lemma timestamp_decode_length:
  "timestamp_decode data len cap = Ret ts \<Longrightarrow> length ts = 25 \<and> length ts < cap"
proof -
  have "length (timestamp_text yy mo d h mi s neg q) = 25"
    if "0 \<le> yy" "yy < 100" "1 \<le> mo" "mo \<le> 12" "1 \<le> d" "d \<le> 31" "0 \<le> h" "h \<le> 23" "0 \<le> mi" "mi \<le> 59" "0 \<le> s" "s \<le> 59" "0 \<le> q" "q \<le> 79"
    for yy mo d h mi s neg q
  proof -
    have "nat (q * 15 div 60) < 100" "nat (q * 15 mod 60) < 100" using that(13,14) by (simp_all add: nat_less_iff)
    moreover have "nat (if yy \<ge> 70 then 1900 + yy else 2000 + yy) < 10000" using that(1,2) by (simp add: nat_less_iff)
    ultimately show ?thesis using that
      by (simp add: timestamp_text_def Let_def dec_pad_lengths)
  qed
  then show "timestamp_decode data len cap = Ret ts \<Longrightarrow> length ts = 25 \<and> length ts < cap"
    by (auto simp: timestamp_decode_def Let_def outcome_simps not_less not_le semi_octet_less split: if_splits)
qed

lemma gsm7_decode_text:
  "sms_gsm7_decode ss cap = Some r \<Longrightarrow> length r < cap \<and> valid_text r"
  using gsm7_decode_loop_text [of cap "[]" ss r]
  by (auto simp: sms_gsm7_decode_def valid_text_def split: if_splits)

lemma address_decode_length: "address_decode data len n toa cap = Ret r \<Longrightarrow> length r < cap"
  unfolding address_decode_def Let_def
  by (auto simp: outcome_simps split: if_splits dest: gsm7_decode_text address_semi_loop_length)

definition concat_ok :: "sms_concat_info \<Rightarrow> bool" where
  "concat_ok cc \<longleftrightarrow> (cc_present cc \<longrightarrow> 0 < cc_part_number cc \<and> cc_part_number cc \<le> cc_total_parts cc)"

lemma user_data_header_concat: "user_data_header ud limit = Ret (h, cc) \<Longrightarrow> concat_ok cc"
  by (auto simp: user_data_header_def parse_concat_udh_def Let_def outcome_simps concat_ok_def word_gt_0 no_concat_def split: if_splits)

lemma cstr_view_length: "length (cstr_view s) \<le> length s"
  by (simp add: cstr_view_def length_takeWhile_le)

lemma decode_user_data_Ret:
  assumes "decode_user_data first dcs udl ud avail cap = Ret (e, cc, t)"
  shows "e = dcs_encoding dcs \<and> (e = SMS_ENCODING_GSM7 \<or> e = SMS_ENCODING_UCS2) \<and> concat_ok cc \<and> length t < cap \<and> valid_text t"
proof -
  have n: "concat_ok no_concat" by (simp add: concat_ok_def no_concat_def)
  consider "dcs_encoding dcs = SMS_ENCODING_GSM7" | "dcs_encoding dcs = SMS_ENCODING_UCS2"
    using assms by (cases "dcs_encoding dcs") (auto simp: decode_user_data_def Let_def split: if_splits)
  then show ?thesis
  proof cases
    case 1
    with assms obtain ss r where "sms_gsm7_decode ss cap = Some r" "t = cstr_view r" "concat_ok cc" "e = SMS_ENCODING_GSM7"
      by (auto simp: decode_user_data_def Let_def outcome_simps n split: if_splits prod.splits dest: user_data_header_concat)
    with gsm7_decode_text [of ss cap r] 1 show ?thesis by (simp add: valid_text_utf8)
  next
    case 2
    with assms obtain p r where r: "ucs2_text_loop ud (unat udl) cap [] p = Ret r" "t = cstr_view r" "concat_ok cc" "e = SMS_ENCODING_UCS2" "0 < cap"
      by (auto simp: decode_user_data_def Let_def outcome_simps n split: if_splits prod.splits dest: user_data_header_concat)
    from ucs2_text_loop_text [OF r(1)] r(5) obtain cps where "length r < cap" "r = text_of_codepoints cps" "\<forall>cp \<in> set cps. scalar_value cp"
      by auto
    with valid_text_view [of cps] cstr_view_length [of r] r 2 show ?thesis by simp
  qed
qed

section \<open>Properties\<close>


text \<open>C18: a decoded SMS-DELIVER is well formed. The sender and the text fit their fields with a
  terminator, the timestamp has the 25 characters of an ISO 8601 time with offset, the text is
  valid UTF-8 without embedded terminators, only the two text encodings are accepted, and
  concatenation data names a part between 1 and the number of parts.\<close>

theorem deliver_decode_wellformed:
  assumes "sms_deliver_decode hex = Ret d"
  shows "length (dl_sender d) < SMS_MAX_ADDRESS_LENGTH \<and>
    length (dl_service_center_timestamp d) = 25 \<and>
    length (dl_text d) < SMS_MAX_TEXT_UTF8 \<and> cstring (dl_text d) \<and> utf8_codepoints (dl_text d) \<noteq> None \<and>
    (dl_encoding d = SMS_ENCODING_GSM7 \<or> dl_encoding d = SMS_ENCODING_UCS2) \<and>
    (cc_present (dl_concat d) \<longrightarrow>
       0 < cc_part_number (dl_concat d) \<and> cc_part_number (dl_concat d) \<le> cc_total_parts (dl_concat d))"
  using assms unfolding sms_deliver_decode_def Let_def
  by (auto simp: outcome_simps valid_text_utf8 concat_ok_def split: if_splits prod.splits
      dest!: address_decode_length timestamp_decode_length decode_user_data_Ret)

theorem deliver_decode_wellformed_witness:
  "sms_deliver_decode ''00000491214300006270902143650002C834'' =
     Ret \<lparr>dl_sender = ''+1234'', dl_encoding = SMS_ENCODING_GSM7, dl_concat = no_concat,
          dl_service_center_timestamp = ''2026-07-09T12:34:56+00:00'', dl_text = ''Hi''\<rparr> \<and>
   utf8_codepoints ''Hi'' \<noteq> None"
proof -
  have d: "sms_deliver_decode ''00000491214300006270902143650002C834'' =
     Ret \<lparr>dl_sender = ''+1234'', dl_encoding = SMS_ENCODING_GSM7, dl_concat = no_concat,
          dl_service_center_timestamp = ''2026-07-09T12:34:56+00:00'', dl_text = ''Hi''\<rparr>" by code_simp
  show ?thesis using d deliver_decode_wellformed [OF d] by simp
qed

end
