(* ===== verification/Pdu_Roundtrip.thy ===== *)
theory Pdu_Roundtrip
  imports Pdu_Text Pdu_Submit
begin

text \<open>
  The encoder against the decoder: what \<open>sms_submit_encode\<close> puts into the segments of a message
  is what \<open>sms_deliver_decode\<close> reads from the PDUs the network forwards.
\<close>

section \<open>Addresses\<close>

lemma nibble_words:
  fixes x y :: u8
  assumes "unat x < 16" "unat y < 16"
  shows "(x OR push_bit 4 y) AND 0x0F = x" "drop_bit 4 (x OR push_bit 4 y) = y"
proof -
  have "\<not> bit x n \<and> \<not> bit y n" if "4 \<le> n" for n
    using that bit_word_less [of x 4 n] bit_word_less [of y 4 n] assms by simp
  then have "\<not> bit x 4" "\<not> bit x 5" "\<not> bit x 6" "\<not> bit x 7" "\<not> bit y 4" "\<not> bit y 5" "\<not> bit y 6" "\<not> bit y 7" by simp_all
  then show "(x OR push_bit 4 y) AND 0x0F = x" "drop_bit 4 (x OR push_bit 4 y) = y"
    by (intro word_eq_bitsI; simp add: bit_simps All_less_numeral bit_u8_ge)+
qed

lemma nibbles:
  assumes "a < 10" "b \<le> 15"
  shows "((word_of_nat a OR push_bit 4 (word_of_nat b)) :: u8) AND 0x0F = word_of_nat a"
    "drop_bit 4 ((word_of_nat a OR push_bit 4 (word_of_nat b)) :: u8) = word_of_nat b"
  by (rule nibble_words; use assms in \<open>simp add: unat_of_nat\<close>)+

lemma isdigitE:
  assumes "isdigit d"
  obtains k where "code d = 48 + k" "k < 10" "d = char_of (48 + k)"
proof -
  define k where "k = code d - 48"
  have "code d = 48 + k" "k < 10" using assms by (auto simp: isdigit_def k_def)
  moreover from this(1) have "d = char_of (48 + k)" by (metis char_of_char)
  ultimately show ?thesis by (rule that)
qed

lemma nibble_char_digit: "isdigit d \<Longrightarrow> nibble_char (word_of_nat (code d - 48)) = Some d"
  by (erule isdigitE) (simp add: nibble_char_def word_le_nat_alt unat_of_nat)

lemma digit_octets_nibble:
  assumes "\<forall>c \<in> set ds. isdigit c" and "i < length ds"
  shows "(if i mod 2 = 0 then digit_octets ds ! (i div 2) AND 0x0F else drop_bit 4 (digit_octets ds ! (i div 2)))
    = word_of_nat (code (ds ! i) - 48)"
  using assms
proof (induction ds arbitrary: i rule: digit_octets.induct)
  case (2 d)
  then obtain k where "code d = 48 + k" "k < 10" by (auto elim: isdigitE)
  with 2 show ?case using nibbles(1) [of k 15] by simp
next
  case (3 d e ds)
  obtain k l where k: "code d = 48 + k" "k < 10" and l: "code e = 48 + l" "l < 10"
    using "3.prems"(1) by (auto elim!: isdigitE)
  consider "i = 0" | "i = 1" | j where "i = j + 2" "j < length ds"
    using "3.prems"(2) by (cases i; cases "i - 1") auto
  then show ?case
  proof cases
    case 3
    then show ?thesis using "3.IH" [of j] "3.prems"(1) by (auto split: if_splits)
  qed (use nibbles [of k l] k l in simp_all)
qed simp

lemma address_semi_loop_digits:
  assumes "\<forall>c \<in> set ds. isdigit c" and "i + n = length ds" and "length out + n < cap"
  shows "address_semi_loop (digit_octets ds @ rest) cap i n out = Ret (out @ drop i ds)"
  using assms(2,3)
proof (induction n arbitrary: i out)
  case (Suc n)
  then have i: "i < length ds" "i div 2 < (length ds + 1) div 2" by auto
  have r: "(aread (digit_octets ds @ rest) (i div 2) :: (unit, u8) outcome) = Ret (digit_octets ds ! (i div 2))"
    using i(2) by (simp add: aread_def nth_append)
  have d: "nibble_char (word_of_nat (code (ds ! i) - 48)) = Some (ds ! i)"
    using assms(1) i(1) by (intro nibble_char_digit) simp
  show ?case
    using Suc.prems Suc.IH [of "Suc i" "out @ [ds ! i]"] i(1) r d digit_octets_nibble [OF assms(1) i(1)]
    by (simp add: Cons_nth_drop_Suc)
qed simp

lemma address_decode_encode:
  assumes "address_validate a = Some (ds, intl)" and "(length ds + 1) div 2 \<le> len"
  shows "address_decode (digit_octets ds @ rest) len (length ds) (if intl then 0x91 else 0x81) SMS_MAX_ADDRESS_LENGTH = Ret a"
proof -
  note v = address_validate_bounds [OF assms(1)]
  have t: "drop_bit 4 (0x91 :: u8) AND 7 = 1" "drop_bit 4 (0x81 :: u8) AND 7 = 0" by simp_all
  show ?thesis
    using v assms(2) t address_semi_loop_digits [of ds 0 "length ds" _ 24 rest]
    by (simp add: address_decode_def Let_def SMS_MAX_ADDRESS_LENGTH_def)
qed

section \<open>Headers\<close>

lemma concat_header_8bit:
  fixes r t p :: u8
  shows "udh_loop (0x05 # 0x00 # 0x03 # r # t # p # rest) 6 1 cc =
    Ret \<lparr>cc_present = True, cc_is_16bit = False, cc_reference = ucast r, cc_total_parts = t, cc_part_number = p\<rparr>"
    "nls_loop (0x05 # 0x00 # 0x03 # r # t # p # rest) 6 1 = Ret False"
  by (subst udh_loop.simps nls_loop.simps, simp add: aread_def udh_loop.simps [of _ 6 6] nls_loop.simps [of _ 6 6])+

lemma concat_header_16bit:
  fixes h r t p :: u8
  shows "udh_loop (0x06 # 0x08 # 0x04 # h # r # t # p # rest) 7 1 cc =
    Ret \<lparr>cc_present = True, cc_is_16bit = True, cc_reference = push_bit 8 (ucast h) OR ucast r, cc_total_parts = t, cc_part_number = p\<rparr>"
    "nls_loop (0x06 # 0x08 # 0x04 # h # r # t # p # rest) 7 1 = Ret False"
  by (subst udh_loop.simps nls_loop.simps, simp add: aread_def udh_loop.simps [of _ 7 7] nls_loop.simps [of _ 7 7])+

lemma reference_octets:
  fixes ref :: u16
  shows "ref \<le> 0xFF \<Longrightarrow> ucast (ucast ref :: u8) = ref"
    "push_bit 8 (ucast (ucast (drop_bit 8 ref) :: u8)) OR ucast (ucast ref :: u8) = ref"
proof -
  show "ucast (ucast ref :: u8) = ref" if "ref \<le> 0xFF"
  proof -
    have "unat ref < 2 ^ 8" using that by (simp add: word_le_nat_alt)
    then have "bit ref n \<Longrightarrow> n < 8" for n using bit_word_less [of ref 8 n] by (meson not_less)
    then show ?thesis by (intro word_eq_bitsI) (auto simp: bit_simps)
  qed
  show "push_bit 8 (ucast (ucast (drop_bit 8 ref) :: u8)) OR ucast (ucast ref :: u8) = ref"
    by (intro word_eq_bitsI) (simp add: bit_simps All_less_numeral)
qed

lemma part_header_decoded:
  assumes "1 < n" "n \<le> 16" "i < n" and "length (part_header n ref i) \<le> limit"
  shows "user_data_header (part_header n ref i @ rest) limit = Ret (length (part_header n ref i), part_concat n ref i)"
proof -
  define tot part :: u8 where "tot = word_of_nat n" and "part = word_of_nat (i + 1)"
  have u: "unat tot = n" "unat part = i + 1" using assms by (simp_all add: tot_def part_def unat_of_nat del: of_nat_Suc of_nat_add)
  have ok: "tot \<noteq> 0" "part \<noteq> 0" "part \<le> tot" using u assms by (auto simp: word_le_nat_alt)
  have h: "part_header n ref i = concat_header ref tot part" using assms(1) by (simp add: part_header_def tot_def part_def)
  have c: "part_concat n ref i = \<lparr>cc_present = True, cc_is_16bit = ref > 0xFF, cc_reference = ref, cc_total_parts = tot, cc_part_number = part\<rparr>"
    by (simp add: part_concat_def tot_def part_def)
  have r: "aread (x # xs) 0 = Ret x" for x :: u8 and xs by (simp add: aread_def)
  show ?thesis
    using ok assms(4) reference_octets(1) [of ref] reference_octets(2) [of ref] unfolding h c
    by (cases "ref \<le> 0xFF")
       (simp_all add: concat_header_def user_data_header_def parse_concat_udh_def udh_has_national_language_shift_def Let_def r
         concat_header_8bit [unfolded One_nat_def] concat_header_16bit [unfolded One_nat_def] not_le not_less)
qed

section \<open>User data\<close>

lemma gsm7_septets_7bit: "gsm7_septets cps = Some ss \<Longrightarrow> map (\<lambda>s. s AND 0x7F) ss = ss"
proof (induction cps arbitrary: ss)
  case (Cons cp cps)
  then obtain fs ss' where f: "gsm7_find cp = Some fs" "gsm7_septets cps = Some ss'" "ss = fs @ ss'"
    by (auto split: option.splits)
  have "map (\<lambda>s. s AND 0x7F) fs = fs"
    using f(1)
  proof (cases rule: gsm7_find_cases)
    case (basic i)
    have "(word_of_nat i :: u8) AND 0x7F = word_of_nat i"
      using and_7F_basic [OF basic(2)] by (intro unsigned_word_eqI [where 'a = nat]) (use basic(2) in \<open>simp add: unat_of_nat\<close>)
    then show ?thesis using basic(1) by simp
  next
    case (ext e)
    then show ?thesis by (auto simp: s_gsm7_extension_def)
  qed
  then show ?case using Cons.IH f(2,3) by simp
qed simp

lemma text_length_bound: "\<forall>cp \<in> set cps. scalar_value cp \<Longrightarrow> length (text_of_codepoints cps) \<le> 4 * length cps"
proof (induction cps)
  case (Cons cp cps)
  then obtain bs where "utf8_octets cp = Some bs" "length bs \<le> 4" by (auto elim: scalar_octets)
  with Cons show ?case by simp
qed simp

lemma gsm7_septets_length: "gsm7_septets cps = Some ss \<Longrightarrow> length cps \<le> length ss"
proof (induction cps arbitrary: ss)
  case (Cons cp cps)
  then show ?case by (fastforce split: option.splits dest: gsm7_find_length)
qed simp

lemma ucs2_length: "ucs2_of_codepoints cps = Some us \<Longrightarrow> length cps \<le> length us"
proof (induction cps arbitrary: us)
  case (Cons cp cps)
  then show ?case by (fastforce split: option.splits dest: ucs2_units_length)
qed simp

definition expected_concat :: "nat \<Rightarrow> u16 \<Rightarrow> nat \<Rightarrow> sms_concat_info" where
  "expected_concat n ref i = (if n = 1 then no_concat else part_concat n ref i)"

lemma decode_gsm7_part:
  assumes p: "part_data SMS_ENCODING_GSM7 cps (part_header n ref i) udl ud" and l: "length ud \<le> 140"
    and v: "\<forall>cp \<in> set cps. scalar_value cp \<and> cp \<noteq> 0" and n: "1 \<le> n" "n \<le> 16" "i < n"
    and f: "first AND 0x40 \<noteq> 0 \<longleftrightarrow> 1 < n"
  shows "decode_user_data first 0x00 udl ud (length ud) SMS_MAX_TEXT_UTF8 =
    Ret (SMS_ENCODING_GSM7, expected_concat n ref i, text_of_codepoints cps)"
proof -
  let ?h = "part_header n ref i"
  from p obtain ss where ss: "gsm7_septets cps = Some ss" and pk: "pack_septets ss ?h 140 = Some (ud, udl)"
    by (auto split: option.splits)
  note k = pack_septets_Some [OF pk]
  have bytes: "(unat udl * 7 + 7) div 8 = length ud" using k(1,2) by simp
  then have "unat udl * 7 + 7 < 8 * 141" using l by linarith
  then have u: "unat udl \<le> 160" by simp
  have ud: "ud = ?h @ drop (length ?h) ud" using k(5) by (metis append_take_drop_id)
  have un: "unpack_septets ud (length ud) (udh_septets (length ?h) * 7) (length ss) = Ret ss"
    using unpack_pack [OF pk, of "[]"] gsm7_septets_7bit [OF ss] by simp
  have "length (text_of_codepoints cps) < 2048"
    using text_length_bound [of cps] v gsm7_septets_length [OF ss] k(1) u by fastforce
  then have dec: "sms_gsm7_decode ss SMS_MAX_TEXT_UTF8 = Some (text_of_codepoints cps)"
    using gsm7_decode_septets [OF ss, of "[]" 2048] v by (simp add: sms_gsm7_decode_def SMS_MAX_TEXT_UTF8_def)
  have view: "cstr_view (text_of_codepoints cps) = text_of_codepoints cps"
    using text_of_codepoints_cstring [OF v] by simp
  have u': "udl \<le> 160" using u by (simp add: word_le_nat_alt)
  have len: "length ss = unat udl - udh_septets (length ?h)" "length ss \<le> 160" using k(1) u by simp_all
  have enc: "dcs_encoding 0 = SMS_ENCODING_GSM7" by code_simp
  show ?thesis
  proof (cases "n = 1")
    case True
    then have h: "?h = []" by (simp add: part_header_def)
    show ?thesis
      using True f u' dec view un len unfolding h
      by (simp add: decode_user_data_def enc Let_def bytes udh_septets_def array_room_def of_option_def
          expected_concat_def SMS_MAX_TEXT_UTF8_def)
  next
    case False
    then have m: "1 < n" using n by simp
    have lh: "length ?h \<le> length ud" using arg_cong [OF k(5), of length] by simp
    have hdr: "user_data_header ud (length ud) = Ret (length ?h, part_concat n ref i)"
      using part_header_decoded [OF m n(2,3) lh, of "drop (length ?h) ud"] ud by simp
    have hs: "header_septets (length ?h) = udh_septets (length ?h)" "udh_septets (length ?h) \<le> unat udl"
      using k(1) m by (simp_all add: udh_septets_def part_header_def)
    show ?thesis
      using False m f u' dec view un len hdr hs
      by (simp add: decode_user_data_def enc Let_def bytes array_room_def of_option_def
          expected_concat_def SMS_MAX_TEXT_UTF8_def)
  qed
qed

lemma ud_unit_octets: "ud_unit (ucast (drop_bit 8 u)) (ucast (u :: u16)) = ucast u"
  using bit_imp_le_length [of u] by (intro word_eq_bitsI) (fastforce simp: ud_unit_def bit_simps)

lemma ucs2_payload_simps [simp]:
  "ucs2_payload [] = []" "ucs2_payload (u # us) = ucast (drop_bit 8 u) # ucast u # ucs2_payload us"
  "ucs2_payload (us @ vs) = ucs2_payload us @ ucs2_payload vs"
  by (simp_all add: ucs2_payload_def)

lemma unat_ucast_u16: "unat (ucast (u :: u16) :: u32) = unat u"
  using unsigned_less [of u, where 'a = nat] by (simp add: unsigned_ucast_eq take_bit_eq_mod)

lemma ucs2_loop_codepoint:
  assumes v: "scalar_value cp" and a: "sms_utf8_append cp out cap = Some out'"
  shows "ucs2_text_loop (pre @ ucs2_payload (ucs2_units cp) @ rest) (length pre + 2 * length (ucs2_units cp) + k) cap out (length pre) =
    ucs2_text_loop (pre @ ucs2_payload (ucs2_units cp) @ rest) (length pre + 2 * length (ucs2_units cp) + k) cap out' (length pre + 2 * length (ucs2_units cp))"
proof (cases "cp \<le> 0xFFFF")
  case True
  have w: "(ucast (ucast cp :: u16) :: u32) = cp"
    using ucast_bmp [OF True] by (intro unsigned_word_eqI [where 'a = nat]) (simp add: unat_ucast_u16)
  have r: "ud_unit (ucast (drop_bit 8 (ucast cp :: u16))) (ucast (ucast cp :: u16)) = cp"
    using ud_unit_octets [of "ucast cp"] w by simp
  have ns: "\<not> (0xD800 \<le> cp \<and> cp \<le> 0xDFFF)" using v by (simp add: scalar_value_def)
  then have ns': "\<not> (0xD800 \<le> cp \<and> cp \<le> 0xDBFF)" "\<not> (0xDC00 \<le> cp \<and> cp \<le> 0xDFFF)"
    by (auto simp: word_le_nat_alt)
  show ?thesis using True a r
    by (subst ucs2_text_loop.simps) (simp add: ucs2_units_def aread_def nth_append Let_def ns')
next
  case False
  define w where "w = cp - 0x10000"
  define h l :: u16 where "h = ucast (0xD800 OR drop_bit 10 w)" and "l = ucast (0xDC00 OR (w AND 0x3FF))"
  have le: "cp \<le> 0x10FFFF" using v by (simp add: scalar_value_def)
  note s = surrogates [OF False le, folded w_def, folded h_def l_def]
  have b: "unat w div 1024 < 1024" using s(3) by simp
  have hl: "0xD800 \<le> (ucast h :: u32)" "(ucast h :: u32) \<le> 0xDBFF" "0xDC00 \<le> (ucast l :: u32)" "(ucast l :: u32) \<le> 0xDFFF"
    unfolding word_le_nat_alt unat_ucast_u16 s(1,2) using b by simp_all
  have e: "0x10000 + push_bit 10 (ucast h - 0xD800) + (ucast l - 0xDC00) = cp"
    by (intro unsigned_word_eqI [where 'a = nat]) (subst surrogate_pair_value [OF hl], use s in \<open>simp add: unat_ucast_u16\<close>)
  have units: "ucs2_units cp = [h, l]" using False by (simp add: ucs2_units_def Let_def w_def h_def l_def)
  have hl': "\<not> (ucast l :: u32) < 0xDC00" "\<not> (0xDFFF :: u32) < ucast l" using hl by auto
  have four: "length pre + 4 = Suc (Suc (Suc (Suc (length pre))))" by simp
  show ?thesis unfolding units using a e hl ud_unit_octets [of h] ud_unit_octets [of l]
    by (subst ucs2_text_loop.simps) (simp add: aread_def nth_append Let_def hl' four)
qed

lemma ucs2_loop_text:
  assumes "ucs2_of_codepoints cps = Some us" and "\<forall>cp \<in> set cps. scalar_value cp"
    and "length out + length (text_of_codepoints cps) < cap"
  shows "ucs2_text_loop (pre @ ucs2_payload us) (length pre + 2 * length us) cap out (length pre) = Ret (out @ text_of_codepoints cps)"
  using assms
proof (induction cps arbitrary: us out pre)
  case Nil
  then show ?case by (subst ucs2_text_loop.simps) simp
next
  case (Cons cp cps)
  from Cons.prems(1) obtain vs where vs: "ucs2_of_codepoints cps = Some vs" "us = ucs2_units cp @ vs"
    by (auto split: option.splits dest: ucs2_units_length)
  from Cons.prems(2) obtain bs where b: "utf8_octets cp = Some bs" by (auto elim: scalar_octets)
  have a: "sms_utf8_append cp out cap = Some (out @ map char_of_byte bs)"
    using Cons.prems(3) b by (intro utf8_append_octets) auto
  have sc: "scalar_value cp" using Cons.prems(2) by simp
  show ?case
    using ucs2_loop_codepoint [OF sc a, of pre "ucs2_payload vs" "2 * length vs"]
      Cons.IH [OF vs(1), of "out @ map char_of_byte bs" "pre @ ucs2_payload (ucs2_units cp)"] Cons.prems(2,3) vs(2) b
    by (simp add: algebra_simps)
qed

lemma decode_ucs2_part:
  assumes p: "part_data SMS_ENCODING_UCS2 cps (part_header n ref i) udl ud" and l: "length ud \<le> 140"
    and v: "\<forall>cp \<in> set cps. scalar_value cp \<and> cp \<noteq> 0" and n: "1 \<le> n" "n \<le> 16" "i < n"
    and f: "first AND 0x40 \<noteq> 0 \<longleftrightarrow> 1 < n"
  shows "decode_user_data first 0x08 udl ud (length ud) SMS_MAX_TEXT_UTF8 =
    Ret (SMS_ENCODING_UCS2, expected_concat n ref i, text_of_codepoints cps)"
proof -
  let ?h = "part_header n ref i"
  from p obtain us where us: "ucs2_of_codepoints cps = Some us" and ud: "ud = ?h @ ucs2_payload us" and udl: "udl = word_of_nat (length ud)"
    by (auto split: option.splits)
  have u: "unat udl = length ud" using udl l by (simp add: unat_of_nat)
  then have u': "udl \<le> 140" using l by (simp add: word_le_nat_alt)
  have len: "length ud = length ?h + 2 * length us" using ud by simp
  have "length (text_of_codepoints cps) < 2048"
    using text_length_bound [of cps] v ucs2_length [OF us] len l by fastforce
  then have loop: "ucs2_text_loop ud (length ud) SMS_MAX_TEXT_UTF8 [] (length ?h) = Ret (text_of_codepoints cps)"
    unfolding len using ucs2_loop_text [OF us, of "[]" 2048 ?h] v ud by (simp add: SMS_MAX_TEXT_UTF8_def)
  have view: "cstr_view (text_of_codepoints cps) = text_of_codepoints cps"
    using text_of_codepoints_cstring [OF v] by simp
  have enc: "dcs_encoding 8 = SMS_ENCODING_UCS2" by code_simp
  have even: "(length ud - length ?h) mod 2 = 0" using len by simp
  show ?thesis
  proof (cases "n = 1")
    case True
    then have h: "?h = []" by (simp add: part_header_def)
    show ?thesis
      using True f u' loop view even unfolding h
      by (simp add: decode_user_data_def enc Let_def u expected_concat_def SMS_MAX_TEXT_UTF8_def)
  next
    case False
    then have m: "1 < n" using n by simp
    have hdr: "user_data_header ud (length ud) = Ret (length ?h, part_concat n ref i)"
      using part_header_decoded [OF m n(2,3), of ref "length ud" "ucs2_payload us"] ud by simp
    show ?thesis
      using False m f u' loop view even hdr
      by (simp add: decode_user_data_def enc Let_def u expected_concat_def SMS_MAX_TEXT_UTF8_def)
  qed
qed

section \<open>From SMS-SUBMIT to SMS-DELIVER\<close>

text \<open>
  The SMS-DELIVER PDU a network builds for the recipient: the service centre's address \<open>smsc\<close>,
  the sender \<open>v\<close>, the timestamp \<open>scts\<close>, and the data coding, header indicator and user data of
  the submitted PDU.
\<close>

definition data_coding :: "sms_encoding \<Rightarrow> u8" where
  "data_coding enc = (if enc = SMS_ENCODING_GSM7 then 0x00 else 0x08)"

definition deliver_octets :: "u8 list \<Rightarrow> string \<times> bool \<Rightarrow> sms_encoding \<Rightarrow> bool \<Rightarrow> u8 list \<Rightarrow> u8 \<Rightarrow> u8 list \<Rightarrow> u8 list" where
  "deliver_octets smsc v enc udhi scts udl ud =
     word_of_nat (length smsc) # smsc @ [if udhi then 0x40 else 0x00] @ address_octets v @
     [0x00, data_coding enc] @ scts @ [udl] @ ud"

lemma decode_part:
  assumes "part_data enc cps (part_header n ref i) udl ud" "length ud \<le> 140"
    and "\<forall>cp \<in> set cps. scalar_value cp \<and> cp \<noteq> 0" "1 \<le> n" "n \<le> 16" "i < n"
    and "first AND 0x40 \<noteq> 0 \<longleftrightarrow> 1 < n"
  shows "decode_user_data first (data_coding enc) udl ud (length ud) SMS_MAX_TEXT_UTF8 =
    Ret (enc, expected_concat n ref i, text_of_codepoints cps)"
  using assms decode_gsm7_part [of cps n ref i udl ud first] decode_ucs2_part [of cps n ref i udl ud first]
  by (cases enc) (simp_all add: data_coding_def)

lemma at_prefix:
  "pos = length pre \<Longrightarrow> (pre @ x # post) ! pos = x" "pos = length pre \<Longrightarrow> drop pos (pre @ post') = post'"
  by simp_all

lemma deliver_octets_decoded:
  assumes smsc: "length smsc \<le> 12" and v: "address_validate sender = Some v"
    and scts: "length scts = 7" "timestamp_decode (scts @ udl # ud) (8 + length ud) 40 = Ret ts"
    and ud: "length ud \<le> 140" "decode_user_data (if udhi then 0x40 else 0x00) (data_coding enc) udl ud (length ud) SMS_MAX_TEXT_UTF8 = Ret (enc, cc, body)"
    and hex: "hex_encode (deliver_octets smsc v enc udhi scts udl ud) SMS_MAX_PDU_HEX = Some hex"
  shows "sms_deliver_decode hex = Ret \<lparr>dl_sender = sender, dl_encoding = enc, dl_concat = cc,
    dl_service_center_timestamp = ts, dl_text = body\<rparr>"
proof -
  obtain ds intl where ds: "v = (ds, intl)" by (cases v)
  note b = address_validate_bounds [OF v [unfolded ds]]
  define first :: u8 where "first = (if udhi then 0x40 else 0x00)"
  define toa :: u8 where "toa = (if intl then 0x91 else 0x81)"
  define nd :: u8 where "nd = word_of_nat (length ds)"
  let ?d = "digit_octets ds"
  let ?tail = "0x00 # data_coding enc # scts @ udl # ud"
  define pdu where "pdu = deliver_octets smsc v enc udhi scts udl ud"
  have pdu: "pdu = word_of_nat (length smsc) # smsc @ first # nd # toa # ?d @ ?tail"
    by (simp add: pdu_def deliver_octets_def address_octets_def ds first_def toa_def nd_def)
  have s: "unat (word_of_nat (length smsc) :: u8) = length smsc" "unat nd = length ds"
    using smsc b by (simp_all add: unat_of_nat nd_def)
  have lp: "length pdu = 14 + length smsc + (length ds + 1) div 2 + length ud"
    unfolding pdu using scts(1) by simp
  have "(length ds + 1) div 2 \<le> 10" using b by auto
  then have "length pdu \<le> 176" unfolding lp using smsc ud(1) by simp
  then have dec: "hex_decode hex SMS_MAX_PDU_OCTETS = Ret pdu"
    using hex_decode_encode [OF hex] by (simp add: pdu_def SMS_MAX_PDU_OCTETS_def)
  have r1: "aread pdu (Suc (length smsc)) = Ret first"
    unfolding pdu by (simp add: aread_def nth_append)
  have start: "tpdu_start hex = Ret (pdu, first, 2 + length smsc)"
    using dec lp s r1 by (simp add: tpdu_start_def aread_def pdu Let_def nth_append)
  have f: "first AND 3 = 0" by (simp add: first_def)
  let ?p = "word_of_nat (length smsc) # smsc @ [first]"
  have d1: "drop (4 + length smsc) pdu = ?d @ ?tail"
    unfolding pdu using at_prefix(2) [of "4 + length smsc" "?p @ [nd, toa]" "?d @ ?tail"] by simp
  have r2: "pdu ! (2 + length smsc) = nd" "pdu ! (3 + length smsc) = toa"
    unfolding pdu using at_prefix(1) [of "2 + length smsc" ?p nd "toa # ?d @ ?tail"] at_prefix(1) [of "3 + length smsc" "?p @ [nd]" toa "?d @ ?tail"] by simp_all
  have r3: "pdu ! (5 + length smsc + length ?d) = data_coding enc"
    unfolding pdu using at_prefix(1) [of "5 + length smsc + length ?d" "?p @ [nd, toa] @ ?d @ [0x00]" "data_coding enc" "scts @ udl # ud"] by simp
  have r4: "pdu ! (13 + length smsc + length ?d) = udl"
    unfolding pdu using at_prefix(1) [of "13 + length smsc + length ?d" "?p @ [nd, toa] @ ?d @ [0x00, data_coding enc] @ scts" udl ud] scts(1) by simp
  have d2: "drop (6 + length smsc + length ?d) pdu = scts @ udl # ud"
    unfolding pdu using at_prefix(2) [of "6 + length smsc + length ?d" "?p @ [nd, toa] @ ?d @ [0x00, data_coding enc]" "scts @ udl # ud"] by simp
  have d3: "drop (14 + length smsc + length ?d) pdu = ud"
    unfolding pdu using at_prefix(2) [of "14 + length smsc + length ?d" "?p @ [nd, toa] @ ?d @ [0x00, data_coding enc] @ scts @ [udl]" ud] scts(1) by simp
  have a: "address_decode (?d @ ?tail) (length pdu - (4 + length smsc)) (length ds) toa SMS_MAX_ADDRESS_LENGTH = Ret sender"
    unfolding toa_def using lp by (intro address_decode_encode [OF v [unfolded ds]]) simp
  show ?thesis
    unfolding sms_deliver_decode_def start
    using f s lp r2 r3 r4 d1 d2 d3 a scts ud(2) unfolding first_def
    by (simp add: Let_def aread_def algebra_simps numeral_eq_Suc)
qed

lemma timestamp_decode_append:
  "length scts = 7 \<Longrightarrow> timestamp_decode (scts @ rest) (7 + k) cap = timestamp_decode scts 7 cap"
  by (simp add: timestamp_decode_def aread_def nth_append)

lemma deliver_octets_hex:
  assumes "length smsc \<le> 12" and "address_validate sender = Some v" and "length scts = 7" and "length ud \<le> 140"
  shows "\<exists>hex. hex_encode (deliver_octets smsc v enc udhi scts udl ud) SMS_MAX_PDU_HEX = Some hex"
  by (rule hex_encode_Some) (use assms address_octets_length [OF assms(2)] in \<open>simp add: deliver_octets_def\<close>)

lemma codepoints_concat:
  assumes "cstring t" and "utf8_codepoints t = Some (concat cpss)"
  shows "concat (map text_of_codepoints cpss) = t"
    and "i < length cpss \<Longrightarrow> \<forall>cp \<in> set (cpss ! i). scalar_value cp \<and> cp \<noteq> 0"
proof -
  have "text_of_codepoints (concat cpss) = concat (map text_of_codepoints cpss)" for cpss
    by (induction cpss) auto
  then show "concat (map text_of_codepoints cpss) = t" using utf8_codepoints_text [OF assms] by simp
  show "i < length cpss \<Longrightarrow> \<forall>cp \<in> set (cpss ! i). scalar_value cp \<and> cp \<noteq> 0"
    using utf8_codepoints_text [OF assms] nth_mem [of i cpss] by auto
qed

lemma part_roundtrip:
  assumes p: "submitted_part v' enc srr ref n i cps seg" and r: "address_validate recipient = Some v'"
    and c: "\<forall>cp \<in> set cps. scalar_value cp \<and> cp \<noteq> 0" and n: "1 \<le> n" "n \<le> 16" "i < n"
    and s: "address_validate sender = Some v" "length smsc \<le> 12" "length scts = 7" "timestamp_decode scts 7 40 = Ret ts"
  shows "\<exists>udl ud hex.
    hex_decode (pdu_hex seg) SMS_MAX_PDU_OCTETS = Ret (submit_octets v' enc srr (length (part_header n ref i)) udl ud) \<and>
    hex_encode (deliver_octets smsc v enc (n > 1) scts udl ud) SMS_MAX_PDU_HEX = Some hex \<and>
    sms_deliver_decode hex = Ret \<lparr>dl_sender = sender, dl_encoding = enc, dl_concat = expected_concat n ref i,
      dl_service_center_timestamp = ts, dl_text = text_of_codepoints cps\<rparr>"
proof -
  from p obtain udl ud where d: "part_data enc cps (part_header n ref i) udl ud" "length ud \<le> 140"
    and w: "segment_with v' enc srr (length (part_header n ref i)) udl ud seg"
    by (auto simp: submitted_part_def)
  have l: "length (submit_octets v' enc srr (length (part_header n ref i)) udl ud) \<le> SMS_MAX_PDU_OCTETS"
    using submit_octets_length [OF r d(2), of enc srr "length (part_header n ref i)" udl] by (simp add: SMS_MAX_PDU_OCTETS_def)
  have h: "hex_decode (pdu_hex seg) SMS_MAX_PDU_OCTETS = Ret (submit_octets v' enc srr (length (part_header n ref i)) udl ud)"
    using w l by (intro hex_decode_encode) (auto simp: segment_with_def)
  have u: "decode_user_data (if n > 1 then 0x40 else 0x00) (data_coding enc) udl ud (length ud) SMS_MAX_TEXT_UTF8 =
      Ret (enc, expected_concat n ref i, text_of_codepoints cps)"
    by (rule decode_part [OF d c n]) simp
  have t: "timestamp_decode (scts @ udl # ud) (8 + length ud) 40 = Ret ts"
    using timestamp_decode_append [OF s(3), of "udl # ud" "1 + length ud" 40] s(4) by simp
  from deliver_octets_hex [OF s(2,1,3) d(2), of enc "n > 1" udl] obtain hex
    where x: "hex_encode (deliver_octets smsc v enc (n > 1) scts udl ud) SMS_MAX_PDU_HEX = Some hex" by blast
  from deliver_octets_decoded [OF s(2,1,3) t d(2) u x] h x show ?thesis by blast
qed

section \<open>Properties\<close>

text \<open>C1: a message survives the trip through the network. For every text \<open>sms_submit_encode\<close>
  accepts, the network's SMS-DELIVER PDU for each segment, with any service centre, sender and
  valid timestamp and the data coding, header indicator and user data of the submitted PDU, is
  decoded by \<open>sms_deliver_decode\<close> to the sender, the timestamp, the encoding, the concatenation
  data of the segment and a text; these texts, in the order of the part numbers, concatenate to
  the submitted text.\<close>

theorem submit_deliver_roundtrip:
  assumes "cstring utf8_text"
    and "sms_submit_encode recipient utf8_text request_status_report concat_reference segments = Some (segs, n)"
    and "address_validate sender = Some v" and "length smsc \<le> 12" and "length scts = 7"
    and "timestamp_decode scts 7 40 = Ret ts"
  shows "\<exists>texts enc v'. concat texts = utf8_text \<and> length texts = n \<and>
    (\<forall>i < n. \<exists>udl ud hex.
       hex_decode (pdu_hex (segs ! i)) SMS_MAX_PDU_OCTETS =
         Ret (submit_octets v' enc request_status_report (length (part_header n concat_reference i)) udl ud) \<and>
       hex_encode (deliver_octets smsc v enc (n > 1) scts udl ud) SMS_MAX_PDU_HEX = Some hex \<and>
       sms_deliver_decode hex = Ret \<lparr>dl_sender = sender, dl_encoding = enc,
         dl_concat = expected_concat n concat_reference i,
         dl_service_center_timestamp = ts, dl_text = texts ! i\<rparr>)"
proof -
  from encode_outcome [of recipient utf8_text request_status_report concat_reference segments] assms(2)
  obtain enc v' cpss where n: "1 \<le> n" "n \<le> 16" and r: "address_validate recipient = Some v'"
    and c: "utf8_codepoints utf8_text = Some (concat cpss)" "length cpss = n"
    and s: "submitted v' enc request_status_report concat_reference n cpss segments segs"
    by (auto simp: encode_outcome_def SMS_MAX_SEGMENTS_def split: option.splits if_splits)
  note t = codepoints_concat [OF assms(1) c(1)]
  show ?thesis
  proof (intro exI [of _ "map text_of_codepoints cpss"] exI [of _ enc] exI [of _ v'] conjI allI impI)
    show "concat (map text_of_codepoints cpss) = utf8_text" by (rule t(1))
    show "length (map text_of_codepoints cpss) = n" using c(2) by simp
    fix i assume i: "i < n"
    then have p: "submitted_part v' enc request_status_report concat_reference n i (cpss ! i) (segs ! i)"
      using s by (simp add: submitted_def)
    show "\<exists>udl ud hex.
       hex_decode (pdu_hex (segs ! i)) SMS_MAX_PDU_OCTETS =
         Ret (submit_octets v' enc request_status_report (length (part_header n concat_reference i)) udl ud) \<and>
       hex_encode (deliver_octets smsc v enc (n > 1) scts udl ud) SMS_MAX_PDU_HEX = Some hex \<and>
       sms_deliver_decode hex = Ret \<lparr>dl_sender = sender, dl_encoding = enc,
         dl_concat = expected_concat n concat_reference i,
         dl_service_center_timestamp = ts, dl_text = map text_of_codepoints cpss ! i\<rparr>"
      using part_roundtrip [OF p r t(2) n i assms(3-6)] i c(2) by simp
  qed
qed

theorem submit_deliver_roundtrip_witness:
  "\<exists>segs n texts. sms_submit_encode ''+4915'' ''Hi'' False 7 [undefined] = Some (segs, n) \<and>
     concat texts = ''Hi'' \<and> length texts = n"
proof -
  have v: "address_validate ''+4915'' = Some (''4915'', True)" by code_simp
  have s: "gsm7_of_text ''Hi'' = Some [0x48, 0x69]" by code_simp
  then have c: "sms_gsm7_septet_count ''Hi'' \<noteq> SIZE_MAX" by (simp add: sms_gsm7_septet_count_spec SIZE_MAX_def)
  have "sms_submit_preflight ''+4915'' ''Hi'' 7 = Some (SMS_ENCODING_GSM7, 1)"
    by (simp add: gsm7_branch(1) [OF v s c])
  then obtain segs where e: "sms_submit_encode ''+4915'' ''Hi'' False 7 [undefined] = Some (segs, 1)"
    using encode_outcome [of "''+4915''" "''Hi''" False 7 "[undefined]"] by (auto simp: encode_outcome_def)
  have t: "timestamp_decode [0x62, 0x70, 0x90, 0x21, 0x43, 0x65, 0x00] 7 40 = Ret ''2026-07-09T12:34:56+00:00''"
    by code_simp
  have cs: "cstring ''Hi''" by code_simp
  show ?thesis using e submit_deliver_roundtrip [OF cs e v, of "[]" _, OF _ _ t] by auto
qed

end
