(* ===== verification/At_Parser.thy ===== *)
theory At_Parser
  imports Gateway_Prelude
begin

text \<open>
  The tokenizer of the AT engine, \<open>components/at_engine/at_parser.c\<close>. The callback the parser
  invokes may change the parser itself (the engine disables the prompt from inside it), so it maps
  the pair of its own context and the parser to such a pair; \<open>None\<close> is the NULL callback. The
  locale \<open>token_handler\<close> states what the parser relies on in a callback and gives the tokens a
  stream of octets produces as a function of the stream alone.
\<close>

section \<open>Data\<close>

definition AT_PARSER_MAX_LINE_LENGTH :: nat where
  "AT_PARSER_MAX_LINE_LENGTH = 512"

text \<open>\<open>token->text\<close> with \<open>token->length\<close> characters; it may contain NUL characters.\<close>

datatype at_token = AT_TOKEN_LINE string | AT_TOKEN_PROMPT | AT_TOKEN_LINE_OVERFLOW

text \<open>\<open>line_buf\<close> holds the first \<open>line_length\<close> characters of the array \<open>line\<close>.\<close>

record at_parser =
  line_buf :: string
  discarding_overflow :: bool
  skip_prompt_space :: bool
  prompt_enabled :: bool

type_synonym 'u at_token_callback = "at_token \<Rightarrow> 'u \<times> at_parser \<Rightarrow> 'u \<times> at_parser"

definition at_parser_init :: at_parser where
  "at_parser_init = \<lparr>line_buf = [], discarding_overflow = False, skip_prompt_space = False, prompt_enabled = False\<rparr>"

definition at_parser_reset :: at_parser where
  "at_parser_reset = at_parser_init"

definition at_parser_set_prompt_enabled :: "bool \<Rightarrow> at_parser \<Rightarrow> at_parser" where
  "at_parser_set_prompt_enabled enabled parser =
     (let parser = parser\<lparr>prompt_enabled := enabled\<rparr>
      in if enabled then parser else parser\<lparr>skip_prompt_space := False\<rparr>)"

section \<open>Feeding\<close>

definition call_back :: "'u at_token_callback option \<Rightarrow> 'u at_token_callback" where
  "call_back callback token s = (case callback of None \<Rightarrow> s | Some f \<Rightarrow> f token s)"

definition emit_line :: "'u at_token_callback option \<Rightarrow> 'u \<times> at_parser \<Rightarrow> 'u \<times> at_parser" where
  "emit_line callback = (\<lambda>(u, parser).
     if line_buf parser = [] \<or> callback = None then (u, parser\<lparr>line_buf := []\<rparr>)
     else let (u, parser) = call_back callback (AT_TOKEN_LINE (line_buf parser)) (u, parser)
          in (u, parser\<lparr>line_buf := []\<rparr>))"

definition feed_char :: "'u at_token_callback option \<Rightarrow> char \<Rightarrow> 'u \<times> at_parser \<Rightarrow> 'u \<times> at_parser" where
  "feed_char callback ch = (\<lambda>(u, parser).
     let skip = skip_prompt_space parser;
         parser = (if skip then parser\<lparr>skip_prompt_space := False\<rparr> else parser)
     in if skip \<and> ch = CHR '' '' then (u, parser)
        else if discarding_overflow parser then
          (if ch = CR \<or> ch = LF
           then call_back callback AT_TOKEN_LINE_OVERFLOW
                  (u, parser\<lparr>discarding_overflow := False, line_buf := []\<rparr>)
           else (u, parser))
        else if ch = CR \<or> ch = LF then emit_line callback (u, parser)
        else if prompt_enabled parser \<and> ch = CHR ''>'' \<and> line_buf parser = [] then
          let (u, parser) = call_back callback AT_TOKEN_PROMPT (u, parser)
          in (u, parser\<lparr>skip_prompt_space := True\<rparr>)
        else if length (line_buf parser) \<ge> AT_PARSER_MAX_LINE_LENGTH then
          (u, parser\<lparr>discarding_overflow := True, line_buf := []\<rparr>)
        else (u, parser\<lparr>line_buf := line_buf parser @ [ch]\<rparr>))"

definition at_parser_feed :: "'u at_token_callback option \<Rightarrow> string \<Rightarrow> 'u \<times> at_parser \<Rightarrow> 'u \<times> at_parser" where
  "at_parser_feed callback data = fold (feed_char callback) data"

section \<open>Bounds\<close>

text \<open>What the parser keeps: the line with its terminator fits the array of 513 characters.\<close>

definition parser_ok :: "at_parser \<Rightarrow> bool" where
  "parser_ok p \<longleftrightarrow> length (line_buf p) \<le> AT_PARSER_MAX_LINE_LENGTH"

locale parser_callback =
  fixes handler :: "'u at_token_callback"
  assumes keeps_line: "handler t (u, p) = (u', p') \<Longrightarrow> line_buf p' = line_buf p"
begin

lemma feed_char_ok: "parser_ok p \<Longrightarrow> feed_char (Some handler) ch (u, p) = (u', p') \<Longrightarrow> parser_ok p'"
  by (auto simp: feed_char_def emit_line_def call_back_def parser_ok_def Let_def dest: keeps_line
      split: if_splits prod.splits)

lemma feed_ok: "parser_ok p \<Longrightarrow> at_parser_feed (Some handler) data (u, p) = (u', p') \<Longrightarrow> parser_ok p'"
proof (induction data arbitrary: u p)
  case (Cons c cs)
  obtain u1 p1 where f: "feed_char (Some handler) c (u, p) = (u1, p1)" by (cases "feed_char (Some handler) c (u, p)")
  with Cons feed_char_ok [OF _ f] show ?case by (auto simp: at_parser_feed_def)
qed (simp add: at_parser_feed_def)

end

section \<open>The tokens of a stream\<close>

text \<open>
  The specification, for a stream read with the prompt disabled: the stream is cut at every CR
  and LF, empty lines give no token, lines of at most 512 characters give themselves, longer ones
  the overflow token. What follows the last CR or LF stays pending.
\<close>

fun stream_lines :: "string \<Rightarrow> string \<Rightarrow> string list \<times> string" where
  "stream_lines pending [] = ([], pending)"
| "stream_lines pending (c # cs) =
     (if c = CR \<or> c = LF then (let (ls, rest) = stream_lines [] cs in (pending # ls, rest))
      else stream_lines (pending @ [c]) cs)"

definition line_token :: "string \<Rightarrow> at_token list" where
  "line_token l =
     (if l = [] then []
      else if length l \<le> AT_PARSER_MAX_LINE_LENGTH then [AT_TOKEN_LINE l]
      else [AT_TOKEN_LINE_OVERFLOW])"

definition stream_tokens :: "string \<Rightarrow> string \<Rightarrow> at_token list" where
  "stream_tokens pending data = concat (map line_token (fst (stream_lines pending data)))"

text \<open>The parser that has \<open>pending\<close> behind the last line end, the prompt disabled.\<close>

definition holds :: "at_parser \<Rightarrow> string \<Rightarrow> bool" where
  "holds p pending \<longleftrightarrow> \<not> prompt_enabled p \<and> \<not> skip_prompt_space p \<and>
     (if length pending \<le> AT_PARSER_MAX_LINE_LENGTH
      then \<not> discarding_overflow p \<and> line_buf p = pending
      else discarding_overflow p \<and> line_buf p = [])"

text \<open>A callback that leaves a parser with disabled prompt alone.\<close>

locale token_handler = parser_callback handler for handler :: "'u at_token_callback" +
  fixes consume :: "at_token \<Rightarrow> 'u \<Rightarrow> 'u"
  assumes handles: "\<not> prompt_enabled p \<Longrightarrow> \<not> skip_prompt_space p \<Longrightarrow> t \<noteq> AT_TOKEN_PROMPT \<Longrightarrow>
    handler t (u, p) = (consume t u, p)"
begin

lemma feed_char_text:
  assumes "holds p pending" and "c \<noteq> CR" "c \<noteq> LF"
  shows "\<exists>p'. feed_char (Some handler) c (u, p) = (u, p') \<and> holds p' (pending @ [c])"
  using assms by (auto simp: feed_char_def holds_def Let_def split: if_splits)

lemma feed_char_end:
  assumes "holds p pending" and "c = CR \<or> c = LF"
  shows "\<exists>p'. feed_char (Some handler) c (u, p) = (fold consume (line_token pending) u, p') \<and> holds p' []"
  using assms by (auto simp: feed_char_def holds_def Let_def emit_line_def call_back_def line_token_def handles
      split: if_splits)

lemma feed_stream:
  "holds p pending \<Longrightarrow>
   \<exists>p'. at_parser_feed (Some handler) data (u, p) = (fold consume (stream_tokens pending data) u, p') \<and>
     holds p' (snd (stream_lines pending data))"
proof (induction data arbitrary: pending p u)
  case Nil
  then show ?case by (simp add: at_parser_feed_def stream_tokens_def)
next
  case (Cons c cs)
  show ?case
  proof (cases "c = CR \<or> c = LF")
    case True
    from feed_char_end [OF Cons.prems True, of u] obtain p1
      where p1: "feed_char (Some handler) c (u, p) = (fold consume (line_token pending) u, p1)" "holds p1 []" by blast
    from Cons.IH [OF p1(2), of "fold consume (line_token pending) u"] True p1(1) show ?thesis
      by (auto simp: at_parser_feed_def stream_tokens_def split: prod.splits)
  next
    case False
    from feed_char_text [OF Cons.prems, of c u] False obtain p1
      where p1: "feed_char (Some handler) c (u, p) = (u, p1)" "holds p1 (pending @ [c])" by blast
    from Cons.IH [OF p1(2), of u] False p1(1) show ?thesis
      by (auto simp: at_parser_feed_def stream_tokens_def)
  qed
qed

end

text \<open>The callback that records the tokens.\<close>

definition record_token :: "at_token list at_token_callback" where
  "record_token t = (\<lambda>(ts, p). (ts @ [t], p))"

interpretation recorder: token_handler record_token "\<lambda>t ts. ts @ [t]"
  by unfold_locales (simp_all add: record_token_def)

lemma fold_snoc: "fold (\<lambda>t ts. ts @ [t]) ts acc = acc @ ts"
  by (induction ts arbitrary: acc) auto

section \<open>Properties\<close>

text \<open>C20: the parser is a line splitter. From the initial parser, a stream fed in any chunks
  gives exactly the tokens of the specification: one line token for every non-empty line of at
  most 512 characters, one overflow token for every longer line, in order, whatever chunks the
  stream arrives in; and the line buffer never exceeds its array.\<close>

theorem parser_tokens:
  "\<exists>parser. fold (at_parser_feed (Some record_token)) chunks ([], at_parser_init) =
     (stream_tokens [] (concat chunks), parser) \<and> parser_ok parser"
proof -
  have f: "fold (at_parser_feed (Some record_token)) chunks s = at_parser_feed (Some record_token) (concat chunks) s" for s
    by (induction chunks arbitrary: s) (simp_all add: at_parser_feed_def)
  have h: "holds at_parser_init []" by (simp add: holds_def at_parser_init_def)
  have ok: "parser_ok at_parser_init" by (simp add: parser_ok_def at_parser_init_def)
  from recorder.feed_stream [OF h, of "concat chunks" "[]"] recorder.feed_ok [OF ok, of "concat chunks" "[]"]
  show ?thesis by (auto simp: f fold_snoc)
qed

end
