(* ===== verification/At_Protocol.thy ===== *)
theory At_Protocol
  imports Gateway_Prelude
begin

text \<open>
  Classification of the lines a modem sends: \<open>components/at_engine/at_protocol.c\<close> and the router
  \<open>at_router.c\<close>. A line is a C string; an array of prefixes is a list whose \<open>None\<close> entries are
  NULL pointers.
\<close>

section \<open>Protocol\<close>

datatype at_final_kind = AT_FINAL_NONE | AT_FINAL_OK | AT_FINAL_ERROR | AT_FINAL_CME_ERROR | AT_FINAL_CMS_ERROR

record at_final_status =
  final_kind :: at_final_kind
  final_error_code :: int

definition DEFAULT_URC_PREFIXES :: "string list" where
  "DEFAULT_URC_PREFIXES =
     [''+CMTI:'', ''+CMT:'', ''+CDS:'', ''+CDSI:'', ''+CBM:'', ''+CREG:'', ''+CGREG:'', ''+CEREG:'',
      ''+CUSD:'', ''+CLIP:'', ''+CRING:'', ''+CGEV:'', ''+CPIN:'', ''+CFUN:'', ''^RSSI:'', ''^MODE:'',
      ''^SRVST:'', ''^BOOT'', ''^DSFLOWRPT:'', ''^HCSQ:'', ''RING'', ''NO CARRIER'', ''SMS READY'',
      ''PB DONE'']"

definition at_protocol_has_prefix :: "string \<Rightarrow> string \<Rightarrow> bool" where
  "at_protocol_has_prefix line prefix = has_prefix line prefix"

fun at_protocol_matches_any_prefix :: "string \<Rightarrow> string option list \<Rightarrow> bool" where
  "at_protocol_matches_any_prefix line [] = False"
| "at_protocol_matches_any_prefix line (prefix # prefixes) =
     (if (case prefix of None \<Rightarrow> False | Some p \<Rightarrow> at_protocol_has_prefix line p) then True
      else at_protocol_matches_any_prefix line prefixes)"

definition at_protocol_is_default_urc :: "string \<Rightarrow> bool" where
  "at_protocol_is_default_urc line = at_protocol_matches_any_prefix line (map Some DEFAULT_URC_PREFIXES)"

definition at_protocol_urc_continuation_lines :: "string \<Rightarrow> nat" where
  "at_protocol_urc_continuation_lines line =
     (if at_protocol_has_prefix line ''+CMT:'' \<or> at_protocol_has_prefix line ''+CDS:'' \<or>
         at_protocol_has_prefix line ''+CBM:''
      then 1 else 0)"

definition at_protocol_should_route_as_urc :: "string \<Rightarrow> string option list \<Rightarrow> bool" where
  "at_protocol_should_route_as_urc line expected_prefixes =
     (if \<not> at_protocol_is_default_urc line then False
      else \<not> at_protocol_matches_any_prefix line expected_prefixes)"

definition blank :: "char \<Rightarrow> bool" where
  "blank c \<longleftrightarrow> c = CHR '' '' \<or> c = TAB"

definition parse_prefixed_error :: "string \<Rightarrow> string \<Rightarrow> at_final_kind \<Rightarrow> at_final_status" where
  "parse_prefixed_error line prefix kind =
     (let status = \<lparr>final_kind = kind, final_error_code = -1\<rparr>;
          val = dropWhile blank (drop (length prefix) line)
      in if val = [] then status
         else let (parsed, stop) = strtol val
              in if stop \<noteq> val \<and> dropWhile blank stop = [] \<and> 0 \<le> parsed \<and> parsed \<le> 2147483647
                 then status\<lparr>final_error_code := parsed\<rparr>
                 else status)"

definition at_protocol_final_status :: "string \<Rightarrow> at_final_status" where
  "at_protocol_final_status line =
     (if line = ''OK'' then \<lparr>final_kind = AT_FINAL_OK, final_error_code = -1\<rparr>
      else if line = ''ERROR'' then \<lparr>final_kind = AT_FINAL_ERROR, final_error_code = -1\<rparr>
      else if at_protocol_has_prefix line ''+CME ERROR:''
        then parse_prefixed_error line ''+CME ERROR:'' AT_FINAL_CME_ERROR
      else if at_protocol_has_prefix line ''+CMS ERROR:''
        then parse_prefixed_error line ''+CMS ERROR:'' AT_FINAL_CMS_ERROR
      else \<lparr>final_kind = AT_FINAL_NONE, final_error_code = -1\<rparr>)"

section \<open>Router\<close>

datatype at_route = AT_ROUTE_RESPONSE | AT_ROUTE_URC

record at_router =
  urc_continuation_lines :: nat

definition at_router_init :: at_router where
  "at_router_init = \<lparr>urc_continuation_lines = 0\<rparr>"

definition at_router_route_line :: "at_router \<Rightarrow> string \<Rightarrow> string option list \<Rightarrow> at_router \<times> at_route" where
  "at_router_route_line router line expected_prefixes =
     (if urc_continuation_lines router > 0
      then (router\<lparr>urc_continuation_lines := urc_continuation_lines router - 1\<rparr>, AT_ROUTE_URC)
      else if at_protocol_should_route_as_urc line expected_prefixes
      then (router\<lparr>urc_continuation_lines := at_protocol_urc_continuation_lines line\<rparr>, AT_ROUTE_URC)
      else (router, AT_ROUTE_RESPONSE))"

section \<open>Lemmas\<close>

lemma matches_any_prefix_iff:
  "at_protocol_matches_any_prefix line ps \<longleftrightarrow> (\<exists>p. Some p \<in> set ps \<and> has_prefix line p)"
  by (induction ps) (auto simp: at_protocol_has_prefix_def split: option.splits)

lemma blank_not_digit: "blank c \<Longrightarrow> \<not> isdigit c"
  by (auto simp: blank_def isdigit_def TAB_def)

lemma strtol_number:
  assumes "\<forall>c \<in> set r. blank c" and "int n \<le> LONG_MAX"
  shows "strtol (dec n @ r) = (int n, r)"
proof -
  have "r = [] \<or> \<not> isdigit (hd r)" using assms(1) blank_not_digit by (cases r) auto
  from strtol_dec [of "[]", OF _ this assms(2)] show ?thesis by simp
qed

lemma dropWhile_blank_dec: "dropWhile blank (dec n @ r) = dec n @ r"
proof -
  have "\<not> blank (hd (dec n))" using dec_hd_digit [of n] blank_not_digit by blast
  then show ?thesis by (cases "dec n") auto
qed

lemma parse_prefixed_error_number:
  assumes "\<forall>c \<in> set ws. blank c" and "\<forall>c \<in> set r. blank c" and "int n \<le> LONG_MAX"
  shows "parse_prefixed_error (prefix @ ws @ dec n @ r) prefix kind = \<lparr>final_kind = kind, final_error_code = int n\<rparr>"
proof -
  have d: "dropWhile blank (ws @ dec n @ r) = dec n @ r"
    using assms(1) dropWhile_blank_dec by (simp add: dropWhile_append2)
  have "dropWhile blank r = []" using assms(2) by simp
  then show ?thesis
    using d strtol_number [OF assms(2,3)] assms(3) by (simp add: parse_prefixed_error_def Let_def LONG_MAX_def)
qed

lemma parse_prefixed_error_kind [simp]: "final_kind (parse_prefixed_error line prefix kind) = kind"
  by (simp add: parse_prefixed_error_def Let_def split: prod.splits)

lemma final_kind_none_error: "final_kind (at_protocol_final_status line) = AT_FINAL_NONE \<Longrightarrow> final_error_code (at_protocol_final_status line) = -1"
  by (auto simp: at_protocol_final_status_def split: if_splits)

section \<open>Properties\<close>

text \<open>the final result of a command. Exactly the line \<open>OK\<close> completes a command successfully;
  the numeric code of a \<open>+CME ERROR\<close> or \<open>+CMS ERROR\<close> line is recovered with blanks around it;
  the code of a line is -1 or a non-negative 32-bit value; and no line that starts an unsolicited
  result is a final result.\<close>

theorem final_status_correct:
  "(final_kind (at_protocol_final_status line) = AT_FINAL_OK \<longleftrightarrow> line = ''OK'') \<and>
   (list_all blank before \<longrightarrow> list_all blank after \<longrightarrow> int n \<le> LONG_MAX \<longrightarrow>
      at_protocol_final_status (''+CME ERROR:'' @ before @ dec n @ after) = \<lparr>final_kind = AT_FINAL_CME_ERROR, final_error_code = int n\<rparr> \<and>
      at_protocol_final_status (''+CMS ERROR:'' @ before @ dec n @ after) = \<lparr>final_kind = AT_FINAL_CMS_ERROR, final_error_code = int n\<rparr>) \<and>
   -1 \<le> final_error_code (at_protocol_final_status line) \<and> final_error_code (at_protocol_final_status line) \<le> LONG_MAX \<and>
   (at_protocol_is_default_urc line \<longrightarrow> final_kind (at_protocol_final_status line) = AT_FINAL_NONE)"
proof (intro conjI impI)
  show "final_kind (at_protocol_final_status line) = AT_FINAL_OK \<longleftrightarrow> line = ''OK''"
    by (simp add: at_protocol_final_status_def)
  show "-1 \<le> final_error_code (at_protocol_final_status line)" "final_error_code (at_protocol_final_status line) \<le> LONG_MAX"
    by (auto simp: at_protocol_final_status_def parse_prefixed_error_def Let_def LONG_MAX_def split: prod.splits)
  assume b: "list_all blank before" "list_all blank after" "int n \<le> LONG_MAX"
  then have "\<forall>c \<in> set before. blank c" "\<forall>c \<in> set after. blank c" by (simp_all add: list_all_iff)
  note p = parse_prefixed_error_number [OF this b(3)]
  show "at_protocol_final_status (''+CME ERROR:'' @ before @ dec n @ after) = \<lparr>final_kind = AT_FINAL_CME_ERROR, final_error_code = int n\<rparr>"
    using p [of "''+CME ERROR:''"] by (simp add: at_protocol_final_status_def at_protocol_has_prefix_def has_prefix_def)
  show "at_protocol_final_status (''+CMS ERROR:'' @ before @ dec n @ after) = \<lparr>final_kind = AT_FINAL_CMS_ERROR, final_error_code = int n\<rparr>"
    using p [of "''+CMS ERROR:''"] by (simp add: at_protocol_final_status_def at_protocol_has_prefix_def has_prefix_def)
next
  assume "at_protocol_is_default_urc line"
  then show "final_kind (at_protocol_final_status line) = AT_FINAL_NONE"
    by (auto simp: at_protocol_is_default_urc_def matches_any_prefix_iff DEFAULT_URC_PREFIXES_def at_protocol_final_status_def
        at_protocol_has_prefix_def has_prefix_iff)
qed

theorem final_status_correct_witness:
  "at_protocol_final_status ''+CMS ERROR: 321'' = \<lparr>final_kind = AT_FINAL_CMS_ERROR, final_error_code = 321\<rparr> \<and>
   final_kind (at_protocol_final_status ''+CMT: ,24'') = AT_FINAL_NONE"
proof -
  have d: "dec 321 = ''321''" by code_simp
  have u: "at_protocol_is_default_urc ''+CMT: ,24''" by code_simp
  have b: "list_all blank '' ''" "list_all blank ''''" "int 321 \<le> LONG_MAX" by (simp_all add: blank_def LONG_MAX_def)
  show ?thesis
    using final_status_correct [of "''+CMT: ,24''" "'' ''" "''''" 321] u b d by simp
qed

end
