(* ===== verification/At_Engine.thy ===== *)
theory At_Engine
  imports At_Parser At_Protocol "HOL-Library.Monad_Syntax"
begin

text \<open>
  The AT command engine, \<open>components/at_engine/at_engine.c\<close>. The modem transport is the pair of
  functions the engine is initialised with; it is a parameter, over a transport state of type
  \<open>'w\<close>. The worker task's loops are functions of a script of what the other tasks do between its
  steps (received octets, a lost transport, a cancellation, a dispatched URC) and of the clock
  readings; when the script ends before the command does, the result is \<open>None\<close>: the worker still
  waits. The FreeRTOS queues are lists with the capacities of the code.
\<close>

section \<open>Data\<close>

definition AT_RX_QUEUE_DEPTH :: nat where "AT_RX_QUEUE_DEPTH = 20"
definition AT_URC_QUEUE_DEPTH :: nat where "AT_URC_QUEUE_DEPTH = 16"
definition AT_RX_CHUNK_SIZE :: nat where "AT_RX_CHUNK_SIZE = 256"
definition AT_DEFAULT_TIMEOUT_MS :: u32 where "AT_DEFAULT_TIMEOUT_MS = 3000"
definition AT_DEFAULT_WRITE_TIMEOUT_MS :: u32 where "AT_DEFAULT_WRITE_TIMEOUT_MS = 1000"
definition AT_ENGINE_MAX_COMMAND_LENGTH :: nat where "AT_ENGINE_MAX_COMMAND_LENGTH = 192"
definition AT_ENGINE_MAX_EXPECTED_PREFIXES :: nat where "AT_ENGINE_MAX_EXPECTED_PREFIXES = 8"
definition AT_ENGINE_MAX_RESPONSE_BYTES :: nat where "AT_ENGINE_MAX_RESPONSE_BYTES = 2048"
definition AT_ENGINE_MAX_RESPONSE_LINES :: nat where "AT_ENGINE_MAX_RESPONSE_LINES = 24"
definition AT_ENGINE_MAX_URC_LENGTH :: nat where "AT_ENGINE_MAX_URC_LENGTH = 512"
definition AT_ENGINE_MAX_FINAL_LENGTH :: nat where "AT_ENGINE_MAX_FINAL_LENGTH = 128"

datatype at_result =
    AT_RESULT_OK | AT_RESULT_ERROR | AT_RESULT_CME_ERROR | AT_RESULT_CMS_ERROR | AT_RESULT_TIMEOUT
  | AT_RESULT_CANCELED | AT_RESULT_TRANSPORT_UNAVAILABLE | AT_RESULT_TRANSPORT_ERROR
  | AT_RESULT_RX_OVERFLOW | AT_RESULT_PROTOCOL_ERROR

text \<open>Pointers that may be NULL are options; an array pointer comes with its count.\<close>

record at_request =
  rq_command :: "string option"
  rq_expected_prefixes :: "string option list option"
  rq_expected_prefix_count :: nat
  rq_timeout_ms :: u32
  rq_max_attempts :: u8
  rq_retry_delay_ms :: u32
  rq_retry_policy :: u32
  rq_wait_for_prompt :: bool
  rq_prompt_payload :: "u8 list option"
  rq_prompt_payload_len :: nat

text \<open>
  \<open>rs_data\<close> holds the first \<open>data_length\<close> characters of \<open>data\<close>, \<open>rs_line_offsets\<close> the first
  \<open>line_count\<close> entries of \<open>line_offsets\<close>.
\<close>

record at_response =
  rs_result :: at_result
  rs_error_code :: int
  rs_attempts :: u8
  rs_truncated :: bool
  rs_final_line :: string
  rs_data :: string
  rs_line_offsets :: "u16 list"

record 'w at_transport =
  tr_write :: "'w \<Rightarrow> u8 list \<Rightarrow> u32 \<Rightarrow> esp_err \<times> 'w"
  tr_is_ready :: "('w \<Rightarrow> bool) option"
  tr_write_timeout_ms :: u32

record at_engine_diagnostics =
  commands_submitted :: u32
  commands_completed :: u32
  commands_retried :: u32
  timeouts :: u32
  cancellations :: u32
  transport_errors :: u32
  rx_overflows :: u32
  parser_overflows :: u32
  urcs_dispatched :: u32
  urcs_dropped :: u32

datatype rx_event = RX_EVENT_DATA string | RX_EVENT_TRANSPORT_LOST | RX_EVENT_CANCEL

record transaction_ctx =
  tx_request :: at_request
  tx_response :: at_response
  tx_done :: bool
  tx_payload_sent :: bool
  tx_router :: at_router

record 'w at_engine =
  en_initialized :: bool
  en_wire :: 'w
  en_rx_queue :: "rx_event list"
  en_urc_queue :: "string list"
  en_urc_callback :: bool
  en_diagnostics :: at_engine_diagnostics
  en_rx_overflow_epoch :: u32
  en_transport_lost_epoch :: u32
  en_cancel_epoch :: u32

abbreviation diag :: "(at_engine_diagnostics \<Rightarrow> at_engine_diagnostics) \<Rightarrow> 'w at_engine \<Rightarrow> 'w at_engine" where
  "diag f e \<equiv> e\<lparr>en_diagnostics := f (en_diagnostics e)\<rparr>"

section \<open>Responses\<close>

definition bounded_strlen :: "string \<Rightarrow> nat \<Rightarrow> nat" where
  "bounded_strlen val maximum = min (length (cstr_view val)) maximum"

definition response_reset :: at_response where
  "response_reset = \<lparr>rs_result = AT_RESULT_PROTOCOL_ERROR, rs_error_code = -1, rs_attempts = 0,
     rs_truncated = False, rs_final_line = [], rs_data = [], rs_line_offsets = []\<rparr>"

definition response_capture_final :: "at_response \<Rightarrow> string \<Rightarrow> at_response" where
  "response_capture_final response line =
     (let len = bounded_strlen line AT_ENGINE_MAX_FINAL_LENGTH;
          copy_length = (if len < AT_ENGINE_MAX_FINAL_LENGTH then len else AT_ENGINE_MAX_FINAL_LENGTH - 1);
          response = response\<lparr>rs_final_line := take copy_length line\<rparr>
      in if len \<ge> AT_ENGINE_MAX_FINAL_LENGTH then response\<lparr>rs_truncated := True\<rparr> else response)"

definition response_capture_line :: "at_response \<Rightarrow> string \<Rightarrow> at_response" where
  "response_capture_line response line =
     (let len = length line in
      if length (rs_line_offsets response) \<ge> AT_ENGINE_MAX_RESPONSE_LINES \<or>
         length (rs_data response) + len + 1 > AT_ENGINE_MAX_RESPONSE_BYTES
      then response\<lparr>rs_truncated := True\<rparr>
      else response\<lparr>rs_line_offsets := rs_line_offsets response @ [word_of_nat (length (rs_data response))],
                    rs_data := rs_data response @ line @ [NUL]\<rparr>)"

definition at_response_line :: "at_response \<Rightarrow> nat \<Rightarrow> string option" where
  "at_response_line response index =
     (if index \<ge> length (rs_line_offsets response) then None
      else let offset = unat (rs_line_offsets response ! index) in
           if offset \<ge> length (rs_data response) \<or> offset \<ge> AT_ENGINE_MAX_RESPONSE_BYTES then None
           else Some (cstr_view (drop offset (rs_data response))))"

section \<open>Tokens\<close>

definition queue_urc :: "string \<Rightarrow> 'w at_engine \<Rightarrow> 'w at_engine" where
  "queue_urc line e =
     (if bounded_strlen line (AT_ENGINE_MAX_URC_LENGTH + 1) > AT_ENGINE_MAX_URC_LENGTH
      then diag (\<lambda>d. d\<lparr>urcs_dropped := urcs_dropped d + 1\<rparr>) e
      else if length (en_urc_queue e) < AT_URC_QUEUE_DEPTH
      then e\<lparr>en_urc_queue := en_urc_queue e @ [line]\<rparr>
      else diag (\<lambda>d. d\<lparr>urcs_dropped := urcs_dropped d + 1\<rparr>) e)"

definition map_final_kind :: "at_final_kind \<Rightarrow> at_result" where
  "map_final_kind kind =
     (case kind of
        AT_FINAL_OK \<Rightarrow> AT_RESULT_OK
      | AT_FINAL_ERROR \<Rightarrow> AT_RESULT_ERROR
      | AT_FINAL_CME_ERROR \<Rightarrow> AT_RESULT_CME_ERROR
      | AT_FINAL_CMS_ERROR \<Rightarrow> AT_RESULT_CMS_ERROR
      | AT_FINAL_NONE \<Rightarrow> AT_RESULT_PROTOCOL_ERROR)"

definition expected_prefixes :: "at_request \<Rightarrow> string option list" where
  "expected_prefixes request =
     (case rq_expected_prefixes request of None \<Rightarrow> [] | Some ps \<Rightarrow> take (rq_expected_prefix_count request) ps)"

definition write_timeout :: "'w at_transport \<Rightarrow> u32" where
  "write_timeout tr =
     (if tr_write_timeout_ms tr \<noteq> 0 then tr_write_timeout_ms tr else AT_DEFAULT_WRITE_TIMEOUT_MS)"

definition prompt_payload :: "at_request \<Rightarrow> u8 list" where
  "prompt_payload request =
     (case rq_prompt_payload request of None \<Rightarrow> [] | Some ps \<Rightarrow> take (rq_prompt_payload_len request) ps)"

text \<open>The line branch of \<open>process_token\<close>, inside a transaction that is not done.\<close>

definition process_line :: "string \<Rightarrow> 'w at_engine \<times> transaction_ctx \<Rightarrow> 'w at_engine \<times> transaction_ctx" where
  "process_line line = (\<lambda>(e, tx).
     let request = tx_request tx in
     if rq_command request = Some line then (e, tx)
     else
       let (router, route) = at_router_route_line (tx_router tx) line (expected_prefixes request);
           tx = tx\<lparr>tx_router := router\<rparr>
       in if route = AT_ROUTE_URC then (queue_urc line e, tx)
          else
            let final = at_protocol_final_status line in
            if final_kind final \<noteq> AT_FINAL_NONE then
              let response = response_capture_final (tx_response tx) line;
                  response =
                    (if final_kind final = AT_FINAL_OK \<and> rq_wait_for_prompt request \<and> \<not> tx_payload_sent tx
                     then response\<lparr>rs_result := AT_RESULT_PROTOCOL_ERROR\<rparr>
                     else response\<lparr>rs_result := map_final_kind (final_kind final),
                                   rs_error_code := final_error_code final\<rparr>)
              in (e, tx\<lparr>tx_response := response, tx_done := True\<rparr>)
            else (e, tx\<lparr>tx_response := response_capture_line (tx_response tx) line\<rparr>))"

definition process_token :: "'w at_transport \<Rightarrow> ('w at_engine \<times> transaction_ctx option) at_token_callback" where
  "process_token tr token = (\<lambda>((e, transaction), parser).
     case token of
       AT_TOKEN_LINE_OVERFLOW \<Rightarrow>
         (let e = diag (\<lambda>d. d\<lparr>parser_overflows := parser_overflows d + 1\<rparr>) e
          in case transaction of
               None \<Rightarrow> ((e, None), parser)
             | Some tx \<Rightarrow>
                 ((e, Some (tx\<lparr>tx_response := (tx_response tx)\<lparr>rs_result := AT_RESULT_PROTOCOL_ERROR, rs_truncated := True\<rparr>,
                               tx_done := True\<rparr>)), parser))
     | AT_TOKEN_PROMPT \<Rightarrow>
         (case transaction of
            None \<Rightarrow> ((queue_urc ''>'' e, None), parser)
          | Some tx \<Rightarrow>
              if \<not> rq_wait_for_prompt (tx_request tx) then ((queue_urc ''>'' e, Some tx), parser)
              else
                let parser = at_parser_set_prompt_enabled False parser;
                    (err, wire) = tr_write tr (en_wire e) (prompt_payload (tx_request tx)) (write_timeout tr);
                    e = e\<lparr>en_wire := wire\<rparr>
                in if err \<noteq> ESP_OK
                   then ((diag (\<lambda>d. d\<lparr>transport_errors := transport_errors d + 1\<rparr>) e,
                          Some (tx\<lparr>tx_response := (tx_response tx)\<lparr>rs_result := AT_RESULT_TRANSPORT_ERROR\<rparr>,
                                   tx_done := True\<rparr>)), parser)
                   else ((e, Some (tx\<lparr>tx_payload_sent := True\<rparr>)), parser))
     | AT_TOKEN_LINE token_text \<Rightarrow>
         (let line = cstr_view token_text
          in case transaction of
               None \<Rightarrow> ((queue_urc line e, None), parser)
             | Some tx \<Rightarrow>
                 if tx_done tx then ((queue_urc line e, Some tx), parser)
                 else let (e, tx) = process_line line (e, tx) in ((e, Some tx), parser)))"

definition AT_RETRY_ON_TIMEOUT :: u32 where "AT_RETRY_ON_TIMEOUT = 1"
definition AT_RETRY_ON_ERROR :: u32 where "AT_RETRY_ON_ERROR = 2"
definition AT_RETRY_ON_CME_ERROR :: u32 where "AT_RETRY_ON_CME_ERROR = 4"
definition AT_RETRY_ON_CMS_ERROR :: u32 where "AT_RETRY_ON_CMS_ERROR = 8"
definition AT_RETRY_ON_TRANSPORT_ERROR :: u32 where "AT_RETRY_ON_TRANSPORT_ERROR = 16"

definition should_retry :: "at_result \<Rightarrow> u32 \<Rightarrow> bool" where
  "should_retry result policy =
     (case result of
        AT_RESULT_TIMEOUT \<Rightarrow> policy AND AT_RETRY_ON_TIMEOUT \<noteq> 0
      | AT_RESULT_ERROR \<Rightarrow> policy AND AT_RETRY_ON_ERROR \<noteq> 0
      | AT_RESULT_CME_ERROR \<Rightarrow> policy AND AT_RETRY_ON_CME_ERROR \<noteq> 0
      | AT_RESULT_CMS_ERROR \<Rightarrow> policy AND AT_RETRY_ON_CMS_ERROR \<noteq> 0
      | AT_RESULT_TRANSPORT_ERROR \<Rightarrow> policy AND AT_RETRY_ON_TRANSPORT_ERROR \<noteq> 0
      | AT_RESULT_TRANSPORT_UNAVAILABLE \<Rightarrow> policy AND AT_RETRY_ON_TRANSPORT_ERROR \<noteq> 0
      | _ \<Rightarrow> False)"

definition valid_request :: "at_request \<Rightarrow> bool" where
  "valid_request request =
     (case rq_command request of
        None \<Rightarrow> False
      | Some command \<Rightarrow>
          if cchar command 0 = NUL then False
          else let command_length = bounded_strlen command (AT_ENGINE_MAX_COMMAND_LENGTH + 1) in
          if command_length = 0 \<or> command_length > AT_ENGINE_MAX_COMMAND_LENGTH \<or>
             CR \<in> set command \<or> LF \<in> set command then False
          else if rq_expected_prefix_count request > AT_ENGINE_MAX_EXPECTED_PREFIXES \<or>
             (rq_expected_prefix_count request > 0 \<and> rq_expected_prefixes request = None) then False
          else if rq_wait_for_prompt request \<and>
             (rq_prompt_payload request = None \<or> rq_prompt_payload_len request = 0) then False
          else if \<not> rq_wait_for_prompt request \<and>
             (rq_prompt_payload request \<noteq> None \<or> rq_prompt_payload_len request > 0) then False
          else True)"

definition command_octets :: "at_request \<Rightarrow> u8 list" where
  "command_octets request =
     map byte_of (case rq_command request of None \<Rightarrow> [] | Some command \<Rightarrow> command) @ [byte_of CR]"

definition send_command :: "'w at_transport \<Rightarrow> at_request \<Rightarrow> 'w at_engine \<Rightarrow> esp_err \<times> 'w at_engine" where
  "send_command tr request e =
     (if (case tr_is_ready tr of None \<Rightarrow> False | Some ready \<Rightarrow> \<not> ready (en_wire e)) then (ESP_ERR_INVALID_STATE, e)
      else let (err, wire) = tr_write tr (en_wire e) (command_octets request) (write_timeout tr)
           in (err, e\<lparr>en_wire := wire\<rparr>))"

section \<open>Other tasks\<close>

function at_engine_feed_rx :: "string \<Rightarrow> 'w at_engine \<Rightarrow> 'w at_engine" where
  "at_engine_feed_rx data e =
     (if \<not> en_initialized e \<or> data = [] then e
      else let chunk = (if length data > AT_RX_CHUNK_SIZE then AT_RX_CHUNK_SIZE else length data)
           in if length (en_rx_queue e) < AT_RX_QUEUE_DEPTH
              then at_engine_feed_rx (drop chunk data)
                     (e\<lparr>en_rx_queue := en_rx_queue e @ [RX_EVENT_DATA (take chunk data)]\<rparr>)
              else diag (\<lambda>d. d\<lparr>rx_overflows := rx_overflows d + 1\<rparr>)
                     (e\<lparr>en_rx_overflow_epoch := en_rx_overflow_epoch e + 1\<rparr>))"
  by pat_completeness auto
termination
  by (relation "measure (\<lambda>(data, e). length data)") (auto simp: AT_RX_CHUNK_SIZE_def)

definition at_engine_notify_transport_lost :: "'w at_engine \<Rightarrow> 'w at_engine" where
  "at_engine_notify_transport_lost e =
     (if \<not> en_initialized e then e
      else let e = e\<lparr>en_transport_lost_epoch := en_transport_lost_epoch e + 1\<rparr>
           in if length (en_rx_queue e) < AT_RX_QUEUE_DEPTH
              then e\<lparr>en_rx_queue := RX_EVENT_TRANSPORT_LOST # en_rx_queue e\<rparr> else e)"

definition at_engine_cancel_current :: "'w at_engine \<Rightarrow> esp_err \<times> 'w at_engine" where
  "at_engine_cancel_current e =
     (if \<not> en_initialized e then (ESP_ERR_INVALID_STATE, e)
      else let e = e\<lparr>en_cancel_epoch := en_cancel_epoch e + 1\<rparr>
           in if length (en_rx_queue e) < AT_RX_QUEUE_DEPTH
              then (ESP_OK, e\<lparr>en_rx_queue := RX_EVENT_CANCEL # en_rx_queue e\<rparr>)
              else (ESP_ERR_NO_MEM, e))"

text \<open>One turn of the dispatcher task; the line goes to the registered callback.\<close>

definition urc_dispatch :: "'w at_engine \<Rightarrow> string option \<times> 'w at_engine" where
  "urc_dispatch e =
     (case en_urc_queue e of
        [] \<Rightarrow> (None, e)
      | line # rest \<Rightarrow>
          let e = e\<lparr>en_urc_queue := rest\<rparr>
          in if en_urc_callback e
             then (Some line, diag (\<lambda>d. d\<lparr>urcs_dispatched := urcs_dispatched d + 1\<rparr>) e)
             else (None, e))"

datatype env_action = EnvRx string | EnvLost | EnvCancel | EnvDispatch

fun env_step :: "env_action \<Rightarrow> 'w at_engine \<Rightarrow> 'w at_engine" where
  "env_step (EnvRx data) e = at_engine_feed_rx data e"
| "env_step EnvLost e = at_engine_notify_transport_lost e"
| "env_step EnvCancel e = snd (at_engine_cancel_current e)"
| "env_step EnvDispatch e = snd (urc_dispatch e)"

text \<open>
  One turn of the waiting loop: what the other tasks do before the checks, the clock at the
  deadline check, and what they do while the worker waits in \<open>xQueueReceive\<close>.
\<close>

record poll =
  poll_before :: "env_action list"
  poll_now_us :: int
  poll_during :: "env_action list"

section \<open>Executing a request\<close>

definition idle_event :: "'w at_transport \<Rightarrow> rx_event \<Rightarrow> 'w at_engine \<times> at_parser \<Rightarrow> 'w at_engine \<times> at_parser" where
  "idle_event tr event = (\<lambda>(e, parser).
     case event of
       RX_EVENT_DATA data \<Rightarrow>
         (if length data > 0
          then let ((e, _), parser) = at_parser_feed (Some (process_token tr)) data ((e, None), parser)
               in (e, parser)
          else (e, parser))
     | RX_EVENT_TRANSPORT_LOST \<Rightarrow> (e, at_parser_reset)
     | RX_EVENT_CANCEL \<Rightarrow> (e, at_parser_reset))"

text \<open>The whole receive queue, as it is when the drain starts.\<close>

definition process_idle_rx :: "'w at_transport \<Rightarrow> 'w at_engine \<times> at_parser \<Rightarrow> 'w at_engine \<times> at_parser" where
  "process_idle_rx tr = (\<lambda>(e, parser).
     fold (idle_event tr) (en_rx_queue e) (e\<lparr>en_rx_queue := []\<rparr>, parser))"

text \<open>The loop of \<open>execute_attempt\<close>; the result comes with the unused rest of the script.\<close>

fun attempt_loop ::
  "'w at_transport \<Rightarrow> u32 \<Rightarrow> u32 \<Rightarrow> u32 \<Rightarrow> int \<Rightarrow> poll list \<Rightarrow> 'w at_engine \<Rightarrow> transaction_ctx \<Rightarrow> at_parser \<Rightarrow>
   (at_result \<times> 'w at_engine \<times> transaction_ctx \<times> at_parser \<times> poll list) option"
where
  "attempt_loop tr overflow_epoch lost_epoch cancel_epoch deadline_us [] e tx parser =
     (if tx_done tx then Some (rs_result (tx_response tx), e, tx, parser, []) else None)"
| "attempt_loop tr overflow_epoch lost_epoch cancel_epoch deadline_us (p # ps) e tx parser =
     (if tx_done tx then Some (rs_result (tx_response tx), e, tx, parser, p # ps)
      else
        let e = fold env_step (poll_before p) e in
        if en_rx_overflow_epoch e \<noteq> overflow_epoch then Some (AT_RESULT_RX_OVERFLOW, e, tx, parser, ps)
        else if en_transport_lost_epoch e \<noteq> lost_epoch
        then Some (AT_RESULT_TRANSPORT_ERROR, diag (\<lambda>d. d\<lparr>transport_errors := transport_errors d + 1\<rparr>) e, tx, parser, ps)
        else if en_cancel_epoch e \<noteq> cancel_epoch
        then Some (AT_RESULT_CANCELED, diag (\<lambda>d. d\<lparr>cancellations := cancellations d + 1\<rparr>) e, tx, parser, ps)
        else if deadline_us - poll_now_us p \<le> 0
        then Some (AT_RESULT_TIMEOUT, diag (\<lambda>d. d\<lparr>timeouts := timeouts d + 1\<rparr>) e, tx, parser, ps)
        else
          let e = fold env_step (poll_during p) e in
          case en_rx_queue e of
            [] \<Rightarrow> attempt_loop tr overflow_epoch lost_epoch cancel_epoch deadline_us ps e tx parser
          | event # queue \<Rightarrow>
              let e = e\<lparr>en_rx_queue := queue\<rparr> in
              case event of
                RX_EVENT_DATA data \<Rightarrow>
                  (if length data > 0
                   then let ((e, tx'), parser) = at_parser_feed (Some (process_token tr)) data ((e, Some tx), parser)
                        in attempt_loop tr overflow_epoch lost_epoch cancel_epoch deadline_us ps e (the tx') parser
                   else attempt_loop tr overflow_epoch lost_epoch cancel_epoch deadline_us ps e tx parser)
              | RX_EVENT_TRANSPORT_LOST \<Rightarrow>
                  Some (AT_RESULT_TRANSPORT_ERROR, diag (\<lambda>d. d\<lparr>transport_errors := transport_errors d + 1\<rparr>) e, tx, parser, ps)
              | RX_EVENT_CANCEL \<Rightarrow>
                  Some (AT_RESULT_CANCELED, diag (\<lambda>d. d\<lparr>cancellations := cancellations d + 1\<rparr>) e, tx, parser, ps))"

definition execute_attempt ::
  "'w at_transport \<Rightarrow> at_request \<Rightarrow> int \<Rightarrow> poll list \<Rightarrow> 'w at_engine \<Rightarrow> at_response \<Rightarrow> at_parser \<Rightarrow>
   (at_result \<times> 'w at_engine \<times> at_response \<times> at_parser \<times> poll list) option"
where
  "execute_attempt tr request now_us ps e response parser =
     (let overflow_epoch = en_rx_overflow_epoch e;
          lost_epoch = en_transport_lost_epoch e;
          cancel_epoch = en_cancel_epoch e;
          (write_err, e) = send_command tr request e
      in if write_err \<noteq> ESP_OK
         then Some (if write_err = ESP_ERR_INVALID_STATE then AT_RESULT_TRANSPORT_UNAVAILABLE else AT_RESULT_TRANSPORT_ERROR,
                    diag (\<lambda>d. d\<lparr>transport_errors := transport_errors d + 1\<rparr>) e, response, parser, ps)
         else
           let transaction = \<lparr>tx_request = request, tx_response = response, tx_done = False,
                              tx_payload_sent = False, tx_router = at_router_init\<rparr>;
               parser = at_parser_set_prompt_enabled (rq_wait_for_prompt request) parser;
               timeout_ms = (if rq_timeout_ms request \<noteq> 0 then rq_timeout_ms request else AT_DEFAULT_TIMEOUT_MS);
               deadline_us = now_us + int (unat timeout_ms) * 1000
           in do { (result, e, tx, parser, ps) \<leftarrow>
                     attempt_loop tr overflow_epoch lost_epoch cancel_epoch deadline_us ps e transaction parser;
                   Some (result, e, tx_response tx, parser, ps) })"

text \<open>\<open>clock\<close> gives the reading of the timer at the start of each attempt.\<close>

function request_loop ::
  "'w at_transport \<Rightarrow> at_request \<Rightarrow> (u8 \<Rightarrow> int) \<Rightarrow> u8 \<Rightarrow> u8 \<Rightarrow> poll list \<Rightarrow> 'w at_engine \<Rightarrow> at_response \<Rightarrow> at_parser \<Rightarrow>
   (at_response \<times> 'w at_engine \<times> at_parser \<times> poll list) option"
where
  "request_loop tr request clock max_attempts attempt ps e response parser =
     (if attempt \<le> max_attempts then
        do { (result, e, response, parser, ps) \<leftarrow>
               execute_attempt tr request (clock attempt) ps e (response_reset\<lparr>rs_attempts := attempt\<rparr>) parser;
             let parser = at_parser_set_prompt_enabled False parser;
             let response = response\<lparr>rs_result := result\<rparr>;
             let parser = (if result \<noteq> AT_RESULT_OK then at_parser_reset else parser);
             if result = AT_RESULT_OK \<or> \<not> should_retry result (rq_retry_policy request) \<or> attempt = max_attempts
             then Some (response, e, parser, ps)
             else
               let e = diag (\<lambda>d. d\<lparr>commands_retried := commands_retried d + 1\<rparr>) e;
                   (e, parser) = process_idle_rx tr (e, at_parser_reset);
                   (e, parser, ps) =
                     (if rq_retry_delay_ms request > 0
                      then let (e, ps) = (case ps of [] \<Rightarrow> (e, []) | q # qs \<Rightarrow> (fold env_step (poll_before q) e, qs));
                               (e, parser) = process_idle_rx tr (e, parser)
                           in (e, parser, ps)
                      else (e, parser, ps))
               in request_loop tr request clock max_attempts (attempt + 1) ps e response parser }
      else Some (response, e, parser, ps))"
  by pat_completeness auto
termination
proof (relation "measure (\<lambda>(tr, request, clock, max_attempts, attempt, ps, e, response, parser). unat max_attempts - unat attempt)",
    goal_cases)
  case (2 tr request clock max_attempts attempt)
  then have "attempt < max_attempts" by (auto simp: order_less_le)
  then have lt: "unat attempt < unat max_attempts" by (simp add: word_less_nat_alt)
  then have "unat attempt + unat (1 :: u8) < 2 ^ LENGTH(8)"
    using unsigned_less [of max_attempts, where 'a = nat] by simp
  then have "unat (attempt + 1) = unat attempt + 1" using unat_add_lem [of attempt 1] by simp
  with lt show ?case by simp
qed simp

definition execute_request ::
  "'w at_transport \<Rightarrow> at_request \<Rightarrow> (u8 \<Rightarrow> int) \<Rightarrow> poll list \<Rightarrow> 'w at_engine \<Rightarrow> at_parser \<Rightarrow>
   (at_response \<times> 'w at_engine \<times> at_parser \<times> poll list) option"
where
  "execute_request tr request clock ps e parser =
     (let (e, parser) = process_idle_rx tr (e, parser);
          max_attempts = (if rq_max_attempts request = 0 then 1 else rq_max_attempts request)
      in do { (response, e, parser, ps) \<leftarrow> request_loop tr request clock max_attempts 1 ps e response_reset parser;
              Some (response, diag (\<lambda>d. d\<lparr>commands_completed := commands_completed d + 1\<rparr>) e, parser, ps) })"

text \<open>
  A call of \<open>at_engine_execute\<close>: the caller queues the request and blocks until the worker, which
  takes one request at a time, has executed it. \<open>Inl\<close> is an error return without a response.
\<close>

definition at_engine_execute ::
  "'w at_transport \<Rightarrow> at_request \<Rightarrow> (u8 \<Rightarrow> int) \<Rightarrow> poll list \<Rightarrow> 'w at_engine \<Rightarrow> at_parser \<Rightarrow>
   (esp_err + at_response \<times> 'w at_engine \<times> at_parser \<times> poll list) option"
where
  "at_engine_execute tr request clock ps e parser =
     (if \<not> en_initialized e then Some (Inl ESP_ERR_INVALID_STATE)
      else if \<not> valid_request request then Some (Inl ESP_ERR_INVALID_ARG)
      else map_option Inr
             (execute_request tr request clock ps
                (diag (\<lambda>d. d\<lparr>commands_submitted := commands_submitted d + 1\<rparr>) e) parser))"

text \<open>The idle branch of the worker task.\<close>

definition worker_idle :: "'w at_transport \<Rightarrow> 'w at_engine \<times> at_parser \<Rightarrow> 'w at_engine \<times> at_parser" where
  "worker_idle tr = (\<lambda>(e, parser).
     case en_rx_queue e of
       [] \<Rightarrow> (e, parser)
     | event # queue \<Rightarrow>
         (case event of
            RX_EVENT_DATA data \<Rightarrow>
              (if length data > 0 then idle_event tr event (e\<lparr>en_rx_queue := queue\<rparr>, parser)
               else (e\<lparr>en_rx_queue := queue\<rparr>, at_parser_reset))
          | _ \<Rightarrow> (e\<lparr>en_rx_queue := queue\<rparr>, at_parser_reset)))"

definition no_diagnostics :: at_engine_diagnostics where
  "no_diagnostics = \<lparr>commands_submitted = 0, commands_completed = 0, commands_retried = 0, timeouts = 0,
     cancellations = 0, transport_errors = 0, rx_overflows = 0, parser_overflows = 0, urcs_dispatched = 0,
     urcs_dropped = 0\<rparr>"

definition cleanup_failed_init :: "'w at_engine \<Rightarrow> 'w at_engine" where
  "cleanup_failed_init e =
     e\<lparr>en_initialized := False, en_rx_queue := [], en_urc_queue := [], en_urc_callback := False,
       en_diagnostics := no_diagnostics, en_rx_overflow_epoch := 0, en_transport_lost_epoch := 0, en_cancel_epoch := 0\<rparr>"

text \<open>\<open>resources_ok\<close>: the queues and tasks could be created.\<close>

definition at_engine_init :: "bool \<Rightarrow> 'w \<Rightarrow> 'w at_engine \<Rightarrow> esp_err \<times> 'w at_engine" where
  "at_engine_init resources_ok wire e =
     (if en_initialized e then (ESP_ERR_INVALID_STATE, e)
      else if \<not> resources_ok then (ESP_ERR_NO_MEM, cleanup_failed_init e)
      else (ESP_OK,
        \<lparr>en_initialized = True, en_wire = wire, en_rx_queue = [], en_urc_queue = [], en_urc_callback = False,
         en_diagnostics = no_diagnostics, en_rx_overflow_epoch = 0, en_transport_lost_epoch = 0, en_cancel_epoch = 0\<rparr>))"

definition at_engine_set_urc_callback :: "bool \<Rightarrow> 'w at_engine \<Rightarrow> esp_err \<times> 'w at_engine" where
  "at_engine_set_urc_callback callback e =
     (if \<not> en_initialized e then (ESP_ERR_INVALID_STATE, e) else (ESP_OK, e\<lparr>en_urc_callback := callback\<rparr>))"

definition at_engine_result_name :: "at_result \<Rightarrow> string" where
  "at_engine_result_name result =
     (case result of
        AT_RESULT_OK \<Rightarrow> ''ok''
      | AT_RESULT_ERROR \<Rightarrow> ''error''
      | AT_RESULT_CME_ERROR \<Rightarrow> ''cme_error''
      | AT_RESULT_CMS_ERROR \<Rightarrow> ''cms_error''
      | AT_RESULT_TIMEOUT \<Rightarrow> ''timeout''
      | AT_RESULT_CANCELED \<Rightarrow> ''canceled''
      | AT_RESULT_TRANSPORT_UNAVAILABLE \<Rightarrow> ''transport_unavailable''
      | AT_RESULT_TRANSPORT_ERROR \<Rightarrow> ''transport_error''
      | AT_RESULT_RX_OVERFLOW \<Rightarrow> ''rx_overflow''
      | AT_RESULT_PROTOCOL_ERROR \<Rightarrow> ''protocol_error'')"

text \<open>
  The lines of a response, as the loops of the clients read them, and a loop that stops at the first
  line with a result.
\<close>

definition response_lines :: "at_response \<Rightarrow> string option list" where
  "response_lines response = map (at_response_line response) [0..<length (rs_line_offsets response)]"

fun first_some :: "('a \<Rightarrow> 'b option) \<Rightarrow> 'a list \<Rightarrow> 'b option" where
  "first_some f [] = None"
| "first_some f (x # xs) = (case f x of Some y \<Rightarrow> Some y | None \<Rightarrow> first_some f xs)"

declare at_engine_feed_rx.simps [simp del] request_loop.simps [simp del] attempt_loop.simps [simp del]

end
