(* ===== verification/At_Transactions.thy ===== *)
theory At_Transactions
  imports At_Engine
begin

text \<open>
  Properties of the AT engine: captured response lines, routing of unsolicited lines, what a
  transaction writes to the modem and when it succeeds, retries, and bounds of the queues. The
  locale \<open>attempt_invariant\<close> carries an invariant of a transaction through the waiting loop,
  whatever the other tasks do meanwhile.
\<close>

section \<open>Captured lines\<close>

definition joined :: "string list \<Rightarrow> string" where
  "joined ls = concat (map (\<lambda>l. l @ [NUL]) ls)"

text \<open>\<open>rs\<close> holds exactly the lines \<open>ls\<close>, within the bounds of its arrays.\<close>

definition captured :: "at_response \<Rightarrow> string list \<Rightarrow> bool" where
  "captured rs ls \<longleftrightarrow>
     rs_data rs = joined ls \<and> rs_line_offsets rs = map (\<lambda>i. word_of_nat (length (joined (take i ls)))) [0..<length ls] \<and>
     length ls \<le> AT_ENGINE_MAX_RESPONSE_LINES \<and> length (joined ls) \<le> AT_ENGINE_MAX_RESPONSE_BYTES \<and>
     (\<forall>l \<in> set ls. cstring l) \<and> length (rs_final_line rs) < AT_ENGINE_MAX_FINAL_LENGTH"

lemma joined_simps [simp]: "joined [] = []" "joined (l # ls) = l @ NUL # joined ls" "joined (ls @ ms) = joined ls @ joined ms"
  by (simp_all add: joined_def)

lemma captured_reset: "captured (response_reset\<lparr>rs_attempts := k\<rparr>) []"
  by (simp add: captured_def response_reset_def AT_ENGINE_MAX_FINAL_LENGTH_def)

lemma capture_line_ok:
  assumes "captured rs ls" and "cstring l"
  shows "captured (response_capture_line rs l)
    (if length ls < AT_ENGINE_MAX_RESPONSE_LINES \<and> length (joined (ls @ [l])) \<le> AT_ENGINE_MAX_RESPONSE_BYTES then ls @ [l] else ls)"
  using assms by (auto simp: captured_def response_capture_line_def Let_def)

lemma capture_final_ok: "captured rs ls \<Longrightarrow> captured (response_capture_final rs l) ls"
  by (simp add: captured_def response_capture_final_def Let_def AT_ENGINE_MAX_FINAL_LENGTH_def min_def bounded_strlen_def)

lemma joined_drop: "i < length ls \<Longrightarrow> drop (length (joined (take i ls))) (joined ls) = ls ! i @ NUL # joined (drop (Suc i) ls)"
proof -
  assume i: "i < length ls"
  then have "joined ls = joined (take i ls) @ joined (drop i ls)" by (metis append_take_drop_id joined_simps(3))
  moreover have "joined (drop i ls) = ls ! i @ NUL # joined (drop (Suc i) ls)"
    using i by (metis Cons_nth_drop_Suc joined_simps(2))
  ultimately show ?thesis by simp
qed

lemma response_line_captured:
  assumes "captured rs ls"
  shows "at_response_line rs i = (if i < length ls then Some (ls ! i) else None)"
proof (cases "i < length ls")
  case True
  let ?o = "length (joined (take i ls))"
  note d = joined_drop [OF True]
  have lt: "?o < length (joined ls)" using d by (metis drop_eq_Nil append_is_Nil_conv list.distinct(1) not_le)
  have le: "length (joined ls) \<le> 2048" using assms by (simp add: captured_def AT_ENGINE_MAX_RESPONSE_BYTES_def)
  have u: "unat (word_of_nat ?o :: u16) = ?o" using lt le by (simp add: unat_of_nat)
  have "\<And>c. c \<in> set (ls ! i) \<Longrightarrow> c \<noteq> NUL" using assms True by (auto simp: captured_def cstring_def)
  then have "cstr_view (ls ! i @ NUL # joined (drop (Suc i) ls)) = ls ! i"
    unfolding cstr_view_def by (subst takeWhile_append2) auto
  then show ?thesis
    using assms True u lt le d by (simp add: at_response_line_def captured_def Let_def AT_ENGINE_MAX_RESPONSE_BYTES_def)
next
  case False
  then show ?thesis using assms by (simp add: at_response_line_def captured_def)
qed

section \<open>The engine's callback\<close>

lemma process_token_parser:
  "process_token tr t (u, p) = (u', p') \<Longrightarrow>
   p' = (if t = AT_TOKEN_PROMPT \<and> (\<exists>tx. snd u = Some tx \<and> rq_wait_for_prompt (tx_request tx))
         then at_parser_set_prompt_enabled False p else p)"
  by (cases u) (auto simp: process_token_def Let_def split: at_token.splits option.splits prod.splits if_splits)

lemma set_prompt_simps [simp]:
  "line_buf (at_parser_set_prompt_enabled b p) = line_buf p"
  "discarding_overflow (at_parser_set_prompt_enabled b p) = discarding_overflow p"
  "prompt_enabled (at_parser_set_prompt_enabled b p) = b"
  by (simp_all add: at_parser_set_prompt_enabled_def Let_def)

text \<open>The effect of a token on the engine and the transaction when the prompt is disabled.\<close>

definition consume_token :: "'w at_transport \<Rightarrow> at_token \<Rightarrow> 'w at_engine \<times> transaction_ctx option \<Rightarrow> 'w at_engine \<times> transaction_ctx option" where
  "consume_token tr t u = fst (process_token tr t (u, at_parser_init))"

lemma process_token_consume:
  "t \<noteq> AT_TOKEN_PROMPT \<Longrightarrow> process_token tr t (u, p) = (consume_token tr t u, p)"
  by (cases u) (auto simp: process_token_def consume_token_def Let_def split: at_token.splits option.splits prod.splits)

interpretation engine_callback: token_handler "process_token tr" "consume_token tr" for tr
  by unfold_locales (auto dest: process_token_parser simp: process_token_consume)

section \<open>Invariants of a transaction\<close>

text \<open>
  A property \<open>I\<close> of the transport state, the transaction and the parser's prompt flag that every
  token keeps holds throughout an attempt, whatever the other tasks do.
\<close>

locale attempt_invariant =
  fixes tr :: "'w at_transport" and I :: "'w \<Rightarrow> transaction_ctx \<Rightarrow> bool \<Rightarrow> bool"
  assumes line: "I w tx b \<Longrightarrow> \<not> tx_done tx \<Longrightarrow> cstring l \<Longrightarrow> I w (snd (process_line l (e :: 'w at_engine, tx))) b"
    and overflow: "I w tx b \<Longrightarrow>
      I w (tx\<lparr>tx_response := (tx_response tx)\<lparr>rs_result := AT_RESULT_PROTOCOL_ERROR, rs_truncated := True\<rparr>, tx_done := True\<rparr>) b"
    and prompt: "I w tx True \<Longrightarrow> rq_wait_for_prompt (tx_request tx) \<Longrightarrow>
      tr_write tr w (prompt_payload (tx_request tx)) (write_timeout tr) = (err, w') \<Longrightarrow>
      I w' (if err \<noteq> ESP_OK
            then tx\<lparr>tx_response := (tx_response tx)\<lparr>rs_result := AT_RESULT_TRANSPORT_ERROR\<rparr>, tx_done := True\<rparr>
            else tx\<lparr>tx_payload_sent := True\<rparr>) False"
begin

lemma queue_urc_wire [simp]: "en_wire (queue_urc l e) = en_wire e"
  by (simp add: queue_urc_def)

lemma process_line_wire: "en_wire (fst (process_line l (e, tx))) = en_wire e"
  by (auto simp: process_line_def Let_def split: prod.splits)

lemma token:
  assumes "I (en_wire e) tx (prompt_enabled p)" and "t = AT_TOKEN_PROMPT \<longrightarrow> prompt_enabled p"
  shows "\<exists>e' tx' p'. process_token tr t ((e, Some tx), p) = ((e', Some tx'), p') \<and> I (en_wire e') tx' (prompt_enabled p')"
proof (cases t)
  case (AT_TOKEN_LINE x)
  then show ?thesis
    using assms(1) line [OF assms(1), of "cstr_view x" e] process_line_wire [of "cstr_view x" e tx]
    by (auto simp: process_token_def Let_def split: prod.splits)
next
  case AT_TOKEN_PROMPT
  then show ?thesis
    using assms prompt [of "en_wire e" tx]
    by (auto simp: process_token_def Let_def split: prod.splits)
next
  case AT_TOKEN_LINE_OVERFLOW
  then show ?thesis using overflow [OF assms(1)] by (simp add: process_token_def)
qed

lemma feed_char:
  assumes "I (en_wire e) tx (prompt_enabled p)"
  shows "\<exists>e' tx' p'. feed_char (Some (process_token tr)) c ((e, Some tx), p) = ((e', Some tx'), p') \<and> I (en_wire e') tx' (prompt_enabled p')"
proof -
  have tok: "\<exists>e' tx' p'. process_token tr t ((e, Some tx), q) = ((e', Some tx'), p') \<and> I (en_wire e') tx' (prompt_enabled p')"
    if "prompt_enabled q = prompt_enabled p" "t = AT_TOKEN_PROMPT \<longrightarrow> prompt_enabled p" for q t
    using token [of e tx q t] assms that by simp
  define q where "q = (if skip_prompt_space p then p\<lparr>skip_prompt_space := False\<rparr> else p)"
  have q: "prompt_enabled q = prompt_enabled p" by (simp add: q_def)
  note unfold = feed_char_def Let_def q_def [symmetric] call_back_def
  consider (skip) "skip_prompt_space p \<and> c = CHR '' ''"
    | (ovf) "\<not> (skip_prompt_space p \<and> c = CHR '' '')" "discarding_overflow q" "c = CR \<or> c = LF"
    | (emit) "\<not> (skip_prompt_space p \<and> c = CHR '' '')" "\<not> discarding_overflow q" "c = CR \<or> c = LF" "line_buf q \<noteq> []"
    | (prompt) "\<not> (skip_prompt_space p \<and> c = CHR '' '')" "\<not> discarding_overflow q" "\<not> (c = CR \<or> c = LF)"
        "prompt_enabled q \<and> c = CHR ''>'' \<and> line_buf q = []"
    | (discard) "\<not> (skip_prompt_space p \<and> c = CHR '' '')" "discarding_overflow q" "\<not> (c = CR \<or> c = LF)"
    | (empty) "\<not> (skip_prompt_space p \<and> c = CHR '' '')" "\<not> discarding_overflow q" "c = CR \<or> c = LF" "line_buf q = []"
    | (add) "\<not> (skip_prompt_space p \<and> c = CHR '' '')" "\<not> discarding_overflow q" "\<not> (c = CR \<or> c = LF)"
        "\<not> (prompt_enabled q \<and> c = CHR ''>'' \<and> line_buf q = [])"
    by blast
  then show ?thesis
  proof cases
    case skip
    then show ?thesis using assms q by (simp add: unfold)
  next
    case ovf
    then show ?thesis using tok [of "q\<lparr>discarding_overflow := False, line_buf := []\<rparr>" AT_TOKEN_LINE_OVERFLOW] q
      by (auto simp: unfold)
  next
    case emit
    then show ?thesis using tok [of q "AT_TOKEN_LINE (line_buf q)"] q by (auto simp: unfold emit_line_def)
  next
    case prompt
    then show ?thesis using tok [of q AT_TOKEN_PROMPT] q by (auto simp: unfold)
  next
    case discard
    then show ?thesis using assms q by (auto simp: unfold)
  next
    case empty
    then show ?thesis using assms q by (auto simp: unfold emit_line_def)
  next
    case add
    then show ?thesis using assms q by (auto simp: unfold)
  qed
qed

lemma feed:
  "I (en_wire e) tx (prompt_enabled p) \<Longrightarrow>
   \<exists>e' tx' p'. at_parser_feed (Some (process_token tr)) data ((e, Some tx), p) = ((e', Some tx'), p') \<and>
     I (en_wire e') tx' (prompt_enabled p')"
proof (induction data arbitrary: e tx p)
  case Nil
  then show ?case by (simp add: at_parser_feed_def)
next
  case (Cons c cs)
  from feed_char [OF Cons.prems, of c] Cons.IH show ?case by (fastforce simp: at_parser_feed_def)
qed

lemma env_wire: "en_wire (fold env_step as e) = en_wire e"
proof (induction as arbitrary: e)
  case (Cons a as)
  have "en_wire (at_engine_feed_rx d e) = en_wire e" for d
    by (induction d e rule: at_engine_feed_rx.induct) (subst at_engine_feed_rx.simps, simp add: Let_def)
  then have "en_wire (env_step a e) = en_wire e"
    by (cases a) (simp_all add: at_engine_notify_transport_lost_def at_engine_cancel_current_def urc_dispatch_def Let_def split: list.splits)
  with Cons show ?case by simp
qed simp

lemma loop:
  "attempt_loop tr oe le ce dl ps e tx p = Some (r, e', tx', p', ps') \<Longrightarrow> I (en_wire e) tx (prompt_enabled p) \<Longrightarrow>
   I (en_wire e') tx' (prompt_enabled p') \<and> (r = AT_RESULT_OK \<longrightarrow> tx_done tx' \<and> rs_result (tx_response tx') = AT_RESULT_OK)"
proof (induction ps arbitrary: e tx p)
  case Nil
  then show ?case by (auto simp: attempt_loop.simps split: if_splits)
next
  case step: (Cons q ps)
  let ?e = "fold env_step (poll_during q) (fold env_step (poll_before q) e)"
  note w = env_wire
  show ?case
  proof (cases "tx_done tx")
    case True
    then show ?thesis using step.prems by (auto simp: attempt_loop.simps)
  next
    case False
    from feed [of "?e\<lparr>en_rx_queue := xs\<rparr>" tx p for xs] step.prems(2)
    have f: "\<exists>e' tx' p'. at_parser_feed (Some (process_token tr)) d ((?e\<lparr>en_rx_queue := xs\<rparr>, Some tx), p) = ((e', Some tx'), p') \<and>
      I (en_wire e') tx' (prompt_enabled p')" for xs d by (simp add: w)
    define e1 where "e1 = fold env_step (poll_before q) e"
    define e2 where "e2 = fold env_step (poll_during q) e1"
    have w12: "en_wire e1 = en_wire e" "en_wire e2 = en_wire e" by (simp_all add: e1_def e2_def w)
    note u = step.prems(1) [unfolded attempt_loop.simps Let_def, folded e1_def, folded e2_def]
    consider (stop) "en_rx_overflow_epoch e1 \<noteq> oe \<or> en_transport_lost_epoch e1 \<noteq> le \<or> en_cancel_epoch e1 \<noteq> ce \<or> dl - poll_now_us q \<le> 0"
      | (go) "en_rx_overflow_epoch e1 = oe" "en_transport_lost_epoch e1 = le" "en_cancel_epoch e1 = ce" "\<not> dl - poll_now_us q \<le> 0"
      by blast
    then show ?thesis
    proof cases
      case stop
      then show ?thesis using u False step.prems(2) w12 by (auto split: if_splits)
    next
      case go
      show ?thesis
      proof (cases "en_rx_queue e2")
        case Nil
        then show ?thesis using u go False step.prems(2) w12 step.IH [of e2 tx p] by simp
      next
        case (Cons ev xs)
        show ?thesis
        proof (cases ev)
          case (RX_EVENT_DATA d)
          from f [of d xs] obtain e3 tx3 p3
            where "at_parser_feed (Some (process_token tr)) d ((e2\<lparr>en_rx_queue := xs\<rparr>, Some tx), p) = ((e3, Some tx3), p3)"
              "I (en_wire e3) tx3 (prompt_enabled p3)" unfolding e2_def e1_def by blast
          then show ?thesis
            using u go False Cons RX_EVENT_DATA step.prems(2) w12 step.IH [of e3 tx3 p3] step.IH [of "e2\<lparr>en_rx_queue := xs\<rparr>" tx p]
            by (cases "d = []") simp_all
        qed (use u go False Cons step.prems(2) w12 in auto)
      qed
    qed
  qed
qed
end

section \<open>What an attempt writes\<close>

text \<open>
  A transport that records what is written: \<open>answer\<close> decides which writes succeed, \<open>ready\<close> whether
  the modem is there.
\<close>

definition log_transport :: "(u8 list list \<Rightarrow> u8 list \<Rightarrow> esp_err) \<Rightarrow> (u8 list list \<Rightarrow> bool) option \<Rightarrow> u32 \<Rightarrow> (u8 list list) at_transport" where
  "log_transport answer ready timeout =
     \<lparr>tr_write = (\<lambda>log data _. (answer log data, log @ [data])), tr_is_ready = ready, tr_write_timeout_ms = timeout\<rparr>"

text \<open>
  \<open>base\<close> is the log right after the command was written; \<open>b\<close> is the parser's prompt flag.
\<close>

definition writes_inv :: "u8 \<Rightarrow> at_request \<Rightarrow> u8 list list \<Rightarrow> u8 list list \<Rightarrow> transaction_ctx \<Rightarrow> bool \<Rightarrow> bool" where
  "writes_inv k request base log tx b \<longleftrightarrow>
     tx_request tx = request \<and> rs_attempts (tx_response tx) = k \<and>
     (log = base \<and> \<not> tx_payload_sent tx \<or>
      log = base @ [prompt_payload request] \<and> rq_wait_for_prompt request \<and> \<not> b) \<and>
     (rs_result (tx_response tx) = AT_RESULT_OK \<longrightarrow>
        rs_final_line (tx_response tx) = ''OK'' \<and> (rq_wait_for_prompt request \<longrightarrow> tx_payload_sent tx))"

lemma capture_final_OK: "rs_final_line (response_capture_final rs ''OK'') = ''OK''"
  by (simp add: response_capture_final_def Let_def bounded_strlen_def cstr_view_def NUL_def AT_ENGINE_MAX_FINAL_LENGTH_def)

lemma capture_line_fields [simp]:
  "rs_result (response_capture_line rs l) = rs_result rs" "rs_final_line (response_capture_line rs l) = rs_final_line rs"
  "rs_attempts (response_capture_line rs l) = rs_attempts rs" "rs_attempts (response_capture_final rs l) = rs_attempts rs"
  by (simp_all add: response_capture_line_def response_capture_final_def Let_def)

lemma map_final_kind_OK: "map_final_kind k = AT_RESULT_OK \<longleftrightarrow> k = AT_FINAL_OK"
  by (cases k) (simp_all add: map_final_kind_def)

lemma final_status_OK: "final_kind (at_protocol_final_status l) = AT_FINAL_OK \<longleftrightarrow> l = ''OK''"
  by (simp add: at_protocol_final_status_def)

lemma process_line_writes:
  assumes "writes_inv k request base w tx b"
  shows "writes_inv k request base w (snd (process_line l (e, tx))) b"
  using assms
  by (auto simp: writes_inv_def process_line_def Let_def map_final_kind_OK final_status_OK capture_final_OK
      split: prod.splits if_splits)

interpretation attempt_writes: attempt_invariant "log_transport answer ready timeout" "writes_inv k request base"
  for answer ready timeout k request base
proof (unfold_locales, goal_cases)
  case (1 w tx b l e)
  then show ?case by (intro process_line_writes)
next
  case (2 w tx b)
  then show ?case by (auto simp: writes_inv_def)
next
  case (3 w tx err w')
  then show ?case by (auto simp: writes_inv_def log_transport_def)
qed

definition captured_inv :: "'w \<Rightarrow> transaction_ctx \<Rightarrow> bool \<Rightarrow> bool" where
  "captured_inv w tx b \<longleftrightarrow> (\<exists>ls. captured (tx_response tx) ls)"

lemma captured_update [simp]:
  "captured (rs\<lparr>rs_result := r\<rparr>) ls = captured rs ls" "captured (rs\<lparr>rs_error_code := c\<rparr>) ls = captured rs ls"
  "captured (rs\<lparr>rs_truncated := b\<rparr>) ls = captured rs ls"
  by (simp_all add: captured_def)

interpretation attempt_capture: attempt_invariant tr captured_inv for tr
proof (unfold_locales, goal_cases)
  case (1 w tx b l e)
  then obtain ls where "captured (tx_response tx) ls" by (auto simp: captured_inv_def)
  from capture_line_ok [OF this 1(3)] capture_final_ok [OF this] this show ?case
    by (fastforce simp: captured_inv_def process_line_def Let_def split: prod.splits)
qed (auto simp: captured_inv_def)

lemma attempt_outcome:
  assumes "execute_attempt (log_transport answer ready timeout) request now ps e (response_reset\<lparr>rs_attempts := k\<rparr>) p =
    Some (r, e', rs, p', ps')"
  shows "(\<exists>ls. captured rs ls) \<and> rs_attempts rs = k \<and>
    (en_wire e' = en_wire e \<and> r = AT_RESULT_TRANSPORT_UNAVAILABLE \<or>
     en_wire e' = en_wire e @ [command_octets request] \<and> (r = AT_RESULT_OK \<longrightarrow> \<not> rq_wait_for_prompt request) \<or>
     en_wire e' = en_wire e @ [command_octets request, prompt_payload request] \<and> rq_wait_for_prompt request) \<and>
    (r = AT_RESULT_OK \<longrightarrow> rs_final_line rs = ''OK'' \<and> rs_result rs = AT_RESULT_OK)"
proof -
  let ?tr = "log_transport answer ready timeout" and ?rs = "response_reset\<lparr>rs_attempts := k\<rparr>"
  obtain we e1 where s: "send_command ?tr request e = (we, e1)" by (cases "send_command ?tr request e")
  have c0: "\<exists>ls. captured ?rs ls" using captured_reset by blast
  show ?thesis
  proof (cases "we = ESP_OK")
    case False
    then have "rs = ?rs" "r = (if we = ESP_ERR_INVALID_STATE then AT_RESULT_TRANSPORT_UNAVAILABLE else AT_RESULT_TRANSPORT_ERROR)"
      "en_wire e' = en_wire e1"
      using assms s by (auto simp: execute_attempt_def Let_def)
    moreover have "en_wire e1 = en_wire e \<and> we = ESP_ERR_INVALID_STATE \<or> en_wire e1 = en_wire e @ [command_octets request]"
      using s by (auto simp: send_command_def log_transport_def split: if_splits option.splits)
    ultimately show ?thesis using c0 by auto
  next
    case True
    then have w1: "en_wire e1 = en_wire e @ [command_octets request]"
      using s by (auto simp: send_command_def log_transport_def split: if_splits option.splits)
    define tx where "tx = \<lparr>tx_request = request, tx_response = ?rs, tx_done = False, tx_payload_sent = False, tx_router = at_router_init\<rparr>"
    define q where "q = at_parser_set_prompt_enabled (rq_wait_for_prompt request) p"
    from assms s True obtain dl tx' where l: "attempt_loop ?tr (en_rx_overflow_epoch e) (en_transport_lost_epoch e) (en_cancel_epoch e) dl ps e1 tx q
        = Some (r, e', tx', p', ps')" and rs: "rs = tx_response tx'"
      by (auto simp: execute_attempt_def Let_def tx_def q_def bind_eq_Some_conv)
    have "writes_inv k request (en_wire e1) (en_wire e1) tx (prompt_enabled q)" "captured_inv (en_wire e1) tx (prompt_enabled q)"
      using c0 by (auto simp: writes_inv_def tx_def response_reset_def captured_inv_def)
    from attempt_writes.loop [OF l this(1)] attempt_capture.loop [OF l this(2)] w1 rs show ?thesis
      by (auto simp: writes_inv_def captured_inv_def)
  qed
qed

section \<open>Requests\<close>

lemma idle_token: "\<exists>e'. process_token tr t ((e, None), p) = ((e', None), p) \<and> en_wire e' = en_wire e"
  by (cases t) (auto simp: process_token_def Let_def queue_urc_def)

lemma idle_char:
  "\<exists>e' p'. feed_char (Some (process_token tr)) c ((e, None), p) = ((e', None), p') \<and> en_wire e' = en_wire e"
proof -
  have t: "\<exists>e'. process_token tr t ((e, None), q) = ((e', None), q) \<and> en_wire e' = en_wire e" for t q by (rule idle_token)
  show ?thesis
    using t [of AT_TOKEN_LINE_OVERFLOW] t [of AT_TOKEN_PROMPT] t [of "AT_TOKEN_LINE x" for x]
    by (auto simp: feed_char_def emit_line_def call_back_def Let_def split: prod.splits) (metis prod.inject)+
qed

lemma idle_feed:
  "\<exists>e' p'. at_parser_feed (Some (process_token tr)) data ((e, None), p) = ((e', None), p') \<and> en_wire e' = en_wire e"
proof (induction data arbitrary: e p)
  case (Cons c cs)
  from idle_char [of tr c e p] obtain e1 p1 where "feed_char (Some (process_token tr)) c ((e, None), p) = ((e1, None), p1)" "en_wire e1 = en_wire e" by blast
  with Cons.IH [of e1 p1] show ?case by (simp add: at_parser_feed_def)
qed (simp add: at_parser_feed_def)

lemma idle_wire: "en_wire (fst (process_idle_rx tr (e, p))) = en_wire e"
proof -
  have one: "en_wire (fst (idle_event tr ev (e, p))) = en_wire e" for ev e p
  proof (cases ev)
    case (RX_EVENT_DATA d)
    with idle_feed [of tr d e p] show ?thesis by (auto simp: idle_event_def)
  qed (simp_all add: idle_event_def)
  have "en_wire (fst (fold (idle_event tr) evs s)) = en_wire (fst s)" for evs s
    by (induction evs arbitrary: s) (auto simp: one split: prod.splits)
  then show ?thesis by (simp add: process_idle_rx_def)
qed

text \<open>The writes of one attempt: none, the command, or the command and the payload.\<close>

definition attempt_block :: "at_request \<Rightarrow> u8 list list \<Rightarrow> bool" where
  "attempt_block request b \<longleftrightarrow>
     b = [] \<or> b = [command_octets request] \<or>
     (rq_wait_for_prompt request \<and> b = [command_octets request, prompt_payload request])"

definition full_block :: "at_request \<Rightarrow> u8 list list" where
  "full_block request =
     command_octets request # (if rq_wait_for_prompt request then [prompt_payload request] else [])"

lemma attempt_blocks:
  assumes "execute_attempt (log_transport answer ready timeout) request now ps e (response_reset\<lparr>rs_attempts := k\<rparr>) p =
    Some (r, e', rs, p', ps')"
  obtains b where "en_wire e' = en_wire e @ b" "attempt_block request b" "rs_attempts rs = k" "\<exists>ls. captured rs ls"
    "r = AT_RESULT_OK \<Longrightarrow> b = full_block request \<and> rs_final_line rs = ''OK''"
  using attempt_outcome [OF assms] by (auto simp: attempt_block_def full_block_def)

lemma delay_wire:
  "(if d then let (e, ps) = (case ps of [] \<Rightarrow> (e, []) | q # qs \<Rightarrow> (fold env_step (poll_before q) e, qs));
                  (e, parser) = process_idle_rx tr (e, parser)
              in (e, parser, ps)
         else (e, parser, ps)) = (e', p', ps') \<Longrightarrow> en_wire e' = en_wire e"
proof (cases ps)
  case (Cons q qs)
  assume "(if d then let (e, ps) = (case ps of [] \<Rightarrow> (e, []) | q # qs \<Rightarrow> (fold env_step (poll_before q) e, qs));
                  (e, parser) = process_idle_rx tr (e, parser)
              in (e, parser, ps)
         else (e, parser, ps)) = (e', p', ps')"
  then show ?thesis
    using idle_wire [of tr "fold env_step (poll_before q) e" parser] attempt_capture.env_wire [of "poll_before q" e] Cons
    by (auto split: if_splits prod.splits)
qed (use idle_wire [of tr e parser] in \<open>auto split: if_splits prod.splits\<close>)

lemma request_loop_blocks:
  assumes "request_loop (log_transport answer ready timeout) request clock m a ps e rs0 p = Some (rs, e', p', ps')" and "a \<le> m"
  shows "\<exists>blocks. en_wire e' = en_wire e @ concat blocks \<and> blocks \<noteq> [] \<and>
    unat (rs_attempts rs) + 1 = unat a + length blocks \<and> rs_attempts rs \<le> m \<and> (\<forall>b \<in> set blocks. attempt_block request b) \<and>
    (rs_result rs = AT_RESULT_OK \<longrightarrow> last blocks = full_block request \<and> rs_final_line rs = ''OK'') \<and> (\<exists>ls. captured rs ls)"
  using assms
proof (induction "unat m - unat a" arbitrary: a ps e rs0 p rule: less_induct)
  case less
  let ?tr = "log_transport answer ready timeout"
  from less.prems obtain r e1 rs1 p1 ps1
    where x: "execute_attempt ?tr request (clock a) ps e (response_reset\<lparr>rs_attempts := a\<rparr>) p = Some (r, e1, rs1, p1, ps1)"
    by (subst (asm) request_loop.simps) (auto simp: bind_eq_Some_conv)
  from attempt_blocks [OF x] obtain b where b: "en_wire e1 = en_wire e @ b" "attempt_block request b" "rs_attempts rs1 = a"
    "\<exists>ls. captured rs1 ls" "r = AT_RESULT_OK \<Longrightarrow> b = full_block request \<and> rs_final_line rs1 = ''OK''" by metis
  show ?case
  proof (cases "r = AT_RESULT_OK \<or> \<not> should_retry r (rq_retry_policy request) \<or> a = m")
    case True
    then have "rs = rs1\<lparr>rs_result := r\<rparr>" "e' = e1"
      using less.prems x by (subst (asm) request_loop.simps, auto simp: Let_def)+
    with b less.prems(2) show ?thesis by (intro exI [of _ "[b]"]) auto
  next
    case False
    then have lt: "unat a < unat m" using less.prems(2) by (auto simp: word_le_nat_alt le_less unsigned_word_eqI)
    then have "unat a + unat (1 :: u8) < 2 ^ LENGTH(8)" using unsigned_less [of m, where 'a = nat] by simp
    then have a1: "unat (a + 1) = unat a + 1" using unat_add_lem [of a 1] by simp
    from less.prems(1) x False less.prems(2) obtain e2 p2 e3 p3 ps3 rs3
      where e2: "process_idle_rx ?tr (diag (\<lambda>d. d\<lparr>commands_retried := commands_retried d + 1\<rparr>) e1, at_parser_reset) = (e2, p2)"
        and e3: "(if rq_retry_delay_ms request > 0
                  then let (e, ps) = (case ps1 of [] \<Rightarrow> (e2, []) | q # qs \<Rightarrow> (fold env_step (poll_before q) e2, qs));
                           (e, parser) = process_idle_rx ?tr (e, p2) in (e, parser, ps)
                  else (e2, p2, ps1)) = (e3, p3, ps3)"
        and l: "request_loop ?tr request clock m (a + 1) ps3 e3 rs3 p3 = Some (rs, e', p', ps')"
      by (subst (asm) request_loop.simps) (auto simp: Let_def split: prod.splits)
    have w: "en_wire e3 = en_wire e1"
      using delay_wire [OF e3] idle_wire [of ?tr "diag (\<lambda>d. d\<lparr>commands_retried := commands_retried d + 1\<rparr>) e1" at_parser_reset] e2 by simp
    have le: "a + 1 \<le> m" using a1 lt by (simp add: word_le_nat_alt)
    have d: "unat m - unat (a + 1) < unat m - unat a" using a1 lt by simp
    from less.hyps [OF d l le] obtain blocks where i: "en_wire e' = en_wire e3 @ concat blocks" "blocks \<noteq> []"
      "unat (rs_attempts rs) + 1 = unat (a + 1) + length blocks" "rs_attempts rs \<le> m" "\<forall>b \<in> set blocks. attempt_block request b"
      "rs_result rs = AT_RESULT_OK \<longrightarrow> last blocks = full_block request \<and> rs_final_line rs = ''OK''" "\<exists>ls. captured rs ls" by blast
    show ?thesis
      using i b(1,2) w a1 by (intro exI [of _ "b # blocks"]) auto
  qed
qed

section \<open>Waiting ends\<close>

lemma attempt_loop_returns:
  "\<exists>q \<in> set ps. dl \<le> poll_now_us q \<Longrightarrow> \<exists>r. attempt_loop tr oe le ce dl ps e tx p = Some r"
proof (induction ps arbitrary: e tx p)
  case (Cons q ps)
  show ?case
  proof (cases "dl \<le> poll_now_us q")
    case True
    then show ?thesis by (simp add: attempt_loop.simps Let_def)
  next
    case False
    then have ih: "\<exists>r. attempt_loop tr oe le ce dl ps e tx p = Some r" for e tx p using Cons by auto
    show ?thesis using False ih
      by (simp add: attempt_loop.simps Let_def split: list.splits rx_event.splits prod.splits)
  qed
qed simp

section \<open>Unsolicited lines during a command\<close>

text \<open>A line of a modem, as it arrives: followed by CR and LF.\<close>

definition crlf :: "string \<Rightarrow> string" where
  "crlf l = l @ [CR, LF]"

definition plain_line :: "string \<Rightarrow> bool" where
  "plain_line l \<longleftrightarrow> l \<noteq> [] \<and> length l \<le> AT_PARSER_MAX_LINE_LENGTH \<and> CR \<notin> set l \<and> LF \<notin> set l \<and> NUL \<notin> set l"

lemma stream_lines_plain:
  "CR \<notin> set l \<Longrightarrow> LF \<notin> set l \<Longrightarrow> stream_lines pending (l @ rest) = stream_lines (pending @ l) rest"
  by (induction l arbitrary: pending) auto

lemma stream_tokens_crlf:
  assumes "plain_line l"
  shows "stream_tokens [] (crlf l @ rest) = AT_TOKEN_LINE l # stream_tokens [] rest"
    "snd (stream_lines [] (crlf l @ rest)) = snd (stream_lines [] rest)"
proof -
  have a: "stream_lines [] (l @ CR # LF # rest) = stream_lines l (CR # LF # rest)"
    using stream_lines_plain [of l "[]" "CR # LF # rest"] assms by (simp add: plain_line_def)
  have "CR \<noteq> LF" by (simp add: CR_def LF_def)
  then have s: "stream_lines [] (crlf l @ rest) = (l # [] # fst (stream_lines [] rest), snd (stream_lines [] rest))"
    using a by (simp add: crlf_def split: prod.splits)
  show "stream_tokens [] (crlf l @ rest) = AT_TOKEN_LINE l # stream_tokens [] rest"
    using s assms by (simp add: stream_tokens_def line_token_def plain_line_def)
  show "snd (stream_lines [] (crlf l @ rest)) = snd (stream_lines [] rest)" using s by simp
qed

lemma plain_view: "plain_line l \<Longrightarrow> cstr_view l = l"
  by (simp add: plain_line_def cstring_def)

lemma urc_header_route:
  assumes "has_prefix h ''+CMT:'' \<or> has_prefix h ''+CDS:'' \<or> has_prefix h ''+CBM:''"
    and "\<not> at_protocol_matches_any_prefix h ps" and "urc_continuation_lines router = 0"
  shows "at_router_route_line router h ps = (router\<lparr>urc_continuation_lines := 1\<rparr>, AT_ROUTE_URC)"
proof -
  have "at_protocol_is_default_urc h" unfolding at_protocol_is_default_urc_def matches_any_prefix_iff
    using assms(1) by (auto simp: DEFAULT_URC_PREFIXES_def)
  then show ?thesis
    using assms by (auto simp: at_router_route_line_def at_protocol_should_route_as_urc_def at_protocol_urc_continuation_lines_def at_protocol_has_prefix_def)
qed

lemma consume_header:
  assumes "\<not> tx_done tx" "urc_continuation_lines (tx_router tx) = 0" "plain_line h" "rq_command (tx_request tx) \<noteq> Some h"
    "has_prefix h ''+CMT:'' \<or> has_prefix h ''+CDS:'' \<or> has_prefix h ''+CBM:''"
    "\<not> at_protocol_matches_any_prefix h (expected_prefixes (tx_request tx))"
  shows "consume_token tr (AT_TOKEN_LINE h) (e, Some tx) =
    (queue_urc h e, Some (tx\<lparr>tx_router := (tx_router tx)\<lparr>urc_continuation_lines := 1\<rparr>\<rparr>))"
  using assms urc_header_route [OF assms(5,6,2)]
  by (simp add: consume_token_def process_token_def process_line_def plain_view Let_def)

lemma consume_body:
  assumes "\<not> tx_done tx" "urc_continuation_lines (tx_router tx) = 1" "plain_line b" "rq_command (tx_request tx) \<noteq> Some b"
  shows "consume_token tr (AT_TOKEN_LINE b) (e, Some tx) =
    (queue_urc b e, Some (tx\<lparr>tx_router := (tx_router tx)\<lparr>urc_continuation_lines := 0\<rparr>\<rparr>))"
  using assms
  by (simp add: consume_token_def process_token_def process_line_def plain_view at_router_route_line_def Let_def)

section \<open>Queues\<close>

definition queues_ok :: "'w at_engine \<Rightarrow> bool" where
  "queues_ok e \<longleftrightarrow> length (en_rx_queue e) \<le> AT_RX_QUEUE_DEPTH \<and> length (en_urc_queue e) \<le> AT_URC_QUEUE_DEPTH \<and>
     (\<forall>l \<in> set (en_urc_queue e). length (cstr_view l) \<le> AT_ENGINE_MAX_URC_LENGTH) \<and>
     (\<forall>d. RX_EVENT_DATA d \<in> set (en_rx_queue e) \<longrightarrow> d \<noteq> [] \<and> length d \<le> AT_RX_CHUNK_SIZE)"

lemma queue_urc_ok: "queues_ok e \<Longrightarrow> queues_ok (queue_urc l e)"
  by (auto simp: queues_ok_def queue_urc_def bounded_strlen_def min_def split: if_splits)

lemma feed_rx_ok: "queues_ok e \<Longrightarrow> queues_ok (at_engine_feed_rx d e)"
proof (induction "length d" arbitrary: d e rule: less_induct)
  case less
  define c where "c = (if length d > AT_RX_CHUNK_SIZE then AT_RX_CHUNK_SIZE else length d)"
  show ?case
  proof (cases "\<not> en_initialized e \<or> d = [] \<or> \<not> length (en_rx_queue e) < AT_RX_QUEUE_DEPTH")
    case True
    then show ?thesis
      using less.prems by (simp add: at_engine_feed_rx.simps [of d] Let_def) (auto simp: queues_ok_def)
  next
    case False
    have c: "0 < c" "c \<le> AT_RX_CHUNK_SIZE" using False by (auto simp: c_def AT_RX_CHUNK_SIZE_def)
    have "queues_ok (e\<lparr>en_rx_queue := en_rx_queue e @ [RX_EVENT_DATA (take c d)]\<rparr>)"
      using False c less.prems by (auto simp: queues_ok_def)
    then have "queues_ok (at_engine_feed_rx (drop c d) (e\<lparr>en_rx_queue := en_rx_queue e @ [RX_EVENT_DATA (take c d)]\<rparr>))"
      using c False by (intro less.hyps) auto
    then show ?thesis using False by (simp add: at_engine_feed_rx.simps [of d] Let_def flip: c_def)
  qed
qed

lemma env_step_ok: "queues_ok e \<Longrightarrow> queues_ok (env_step a e)"
proof (cases a)
  case (EnvRx d)
  then show "queues_ok e \<Longrightarrow> queues_ok (env_step a e)" by (simp add: feed_rx_ok)
qed (auto simp: at_engine_notify_transport_lost_def at_engine_cancel_current_def urc_dispatch_def queues_ok_def Let_def split: list.splits)

lemma process_line_ok: "queues_ok e \<Longrightarrow> queues_ok (fst (process_line l (e, tx)))"
  by (auto simp: process_line_def Let_def queue_urc_ok split: prod.splits)

lemma process_token_ok: "queues_ok e \<Longrightarrow> queues_ok (fst (fst (process_token tr t ((e, tx), p))))"
proof -
  assume q: "queues_ok e"
  have d: "queues_ok (diag f e)" "queues_ok (diag f (e\<lparr>en_wire := w\<rparr>))" "queues_ok (e\<lparr>en_wire := w\<rparr>)" for f w
    using q by (simp_all add: queues_ok_def)
  show ?thesis
    using q d process_line_ok [OF q]
    by (cases t) (auto simp: process_token_def Let_def queue_urc_ok split: option.splits prod.splits, metis fst_conv)
qed

section \<open>Properties\<close>

text \<open>C7: what a command writes to the modem. Whatever the modem sends and the other tasks do,
  an executed request writes at most \<open>max_attempts\<close> blocks (one for 0), each of them nothing, the
  command with its CR, or, for a prompt request, the command and then the payload once; the number
  of blocks is the reported number of attempts; a successful request ended in a complete block and
  the final line \<open>OK\<close>, so a prompt request never succeeds without its payload having been
  written; and the captured lines are exactly readable by index.\<close>

theorem request_writes:
  assumes "execute_request (log_transport answer ready timeout) request clock ps e parser = Some (rs, e', parser', ps')"
  shows "\<exists>blocks. en_wire e' = en_wire e @ concat blocks \<and>
    length blocks = unat (rs_attempts rs) \<and> 1 \<le> length blocks \<and> length blocks \<le> max 1 (unat (rq_max_attempts request)) \<and>
    list_all (attempt_block request) blocks \<and>
    (rs_result rs = AT_RESULT_OK \<longrightarrow> last blocks = full_block request \<and> rs_final_line rs = ''OK'') \<and>
    (\<exists>ls. \<forall>i. at_response_line rs i = (if i < length ls then Some (ls ! i) else None))"
proof -
  let ?tr = "log_transport answer ready timeout"
  define m where "m = (if rq_max_attempts request = 0 then 1 else rq_max_attempts request)"
  obtain e1 p1 where i: "process_idle_rx ?tr (e, parser) = (e1, p1)" by (cases "process_idle_rx ?tr (e, parser)")
  from assms i obtain e2 where l: "request_loop ?tr request clock m 1 ps e1 response_reset p1 = Some (rs, e2, parser', ps')"
    and w: "en_wire e' = en_wire e2"
    by (auto simp: execute_request_def m_def Let_def bind_eq_Some_conv)
  have w1: "en_wire e1 = en_wire e" using idle_wire [of ?tr e parser] i by simp
  have m1: "1 \<le> m" by (cases "rq_max_attempts request = 0") (auto simp: m_def word_le_nat_alt unat_gt_0 Suc_le_eq)
  from request_loop_blocks [OF l m1] obtain blocks where b: "en_wire e2 = en_wire e1 @ concat blocks" "blocks \<noteq> []"
    "unat (rs_attempts rs) + 1 = unat (1 :: u8) + length blocks" "rs_attempts rs \<le> m" "\<forall>b \<in> set blocks. attempt_block request b"
    "rs_result rs = AT_RESULT_OK \<longrightarrow> last blocks = full_block request \<and> rs_final_line rs = ''OK''" "\<exists>ls. captured rs ls" by blast
  have "unat m \<le> max 1 (unat (rq_max_attempts request))" by (simp add: m_def)
  moreover have "unat (rs_attempts rs) \<le> unat m" using b(4) by (simp add: word_le_nat_alt)
  moreover have "\<exists>ls. \<forall>i. at_response_line rs i = (if i < length ls then Some (ls ! i) else None)"
    using b(7) response_line_captured by blast
  ultimately show ?thesis
    using b w w1 by (intro exI [of _ blocks]) (auto simp: list_all_iff Suc_le_eq)
qed

text \<open>A request and a modem's answer used as examples.\<close>

definition example_request :: at_request where
  "example_request = \<lparr>rq_command = Some ''AT+CMGS=18'', rq_expected_prefixes = None, rq_expected_prefix_count = 0,
     rq_timeout_ms = 2, rq_max_attempts = 1, rq_retry_delay_ms = 0, rq_retry_policy = 0,
     rq_wait_for_prompt = True, rq_prompt_payload = Some [0x30, 0x1A], rq_prompt_payload_len = 2\<rparr>"

definition example_poll :: poll where
  "example_poll = \<lparr>poll_before = [], poll_now_us = 0, poll_during = [EnvRx (crlf [] @ ''> '' @ crlf [] @ crlf ''OK'')]\<rparr>"

definition example_engine :: "(u8 list list) at_engine" where
  "example_engine = \<lparr>en_initialized = True, en_wire = [], en_rx_queue = [], en_urc_queue = [], en_urc_callback = False,
     en_diagnostics = no_diagnostics, en_rx_overflow_epoch = 0, en_transport_lost_epoch = 0, en_cancel_epoch = 0\<rparr>"

theorem request_writes_witness:
  "\<exists>rs e' parser' ps' blocks.
     execute_request (log_transport (\<lambda>_ _. ESP_OK) None 0) example_request (\<lambda>_. 0) [example_poll] example_engine at_parser_init
       = Some (rs, e', parser', ps') \<and> rs_result rs = AT_RESULT_OK \<and>
     en_wire e' = concat blocks \<and> length blocks = 1 \<and> last blocks = full_block example_request"
proof -
  let ?x = "execute_request (log_transport (\<lambda>_ _. ESP_OK) None 0) example_request (\<lambda>_. 0) [example_poll] example_engine at_parser_init"
  have x: "(case ?x of Some (rs, _) \<Rightarrow> rs_result rs = AT_RESULT_OK \<and> rs_attempts rs = 1 | None \<Rightarrow> False)" by code_simp
  then obtain rs e' parser' ps' where r: "?x = Some (rs, e', parser', ps')" "rs_result rs = AT_RESULT_OK" "rs_attempts rs = 1"
    by (auto split: option.splits prod.splits)
  have w: "en_wire example_engine = []" by (simp add: example_engine_def)
  from request_writes [OF r(1)] obtain blocks where "en_wire e' = en_wire example_engine @ concat blocks" "length blocks = unat (rs_attempts rs)"
    "rs_result rs = AT_RESULT_OK \<longrightarrow> last blocks = full_block example_request" by blast
  with r w show ?thesis by (intro exI [of _ rs] exI [of _ e'] exI [of _ parser'] exI [of _ ps'] exI [of _ blocks]) simp
qed




definition example_transaction :: transaction_ctx where
  "example_transaction = \<lparr>tx_request = example_request, tx_response = response_reset, tx_done = False,
     tx_payload_sent = False, tx_router = at_router_init\<rparr>"


text \<open>the command echo is looked for before the router sees a line. The line that follows a
  \<open>+CMT\<close> header is lost when it equals the command being executed, and the router goes on waiting
  for it: the next line, the command's own result, is then taken for the message.\<close>

theorem echo_check_precedes_continuation:
  assumes "\<not> tx_done tx" and "urc_continuation_lines (tx_router tx) = 1"
    and "rq_command (tx_request tx) = Some command" and "plain_line command" and "command \<noteq> ''OK''"
  shows "consume_token tr (AT_TOKEN_LINE command) (e, Some tx) = (e, Some tx) \<and>
    consume_token tr (AT_TOKEN_LINE ''OK'') (e, Some tx) =
      (queue_urc ''OK'' e, Some (tx\<lparr>tx_router := (tx_router tx)\<lparr>urc_continuation_lines := 0\<rparr>\<rparr>))"
proof -
  have "plain_line ''OK''" by (simp add: plain_line_def AT_PARSER_MAX_LINE_LENGTH_def CR_def LF_def NUL_def)
  from consume_body [OF assms(1,2) this, of tr e] show ?thesis
    using assms by (simp add: consume_token_def process_token_def process_line_def plain_view Let_def)
qed

theorem echo_check_precedes_continuation_witness:
  "consume_token (log_transport (\<lambda>_ _. ESP_OK) None 0) (AT_TOKEN_LINE ''AT+CMGS=18'')
     (example_engine, Some (example_transaction\<lparr>tx_router := \<lparr>urc_continuation_lines = 1\<rparr>\<rparr>)) =
   (example_engine, Some (example_transaction\<lparr>tx_router := \<lparr>urc_continuation_lines = 1\<rparr>\<rparr>))"
proof -
  let ?tx = "example_transaction\<lparr>tx_router := \<lparr>urc_continuation_lines = 1\<rparr>\<rparr>"
  have "\<not> tx_done ?tx" "urc_continuation_lines (tx_router ?tx) = 1" "rq_command (tx_request ?tx) = Some ''AT+CMGS=18''"
    "plain_line ''AT+CMGS=18''" "''AT+CMGS=18'' \<noteq> ''OK''"
    by (simp_all add: example_transaction_def example_request_def plain_line_def AT_PARSER_MAX_LINE_LENGTH_def CR_def LF_def NUL_def)
  from echo_check_precedes_continuation [OF this] show ?thesis by blast
qed

text \<open>the queues stay within their capacities. Every step of another task and every token keep
  at most 20 received chunks of 1 to 256 octets and at most 16 unsolicited lines of at most 512
  characters.\<close>

theorem queues_bounded:
  assumes "queues_ok e"
  shows "queues_ok (env_step action e) \<and> queues_ok (fst (fst (process_token tr token ((e, transaction), parser))))"
  using env_step_ok [OF assms] process_token_ok [OF assms] by blast

theorem queues_bounded_witness:
  "queues_ok (env_step (EnvRx ''RING'') example_engine)"
proof -
  have "queues_ok example_engine" by (simp add: queues_ok_def example_engine_def)
  from queues_bounded [OF this, of "EnvRx ''RING''" "log_transport (\<lambda>_ _. ESP_OK) None 0" AT_TOKEN_PROMPT None at_parser_init]
  show ?thesis by blast
qed

end
