(* ===== verification/Nvs.thy ===== *)
theory Nvs
  imports Gateway_Prelude
begin

text \<open>
  The non-volatile storage of ESP-IDF as the sources use it. The library itself is not part of
  the repository: its calls are the fields of \<open>nvs_ops\<close>, a parameter of every definition that
  stores something, over a partition state of type \<open>'n\<close>. A blob is the value of the C struct
  that was written together with its length; reads do not change the partition; every write
  gives an error code and the partition after it.

  The locale \<open>nvs_partition\<close> states the documented behaviour the clients rely on: a successful write is
  read back, a write touches its own key only, and a failed write leaves the old value or the
  new one. \<open>flash_ops\<close> is a partition with a script of write errors; it satisfies the laws.

  The two loops over slots that the clients share (a search that stops at the first hit, and a
  scan of all slots) are here too, with the facts about the records a store holds.
\<close>

record ('n, 'b) nvs_ops =
  nvs_get_blob :: "'n \<Rightarrow> string \<Rightarrow> esp_err + nat \<times> 'b"
  nvs_set_blob :: "string \<Rightarrow> nat \<times> 'b \<Rightarrow> 'n \<Rightarrow> esp_err \<times> 'n"
  nvs_erase_key :: "string \<Rightarrow> 'n \<Rightarrow> esp_err \<times> 'n"
  nvs_commit :: "'n \<Rightarrow> esp_err \<times> 'n"
  nvs_get_u32 :: "'n \<Rightarrow> string \<Rightarrow> esp_err + u32"
  nvs_set_u32 :: "string \<Rightarrow> u32 \<Rightarrow> 'n \<Rightarrow> esp_err \<times> 'n"

section \<open>The documented behaviour\<close>

locale nvs_partition =
  fixes ops :: "('n, 'b) nvs_ops"
  assumes get_blob_error: "nvs_get_blob ops n k \<noteq> Inl ESP_OK"
    and get_u32_error: "nvs_get_u32 ops n k \<noteq> Inl ESP_OK"
    and set_blob_get: "nvs_set_blob ops k v n = (ESP_OK, n') \<Longrightarrow> nvs_get_blob ops n' k = Inr v"
    and set_blob_failed: "nvs_set_blob ops k v n = (e, n') \<Longrightarrow>
          nvs_get_blob ops n' k = nvs_get_blob ops n k \<or> nvs_get_blob ops n' k = Inr v"
    and set_blob_other: "nvs_set_blob ops k v n = (e, n') \<Longrightarrow> k' \<noteq> k \<Longrightarrow>
          nvs_get_blob ops n' k' = nvs_get_blob ops n k'"
    and set_blob_u32: "nvs_set_blob ops k v n = (e, n') \<Longrightarrow> k' \<noteq> k \<Longrightarrow>
          nvs_get_u32 ops n' k' = nvs_get_u32 ops n k'"
    and erase_get: "nvs_erase_key ops k n = (ESP_OK, n') \<Longrightarrow>
          nvs_get_blob ops n' k = Inl ESP_ERR_NVS_NOT_FOUND"
    and erase_failed: "nvs_erase_key ops k n = (e, n') \<Longrightarrow>
          nvs_get_blob ops n' k = nvs_get_blob ops n k \<or>
          nvs_get_blob ops n' k = Inl ESP_ERR_NVS_NOT_FOUND"
    and erase_other: "nvs_erase_key ops k n = (e, n') \<Longrightarrow> k' \<noteq> k \<Longrightarrow>
          nvs_get_blob ops n' k' = nvs_get_blob ops n k'"
    and erase_u32: "nvs_erase_key ops k n = (e, n') \<Longrightarrow> k' \<noteq> k \<Longrightarrow>
          nvs_get_u32 ops n' k' = nvs_get_u32 ops n k'"
    and commit_blob: "nvs_commit ops n = (e, n') \<Longrightarrow> nvs_get_blob ops n' k = nvs_get_blob ops n k"
    and commit_u32: "nvs_commit ops n = (e, n') \<Longrightarrow> nvs_get_u32 ops n' k = nvs_get_u32 ops n k"
    and set_u32_get: "nvs_set_u32 ops k w n = (ESP_OK, n') \<Longrightarrow> nvs_get_u32 ops n' k = Inr w"
    and set_u32_failed: "nvs_set_u32 ops k w n = (e, n') \<Longrightarrow>
          nvs_get_u32 ops n' k = nvs_get_u32 ops n k \<or> nvs_get_u32 ops n' k = Inr w"
    and set_u32_blob: "nvs_set_u32 ops k w n = (e, n') \<Longrightarrow> k' \<noteq> k \<Longrightarrow>
          nvs_get_blob ops n' k' = nvs_get_blob ops n k'"

section \<open>A partition with a script of write errors\<close>

text \<open>
  \<open>fl_script\<close> holds the result of the writing calls to come; past its end they succeed. A write
  that fails leaves the partition as it was.
\<close>

record 'b flash =
  fl_blobs :: "(string \<times> nat \<times> 'b) list"
  fl_u32s :: "(string \<times> u32) list"
  fl_script :: "esp_err list"

definition scripted :: "('b flash \<Rightarrow> 'b flash) \<Rightarrow> 'b flash \<Rightarrow> esp_err \<times> 'b flash" where
  "scripted f n =
     (case fl_script n of
        [] \<Rightarrow> (ESP_OK, f n)
      | e # es \<Rightarrow> (e, if e = ESP_OK then f (n\<lparr>fl_script := es\<rparr>) else n\<lparr>fl_script := es\<rparr>))"

definition without :: "'k \<Rightarrow> ('k \<times> 'v) list \<Rightarrow> ('k \<times> 'v) list" where
  "without k al = filter (\<lambda>p. fst p \<noteq> k) al"

definition found :: "'v option \<Rightarrow> esp_err + 'v" where
  "found v = (case v of None \<Rightarrow> Inl ESP_ERR_NVS_NOT_FOUND | Some x \<Rightarrow> Inr x)"

definition flash_ops :: "('b flash, 'b) nvs_ops" where
  "flash_ops =
     \<lparr>nvs_get_blob = \<lambda>n k. found (map_of (fl_blobs n) k),
      nvs_set_blob = \<lambda>k v. scripted (\<lambda>n. n\<lparr>fl_blobs := (k, v) # without k (fl_blobs n)\<rparr>),
      nvs_erase_key = \<lambda>k. scripted (\<lambda>n. n\<lparr>fl_blobs := without k (fl_blobs n)\<rparr>),
      nvs_commit = scripted (\<lambda>n. n),
      nvs_get_u32 = \<lambda>n k. found (map_of (fl_u32s n) k),
      nvs_set_u32 = \<lambda>k w. scripted (\<lambda>n. n\<lparr>fl_u32s := (k, w) # without k (fl_u32s n)\<rparr>)\<rparr>"

lemma map_of_without: "map_of (without k al) k' = (if k' = k then None else map_of al k')"
  by (induction al) (auto simp: without_def)

interpretation flash: nvs_partition flash_ops
  by unfold_locales
    (auto simp: flash_ops_def scripted_def found_def map_of_without
      split: list.splits if_splits option.splits)

section \<open>Loops over slots\<close>

text \<open>
  \<open>scan_until\<close>: load the slots in order and stop at the first error or the first slot the
  condition accepts. \<open>scan_all\<close>: load every slot and fold its contents; an error ends the loop.
\<close>

fun scan_until :: "(nat \<Rightarrow> esp_err + 'a) \<Rightarrow> ('a \<Rightarrow> bool) \<Rightarrow> nat list \<Rightarrow> esp_err + (nat \<times> 'a) option" where
  "scan_until load P [] = Inr None"
| "scan_until load P (s # ss) =
     (case load s of
        Inl e \<Rightarrow> Inl e
      | Inr x \<Rightarrow> if P x then Inr (Some (s, x)) else scan_until load P ss)"

fun scan_all :: "(nat \<Rightarrow> esp_err + 'a) \<Rightarrow> (nat \<Rightarrow> 'a \<Rightarrow> 'b \<Rightarrow> 'b) \<Rightarrow> nat list \<Rightarrow> 'b \<Rightarrow> esp_err + 'b" where
  "scan_all load f [] acc = Inr acc"
| "scan_all load f (s # ss) acc =
     (case load s of
        Inl e \<Rightarrow> Inl e
      | Inr x \<Rightarrow> scan_all load f ss (f s x acc))"

text \<open>The slots that hold a record, with the record, in slot order.\<close>

definition held :: "(nat \<Rightarrow> esp_err + 'a option) \<Rightarrow> nat list \<Rightarrow> (nat \<times> 'a) list" where
  "held load ss =
     concat (map (\<lambda>s. case load s of Inr (Some x) \<Rightarrow> [(s, x)] | _ \<Rightarrow> []) ss)"

definition readable :: "(nat \<Rightarrow> esp_err + 'a) \<Rightarrow> nat list \<Rightarrow> bool" where
  "readable load ss \<longleftrightarrow> list_all (\<lambda>s. case load s of Inl _ \<Rightarrow> False | Inr _ \<Rightarrow> True) ss"

lemma held_simps [simp]:
  "held load [] = []"
  "held load (s # ss) =
     (case load s of Inr (Some x) \<Rightarrow> (s, x) # held load ss | _ \<Rightarrow> held load ss)"
  by (auto simp: held_def split: sum.splits option.splits)

lemma held_append: "held load (ss @ ts) = held load ss @ held load ts"
  by (simp add: held_def)

lemma set_held: "set (held load ss) = {(s, x). s \<in> set ss \<and> load s = Inr (Some x)}"
  by (induction ss) (auto split: sum.splits option.splits)

lemma distinct_held: "distinct ss \<Longrightarrow> distinct (map fst (held load ss))"
  by (induction ss) (auto simp: set_held split: sum.splits option.splits)

lemma readable_simps [simp]:
  "readable load []"
  "readable load (s # ss) \<longleftrightarrow> (\<exists>x. load s = Inr x) \<and> readable load ss"
  by (auto simp: readable_def split: sum.splits)

lemma readableD: "readable load ss \<Longrightarrow> s \<in> set ss \<Longrightarrow> \<exists>x. load s = Inr x"
  by (induction ss) auto

lemma readableI: "(\<And>s. s \<in> set ss \<Longrightarrow> \<exists>x. load s = Inr x) \<Longrightarrow> readable load ss"
  by (induction ss) auto

text \<open>A search over readable slots finds the first slot the condition accepts.\<close>

lemma scan_until_find:
  assumes "readable load ss"
  shows "scan_until load P ss =
           Inr (map_option (\<lambda>s. (s, projr (load s))) (find (\<lambda>s. P (projr (load s))) ss))"
  using assms by (induction ss) auto

lemma scan_until_Some:
  "scan_until load P ss = Inr (Some (s, x)) \<Longrightarrow> s \<in> set ss \<and> load s = Inr x \<and> P x"
  by (induction ss) (auto split: sum.splits if_splits)

lemma scan_until_None:
  "scan_until load P ss = Inr None \<Longrightarrow> s \<in> set ss \<Longrightarrow> \<exists>x. load s = Inr x \<and> \<not> P x"
  by (induction ss) (auto split: sum.splits if_splits)

text \<open>A scan whose step skips empty slots is a fold over the records held.\<close>

definition on_record :: "(nat \<Rightarrow> 'a \<Rightarrow> 'b \<Rightarrow> 'b) \<Rightarrow> nat \<Rightarrow> 'a option \<Rightarrow> 'b \<Rightarrow> 'b" where
  "on_record f s x acc = (case x of None \<Rightarrow> acc | Some r \<Rightarrow> f s r acc)"

lemma on_record_simps [simp]:
  "on_record f s None acc = acc" "on_record f s (Some r) acc = f s r acc"
  by (simp_all add: on_record_def)

lemma scan_all_held:
  assumes "readable load ss"
  shows "scan_all load (on_record f) ss acc = Inr (fold (\<lambda>(s, r). f s r) (held load ss) acc)"
  using assms by (induction ss arbitrary: acc) (auto split: option.splits)

lemma scan_all_Inr_readable: "scan_all load f ss acc = Inr b \<Longrightarrow> readable load ss"
  by (induction ss arbitrary: acc) (auto split: sum.splits)

text \<open>Slots whose contents did not change hold the same records.\<close>

lemma held_cong: "(\<And>s. s \<in> set ss \<Longrightarrow> load s = load' s) \<Longrightarrow> held load ss = held load' ss"
  by (induction ss) (auto split: sum.splits option.splits)

end
