(* ===== verification/Sms_Store.thy ===== *)
theory Sms_Store
  imports Nvs Pdu_Decode "HOL-Library.Multiset"
begin

text \<open>
  The durable message store, \<open>sms_store.c\<close>: the message record and its persisted form, the 128
  slots of the NVS namespace, identifiers, pruning, the searches and the ordered listing. Every
  operation takes the store mutex for its whole body, so each is one atomic step on the state;
  the static scratch records carry nothing from one operation to the next.
\<close>

section \<open>Messages\<close>

datatype sms_direction = SMS_DIRECTION_INBOUND | SMS_DIRECTION_OUTBOUND

datatype sms_message_status =
    SMS_MESSAGE_PARTIAL | SMS_MESSAGE_RECEIVED | SMS_MESSAGE_QUEUED | SMS_MESSAGE_SENDING
  | SMS_MESSAGE_SENT | SMS_MESSAGE_DELIVERED | SMS_MESSAGE_FAILED | SMS_MESSAGE_UNSUPPORTED
  | SMS_MESSAGE_UNCERTAIN

record sms_message =
  msg_id :: u32
  msg_direction :: sms_direction
  msg_status :: sms_message_status
  msg_encoding :: sms_encoding
  msg_sender :: string
  msg_recipient :: string
  msg_service_center_timestamp :: string
  msg_text :: string
  msg_raw_pdu :: string
  msg_concat :: sms_concat_info
  msg_delivery_report_requested :: bool
  msg_concat_reference :: u16
  msg_segment_count :: u8
  msg_segment_sent_mask :: u16
  msg_segment_delivered_mask :: u16
  msg_segment_failed_mask :: u16
  msg_modem_reference :: "u8 list"
  msg_delivery_status :: "u8 list"
  msg_inflight_segment :: u8
  msg_send_attempts :: u8
  msg_last_modem_error :: int

definition SMS_STORE_MAX_RECORDS :: nat where
  "SMS_STORE_MAX_RECORDS = 128"

definition SMS_MESSAGE_TEXT_MAX :: nat where
  "SMS_MESSAGE_TEXT_MAX = 4096"

definition SMS_TIMESTAMP_MAX :: nat where
  "SMS_TIMESTAMP_MAX = 40"

text \<open>The zero-filled message of \<open>memset\<close> and \<open>calloc\<close>.\<close>

definition zero_message :: sms_message where
  "zero_message =
     \<lparr>msg_id = 0, msg_direction = SMS_DIRECTION_INBOUND, msg_status = SMS_MESSAGE_PARTIAL,
      msg_encoding = SMS_ENCODING_GSM7, msg_sender = [], msg_recipient = [],
      msg_service_center_timestamp = [], msg_text = [], msg_raw_pdu = [],
      msg_concat = no_concat, msg_delivery_report_requested = False, msg_concat_reference = 0,
      msg_segment_count = 0, msg_segment_sent_mask = 0, msg_segment_delivered_mask = 0,
      msg_segment_failed_mask = 0, msg_modem_reference = replicate SMS_MAX_SEGMENTS 0,
      msg_delivery_status = replicate SMS_MAX_SEGMENTS 0, msg_inflight_segment = 0,
      msg_send_attempts = 0, msg_last_modem_error = 0\<rparr>"

section \<open>The persisted record\<close>

record persisted_record =
  pr_magic :: u32
  pr_version :: u16
  pr_size :: u16
  pr_id :: u32
  pr_direction :: u8
  pr_status :: u8
  pr_encoding :: u8
  pr_delivery_report_requested :: u8
  pr_sender :: string
  pr_recipient :: string
  pr_service_center_timestamp :: string
  pr_text :: string
  pr_raw_pdu :: string
  pr_concat_present :: u8
  pr_concat_is_16bit :: u8
  pr_concat_reference :: u16
  pr_concat_total_parts :: u8
  pr_concat_part_number :: u8
  pr_outbound_concat_reference :: u16
  pr_segment_count :: u8
  pr_segment_sent_mask :: u16
  pr_segment_delivered_mask :: u16
  pr_segment_failed_mask :: u16
  pr_modem_reference :: "u8 list"
  pr_delivery_status :: "u8 list"
  pr_inflight_segment :: u8
  pr_send_attempts :: u8
  pr_last_modem_error :: int

definition SMS_STORE_RECORD_MAGIC :: u32 where
  "SMS_STORE_RECORD_MAGIC = 0x534D5347"

definition SMS_STORE_RECORD_VERSION :: u16 where
  "SMS_STORE_RECORD_VERSION = 1"

text \<open>
  \<open>sizeof(persisted_record_t)\<close>: the struct is packed, so it is the sum of its members. A
  \<open>uint32_t\<close>, two \<open>uint16_t\<close>, the identifier, four bytes, the five character arrays, the five
  fields of the concatenation, the outbound reference, the segment count and masks, two arrays
  of one byte per segment, two bytes and an \<open>int32_t\<close>.
\<close>

definition sizeof_record :: nat where
  "sizeof_record =
     4 + 2 + 2 + 4 + 4
     + 2 * SMS_MAX_ADDRESS_LENGTH + SMS_TIMESTAMP_MAX + SMS_MESSAGE_TEXT_MAX + SMS_MAX_PDU_HEX
     + (1 + 1 + 2 + 1 + 1) + 2 + 1 + 2 + 2 + 2 + 2 * SMS_MAX_SEGMENTS + 1 + 1 + 4"

text \<open>The enumerations as the bytes of the record.\<close>

primrec direction_code :: "sms_direction \<Rightarrow> u8" where
  "direction_code SMS_DIRECTION_INBOUND = 0"
| "direction_code SMS_DIRECTION_OUTBOUND = 1"

primrec status_code :: "sms_message_status \<Rightarrow> u8" where
  "status_code SMS_MESSAGE_PARTIAL = 0"
| "status_code SMS_MESSAGE_RECEIVED = 1"
| "status_code SMS_MESSAGE_QUEUED = 2"
| "status_code SMS_MESSAGE_SENDING = 3"
| "status_code SMS_MESSAGE_SENT = 4"
| "status_code SMS_MESSAGE_DELIVERED = 5"
| "status_code SMS_MESSAGE_FAILED = 6"
| "status_code SMS_MESSAGE_UNSUPPORTED = 7"
| "status_code SMS_MESSAGE_UNCERTAIN = 8"

primrec encoding_code :: "sms_encoding \<Rightarrow> u8" where
  "encoding_code SMS_ENCODING_GSM7 = 0"
| "encoding_code SMS_ENCODING_UCS2 = 1"
| "encoding_code SMS_ENCODING_8BIT = 2"
| "encoding_code SMS_ENCODING_UNKNOWN = 3"

definition direction_of :: "u8 \<Rightarrow> sms_direction" where
  "direction_of b = (if b = 0 then SMS_DIRECTION_INBOUND else SMS_DIRECTION_OUTBOUND)"

definition status_of :: "u8 \<Rightarrow> sms_message_status" where
  "status_of b =
     (if b = 0 then SMS_MESSAGE_PARTIAL else if b = 1 then SMS_MESSAGE_RECEIVED
      else if b = 2 then SMS_MESSAGE_QUEUED else if b = 3 then SMS_MESSAGE_SENDING
      else if b = 4 then SMS_MESSAGE_SENT else if b = 5 then SMS_MESSAGE_DELIVERED
      else if b = 6 then SMS_MESSAGE_FAILED else if b = 7 then SMS_MESSAGE_UNSUPPORTED
      else SMS_MESSAGE_UNCERTAIN)"

definition encoding_of :: "u8 \<Rightarrow> sms_encoding" where
  "encoding_of b =
     (if b = 0 then SMS_ENCODING_GSM7 else if b = 1 then SMS_ENCODING_UCS2
      else if b = 2 then SMS_ENCODING_8BIT else SMS_ENCODING_UNKNOWN)"

definition flag_byte :: "bool \<Rightarrow> u8" where
  "flag_byte b = (if b then 1 else 0)"

text \<open>
  \<open>memchr(field, 0, capacity)\<close> finds a terminator exactly when fewer than \<open>capacity\<close>
  characters come before it.
\<close>

definition terminated_field :: "string \<Rightarrow> nat \<Rightarrow> bool" where
  "terminated_field field capacity \<longleftrightarrow> length (cstr_view field) < capacity"

definition record_encode :: "sms_message \<Rightarrow> persisted_record" where
  "record_encode m =
     \<lparr>pr_magic = SMS_STORE_RECORD_MAGIC,
      pr_version = SMS_STORE_RECORD_VERSION,
      pr_size = word_of_nat sizeof_record,
      pr_id = msg_id m,
      pr_direction = direction_code (msg_direction m),
      pr_status = status_code (msg_status m),
      pr_encoding = encoding_code (msg_encoding m),
      pr_delivery_report_requested = flag_byte (msg_delivery_report_requested m),
      pr_sender = msg_sender m,
      pr_recipient = msg_recipient m,
      pr_service_center_timestamp = msg_service_center_timestamp m,
      pr_text = msg_text m,
      pr_raw_pdu = msg_raw_pdu m,
      pr_concat_present = flag_byte (cc_present (msg_concat m)),
      pr_concat_is_16bit = flag_byte (cc_is_16bit (msg_concat m)),
      pr_concat_reference = cc_reference (msg_concat m),
      pr_concat_total_parts = cc_total_parts (msg_concat m),
      pr_concat_part_number = cc_part_number (msg_concat m),
      pr_outbound_concat_reference = msg_concat_reference m,
      pr_segment_count = msg_segment_count m,
      pr_segment_sent_mask = msg_segment_sent_mask m,
      pr_segment_delivered_mask = msg_segment_delivered_mask m,
      pr_segment_failed_mask = msg_segment_failed_mask m,
      pr_modem_reference = msg_modem_reference m,
      pr_delivery_status = msg_delivery_status m,
      pr_inflight_segment = msg_inflight_segment m,
      pr_send_attempts = msg_send_attempts m,
      pr_last_modem_error = msg_last_modem_error m\<rparr>"

definition record_decode :: "persisted_record \<Rightarrow> sms_message option" where
  "record_decode r =
     (if pr_magic r \<noteq> SMS_STORE_RECORD_MAGIC \<or> pr_version r \<noteq> SMS_STORE_RECORD_VERSION \<or>
         unat (pr_size r) \<noteq> sizeof_record \<or> pr_id r = 0 \<or>
         pr_direction r > direction_code SMS_DIRECTION_OUTBOUND \<or>
         pr_status r > status_code SMS_MESSAGE_UNCERTAIN \<or>
         pr_encoding r > encoding_code SMS_ENCODING_UNKNOWN \<or>
         unat (pr_segment_count r) > SMS_MAX_SEGMENTS \<or>
         \<not> terminated_field (pr_sender r) SMS_MAX_ADDRESS_LENGTH \<or>
         \<not> terminated_field (pr_recipient r) SMS_MAX_ADDRESS_LENGTH \<or>
         \<not> terminated_field (pr_service_center_timestamp r) SMS_TIMESTAMP_MAX \<or>
         \<not> terminated_field (pr_text r) SMS_MESSAGE_TEXT_MAX \<or>
         \<not> terminated_field (pr_raw_pdu r) SMS_MAX_PDU_HEX
      then None
      else Some
        \<lparr>msg_id = pr_id r,
         msg_direction = direction_of (pr_direction r),
         msg_status = status_of (pr_status r),
         msg_encoding = encoding_of (pr_encoding r),
         msg_sender = pr_sender r,
         msg_recipient = pr_recipient r,
         msg_service_center_timestamp = pr_service_center_timestamp r,
         msg_text = pr_text r,
         msg_raw_pdu = pr_raw_pdu r,
         msg_concat = \<lparr>cc_present = (pr_concat_present r \<noteq> 0),
           cc_is_16bit = (pr_concat_is_16bit r \<noteq> 0),
           cc_reference = pr_concat_reference r,
           cc_total_parts = pr_concat_total_parts r,
           cc_part_number = pr_concat_part_number r\<rparr>,
         msg_delivery_report_requested = (pr_delivery_report_requested r \<noteq> 0),
         msg_concat_reference = pr_outbound_concat_reference r,
         msg_segment_count = pr_segment_count r,
         msg_segment_sent_mask = pr_segment_sent_mask r,
         msg_segment_delivered_mask = pr_segment_delivered_mask r,
         msg_segment_failed_mask = pr_segment_failed_mask r,
         msg_modem_reference = pr_modem_reference r,
         msg_delivery_status = pr_delivery_status r,
         msg_inflight_segment = pr_inflight_segment r,
         msg_send_attempts = pr_send_attempts r,
         msg_last_modem_error = pr_last_modem_error r\<rparr>)"

section \<open>Slots\<close>

definition store_slots :: "nat list" where
  "store_slots = [0..<SMS_STORE_MAX_RECORDS]"

text \<open>\<open>snprintf(key, 8, "s%03u", slot)\<close>\<close>

definition slot_key :: "nat \<Rightarrow> string" where
  "slot_key slot = CHR ''s'' # dec_pad 3 slot"

definition load_slot ::
    "('n, persisted_record) nvs_ops \<Rightarrow> 'n \<Rightarrow> nat \<Rightarrow> esp_err + sms_message option" where
  "load_slot ops n slot =
     (case nvs_get_blob ops n (slot_key slot) of
        Inl e \<Rightarrow> if e = ESP_ERR_NVS_NOT_FOUND then Inr None else Inl e
      | Inr (len, r) \<Rightarrow>
          if len \<noteq> sizeof_record then Inl ESP_ERR_INVALID_RESPONSE
          else (case record_decode r of
                  None \<Rightarrow> Inl ESP_ERR_INVALID_RESPONSE
                | Some m \<Rightarrow> Inr (Some m)))"

definition write_slot ::
    "('n, persisted_record) nvs_ops \<Rightarrow> nat \<Rightarrow> sms_message \<Rightarrow> 'n \<Rightarrow> esp_err \<times> 'n" where
  "write_slot ops slot m n =
     (case nvs_set_blob ops (slot_key slot) (sizeof_record, record_encode m) n of
        (e, n1) \<Rightarrow> if e \<noteq> ESP_OK then (e, n1) else nvs_commit ops n1)"

definition find_id_slot ::
    "('n, persisted_record) nvs_ops \<Rightarrow> 'n \<Rightarrow> u32 \<Rightarrow> esp_err + nat" where
  "find_id_slot ops n ident =
     (case scan_until (load_slot ops n)
             (\<lambda>x. case x of None \<Rightarrow> False | Some m \<Rightarrow> msg_id m = ident) store_slots of
        Inl e \<Rightarrow> Inl e
      | Inr None \<Rightarrow> Inl ESP_ERR_NOT_FOUND
      | Inr (Some (slot, _)) \<Rightarrow> Inr slot)"

definition find_empty_slot :: "('n, persisted_record) nvs_ops \<Rightarrow> 'n \<Rightarrow> esp_err + nat" where
  "find_empty_slot ops n =
     (case scan_until (load_slot ops n) (\<lambda>x. x = None) store_slots of
        Inl e \<Rightarrow> Inl e
      | Inr None \<Rightarrow> Inl ESP_ERR_NO_MEM
      | Inr (Some (slot, _)) \<Rightarrow> Inr slot)"

section \<open>The state of the store\<close>

record 'n sms_store =
  st_initialized :: bool
  st_nvs :: 'n
  st_pruned_records :: u32
  st_capacity_failures :: u32
  st_replay_watermark :: u32
  st_replay_protection_enabled :: bool

definition record_prunable :: "bool \<Rightarrow> u32 \<Rightarrow> sms_message \<Rightarrow> bool" where
  "record_prunable protection watermark m =
     (case msg_status m of
        SMS_MESSAGE_RECEIVED \<Rightarrow> \<not> protection \<or> msg_id m \<le> watermark
      | SMS_MESSAGE_SENT \<Rightarrow> \<not> msg_delivery_report_requested m
      | SMS_MESSAGE_DELIVERED \<Rightarrow> True
      | SMS_MESSAGE_FAILED \<Rightarrow> True
      | SMS_MESSAGE_UNSUPPORTED \<Rightarrow> True
      | SMS_MESSAGE_PARTIAL \<Rightarrow> False
      | SMS_MESSAGE_QUEUED \<Rightarrow> False
      | SMS_MESSAGE_SENDING \<Rightarrow> False
      | SMS_MESSAGE_UNCERTAIN \<Rightarrow> False)"

text \<open>
  The loop that keeps the record of smallest identifier among those a condition accepts. Its
  state: whether one was found, the identifier and the slot of the best one.
\<close>

definition oldest_step ::
    "(sms_message \<Rightarrow> bool) \<Rightarrow> nat \<Rightarrow> sms_message \<Rightarrow> bool \<times> u32 \<times> nat \<Rightarrow> bool \<times> u32 \<times> nat" where
  "oldest_step P slot m acc =
     (case acc of (was, best_id, best_slot) \<Rightarrow>
        if P m \<and> msg_id m < best_id then (True, msg_id m, slot) else (was, best_id, best_slot))"

definition find_prunable_slot ::
    "('n, persisted_record) nvs_ops \<Rightarrow> bool \<Rightarrow> u32 \<Rightarrow> 'n \<Rightarrow> esp_err + nat" where
  "find_prunable_slot ops protection watermark n =
     (case scan_all (load_slot ops n) (on_record (oldest_step (record_prunable protection watermark)))
             store_slots (False, UINT32_MAX, 0) of
        Inl e \<Rightarrow> Inl e
      | Inr (was, _, slot) \<Rightarrow> if was then Inr slot else Inl ESP_ERR_NO_MEM)"

definition erase_slot :: "('n, persisted_record) nvs_ops \<Rightarrow> nat \<Rightarrow> 'n \<Rightarrow> esp_err \<times> 'n" where
  "erase_slot ops slot n =
     (case nvs_erase_key ops (slot_key slot) n of
        (e, n1) \<Rightarrow> if e = ESP_OK then nvs_commit ops n1 else (e, n1))"

text \<open>The identifier the call hands out; \<open>None\<close> when it returns before it sets one.\<close>

definition allocate_id ::
    "('n, persisted_record) nvs_ops \<Rightarrow> 'n \<Rightarrow> esp_err \<times> u32 option \<times> 'n" where
  "allocate_id ops n =
     (let stored = nvs_get_u32 ops n ''next_id'';
          next = (case stored of Inl _ \<Rightarrow> 1 | Inr w \<Rightarrow> w);
          next = (if next = 0 then 1 else next);
          succ = (if next + 1 = 0 then 1 else next + 1)
      in case stored of
           Inl e \<Rightarrow> if e \<noteq> ESP_ERR_NVS_NOT_FOUND then (e, None, n)
                     else (case nvs_set_u32 ops ''next_id'' succ n of (e, n1) \<Rightarrow> (e, Some next, n1))
         | Inr _ \<Rightarrow> (case nvs_set_u32 ops ''next_id'' succ n of (e, n1) \<Rightarrow> (e, Some next, n1)))"

section \<open>Operations\<close>

text \<open>
  \<open>sms_store_init\<close>: the results of \<open>nvs_flash_init_partition\<close>, of \<open>nvs_open_from_partition\<close> with
  the partition it opens, and whether the mutex could be created are arguments.
\<close>

definition sms_store_init ::
    "esp_err \<Rightarrow> esp_err \<times> 'n \<Rightarrow> bool \<Rightarrow> 'n sms_store \<Rightarrow> esp_err \<times> 'n sms_store" where
  "sms_store_init flash_init opened mutex_created st =
     (if st_initialized st then (ESP_ERR_INVALID_STATE, st)
      else if flash_init \<noteq> ESP_OK then (flash_init, st)
      else if fst opened \<noteq> ESP_OK then (fst opened, st)
      else if \<not> mutex_created then (ESP_ERR_NO_MEM, st)
      else (ESP_OK, st\<lparr>st_initialized := True, st_nvs := snd opened\<rparr>))"

definition message_fields_ok :: "sms_message \<Rightarrow> bool" where
  "message_fields_ok m \<longleftrightarrow>
     terminated_field (msg_text m) SMS_MESSAGE_TEXT_MAX \<and>
     terminated_field (msg_sender m) SMS_MAX_ADDRESS_LENGTH \<and>
     terminated_field (msg_recipient m) SMS_MAX_ADDRESS_LENGTH \<and>
     terminated_field (msg_service_center_timestamp m) SMS_TIMESTAMP_MAX \<and>
     terminated_field (msg_raw_pdu m) SMS_MAX_PDU_HEX \<and>
     unat (msg_segment_count m) \<le> SMS_MAX_SEGMENTS"

text \<open>The slot of a new message: an empty one, or the one of a record pruned for it.\<close>

definition choose_new_slot ::
    "('n, persisted_record) nvs_ops \<Rightarrow> 'n sms_store \<Rightarrow> (esp_err + nat) \<times> 'n sms_store" where
  "choose_new_slot ops st =
     (case find_empty_slot ops (st_nvs st) of
        Inl e \<Rightarrow>
          if e = ESP_ERR_NO_MEM
          then (case find_prunable_slot ops (st_replay_protection_enabled st)
                       (st_replay_watermark st) (st_nvs st) of
                  Inl e \<Rightarrow> (Inl e, st)
                | Inr slot \<Rightarrow>
                    (case erase_slot ops slot (st_nvs st) of
                       (e, n1) \<Rightarrow>
                         if e = ESP_OK
                         then (Inr slot, st\<lparr>st_nvs := n1, st_pruned_records := st_pruned_records st + 1\<rparr>)
                         else (Inl e, st\<lparr>st_nvs := n1\<rparr>)))
          else (Inl e, st)
      | Inr slot \<Rightarrow> (Inr slot, st))"

text \<open>The result: the error code, the caller's message after the call, and the store.\<close>

definition sms_store_save ::
    "('n, persisted_record) nvs_ops \<Rightarrow> sms_message \<Rightarrow> 'n sms_store \<Rightarrow>
     esp_err \<times> sms_message \<times> 'n sms_store" where
  "sms_store_save ops m st =
     (if \<not> st_initialized st then (ESP_ERR_INVALID_STATE, m, st)
      else if \<not> message_fields_ok m then (ESP_ERR_INVALID_ARG, m, st)
      else if msg_id m = 0
      then (case choose_new_slot ops st of
              (Inl e, st1) \<Rightarrow>
                (e, m, if e = ESP_ERR_NO_MEM
                       then st1\<lparr>st_capacity_failures := st_capacity_failures st1 + 1\<rparr> else st1)
            | (Inr slot, st1) \<Rightarrow>
                (case allocate_id ops (st_nvs st1) of
                   (e, ident, n1) \<Rightarrow>
                     (let m1 = m\<lparr>msg_id := case ident of None \<Rightarrow> msg_id m | Some i \<Rightarrow> i\<rparr>;
                          st2 = st1\<lparr>st_nvs := n1\<rparr>
                      in if e \<noteq> ESP_OK then (e, m1, st2)
                         else (case write_slot ops slot m1 n1 of
                                 (e, n2) \<Rightarrow>
                                   (e, if e \<noteq> ESP_OK then m1\<lparr>msg_id := 0\<rparr> else m1,
                                    st2\<lparr>st_nvs := n2\<rparr>)))))
      else (case (case find_id_slot ops (st_nvs st) (msg_id m) of
                    Inl e \<Rightarrow> if e = ESP_ERR_NOT_FOUND then find_empty_slot ops (st_nvs st) else Inl e
                  | Inr slot \<Rightarrow> Inr slot) of
              Inl e \<Rightarrow> (e, m, st)
            | Inr slot \<Rightarrow>
                (case write_slot ops slot m (st_nvs st) of
                   (e, n1) \<Rightarrow> (e, m, st\<lparr>st_nvs := n1\<rparr>))))"

text \<open>A second load into the caller's record; an empty slot leaves it as it was.\<close>

definition load_into ::
    "('n, persisted_record) nvs_ops \<Rightarrow> 'n \<Rightarrow> nat \<Rightarrow> sms_message option \<Rightarrow> esp_err \<times> sms_message option" where
  "load_into ops n slot out =
     (case load_slot ops n slot of
        Inl e \<Rightarrow> (e, out)
      | Inr None \<Rightarrow> (ESP_OK, out)
      | Inr (Some m) \<Rightarrow> (ESP_OK, Some m))"

text \<open>
  The reading operations give the error code and what they wrote to \<open>*out\<close>, \<open>None\<close> when they
  wrote nothing.
\<close>

definition sms_store_get ::
    "('n, persisted_record) nvs_ops \<Rightarrow> u32 \<Rightarrow> 'n sms_store \<Rightarrow> esp_err \<times> sms_message option" where
  "sms_store_get ops ident st =
     (if \<not> st_initialized st \<or> ident = 0 then (ESP_ERR_INVALID_ARG, None)
      else (case find_id_slot ops (st_nvs st) ident of
              Inl e \<Rightarrow> (e, None)
            | Inr slot \<Rightarrow> load_into ops (st_nvs st) slot None))"

definition sms_store_delete ::
    "('n, persisted_record) nvs_ops \<Rightarrow> u32 \<Rightarrow> 'n sms_store \<Rightarrow> esp_err \<times> 'n sms_store" where
  "sms_store_delete ops ident st =
     (if \<not> st_initialized st \<or> ident = 0 then (ESP_ERR_INVALID_ARG, st)
      else (case find_id_slot ops (st_nvs st) ident of
              Inl e \<Rightarrow> (e, st)
            | Inr slot \<Rightarrow>
                (case nvs_erase_key ops (slot_key slot) (st_nvs st) of
                   (e, n1) \<Rightarrow>
                     if e = ESP_OK
                     then (case nvs_commit ops n1 of (e, n2) \<Rightarrow> (e, st\<lparr>st_nvs := n2\<rparr>))
                     else (e, st\<lparr>st_nvs := n1\<rparr>))))"

definition sms_store_find_status ::
    "('n, persisted_record) nvs_ops \<Rightarrow> sms_message_status \<Rightarrow> 'n sms_store \<Rightarrow>
     esp_err \<times> sms_message option" where
  "sms_store_find_status ops status st =
     (if \<not> st_initialized st then (ESP_ERR_INVALID_ARG, None)
      else (case scan_all (load_slot ops (st_nvs st))
                   (on_record (oldest_step (\<lambda>m. msg_status m = status)))
                   store_slots (False, UINT32_MAX, 0) of
              Inl e \<Rightarrow> (e, None)
            | Inr (was, _, slot) \<Rightarrow>
                if was then load_into ops (st_nvs st) slot None else (ESP_ERR_NOT_FOUND, None)))"

text \<open>The searches that stop at the first matching record.\<close>

definition find_matching ::
    "('n, persisted_record) nvs_ops \<Rightarrow> (sms_message \<Rightarrow> bool) \<Rightarrow> 'n \<Rightarrow> esp_err \<times> sms_message option" where
  "find_matching ops P n =
     (case scan_until (load_slot ops n) (\<lambda>x. case x of None \<Rightarrow> False | Some m \<Rightarrow> P m) store_slots of
        Inl e \<Rightarrow> (e, None)
      | Inr None \<Rightarrow> (ESP_ERR_NOT_FOUND, None)
      | Inr (Some (_, x)) \<Rightarrow> (ESP_OK, x))"

definition partial_matches :: "string \<Rightarrow> u16 \<Rightarrow> u8 \<Rightarrow> u8 \<Rightarrow> sms_message \<Rightarrow> bool" where
  "partial_matches sender reference total_parts part_number m \<longleftrightarrow>
     msg_direction m = SMS_DIRECTION_INBOUND \<and> msg_status m = SMS_MESSAGE_PARTIAL \<and>
     cc_present (msg_concat m) \<and> cc_reference (msg_concat m) = reference \<and>
     cc_total_parts (msg_concat m) = total_parts \<and> cc_part_number (msg_concat m) = part_number \<and>
     msg_sender m = sender"

definition sms_store_find_partial ::
    "('n, persisted_record) nvs_ops \<Rightarrow> string option \<Rightarrow> u16 \<Rightarrow> u8 \<Rightarrow> u8 \<Rightarrow> 'n sms_store \<Rightarrow>
     esp_err \<times> sms_message option" where
  "sms_store_find_partial ops sender reference total_parts part_number st =
     (case sender of
        None \<Rightarrow> (ESP_ERR_INVALID_ARG, None)
      | Some s \<Rightarrow>
          if \<not> st_initialized st \<or> total_parts = 0 \<or> part_number = 0 then (ESP_ERR_INVALID_ARG, None)
          else find_matching ops (partial_matches s reference total_parts part_number) (st_nvs st))"

definition identity_matches :: "string \<Rightarrow> string \<Rightarrow> sms_encoding \<Rightarrow> string \<Rightarrow> sms_message \<Rightarrow> bool" where
  "identity_matches sender timestamp encoding body m \<longleftrightarrow>
     msg_direction m = SMS_DIRECTION_INBOUND \<and> msg_status m = SMS_MESSAGE_RECEIVED \<and>
     msg_encoding m = encoding \<and> msg_sender m = sender \<and>
     msg_service_center_timestamp m = timestamp \<and> msg_text m = body"

definition sms_store_find_inbound_identity ::
    "('n, persisted_record) nvs_ops \<Rightarrow> string option \<Rightarrow> string option \<Rightarrow> sms_encoding \<Rightarrow>
     string option \<Rightarrow> 'n sms_store \<Rightarrow> esp_err \<times> sms_message option" where
  "sms_store_find_inbound_identity ops sender timestamp encoding body st =
     (case (sender, timestamp, body) of
        (Some s, Some t, Some b) \<Rightarrow>
          if \<not> st_initialized st then (ESP_ERR_INVALID_ARG, None)
          else find_matching ops (identity_matches s t encoding b) (st_nvs st)
      | _ \<Rightarrow> (ESP_ERR_INVALID_ARG, None))"

definition raw_pdu_matches :: "string \<Rightarrow> sms_message \<Rightarrow> bool" where
  "raw_pdu_matches pdu m \<longleftrightarrow>
     msg_direction m = SMS_DIRECTION_INBOUND \<and> msg_status m = SMS_MESSAGE_UNSUPPORTED \<and>
     msg_raw_pdu m = pdu"

definition sms_store_find_inbound_raw_pdu ::
    "('n, persisted_record) nvs_ops \<Rightarrow> string option \<Rightarrow> 'n sms_store \<Rightarrow>
     esp_err \<times> sms_message option" where
  "sms_store_find_inbound_raw_pdu ops pdu st =
     (case pdu of
        None \<Rightarrow> (ESP_ERR_INVALID_ARG, None)
      | Some p \<Rightarrow>
          if \<not> st_initialized st then (ESP_ERR_INVALID_ARG, None)
          else find_matching ops (raw_pdu_matches p) (st_nvs st))"

text \<open>
  The inner loop of \<open>sms_store_find_outbound_reference\<close> over the segments of one record. A count
  above 16 does not occur in a decoded record, so the array is read inside its bounds.
\<close>

fun reference_loop ::
    "u8 \<Rightarrow> nat \<Rightarrow> sms_message \<Rightarrow> nat list \<Rightarrow> (u32 \<times> nat \<times> nat) option \<Rightarrow> (u32 \<times> nat \<times> nat) option" where
  "reference_loop reference slot m [] best = best"
| "reference_loop reference slot m (i # is) best =
     (if bit (msg_segment_sent_mask m) i \<and> msg_modem_reference m ! i = reference \<and>
         (case best of None \<Rightarrow> True | Some (best_id, _) \<Rightarrow> msg_id m > best_id)
      then reference_loop reference slot m is (Some (msg_id m, slot, i))
      else reference_loop reference slot m is best)"

definition sms_store_find_outbound_reference ::
    "('n, persisted_record) nvs_ops \<Rightarrow> string option \<Rightarrow> u8 \<Rightarrow> 'n sms_store \<Rightarrow>
     esp_err \<times> sms_message option \<times> nat option" where
  "sms_store_find_outbound_reference ops recipient reference st =
     (case recipient of
        None \<Rightarrow> (ESP_ERR_INVALID_ARG, None, None)
      | Some to \<Rightarrow>
          if \<not> st_initialized st then (ESP_ERR_INVALID_ARG, None, None)
          else (case scan_all (load_slot ops (st_nvs st))
                       (on_record (\<lambda>slot m best.
                          if msg_direction m \<noteq> SMS_DIRECTION_OUTBOUND \<or> msg_recipient m \<noteq> to then best
                          else reference_loop reference slot m [0..<unat (msg_segment_count m)] best))
                       store_slots None of
                  Inl e \<Rightarrow> (e, None, None)
                | Inr None \<Rightarrow> (ESP_ERR_NOT_FOUND, None, None)
                | Inr (Some (_, slot, i)) \<Rightarrow>
                    (case load_into ops (st_nvs st) slot None of
                       (e, out) \<Rightarrow> (e, out, if e = ESP_OK then Some i else None))))"

subsection \<open>Listing\<close>

fun sort_shift :: "sms_message list \<Rightarrow> sms_message \<Rightarrow> nat \<Rightarrow> sms_message list \<times> nat" where
  "sort_shift rs key 0 = (rs, 0)"
| "sort_shift rs key (Suc j) =
     (if msg_id (rs ! j) > msg_id key then sort_shift (rs[Suc j := rs ! j]) key j else (rs, Suc j))"

definition insertion_step :: "nat \<Rightarrow> sms_message list \<Rightarrow> sms_message list" where
  "insertion_step i rs =
     (let key = rs ! i in case sort_shift rs key i of (rs', j) \<Rightarrow> rs'[j := key])"

definition insertion_sort :: "sms_message list \<Rightarrow> sms_message list" where
  "insertion_sort rs = fold insertion_step [1..<length rs] rs"

definition highest_index :: "sms_message list \<Rightarrow> nat" where
  "highest_index rs =
     fold (\<lambda>i highest. if msg_id (rs ! i) > msg_id (rs ! highest) then i else highest)
       [1..<length rs] 0"

definition list_step :: "u32 \<Rightarrow> nat \<Rightarrow> sms_message \<Rightarrow> sms_message list \<Rightarrow> sms_message list" where
  "list_step after_id max_records m rs =
     (if msg_id m \<le> after_id then rs
      else if length rs < max_records then rs @ [m]
      else let highest = highest_index rs
           in if msg_id m < msg_id (rs ! highest) then rs[highest := m] else rs)"

definition sms_store_list ::
    "('n, persisted_record) nvs_ops \<Rightarrow> u32 \<Rightarrow> nat \<Rightarrow> 'n sms_store \<Rightarrow> esp_err + sms_message list" where
  "sms_store_list ops after_id max_records st =
     (if \<not> st_initialized st \<or> max_records = 0 then Inl ESP_ERR_INVALID_ARG
      else (case scan_all (load_slot ops (st_nvs st))
                   (on_record (\<lambda>_. list_step after_id max_records)) store_slots [] of
              Inl e \<Rightarrow> Inl e
            | Inr rs \<Rightarrow> Inr (insertion_sort rs)))"

subsection \<open>Watermark, diagnostics and names\<close>

definition sms_store_set_replay_watermark :: "bool \<Rightarrow> u32 \<Rightarrow> 'n sms_store \<Rightarrow> 'n sms_store" where
  "sms_store_set_replay_watermark protection_enabled watermark st =
     st\<lparr>st_replay_protection_enabled := protection_enabled, st_replay_watermark := watermark\<rparr>"

record sms_store_diagnostics =
  sd_pruned_records :: u32
  sd_capacity_failures :: u32
  sd_replay_watermark :: u32
  sd_replay_protection_enabled :: bool
  sd_used_records :: u16
  sd_free_records :: u16

definition sms_store_get_diagnostics ::
    "('n, persisted_record) nvs_ops \<Rightarrow> 'n sms_store \<Rightarrow> esp_err + sms_store_diagnostics" where
  "sms_store_get_diagnostics ops st =
     (if \<not> st_initialized st then Inl ESP_ERR_INVALID_ARG
      else (case scan_all (load_slot ops (st_nvs st)) (on_record (\<lambda>_ _ used. used + 1)) store_slots (0 :: u16) of
              Inl e \<Rightarrow> Inl e
            | Inr used \<Rightarrow>
                Inr \<lparr>sd_pruned_records = st_pruned_records st,
                  sd_capacity_failures = st_capacity_failures st,
                  sd_replay_watermark = st_replay_watermark st,
                  sd_replay_protection_enabled = st_replay_protection_enabled st,
                  sd_used_records = used,
                  sd_free_records = word_of_int (int SMS_STORE_MAX_RECORDS - uint used)\<rparr>))"

primrec sms_message_status_name :: "sms_message_status \<Rightarrow> string" where
  "sms_message_status_name SMS_MESSAGE_PARTIAL = ''partial''"
| "sms_message_status_name SMS_MESSAGE_RECEIVED = ''received''"
| "sms_message_status_name SMS_MESSAGE_QUEUED = ''queued''"
| "sms_message_status_name SMS_MESSAGE_SENDING = ''sending''"
| "sms_message_status_name SMS_MESSAGE_SENT = ''sent''"
| "sms_message_status_name SMS_MESSAGE_DELIVERED = ''delivered''"
| "sms_message_status_name SMS_MESSAGE_FAILED = ''failed''"
| "sms_message_status_name SMS_MESSAGE_UNSUPPORTED = ''unsupported''"
| "sms_message_status_name SMS_MESSAGE_UNCERTAIN = ''uncertain''"

end
