(* ===== verification/Sms_Store_Slots.thy ===== *)
theory Sms_Store_Slots
  imports Sms_Store
begin

text \<open>
  The lowest layer of the message store: the persisted record is read back as it was written, the
  keys of the slots differ from each other and from the counter's, and what each access to one
  slot and to the identifier counter does to the others. The locale \<open>message_partition\<close> is the
  NVS contract for the records of the store; its lemmas hold for every partition that keeps it.
\<close>

section \<open>The persisted form\<close>

lemma direction_of_code [simp]: "direction_of (direction_code d) = d" "direction_code d \<le> 1"
  by (cases d; simp add: direction_of_def)+

lemma status_of_code [simp]: "status_of (status_code s) = s" "status_code s \<le> 8"
  by (cases s; simp add: status_of_def)+

lemma encoding_of_code [simp]: "encoding_of (encoding_code e) = e" "encoding_code e \<le> 3"
  by (cases e; simp add: encoding_of_def)+

lemma flag_byte_iff [simp]: "flag_byte b \<noteq> 0 \<longleftrightarrow> b" "flag_byte b = 0 \<longleftrightarrow> \<not> b"
  by (simp_all add: flag_byte_def)

lemma sizeof_record_value: "sizeof_record = 4606"
  by (simp add: sizeof_record_def SMS_MAX_ADDRESS_LENGTH_def SMS_TIMESTAMP_MAX_def
      SMS_MESSAGE_TEXT_MAX_def SMS_MAX_PDU_HEX_def SMS_MAX_PDU_OCTETS_def SMS_MAX_SEGMENTS_def)

lemma sizeof_record_u16 [simp]: "unat (word_of_nat sizeof_record :: u16) = sizeof_record"
  by (simp add: sizeof_record_value)

lemma record_roundtrip:
  "record_decode (record_encode m) = (if msg_id m \<noteq> 0 \<and> message_fields_ok m then Some m else None)"
proof (cases "msg_id m \<noteq> 0 \<and> message_fields_ok m")
  case True
  then show ?thesis
    by (simp add: record_decode_def record_encode_def message_fields_ok_def not_less)
next
  case False
  then show ?thesis
    by (auto simp add: record_decode_def record_encode_def message_fields_ok_def)
qed

lemma record_decode_ok:
  assumes "record_decode r = Some m"
  shows "msg_id m \<noteq> 0 \<and> message_fields_ok m"
  using assms by (auto simp: record_decode_def message_fields_ok_def split: if_splits)

section \<open>Slots\<close>

lemma code_eq_digit: "digit_char a = digit_char b \<Longrightarrow> a < 10 \<Longrightarrow> b < 10 \<Longrightarrow> a = b"
  by (metis add_left_cancel code_digit_char)

lemma digits_value_zeros:
  "digits_value 0 (replicate k (CHR ''0'') @ s) = digits_value 0 s"
  by (induction k) (auto simp: isdigit_def)

lemma digits_value_dec_pad: "fst (digits_value 0 (dec_pad w n)) = n"
  by (simp add: dec_pad_def digits_value_zeros digits_value_dec_aux)

lemma dec_pad_inj [simp]: "dec_pad w a = dec_pad w b \<longleftrightarrow> a = b"
  by (metis digits_value_dec_pad)

lemma slot_key_inj [simp]: "slot_key a = slot_key b \<longleftrightarrow> a = b"
  by (simp add: slot_key_def)

lemma slot_key_next_id [simp]: "slot_key a \<noteq> ''next_id''"
  by (simp add: slot_key_def)

lemma store_slots_set [simp]: "set store_slots = {..<SMS_STORE_MAX_RECORDS}" "distinct store_slots"
  by (auto simp: store_slots_def)

lemma load_slot_ok:
  assumes "load_slot ops n s = Inr (Some m)"
  shows "msg_id m \<noteq> 0 \<and> message_fields_ok m"
  using assms record_decode_ok
  by (auto simp: load_slot_def split: sum.splits option.splits if_splits prod.splits)

lemma load_slot_get_cong:
  "nvs_get_blob ops n' (slot_key s) = nvs_get_blob ops n (slot_key s) \<Longrightarrow>
   load_slot ops n' s = load_slot ops n s"
  by (simp add: load_slot_def)

lemma load_slot_encoded:
  "nvs_get_blob ops n (slot_key s) = Inr (sizeof_record, record_encode m) \<Longrightarrow>
   msg_id m \<noteq> 0 \<Longrightarrow> message_fields_ok m \<Longrightarrow> load_slot ops n s = Inr (Some m)"
  by (simp add: load_slot_def record_roundtrip)

lemma load_slot_missing:
  "nvs_get_blob ops n (slot_key s) = Inl ESP_ERR_NVS_NOT_FOUND \<Longrightarrow> load_slot ops n s = Inr None"
  by (simp add: load_slot_def)

text \<open>\<open>next_id\<close> as \<open>allocate_id\<close> reads it: 1 when it is missing or 0.\<close>

definition next_id :: "('n, persisted_record) nvs_ops \<Rightarrow> 'n \<Rightarrow> u32" where
  "next_id ops n =
     (case nvs_get_u32 ops n ''next_id'' of Inl _ \<Rightarrow> 1 | Inr w \<Rightarrow> if w = 0 then 1 else w)"

definition id_succ :: "u32 \<Rightarrow> u32" where
  "id_succ w = (if w + 1 = 0 then 1 else w + 1)"

definition take_id ::
    "('n, persisted_record) nvs_ops \<Rightarrow> 'n \<Rightarrow> esp_err \<times> u32 option \<times> 'n" where
  "take_id ops n =
     (case nvs_set_u32 ops ''next_id'' (id_succ (next_id ops n)) n of
        (e, n1) \<Rightarrow> (e, Some (next_id ops n), n1))"

lemma id_succ_ne [simp]: "id_succ w \<noteq> 0"
  by (simp add: id_succ_def)

lemma next_id_ne [simp]: "next_id ops n \<noteq> 0"
  by (simp add: next_id_def split: sum.splits)

lemma id_succ_less: "w \<noteq> UINT32_MAX \<Longrightarrow> w < id_succ w"
proof -
  assume "w \<noteq> UINT32_MAX"
  moreover have "UINT32_MAX = -1" by (simp add: UINT32_MAX_def)
  ultimately have "w \<noteq> -1" by simp
  then have "w + 1 \<noteq> 0" by (metis add_eq_0_iff2)
  then show ?thesis
    by (simp add: id_succ_def) (metis add.commute word_less_nat_alt unatSuc lessI)
qed

locale message_partition = nvs_partition ops for ops :: "('n, persisted_record) nvs_ops"
begin

lemma write_slot_ok:
  assumes "write_slot ops s m n = (ESP_OK, n')" and "msg_id m \<noteq> 0" and "message_fields_ok m"
  shows "load_slot ops n' s = Inr (Some m)"
  using assms set_blob_get commit_blob
  by (fastforce simp: write_slot_def intro: load_slot_encoded split: prod.splits if_splits)

lemma write_slot_any:
  assumes "write_slot ops s m n = (e, n')" and "msg_id m \<noteq> 0" and "message_fields_ok m"
  shows "load_slot ops n' s = load_slot ops n s \<or> load_slot ops n' s = Inr (Some m)"
proof -
  obtain e1 n1 where w: "nvs_set_blob ops (slot_key s) (sizeof_record, record_encode m) n = (e1, n1)"
    by fastforce
  have "nvs_get_blob ops n' (slot_key s) = nvs_get_blob ops n1 (slot_key s)"
    using assms(1) w commit_blob by (auto simp: write_slot_def split: if_splits)
  with set_blob_failed [OF w] show ?thesis
    using assms(2,3) by (metis load_slot_encoded load_slot_get_cong)
qed

lemma write_slot_other:
  assumes "write_slot ops s m n = (e, n')" and "t \<noteq> s"
  shows "load_slot ops n' t = load_slot ops n t"
proof -
  obtain e1 n1 where w: "nvs_set_blob ops (slot_key s) (sizeof_record, record_encode m) n = (e1, n1)"
    by fastforce
  then have "nvs_get_blob ops n1 (slot_key t) = nvs_get_blob ops n (slot_key t)"
    using assms(2) set_blob_other by simp
  then show ?thesis
    using assms(1) w commit_blob by (auto simp: write_slot_def intro: load_slot_get_cong split: if_splits)
qed

lemma write_slot_next: "write_slot ops s m n = (e, n') \<Longrightarrow> next_id ops n' = next_id ops n"
proof -
  assume a: "write_slot ops s m n = (e, n')"
  obtain e1 n1 where w: "nvs_set_blob ops (slot_key s) (sizeof_record, record_encode m) n = (e1, n1)"
    by fastforce
  then have "nvs_get_u32 ops n1 ''next_id'' = nvs_get_u32 ops n ''next_id''"
    using set_blob_u32 by (metis slot_key_next_id)
  then show ?thesis
    using a w commit_u32 by (auto simp: write_slot_def next_id_def split: if_splits)
qed

lemma erase_slot_ok: "erase_slot ops s n = (ESP_OK, n') \<Longrightarrow> load_slot ops n' s = Inr None"
  using erase_get commit_blob
  by (fastforce simp: erase_slot_def intro: load_slot_missing split: prod.splits if_splits)

lemma erase_slot_any:
  assumes "erase_slot ops s n = (e, n')"
  shows "load_slot ops n' s = load_slot ops n s \<or> load_slot ops n' s = Inr None"
proof -
  obtain e1 n1 where w: "nvs_erase_key ops (slot_key s) n = (e1, n1)" by fastforce
  have "nvs_get_blob ops n' (slot_key s) = nvs_get_blob ops n1 (slot_key s)"
    using assms(1) w commit_blob by (auto simp: erase_slot_def split: if_splits)
  with erase_failed [OF w] show ?thesis
    by (metis load_slot_missing load_slot_get_cong)
qed

lemma erase_slot_other:
  assumes "erase_slot ops s n = (e, n')" and "t \<noteq> s"
  shows "load_slot ops n' t = load_slot ops n t"
proof -
  obtain e1 n1 where w: "nvs_erase_key ops (slot_key s) n = (e1, n1)" by fastforce
  then have "nvs_get_blob ops n1 (slot_key t) = nvs_get_blob ops n (slot_key t)"
    using assms(2) erase_other by simp
  then show ?thesis
    using assms(1) w commit_blob by (auto simp: erase_slot_def intro: load_slot_get_cong split: if_splits)
qed

lemma erase_slot_next: "erase_slot ops s n = (e, n') \<Longrightarrow> next_id ops n' = next_id ops n"
proof -
  assume a: "erase_slot ops s n = (e, n')"
  obtain e1 n1 where w: "nvs_erase_key ops (slot_key s) n = (e1, n1)" by fastforce
  then have "nvs_get_u32 ops n1 ''next_id'' = nvs_get_u32 ops n ''next_id''"
    using erase_u32 by (metis slot_key_next_id)
  then show ?thesis
    using a w commit_u32 by (auto simp: erase_slot_def next_id_def split: if_splits)
qed

lemma allocate_id_eq:
  "allocate_id ops n =
     (case nvs_get_u32 ops n ''next_id'' of
        Inl e \<Rightarrow> if e \<noteq> ESP_ERR_NVS_NOT_FOUND then (e, None, n) else take_id ops n
      | Inr _ \<Rightarrow> take_id ops n)"
  by (auto simp: allocate_id_def take_id_def next_id_def Let_def id_succ_def split: sum.splits)

lemma take_id_load: "take_id ops n = (e, i, n') \<Longrightarrow> load_slot ops n' s = load_slot ops n s"
  using set_u32_blob slot_key_next_id
  by (auto simp: take_id_def intro!: load_slot_get_cong split: prod.splits)

lemma take_id_next:
  assumes "take_id ops n = (e, i, n')"
  shows "next_id ops n' = next_id ops n \<or> next_id ops n' = id_succ (next_id ops n)"
  using assms set_u32_failed [of "''next_id''" "id_succ (next_id ops n)" n e n']
  by (auto simp: take_id_def next_id_def split: prod.splits)

lemma allocate_load: "allocate_id ops n = (e, i, n') \<Longrightarrow> load_slot ops n' s = load_slot ops n s"
  using take_id_load by (auto simp: allocate_id_eq split: sum.splits if_splits)

lemma allocate_next:
  "allocate_id ops n = (e, i, n') \<Longrightarrow>
   next_id ops n' = next_id ops n \<or> next_id ops n' = id_succ (next_id ops n)"
  using take_id_next by (auto simp: allocate_id_eq split: sum.splits if_splits)

lemma allocate_ident:
  assumes "allocate_id ops n = (ESP_OK, i, n')"
  shows "i = Some (next_id ops n)" and "next_id ops n' = id_succ (next_id ops n)"
proof -
  have t: "take_id ops n = (ESP_OK, i, n')"
    using assms get_u32_error [of n "''next_id''"]
    by (auto simp: allocate_id_eq split: sum.splits if_splits)
  then show "i = Some (next_id ops n)" by (auto simp: take_id_def split: prod.splits)
  from t have "nvs_get_u32 ops n' ''next_id'' = Inr (id_succ (next_id ops n))"
    using set_u32_get by (auto simp: take_id_def split: prod.splits)
  then show "next_id ops n' = id_succ (next_id ops n)"
    by (simp add: next_id_def [of ops n'])
qed

end

end
