(* ===== verification/Sms_Store_Map.thy ===== *)
theory Sms_Store_Map
  imports Sms_Store_Slots
begin

text \<open>
  The message store as a map from identifiers to messages: the abstraction \<open>store_map\<close>, the
  well-formedness of the slots behind it, and each operation of \<open>sms_store.c\<close> as an update of
  or a query to that map, for every answer the partition may give.
\<close>

section \<open>The store as a map from identifiers to messages\<close>

definition stored :: "('n, persisted_record) nvs_ops \<Rightarrow> 'n \<Rightarrow> sms_message list" where
  "stored ops n = map snd (held (load_slot ops n) store_slots)"

definition store_map :: "('n, persisted_record) nvs_ops \<Rightarrow> 'n \<Rightarrow> u32 \<rightharpoonup> sms_message" where
  "store_map ops n = map_of (map (\<lambda>m. (msg_id m, m)) (stored ops n))"

definition store_wf :: "('n, persisted_record) nvs_ops \<Rightarrow> 'n \<Rightarrow> bool" where
  "store_wf ops n \<longleftrightarrow>
     readable (load_slot ops n) store_slots \<and> distinct (map msg_id (stored ops n))"

definition store_inv :: "('n, persisted_record) nvs_ops \<Rightarrow> 'n \<Rightarrow> bool" where
  "store_inv ops n \<longleftrightarrow>
     store_wf ops n \<and> list_all (\<lambda>m. msg_id m < next_id ops n) (stored ops n)"

lemma set_stored: "set (stored ops n) = {m. \<exists>s<SMS_STORE_MAX_RECORDS. load_slot ops n s = Inr (Some m)}"
  by (auto simp: stored_def set_held image_iff)

definition ids_distinct :: "('n, persisted_record) nvs_ops \<Rightarrow> 'n \<Rightarrow> bool" where
  "ids_distinct ops n \<longleftrightarrow>
     (\<forall>s<SMS_STORE_MAX_RECORDS. \<forall>t<SMS_STORE_MAX_RECORDS. \<forall>m m'.
        load_slot ops n s = Inr (Some m) \<longrightarrow> load_slot ops n t = Inr (Some m') \<longrightarrow>
        msg_id m = msg_id m' \<longrightarrow> s = t)"

lemma distinct_stored: "distinct (map msg_id (stored ops n)) \<longleftrightarrow> ids_distinct ops n"
proof -
  have "distinct (held (load_slot ops n) store_slots)"
    using distinct_held by (metis distinct_map store_slots_set(2))
  then have "distinct (map msg_id (stored ops n)) \<longleftrightarrow>
      inj_on (\<lambda>x. msg_id (snd x)) (set (held (load_slot ops n) store_slots))"
    by (simp add: stored_def distinct_map comp_def)
  then show ?thesis
    by (auto simp: inj_on_def set_held ids_distinct_def)
qed

lemma store_wf_readable: "store_wf ops n \<Longrightarrow> s < SMS_STORE_MAX_RECORDS \<Longrightarrow> \<exists>x. load_slot ops n s = Inr x"
  by (auto simp: store_wf_def dest: readableD)

lemma store_map_iff:
  assumes "store_wf ops n"
  shows "store_map ops n i = Some m \<longleftrightarrow>
           (\<exists>s<SMS_STORE_MAX_RECORDS. load_slot ops n s = Inr (Some m)) \<and> msg_id m = i"
proof -
  have "distinct (map fst (map (\<lambda>m. (msg_id m, m)) (stored ops n)))"
    using assms by (simp add: store_wf_def comp_def)
  from map_of_eq_Some_iff [OF this] show ?thesis
    by (auto simp: store_map_def set_stored image_iff)
qed

lemma store_map_None:
  "store_map ops n i = None \<longleftrightarrow>
     (\<forall>s<SMS_STORE_MAX_RECORDS. \<forall>m. load_slot ops n s = Inr (Some m) \<longrightarrow> msg_id m \<noteq> i)"
  by (auto simp: store_map_def map_of_eq_None_iff set_stored image_iff)

lemma store_map_fields: "store_wf ops n \<Longrightarrow> store_map ops n i = Some m \<Longrightarrow> msg_id m = i \<and> i \<noteq> 0 \<and> message_fields_ok m"
  by (auto simp: store_map_iff dest: load_slot_ok)

lemma store_inv_iff:
  "store_inv ops n \<longleftrightarrow> store_wf ops n \<and> (\<forall>i m. store_map ops n i = Some m \<longrightarrow> i < next_id ops n)"
proof (cases "store_wf ops n")
  case True
  then show ?thesis by (simp add: store_inv_def list_all_iff store_map_iff set_stored) blast
qed (simp add: store_inv_def)

subsection \<open>One slot changes\<close>

lemma option_eqI: "(\<And>k. a = Some k \<longleftrightarrow> b = Some k) \<Longrightarrow> a = b"
  by (metis option.exhaust)

lemma slot_written:
  assumes wf: "store_wf ops n" and s: "s < SMS_STORE_MAX_RECORDS"
    and other: "\<And>t. t \<noteq> s \<Longrightarrow> load_slot ops n' t = load_slot ops n t"
    and new: "load_slot ops n' s = Inr (Some m)"
    and old: "load_slot ops n s = Inr x" "case x of None \<Rightarrow> True | Some m0 \<Rightarrow> msg_id m0 = msg_id m"
    and fresh: "x = None \<Longrightarrow> store_map ops n (msg_id m) = None"
  shows "store_wf ops n' \<and> store_map ops n' = (store_map ops n)(msg_id m \<mapsto> m)"
proof -
  have d: "ids_distinct ops n" using wf by (simp add: store_wf_def distinct_stored)
  have alone: "msg_id m' \<noteq> msg_id m"
    if "t \<noteq> s" "t < SMS_STORE_MAX_RECORDS" "load_slot ops n t = Inr (Some m')" for t m'
    using that old fresh d s by (cases x) (auto simp: store_map_None ids_distinct_def)
  have "readable (load_slot ops n') store_slots"
  proof (rule readableI)
    fix t assume "t \<in> set store_slots"
    then show "\<exists>x. load_slot ops n' t = Inr x"
      using new other [of t] store_wf_readable [OF wf, of t] by (cases "t = s") auto
  qed
  moreover have "ids_distinct ops n'"
    unfolding ids_distinct_def
  proof (intro allI impI)
    fix t u m1 m2
    assume b: "t < SMS_STORE_MAX_RECORDS" "u < SMS_STORE_MAX_RECORDS"
      and l: "load_slot ops n' t = Inr (Some m1)" "load_slot ops n' u = Inr (Some m2)"
      and e: "msg_id m1 = msg_id m2"
    consider "t = s" "u = s" | "t = s" "u \<noteq> s" | "t \<noteq> s" "u = s" | "t \<noteq> s" "u \<noteq> s" by blast
    then show "t = u"
    proof cases
      case 2
      then show ?thesis using alone [of u m2] b l e new other [of u] by simp
    next
      case 3
      then show ?thesis using alone [of t m1] b l e new other [of t] by simp
    next
      case 4
      then have "load_slot ops n t = Inr (Some m1)" "load_slot ops n u = Inr (Some m2)"
        using l other by simp_all
      then show ?thesis using d b e unfolding ids_distinct_def by blast
    qed simp
  qed
  ultimately have wf': "store_wf ops n'" by (simp add: store_wf_def distinct_stored)
  have at: "store_map ops n' (msg_id m) = Some m"
    using new s by (auto simp: store_map_iff [OF wf'])
  have off: "store_map ops n' i = store_map ops n i" if i: "i \<noteq> msg_id m" for i
  proof (rule option_eqI)
    fix k
    have "load_slot ops n t = Inr (Some k) \<longleftrightarrow> load_slot ops n' t = Inr (Some k)" if "msg_id k = i" for t
      using new other [of t] old i that by (cases "t = s"; cases x) auto
    then show "store_map ops n' i = Some k \<longleftrightarrow> store_map ops n i = Some k"
      unfolding store_map_iff [OF wf'] store_map_iff [OF wf] by blast
  qed
  have "store_map ops n' = (store_map ops n)(msg_id m \<mapsto> m)"
    by (rule ext) (simp add: at off)
  with wf' show ?thesis ..
qed

lemma slot_cleared:
  assumes wf: "store_wf ops n" and s: "s < SMS_STORE_MAX_RECORDS"
    and other: "\<And>t. t \<noteq> s \<Longrightarrow> load_slot ops n' t = load_slot ops n t"
    and new: "load_slot ops n' s = Inr None" and old: "load_slot ops n s = Inr (Some m)"
  shows "store_wf ops n' \<and> store_map ops n' = (store_map ops n)(msg_id m := None)"
proof -
  have d: "ids_distinct ops n" using wf by (simp add: store_wf_def distinct_stored)
  have "readable (load_slot ops n') store_slots"
  proof (rule readableI)
    fix t assume "t \<in> set store_slots"
    then show "\<exists>x. load_slot ops n' t = Inr x"
      using new other [of t] store_wf_readable [OF wf, of t] by (cases "t = s") auto
  qed
  moreover have "ids_distinct ops n'"
    unfolding ids_distinct_def
  proof (intro allI impI)
    fix t u m1 m2
    assume b: "t < SMS_STORE_MAX_RECORDS" "u < SMS_STORE_MAX_RECORDS"
      and l: "load_slot ops n' t = Inr (Some m1)" "load_slot ops n' u = Inr (Some m2)"
      and e: "msg_id m1 = msg_id m2"
    then have "t \<noteq> s" "u \<noteq> s" using new by auto
    then have "load_slot ops n t = Inr (Some m1)" "load_slot ops n u = Inr (Some m2)"
      using l other by simp_all
    then show "t = u" using d b e unfolding ids_distinct_def by blast
  qed
  ultimately have wf': "store_wf ops n'" by (simp add: store_wf_def distinct_stored)
  have at: "store_map ops n' (msg_id m) = None"
    unfolding store_map_None
  proof (intro allI impI)
    fix t k assume t: "t < SMS_STORE_MAX_RECORDS" "load_slot ops n' t = Inr (Some k)"
    then have "t \<noteq> s" using new by auto
    then show "msg_id k \<noteq> msg_id m" using t other [of t] d s old unfolding ids_distinct_def by metis
  qed
  have off: "store_map ops n' i = store_map ops n i" if i: "i \<noteq> msg_id m" for i
  proof (rule option_eqI)
    fix k
    have "load_slot ops n t = Inr (Some k) \<longleftrightarrow> load_slot ops n' t = Inr (Some k)" if "msg_id k = i" for t
      using new other [of t] old i that by (cases "t = s") auto
    then show "store_map ops n' i = Some k \<longleftrightarrow> store_map ops n i = Some k"
      unfolding store_map_iff [OF wf'] store_map_iff [OF wf] by blast
  qed
  have "store_map ops n' = (store_map ops n)(msg_id m := None)"
    by (rule ext) (simp add: at off)
  with wf' show ?thesis ..
qed

lemma same_slots:
  assumes "store_wf ops n" and "\<And>t. load_slot ops n' t = load_slot ops n t"
  shows "store_wf ops n' \<and> store_map ops n' = store_map ops n"
proof -
  have "load_slot ops n' = load_slot ops n" using assms(2) by auto
  then show ?thesis using assms(1) by (simp add: store_wf_def store_map_def stored_def)
qed

subsection \<open>The searches\<close>

lemma find_id_slot_Inr:
  "find_id_slot ops n i = Inr s \<Longrightarrow>
   s < SMS_STORE_MAX_RECORDS \<and> (\<exists>m. load_slot ops n s = Inr (Some m) \<and> msg_id m = i)"
  by (auto simp: find_id_slot_def dest!: scan_until_Some split: sum.splits option.splits)

lemma find_id_slot_Inl:
  assumes "store_wf ops n" and "find_id_slot ops n i = Inl e"
  shows "e = ESP_ERR_NOT_FOUND \<and> store_map ops n i = None"
proof -
  have "scan_until (load_slot ops n) P store_slots \<noteq> Inl e'" for P e'
    using assms(1) by (simp add: store_wf_def scan_until_find)
  then show ?thesis
    using assms(2) by (auto simp: find_id_slot_def store_map_None dest!: scan_until_None split: sum.splits option.splits)
qed

lemma find_id_slot_known:
  assumes "store_wf ops n" and "store_map ops n i = Some m"
  obtains s where "find_id_slot ops n i = Inr s" "s < SMS_STORE_MAX_RECORDS" "load_slot ops n s = Inr (Some m)"
proof (cases "find_id_slot ops n i")
  case (Inl e)
  then show ?thesis using find_id_slot_Inl [OF assms(1) Inl] assms(2) by simp
next
  case (Inr s)
  from find_id_slot_Inr [OF this] obtain m' where "s < SMS_STORE_MAX_RECORDS"
    "load_slot ops n s = Inr (Some m')" "msg_id m' = i" by auto
  moreover from this have "m' = m" using assms store_map_iff [OF assms(1), of i m'] by auto
  ultimately show ?thesis using that Inr by blast
qed

lemma find_empty_slot_Inr:
  "find_empty_slot ops n = Inr s \<Longrightarrow> s < SMS_STORE_MAX_RECORDS \<and> load_slot ops n s = Inr None"
  by (auto simp: find_empty_slot_def dest!: scan_until_Some split: sum.splits option.splits)

lemma find_empty_slot_Inl:
  assumes "store_wf ops n" and "find_empty_slot ops n = Inl e"
  shows "e = ESP_ERR_NO_MEM \<and> (\<forall>s<SMS_STORE_MAX_RECORDS. \<exists>m. load_slot ops n s = Inr (Some m))"
proof -
  have "scan_until (load_slot ops n) P store_slots \<noteq> Inl e'" for P e'
    using assms(1) by (simp add: store_wf_def scan_until_find)
  then show ?thesis
    using assms(2) by (auto simp: find_empty_slot_def dest!: scan_until_None split: sum.splits option.splits)
qed

lemma oldest_fold:
  assumes "fold (\<lambda>(s, r). oldest_step P s r) xs (was, best, slot) = (was', best', slot')"
  shows "best' \<le> best \<and> (\<forall>(t, m) \<in> set xs. P m \<longrightarrow> best' \<le> msg_id m) \<and>
    (was' \<longrightarrow> was \<and> (best', slot') = (best, slot) \<or> (\<exists>m. (slot', m) \<in> set xs \<and> P m \<and> msg_id m = best')) \<and>
    (\<not> was' \<longrightarrow> \<not> was \<and> best' = best) \<and> (was' \<longrightarrow> was \<or> best' < best)"
  using assms
proof (induction xs arbitrary: was best slot)
  case Nil
  then show ?case by auto
next
  case (Cons x xs)
  obtain s r where x: "x = (s, r)" by fastforce
  show ?case
  proof (cases "P r \<and> msg_id r < best")
    case True
    then have "oldest_step P s r (was, best, slot) = (True, msg_id r, s)" by (simp add: oldest_step_def)
    with Cons.prems x have "fold (\<lambda>(s, r). oldest_step P s r) xs (True, msg_id r, s) = (was', best', slot')"
      by simp
    from Cons.IH [OF this] True x show ?thesis by auto
  next
    case False
    then have "oldest_step P s r (was, best, slot) = (was, best, slot)" by (auto simp: oldest_step_def)
    with Cons.prems x have "fold (\<lambda>(s, r). oldest_step P s r) xs (was, best, slot) = (was', best', slot')"
      by simp
    from Cons.IH [OF this] False x show ?thesis by auto
  qed
qed

lemma UINT32_MAX_max [simp]: "w \<le> UINT32_MAX" "UINT32_MAX \<le> w \<longleftrightarrow> w = UINT32_MAX"
proof -
  have m: "UINT32_MAX = -1" by (simp add: UINT32_MAX_def)
  show "w \<le> UINT32_MAX" by (simp add: m)
  then show "UINT32_MAX \<le> w \<longleftrightarrow> w = UINT32_MAX" by auto
qed

text \<open>
  What the loop for the oldest record finds: a record of least identifier among those accepted,
  or nothing when each of them has the identifier \<open>UINT32_MAX\<close>.
\<close>

definition oldest_scan where
  "oldest_scan ops P n =
     scan_all (load_slot ops n) (on_record (oldest_step P)) store_slots (False, UINT32_MAX, 0)"

lemma oldest_scan_wf:
  assumes "store_wf ops n"
  obtains (found) s m where "oldest_scan ops P n = Inr (True, msg_id m, s)" "s < SMS_STORE_MAX_RECORDS"
      "load_slot ops n s = Inr (Some m)" "P m" "msg_id m \<noteq> UINT32_MAX"
      "\<And>i m'. store_map ops n i = Some m' \<Longrightarrow> P m' \<Longrightarrow> msg_id m \<le> i"
  | (none) b s where "oldest_scan ops P n = Inr (False, b, s)"
      "\<And>i m'. store_map ops n i = Some m' \<Longrightarrow> P m' \<Longrightarrow> i = UINT32_MAX"
proof -
  obtain was b s where f: "fold (\<lambda>(s, r). oldest_step P s r) (held (load_slot ops n) store_slots)
      (False, UINT32_MAX, 0) = (was, b, s)" by (metis surj_pair)
  have r: "oldest_scan ops P n = Inr (was, b, s)"
    using assms f by (simp add: oldest_scan_def scan_all_held store_wf_def)
  note o = oldest_fold [OF f]
  have le: "b \<le> i" if "store_map ops n i = Some m'" "P m'" for i m'
    using o that assms by (auto simp: store_map_iff set_held)
  show ?thesis
  proof (cases was)
    case True
    with o obtain m where "(s, m) \<in> set (held (load_slot ops n) store_slots)" "P m" "msg_id m = b"
      by auto
    moreover have "b \<noteq> UINT32_MAX" using o True by auto
    ultimately show ?thesis using found [of m s] r True le by (auto simp: set_held)
  next
    case False
    with o have "b = UINT32_MAX" by auto
    with r False le none show ?thesis by (metis UINT32_MAX_max(2))
  qed
qed

section \<open>The operations on the map\<close>

text \<open>The record that makes room for a new one: the oldest prunable record of a full store.\<close>

definition prune_victim :: "('n, persisted_record) nvs_ops \<Rightarrow> 'n sms_store \<Rightarrow> u32 \<Rightarrow> bool" where
  "prune_victim ops st v \<longleftrightarrow>
     (\<forall>s<SMS_STORE_MAX_RECORDS. load_slot ops (st_nvs st) s \<noteq> Inr None) \<and>
     (\<exists>m. store_map ops (st_nvs st) v = Some m \<and>
          record_prunable (st_replay_protection_enabled st) (st_replay_watermark st) m) \<and>
     (\<forall>i m. store_map ops (st_nvs st) i = Some m \<longrightarrow>
          record_prunable (st_replay_protection_enabled st) (st_replay_watermark st) m \<longrightarrow> v \<le> i)"

definition room_made :: "('n, persisted_record) nvs_ops \<Rightarrow> 'n sms_store \<Rightarrow> (u32 \<rightharpoonup> sms_message) \<Rightarrow> bool" where
  "room_made ops st f \<longleftrightarrow>
     f = store_map ops (st_nvs st) \<or>
     (\<exists>v. prune_victim ops st v \<and> f = (store_map ops (st_nvs st))(v := None))"

lemma find_prunable_slot_scan:
  "find_prunable_slot ops protection watermark n =
     (case oldest_scan ops (record_prunable protection watermark) n of
        Inl e \<Rightarrow> Inl e
      | Inr (was, _, slot) \<Rightarrow> if was then Inr slot else Inl ESP_ERR_NO_MEM)"
  by (simp add: find_prunable_slot_def oldest_scan_def)

lemma find_prunable_slot_Inr:
  assumes "store_wf ops n" and "find_prunable_slot ops protection watermark n = Inr s"
  obtains m where "s < SMS_STORE_MAX_RECORDS" "load_slot ops n s = Inr (Some m)"
    "record_prunable protection watermark m"
    "\<And>i m'. store_map ops n i = Some m' \<Longrightarrow> record_prunable protection watermark m' \<Longrightarrow> msg_id m \<le> i"
proof (cases rule: oldest_scan_wf [OF assms(1), of "record_prunable protection watermark"])
  case (1 t m)
  then show ?thesis using that assms(2) by (auto simp: find_prunable_slot_scan)
next
  case (2 b t)
  then show ?thesis using assms(2) by (simp add: find_prunable_slot_scan)
qed

lemma find_prunable_slot_Inl:
  assumes "store_wf ops n" and "find_prunable_slot ops protection watermark n = Inl e"
  shows "e = ESP_ERR_NO_MEM \<and> (\<forall>i m. store_map ops n i = Some m \<longrightarrow>
           record_prunable protection watermark m \<longrightarrow> i = UINT32_MAX)"
proof (cases rule: oldest_scan_wf [OF assms(1), of "record_prunable protection watermark"])
  case (1 t m)
  then show ?thesis using assms(2) by (auto simp: find_prunable_slot_scan)
next
  case (2 b t)
  then show ?thesis using assms(2) by (auto simp: find_prunable_slot_scan)
qed

context message_partition
begin

lemma written_at:
  assumes wf: "store_wf ops n" and s: "s < SMS_STORE_MAX_RECORDS" and x: "load_slot ops n s = Inr x"
    and old: "case x of None \<Rightarrow> store_map ops n (msg_id m) = None | Some m0 \<Rightarrow> msg_id m0 = msg_id m"
    and w: "write_slot ops s m n = (e, n')" and m: "msg_id m \<noteq> 0" "message_fields_ok m"
  shows "store_wf ops n'" and "next_id ops n' = next_id ops n"
    and "store_map ops n' = store_map ops n \<or> store_map ops n' = (store_map ops n)(msg_id m \<mapsto> m)"
    and "e = ESP_OK \<Longrightarrow> store_map ops n' = (store_map ops n)(msg_id m \<mapsto> m)"
proof -
  have o: "load_slot ops n' t = load_slot ops n t" if "t \<noteq> s" for t
    using write_slot_other [OF w that] .
  have wr: "store_wf ops n' \<and> store_map ops n' = (store_map ops n)(msg_id m \<mapsto> m)"
    if "load_slot ops n' s = Inr (Some m)"
    by (rule slot_written [OF wf s o that x]) (use old in \<open>auto split: option.splits\<close>)
  have any: "store_wf ops n' \<and> (store_map ops n' = store_map ops n \<or>
      store_map ops n' = (store_map ops n)(msg_id m \<mapsto> m))"
  proof (cases "load_slot ops n' s = Inr (Some m)")
    case False
    with write_slot_any [OF w m] have "load_slot ops n' t = load_slot ops n t" for t
      using o by (cases "t = s") auto
    from same_slots [OF wf this] show ?thesis by blast
  qed (use wr in blast)
  then show "store_wf ops n'"
    and "store_map ops n' = store_map ops n \<or> store_map ops n' = (store_map ops n)(msg_id m \<mapsto> m)"
    by blast+
  show "next_id ops n' = next_id ops n" using write_slot_next [OF w] .
  show "store_map ops n' = (store_map ops n)(msg_id m \<mapsto> m)" if "e = ESP_OK"
    using wr write_slot_ok w m that by blast
qed

lemma erased_at:
  assumes wf: "store_wf ops n" and s: "s < SMS_STORE_MAX_RECORDS" and x: "load_slot ops n s = Inr (Some m)"
    and w: "erase_slot ops s n = (e, n')"
  shows "store_wf ops n'" and "next_id ops n' = next_id ops n"
    and "store_map ops n' = store_map ops n \<or> store_map ops n' = (store_map ops n)(msg_id m := None)"
    and "e = ESP_OK \<Longrightarrow> store_map ops n' = (store_map ops n)(msg_id m := None) \<and> load_slot ops n' s = Inr None"
proof -
  have o: "load_slot ops n' t = load_slot ops n t" if "t \<noteq> s" for t
    using erase_slot_other [OF w that] .
  have er: "store_wf ops n' \<and> store_map ops n' = (store_map ops n)(msg_id m := None)"
    if "load_slot ops n' s = Inr None"
    by (rule slot_cleared [OF wf s o that x])
  have any: "store_wf ops n' \<and> (store_map ops n' = store_map ops n \<or>
      store_map ops n' = (store_map ops n)(msg_id m := None))"
  proof (cases "load_slot ops n' s = Inr None")
    case False
    with erase_slot_any [OF w] have "load_slot ops n' t = load_slot ops n t" for t
      using o by (cases "t = s") auto
    from same_slots [OF wf this] show ?thesis by blast
  qed (use er in blast)
  then show "store_wf ops n'"
    and "store_map ops n' = store_map ops n \<or> store_map ops n' = (store_map ops n)(msg_id m := None)"
    by blast+
  show "next_id ops n' = next_id ops n" using erase_slot_next [OF w] .
  show "store_map ops n' = (store_map ops n)(msg_id m := None) \<and> load_slot ops n' s = Inr None" if "e = ESP_OK"
    using er erase_slot_ok w that by blast
qed

lemma choose_new_slot_spec:
  assumes wf: "store_wf ops (st_nvs st)" and c: "choose_new_slot ops st = (r, st1)"
  shows "store_wf ops (st_nvs st1)" and "next_id ops (st_nvs st1) = next_id ops (st_nvs st)"
    and "room_made ops st (store_map ops (st_nvs st1))"
    and "r = Inr s \<Longrightarrow> s < SMS_STORE_MAX_RECORDS \<and> load_slot ops (st_nvs st1) s = Inr None"
    and "r \<noteq> Inl ESP_OK"
proof -
  let ?n = "st_nvs st"
  have *: "store_wf ops (st_nvs st1) \<and> next_id ops (st_nvs st1) = next_id ops ?n \<and>
     room_made ops st (store_map ops (st_nvs st1)) \<and>
     (\<forall>s. r = Inr s \<longrightarrow> s < SMS_STORE_MAX_RECORDS \<and> load_slot ops (st_nvs st1) s = Inr None) \<and>
     r \<noteq> Inl ESP_OK"
  proof (cases "find_empty_slot ops ?n")
    case (Inr t)
    then show ?thesis using c wf find_empty_slot_Inr [OF Inr] by (auto simp: choose_new_slot_def room_made_def)
  next
    case (Inl e)
    from find_empty_slot_Inl [OF wf Inl] have e: "e = ESP_ERR_NO_MEM"
      and full: "\<forall>s<SMS_STORE_MAX_RECORDS. load_slot ops ?n s \<noteq> Inr None" by auto
    show ?thesis
    proof (cases "find_prunable_slot ops (st_replay_protection_enabled st) (st_replay_watermark st) ?n")
      case (Inl e')
      with \<open>find_empty_slot ops ?n = Inl e\<close> e c wf find_prunable_slot_Inl [OF wf Inl] show ?thesis
        by (auto simp: choose_new_slot_def room_made_def)
    next
      case (Inr t)
      from find_prunable_slot_Inr [OF wf Inr] obtain m where t: "t < SMS_STORE_MAX_RECORDS"
        and l: "load_slot ops ?n t = Inr (Some m)"
        and p: "record_prunable (st_replay_protection_enabled st) (st_replay_watermark st) m"
        and old: "\<And>i m'. store_map ops ?n i = Some m' \<Longrightarrow>
          record_prunable (st_replay_protection_enabled st) (st_replay_watermark st) m' \<Longrightarrow> msg_id m \<le> i"
        by blast
      have v: "prune_victim ops st (msg_id m)"
        unfolding prune_victim_def using full old p l t store_map_iff [OF wf] by blast
      obtain e1 n1 where er: "erase_slot ops t ?n = (e1, n1)" by fastforce
      note ea = erased_at [OF wf t l er]
      have st1: "st_nvs st1 = n1 \<and> (\<forall>s. r = Inr s \<longrightarrow> s = t \<and> e1 = ESP_OK) \<and> r \<noteq> Inl ESP_OK"
        using c \<open>find_empty_slot ops ?n = Inl e\<close> e Inr er by (auto simp: choose_new_slot_def split: if_splits)
      have "room_made ops st (store_map ops n1)" using ea(3) v unfolding room_made_def by blast
      with st1 ea t show ?thesis by auto
    qed
  qed
  then show "store_wf ops (st_nvs st1)" "next_id ops (st_nvs st1) = next_id ops ?n"
    "room_made ops st (store_map ops (st_nvs st1))"
    "r = Inr s \<Longrightarrow> s < SMS_STORE_MAX_RECORDS \<and> load_slot ops (st_nvs st1) s = Inr None"
    "r \<noteq> Inl ESP_OK" by blast+
qed

end

lemma room_made_inv:
  "room_made ops st f \<Longrightarrow> f i = Some m \<Longrightarrow> store_map ops (st_nvs st) i = Some m"
  by (auto simp: room_made_def split: if_splits)

text \<open>The outcome of saving a new message, whatever the partition answers.\<close>

context message_partition
begin

lemma save_new:
  assumes inv: "store_inv ops (st_nvs st)" and init: "st_initialized st" "msg_id m = 0" "message_fields_ok m"
    and c: "sms_store_save ops m st = (e, m', st')"
  defines "i \<equiv> next_id ops (st_nvs st)"
  shows "store_wf ops (st_nvs st')"
    and "next_id ops (st_nvs st') = i \<or> next_id ops (st_nvs st') = id_succ i"
    and "\<exists>f. room_made ops st f \<and> (store_map ops (st_nvs st') = f \<or>
           store_map ops (st_nvs st') = f(i \<mapsto> m\<lparr>msg_id := i\<rparr>) \<and> next_id ops (st_nvs st') = id_succ i)"
    and "e = ESP_OK \<Longrightarrow> m' = m\<lparr>msg_id := i\<rparr> \<and>
           (\<exists>f. room_made ops st f \<and> store_map ops (st_nvs st') = f(i \<mapsto> m'))"
proof -
  let ?n = "st_nvs st"
  have wf: "store_wf ops ?n" using inv by (simp add: store_inv_def)
  obtain r st1 where ch: "choose_new_slot ops st = (r, st1)" by fastforce
  note cs = choose_new_slot_spec [OF wf ch]
  have *: "store_wf ops (st_nvs st') \<and>
      (next_id ops (st_nvs st') = i \<or> next_id ops (st_nvs st') = id_succ i) \<and>
      (\<exists>f. room_made ops st f \<and> (store_map ops (st_nvs st') = f \<or>
           store_map ops (st_nvs st') = f(i \<mapsto> m\<lparr>msg_id := i\<rparr>) \<and> next_id ops (st_nvs st') = id_succ i)) \<and>
      (e = ESP_OK \<longrightarrow> m' = m\<lparr>msg_id := i\<rparr> \<and> (\<exists>f. room_made ops st f \<and> store_map ops (st_nvs st') = f(i \<mapsto> m')))"
  proof (cases r)
    case (Inl e1)
    then have "st_nvs st' = st_nvs st1" "e = e1" using c ch init by (auto simp: sms_store_save_def split: if_splits)
    with cs Inl show ?thesis by (auto simp: i_def)
  next
    case (Inr s)
    obtain e1 ident n1 where a: "allocate_id ops (st_nvs st1) = (e1, ident, n1)" by (metis surj_pair)
    have l1: "load_slot ops n1 t = load_slot ops (st_nvs st1) t" for t using allocate_load [OF a] .
    note ss = same_slots [OF cs(1) l1]
    have nx: "next_id ops n1 = i \<or> next_id ops n1 = id_succ i"
      using allocate_next [OF a] cs(2) by (simp add: i_def)
    show ?thesis
    proof (cases "e1 = ESP_OK")
      case False
      then have "st_nvs st' = n1" "e = e1" using c ch init Inr a by (auto simp: sms_store_save_def Let_def)
      with False ss nx cs show ?thesis by auto
    next
      case True
      with allocate_ident a cs(2) have id: "ident = Some i" "next_id ops n1 = id_succ i"
        by (auto simp: i_def)
      obtain e2 n2 where w: "write_slot ops s (m\<lparr>msg_id := i\<rparr>) n1 = (e2, n2)" by fastforce
      have st': "st_nvs st' = n2" "e = e2" "e2 = ESP_OK \<Longrightarrow> m' = m\<lparr>msg_id := i\<rparr>"
        using c ch init Inr a True id w by (auto simp: sms_store_save_def Let_def split: if_splits)
      have "store_map ops ?n i = None"
        using inv by (auto simp: store_inv_iff i_def)
      then have fr: "store_map ops n1 i = None"
        using ss room_made_inv [OF cs(3), of i] by (metis not_None_eq)
      have ls: "s < SMS_STORE_MAX_RECORDS" "load_slot ops n1 s = Inr None" using cs(4) [OF Inr] l1 by auto
      have mi: "msg_id (m\<lparr>msg_id := i\<rparr>) \<noteq> 0" by (simp add: i_def)
      have mf: "message_fields_ok (m\<lparr>msg_id := i\<rparr>)" using init(3) by (simp add: message_fields_ok_def)
      have wa: "store_wf ops n2" "next_id ops n2 = id_succ i"
        "store_map ops n2 = store_map ops (st_nvs st1) \<or> store_map ops n2 = (store_map ops (st_nvs st1))(i \<mapsto> m\<lparr>msg_id := i\<rparr>)"
        "e2 = ESP_OK \<Longrightarrow> store_map ops n2 = (store_map ops (st_nvs st1))(i \<mapsto> m\<lparr>msg_id := i\<rparr>)"
        using written_at [OF _ ls _ w mi mf] ss fr id by auto
      show ?thesis using wa st' cs(3) by auto
    qed
  qed
  then show "store_wf ops (st_nvs st')"
    "next_id ops (st_nvs st') = i \<or> next_id ops (st_nvs st') = id_succ i"
    "\<exists>f. room_made ops st f \<and> (store_map ops (st_nvs st') = f \<or>
           store_map ops (st_nvs st') = f(i \<mapsto> m\<lparr>msg_id := i\<rparr>) \<and> next_id ops (st_nvs st') = id_succ i)"
    "e = ESP_OK \<Longrightarrow> m' = m\<lparr>msg_id := i\<rparr> \<and>
       (\<exists>f. room_made ops st f \<and> store_map ops (st_nvs st') = f(i \<mapsto> m'))" by blast+
qed

end

context message_partition
begin

lemma save_known:
  assumes wf: "store_wf ops (st_nvs st)"
    and m: "st_initialized st" "msg_id m \<noteq> 0" "message_fields_ok m"
    and c: "sms_store_save ops m st = (e, m', st')"
  shows "store_wf ops (st_nvs st')" and "next_id ops (st_nvs st') = next_id ops (st_nvs st)" and "m' = m"
    and "store_map ops (st_nvs st') = store_map ops (st_nvs st) \<or>
         store_map ops (st_nvs st') = (store_map ops (st_nvs st))(msg_id m \<mapsto> m)"
    and "e = ESP_OK \<Longrightarrow> store_map ops (st_nvs st') = (store_map ops (st_nvs st))(msg_id m \<mapsto> m)"
proof -
  let ?n = "st_nvs st"
  have *: "store_wf ops (st_nvs st') \<and> next_id ops (st_nvs st') = next_id ops ?n \<and> m' = m \<and>
    (store_map ops (st_nvs st') = store_map ops ?n \<or> store_map ops (st_nvs st') = (store_map ops ?n)(msg_id m \<mapsto> m)) \<and>
    (e = ESP_OK \<longrightarrow> store_map ops (st_nvs st') = (store_map ops ?n)(msg_id m \<mapsto> m))"
  proof (cases "find_id_slot ops ?n (msg_id m)")
    case (Inr s)
    from find_id_slot_Inr [OF this] obtain m0 where s: "s < SMS_STORE_MAX_RECORDS"
      and l: "load_slot ops ?n s = Inr (Some m0)" and i: "msg_id m0 = msg_id m" by auto
    obtain e1 n1 where w: "write_slot ops s m ?n = (e1, n1)" by fastforce
    have "st_nvs st' = n1 \<and> m' = m \<and> e = e1" using c m Inr w by (auto simp: sms_store_save_def)
    with written_at [OF wf s l _ w m(2,3)] i show ?thesis by auto
  next
    case (Inl e0)
    from find_id_slot_Inl [OF wf Inl] have e0: "e0 = ESP_ERR_NOT_FOUND" and f: "store_map ops ?n (msg_id m) = None" by auto
    show ?thesis
    proof (cases "find_empty_slot ops ?n")
      case (Inr s)
      obtain e1 n1 where w: "write_slot ops s m ?n = (e1, n1)" by fastforce
      have "st_nvs st' = n1 \<and> m' = m \<and> e = e1" using c m Inl e0 Inr w by (auto simp: sms_store_save_def)
      with find_empty_slot_Inr [OF Inr] written_at [OF wf _ _ _ w m(2,3), of None] f show ?thesis by auto
    next
      case (Inl e1)
      with \<open>find_id_slot ops ?n (msg_id m) = Inl e0\<close> e0 c m find_empty_slot_Inl [OF wf Inl] wf show ?thesis
        by (auto simp: sms_store_save_def)
    qed
  qed
  then show "store_wf ops (st_nvs st')" "next_id ops (st_nvs st') = next_id ops ?n" "m' = m"
    "store_map ops (st_nvs st') = store_map ops ?n \<or> store_map ops (st_nvs st') = (store_map ops ?n)(msg_id m \<mapsto> m)"
    "e = ESP_OK \<Longrightarrow> store_map ops (st_nvs st') = (store_map ops ?n)(msg_id m \<mapsto> m)" by blast+
qed

lemma sms_store_delete_erase:
  "sms_store_delete ops ident st =
     (if \<not> st_initialized st \<or> ident = 0 then (ESP_ERR_INVALID_ARG, st)
      else (case find_id_slot ops (st_nvs st) ident of
              Inl e \<Rightarrow> (e, st)
            | Inr slot \<Rightarrow> (case erase_slot ops slot (st_nvs st) of (e, n1) \<Rightarrow> (e, st\<lparr>st_nvs := n1\<rparr>))))"
  by (auto simp: sms_store_delete_def erase_slot_def split: sum.splits prod.splits)

lemma delete_spec:
  assumes wf: "store_wf ops (st_nvs st)" and c: "sms_store_delete ops i st = (e, st')"
  shows "store_wf ops (st_nvs st')" and "next_id ops (st_nvs st') = next_id ops (st_nvs st)"
    and "store_map ops (st_nvs st') = store_map ops (st_nvs st) \<or>
         store_map ops (st_nvs st') = (store_map ops (st_nvs st))(i := None)"
    and "e = ESP_OK \<Longrightarrow> store_map ops (st_nvs st) i \<noteq> None \<and>
         store_map ops (st_nvs st') = (store_map ops (st_nvs st))(i := None)"
proof -
  let ?n = "st_nvs st"
  have *: "store_wf ops (st_nvs st') \<and> next_id ops (st_nvs st') = next_id ops ?n \<and>
    (store_map ops (st_nvs st') = store_map ops ?n \<or> store_map ops (st_nvs st') = (store_map ops ?n)(i := None)) \<and>
    (e = ESP_OK \<longrightarrow> store_map ops ?n i \<noteq> None \<and> store_map ops (st_nvs st') = (store_map ops ?n)(i := None))"
  proof (cases "\<not> st_initialized st \<or> i = 0")
    case True
    then show ?thesis using c wf by (auto simp: sms_store_delete_def)
  next
    case g: False
    show ?thesis
    proof (cases "find_id_slot ops ?n i")
      case (Inl e0)
      with find_id_slot_Inl [OF wf Inl] c wf g show ?thesis by (auto simp: sms_store_delete_erase)
    next
      case (Inr s)
      from find_id_slot_Inr [OF this] obtain m where s: "s < SMS_STORE_MAX_RECORDS"
        and l: "load_slot ops ?n s = Inr (Some m)" and i: "msg_id m = i" by auto
      obtain e1 n1 where w: "erase_slot ops s ?n = (e1, n1)" by fastforce
      have "st_nvs st' = n1 \<and> e = e1" using c g Inr w by (auto simp: sms_store_delete_erase)
      moreover have "store_map ops ?n i = Some m" using store_map_iff [OF wf] s l i by blast
      ultimately show ?thesis using erased_at [OF wf s l w] i by auto
    qed
  qed
  then show "store_wf ops (st_nvs st')" "next_id ops (st_nvs st') = next_id ops ?n"
    "store_map ops (st_nvs st') = store_map ops ?n \<or> store_map ops (st_nvs st') = (store_map ops ?n)(i := None)"
    "e = ESP_OK \<Longrightarrow> store_map ops ?n i \<noteq> None \<and> store_map ops (st_nvs st') = (store_map ops ?n)(i := None)"
    by blast+
qed

end

lemma save_initialized: "sms_store_save ops m st = (e, m', st') \<Longrightarrow> st_initialized st' = st_initialized st"
  by (auto simp: sms_store_save_def choose_new_slot_def Let_def split: if_splits sum.splits prod.splits option.splits)

lemma save_ok_guards:
  "sms_store_save ops m st = (ESP_OK, m', st') \<Longrightarrow> st_initialized st \<and> message_fields_ok m"
  by (auto simp: sms_store_save_def split: if_splits)

lemma save_refused:
  "\<not> st_initialized st \<or> \<not> message_fields_ok m \<Longrightarrow> sms_store_save ops m st = (e, m', st') \<Longrightarrow> st' = st \<and> m' = m"
  by (auto simp: sms_store_save_def split: if_splits)

lemma get_lookup:
  assumes wf: "store_wf ops (st_nvs st)" and "st_initialized st" and "i \<noteq> 0"
  shows "sms_store_get ops i st =
     (case store_map ops (st_nvs st) i of
        None \<Rightarrow> (ESP_ERR_NOT_FOUND, None) | Some m \<Rightarrow> (ESP_OK, Some m))"
proof (cases "store_map ops (st_nvs st) i")
  case None
  have "find_id_slot ops (st_nvs st) i = Inl ESP_ERR_NOT_FOUND"
  proof (cases "find_id_slot ops (st_nvs st) i")
    case (Inl e)
    with find_id_slot_Inl [OF wf Inl] show ?thesis by simp
  next
    case (Inr s)
    with find_id_slot_Inr [OF Inr] None show ?thesis by (auto simp: store_map_None)
  qed
  with None assms show ?thesis by (simp add: sms_store_get_def)
next
  case (Some m)
  from find_id_slot_known [OF wf Some] obtain s where "find_id_slot ops (st_nvs st) i = Inr s"
    "load_slot ops (st_nvs st) s = Inr (Some m)" by blast
  with Some assms show ?thesis by (simp add: sms_store_get_def load_into_def)
qed

lemma find_status_spec:
  assumes wf: "store_wf ops (st_nvs st)" and "st_initialized st"
  shows "case sms_store_find_status ops status st of
      (e, Some m) \<Rightarrow> e = ESP_OK \<and> msg_status m = status \<and> store_map ops (st_nvs st) (msg_id m) = Some m \<and>
        (\<forall>i m'. store_map ops (st_nvs st) i = Some m' \<longrightarrow> msg_status m' = status \<longrightarrow> msg_id m \<le> i)
    | (e, None) \<Rightarrow> e = ESP_ERR_NOT_FOUND \<and>
        (\<forall>i m'. store_map ops (st_nvs st) i = Some m' \<longrightarrow> msg_status m' = status \<longrightarrow> i = UINT32_MAX)"
proof (cases rule: oldest_scan_wf [OF wf, of "\<lambda>m. msg_status m = status"])
  case (1 s m)
  then have "sms_store_find_status ops status st = (ESP_OK, Some m)"
    using assms(2) by (simp add: sms_store_find_status_def oldest_scan_def load_into_def)
  moreover have "store_map ops (st_nvs st) (msg_id m) = Some m" using store_map_iff [OF wf] 1 by blast
  ultimately show ?thesis using 1 by auto
next
  case (2 b s)
  then have "sms_store_find_status ops status st = (ESP_ERR_NOT_FOUND, None)"
    using assms(2) by (simp add: sms_store_find_status_def oldest_scan_def)
  then show ?thesis using 2 by auto
qed

end
