(* ===== verification/Sms_Store_Queries.thy ===== *)
theory Sms_Store_Queries
  imports Sms_Store_Map
begin

text \<open>
  The listing of the message store (in-place insertion sort behind a bounded selection loop) and
  the search for the newest outbound message with a modem reference.
\<close>

section \<open>The ordered listing\<close>

subsection \<open>In-place insertion sort\<close>

text \<open>
  The effect of the shift loop on the prefix it walks back over, newest position first: larger
  records stay behind the key.
\<close>

fun ins_back :: "sms_message \<Rightarrow> sms_message list \<Rightarrow> sms_message list" where
  "ins_back key [] = [key]"
| "ins_back key (x # xs) = (if msg_id x > msg_id key then x # ins_back key xs else key # x # xs)"

lemma mset_ins_back [simp]: "mset (ins_back key xs) = add_mset key (mset xs)"
  by (induction xs) auto

lemma set_ins_back [simp]: "set (ins_back key xs) = insert key (set xs)"
  by (induction xs) auto

lemma sorted_ins_back:
  "sorted_wrt (\<lambda>a b. msg_id a \<ge> msg_id b) xs \<Longrightarrow> sorted_wrt (\<lambda>a b. msg_id a \<ge> msg_id b) (ins_back key xs)"
  by (induction xs) auto

lemma sort_shift_ins:
  assumes "sort_shift (xs @ y # ys) key (length xs) = (rs', k)"
  shows "rs'[k := key] = rev (ins_back key (rev xs)) @ ys"
  using assms
proof (induction xs arbitrary: y ys rule: rev_induct)
  case Nil
  then show ?case by auto
next
  case (snoc x xs)
  show ?case
  proof (cases "msg_id x > msg_id key")
    case True
    then have "sort_shift (xs @ x # x # ys) key (length xs) = (rs', k)"
      using snoc.prems by (simp add: nth_append list_update_append)
    from snoc.IH [OF this] True show ?thesis by simp
  next
    case False
    with snoc.prems show ?thesis by (auto simp: nth_append list_update_append)
  qed
qed

lemma insertion_step_ins:
  assumes "i = length xs"
  shows "insertion_step i (xs @ key # ys) = rev (ins_back key (rev xs)) @ ys"
proof -
  obtain rs' k where s: "sort_shift (xs @ key # ys) key (length xs) = (rs', k)" by fastforce
  from sort_shift_ins [OF this] s assms show ?thesis by (simp add: insertion_step_def Let_def)
qed

lemma insertion_fold:
  assumes "1 \<le> n" and "n \<le> length rs"
  shows "\<exists>ss. fold insertion_step [1..<n] rs = ss @ drop n rs \<and> mset ss = mset (take n rs) \<and>
    length ss = n \<and> sorted_wrt (\<lambda>a b. msg_id a \<le> msg_id b) ss"
  using assms
proof (induction n rule: dec_induct)
  case base
  then show ?case by (cases rs) auto
next
  case (step n)
  then obtain ss where ss: "fold insertion_step [1..<n] rs = ss @ drop n rs" "mset ss = mset (take n rs)"
    "length ss = n" "sorted_wrt (\<lambda>a b. msg_id a \<le> msg_id b) ss" by auto
  have d: "drop n rs = rs ! n # drop (Suc n) rs" using step by (simp add: Cons_nth_drop_Suc)
  let ?ss = "rev (ins_back (rs ! n) (rev ss))"
  have "fold insertion_step [1..<Suc n] rs = ?ss @ drop (Suc n) rs"
    using step ss(1) d insertion_step_ins [OF ss(3) [symmetric]] by simp
  moreover have "mset ?ss = mset (take (Suc n) rs)"
    using ss(2) step by (simp add: take_Suc_conv_app_nth)
  moreover have "length ?ss = Suc n"
    using ss(3) by (metis length_rev mset_ins_back size_mset size_add_mset)
  moreover have "sorted_wrt (\<lambda>a b. msg_id a \<le> msg_id b) ?ss"
    using sorted_ins_back [of "rev ss" "rs ! n"] ss(4) by (simp add: sorted_wrt_rev)
  ultimately show ?case by blast
qed

lemma insertion_sort_spec:
  "mset (insertion_sort rs) = mset rs \<and> sorted_wrt (\<lambda>a b. msg_id a \<le> msg_id b) (insertion_sort rs)"
proof (cases rs)
  case Nil
  then show ?thesis by (simp add: insertion_sort_def)
next
  case (Cons r rs')
  then show ?thesis using insertion_fold [of "length rs" rs] by (auto simp: insertion_sort_def)
qed

subsection \<open>The selection loop\<close>

lemma highest_fold:
  assumes "n \<le> length rs" "0 < n"
  shows "let h = fold (\<lambda>i highest. if msg_id (rs ! i) > msg_id (rs ! highest) then i else highest) [1..<n] 0
         in h < n \<and> (\<forall>i<n. msg_id (rs ! i) \<le> msg_id (rs ! h))"
  using assms
proof (induction n)
  case (Suc n)
  show ?case
  proof (cases "n = 0")
    case False
    with Suc show ?thesis by (auto simp: Let_def less_Suc_eq)
  qed auto
qed simp

lemma highest_index_spec:
  "rs \<noteq> [] \<Longrightarrow> highest_index rs < length rs \<and> (\<forall>r \<in> set rs. msg_id r \<le> msg_id (rs ! highest_index rs))"
  using highest_fold [of "length rs" rs] by (auto simp: highest_index_def Let_def in_set_conv_nth)

text \<open>
  The buffer holds the smallest of the records seen so far: the rest \<open>R\<close> is larger, and nothing
  is left out before the buffer is full.
\<close>

definition smallest :: "nat \<Rightarrow> sms_message list \<Rightarrow> sms_message list \<Rightarrow> bool" where
  "smallest k seen rs \<longleftrightarrow>
     length rs \<le> k \<and>
     (\<exists>R. mset seen = mset rs + mset R \<and> (\<forall>x \<in> set rs. \<forall>y \<in> set R. msg_id x \<le> msg_id y) \<and>
          (R \<noteq> [] \<longrightarrow> length rs = k))"

lemma list_step_smallest:
  assumes "0 < k" and "smallest k seen rs"
  shows "smallest k (seen @ (if after < msg_id m then [m] else [])) (list_step after k m rs)"
proof (cases "after < msg_id m")
  case False
  then have "list_step after k m rs = rs" by (simp add: list_step_def not_less)
  with False assms show ?thesis by simp
next
  case new: True
  from assms obtain R where len: "length rs \<le> k" and R: "mset seen = mset rs + mset R"
    "\<And>x y. x \<in> set rs \<Longrightarrow> y \<in> set R \<Longrightarrow> msg_id x \<le> msg_id y" "R \<noteq> [] \<Longrightarrow> length rs = k"
    by (auto simp: smallest_def)
  show ?thesis
  proof (cases "length rs < k")
    case True
    with R have "R = []" by auto
    with True new R len show ?thesis by (auto simp: list_step_def smallest_def not_le)
  next
    case False
    with len assms(1) have l: "length rs = k" "rs \<noteq> []" by auto
    let ?h = "highest_index rs"
    note h = highest_index_spec [OF l(2)]
    show ?thesis
    proof (cases "msg_id m < msg_id (rs ! ?h)")
      case small: True
      have "mset (seen @ [m]) = mset (rs[?h := m]) + mset (rs ! ?h # R)"
        using R(1) h by (simp add: mset_update)
      moreover have "msg_id x \<le> msg_id y" if "x \<in> set (rs[?h := m])" "y \<in> set (rs ! ?h # R)" for x y
      proof -
        from that(1) have "x = m \<or> x \<in> set rs" using set_update_subset_insert by fastforce
        moreover have "msg_id (rs ! ?h) \<le> msg_id y" using that(2) R(2) h by auto
        ultimately show ?thesis using h small by (metis order.trans less_imp_le)
      qed
      ultimately show ?thesis
        using new small False l
        by (auto simp: list_step_def Let_def smallest_def not_le intro!: exI [of _ "rs ! ?h # R"])
    next
      case large: False
      have "\<forall>x \<in> set rs. \<forall>y \<in> set (m # R). msg_id x \<le> msg_id y"
        using large h R(2) by (metis not_less order.trans set_ConsD)
      then show ?thesis
        using new large False l R
        by (auto simp: list_step_def Let_def smallest_def not_le intro!: exI [of _ "m # R"])
    qed
  qed
qed

lemma list_fold_smallest:
  assumes "0 < k" and "smallest k seen rs"
  shows "smallest k (seen @ filter (\<lambda>m. after < msg_id m) (map snd xs))
           (fold (\<lambda>(s, m). list_step after k m) xs rs)"
  using assms(2)
proof (induction xs arbitrary: seen rs)
  case (Cons x xs)
  from Cons.IH [OF list_step_smallest [OF assms(1) Cons.prems, of after "snd x"]] show ?case
    by (auto simp: split_def split: if_splits)
qed simp

lemma sorted_ids_unique:
  assumes "sorted_wrt (\<lambda>a b. msg_id a \<le> msg_id b) xs" "sorted_wrt (\<lambda>a b. msg_id a \<le> msg_id b) ys"
    "mset xs = mset ys" "distinct (map msg_id ys)"
  shows "xs = ys"
proof -
  have "mset (map msg_id xs) = mset (map msg_id ys)" using assms(3) by simp
  with assms(1,2) have "map msg_id xs = map msg_id ys"
    by (metis properties_for_sort sorted_map)
  then show ?thesis
    using assms(3,4) by (metis (no_types, lifting) map_inj_on set_mset_mset distinct_map Un_absorb)
qed

lemma smallest_sorted:
  assumes "smallest k seen rs" and "distinct (map msg_id seen)"
  shows "insertion_sort rs = take k (sort_key msg_id seen)"
proof -
  from assms(1) obtain R where len: "length rs \<le> k" and R: "mset seen = mset rs + mset R"
    "\<And>x y. x \<in> set rs \<Longrightarrow> y \<in> set R \<Longrightarrow> msg_id x \<le> msg_id y" "R \<noteq> [] \<Longrightarrow> length rs = k"
    by (auto simp: smallest_def)
  let ?s = "insertion_sort rs" and ?t = "insertion_sort R"
  have set: "set ?s = set rs" "set ?t = set R" "length ?s = length rs"
    by (metis insertion_sort_spec mset_eq_setD) (metis insertion_sort_spec mset_eq_setD, metis insertion_sort_spec mset_eq_length)
  have "sorted_wrt (\<lambda>a b. msg_id a \<le> msg_id b) (?s @ ?t)"
    using insertion_sort_spec R(2) set by (simp add: sorted_wrt_append)
  moreover have "sorted_wrt (\<lambda>a b. msg_id a \<le> msg_id b) (sort_key msg_id seen)"
    using sorted_sort_key [of msg_id seen] by (simp add: sorted_map)
  moreover have "mset (?s @ ?t) = mset (sort_key msg_id seen)" using R(1) insertion_sort_spec by simp
  moreover have "distinct (map msg_id (sort_key msg_id seen))" using assms(2)
    by (metis mset_map mset_sort mset_eq_imp_distinct_iff)
  ultimately have "?s @ ?t = sort_key msg_id seen" by (rule sorted_ids_unique)
  then have "take k (sort_key msg_id seen) = take k (?s @ ?t)" by simp
  also have "\<dots> = ?s"
  proof (cases "R = []")
    case True
    then show ?thesis using len set(3) by (simp add: insertion_sort_def)
  next
    case False
    then show ?thesis using R(3) set(3) by simp
  qed
  finally show ?thesis by simp
qed

lemma list_sorted:
  assumes wf: "store_wf ops (st_nvs st)" and "st_initialized st" and k: "0 < k"
  shows "sms_store_list ops after k st =
     Inr (take k (sort_key msg_id (filter (\<lambda>m. after < msg_id m) (stored ops (st_nvs st)))))"
proof -
  let ?xs = "held (load_slot ops (st_nvs st)) store_slots"
  let ?seen = "filter (\<lambda>m. after < msg_id m) (map snd ?xs)"
  have "smallest k [] []" by (simp add: smallest_def)
  from list_fold_smallest [OF k this] have
    s: "smallest k ?seen (fold (\<lambda>(s, m). list_step after k m) ?xs [])" by simp
  have d: "distinct (map msg_id ?seen)"
    using wf by (simp add: store_wf_def stored_def distinct_map_filter)
  show ?thesis
    using wf assms(2) k smallest_sorted [OF s d]
    by (simp add: sms_store_list_def store_wf_def scan_all_held stored_def)
qed

section \<open>The newest outbound message with a modem reference\<close>

definition sent_as :: "u8 \<Rightarrow> sms_message \<Rightarrow> nat \<Rightarrow> bool" where
  "sent_as reference m i \<longleftrightarrow> bit (msg_segment_sent_mask m) i \<and> msg_modem_reference m ! i = reference"

definition first_sent_as :: "string \<Rightarrow> u8 \<Rightarrow> sms_message \<Rightarrow> nat option" where
  "first_sent_as to reference m =
     (if msg_direction m = SMS_DIRECTION_OUTBOUND \<and> msg_recipient m = to
      then find (sent_as reference m) [0..<unat (msg_segment_count m)] else None)"

lemma reference_loop_stays:
  "\<not> (case best of None \<Rightarrow> True | Some (b, _) \<Rightarrow> msg_id m > b) \<Longrightarrow> reference_loop r slot m is best = best"
  by (induction "is") auto

lemma reference_loop_find:
  "reference_loop r slot m is best =
     (if case best of None \<Rightarrow> True | Some (b, _) \<Rightarrow> msg_id m > b
      then (case find (sent_as r m) is of None \<Rightarrow> best | Some i \<Rightarrow> Some (msg_id m, slot, i))
      else best)"
proof (induction "is")
  case (Cons i "is")
  then show ?case
    using reference_loop_stays [where best = "Some (msg_id m, slot, i)"]
    by (auto simp: sent_as_def [of r m i])
qed simp

definition reference_step :: "string \<Rightarrow> u8 \<Rightarrow> nat \<Rightarrow> sms_message \<Rightarrow> (u32 \<times> nat \<times> nat) option \<Rightarrow> (u32 \<times> nat \<times> nat) option" where
  "reference_step to r slot m best =
     (case first_sent_as to r m of
        None \<Rightarrow> best
      | Some i \<Rightarrow> if case best of None \<Rightarrow> True | Some (b, _) \<Rightarrow> msg_id m > b
                  then Some (msg_id m, slot, i) else best)"

lemma reference_step_loop:
  "(if msg_direction m \<noteq> SMS_DIRECTION_OUTBOUND \<or> msg_recipient m \<noteq> to then best
    else reference_loop r slot m [0..<unat (msg_segment_count m)] best) = reference_step to r slot m best"
  by (auto simp: reference_step_def first_sent_as_def reference_loop_find split: option.splits)

lemma reference_fold:
  "case fold (\<lambda>(s, m). reference_step to r s m) xs None of
      None \<Rightarrow> \<forall>(t, m) \<in> set xs. first_sent_as to r m = None
    | Some (b, s, i) \<Rightarrow> (\<exists>m. (s, m) \<in> set xs \<and> msg_id m = b \<and> first_sent_as to r m = Some i) \<and>
        (\<forall>(t, m) \<in> set xs. first_sent_as to r m \<noteq> None \<longrightarrow> msg_id m \<le> b)"
proof (induction xs rule: rev_induct)
  case (snoc x xs)
  obtain t m where x: "x = (t, m)" by fastforce
  show ?case
  proof (cases "first_sent_as to r m")
    case None
    then show ?thesis using snoc x by (auto simp: reference_step_def split: option.splits)
  next
    case (Some i)
    then show ?thesis
      using snoc x by (auto simp: reference_step_def split: option.splits)
  qed
qed simp

lemma find_outbound_spec:
  assumes wf: "store_wf ops (st_nvs st)" and "st_initialized st"
  shows "case sms_store_find_outbound_reference ops (Some to) r st of
      (e, Some m, Some i) \<Rightarrow> e = ESP_OK \<and> store_map ops (st_nvs st) (msg_id m) = Some m \<and>
        first_sent_as to r m = Some i \<and>
        (\<forall>j m'. store_map ops (st_nvs st) j = Some m' \<longrightarrow> first_sent_as to r m' \<noteq> None \<longrightarrow> j \<le> msg_id m)
    | (e, None, None) \<Rightarrow> e = ESP_ERR_NOT_FOUND \<and>
        (\<forall>j m'. store_map ops (st_nvs st) j = Some m' \<longrightarrow> first_sent_as to r m' = None)
    | _ \<Rightarrow> False"
proof -
  let ?xs = "held (load_slot ops (st_nvs st)) store_slots"
  let ?r = "fold (\<lambda>(s, m). reference_step to r s m) ?xs None"
  have scan: "scan_all (load_slot ops (st_nvs st)) (on_record (\<lambda>slot m best.
      if msg_direction m \<noteq> SMS_DIRECTION_OUTBOUND \<or> msg_recipient m \<noteq> to then best
      else reference_loop r slot m [0..<unat (msg_segment_count m)] best)) store_slots None = Inr ?r"
    using wf by (simp only: reference_step_loop) (simp add: store_wf_def scan_all_held)
  note f = reference_fold [where to = to and r = r and xs = ?xs]
  show ?thesis
  proof (cases ?r)
    case None
    then have "sms_store_find_outbound_reference ops (Some to) r st = (ESP_ERR_NOT_FOUND, None, None)"
      using assms(2) scan by (simp add: sms_store_find_outbound_reference_def)
    then show ?thesis using f None by (auto simp: set_held store_map_iff [OF wf])
  next
    case (Some p)
    obtain b s i where p: "p = (b, s, i)" by (metis surj_pair)
    with f Some obtain m where m: "(s, m) \<in> set ?xs" "msg_id m = b" "first_sent_as to r m = Some i"
      and best: "\<forall>(t, m) \<in> set ?xs. first_sent_as to r m \<noteq> None \<longrightarrow> msg_id m \<le> b" by auto
    have l: "s < SMS_STORE_MAX_RECORDS" "load_slot ops (st_nvs st) s = Inr (Some m)"
      using m(1) by (auto simp: set_held)
    have "sms_store_find_outbound_reference ops (Some to) r st = (ESP_OK, Some m, Some i)"
      using assms(2) scan Some p l by (simp add: sms_store_find_outbound_reference_def load_into_def)
    moreover have "store_map ops (st_nvs st) (msg_id m) = Some m" using store_map_iff [OF wf] l by blast
    moreover have "j \<le> msg_id m" if "store_map ops (st_nvs st) j = Some m'" "first_sent_as to r m' \<noteq> None" for j m'
      using that best m(2) by (auto simp: store_map_iff [OF wf] set_held)
    ultimately show ?thesis using m by auto
  qed
qed


end
