(* ===== verification/Sms_Store_Runs.thy ===== *)
theory Sms_Store_Runs
  imports Sms_Store_Queries
begin

text \<open>
  Sequences of operations on the message store: the invariant of every reachable state, what
  pruning never removes, and the properties of the store with a worked example.
\<close>

section \<open>Runs of the store\<close>

text \<open>
  The operations in any order, each with any outcome of the partition. A caller saves a message
  with identifier 0, or one it got from the store. The identifiers are 32 bits wide and wrap
  around after \<open>UINT32_MAX\<close>; the runs stop before that.
\<close>

inductive store_run :: "('n, persisted_record) nvs_ops \<Rightarrow> 'n sms_store \<Rightarrow> 'n sms_store \<Rightarrow> bool"
  for ops :: "('n, persisted_record) nvs_ops" and st :: "'n sms_store" where
  run_start: "store_run ops st st"
| run_save: "store_run ops st st1 \<Longrightarrow> next_id ops (st_nvs st1) \<noteq> UINT32_MAX \<Longrightarrow>
    msg_id m = 0 \<or> msg_id m < next_id ops (st_nvs st1) \<Longrightarrow>
    sms_store_save ops m st1 = (e, m', st2) \<Longrightarrow> store_run ops st st2"
| run_delete: "store_run ops st st1 \<Longrightarrow> sms_store_delete ops i st1 = (e, st2) \<Longrightarrow> store_run ops st st2"
| run_watermark: "store_run ops st st1 \<Longrightarrow>
    store_run ops st (sms_store_set_replay_watermark protection watermark st1)"

context message_partition
begin

lemma save_inv:
  assumes inv: "store_inv ops (st_nvs st)" and nx: "next_id ops (st_nvs st) \<noteq> UINT32_MAX"
    and m: "msg_id m = 0 \<or> msg_id m < next_id ops (st_nvs st)"
    and c: "sms_store_save ops m st = (e, m', st')"
  shows "store_inv ops (st_nvs st')"
proof (cases "st_initialized st \<and> message_fields_ok m")
  case False
  then show ?thesis using save_refused c inv by blast
next
  case g: True
  note wf = inv [unfolded store_inv_iff, THEN conjunct1]
  have below: "\<And>i k. store_map ops (st_nvs st) i = Some k \<Longrightarrow> i < next_id ops (st_nvs st)"
    using inv by (simp add: store_inv_iff)
  note lt = id_succ_less [OF nx]
  show ?thesis
  proof (cases "msg_id m = 0")
    case True
    note s = save_new [OF inv _ True _ c]
    from s(3) g obtain f where f: "room_made ops st f" and
      mp: "store_map ops (st_nvs st') = f \<or> store_map ops (st_nvs st') =
        f(next_id ops (st_nvs st) \<mapsto> m\<lparr>msg_id := next_id ops (st_nvs st)\<rparr>) \<and>
        next_id ops (st_nvs st') = id_succ (next_id ops (st_nvs st))" by blast
    have fb: "i < next_id ops (st_nvs st)" if "f i = Some k" for i k
      using below room_made_inv [OF f that] .
    have le: "next_id ops (st_nvs st) \<le> next_id ops (st_nvs st')" using s(2) g lt by auto
    have "i < next_id ops (st_nvs st')" if "store_map ops (st_nvs st') i = Some k" for i k
      using mp that fb [of i] le lt by (auto split: if_splits)
    then show ?thesis using s(1) g by (simp add: store_inv_iff)
  next
    case False
    note s = save_known [OF wf _ False _ c]
    have "i < next_id ops (st_nvs st')" if "store_map ops (st_nvs st') i = Some k" for i k
      using s(2,4) g that below m False by (auto split: if_splits)
    then show ?thesis using s(1) g by (simp add: store_inv_iff)
  qed
qed

lemma delete_inv:
  "store_inv ops (st_nvs st) \<Longrightarrow> sms_store_delete ops i st = (e, st') \<Longrightarrow> store_inv ops (st_nvs st')"
  using delete_spec [of st i e st'] by (auto simp: store_inv_iff split: if_splits)

lemma run_inv: "store_run ops st st' \<Longrightarrow> store_inv ops (st_nvs st) \<Longrightarrow> store_inv ops (st_nvs st')"
  by (induction rule: store_run.induct)
    (auto simp: sms_store_set_replay_watermark_def intro: save_inv delete_inv)

lemma protected_survives:
  assumes inv: "store_inv ops (st_nvs st)" and c: "sms_store_save ops m st = (e, m', st')"
    and k: "store_map ops (st_nvs st) i = Some k"
    and p: "\<not> record_prunable (st_replay_protection_enabled st) (st_replay_watermark st) k"
    and i: "i \<noteq> msg_id m"
  shows "store_map ops (st_nvs st') i = Some k"
proof (cases "st_initialized st \<and> message_fields_ok m")
  case False
  then show ?thesis using save_refused c k by blast
next
  case g: True
  note wf = inv [unfolded store_inv_iff, THEN conjunct1]
  show ?thesis
  proof (cases "msg_id m = 0")
    case True
    from save_new(3) [OF inv _ True _ c] g obtain f where f: "room_made ops st f" and
      mp: "store_map ops (st_nvs st') = f \<or> store_map ops (st_nvs st') =
        f(next_id ops (st_nvs st) \<mapsto> m\<lparr>msg_id := next_id ops (st_nvs st)\<rparr>)" by blast
    have "f i = Some k" using f k p by (auto simp: room_made_def prune_victim_def)
    moreover have "i < next_id ops (st_nvs st)" using inv k by (simp add: store_inv_iff)
    ultimately show ?thesis using mp by auto
  next
    case False
    then show ?thesis using save_known(4) [OF wf _ False _ c] g k i by auto
  qed
qed

end

interpretation flash_messages: message_partition flash_ops
  by unfold_locales

section \<open>Properties\<close>

definition example_message :: sms_message where
  "example_message = zero_message\<lparr>msg_status := SMS_MESSAGE_RECEIVED, msg_sender := ''+4917'',
     msg_text := ''hello'', msg_segment_count := 1\<rparr>"

definition empty_store :: "persisted_record flash sms_store" where
  "empty_store = \<lparr>st_initialized = True, st_nvs = \<lparr>fl_blobs = [], fl_u32s = [], fl_script = []\<rparr>,
     st_pruned_records = 0, st_capacity_failures = 0, st_replay_watermark = 0,
     st_replay_protection_enabled = True\<rparr>"

definition example_store :: "persisted_record flash sms_store" where
  "example_store = empty_store\<lparr>st_nvs :=
     \<lparr>fl_blobs = [(slot_key 0, sizeof_record, record_encode (example_message\<lparr>msg_id := 1\<rparr>))],
      fl_u32s = [(''next_id'', 2)], fl_script = []\<rparr>\<rparr>"

text \<open>A flash partition with an empty script of errors accepts every write.\<close>

lemma scripted_Nil: "fl_script n = [] \<Longrightarrow> scripted f n = (ESP_OK, f n)"
  by (simp add: scripted_def)

lemma flash_write_slot:
  "fl_script n = [] \<Longrightarrow> write_slot flash_ops s m n =
     (ESP_OK, n\<lparr>fl_blobs := (slot_key s, sizeof_record, record_encode m) # without (slot_key s) (fl_blobs n)\<rparr>)"
  by (simp add: write_slot_def flash_ops_def scripted_Nil)

lemma flash_erase_slot:
  "fl_script n = [] \<Longrightarrow> erase_slot flash_ops s n = (ESP_OK, n\<lparr>fl_blobs := without (slot_key s) (fl_blobs n)\<rparr>)"
  by (simp add: erase_slot_def flash_ops_def scripted_Nil)

lemma store_slots_Cons: "store_slots = 0 # 1 # [2..<128]"
  by (simp add: store_slots_def SMS_STORE_MAX_RECORDS_def upt_rec numeral_2_eq_2)

lemma load_slot_empty: "load_slot flash_ops (st_nvs empty_store) s = Inr None"
  by (simp add: load_slot_def flash_ops_def empty_store_def found_def)

lemma empty_store_inv: "store_inv flash_ops (st_nvs empty_store)"
proof -
  have "readable (load_slot flash_ops (st_nvs empty_store)) store_slots"
    by (rule readableI) (simp add: load_slot_empty)
  moreover have "held (load_slot flash_ops (st_nvs empty_store)) ss = []" for ss
    by (induction ss) (simp_all add: load_slot_empty)
  ultimately show ?thesis by (simp add: store_inv_def store_wf_def stored_def)
qed

lemma example_fields [simp]: "msg_id example_message = 0" "message_fields_ok example_message"
  by code_simp+

lemma empty_store_init [simp]: "st_initialized empty_store"
  by (simp add: empty_store_def)

lemma empty_next: "next_id flash_ops (st_nvs empty_store) = 1"
  by code_simp

lemma empty_find: "find_empty_slot flash_ops (st_nvs empty_store) = Inr 0"
  by (simp add: find_empty_slot_def store_slots_Cons load_slot_empty)

lemma example_save:
  "sms_store_save flash_ops example_message empty_store =
     (ESP_OK, example_message\<lparr>msg_id := 1\<rparr>, example_store)"
proof -
  have "allocate_id flash_ops (st_nvs empty_store) =
      (ESP_OK, Some 1, \<lparr>fl_blobs = [], fl_u32s = [(''next_id'', 2)], fl_script = []\<rparr>)"
    by (simp add: allocate_id_def flash_ops_def found_def scripted_def without_def empty_store_def)
  then show ?thesis
    by (simp add: sms_store_save_def choose_new_slot_def empty_find flash_write_slot without_def
        example_store_def Let_def)
qed

lemma example_load:
  "load_slot flash_ops (st_nvs example_store) s =
     Inr (if s = 0 then Some (example_message\<lparr>msg_id := 1\<rparr>) else None)"
proof (cases "s = 0")
  case True
  have "nvs_get_blob flash_ops (st_nvs example_store) (slot_key 0) =
      Inr (sizeof_record, record_encode (example_message\<lparr>msg_id := 1\<rparr>))"
    by (simp add: example_store_def flash_ops_def found_def)
  from load_slot_encoded [OF this] example_fields(2) True show ?thesis
    by (simp add: message_fields_ok_def)
next
  case False
  then have "nvs_get_blob flash_ops (st_nvs example_store) (slot_key s) = Inl ESP_ERR_NVS_NOT_FOUND"
    by (simp add: example_store_def flash_ops_def found_def)
  from load_slot_missing [OF this] False show ?thesis by simp
qed

lemma example_find:
  "find_id_slot flash_ops (st_nvs example_store) 1 = Inr 0"
  "find_empty_slot flash_ops (st_nvs example_store) = Inr 1"
  by (simp_all add: find_id_slot_def find_empty_slot_def store_slots_Cons example_load)

text \<open>A message whose fields are terminated and whose identifier is not 0 is read back from its
  persisted record exactly as it was; no other message has a record that is accepted.\<close>

theorem persisted_roundtrip:
  "record_decode (record_encode m) = (if msg_id m \<noteq> 0 \<and> message_fields_ok m then Some m else None)"
  by (rule record_roundtrip)

lemma message_partitionI: "nvs_partition ops \<Longrightarrow> message_partition ops"
  by (simp add: message_partition_def)

text \<open>C8: Saving a new message refines an insertion into the map of messages: it gets the next
  identifier, the store is the old one (less the oldest prunable record when all slots were
  taken) with the message added, and \<open>sms_store_get\<close> returns it.\<close>

theorem store_save_new:
  assumes "nvs_partition ops" and "store_inv ops (st_nvs st)" and "msg_id m = 0"
    and "sms_store_save ops m st = (ESP_OK, m', st')"
  shows "m' = m\<lparr>msg_id := next_id ops (st_nvs st)\<rparr> \<and>
    (\<exists>f. room_made ops st f \<and> store_map ops (st_nvs st') = f(msg_id m' \<mapsto> m')) \<and>
    sms_store_get ops (msg_id m') st' = (ESP_OK, Some m')"
proof (intro conjI)
  note mp = message_partitionI [OF assms(1)]
  have g: "st_initialized st" "message_fields_ok m" using save_ok_guards [OF assms(4)] by auto
  note s = message_partition.save_new [OF mp assms(2) g(1) assms(3) g(2) assms(4)]
  show m': "m' = m\<lparr>msg_id := next_id ops (st_nvs st)\<rparr>" using s(4) by simp
  then show f: "\<exists>f. room_made ops st f \<and> store_map ops (st_nvs st') = f(msg_id m' \<mapsto> m')" using s(4) by auto
  have "st_initialized st'" using save_initialized [OF assms(4)] g by simp
  then show "sms_store_get ops (msg_id m') st' = (ESP_OK, Some m')"
    using f m' by (auto simp: get_lookup [OF s(1)])
qed

theorem store_save_new_witness:
  "sms_store_get flash_ops 1 example_store = (ESP_OK, Some (example_message\<lparr>msg_id := 1\<rparr>))"
  using store_save_new [OF flash.nvs_partition_axioms empty_store_inv _ example_save] by simp

text \<open>Saving a message that has an identifier replaces the record of that identifier, or adds
  it, and changes no other record.\<close>

theorem store_save_known:
  assumes "nvs_partition ops" and "store_wf ops (st_nvs st)" and "msg_id m \<noteq> 0"
    and "sms_store_save ops m st = (ESP_OK, m', st')"
  shows "m' = m \<and> store_map ops (st_nvs st') = (store_map ops (st_nvs st))(msg_id m \<mapsto> m) \<and>
    sms_store_get ops (msg_id m) st' = (ESP_OK, Some m)"
proof -
  note mp = message_partitionI [OF assms(1)]
  have g: "st_initialized st" "message_fields_ok m" using save_ok_guards [OF assms(4)] by auto
  note s = message_partition.save_known [OF mp assms(2) g(1) assms(3) g(2) assms(4)]
  have "st_initialized st'" using save_initialized [OF assms(4)] g by simp
  with s assms(3) show ?thesis by (auto simp: get_lookup [OF s(1)])
qed

definition resaved_message :: sms_message where
  "resaved_message = example_message\<lparr>msg_id := 1, msg_text := ''changed''\<rparr>"

lemma example_inv: "store_inv flash_ops (st_nvs example_store)"
  by (rule flash_messages.save_inv [OF empty_store_inv _ _ example_save])
    (simp_all add: empty_next UINT32_MAX_def)

lemma example_wf: "store_wf flash_ops (st_nvs example_store)"
  using example_inv by (simp add: store_inv_def)

lemma resave_ok: "fst (sms_store_save flash_ops resaved_message example_store) = ESP_OK"
proof -
  have "message_fields_ok resaved_message"
    using example_fields(2) by (simp add: resaved_message_def message_fields_ok_def terminated_field_def
        SMS_MESSAGE_TEXT_MAX_def cstr_view_def NUL_def)
  moreover have "st_initialized example_store" "fl_script (st_nvs example_store) = []"
    by (simp_all add: example_store_def)
  moreover have "msg_id resaved_message = 1" by (simp add: resaved_message_def)
  ultimately show ?thesis
    by (simp add: sms_store_save_def example_find flash_write_slot)
qed

theorem store_save_known_witness:
  "\<exists>st'. sms_store_save flash_ops resaved_message example_store = (ESP_OK, resaved_message, st') \<and>
     sms_store_get flash_ops 1 st' = (ESP_OK, Some resaved_message)"
proof -
  obtain e m' st' where s: "sms_store_save flash_ops resaved_message example_store = (e, m', st')"
    by (metis surj_pair)
  with resave_ok have e: "e = ESP_OK" by simp
  with store_save_known [OF flash.nvs_partition_axioms example_wf _ s [unfolded e]] s show ?thesis
    by (simp add: resaved_message_def)
qed

text \<open>A successful delete removes exactly the record of that identifier: a later
  \<open>sms_store_get\<close> does not find it, and every other identifier reads as before.\<close>

theorem store_delete_removes:
  assumes "nvs_partition ops" and "store_wf ops (st_nvs st)"
    and "sms_store_delete ops i st = (ESP_OK, st')"
  shows "store_map ops (st_nvs st') = (store_map ops (st_nvs st))(i := None) \<and>
    sms_store_get ops i st' = (ESP_ERR_NOT_FOUND, None) \<and>
    (\<forall>j. j \<noteq> i \<longrightarrow> sms_store_get ops j st' = sms_store_get ops j st)"
proof (intro conjI allI impI)
  note d = message_partition.delete_spec [OF message_partitionI [OF assms(1)] assms(2,3)]
  show m: "store_map ops (st_nvs st') = (store_map ops (st_nvs st))(i := None)" using d(4) by simp
  have g: "st_initialized st" "i \<noteq> 0" using assms(3) by (auto simp: sms_store_delete_def split: if_splits)
  have g': "st_initialized st'"
    using assms(3) g by (auto simp: sms_store_delete_def split: if_splits sum.splits prod.splits)
  show "sms_store_get ops i st' = (ESP_ERR_NOT_FOUND, None)"
    using m g g' by (simp add: get_lookup [OF d(1)])
  show "sms_store_get ops j st' = sms_store_get ops j st" if "j \<noteq> i" for j
  proof (cases "j = 0")
    case False
    then show ?thesis using m g g' that by (simp add: get_lookup [OF d(1)] get_lookup [OF assms(2)])
  qed (simp add: sms_store_get_def)
qed

lemma delete_ok: "fst (sms_store_delete flash_ops 1 example_store) = ESP_OK"
proof -
  have "st_initialized example_store" "fl_script (st_nvs example_store) = []"
    by (simp_all add: example_store_def)
  then show ?thesis
    by (simp add: flash_messages.sms_store_delete_erase example_find flash_erase_slot)
qed

theorem store_delete_removes_witness:
  "\<exists>st'. sms_store_delete flash_ops 1 example_store = (ESP_OK, st') \<and>
     sms_store_get flash_ops 1 st' = (ESP_ERR_NOT_FOUND, None) \<and>
     sms_store_get flash_ops 2 st' = sms_store_get flash_ops 2 example_store"
proof -
  obtain e st' where s: "sms_store_delete flash_ops 1 example_store = (e, st')" by fastforce
  with delete_ok have e: "e = ESP_OK" by simp
  with store_delete_removes [OF flash.nvs_partition_axioms example_wf s [unfolded e]] s show ?thesis by simp
qed

text \<open>C12: Whatever operations run, in whatever order, and whatever errors the partition answers,
  every slot stays readable, no two records share an identifier, and every identifier is below
  the next one to hand out, as long as the 32-bit counter has not reached its end.\<close>

theorem store_invariant:
  assumes "nvs_partition ops" and "store_inv ops (st_nvs st)" and "store_run ops st st'"
  shows "store_inv ops (st_nvs st')"
  using message_partition.run_inv [OF message_partitionI [OF assms(1)] assms(3,2)] .

lemma example_run: "store_run flash_ops empty_store example_store"
  by (rule run_save [OF run_start _ _ example_save]) (simp_all add: empty_next UINT32_MAX_def)

theorem store_invariant_witness: "store_inv flash_ops (st_nvs example_store)"
  by (rule store_invariant [OF flash.nvs_partition_axioms empty_store_inv example_run])

text \<open>C9: Saving a message never removes or changes another record that is not prunable (parts of
  an incomplete message, queued, sending and uncertain messages, sent messages that wait for a
  delivery report, received messages above the replay watermark), whatever the outcome.\<close>

theorem store_protects:
  assumes "nvs_partition ops" and "store_inv ops (st_nvs st)"
    and "store_map ops (st_nvs st) i = Some k" and "i \<noteq> msg_id m"
    and "\<not> record_prunable (st_replay_protection_enabled st) (st_replay_watermark st) k"
    and "sms_store_save ops m st = (e, m', st')"
  shows "store_map ops (st_nvs st') i = Some k"
  using message_partition.protected_survives [OF message_partitionI [OF assms(1)] assms(2,6,3,5,4)] .

lemma example_map: "store_map flash_ops (st_nvs example_store) 1 = Some (example_message\<lparr>msg_id := 1\<rparr>)"
proof -
  obtain f where "store_map flash_ops (st_nvs example_store) = f(1 \<mapsto> example_message\<lparr>msg_id := 1\<rparr>)"
    using flash_messages.save_new(4) [OF empty_store_inv empty_store_init example_fields example_save refl,
        THEN conjunct2, unfolded empty_next] by blast
  then show ?thesis by simp
qed

lemma example_unprunable:
  "\<not> record_prunable (st_replay_protection_enabled example_store)
      (st_replay_watermark example_store) (example_message\<lparr>msg_id := 1\<rparr>)"
  by (simp add: record_prunable_def example_message_def example_store_def empty_store_def)

theorem store_protects_witness:
  "\<exists>e m' st'. sms_store_save flash_ops example_message example_store = (e, m', st') \<and>
     store_map flash_ops (st_nvs st') 1 = Some (example_message\<lparr>msg_id := 1\<rparr>)"
proof -
  obtain e m' st' where s: "sms_store_save flash_ops example_message example_store = (e, m', st')"
    by (metis surj_pair)
  from store_protects [OF flash.nvs_partition_axioms example_inv example_map _ example_unprunable s] s
  show ?thesis by simp
qed

text \<open>The listing gives the records above \<open>after_id\<close> of smallest identifier, at most
  \<open>max_records\<close>, in ascending order: the bounded selection loop and the in-place insertion sort
  compute the first elements of the sorted list of all of them.\<close>

theorem store_list_sorted:
  assumes "store_wf ops (st_nvs st)" and "st_initialized st" and "0 < max_records"
  shows "sms_store_list ops after_id max_records st =
     Inr (take max_records (sort_key msg_id (filter (\<lambda>m. after_id < msg_id m) (stored ops (st_nvs st)))))"
  using assms by (rule list_sorted)

lemma held_empty: "(\<And>s. s \<in> set ss \<Longrightarrow> load s = Inr None) \<Longrightarrow> held load ss = []"
  by (induction ss) auto

theorem store_list_sorted_witness:
  "sms_store_list flash_ops 0 1 example_store = Inr [example_message\<lparr>msg_id := 1\<rparr>]"
proof -
  have i: "st_initialized example_store"
    using save_initialized [OF example_save] by simp
  have "held (load_slot flash_ops (st_nvs example_store)) [2..<128] = []"
  proof (rule held_empty)
    fix s :: nat assume "s \<in> set [2..<128]"
    then have "2 \<le> s" by (metis atLeastLessThan_iff set_upt)
    then show "load_slot flash_ops (st_nvs example_store) s = Inr None" by (simp add: example_load)
  qed
  then have "stored flash_ops (st_nvs example_store) = [example_message\<lparr>msg_id := 1\<rparr>]"
    unfolding stored_def store_slots_Cons held_simps example_load by simp
  with store_list_sorted [OF example_wf i, of 1 0] show ?thesis by simp
qed

text \<open>\<open>sms_store_find_status\<close> returns the record with that status of least identifier; it
  reports none only when no record has the status, one with identifier \<open>UINT32_MAX\<close> apart.\<close>

theorem store_find_status_oldest:
  assumes "store_wf ops (st_nvs st)" and "st_initialized st"
  shows "case sms_store_find_status ops status st of
      (e, Some m) \<Rightarrow> e = ESP_OK \<and> msg_status m = status \<and> store_map ops (st_nvs st) (msg_id m) = Some m \<and>
        (\<forall>i m'. store_map ops (st_nvs st) i = Some m' \<longrightarrow> msg_status m' = status \<longrightarrow> msg_id m \<le> i)
    | (e, None) \<Rightarrow> e = ESP_ERR_NOT_FOUND \<and>
        (\<forall>i m'. store_map ops (st_nvs st) i = Some m' \<longrightarrow> msg_status m' = status \<longrightarrow> i = UINT32_MAX)"
  using assms by (rule find_status_spec)

theorem store_find_status_oldest_witness:
  "case sms_store_find_status flash_ops SMS_MESSAGE_RECEIVED example_store of
      (e, Some m) \<Rightarrow> e = ESP_OK \<and> msg_status m = SMS_MESSAGE_RECEIVED | (e, None) \<Rightarrow> False"
proof -
  have i: "st_initialized example_store"
    using save_initialized [OF example_save] by simp
  from store_find_status_oldest [OF example_wf i, of SMS_MESSAGE_RECEIVED] example_map
  show ?thesis
    by (auto simp: example_message_def UINT32_MAX_def split: prod.splits option.splits) force
qed

text \<open>A record with identifier \<open>UINT32_MAX\<close>, which \<open>allocate_id\<close> can hand out, is never the
  oldest of its status: a queued message with it is not found and is never sent.\<close>

theorem store_last_id_invisible:
  assumes "store_wf ops (st_nvs st)" and "st_initialized st"
    and "store_map ops (st_nvs st) UINT32_MAX = Some k" and "msg_status k = status"
    and "\<forall>i m. store_map ops (st_nvs st) i = Some m \<longrightarrow> msg_status m = status \<longrightarrow> i = UINT32_MAX"
  shows "sms_store_find_status ops status st = (ESP_ERR_NOT_FOUND, None)"
proof (cases rule: oldest_scan_wf [OF assms(1), of "\<lambda>m. msg_status m = status"])
  case (1 s m)
  then have "store_map ops (st_nvs st) (msg_id m) = Some m" using store_map_iff [OF assms(1)] by blast
  with 1 assms(5) show ?thesis by blast
next
  case (2 b s)
  then show ?thesis using assms(2) by (simp add: sms_store_find_status_def oldest_scan_def)
qed

definition last_message :: sms_message where
  "last_message = zero_message\<lparr>msg_id := UINT32_MAX, msg_direction := SMS_DIRECTION_OUTBOUND,
     msg_status := SMS_MESSAGE_QUEUED\<rparr>"

definition last_store :: "persisted_record flash sms_store" where
  "last_store = empty_store\<lparr>st_nvs :=
     \<lparr>fl_blobs = [(slot_key 0, sizeof_record, record_encode last_message)], fl_u32s = [], fl_script = []\<rparr>\<rparr>"

lemma last_save: "sms_store_save flash_ops last_message empty_store = (ESP_OK, last_message, last_store)"
proof -
  have "message_fields_ok last_message" by code_simp
  moreover have "find_id_slot flash_ops (st_nvs empty_store) i = Inl ESP_ERR_NOT_FOUND" for i
  proof -
    have "scan_until (load_slot flash_ops (st_nvs empty_store))
        (\<lambda>x. case x of None \<Rightarrow> False | Some m \<Rightarrow> msg_id m = i) ss = Inr None" for ss
      by (induction ss) (simp_all add: load_slot_empty)
    then show ?thesis by (simp add: find_id_slot_def)
  qed
  moreover have "msg_id last_message \<noteq> 0" by (simp add: last_message_def UINT32_MAX_def)
  moreover have "write_slot flash_ops 0 last_message (st_nvs empty_store) = (ESP_OK, st_nvs last_store)"
    by (simp add: flash_write_slot without_def last_store_def empty_store_def)
  ultimately show ?thesis
    by (simp add: sms_store_save_def empty_find last_store_def)
qed

lemma last_facts:
  "store_wf flash_ops (st_nvs last_store)" "st_initialized last_store"
  "store_map flash_ops (st_nvs last_store) = (Map.empty)(UINT32_MAX \<mapsto> last_message)"
proof -
  note s = last_save
  have wf: "store_wf flash_ops (st_nvs empty_store)" using empty_store_inv by (simp add: store_inv_def)
  have e: "store_map flash_ops (st_nvs empty_store) = Map.empty"
    by (rule ext) (simp add: store_map_None load_slot_empty)
  have i: "msg_id last_message = UINT32_MAX" "UINT32_MAX \<noteq> 0" by (simp_all add: last_message_def UINT32_MAX_def)
  note k = flash_messages.save_known [OF wf empty_store_init _ _ s]
  have f: "message_fields_ok last_message" using save_ok_guards [OF s] by simp
  show "store_wf flash_ops (st_nvs last_store)"
    "store_map flash_ops (st_nvs last_store) = (Map.empty)(UINT32_MAX \<mapsto> last_message)"
    using k(1,5) i e f by simp_all
  show "st_initialized last_store" using save_initialized [OF s] by simp
qed

theorem store_last_id_invisible_witness:
  "store_map flash_ops (st_nvs last_store) UINT32_MAX = Some last_message \<and>
   msg_status last_message = SMS_MESSAGE_QUEUED \<and>
   sms_store_find_status flash_ops SMS_MESSAGE_QUEUED last_store = (ESP_ERR_NOT_FOUND, None)"
  using store_last_id_invisible [OF last_facts(1,2), of last_message SMS_MESSAGE_QUEUED]
  by (simp add: last_facts(3) last_message_def)

text \<open>When the counter cannot be written, \<open>sms_store_save\<close> reports the error and stores nothing,
  but the caller's message keeps the identifier that was tried.\<close>

theorem store_failed_counter_keeps_id:
  assumes "nvs_partition ops" and "store_wf ops (st_nvs st)" and "st_initialized st"
    and "msg_id m = 0" and "message_fields_ok m"
    and "find_empty_slot ops (st_nvs st) = Inr s"
    and "nvs_get_u32 ops (st_nvs st) ''next_id'' = Inr (next_id ops (st_nvs st))"
    and "nvs_set_u32 ops ''next_id'' (id_succ (next_id ops (st_nvs st))) (st_nvs st) = (e, n')"
    and "e \<noteq> ESP_OK"
  shows "sms_store_save ops m st = (e, m\<lparr>msg_id := next_id ops (st_nvs st)\<rparr>, st\<lparr>st_nvs := n'\<rparr>) \<and>
    store_map ops n' = store_map ops (st_nvs st)"
proof
  have a: "allocate_id ops (st_nvs st) = (e, Some (next_id ops (st_nvs st)), n')"
    using assms(7,8) by (simp add: message_partition.allocate_id_eq [OF message_partitionI [OF assms(1)]] take_id_def)
  then show "sms_store_save ops m st = (e, m\<lparr>msg_id := next_id ops (st_nvs st)\<rparr>, st\<lparr>st_nvs := n'\<rparr>)"
    using assms(3-6,9) by (simp add: sms_store_save_def choose_new_slot_def)
  have "load_slot ops n' t = load_slot ops (st_nvs st) t" for t
    using message_partition.allocate_load [OF message_partitionI [OF assms(1)] a] .
  from same_slots [OF assms(2) this] show "store_map ops n' = store_map ops (st_nvs st)" ..
qed

definition failing_store :: "persisted_record flash sms_store" where
  "failing_store = example_store\<lparr>st_nvs := (st_nvs example_store)\<lparr>fl_script := [ESP_FAIL]\<rparr>\<rparr>"

lemma failing_facts:
  "store_wf flash_ops (st_nvs failing_store)"
  "find_empty_slot flash_ops (st_nvs failing_store) = Inr 1"
  "nvs_get_u32 flash_ops (st_nvs failing_store) ''next_id'' = Inr (next_id flash_ops (st_nvs failing_store))"
  "nvs_set_u32 flash_ops ''next_id'' (id_succ (next_id flash_ops (st_nvs failing_store))) (st_nvs failing_store) =
     (ESP_FAIL, (st_nvs failing_store)\<lparr>fl_script := []\<rparr>)"
  "next_id flash_ops (st_nvs failing_store) = 2"
  "st_initialized failing_store"
proof -
  have l: "load_slot flash_ops (st_nvs failing_store) = load_slot flash_ops (st_nvs example_store)"
    by (rule ext) (simp add: load_slot_def flash_ops_def failing_store_def)
  from l show "store_wf flash_ops (st_nvs failing_store)"
    using example_wf by (simp add: store_wf_def stored_def)
  from l example_find(2) show "find_empty_slot flash_ops (st_nvs failing_store) = Inr 1"
    by (simp add: find_empty_slot_def)
  show "nvs_get_u32 flash_ops (st_nvs failing_store) ''next_id'' = Inr (next_id flash_ops (st_nvs failing_store))"
    by (simp add: next_id_def flash_ops_def found_def failing_store_def example_store_def)
  show "nvs_set_u32 flash_ops ''next_id'' (id_succ (next_id flash_ops (st_nvs failing_store))) (st_nvs failing_store) =
     (ESP_FAIL, (st_nvs failing_store)\<lparr>fl_script := []\<rparr>)"
    by (simp add: flash_ops_def scripted_def failing_store_def)
  show "next_id flash_ops (st_nvs failing_store) = 2"
    by (simp add: next_id_def flash_ops_def found_def failing_store_def example_store_def)
  show "st_initialized failing_store" by (simp add: failing_store_def example_store_def)
qed

theorem store_failed_counter_keeps_id_witness:
  "\<exists>st'. sms_store_save flash_ops example_message failing_store =
      (ESP_FAIL, example_message\<lparr>msg_id := 2\<rparr>, st') \<and>
    store_map flash_ops (st_nvs st') = store_map flash_ops (st_nvs failing_store)"
  using store_failed_counter_keeps_id [OF flash.nvs_partition_axioms failing_facts(1,6) example_fields
      failing_facts(2,3,4)] failing_facts(5) by simp

text \<open>A delivery report is matched with the newest outbound message to that recipient that has
  a sent segment with the reported reference, and with its first such segment.\<close>

theorem store_outbound_reference_newest:
  assumes "store_wf ops (st_nvs st)" and "st_initialized st"
  shows "case sms_store_find_outbound_reference ops (Some to) reference st of
      (e, Some m, Some i) \<Rightarrow> e = ESP_OK \<and> store_map ops (st_nvs st) (msg_id m) = Some m \<and>
        first_sent_as to reference m = Some i \<and>
        (\<forall>j m'. store_map ops (st_nvs st) j = Some m' \<longrightarrow> first_sent_as to reference m' \<noteq> None \<longrightarrow> j \<le> msg_id m)
    | (e, None, None) \<Rightarrow> e = ESP_ERR_NOT_FOUND \<and>
        (\<forall>j m'. store_map ops (st_nvs st) j = Some m' \<longrightarrow> first_sent_as to reference m' = None)
    | _ \<Rightarrow> False"
  using assms by (rule find_outbound_spec)

theorem store_outbound_reference_newest_witness:
  "case sms_store_find_outbound_reference flash_ops (Some ''+49'') 7 last_store of
     (e, None, None) \<Rightarrow> e = ESP_ERR_NOT_FOUND | _ \<Rightarrow> False"
proof -
  have "first_sent_as ''+49'' 7 last_message = None" by code_simp
  with store_outbound_reference_newest [OF last_facts(1,2), of "''+49''" 7] show ?thesis
    by (auto simp: last_facts(3) split: prod.splits option.splits if_splits)
qed

text \<open>The diagnostics count the records exactly: used and free slots add up to 128, in 16-bit
  counters that do not wrap.\<close>

theorem store_diagnostics_exact:
  assumes "sms_store_get_diagnostics ops st = Inr d"
  shows "unat (sd_used_records d) = length (stored ops (st_nvs st)) \<and>
    unat (sd_used_records d) + unat (sd_free_records d) = SMS_STORE_MAX_RECORDS"
proof -
  let ?xs = "held (load_slot ops (st_nvs st)) store_slots"
  have "length (map fst ?xs) = card (set (map fst ?xs))"
    using distinct_held [OF store_slots_set(2)] distinct_card by metis
  also have "\<dots> \<le> card (set store_slots)"
    by (rule card_mono) (auto simp: set_held)
  finally have len: "length ?xs \<le> 128" by (simp add: SMS_STORE_MAX_RECORDS_def)
  obtain used where scan: "scan_all (load_slot ops (st_nvs st)) (on_record (\<lambda>_ _ used. used + 1)) store_slots (0 :: u16) = Inr used"
    and d: "sd_used_records d = used" "sd_free_records d = word_of_int (int SMS_STORE_MAX_RECORDS - uint used)"
    using assms by (auto simp: sms_store_get_diagnostics_def split: if_splits sum.splits)
  have "fold (\<lambda>(s, r) used. used + 1) xs (w :: u16) = w + word_of_nat (length xs)" for xs :: "(nat \<times> sms_message) list" and w
    by (induction xs arbitrary: w) auto
  then have used: "used = word_of_nat (length ?xs)"
    using scan scan_all_held [OF scan_all_Inr_readable [OF scan], of "\<lambda>_ _ used. used + 1" "0 :: u16"]
    by (simp add: split_def)
  have u: "unat used = length ?xs" using len by (simp add: used unat_of_nat)
  then have "uint used = int (length ?xs)" by (metis uint_nat)
  then have "sd_free_records d = word_of_nat (128 - length ?xs)"
    using d(2) len by (simp add: SMS_STORE_MAX_RECORDS_def of_nat_diff)
  then have "unat (sd_free_records d) = 128 - length ?xs" by (simp add: unat_of_nat)
  then show ?thesis using u d(1) len by (simp add: stored_def SMS_STORE_MAX_RECORDS_def)
qed

theorem store_diagnostics_exact_witness:
  "\<exists>d. sms_store_get_diagnostics flash_ops example_store = Inr d \<and>
     unat (sd_used_records d) + unat (sd_free_records d) = SMS_STORE_MAX_RECORDS"
proof -
  have "\<exists>d. sms_store_get_diagnostics flash_ops example_store = Inr d"
    using example_wf save_initialized [OF example_save]
    by (simp add: sms_store_get_diagnostics_def store_wf_def scan_all_held)
  with store_diagnostics_exact show ?thesis by blast
qed

end
