(* ===== verification/Gateway_Monad.thy ===== *)
theory Gateway_Monad
  imports Gateway_Prelude "HOL-Library.State_Monad"
begin

text \<open>
  The state monad as the services use it, and rules that carry a property of the state through
  computations in it.
\<close>

section \<open>Operations\<close>

abbreviation ret :: "'a \<Rightarrow> ('s, 'a) state" where
  "ret \<equiv> State_Monad.return"

abbreviation upd :: "('s \<Rightarrow> 's) \<Rightarrow> ('s, unit) state" where
  "upd \<equiv> State_Monad.update"

definition look :: "('s \<Rightarrow> 'a) \<Rightarrow> ('s, 'a) state" where
  "look f = State (\<lambda>s. (f s, s))"

section \<open>Rules for the state monad\<close>

text \<open>
  \<open>safe P m R\<close>: from a state that satisfies \<open>P\<close> the computation ends in one that satisfies \<open>P\<close>,
  with a result that satisfies \<open>R\<close>.
\<close>

definition safe :: "('s \<Rightarrow> bool) \<Rightarrow> ('s, 'a) state \<Rightarrow> ('a \<Rightarrow> bool) \<Rightarrow> bool" where
  "safe P m R \<longleftrightarrow> (\<forall>s. P s \<longrightarrow> P (snd (run_state m s)) \<and> R (fst (run_state m s)))"

named_theorems safe_rules "how a property passes through the operations of the state monad"

lemma safeD: "safe P m R \<Longrightarrow> P s \<Longrightarrow> run_state m s = (a, s') \<Longrightarrow> P s' \<and> R a"
  by (metis fst_conv safe_def snd_conv)

lemma run_upd [simp]: "run_state (upd f) s = ((), f s)"
  by (simp add: State_Monad.update_def)

lemma run_look [simp]: "run_state (look f) s = (f s, s)"
  by (simp add: look_def)

lemma safe_weaken: "safe P m Q \<Longrightarrow> (\<And>a. Q a \<Longrightarrow> R a) \<Longrightarrow> safe P m R"
  by (auto simp: safe_def)

lemma safe_ret [safe_rules]: "R a \<Longrightarrow> safe P (ret a) R"
  by (simp add: safe_def)

lemma safe_bind: "safe P m Q \<Longrightarrow> (\<And>a. Q a \<Longrightarrow> safe P (f a) R) \<Longrightarrow> safe P (m \<bind> f) R"
  by (force simp: safe_def split: prod.splits)

lemma safe_upd: "(\<And>s. P s \<Longrightarrow> P (f s)) \<Longrightarrow> R () \<Longrightarrow> safe P (upd f) R"
  by (simp add: safe_def)

lemma safe_look: "(\<And>s. P s \<Longrightarrow> R (f s)) \<Longrightarrow> safe P (look f) R"
  by (simp add: safe_def)

lemma safe_if [safe_rules]: "(b \<Longrightarrow> safe P m R) \<Longrightarrow> (\<not> b \<Longrightarrow> safe P n R) \<Longrightarrow> safe P (if b then m else n) R"
  by simp

lemma safe_prod [safe_rules]: "(\<And>a b. x = (a, b) \<Longrightarrow> safe P (f a b) R) \<Longrightarrow> safe P (case x of (a, b) \<Rightarrow> f a b) R"
  by (cases x) simp

lemma safe_option [safe_rules]:
  "(x = None \<Longrightarrow> safe P m R) \<Longrightarrow> (\<And>a. x = Some a \<Longrightarrow> safe P (f a) R) \<Longrightarrow>
   safe P (case x of None \<Rightarrow> m | Some a \<Rightarrow> f a) R"
  by (cases x) auto

lemma safe_let [safe_rules]: "(\<And>a. a = x \<Longrightarrow> safe P (f a) R) \<Longrightarrow> safe P (let a = x in f a) R"
  by simp

section \<open>Triples\<close>

text \<open>
  \<open>triple P m Q\<close>: from a state that satisfies \<open>P\<close> the computation ends with a result and a state
  that satisfy \<open>Q\<close>. Computations are total, so this is total correctness.
\<close>

definition triple :: "('s \<Rightarrow> bool) \<Rightarrow> ('s, 'a) state \<Rightarrow> ('a \<Rightarrow> 's \<Rightarrow> bool) \<Rightarrow> bool" where
  "triple P m Q \<longleftrightarrow> (\<forall>s. P s \<longrightarrow> Q (fst (run_state m s)) (snd (run_state m s)))"

named_theorems triple_rules "what holds after the operations of the state monad"

lemma tripleD: "triple P m Q \<Longrightarrow> P s \<Longrightarrow> Q (fst (run_state m s)) (snd (run_state m s))"
  by (simp add: triple_def)

lemma triple_weaken: "triple P m Q \<Longrightarrow> (\<And>s. P' s \<Longrightarrow> P s) \<Longrightarrow> (\<And>a s. Q a s \<Longrightarrow> Q' a s) \<Longrightarrow> triple P' m Q'"
  by (auto simp: triple_def)

lemma triple_bind: "triple P m Q \<Longrightarrow> (\<And>a. triple (Q a) (f a) R) \<Longrightarrow> triple P (m \<bind> f) R"
  by (force simp: triple_def split: prod.splits)

lemma triple_ret: "(\<And>s. P s \<Longrightarrow> Q a s) \<Longrightarrow> triple P (ret a) Q"
  by (simp add: triple_def)

lemma triple_upd: "(\<And>s. P s \<Longrightarrow> Q () (f s)) \<Longrightarrow> triple P (upd f) Q"
  by (simp add: triple_def)

lemma triple_look_bind: "(\<And>a. triple (\<lambda>s. P s \<and> a = g s) (f a) R) \<Longrightarrow> triple P (look g \<bind> f) R"
  by (simp add: triple_def)

lemma triple_if [triple_rules]:
  "(b \<Longrightarrow> triple P m Q) \<Longrightarrow> (\<not> b \<Longrightarrow> triple P n Q) \<Longrightarrow> triple P (if b then m else n) Q"
  by simp

lemma triple_prod [triple_rules]:
  "(\<And>a b. x = (a, b) \<Longrightarrow> triple P (f a b) Q) \<Longrightarrow> triple P (case x of (a, b) \<Rightarrow> f a b) Q"
  by (cases x) simp

lemma triple_option [triple_rules]:
  "(x = None \<Longrightarrow> triple P m Q) \<Longrightarrow> (\<And>a. x = Some a \<Longrightarrow> triple P (f a) Q) \<Longrightarrow>
   triple P (case x of None \<Rightarrow> m | Some a \<Rightarrow> f a) Q"
  by (cases x) auto

lemma triple_fact: "(\<And>s. P s \<Longrightarrow> b) \<Longrightarrow> (b \<Longrightarrow> triple P m Q) \<Longrightarrow> triple P m Q"
  by (auto simp: triple_def)

lemma triple_pre_ex: "(\<And>x. triple (P x) m Q) \<Longrightarrow> triple (\<lambda>s. \<exists>x. P x s) m Q"
  by (auto simp: triple_def)

end
