(* ===== verification/Sms_Service.thy ===== *)
theory Sms_Service
  imports Gateway_Monad Sms_Store At_Engine Pdu_Encode
begin

text \<open>
  The SMS service, \<open>sms_service.c\<close>: it reads messages from the modem, assembles multipart
  messages, matches delivery reports, sends queued messages segment by segment, and answers the
  API. Code that threads the service state through many calls is written in the state monad; the
  order of the steps is the order of the statements.

  What the service calls outside itself is the record \<open>service_env\<close>: the NVS partition of the
  store, the AT transport (\<open>execute\<close> and \<open>is_ready\<close> of \<open>sms_service_transport_t\<close>), whether an
  allocation succeeds, the random numbers and the tick counter. \<open>sv_trace\<close> records the messages
  stored, the commands handed to the transport and the events reported to the callback, in order; \<open>sv_overrun\<close> is set
  when a statement would access an array outside its bounds. Neither is read by the code.
\<close>

section \<open>State\<close>

definition SMS_SERVICE_QUEUE_DEPTH :: nat where "SMS_SERVICE_QUEUE_DEPTH = 8"
definition SMS_SERVICE_AT_TIMEOUT_MS :: u32 where "SMS_SERVICE_AT_TIMEOUT_MS = 10000"
definition SMS_SERVICE_CMGS_TIMEOUT_MS :: u32 where "SMS_SERVICE_CMGS_TIMEOUT_MS = 60000"
definition SMS_SERVICE_SETUP_RETRY_MS :: u32 where "SMS_SERVICE_SETUP_RETRY_MS = 30000"
definition SMS_SERVICE_INBOX_POLL_MS :: u32 where "SMS_SERVICE_INBOX_POLL_MS = 60000"
definition SMS_SERVICE_URC_MAX :: nat where "SMS_SERVICE_URC_MAX = AT_ENGINE_MAX_URC_LENGTH"

datatype service_event =
  SERVICE_EVENT_MODEM_READY | SERVICE_EVENT_MODEM_LOST | SERVICE_EVENT_URC string | SERVICE_EVENT_WAKE

datatype direct_urc_pending = DIRECT_URC_NONE | DIRECT_URC_DELIVER | DIRECT_URC_STATUS_REPORT

datatype sms_service_event =
    SMS_SERVICE_EVENT_RECEIVED | SMS_SERVICE_EVENT_PARTIAL_RECEIVED | SMS_SERVICE_EVENT_SENT
  | SMS_SERVICE_EVENT_DELIVERED | SMS_SERVICE_EVENT_FAILED | SMS_SERVICE_EVENT_UNSUPPORTED_RECEIVED
  | SMS_SERVICE_EVENT_UNCERTAIN

record sms_service_diagnostics =
  dg_initialized :: bool
  dg_modem_ready :: bool
  dg_pdu_mode_configured :: bool
  dg_inbound_pdus :: u32
  dg_inbound_messages :: u32
  dg_inbound_parts :: u32
  dg_duplicate_parts :: u32
  dg_duplicate_messages :: u32
  dg_decode_failures :: u32
  dg_unsupported_pdus :: u32
  dg_store_failures :: u32
  dg_outbound_queued :: u32
  dg_outbound_segments_sent :: u32
  dg_outbound_uncertain :: u32
  dg_delivery_reports :: u32
  dg_urcs_dropped :: u32
  dg_store_pruned_records :: u32
  dg_store_capacity_failures :: u32
  dg_store_used_records :: u16
  dg_store_free_records :: u16
  dg_last_cms_error :: int
  dg_last_error :: esp_err
  dg_setup_failed_command :: "string option"
  dg_setup_failed_result :: at_result
  dg_setup_failed_code :: int
  dg_setup_attempts :: u32
  dg_inbox_scans :: u32
  dg_inbox_scan_failures :: u32

datatype service_action = Stored sms_message | Command at_request | Event sms_service_event sms_message

record ('n, 'w) service =
  sv_initialized :: bool
  sv_event_cb :: bool
  sv_store :: "'n sms_store"
  sv_world :: 'w
  sv_queue :: "service_event list"
  sv_direct_pending :: direct_urc_pending
  sv_diagnostics :: sms_service_diagnostics
  sv_last_setup :: u32
  sv_last_poll :: u32
  sv_trace :: "service_action list"
  sv_overrun :: bool

record ('n, 'w) service_env =
  env_nvs :: "('n, persisted_record) nvs_ops"
  env_execute :: "at_request \<Rightarrow> at_response \<Rightarrow> 'w \<Rightarrow> esp_err \<times> at_response \<times> 'w"
  env_is_ready :: "'w \<Rightarrow> bool"
  env_calloc :: "'w \<Rightarrow> bool \<times> 'w"
  env_random :: "'w \<Rightarrow> u32 \<times> 'w"
  env_ticks :: "'w \<Rightarrow> u32 \<times> 'w"
  env_ms_to_ticks :: "u32 \<Rightarrow> u32"

type_synonym ('n, 'w, 'a) sms_m = "(('n, 'w) service, 'a) state"

abbreviation count :: "(sms_service_diagnostics \<Rightarrow> sms_service_diagnostics) \<Rightarrow> ('n, 'w, unit) sms_m" where
  "count f \<equiv> upd (\<lambda>s. s\<lparr>sv_diagnostics := f (sv_diagnostics s)\<rparr>)"

definition bounds_check :: "bool \<Rightarrow> ('n, 'w, unit) sms_m" where
  "bounds_check inside = upd (\<lambda>s. s\<lparr>sv_overrun := sv_overrun s \<or> \<not> inside\<rparr>)"

section \<open>Calls out of the service\<close>

definition on_world :: "('w \<Rightarrow> 'a \<times> 'w) \<Rightarrow> ('n, 'w, 'a) sms_m" where
  "on_world f = State (\<lambda>s. case f (sv_world s) of (a, w) \<Rightarrow> (a, s\<lparr>sv_world := w\<rparr>))"

definition store_save ::
    "('n, 'w) service_env \<Rightarrow> sms_message \<Rightarrow> ('n, 'w, esp_err \<times> sms_message) sms_m" where
  "store_save env m = State (\<lambda>s.
     case sms_store_save (env_nvs env) m (sv_store s) of
       (e, m', st) \<Rightarrow>
         ((e, m'), s\<lparr>sv_store := st,
            sv_trace := (if e = ESP_OK then sv_trace s @ [Stored m'] else sv_trace s)\<rparr>))"

definition store_delete :: "('n, 'w) service_env \<Rightarrow> u32 \<Rightarrow> ('n, 'w, esp_err) sms_m" where
  "store_delete env i = State (\<lambda>s.
     case sms_store_delete (env_nvs env) i (sv_store s) of (e, st) \<Rightarrow> (e, s\<lparr>sv_store := st\<rparr>))"

abbreviation store_query :: "('n sms_store \<Rightarrow> 'a) \<Rightarrow> ('n, 'w, 'a) sms_m" where
  "store_query f \<equiv> look (\<lambda>s. f (sv_store s))"

definition diag_set_error :: "esp_err \<Rightarrow> int \<Rightarrow> ('n, 'w, unit) sms_m" where
  "diag_set_error err cms_error =
     count (\<lambda>d. (if cms_error \<ge> 0 then d\<lparr>dg_last_cms_error := cms_error\<rparr> else d)\<lparr>dg_last_error := err\<rparr>)"

definition emit_event :: "sms_service_event \<Rightarrow> sms_message \<Rightarrow> ('n, 'w, unit) sms_m" where
  "emit_event event message =
     upd (\<lambda>s. if sv_event_cb s then s\<lparr>sv_trace := sv_trace s @ [Event event message]\<rparr> else s)"

definition modem_ready :: "('n, 'w) service_env \<Rightarrow> ('n, 'w, bool) sms_m" where
  "modem_ready env = look (\<lambda>s. env_is_ready env (sv_world s))"

definition execute ::
    "('n, 'w) service_env \<Rightarrow> at_request \<Rightarrow> at_response \<Rightarrow> ('n, 'w, esp_err \<times> at_response) sms_m" where
  "execute env request response = do {
     ready \<leftarrow> modem_ready env;
     if \<not> ready then ret (ESP_ERR_INVALID_STATE, response)
     else State (\<lambda>s.
       case env_execute env request response (sv_world s) of
         (e, r, w) \<Rightarrow> ((e, r), s\<lparr>sv_world := w, sv_trace := sv_trace s @ [Command request]\<rparr>)) }"

text \<open>The zero-filled response of \<open>at_response_t response = {0}\<close>.\<close>

definition zero_response :: at_response where
  "zero_response = \<lparr>rs_result = AT_RESULT_OK, rs_error_code = 0, rs_attempts = 0,
     rs_truncated = False, rs_final_line = [], rs_data = [], rs_line_offsets = []\<rparr>"

definition simple_request :: "string \<Rightarrow> string list \<Rightarrow> u32 \<Rightarrow> at_request" where
  "simple_request command prefixes timeout_ms =
     \<lparr>rq_command = Some command,
      rq_expected_prefixes = (if prefixes = [] then None else Some (map Some prefixes)),
      rq_expected_prefix_count = length prefixes, rq_timeout_ms = timeout_ms, rq_max_attempts = 1,
      rq_retry_delay_ms = 0, rq_retry_policy = 0, rq_wait_for_prompt = False,
      rq_prompt_payload = None, rq_prompt_payload_len = 0\<rparr>"

text \<open>
  \<open>execute_simple\<close>: whether the command succeeded, and the response. A caller that passes NULL
  or an uninitialised response reads it only after success.
\<close>

definition execute_simple ::
    "('n, 'w) service_env \<Rightarrow> string \<Rightarrow> string list \<Rightarrow> u32 \<Rightarrow> ('n, 'w, bool \<times> at_response) sms_m" where
  "execute_simple env command prefixes timeout_ms = do {
     (err, response) \<leftarrow> execute env (simple_request command prefixes timeout_ms) zero_response;
     if err \<noteq> ESP_OK then do { diag_set_error err (-1); ret (False, response) }
     else if rs_result response \<noteq> AT_RESULT_OK then do {
       diag_set_error ESP_FAIL (if rs_result response = AT_RESULT_CMS_ERROR then rs_error_code response else -1);
       ret (False, response) }
     else ret (True, response) }"

section \<open>Lines from the modem\<close>

definition after_last_comma :: "string \<Rightarrow> string option" where
  "after_last_comma line =
     (if CHR '','' \<in> set line then Some (rev (takeWhile (\<lambda>c. c \<noteq> CHR '','') (rev line))) else None)"

text \<open>
  \<open>parse_index_urc\<close>: the pointer \<open>end\<close> is compared with \<open>comma + 1\<close> after the blanks behind the
  number have been skipped.
\<close>

definition parse_index_urc :: "string \<Rightarrow> string \<Rightarrow> int option" where
  "parse_index_urc line prefix =
     (if \<not> has_prefix line prefix then None
      else (case after_last_comma line of
              None \<Rightarrow> None
            | Some s \<Rightarrow>
                (case strtol s of (val, rest) \<Rightarrow>
                   let stop = dropWhile isspace rest
                   in if stop = s \<or> stop \<noteq> [] \<or> val < 0 \<or> val > 65535 then None else Some val)))"

definition parse_cmgl_index :: "string \<Rightarrow> int option" where
  "parse_cmgl_index line =
     (if \<not> has_prefix line ''+CMGL:'' then None
      else let p = dropWhile isspace (drop 6 line) in
           (case strtol p of (val, stop) \<Rightarrow>
              if stop = p \<or> val < 0 \<or> val > 65535 then None else Some val))"

definition cmgs_value :: "string option \<Rightarrow> u8 option" where
  "cmgs_value line =
     (case line of
        None \<Rightarrow> None
      | Some l \<Rightarrow>
          if \<not> has_prefix l ''+CMGS:'' then None
          else let p = dropWhile isspace (drop 6 l) in
               (case strtol p of (val, stop) \<Rightarrow>
                  if stop \<noteq> p \<and> val \<ge> 0 \<and> val \<le> 255 then Some (word_of_int val) else None))"

definition parse_cmgs_reference :: "at_response \<Rightarrow> u8 option" where
  "parse_cmgs_reference response = first_some cmgs_value (response_lines response)"

definition pdu_type :: "string \<Rightarrow> sms_pdu_type" where
  "pdu_type pdu = (case sms_pdu_type_detect pdu of Ret t \<Rightarrow> t | _ \<Rightarrow> SMS_PDU_TYPE_UNKNOWN)"

definition is_hex_pdu_line :: "string option \<Rightarrow> bool" where
  "is_hex_pdu_line line =
     (case line of
        None \<Rightarrow> False
      | Some l \<Rightarrow>
          if length l < 4 \<or> odd (length l) then False
          else if \<not> list_all isxdigit l then False
          else pdu_type l \<noteq> SMS_PDU_TYPE_UNKNOWN)"

definition delete_modem_index :: "('n, 'w) service_env \<Rightarrow> int \<Rightarrow> ('n, 'w, esp_err) sms_m" where
  "delete_modem_index env index = do {
     (ok, _) \<leftarrow> execute_simple env (''AT+CMGD='' @ dec (nat index) @ '',0'') [] SMS_SERVICE_AT_TIMEOUT_MS;
     ret (if ok then ESP_OK else ESP_FAIL) }"

section \<open>Inbound messages\<close>

text \<open>\<open>strncpy(field, s, sizeof(field) - 1)\<close> into a zero-filled or terminated field.\<close>

definition copy_field :: "nat \<Rightarrow> string \<Rightarrow> string" where
  "copy_field capacity s = take (capacity - 1) (cstr_view s)"

text \<open>
  The counter \<open>part\<close> is a \<open>uint8_t\<close>: when \<open>total_parts\<close> is 255 it wraps to 0 after the last part
  and the loop goes on with part 0.
\<close>

definition part_numbers :: "u8 \<Rightarrow> u8 list" where
  "part_numbers total_parts =
     map word_of_nat ([1..<unat total_parts + 1] @ (if total_parts = 255 then [0] else []))"

fun assemble_loop ::
    "('n, 'w) service_env \<Rightarrow> sms_deliver \<Rightarrow> u8 list \<Rightarrow> sms_message \<Rightarrow> u32 list \<Rightarrow>
     ('n, 'w, esp_err \<times> sms_message \<times> u32 list) sms_m" where
  "assemble_loop env deliver [] assembled partial_ids = ret (ESP_OK, assembled, partial_ids)"
| "assemble_loop env deliver (part # parts) assembled partial_ids = do {
     (err, out) \<leftarrow> store_query (sms_store_find_partial (env_nvs env) (Some (dl_sender deliver))
       (cc_reference (dl_concat deliver)) (cc_total_parts (dl_concat deliver)) part);
     if err \<noteq> ESP_OK then ret (err, assembled, partial_ids)
     else do {
       let partial = (case out of Some m \<Rightarrow> m | None \<Rightarrow> zero_message);
       let len = bounded_strlen (msg_text partial) SMS_MESSAGE_TEXT_MAX;
       if len \<ge> SMS_MESSAGE_TEXT_MAX \<or> length (msg_text assembled) + len \<ge> SMS_MESSAGE_TEXT_MAX
       then ret (ESP_ERR_INVALID_SIZE, assembled, partial_ids)
       else do {
         bounds_check (unat (part - 1) < SMS_MAX_SEGMENTS);
         let assembled = assembled\<lparr>msg_text := msg_text assembled @ take len (msg_text partial)\<rparr>;
         assemble_loop env deliver parts
           (if part = 1
            then assembled\<lparr>msg_service_center_timestamp :=
                   copy_field SMS_TIMESTAMP_MAX (msg_service_center_timestamp partial)\<rparr>
            else assembled)
           (partial_ids @ [msg_id partial]) } } }"

fun delete_partials :: "('n, 'w) service_env \<Rightarrow> u32 list \<Rightarrow> ('n, 'w, unit) sms_m" where
  "delete_partials env [] = ret ()"
| "delete_partials env (i # is) = do { _ \<leftarrow> store_delete env i; delete_partials env is }"

text \<open>The error code, the assembled message and whether it was created.\<close>

definition assembled_start :: "sms_deliver \<Rightarrow> sms_message" where
  "assembled_start deliver =
     zero_message\<lparr>msg_direction := SMS_DIRECTION_INBOUND, msg_status := SMS_MESSAGE_RECEIVED,
       msg_encoding := dl_encoding deliver,
       msg_sender := copy_field SMS_MAX_ADDRESS_LENGTH (dl_sender deliver),
       msg_service_center_timestamp := copy_field SMS_TIMESTAMP_MAX (dl_service_center_timestamp deliver),
       msg_segment_count := cc_total_parts (dl_concat deliver),
       msg_concat_reference := cc_reference (dl_concat deliver)\<rparr>"

definition assemble_if_complete ::
    "('n, 'w) service_env \<Rightarrow> sms_deliver \<Rightarrow> ('n, 'w, esp_err \<times> sms_message \<times> bool) sms_m" where
  "assemble_if_complete env deliver =
     (if \<not> cc_present (dl_concat deliver) then ret (ESP_ERR_INVALID_ARG, zero_message, False)
      else do {
        partial_ok \<leftarrow> on_world (env_calloc env);
        if \<not> partial_ok then ret (ESP_ERR_NO_MEM, assembled_start deliver, False)
        else do {
          (result, assembled, partial_ids) \<leftarrow> assemble_loop env deliver
            (part_numbers (cc_total_parts (dl_concat deliver))) (assembled_start deliver) [];
          if result \<noteq> ESP_OK then ret (result, assembled, False)
          else do {
            existing_ok \<leftarrow> on_world (env_calloc env);
            if \<not> existing_ok then ret (ESP_ERR_NO_MEM, assembled, False)
            else do {
              (duplicate_err, existing) \<leftarrow> store_query (sms_store_find_inbound_identity (env_nvs env)
                (Some (msg_sender assembled)) (Some (msg_service_center_timestamp assembled))
                (msg_encoding assembled) (Some (msg_text assembled)));
              (result, assembled, created) \<leftarrow>
                (if duplicate_err = ESP_OK then do {
                   count (\<lambda>d. d\<lparr>dg_duplicate_messages := dg_duplicate_messages d + 1\<rparr>);
                   ret (ESP_OK, case existing of Some m \<Rightarrow> m | None \<Rightarrow> zero_message, False) }
                 else if duplicate_err = ESP_ERR_NOT_FOUND then do {
                   (e, assembled) \<leftarrow> store_save env assembled;
                   ret (e, assembled, e = ESP_OK) }
                 else ret (duplicate_err, assembled, False));
              if result \<noteq> ESP_OK then ret (result, assembled, created)
              else do {
                delete_partials env partial_ids;
                ret (ESP_OK, assembled, created) } } } } })"

definition deliver_record :: "sms_deliver \<Rightarrow> sms_message" where
  "deliver_record deliver =
     zero_message\<lparr>msg_direction := SMS_DIRECTION_INBOUND,
       msg_status := (if cc_present (dl_concat deliver) then SMS_MESSAGE_PARTIAL else SMS_MESSAGE_RECEIVED),
       msg_encoding := dl_encoding deliver,
       msg_concat := dl_concat deliver,
       msg_concat_reference := cc_reference (dl_concat deliver),
       msg_segment_count := (if cc_present (dl_concat deliver) then cc_total_parts (dl_concat deliver) else 1),
       msg_sender := copy_field SMS_MAX_ADDRESS_LENGTH (dl_sender deliver),
       msg_service_center_timestamp := copy_field SMS_TIMESTAMP_MAX (dl_service_center_timestamp deliver),
       msg_text := copy_field SMS_MESSAGE_TEXT_MAX (dl_text deliver)\<rparr>"

text \<open>Storing one part: the error code and the message for the event.\<close>

definition persist_part ::
    "('n, 'w) service_env \<Rightarrow> sms_deliver \<Rightarrow> ('n, 'w, esp_err \<times> sms_message) sms_m" where
  "persist_part env deliver = do {
     (existing_err, out) \<leftarrow> store_query (sms_store_find_partial (env_nvs env) (Some (dl_sender deliver))
       (cc_reference (dl_concat deliver)) (cc_total_parts (dl_concat deliver))
       (cc_part_number (dl_concat deliver)));
     if existing_err = ESP_OK then
       (let existing = (case out of Some m \<Rightarrow> m | None \<Rightarrow> zero_message) in
        if msg_text existing = dl_text deliver then do {
          count (\<lambda>d. d\<lparr>dg_duplicate_parts := dg_duplicate_parts d + 1\<rparr>);
          ret (ESP_OK, existing) }
        else store_save env
          (existing\<lparr>msg_encoding := dl_encoding deliver, msg_concat := dl_concat deliver,
             msg_text := copy_field SMS_MESSAGE_TEXT_MAX (dl_text deliver),
             msg_service_center_timestamp :=
               copy_field SMS_TIMESTAMP_MAX (dl_service_center_timestamp deliver)\<rparr>))
     else if existing_err = ESP_ERR_NOT_FOUND then do {
       (result, stored) \<leftarrow> store_save env (deliver_record deliver);
       if result = ESP_OK then do {
         count (\<lambda>d. d\<lparr>dg_inbound_parts := dg_inbound_parts d + 1\<rparr>);
         ret (result, stored) }
       else ret (result, stored) }
     else ret (existing_err, zero_message) }"

definition persist_deliver ::
    "('n, 'w) service_env \<Rightarrow> sms_deliver \<Rightarrow> ('n, 'w, esp_err) sms_m" where
  "persist_deliver env deliver = do {
     record_ok \<leftarrow> on_world (env_calloc env);
     if \<not> record_ok then ret ESP_ERR_NO_MEM
     else if cc_present (dl_concat deliver) then do {
       existing_ok \<leftarrow> on_world (env_calloc env);
       assembled_ok \<leftarrow> on_world (env_calloc env);
       if \<not> existing_ok \<or> \<not> assembled_ok then ret ESP_ERR_NO_MEM
       else do {
         (result, event_message) \<leftarrow> persist_part env deliver;
         if result \<noteq> ESP_OK then ret result
         else do {
           (assembly_err, assembled, created) \<leftarrow> assemble_if_complete env deliver;
           if assembly_err = ESP_OK then
             if created then do {
               count (\<lambda>d. d\<lparr>dg_inbound_messages := dg_inbound_messages d + 1\<rparr>);
               emit_event SMS_SERVICE_EVENT_RECEIVED assembled;
               ret ESP_OK }
             else ret ESP_OK
           else if assembly_err = ESP_ERR_NOT_FOUND then do {
             emit_event SMS_SERVICE_EVENT_PARTIAL_RECEIVED event_message;
             ret ESP_OK }
           else ret assembly_err } } }
     else do {
       existing_ok \<leftarrow> on_world (env_calloc env);
       if \<not> existing_ok then ret ESP_ERR_NO_MEM
       else do {
         let record = deliver_record deliver;
         (duplicate_err, _) \<leftarrow> store_query (sms_store_find_inbound_identity (env_nvs env)
           (Some (msg_sender record)) (Some (msg_service_center_timestamp record))
           (msg_encoding record) (Some (msg_text record)));
         if duplicate_err = ESP_OK then do {
           count (\<lambda>d. d\<lparr>dg_duplicate_messages := dg_duplicate_messages d + 1\<rparr>);
           ret ESP_OK }
         else if duplicate_err = ESP_ERR_NOT_FOUND then do {
           (result, stored) \<leftarrow> store_save env record;
           if result = ESP_OK then do {
             count (\<lambda>d. d\<lparr>dg_inbound_messages := dg_inbound_messages d + 1\<rparr>);
             emit_event SMS_SERVICE_EVENT_RECEIVED stored;
             ret result }
           else ret result }
         else ret duplicate_err } } }"

section \<open>Delivery reports\<close>

definition all_segments :: "nat \<Rightarrow> u16" where
  "all_segments n = (if n \<ge> 16 then 0xFFFF else word_of_nat (2 ^ n - 1))"

definition segment_bit :: "nat \<Rightarrow> u16" where
  "segment_bit i = push_bit i 1"

definition apply_report :: "sms_status_report \<Rightarrow> nat \<Rightarrow> sms_message \<Rightarrow> sms_message" where
  "apply_report report segment m =
     (let m = m\<lparr>msg_delivery_status := (msg_delivery_status m)[segment := sr_status report]\<rparr>;
          m = (if sr_delivered report
               then m\<lparr>msg_segment_delivered_mask := msg_segment_delivered_mask m OR segment_bit segment\<rparr>
               else if sr_status report \<ge> 0x40
               then m\<lparr>msg_segment_failed_mask := msg_segment_failed_mask m OR segment_bit segment\<rparr>
               else m);
          all = all_segments (unat (msg_segment_count m))
      in if msg_segment_delivered_mask m AND all = all then m\<lparr>msg_status := SMS_MESSAGE_DELIVERED\<rparr>
         else if msg_segment_failed_mask m AND all \<noteq> 0 then m\<lparr>msg_status := SMS_MESSAGE_FAILED\<rparr>
         else m)"

definition process_status_report_pdu :: "('n, 'w) service_env \<Rightarrow> string \<Rightarrow> ('n, 'w, esp_err) sms_m" where
  "process_status_report_pdu env pdu =
     (case sms_status_report_decode pdu of
        Ret report \<Rightarrow> do {
          count (\<lambda>d. d\<lparr>dg_delivery_reports := dg_delivery_reports d + 1\<rparr>);
          message_ok \<leftarrow> on_world (env_calloc env);
          if \<not> message_ok then ret ESP_ERR_NO_MEM
          else do {
            (err, out, segment) \<leftarrow> store_query (sms_store_find_outbound_reference (env_nvs env)
              (Some (sr_recipient report)) (sr_message_reference report));
            if err \<noteq> ESP_OK then ret err
            else do {
              let segment = (case segment of Some i \<Rightarrow> i | None \<Rightarrow> 0);
              let message = (case out of Some m \<Rightarrow> m | None \<Rightarrow> zero_message);
              bounds_check (segment < SMS_MAX_SEGMENTS);
              (err, message) \<leftarrow> store_save env (apply_report report segment message);
              if err = ESP_OK then do {
                (if msg_status message = SMS_MESSAGE_DELIVERED
                 then emit_event SMS_SERVICE_EVENT_DELIVERED message
                 else if msg_status message = SMS_MESSAGE_FAILED
                 then emit_event SMS_SERVICE_EVENT_FAILED message
                 else ret ());
                ret err }
              else ret err } } }
      | _ \<Rightarrow> do {
          count (\<lambda>d. d\<lparr>dg_decode_failures := dg_decode_failures d + 1\<rparr>);
          ret ESP_ERR_INVALID_RESPONSE })"

section \<open>PDUs from the modem\<close>

text \<open>
  The out-parameter of \<open>sms_deliver_decode\<close> when it returns \<open>SMS_PDU_DECODE_UNSUPPORTED\<close> from the
  8-bit branch of \<open>decode_user_data\<close>: sender, timestamp and encoding are set, the text is empty.
  On every other return with that code the encoding field is not \<open>SMS_ENCODING_8BIT\<close>.
\<close>

definition deliver_8bit :: "string \<Rightarrow> (sms_pdu_decode_result, sms_deliver) outcome" where
  "deliver_8bit hex =
     and_then (tpdu_start hex) (\<lambda>(pdu, first, pos).
       if first AND 0x03 \<noteq> 0x00 \<or> pos + 2 > length pdu then Err SMS_PDU_DECODE_UNSUPPORTED
       else
         and_then (aread pdu pos) (\<lambda>oa_digits.
         and_then (aread pdu (pos + 1)) (\<lambda>oa_toa.
           let pos = pos + 2; oa_bytes = (unat oa_digits + 1) div 2 in
           if pos + oa_bytes + 10 > length pdu then Err SMS_PDU_DECODE_INVALID
           else
             and_then (on_err (address_decode (drop pos pdu) (length pdu - pos) (unat oa_digits) oa_toa
                        SMS_MAX_ADDRESS_LENGTH) SMS_PDU_DECODE_INVALID) (\<lambda>sender.
             let pos = pos + oa_bytes + 1 in
             and_then (aread pdu pos) (\<lambda>dcs.
             let pos = pos + 1 in
             and_then (on_err (timestamp_decode (drop pos pdu) (length pdu - pos) 40) SMS_PDU_DECODE_INVALID) (\<lambda>ts.
             let pos = pos + 7 in
             if pos \<ge> length pdu then Err SMS_PDU_DECODE_TRUNCATED
             else if dcs_encoding dcs \<noteq> SMS_ENCODING_8BIT then Err SMS_PDU_DECODE_UNSUPPORTED
             else Ret \<lparr>dl_sender = sender, dl_encoding = SMS_ENCODING_8BIT, dl_concat = no_concat,
                       dl_service_center_timestamp = ts, dl_text = []\<rparr>))))))"

definition unsupported_record :: "string \<Rightarrow> sms_deliver \<Rightarrow> sms_message" where
  "unsupported_record pdu deliver =
     zero_message\<lparr>msg_direction := SMS_DIRECTION_INBOUND, msg_status := SMS_MESSAGE_UNSUPPORTED,
       msg_encoding := dl_encoding deliver, msg_segment_count := 1,
       msg_sender := copy_field SMS_MAX_ADDRESS_LENGTH (dl_sender deliver),
       msg_service_center_timestamp := copy_field SMS_TIMESTAMP_MAX (dl_service_center_timestamp deliver),
       msg_raw_pdu := copy_field SMS_MAX_PDU_HEX pdu\<rparr>"

definition persist_unsupported_deliver ::
    "('n, 'w) service_env \<Rightarrow> string \<Rightarrow> sms_deliver \<Rightarrow> ('n, 'w, esp_err) sms_m" where
  "persist_unsupported_deliver env pdu deliver = do {
     existing_ok \<leftarrow> on_world (env_calloc env);
     if \<not> existing_ok then ret ESP_ERR_NO_MEM
     else do {
       (err, _) \<leftarrow> store_query (sms_store_find_inbound_raw_pdu (env_nvs env) (Some pdu));
       if err = ESP_OK then do {
         count (\<lambda>d. d\<lparr>dg_duplicate_messages := dg_duplicate_messages d + 1\<rparr>);
         ret ESP_OK }
       else if err \<noteq> ESP_ERR_NOT_FOUND then ret err
       else do {
         (err, stored) \<leftarrow> store_save env (unsupported_record pdu deliver);
         if err = ESP_OK then do {
           count (\<lambda>d. d\<lparr>dg_unsupported_pdus := dg_unsupported_pdus d + 1\<rparr>);
           emit_event SMS_SERVICE_EVENT_UNSUPPORTED_RECEIVED stored;
           ret err }
         else ret err } } }"

definition process_deliver_pdu :: "('n, 'w) service_env \<Rightarrow> string \<Rightarrow> int \<Rightarrow> ('n, 'w, esp_err) sms_m" where
  "process_deliver_pdu env pdu modem_index = do {
     deliver_ok \<leftarrow> on_world (env_calloc env);
     stored_ok \<leftarrow> on_world (env_calloc env);
     if \<not> deliver_ok \<or> \<not> stored_ok then ret ESP_ERR_NO_MEM
     else (case sms_deliver_decode pdu of
        Ret deliver \<Rightarrow> do {
          count (\<lambda>d. d\<lparr>dg_inbound_pdus := dg_inbound_pdus d + 1\<rparr>);
          err \<leftarrow> persist_deliver env deliver;
          if err \<noteq> ESP_OK then do {
            count (\<lambda>d. d\<lparr>dg_store_failures := dg_store_failures d + 1\<rparr>);
            diag_set_error err (-1);
            ret err }
          else if modem_index \<ge> 0 then do { _ \<leftarrow> delete_modem_index env modem_index; ret ESP_OK }
          else ret ESP_OK }
      | Err e \<Rightarrow>
          (case (if e = SMS_PDU_DECODE_UNSUPPORTED then deliver_8bit pdu else Err e) of
             Ret deliver \<Rightarrow> do {
               count (\<lambda>d. d\<lparr>dg_inbound_pdus := dg_inbound_pdus d + 1\<rparr>);
               err \<leftarrow> persist_unsupported_deliver env pdu deliver;
               if err = ESP_OK \<and> modem_index \<ge> 0
               then do { _ \<leftarrow> delete_modem_index env modem_index; ret err }
               else ret err }
           | _ \<Rightarrow> do {
               count (\<lambda>d. d\<lparr>dg_decode_failures := dg_decode_failures d + 1\<rparr>);
               ret ESP_ERR_INVALID_RESPONSE })
      | Fault \<Rightarrow> do { bounds_check False; ret ESP_ERR_INVALID_RESPONSE }) }"

definition process_any_pdu :: "('n, 'w) service_env \<Rightarrow> string \<Rightarrow> int \<Rightarrow> ('n, 'w, esp_err) sms_m" where
  "process_any_pdu env pdu modem_index =
     (case pdu_type pdu of
        SMS_PDU_TYPE_DELIVER \<Rightarrow> process_deliver_pdu env pdu modem_index
      | SMS_PDU_TYPE_STATUS_REPORT \<Rightarrow> do {
          err \<leftarrow> process_status_report_pdu env pdu;
          if err = ESP_OK \<and> modem_index \<ge> 0
          then do { _ \<leftarrow> delete_modem_index env modem_index; ret err }
          else ret err }
      | SMS_PDU_TYPE_UNKNOWN \<Rightarrow> do {
          count (\<lambda>d. d\<lparr>dg_decode_failures := dg_decode_failures d + 1\<rparr>);
          ret ESP_ERR_NOT_SUPPORTED })"

definition read_modem_index :: "('n, 'w) service_env \<Rightarrow> int \<Rightarrow> ('n, 'w, esp_err) sms_m" where
  "read_modem_index env index = do {
     (ok, response) \<leftarrow> execute_simple env (''AT+CMGR='' @ dec (nat index)) [''+CMGR:'']
       SMS_SERVICE_AT_TIMEOUT_MS;
     if \<not> ok then ret ESP_FAIL
     else (case find is_hex_pdu_line (response_lines response) of
             Some (Some l) \<Rightarrow> process_any_pdu env l index
           | _ \<Rightarrow> ret ESP_ERR_INVALID_RESPONSE) }"

text \<open>The lines of one batch: the pending index and the number of messages processed.\<close>

fun scan_lines ::
    "('n, 'w) service_env \<Rightarrow> string option list \<Rightarrow> int \<Rightarrow> nat \<Rightarrow> ('n, 'w, nat) sms_m" where
  "scan_lines env [] pending processed = ret processed"
| "scan_lines env (line # ls) pending processed =
     (case Option.bind line parse_cmgl_index of
        Some index \<Rightarrow> scan_lines env ls index processed
      | None \<Rightarrow>
          if pending \<ge> 0 \<and> is_hex_pdu_line line then do {
            err \<leftarrow> process_any_pdu env (the line) pending;
            scan_lines env ls (-1) (if err = ESP_OK then processed + 1 else processed) }
          else scan_lines env ls pending processed)"

fun scan_batches :: "('n, 'w) service_env \<Rightarrow> nat \<Rightarrow> ('n, 'w, unit) sms_m" where
  "scan_batches env 0 = ret ()"
| "scan_batches env (Suc batches) = do {
     (ok, response) \<leftarrow> execute_simple env ''AT+CMGL=4'' [''+CMGL:''] 30000;
     if \<not> ok then count (\<lambda>d. d\<lparr>dg_inbox_scan_failures := dg_inbox_scan_failures d + 1\<rparr>)
     else do {
       processed \<leftarrow> scan_lines env (response_lines response) (-1) 0;
       if processed = 0 then ret () else scan_batches env batches } }"

definition scan_stored_messages :: "('n, 'w) service_env \<Rightarrow> ('n, 'w, unit) sms_m" where
  "scan_stored_messages env = do {
     count (\<lambda>d. d\<lparr>dg_inbox_scans := dg_inbox_scans d + 1\<rparr>);
     scan_batches env SMS_STORE_MAX_RECORDS }"

section \<open>Setting up the modem\<close>

definition setup_command :: "('n, 'w) service_env \<Rightarrow> string \<Rightarrow> ('n, 'w, bool) sms_m" where
  "setup_command env command = do {
     (ok, response) \<leftarrow> execute_simple env command [] SMS_SERVICE_AT_TIMEOUT_MS;
     if ok then ret True
     else do {
       count (\<lambda>d. d\<lparr>dg_setup_failed_command := Some command, dg_setup_failed_result := rs_result response,
         dg_setup_failed_code := rs_error_code response\<rparr>);
       ret False } }"

definition cnmi :: "string list" where
  "cnmi = [''AT+CNMI=2,1,0,2,0'', ''AT+CNMI=2,1,0,1,0'', ''AT+CNMI=1,1,0,1,0'', ''AT+CNMI=2,1,0,0,0'',
     ''AT+CNMI=1,1,0,0,0'']"

fun try_commands :: "('n, 'w) service_env \<Rightarrow> string list \<Rightarrow> ('n, 'w, bool) sms_m" where
  "try_commands env [] = ret False"
| "try_commands env (c # cs) = do { ok \<leftarrow> setup_command env c; if ok then ret True else try_commands env cs }"

definition configure_pdu_mode :: "('n, 'w) service_env \<Rightarrow> ('n, 'w, bool) sms_m" where
  "configure_pdu_mode env = do {
     count (\<lambda>d. d\<lparr>dg_setup_attempts := dg_setup_attempts d + 1\<rparr>);
     ok \<leftarrow> setup_command env ''AT+CMGF=0'';
     if \<not> ok then ret False
     else do {
       indications \<leftarrow> try_commands env cnmi;
       if \<not> indications then ret False
       else do {
         count (\<lambda>d. d\<lparr>dg_pdu_mode_configured := True, dg_setup_failed_command := None,
           dg_last_error := ESP_OK, dg_last_cms_error := -1\<rparr>);
         scan_stored_messages env;
         ret True } } }"

definition poll_inbox_if_due :: "('n, 'w) service_env \<Rightarrow> ('n, 'w, unit) sms_m" where
  "poll_inbox_if_due env = do {
     configured \<leftarrow> look (\<lambda>s. dg_pdu_mode_configured (sv_diagnostics s));
     now \<leftarrow> on_world (env_ticks env);
     ready \<leftarrow> modem_ready env;
     last_poll \<leftarrow> look sv_last_poll;
     if \<not> configured \<or> \<not> ready \<or> now - last_poll < env_ms_to_ticks env SMS_SERVICE_INBOX_POLL_MS then ret ()
     else do { upd (\<lambda>s. s\<lparr>sv_last_poll := now\<rparr>); scan_stored_messages env } }"

definition retry_pdu_mode_if_needed :: "('n, 'w) service_env \<Rightarrow> ('n, 'w, unit) sms_m" where
  "retry_pdu_mode_if_needed env = do {
     configured \<leftarrow> look (\<lambda>s. dg_pdu_mode_configured (sv_diagnostics s));
     ready \<leftarrow> modem_ready env;
     if configured \<or> \<not> ready then ret ()
     else do {
       now \<leftarrow> on_world (env_ticks env);
       last_attempt \<leftarrow> look sv_last_setup;
       if last_attempt \<noteq> 0 \<and> now - last_attempt < env_ms_to_ticks env SMS_SERVICE_SETUP_RETRY_MS then ret ()
       else do {
         upd (\<lambda>s. s\<lparr>sv_last_setup := now\<rparr>);
         count (\<lambda>d. d\<lparr>dg_modem_ready := True\<rparr>);
         _ \<leftarrow> configure_pdu_mode env;
         ret () } } }"

end
