(* ===== verification/Sms_Outbound.thy ===== *)
theory Sms_Outbound
  imports Sms_Service Sms_Store_Queries
begin

text \<open>
  The rest of \<open>sms_service.c\<close>: interrupted sends at start-up, the segments of outbound messages,
  unsolicited lines, the turns of the service task, and the functions the API calls. The API
  functions run in other tasks; each is one step between two turns of the service task.
\<close>

section \<open>Interrupted sends\<close>

lemma list_step_above:
  "\<forall>r \<in> set rs. after < msg_id r \<Longrightarrow> \<forall>r \<in> set (list_step after k m rs). after < msg_id r"
  by (auto simp: list_step_def Let_def not_le dest!: subsetD [OF set_update_subset_insert])

lemma list_scan_above:
  assumes "scan_all load (on_record (\<lambda>_. list_step after k)) ss acc = Inr rs"
    and "\<forall>r \<in> set acc. after < msg_id r"
  shows "\<forall>r \<in> set rs. after < msg_id r"
  using assms
proof (induction ss arbitrary: acc)
  case (Cons s ss)
  then show ?case
    by (auto simp: on_record_def split: sum.splits option.splits dest: list_step_above)
qed simp

lemma sms_store_list_above:
  assumes "sms_store_list ops after k st = Inr rs" and "r \<in> set rs"
  shows "after < msg_id r"
proof -
  obtain rs0 where "scan_all (load_slot ops (st_nvs st)) (on_record (\<lambda>_. list_step after k)) store_slots [] = Inr rs0"
    and "rs = insertion_sort rs0"
    using assms(1) by (auto simp: sms_store_list_def split: if_splits sum.splits)
  moreover from this have "set rs = set rs0" by (metis insertion_sort_spec mset_eq_setD)
  ultimately show ?thesis using list_scan_above assms(2) by fastforce
qed

definition mark_uncertain :: "('n, 'w) service_env \<Rightarrow> sms_message \<Rightarrow> ('n, 'w, unit) sms_m" where
  "mark_uncertain env r =
     (if msg_direction r = SMS_DIRECTION_OUTBOUND \<and> msg_status r = SMS_MESSAGE_SENDING then do {
        (_, r) \<leftarrow> store_save env (r\<lparr>msg_status := SMS_MESSAGE_UNCERTAIN\<rparr>);
        emit_event SMS_SERVICE_EVENT_UNCERTAIN r }
      else ret ())"

text \<open>The loop over all records in ascending order; the next record is always above the last.\<close>

function mark_loop :: "('n, 'w) service_env \<Rightarrow> u32 \<Rightarrow> ('n, 'w) service \<Rightarrow> ('n, 'w) service" where
  "mark_loop env after s =
     (case sms_store_list (env_nvs env) after 1 (sv_store s) of
        Inl _ \<Rightarrow> s
      | Inr [] \<Rightarrow> s
      | Inr (r # _) \<Rightarrow> mark_loop env (msg_id r) (snd (run_state (mark_uncertain env r) s)))"
  by pat_completeness auto

termination
proof (relation "measure (\<lambda>(env, after, s). unat UINT32_MAX - unat after)", goal_cases)
  case 1
  then show ?case by simp
next
  case (2 env after s rs r rs')
  then have "after < msg_id r" using sms_store_list_above by fastforce
  moreover have "unat (msg_id r) \<le> unat UINT32_MAX" using UINT32_MAX_max(1) word_le_nat_alt by blast
  ultimately show ?case by (simp add: word_less_nat_alt)
qed

declare mark_loop.simps [simp del]

definition mark_interrupted_sends_uncertain :: "('n, 'w) service_env \<Rightarrow> ('n, 'w, unit) sms_m" where
  "mark_interrupted_sends_uncertain env = do {
     record_ok \<leftarrow> on_world (env_calloc env);
     if \<not> record_ok then diag_set_error ESP_ERR_NO_MEM (-1)
     else upd (mark_loop env 0) }"

section \<open>Sending\<close>

definition cmgs_request :: "sms_submit_segment \<Rightarrow> at_request" where
  "cmgs_request segment =
     \<lparr>rq_command = Some (''AT+CMGS='' @ dec (tpdu_length_octets segment)),
      rq_expected_prefixes = Some [Some ''+CMGS:''], rq_expected_prefix_count = 1,
      rq_timeout_ms = SMS_SERVICE_CMGS_TIMEOUT_MS, rq_max_attempts = 1, rq_retry_delay_ms = 0,
      rq_retry_policy = 0, rq_wait_for_prompt = True,
      rq_prompt_payload = Some (map byte_of (pdu_hex segment) @ [0x1A]),
      rq_prompt_payload_len = length (pdu_hex segment) + 1\<rparr>"

text \<open>The error code and the message as the caller holds it after the call.\<close>

definition send_segment ::
    "('n, 'w) service_env \<Rightarrow> sms_message \<Rightarrow> sms_submit_segment \<Rightarrow> nat \<Rightarrow>
     ('n, 'w, esp_err \<times> sms_message) sms_m" where
  "send_segment env message segment index =
     (if index \<ge> unat (msg_segment_count message) then ret (ESP_ERR_INVALID_ARG, message)
      else do {
        (err, message) \<leftarrow> store_save env (message\<lparr>msg_status := SMS_MESSAGE_SENDING,
          msg_inflight_segment := word_of_nat (index + 1), msg_send_attempts := msg_send_attempts message + 1\<rparr>);
        if err \<noteq> ESP_OK then ret (err, message)
        else do {
          payload_ok \<leftarrow> on_world (env_calloc env);
          if \<not> payload_ok then do {
            (_, message) \<leftarrow> store_save env (message\<lparr>msg_status := SMS_MESSAGE_QUEUED, msg_inflight_segment := 0\<rparr>);
            ret (ESP_ERR_NO_MEM, message) }
          else do {
            (err, response) \<leftarrow> execute env (cmgs_request segment) zero_response;
            let accepted = (if err = ESP_OK \<and> rs_result response = AT_RESULT_OK
                            then parse_cmgs_reference response else None);
            case accepted of
              None \<Rightarrow> do {
                (_, message) \<leftarrow> store_save env (message\<lparr>msg_status := SMS_MESSAGE_UNCERTAIN,
                  msg_last_modem_error := (if err = ESP_OK then rs_error_code response else -1)\<rparr>);
                count (\<lambda>d. d\<lparr>dg_outbound_uncertain := dg_outbound_uncertain d + 1\<rparr>);
                diag_set_error (if err = ESP_OK then ESP_FAIL else err)
                  (if err = ESP_OK \<and> rs_result response = AT_RESULT_CMS_ERROR then rs_error_code response else -1);
                emit_event SMS_SERVICE_EVENT_UNCERTAIN message;
                ret (if err = ESP_OK then ESP_FAIL else err, message) }
            | Some reference \<Rightarrow> do {
                bounds_check (index < SMS_MAX_SEGMENTS);
                (err, message) \<leftarrow> store_save env
                  (message\<lparr>msg_modem_reference := (msg_modem_reference message)[index := reference],
                     msg_segment_sent_mask := msg_segment_sent_mask message OR segment_bit index,
                     msg_inflight_segment := 0, msg_last_modem_error := 0\<rparr>);
                if err = ESP_OK then do {
                  count (\<lambda>d. d\<lparr>dg_outbound_segments_sent := dg_outbound_segments_sent d + 1\<rparr>);
                  ret (err, message) }
                else ret (err, message) } } } })"

text \<open>The loop over the segments; \<open>None\<close> when it returned because a segment was not sent.\<close>

fun send_segments ::
    "('n, 'w) service_env \<Rightarrow> sms_submit_segment list \<Rightarrow> nat list \<Rightarrow> sms_message \<Rightarrow>
     ('n, 'w, sms_message option) sms_m" where
  "send_segments env segments [] message = ret (Some message)"
| "send_segments env segments (i # is) message =
     (if bit (msg_segment_sent_mask message) i then send_segments env segments is message
      else do {
        (err, message) \<leftarrow> send_segment env message (segments ! i) i;
        if err \<noteq> ESP_OK then ret None else send_segments env segments is message })"

text \<open>The segment array of \<open>calloc\<close>.\<close>

definition zero_segment :: sms_submit_segment where
  "zero_segment = \<lparr>seg_encoding = SMS_ENCODING_GSM7, seg_concat = no_concat, segment_number = 0,
     segment_count = 0, tpdu_length_octets = 0, pdu_hex = []\<rparr>"

definition segment_capacity :: "sms_message \<Rightarrow> nat" where
  "segment_capacity message =
     (if 1 \<le> unat (msg_segment_count message) \<and> unat (msg_segment_count message) \<le> SMS_MAX_SEGMENTS
      then unat (msg_segment_count message) else SMS_MAX_SEGMENTS)"

text \<open>The part of \<open>process_one_outbound\<close> after the oldest queued message has been found.\<close>

definition send_queued :: "('n, 'w) service_env \<Rightarrow> sms_message \<Rightarrow> ('n, 'w, unit) sms_m" where
  "send_queued env message = do {
     segments_ok \<leftarrow> on_world (env_calloc env);
     if \<not> segments_ok then diag_set_error ESP_ERR_NO_MEM (-1)
     else (case sms_submit_encode (msg_recipient message) (msg_text message)
                  (msg_delivery_report_requested message) (msg_concat_reference message)
                  (replicate (segment_capacity message) zero_segment) of
        Some (segments, parts) \<Rightarrow>
          if parts = 0 \<or> parts \<noteq> unat (msg_segment_count message)
          then do {
            (_, message) \<leftarrow> store_save env
              (message\<lparr>msg_status := SMS_MESSAGE_FAILED, msg_last_modem_error := -1\<rparr>);
            emit_event SMS_SERVICE_EVENT_FAILED message }
          else do {
            sent \<leftarrow> send_segments env segments [0..<parts] message;
            case sent of
              None \<Rightarrow> ret ()
            | Some message \<Rightarrow>
                (let all = all_segments parts in
                 if msg_segment_sent_mask message AND all = all
                 then do {
                   (err, message) \<leftarrow> store_save env
                     (message\<lparr>msg_status := SMS_MESSAGE_SENT, msg_inflight_segment := 0\<rparr>);
                   if err = ESP_OK then emit_event SMS_SERVICE_EVENT_SENT message else ret () }
                 else ret ()) }
      | None \<Rightarrow> do {
          (_, message) \<leftarrow> store_save env
            (message\<lparr>msg_status := SMS_MESSAGE_FAILED, msg_last_modem_error := -1\<rparr>);
          emit_event SMS_SERVICE_EVENT_FAILED message }) }"

definition process_one_outbound :: "('n, 'w) service_env \<Rightarrow> ('n, 'w, unit) sms_m" where
  "process_one_outbound env = do {
     pdu_ready \<leftarrow> look (\<lambda>s. dg_pdu_mode_configured (sv_diagnostics s));
     ready \<leftarrow> modem_ready env;
     if \<not> ready \<or> \<not> pdu_ready then ret ()
     else do {
       message_ok \<leftarrow> on_world (env_calloc env);
       if \<not> message_ok then diag_set_error ESP_ERR_NO_MEM (-1)
       else do {
         (err, out) \<leftarrow> store_query (sms_store_find_status (env_nvs env) SMS_MESSAGE_QUEUED);
         if err \<noteq> ESP_OK then ret ()
         else send_queued env (case out of Some m \<Rightarrow> m | None \<Rightarrow> zero_message) } } }"

section \<open>The service task\<close>

definition handle_urc_line :: "('n, 'w) service_env \<Rightarrow> string \<Rightarrow> ('n, 'w, unit) sms_m" where
  "handle_urc_line env line = do {
     pending \<leftarrow> look sv_direct_pending;
     if pending \<noteq> DIRECT_URC_NONE then do {
       upd (\<lambda>s. s\<lparr>sv_direct_pending := DIRECT_URC_NONE\<rparr>);
       if is_hex_pdu_line (Some line) then
         if pending = DIRECT_URC_DELIVER then do { _ \<leftarrow> process_deliver_pdu env line (-1); ret () }
         else do { _ \<leftarrow> process_status_report_pdu env line; ret () }
       else count (\<lambda>d. d\<lparr>dg_decode_failures := dg_decode_failures d + 1\<rparr>) }
     else if has_prefix line ''+CMT:'' then upd (\<lambda>s. s\<lparr>sv_direct_pending := DIRECT_URC_DELIVER\<rparr>)
     else if has_prefix line ''+CDS:'' then upd (\<lambda>s. s\<lparr>sv_direct_pending := DIRECT_URC_STATUS_REPORT\<rparr>)
     else (case parse_index_urc line ''+CMTI:'' of
             Some index \<Rightarrow> do { _ \<leftarrow> read_modem_index env index; ret () }
           | None \<Rightarrow>
               (case parse_index_urc line ''+CDSI:'' of
                  Some index \<Rightarrow> do { _ \<leftarrow> read_modem_index env index; ret () }
                | None \<Rightarrow> ret ())) }"

definition handle_event :: "('n, 'w) service_env \<Rightarrow> service_event \<Rightarrow> ('n, 'w, unit) sms_m" where
  "handle_event env event =
     (case event of
        SERVICE_EVENT_MODEM_READY \<Rightarrow> do {
          count (\<lambda>d. d\<lparr>dg_modem_ready := True, dg_pdu_mode_configured := False\<rparr>);
          now \<leftarrow> on_world (env_ticks env);
          upd (\<lambda>s. s\<lparr>sv_last_setup := now, sv_last_poll := now\<rparr>);
          _ \<leftarrow> configure_pdu_mode env;
          ret () }
      | SERVICE_EVENT_MODEM_LOST \<Rightarrow> do {
          upd (\<lambda>s. s\<lparr>sv_direct_pending := DIRECT_URC_NONE\<rparr>);
          count (\<lambda>d. d\<lparr>dg_modem_ready := False, dg_pdu_mode_configured := False\<rparr>) }
      | SERVICE_EVENT_URC line \<Rightarrow> handle_urc_line env line
      | SERVICE_EVENT_WAKE \<Rightarrow> ret ())"

text \<open>The start of \<open>service_task\<close>, and one turn of its loop: the oldest queued event, if one
  arrives in time, then the periodic work.\<close>

definition service_start :: "('n, 'w) service_env \<Rightarrow> ('n, 'w, unit) sms_m" where
  "service_start env = do {
     mark_interrupted_sends_uncertain env;
     now \<leftarrow> on_world (env_ticks env);
     upd (\<lambda>s. s\<lparr>sv_last_setup := 0, sv_last_poll := now\<rparr>) }"

definition service_turn :: "('n, 'w) service_env \<Rightarrow> ('n, 'w, unit) sms_m" where
  "service_turn env = do {
     queue \<leftarrow> look sv_queue;
     (case queue of
        [] \<Rightarrow> ret ()
      | event # rest \<Rightarrow> do { upd (\<lambda>s. s\<lparr>sv_queue := rest\<rparr>); handle_event env event });
     retry_pdu_mode_if_needed env;
     process_one_outbound env;
     poll_inbox_if_due env }"

section \<open>The functions other components call\<close>

definition zero_diagnostics :: sms_service_diagnostics where
  "zero_diagnostics =
     \<lparr>dg_initialized = False, dg_modem_ready = False, dg_pdu_mode_configured = False,
      dg_inbound_pdus = 0, dg_inbound_messages = 0, dg_inbound_parts = 0, dg_duplicate_parts = 0,
      dg_duplicate_messages = 0, dg_decode_failures = 0, dg_unsupported_pdus = 0,
      dg_store_failures = 0, dg_outbound_queued = 0, dg_outbound_segments_sent = 0,
      dg_outbound_uncertain = 0, dg_delivery_reports = 0, dg_urcs_dropped = 0,
      dg_store_pruned_records = 0, dg_store_capacity_failures = 0, dg_store_used_records = 0,
      dg_store_free_records = 0, dg_last_cms_error = 0, dg_last_error = ESP_OK,
      dg_setup_failed_command = None, dg_setup_failed_result = AT_RESULT_OK,
      dg_setup_failed_code = 0, dg_setup_attempts = 0, dg_inbox_scans = 0,
      dg_inbox_scan_failures = 0\<rparr>"

text \<open>
  \<open>sms_service_init\<close>: whether both functions of the transport are given, whether there is a
  callback, the results of opening the store and of creating the queue and the task are
  arguments. When the task cannot be created the queue is deleted again.
\<close>

definition sms_service_init ::
    "bool \<Rightarrow> bool \<Rightarrow> esp_err \<Rightarrow> esp_err \<times> 'n \<Rightarrow> bool \<Rightarrow> bool \<Rightarrow> bool \<Rightarrow> ('n, 'w, esp_err) sms_m" where
  "sms_service_init transport_ok event_cb flash_init opened mutex_created queue_created task_created = do {
     initialized \<leftarrow> look sv_initialized;
     if initialized then ret ESP_ERR_INVALID_STATE
     else if \<not> transport_ok then ret ESP_ERR_INVALID_ARG
     else do {
       err \<leftarrow> State (\<lambda>s. case sms_store_init flash_init opened mutex_created (sv_store s) of
         (e, st) \<Rightarrow> (e, s\<lparr>sv_store := st\<rparr>));
       if err \<noteq> ESP_OK then ret err
       else do {
         upd (\<lambda>s. s\<lparr>sv_initialized := False, sv_event_cb := event_cb, sv_queue := [],
           sv_direct_pending := DIRECT_URC_NONE,
           sv_diagnostics := zero_diagnostics\<lparr>dg_last_cms_error := -1\<rparr>\<rparr>);
         if \<not> queue_created then ret ESP_ERR_NO_MEM
         else if \<not> task_created then ret ESP_ERR_NO_MEM
         else do {
           upd (\<lambda>s. s\<lparr>sv_initialized := True\<rparr>);
           count (\<lambda>d. d\<lparr>dg_initialized := True\<rparr>);
           ret ESP_OK } } } }"

definition queue_send :: "service_event \<Rightarrow> ('n, 'w, unit) sms_m" where
  "queue_send event = do {
     queue \<leftarrow> look sv_queue;
     if length queue < SMS_SERVICE_QUEUE_DEPTH then upd (\<lambda>s. s\<lparr>sv_queue := queue @ [event]\<rparr>)
     else count (\<lambda>d. d\<lparr>dg_urcs_dropped := dg_urcs_dropped d + 1\<rparr>) }"

definition queue_simple_event :: "service_event \<Rightarrow> ('n, 'w, unit) sms_m" where
  "queue_simple_event event = do {
     initialized \<leftarrow> look sv_initialized;
     if \<not> initialized then ret () else queue_send event }"

definition sms_service_notify_modem_ready :: "('n, 'w, unit) sms_m" where
  "sms_service_notify_modem_ready = queue_simple_event SERVICE_EVENT_MODEM_READY"

definition sms_service_notify_modem_lost :: "('n, 'w, unit) sms_m" where
  "sms_service_notify_modem_lost = queue_simple_event SERVICE_EVENT_MODEM_LOST"

definition sms_service_handle_urc :: "string option \<Rightarrow> ('n, 'w, unit) sms_m" where
  "sms_service_handle_urc line = do {
     initialized \<leftarrow> look sv_initialized;
     case line of
       None \<Rightarrow> ret ()
     | Some l \<Rightarrow>
         if \<not> initialized then ret ()
         else if bounded_strlen l SMS_SERVICE_URC_MAX \<ge> SMS_SERVICE_URC_MAX
         then count (\<lambda>d. d\<lparr>dg_urcs_dropped := dg_urcs_dropped d + 1\<rparr>)
         else queue_send (SERVICE_EVENT_URC (cstr_view l)) }"

definition outbound_message :: "string \<Rightarrow> string \<Rightarrow> bool \<Rightarrow> sms_encoding \<Rightarrow> u16 \<Rightarrow> nat \<Rightarrow> sms_message" where
  "outbound_message recipient utf8_text request_delivery_report encoding concat_reference parts =
     zero_message\<lparr>msg_direction := SMS_DIRECTION_OUTBOUND, msg_status := SMS_MESSAGE_QUEUED,
       msg_encoding := encoding, msg_delivery_report_requested := request_delivery_report,
       msg_concat_reference := concat_reference, msg_segment_count := word_of_nat parts,
       msg_modem_reference := replicate SMS_MAX_SEGMENTS 0xFF,
       msg_delivery_status := replicate SMS_MAX_SEGMENTS 0xFF,
       msg_recipient := copy_field SMS_MAX_ADDRESS_LENGTH recipient,
       msg_text := copy_field SMS_MESSAGE_TEXT_MAX utf8_text\<rparr>"

text \<open>The error code and the identifier written to \<open>*message_id\<close>.\<close>

definition sms_service_send ::
    "('n, 'w) service_env \<Rightarrow> string option \<Rightarrow> string option \<Rightarrow> bool \<Rightarrow>
     ('n, 'w, esp_err \<times> u32 option) sms_m" where
  "sms_service_send env recipient utf8_text request_delivery_report = do {
     initialized \<leftarrow> look sv_initialized;
     case (recipient, utf8_text) of
       (Some to, Some body) \<Rightarrow>
         if \<not> initialized then ret (ESP_ERR_INVALID_ARG, None)
         else if bounded_strlen body SMS_MESSAGE_TEXT_MAX \<ge> SMS_MESSAGE_TEXT_MAX
         then ret (ESP_ERR_INVALID_SIZE, None)
         else do {
           segments_ok \<leftarrow> on_world (env_calloc env);
           if \<not> segments_ok then ret (ESP_ERR_NO_MEM, None)
           else do {
             random \<leftarrow> on_world (env_random env);
             let concat_reference = (if (ucast random :: u16) = 0 then 1 else ucast random);
             case sms_submit_encode to body request_delivery_report concat_reference
                    (replicate SMS_MAX_SEGMENTS zero_segment) of
               None \<Rightarrow> ret (ESP_ERR_INVALID_ARG, None)
             | Some (segments, parts) \<Rightarrow>
                 if parts = 0 \<or> parts > SMS_MAX_SEGMENTS then ret (ESP_ERR_INVALID_ARG, None)
                 else do {
                   message_ok \<leftarrow> on_world (env_calloc env);
                   if \<not> message_ok then ret (ESP_ERR_NO_MEM, None)
                   else do {
                     (err, message) \<leftarrow> store_save env (outbound_message to body request_delivery_report
                       (seg_encoding (segments ! 0)) concat_reference parts);
                     if err = ESP_OK then do {
                       count (\<lambda>d. d\<lparr>dg_outbound_queued := dg_outbound_queued d + 1\<rparr>);
                       queue_simple_event SERVICE_EVENT_WAKE;
                       ret (err, Some (msg_id message)) }
                     else ret (err, None) } } } }
     | _ \<Rightarrow> ret (ESP_ERR_INVALID_ARG, None) }"

definition sms_service_get ::
    "('n, 'w) service_env \<Rightarrow> u32 \<Rightarrow> ('n, 'w, esp_err \<times> sms_message option) sms_m" where
  "sms_service_get env i = store_query (sms_store_get (env_nvs env) i)"

definition sms_service_list ::
    "('n, 'w) service_env \<Rightarrow> u32 \<Rightarrow> nat \<Rightarrow> ('n, 'w, esp_err + sms_message list) sms_m" where
  "sms_service_list env after_id max_records =
     store_query (sms_store_list (env_nvs env) after_id max_records)"

definition sms_service_delete :: "('n, 'w) service_env \<Rightarrow> u32 \<Rightarrow> ('n, 'w, esp_err) sms_m" where
  "sms_service_delete env i = do {
     message_ok \<leftarrow> on_world (env_calloc env);
     if \<not> message_ok then ret ESP_ERR_NO_MEM
     else do {
       (err, out) \<leftarrow> store_query (sms_store_get (env_nvs env) i);
       let message = (case out of Some m \<Rightarrow> m | None \<Rightarrow> zero_message);
       if err = ESP_OK \<and> msg_direction message = SMS_DIRECTION_OUTBOUND \<and>
          (msg_status message = SMS_MESSAGE_QUEUED \<or> msg_status message = SMS_MESSAGE_SENDING)
       then ret ESP_ERR_INVALID_STATE
       else if err = ESP_OK then store_delete env i
       else ret err } }"

definition sms_service_retry_uncertain :: "('n, 'w) service_env \<Rightarrow> u32 \<Rightarrow> ('n, 'w, esp_err) sms_m" where
  "sms_service_retry_uncertain env i = do {
     message_ok \<leftarrow> on_world (env_calloc env);
     if \<not> message_ok then ret ESP_ERR_NO_MEM
     else do {
       (err, out) \<leftarrow> store_query (sms_store_get (env_nvs env) i);
       let message = (case out of Some m \<Rightarrow> m | None \<Rightarrow> zero_message);
       if err = ESP_OK \<and> (msg_direction message \<noteq> SMS_DIRECTION_OUTBOUND \<or>
                           msg_status message \<noteq> SMS_MESSAGE_UNCERTAIN)
       then ret ESP_ERR_INVALID_STATE
       else if err = ESP_OK then do {
         (err, _) \<leftarrow> store_save env (message\<lparr>msg_status := SMS_MESSAGE_QUEUED, msg_inflight_segment := 0\<rparr>);
         if err = ESP_OK then do { queue_simple_event SERVICE_EVENT_WAKE; ret err } else ret err }
       else ret err } }"

definition sms_service_get_diagnostics ::
    "('n, 'w) service_env \<Rightarrow> ('n, 'w, esp_err + sms_service_diagnostics) sms_m" where
  "sms_service_get_diagnostics env = look (\<lambda>s.
     if \<not> sv_initialized s then Inl ESP_ERR_INVALID_ARG
     else let d = sv_diagnostics s in
       (case sms_store_get_diagnostics (env_nvs env) (sv_store s) of
          Inl _ \<Rightarrow> Inr d
        | Inr st \<Rightarrow> Inr (d\<lparr>dg_store_pruned_records := sd_pruned_records st,
            dg_store_capacity_failures := sd_capacity_failures st,
            dg_store_used_records := sd_used_records st, dg_store_free_records := sd_free_records st\<rparr>)))"

definition sms_service_set_event_replay_watermark :: "bool \<Rightarrow> u32 \<Rightarrow> ('n, 'w, unit) sms_m" where
  "sms_service_set_event_replay_watermark protection_enabled watermark =
     upd (\<lambda>s. s\<lparr>sv_store := sms_store_set_replay_watermark protection_enabled watermark (sv_store s)\<rparr>)"

end
