(* ===== verification/Sms_Records.thy ===== *)
theory Sms_Records
  imports Sms_Outbound Pdu_Text
begin

text \<open>
  Reasoning about the service: what the operations of the store do to a property that holds of
  every record, and that each search of the store returns a record of the store.
\<close>

section \<open>Records of the store\<close>

definition all_records :: "(sms_message \<Rightarrow> bool) \<Rightarrow> ('n, persisted_record) nvs_ops \<Rightarrow> 'n \<Rightarrow> bool" where
  "all_records Q ops n \<longleftrightarrow> (\<forall>s m. load_slot ops n s = Inr (Some m) \<longrightarrow> Q m)"

lemma all_recordsD: "all_records Q ops n \<Longrightarrow> load_slot ops n s = Inr (Some m) \<Longrightarrow> Q m"
  by (auto simp: all_records_def)

lemma save_result:
  assumes "sms_store_save ops m st = (e, m', st')"
  shows "\<exists>i. m' = m\<lparr>msg_id := i\<rparr>" and "e = ESP_OK \<Longrightarrow> message_fields_ok m"
    and "msg_id m \<noteq> 0 \<Longrightarrow> m' = m"
proof -
  have "m' = m\<lparr>msg_id := msg_id m'\<rparr> \<and> (e = ESP_OK \<longrightarrow> message_fields_ok m) \<and> (msg_id m \<noteq> 0 \<longrightarrow> m' = m)"
    using assms by (auto simp: sms_store_save_def Let_def split: if_splits sum.splits prod.splits option.splits)
  then show "\<exists>i. m' = m\<lparr>msg_id := i\<rparr>" "e = ESP_OK \<Longrightarrow> message_fields_ok m" "msg_id m \<noteq> 0 \<Longrightarrow> m' = m"
    by blast+
qed

context message_partition
begin

lemma records_written:
  assumes "all_records Q ops n" and "write_slot ops s m n = (e, n')" and "Q m"
    and "msg_id m \<noteq> 0" and "message_fields_ok m"
  shows "all_records Q ops n'"
  unfolding all_records_def
proof (intro allI impI)
  fix t k assume "load_slot ops n' t = Inr (Some k)"
  then show "Q k"
    using write_slot_any [OF assms(2,4,5)] write_slot_other [OF assms(2), of t] assms(1,3)
    by (metis Inr_inject all_recordsD option.inject)
qed

lemma records_erased:
  assumes "all_records Q ops n" and "erase_slot ops s n = (e, n')"
  shows "all_records Q ops n'"
  unfolding all_records_def
proof (intro allI impI)
  fix t k assume "load_slot ops n' t = Inr (Some k)"
  then show "Q k"
    using erase_slot_any [OF assms(2)] erase_slot_other [OF assms(2), of t] assms(1)
    by (metis Inr_inject all_recordsD option.distinct(1))
qed

lemma records_allocated: "all_records Q ops n \<Longrightarrow> allocate_id ops n = (e, i, n') \<Longrightarrow> all_records Q ops n'"
  using allocate_load by (auto simp: all_records_def)

lemma records_chosen:
  "all_records Q ops (st_nvs st) \<Longrightarrow> choose_new_slot ops st = (r, st1) \<Longrightarrow> all_records Q ops (st_nvs st1)"
  using records_erased
  by (auto simp: choose_new_slot_def split: sum.splits if_splits prod.splits)

lemma records_saved:
  assumes "all_records Q ops (st_nvs st)" and c: "sms_store_save ops m st = (e, m', st')"
    and Q: "message_fields_ok m \<Longrightarrow> \<forall>i. Q (m\<lparr>msg_id := i\<rparr>)"
  shows "all_records Q ops (st_nvs st')"
proof (cases "st_initialized st \<and> message_fields_ok m")
  case False
  then show ?thesis using save_refused c assms(1) by blast
next
  case g: True
  have fields: "message_fields_ok (m\<lparr>msg_id := i\<rparr>)" for i using g by (simp add: message_fields_ok_def)
  show ?thesis
  proof (cases "msg_id m = 0")
    case True
    obtain r st1 where ch: "choose_new_slot ops st = (r, st1)" by fastforce
    note r1 = records_chosen [OF assms(1) ch]
    show ?thesis
    proof (cases r)
      case (Inl e1)
      then show ?thesis using c ch g True r1 by (auto simp: sms_store_save_def split: if_splits)
    next
      case (Inr s)
      obtain e1 ident n1 where a: "allocate_id ops (st_nvs st1) = (e1, ident, n1)" by (metis surj_pair)
      note r2 = records_allocated [OF r1 a]
      show ?thesis
      proof (cases "e1 = ESP_OK")
        case False
        then show ?thesis using c ch g True Inr a r2 by (auto simp: sms_store_save_def Let_def)
      next
        case ok: True
        then have id: "ident = Some (next_id ops (st_nvs st1))" using allocate_ident a by blast
        obtain e2 n2 where w: "write_slot ops s (m\<lparr>msg_id := next_id ops (st_nvs st1)\<rparr>) n1 = (e2, n2)" by fastforce
        have "st_nvs st' = n2" using c ch g True Inr a ok id w by (auto simp: sms_store_save_def Let_def)
        then show ?thesis using records_written [OF r2 w] Q g fields by simp
      qed
    qed
  next
    case False
    have Qm: "Q m" using Q g by (metis sms_message.surjective sms_message.update_convs(1))
    have "st_nvs st' = st_nvs st \<or> (\<exists>s e. write_slot ops s m (st_nvs st) = (e, st_nvs st'))"
      using c g False by (auto simp: sms_store_save_def split: sum.splits if_splits prod.splits)
    then show ?thesis using records_written assms(1) Qm False g by auto
  qed
qed

lemma records_deleted:
  assumes "all_records Q ops (st_nvs st)" and "sms_store_delete ops i st = (e, st')"
  shows "all_records Q ops (st_nvs st')"
  using assms records_erased
  by (auto simp: sms_store_delete_erase split: if_splits sum.splits prod.splits)

end

subsection \<open>What the searches return\<close>

lemma find_matching_load:
  "find_matching ops P n = (e, Some m) \<Longrightarrow> P m \<and> (\<exists>s. load_slot ops n s = Inr (Some m)) \<and> e = ESP_OK"
  by (auto simp: find_matching_def split: sum.splits option.splits dest: scan_until_Some)

lemma find_partial_load:
  "sms_store_find_partial ops (Some sender) r t p st = (e, Some m) \<Longrightarrow>
   partial_matches sender r t p m \<and> (\<exists>s. load_slot ops (st_nvs st) s = Inr (Some m))"
  by (auto simp: sms_store_find_partial_def split: if_splits dest: find_matching_load)

lemma oldest_scan_load:
  assumes "scan_all (load_slot ops n) (on_record (oldest_step P)) store_slots (False, UINT32_MAX, 0) = Inr (True, b, slot)"
  shows "\<exists>m. load_slot ops n slot = Inr (Some m) \<and> P m"
proof -
  have "fold (\<lambda>(s, r). oldest_step P s r) (held (load_slot ops n) store_slots) (False, UINT32_MAX, 0) = (True, b, slot)"
    using assms scan_all_held [OF scan_all_Inr_readable [OF assms], of "oldest_step P" "(False, UINT32_MAX, 0)"]
    by simp
  from oldest_fold [OF this] show ?thesis by (auto simp: set_held)
qed

lemma scan_all_Inl: "scan_all load f ss acc = Inl e \<Longrightarrow> \<exists>s. load s = Inl e"
  by (induction ss arbitrary: acc) (auto split: sum.splits)

lemma scan_until_Inl: "scan_until load P ss = Inl e \<Longrightarrow> \<exists>s. load s = Inl e"
  by (induction ss) (auto split: sum.splits if_splits)

context message_partition
begin

lemma load_error: "load_slot ops n s \<noteq> Inl ESP_OK"
  using get_blob_error by (auto simp: load_slot_def split: sum.splits if_splits option.splits prod.splits)

lemma scan_all_error: "scan_all (load_slot ops n) f ss acc \<noteq> Inl ESP_OK"
  using scan_all_Inl load_error by fastforce

lemma scan_until_error: "scan_until (load_slot ops n) P ss \<noteq> Inl ESP_OK"
  using scan_until_Inl load_error by fastforce

lemma find_status_load:
  assumes "sms_store_find_status ops status st = (e, x)" and "e = ESP_OK"
  shows "\<exists>m s. x = Some m \<and> msg_status m = status \<and> load_slot ops (st_nvs st) s = Inr (Some m)"
proof -
  obtain b slot where "scan_all (load_slot ops (st_nvs st)) (on_record (oldest_step (\<lambda>m. msg_status m = status)))
      store_slots (False, UINT32_MAX, 0) = Inr (True, b, slot)" "load_into ops (st_nvs st) slot None = (ESP_OK, x)"
    using assms by (auto simp: sms_store_find_status_def scan_all_error split: if_splits sum.splits)
  with oldest_scan_load show ?thesis by (fastforce simp: load_into_def)
qed

lemma find_outbound_load:
  assumes "sms_store_find_outbound_reference ops (Some to) r st = (e, x, i)" and "e = ESP_OK"
  shows "\<exists>m j s. x = Some m \<and> i = Some j \<and> first_sent_as to r m = Some j \<and>
           load_slot ops (st_nvs st) s = Inr (Some m)"
proof -
  let ?scan = "scan_all (load_slot ops (st_nvs st)) (on_record (\<lambda>slot m best.
      if msg_direction m \<noteq> SMS_DIRECTION_OUTBOUND \<or> msg_recipient m \<noteq> to then best
      else reference_loop r slot m [0..<unat (msg_segment_count m)] best)) store_slots None"
  obtain b s j where scan: "?scan = Inr (Some (b, s, j))"
    using assms
    by (auto simp: sms_store_find_outbound_reference_def scan_all_error split: if_splits sum.splits option.splits)
  then have "fold (\<lambda>(s, m). reference_step to r s m) (held (load_slot ops (st_nvs st)) store_slots) None = Some (b, s, j)"
    using scan_all_held [OF scan_all_Inr_readable [OF scan], of "reference_step to r" None]
    by (simp only: reference_step_loop) simp
  with reference_fold [where xs = "held (load_slot ops (st_nvs st)) store_slots" and to = to and r = r]
  obtain m where m: "load_slot ops (st_nvs st) s = Inr (Some m)" "first_sent_as to r m = Some j"
    by (auto simp: set_held)
  with scan assms have "x = Some m \<and> i = Some j"
    by (auto simp: sms_store_find_outbound_reference_def load_into_def split: if_splits)
  with m show ?thesis by blast
qed

lemma store_get_load:
  assumes "sms_store_get ops i st = (e, x)" and "e = ESP_OK"
  shows "\<exists>m s. x = Some m \<and> msg_id m = i \<and> load_slot ops (st_nvs st) s = Inr (Some m)"
proof -
  obtain slot where f: "find_id_slot ops (st_nvs st) i = Inr slot"
    using assms scan_until_error
    by (auto simp: sms_store_get_def find_id_slot_def split: if_splits sum.splits option.splits)
  with find_id_slot_Inr [OF f] assms show ?thesis by (auto simp: sms_store_get_def load_into_def split: if_splits)
qed

lemma find_partial_ok:
  assumes "sms_store_find_partial ops (Some sender) r t p st = (e, x)" and "e = ESP_OK"
  shows "\<exists>m s. x = Some m \<and> partial_matches sender r t p m \<and> load_slot ops (st_nvs st) s = Inr (Some m)"
  using assms scan_until_error by (auto simp: sms_store_find_partial_def find_matching_def
      split: if_splits sum.splits option.splits dest!: scan_until_Some)

end

lemma list_load:
  assumes "sms_store_list ops after k st = Inr rs" and "m \<in> set rs"
  shows "\<exists>s. load_slot ops (st_nvs st) s = Inr (Some m)"
proof -
  obtain rs0 where scan: "scan_all (load_slot ops (st_nvs st)) (on_record (\<lambda>_. list_step after k)) store_slots [] = Inr rs0"
    and rs: "rs = insertion_sort rs0"
    using assms(1) by (auto simp: sms_store_list_def split: if_splits sum.splits)
  let ?xs = "held (load_slot ops (st_nvs st)) store_slots"
  have "rs0 = fold (\<lambda>(s, m). list_step after k m) ?xs []"
    using scan scan_all_held [OF scan_all_Inr_readable [OF scan], of "\<lambda>_. list_step after k" "[]"] by simp
  moreover have "set (fold (\<lambda>(s, m). list_step after k m) xs acc) \<subseteq> set acc \<union> snd ` set xs" for xs acc
  proof (induction xs arbitrary: acc)
    case (Cons x xs)
    have "set (list_step after k (snd x) acc) \<subseteq> insert (snd x) (set acc)"
      by (auto simp: list_step_def Let_def dest!: subsetD [OF set_update_subset_insert])
    with Cons [of "list_step after k (snd x) acc"] show ?case by (auto simp: split_def)
  qed simp
  moreover have "set rs = set rs0" using rs by (metis insertion_sort_spec mset_eq_setD)
  ultimately show ?thesis using assms(2) by (fastforce simp: set_held)
qed

end
