(* ===== verification/Sms_Lifecycle.thy ===== *)
theory Sms_Lifecycle
  imports Sms_Records
begin

text \<open>
  The life of a message: the property of every stored record that all operations of the service
  keep, whatever the modem, the flash and the allocator answer. The locale \<open>sms_environment\<close>
  is the environment whose partition keeps the NVS contract; every operation is shown to keep
  the records in order, to stay inside its arrays and to respect the depth of the queue.
\<close>

section \<open>The life of a message\<close>

text \<open>
  What holds of every record in the store. Inbound records are parts, received or unsupported
  messages, and a part carries as its segment count the number of parts; outbound records are
  queued, sending, uncertain, failed, sent or delivered. A message is marked as sent only when
  the modem has acknowledged all its segments, and as delivered only when all were reported.
\<close>

definition lifecycle_ok :: "sms_message \<Rightarrow> bool" where
  "lifecycle_ok m \<longleftrightarrow>
     length (msg_modem_reference m) = SMS_MAX_SEGMENTS \<and> length (msg_delivery_status m) = SMS_MAX_SEGMENTS \<and>
     (let all = all_segments (unat (msg_segment_count m)) in
      case msg_status m of
        SMS_MESSAGE_PARTIAL \<Rightarrow> msg_direction m = SMS_DIRECTION_INBOUND \<and> cc_present (msg_concat m) \<and>
          msg_segment_count m = cc_total_parts (msg_concat m)
      | SMS_MESSAGE_RECEIVED \<Rightarrow> msg_direction m = SMS_DIRECTION_INBOUND
      | SMS_MESSAGE_UNSUPPORTED \<Rightarrow> msg_direction m = SMS_DIRECTION_INBOUND
      | SMS_MESSAGE_SENT \<Rightarrow> msg_direction m = SMS_DIRECTION_OUTBOUND \<and> msg_segment_sent_mask m AND all = all
      | SMS_MESSAGE_DELIVERED \<Rightarrow> msg_direction m = SMS_DIRECTION_OUTBOUND \<and> msg_segment_delivered_mask m AND all = all
      | _ \<Rightarrow> msg_direction m = SMS_DIRECTION_OUTBOUND)"

lemma lifecycle_id [simp]: "lifecycle_ok (m\<lparr>msg_id := i\<rparr>) = lifecycle_ok m"
  by (cases "msg_status m") (simp_all add: lifecycle_ok_def Let_def)

lemma fields_id [simp]: "message_fields_ok (m\<lparr>msg_id := i\<rparr>) = message_fields_ok m"
  by (simp add: message_fields_ok_def)

definition service_ok :: "('n, 'w) service_env \<Rightarrow> ('n, 'w) service \<Rightarrow> bool" where
  "service_ok env s \<longleftrightarrow>
     all_records lifecycle_ok (env_nvs env) (st_nvs (sv_store s)) \<and> \<not> sv_overrun s \<and>
     length (sv_queue s) \<le> SMS_SERVICE_QUEUE_DEPTH"

lemma service_ok_frame [simp]:
  "service_ok env (s\<lparr>sv_diagnostics := d\<rparr>) = service_ok env s"
  "service_ok env (s\<lparr>sv_world := w\<rparr>) = service_ok env s"
  "service_ok env (s\<lparr>sv_trace := t\<rparr>) = service_ok env s"
  "service_ok env (s\<lparr>sv_direct_pending := p\<rparr>) = service_ok env s"
  "service_ok env (s\<lparr>sv_last_setup := l\<rparr>) = service_ok env s"
  "service_ok env (s\<lparr>sv_last_poll := l\<rparr>) = service_ok env s"
  "service_ok env (s\<lparr>sv_initialized := b\<rparr>) = service_ok env s"
  "service_ok env (s\<lparr>sv_event_cb := b\<rparr>) = service_ok env s"
  by (simp_all add: service_ok_def)

subsection \<open>Changes of a record\<close>

lemma zero_lengths [simp]:
  "length (msg_modem_reference zero_message) = SMS_MAX_SEGMENTS"
  "length (msg_delivery_status zero_message) = SMS_MAX_SEGMENTS"
  by (simp_all add: zero_message_def)

lemma lifecycle_new:
  "lifecycle_ok (deliver_record d)" "lifecycle_ok (unsupported_record pdu d)"
  "lifecycle_ok (outbound_message to body report enc ref parts)"
  by (simp_all add: lifecycle_ok_def deliver_record_def unsupported_record_def outbound_message_def)

lemma mask_or: "(a :: u16) AND all = all \<Longrightarrow> (a OR b) AND all = all"
proof -
  assume h: "a AND all = all"
  have "bit all n \<Longrightarrow> bit a n" for n using arg_cong [OF h, of "\<lambda>w. bit w n"] by (simp add: bit_and_iff)
  then show ?thesis by (intro bit_word_eqI) (auto simp: bit_and_iff bit_or_iff)
qed

lemma lifecycle_report:
  assumes "lifecycle_ok m" and "msg_direction m = SMS_DIRECTION_OUTBOUND"
  shows "lifecycle_ok (apply_report report i m)"
  using assms by (cases "msg_status m") (auto simp: lifecycle_ok_def apply_report_def Let_def mask_or)

lemma part_numbers_range:
  assumes "p \<in> set (part_numbers n)" and "unat n \<le> SMS_MAX_SEGMENTS"
  shows "unat (p - 1) < SMS_MAX_SEGMENTS"
proof -
  from assms obtain k where k: "p = word_of_nat k" "1 \<le> k" "k \<le> 16"
    by (auto simp: part_numbers_def SMS_MAX_SEGMENTS_def)
  then obtain j where "k = Suc j" by (cases k) auto
  then show ?thesis using k by (simp add: unat_of_nat SMS_MAX_SEGMENTS_def)
qed

section \<open>Every operation keeps the records in order\<close>

locale sms_environment =
  fixes env :: "('n, 'w) service_env"
  assumes partition: "nvs_partition (env_nvs env)"

sublocale sms_environment \<subseteq> message_partition "env_nvs env"
  by (simp add: message_partition_def partition)

context sms_environment
begin

abbreviation ok :: "('n, 'w) service \<Rightarrow> bool" where
  "ok \<equiv> service_ok env"

lemma safe_bind_any: "safe P m (\<lambda>_. True) \<Longrightarrow> (\<And>a. safe P (f a) R) \<Longrightarrow> safe P (m \<bind> f) R"
  by (rule safe_bind)

lemma safe_save:
  assumes "message_fields_ok m \<Longrightarrow> lifecycle_ok m"
    and "\<And>e i. (e = ESP_OK \<longrightarrow> message_fields_ok m) \<Longrightarrow> (msg_id m \<noteq> 0 \<longrightarrow> i = msg_id m) \<Longrightarrow> R (e, m\<lparr>msg_id := i\<rparr>)"
  shows "safe ok (store_save env m) R"
  unfolding safe_def
proof (intro allI impI)
  fix s assume s: "ok s"
  obtain e m' st' where c: "sms_store_save (env_nvs env) m (sv_store s) = (e, m', st')" by (metis surj_pair)
  note r = save_result [OF c]
  from r obtain i where i: "m' = m\<lparr>msg_id := i\<rparr>" by blast
  then have "msg_id m \<noteq> 0 \<longrightarrow> i = msg_id m" using r(3) by (metis sms_message.select_convs(1) sms_message.surjective sms_message.update_convs(1))
  then have "R (e, m')" using assms(2) r(2) i by simp
  moreover have "all_records lifecycle_ok (env_nvs env) (st_nvs st')"
    using records_saved [OF _ c] s assms(1) by (simp add: service_ok_def)
  ultimately show "ok (snd (run_state (store_save env m) s)) \<and> R (fst (run_state (store_save env m) s))"
    using s c by (simp add: store_save_def service_ok_def)
qed

lemma safe_bind_save:
  assumes "message_fields_ok m \<Longrightarrow> lifecycle_ok m"
    and "\<And>e i. (e = ESP_OK \<longrightarrow> message_fields_ok m) \<Longrightarrow> (msg_id m \<noteq> 0 \<longrightarrow> i = msg_id m) \<Longrightarrow>
      safe ok (f (e, m\<lparr>msg_id := i\<rparr>)) R"
  shows "safe ok (store_save env m \<bind> f) R"
  by (rule safe_bind [OF safe_save [where R = "\<lambda>x. safe ok (f x) R"]]) (use assms in auto)

lemma safe_delete: "safe ok (store_delete env i) (\<lambda>_. True)"
  unfolding safe_def
proof (intro allI impI)
  fix s assume "ok s"
  moreover obtain e st' where c: "sms_store_delete (env_nvs env) i (sv_store s) = (e, st')" by fastforce
  ultimately show "ok (snd (run_state (store_delete env i) s)) \<and> True"
    using records_deleted [OF _ c] by (simp add: store_delete_def service_ok_def)
qed

lemma safe_count: "R () \<Longrightarrow> safe ok (count f) R"
  by (rule safe_upd) simp_all

lemma safe_world: "(\<And>a. R a) \<Longrightarrow> safe ok (on_world f) R"
  by (auto simp: safe_def on_world_def split: prod.splits)

lemma safe_emit: "R () \<Longrightarrow> safe ok (emit_event e m) R"
  unfolding emit_event_def by (rule safe_upd) simp_all

lemma safe_error: "R () \<Longrightarrow> safe ok (diag_set_error e c) R"
  unfolding diag_set_error_def by (rule safe_count)

lemma safe_ready: "(\<And>b. R b) \<Longrightarrow> safe ok (modem_ready env) R"
  unfolding modem_ready_def by (rule safe_look)

lemma safe_inside: "b \<Longrightarrow> R () \<Longrightarrow> safe ok (bounds_check b) R"
  unfolding bounds_check_def by (rule safe_upd) (simp_all add: service_ok_def)

lemma safe_execute: "safe ok (execute env req r) (\<lambda>_. True)"
  unfolding execute_def
  by (rule safe_bind_any [OF safe_ready] safe_if safe_ret)+ (auto simp: safe_def split: prod.splits)

lemmas basic = safe_ret safe_if safe_prod safe_option safe_let safe_count safe_emit safe_error safe_world
  safe_ready safe_inside TrueI

lemma safe_execute_simple: "safe ok (execute_simple env c ps t) (\<lambda>_. True)"
  unfolding execute_simple_def by (rule safe_bind_any [OF safe_execute] safe_bind_any basic)+

lemma safe_delete_modem: "safe ok (delete_modem_index env i) (\<lambda>_. True)"
  unfolding delete_modem_index_def by (rule safe_bind_any [OF safe_execute_simple] basic)+

lemma ok_load: "ok s \<Longrightarrow> load_slot (env_nvs env) (st_nvs (sv_store s)) k = Inr (Some m) \<Longrightarrow>
  lifecycle_ok m \<and> message_fields_ok m \<and> msg_id m \<noteq> 0"
  by (auto simp: service_ok_def dest: all_recordsD load_slot_ok)

lemma safe_find_partial:
  assumes "\<And>e x. (e = ESP_OK \<Longrightarrow> \<exists>m. x = Some m \<and> partial_matches sender r t p m \<and> lifecycle_ok m \<and> message_fields_ok m \<and> msg_id m \<noteq> 0) \<Longrightarrow>
     safe ok (f (e, x)) R"
  shows "safe ok (store_query (sms_store_find_partial (env_nvs env) (Some sender) r t p) \<bind> f) R"
proof (rule safe_bind [OF safe_look])
  fix s assume "ok s"
  then show "case sms_store_find_partial (env_nvs env) (Some sender) r t p (sv_store s) of (e, x) \<Rightarrow>
     e = ESP_OK \<longrightarrow> (\<exists>m. x = Some m \<and> partial_matches sender r t p m \<and> lifecycle_ok m \<and> message_fields_ok m \<and> msg_id m \<noteq> 0)"
    using find_partial_ok ok_load by (fastforce split: prod.splits)
next
  fix a assume "case a of (e, x) \<Rightarrow>
     e = ESP_OK \<longrightarrow> (\<exists>m. x = Some m \<and> partial_matches sender r t p m \<and> lifecycle_ok m \<and> message_fields_ok m \<and> msg_id m \<noteq> 0)"
  then show "safe ok (f a) R" using assms by (cases a) auto
qed

lemma safe_query_any: "(\<And>x. safe ok (f x) R) \<Longrightarrow> safe ok (store_query q \<bind> f) R"
  by (rule safe_bind [OF safe_look]) auto

lemma partial_lifecycle:
  "partial_matches sender r t p m \<Longrightarrow> lifecycle_ok m \<Longrightarrow> message_fields_ok m \<Longrightarrow>
   msg_segment_count m = t \<and> unat t \<le> SMS_MAX_SEGMENTS"
  by (auto simp: partial_matches_def lifecycle_ok_def message_fields_ok_def Let_def)

lemma safe_assemble_loop:
  assumes "set ps \<subseteq> set (part_numbers (cc_total_parts (dl_concat d)))" and "Q0 a"
    and "\<And>a x ts. Q0 a \<Longrightarrow> Q0 (a\<lparr>msg_text := x, msg_service_center_timestamp := ts\<rparr>)"
    and "\<And>a x. Q0 a \<Longrightarrow> Q0 (a\<lparr>msg_text := x\<rparr>)"
  shows "safe ok (assemble_loop env d ps a ids) (\<lambda>(e, a', ids'). Q0 a')"
  using assms(1,2)
proof (induction ps arbitrary: a ids)
  case Nil
  then show ?case by (auto intro: safe_ret)
next
  case (Cons p ps)
  show ?case
    unfolding assemble_loop.simps
  proof (rule safe_find_partial, rule safe_prod, rule safe_if; (rule safe_let, rule safe_let)?)
    fix e x e' x'
    assume "(e, x) = (e', x')" "e' \<noteq> ESP_OK"
    then show "safe ok (ret (e', a, ids)) (\<lambda>(e, a', ids'). Q0 a')" using Cons.prems by (simp add: safe_ret)
  next
    fix e x e' x' partial len
    assume f: "e = ESP_OK \<Longrightarrow> \<exists>m. x = Some m \<and> partial_matches (dl_sender d) (cc_reference (dl_concat d)) (cc_total_parts (dl_concat d)) p m \<and>
          lifecycle_ok m \<and> message_fields_ok m \<and> msg_id m \<noteq> 0"
      and e: "(e, x) = (e', x')" "\<not> e' \<noteq> ESP_OK"
      and "partial = (case x' of None \<Rightarrow> zero_message | Some m \<Rightarrow> m)"
        "len = bounded_strlen (msg_text partial) SMS_MESSAGE_TEXT_MAX"
    have "unat (cc_total_parts (dl_concat d)) \<le> SMS_MAX_SEGMENTS" using f e partial_lifecycle by auto
    then have inside: "unat (p - 1) < SMS_MAX_SEGMENTS"
      using part_numbers_range Cons.prems(1) by auto
    have ps: "set ps \<subseteq> set (part_numbers (cc_total_parts (dl_concat d)))" using Cons.prems(1) by auto
    show "safe ok (if SMS_MESSAGE_TEXT_MAX \<le> len \<or> SMS_MESSAGE_TEXT_MAX \<le> length (msg_text a) + len
        then ret (ESP_ERR_INVALID_SIZE, a, ids)
        else bounds_check (unat (p - 1) < SMS_MAX_SEGMENTS) \<bind>
          (\<lambda>_. let assembled = a\<lparr>msg_text := msg_text a @ take len (msg_text partial)\<rparr> in
            assemble_loop env d ps (if p = 1 then assembled\<lparr>msg_service_center_timestamp :=
              copy_field SMS_TIMESTAMP_MAX (msg_service_center_timestamp partial)\<rparr> else assembled) (ids @ [msg_id partial])))
      (\<lambda>(e, a', ids'). Q0 a')"
      by (intro safe_if safe_ret safe_bind_any safe_inside inside TrueI safe_let)
        (use Cons.prems(2) assms(3,4) in \<open>auto intro!: Cons.IH [OF ps]\<close>)
  qed
qed

end

context sms_environment
begin

lemma safe_save_any: "(message_fields_ok m \<Longrightarrow> lifecycle_ok m) \<Longrightarrow> safe ok (store_save env m) (\<lambda>_. True)"
  by (rule safe_save) simp_all

lemma safe_delete_partials: "safe ok (delete_partials env ids) (\<lambda>_. True)"
  by (induction ids) (auto intro!: safe_ret safe_bind_any safe_delete)

lemma lifecycle_assembled_start: "lifecycle_ok (assembled_start d)"
  by (simp add: lifecycle_ok_def assembled_start_def)

lemmas steps = safe_ret safe_if safe_prod safe_option safe_let TrueI safe_count safe_emit safe_error
  safe_world safe_ready safe_look safe_execute safe_execute_simple safe_delete safe_delete_modem
  safe_save_any safe_upd

lemma safe_assemble: "safe ok (assemble_if_complete env d) (\<lambda>_. True)"
proof -
  let ?Q = "\<lambda>a. lifecycle_ok a \<and> msg_status a = SMS_MESSAGE_RECEIVED"
  have loop: "safe ok (assemble_loop env d (part_numbers (cc_total_parts (dl_concat d))) (assembled_start d) [])
      (\<lambda>(e, a, ids). ?Q a)"
  proof (rule safe_assemble_loop)
    show "?Q (assembled_start d)" using lifecycle_assembled_start [of d] by (simp add: assembled_start_def)
  qed (auto simp: lifecycle_ok_def)
  show ?thesis
    unfolding assemble_if_complete_def
    by (intro safe_bind [OF loop] safe_bind_any steps safe_delete_partials) auto
qed

lemma lifecycle_replaced_part:
  assumes "partial_matches sender r (cc_total_parts (dl_concat d)) p m" and "lifecycle_ok m"
    and "cc_present (dl_concat d)"
  shows "lifecycle_ok (m\<lparr>msg_encoding := e, msg_concat := dl_concat d, msg_text := x,
     msg_service_center_timestamp := ts\<rparr>)"
  using assms by (auto simp: lifecycle_ok_def partial_matches_def Let_def)

lemma safe_persist_part:
  assumes "cc_present (dl_concat d)"
  shows "safe ok (persist_part env d) (\<lambda>_. True)"
  unfolding persist_part_def
  by (intro safe_find_partial safe_bind_any steps)
    (use assms lifecycle_new(1) lifecycle_replaced_part in auto)

lemma safe_persist_deliver: "safe ok (persist_deliver env d) (\<lambda>_. True)"
  unfolding persist_deliver_def
  by (intro safe_bind_any steps safe_persist_part safe_assemble lifecycle_new)
    (simp_all add: lifecycle_new)

lemma safe_outcome:
  "(\<And>a. x = Ret a \<Longrightarrow> safe P (f a) R) \<Longrightarrow> (\<And>e. x = Err e \<Longrightarrow> safe P (g e) R) \<Longrightarrow>
   (x = Fault \<Longrightarrow> safe P h R) \<Longrightarrow> safe P (case x of Ret a \<Rightarrow> f a | Err e \<Rightarrow> g e | Fault \<Rightarrow> h) R"
  by (cases x) auto

lemma safe_find_outbound:
  assumes "\<And>e x i. (e = ESP_OK \<Longrightarrow> \<exists>m j. x = Some m \<and> i = Some j \<and> j < SMS_MAX_SEGMENTS \<and>
       msg_direction m = SMS_DIRECTION_OUTBOUND \<and> lifecycle_ok m) \<Longrightarrow> safe ok (f (e, x, i)) R"
  shows "safe ok (store_query (sms_store_find_outbound_reference (env_nvs env) (Some to) r) \<bind> f) R"
proof (rule safe_bind [OF safe_look])
  fix s assume s: "ok s"
  obtain e x i where c: "sms_store_find_outbound_reference (env_nvs env) (Some to) r (sv_store s) = (e, x, i)"
    by (metis surj_pair)
  have "\<exists>m j. x = Some m \<and> i = Some j \<and> j < SMS_MAX_SEGMENTS \<and>
       msg_direction m = SMS_DIRECTION_OUTBOUND \<and> lifecycle_ok m" if e: "e = ESP_OK"
  proof -
    from find_outbound_load [OF c e] obtain m j k where m: "x = Some m" "i = Some j" "first_sent_as to r m = Some j"
      "load_slot (env_nvs env) (st_nvs (sv_store s)) k = Inr (Some m)" by blast
    note l = ok_load [OF s m(4)]
    from m(3) have "msg_direction m = SMS_DIRECTION_OUTBOUND" "j < unat (msg_segment_count m)"
      by (auto simp: first_sent_as_def find_Some_iff split: if_splits)
    with m l show ?thesis by (auto simp: message_fields_ok_def)
  qed
  then show "case sms_store_find_outbound_reference (env_nvs env) (Some to) r (sv_store s) of (e, x, i) \<Rightarrow>
     e = ESP_OK \<longrightarrow> (\<exists>m j. x = Some m \<and> i = Some j \<and> j < SMS_MAX_SEGMENTS \<and>
       msg_direction m = SMS_DIRECTION_OUTBOUND \<and> lifecycle_ok m)" using c by simp
next
  fix a assume "case a of (e, x, i) \<Rightarrow> e = ESP_OK \<longrightarrow> (\<exists>m j. x = Some m \<and> i = Some j \<and> j < SMS_MAX_SEGMENTS \<and>
       msg_direction m = SMS_DIRECTION_OUTBOUND \<and> lifecycle_ok m)"
  then show "safe ok (f a) R" using assms by (cases a) auto
qed

lemma safe_status_report: "safe ok (process_status_report_pdu env pdu) (\<lambda>_. True)"
  unfolding process_status_report_pdu_def
  by (intro safe_find_outbound safe_outcome safe_inside safe_bind_any steps)
    (auto intro: lifecycle_report)

lemma safe_persist_unsupported: "safe ok (persist_unsupported_deliver env pdu d) (\<lambda>_. True)"
  unfolding persist_unsupported_deliver_def
  by (intro safe_bind_any steps lifecycle_new)

lemma safe_process_deliver: "safe ok (process_deliver_pdu env pdu i) (\<lambda>_. True)"
  unfolding process_deliver_pdu_def
  by (intro safe_outcome safe_bind_any steps safe_persist_deliver safe_persist_unsupported)
    (use deliver_decode_no_Fault [of pdu] in simp)

lemma safe_process_any: "safe ok (process_any_pdu env pdu i) (\<lambda>_. True)"
  unfolding process_any_pdu_def
  by (cases "pdu_type pdu") (auto intro!: safe_bind_any steps safe_process_deliver safe_status_report)

lemma safe_read_modem: "safe ok (read_modem_index env i) (\<lambda>_. True)"
  unfolding read_modem_index_def
  by (intro safe_bind_any steps safe_process_any)

lemma safe_scan_lines: "safe ok (scan_lines env ls pending n) (\<lambda>_. True)"
proof (induction ls arbitrary: pending n)
  case (Cons l ls)
  then show ?case unfolding scan_lines.simps by (intro safe_bind_any steps safe_process_any)
qed (simp add: safe_ret)

lemma safe_scan_batches: "safe ok (scan_batches env n) (\<lambda>_. True)"
proof (induction n)
  case (Suc n)
  then show ?case unfolding scan_batches.simps by (intro safe_bind_any steps safe_scan_lines)
qed (simp add: safe_ret)

lemma safe_scan: "safe ok (scan_stored_messages env) (\<lambda>_. True)"
  unfolding scan_stored_messages_def by (intro safe_bind_any steps safe_scan_batches)

lemma safe_setup: "safe ok (setup_command env c) (\<lambda>_. True)"
  unfolding setup_command_def by (intro safe_bind_any steps)

lemma safe_try: "safe ok (try_commands env cs) (\<lambda>_. True)"
proof (induction cs)
  case (Cons c cs)
  then show ?case unfolding try_commands.simps by (intro safe_bind_any steps safe_setup)
qed (simp add: safe_ret)

lemma safe_configure: "safe ok (configure_pdu_mode env) (\<lambda>_. True)"
  unfolding configure_pdu_mode_def by (intro safe_bind_any steps safe_setup safe_try safe_scan)

lemma safe_poll: "safe ok (poll_inbox_if_due env) (\<lambda>_. True)"
  unfolding poll_inbox_if_due_def by (intro safe_bind_any steps safe_scan) simp

lemma safe_retry_mode: "safe ok (retry_pdu_mode_if_needed env) (\<lambda>_. True)"
  unfolding retry_pdu_mode_if_needed_def by (intro safe_bind_any steps safe_configure) simp

end

text \<open>An outbound record of \<open>m0\<close>'s shape in the hands of the sender.\<close>

definition in_hand :: "sms_message \<Rightarrow> sms_message \<Rightarrow> bool" where
  "in_hand m0 m \<longleftrightarrow> lifecycle_ok m \<and> msg_direction m = SMS_DIRECTION_OUTBOUND \<and>
     msg_segment_count m = msg_segment_count m0"

context sms_environment
begin

lemma safe_send_segment:
  assumes "in_hand m0 m"
  shows "safe ok (send_segment env m seg i) (\<lambda>(e, m'). in_hand m0 m')"
  unfolding send_segment_def
  by (intro safe_bind_save safe_bind_any safe_inside steps)
    (use assms in \<open>auto simp: in_hand_def lifecycle_ok_def Let_def message_fields_ok_def\<close>)

lemma safe_send_segments:
  "in_hand m0 m \<Longrightarrow> safe ok (send_segments env segs is m) (\<lambda>x. \<forall>m'. x = Some m' \<longrightarrow> in_hand m0 m')"
proof (induction "is" arbitrary: m)
  case (Cons i "is")
  show ?case
    unfolding send_segments.simps
    by (intro safe_if safe_bind [OF safe_send_segment [OF Cons.prems]] safe_prod safe_ret)
      (use Cons in auto)
qed (simp add: safe_ret)

lemma safe_find_queued:
  assumes "\<And>e x. (e = ESP_OK \<Longrightarrow> \<exists>m. x = Some m \<and> in_hand m m) \<Longrightarrow> safe ok (f (e, x)) R"
  shows "safe ok (store_query (sms_store_find_status (env_nvs env) SMS_MESSAGE_QUEUED) \<bind> f) R"
proof (rule safe_bind [OF safe_look])
  fix s assume s: "ok s"
  obtain e x where c: "sms_store_find_status (env_nvs env) SMS_MESSAGE_QUEUED (sv_store s) = (e, x)" by fastforce
  have "\<exists>m. x = Some m \<and> in_hand m m" if e: "e = ESP_OK"
  proof -
    from find_status_load [OF c e] obtain m k where m: "x = Some m" "msg_status m = SMS_MESSAGE_QUEUED"
      "load_slot (env_nvs env) (st_nvs (sv_store s)) k = Inr (Some m)" by blast
    with ok_load [OF s m(3)] show ?thesis by (auto simp: in_hand_def lifecycle_ok_def Let_def)
  qed
  then show "case sms_store_find_status (env_nvs env) SMS_MESSAGE_QUEUED (sv_store s) of (e, x) \<Rightarrow>
     e = ESP_OK \<longrightarrow> (\<exists>m. x = Some m \<and> in_hand m m)" using c by simp
next
  fix a assume "case a of (e, x) \<Rightarrow> e = ESP_OK \<longrightarrow> (\<exists>m. x = Some m \<and> in_hand m m)"
  then show "safe ok (f a) R" using assms by (cases a) auto
qed

lemma safe_process_one: "safe ok (process_one_outbound env) (\<lambda>_. True)"
proof -
  have failed: "lifecycle_ok (m\<lparr>msg_status := SMS_MESSAGE_FAILED, msg_last_modem_error := x\<rparr>)" if "in_hand m0 m" for m0 m x
    using that by (simp add: in_hand_def lifecycle_ok_def Let_def)
  have sent: "lifecycle_ok (m\<lparr>msg_status := SMS_MESSAGE_SENT, msg_inflight_segment := 0\<rparr>)"
    if "in_hand m0 m" "msg_segment_sent_mask m AND all_segments k = all_segments k" "k = unat (msg_segment_count m0)" for m0 m k
    using that by (simp add: in_hand_def lifecycle_ok_def Let_def)
  have rest: "safe ok (send_segments env segs is m \<bind> (\<lambda>sent. case sent of None \<Rightarrow> ret ()
      | Some message \<Rightarrow> (let all = all_segments k in
          if msg_segment_sent_mask message AND all = all
          then store_save env (message\<lparr>msg_status := SMS_MESSAGE_SENT, msg_inflight_segment := 0\<rparr>) \<bind>
            (\<lambda>(err, message). if err = ESP_OK then emit_event SMS_SERVICE_EVENT_SENT message else ret ())
          else ret ()))) (\<lambda>_. True)"
    if "in_hand m m" "k = unat (msg_segment_count m)" for segs "is" m k
    by (intro safe_bind [OF safe_send_segments [OF that(1)]] safe_bind_any steps)
      (use sent that(2) in auto)
  show ?thesis
    unfolding process_one_outbound_def send_queued_def
    by (intro safe_find_queued rest safe_bind_any steps) (auto intro: failed)
qed

lemma safe_mark: "lifecycle_ok r \<Longrightarrow> safe ok (mark_uncertain env r) (\<lambda>_. True)"
  unfolding mark_uncertain_def
  by (intro safe_bind_any steps) (auto simp: lifecycle_ok_def Let_def)

lemma ok_mark_loop_env: "e = env \<Longrightarrow> ok s \<Longrightarrow> ok (mark_loop e after s)"
proof (induction e after s rule: mark_loop.induct)
  case (1 e after s)
  note IH = 1(1) and env = 1(2) and s = 1(3)
  show ?case
  proof (cases "\<exists>r rs. sms_store_list (env_nvs e) after 1 (sv_store s) = Inr (r # rs)")
    case True
    then obtain r rs where l: "sms_store_list (env_nvs env) after 1 (sv_store s) = Inr (r # rs)" using env by blast
    obtain k where "load_slot (env_nvs env) (st_nvs (sv_store s)) k = Inr (Some r)" using list_load [OF l, of r] by auto
    with ok_load [OF s] have "ok (snd (run_state (mark_uncertain env r) s))"
      using safe_mark [of r] s by (auto simp: safe_def)
    with IH [of "r # rs" r rs] l env show ?thesis by (simp add: mark_loop.simps [of env after s])
  next
    case False
    then show ?thesis using s by (auto simp: mark_loop.simps [of e after s] split: sum.splits list.splits)
  qed
qed

lemma safe_interrupted: "safe ok (mark_interrupted_sends_uncertain env) (\<lambda>_. True)"
  unfolding mark_interrupted_sends_uncertain_def
  by (intro safe_bind_any steps ok_mark_loop_env refl) assumption+

lemma safe_urc_line: "safe ok (handle_urc_line env l) (\<lambda>_. True)"
  unfolding handle_urc_line_def
  by (intro safe_bind_any steps safe_process_deliver safe_status_report safe_read_modem) simp_all

lemma safe_event: "safe ok (handle_event env e) (\<lambda>_. True)"
  unfolding handle_event_def
  by (cases e) (auto intro!: safe_bind_any steps safe_configure safe_urc_line)

lemma safe_start: "safe ok (service_start env) (\<lambda>_. True)"
  unfolding service_start_def by (intro safe_bind_any steps safe_interrupted) simp

lemma safe_pop:
  "safe ok (look sv_queue \<bind> (\<lambda>queue. (case queue of [] \<Rightarrow> ret ()
     | event # rest \<Rightarrow> upd (\<lambda>s. s\<lparr>sv_queue := rest\<rparr>) \<bind> (\<lambda>_. handle_event env event)) \<bind> g)) R"
  if "safe ok (g ()) R" for g R
proof -
  have "ok (snd (run_state (handle_event env e) (s\<lparr>sv_queue := rest\<rparr>)))" if "ok s" "sv_queue s = e # rest" for s e rest
  proof -
    have "ok (s\<lparr>sv_queue := rest\<rparr>)" using that by (simp add: service_ok_def)
    then show ?thesis using safe_event [of e] by (simp add: safe_def)
  qed
  then show ?thesis
    using that by (fastforce simp: safe_def split: list.splits prod.splits)
qed

lemma safe_turn: "safe ok (service_turn env) (\<lambda>_. True)"
  unfolding service_turn_def
  by (intro safe_pop safe_bind_any safe_retry_mode safe_process_one safe_poll)

lemma safe_queue_send: "R () \<Longrightarrow> safe ok (queue_send e) R"
  by (auto simp: safe_def queue_send_def service_ok_def)

lemma safe_queue_simple: "R () \<Longrightarrow> safe ok (queue_simple_event e) R"
  unfolding queue_simple_event_def by (intro safe_bind_any steps safe_queue_send)

lemma safe_urc: "safe ok (sms_service_handle_urc l) (\<lambda>_. True)"
  unfolding sms_service_handle_urc_def by (intro safe_bind_any steps safe_queue_send)

lemma safe_send: "safe ok (sms_service_send env to body report) (\<lambda>_. True)"
  unfolding sms_service_send_def
  by (intro safe_bind_any steps safe_queue_simple lifecycle_new)

lemma safe_api_delete: "safe ok (sms_service_delete env i) (\<lambda>_. True)"
  unfolding sms_service_delete_def by (intro safe_bind_any steps)

lemma safe_get:
  assumes "\<And>e x. (e = ESP_OK \<Longrightarrow> \<exists>m. x = Some m \<and> lifecycle_ok m) \<Longrightarrow> safe ok (f (e, x)) R"
  shows "safe ok (store_query (sms_store_get (env_nvs env) i) \<bind> f) R"
proof (rule safe_bind [OF safe_look])
  fix s assume s: "ok s"
  then show "case sms_store_get (env_nvs env) i (sv_store s) of (e, x) \<Rightarrow>
     e = ESP_OK \<longrightarrow> (\<exists>m. x = Some m \<and> lifecycle_ok m)"
    using store_get_load ok_load by (fastforce split: prod.splits)
next
  fix a assume "case a of (e, x) \<Rightarrow> e = ESP_OK \<longrightarrow> (\<exists>m. x = Some m \<and> lifecycle_ok m)"
  then show "safe ok (f a) R" using assms by (cases a) auto
qed

lemma safe_retry: "safe ok (sms_service_retry_uncertain env i) (\<lambda>_. True)"
  unfolding sms_service_retry_uncertain_def
  by (intro safe_get safe_bind_any steps safe_queue_simple) (auto simp: lifecycle_ok_def Let_def)

lemma safe_watermark: "safe ok (sms_service_set_event_replay_watermark p w) (\<lambda>_. True)"
  unfolding sms_service_set_event_replay_watermark_def
  by (rule safe_upd) (simp_all add: service_ok_def sms_store_set_replay_watermark_def)

end

section \<open>Runs of the service\<close>

text \<open>The turns of the service task and the calls of other tasks, in any order.\<close>

inductive service_run :: "('n, 'w) service_env \<Rightarrow> ('n, 'w) service \<Rightarrow> ('n, 'w) service \<Rightarrow> bool"
  for env :: "('n, 'w) service_env" and s :: "('n, 'w) service" where
  run_init: "service_run env s s"
| run_start: "service_run env s t \<Longrightarrow> run_state (service_start env) t = (x, t') \<Longrightarrow> service_run env s t'"
| run_turn: "service_run env s t \<Longrightarrow> run_state (service_turn env) t = (x, t') \<Longrightarrow> service_run env s t'"
| run_notify: "service_run env s t \<Longrightarrow> run_state (queue_simple_event e) t = (x, t') \<Longrightarrow> service_run env s t'"
| run_urc: "service_run env s t \<Longrightarrow> run_state (sms_service_handle_urc l) t = (x, t') \<Longrightarrow> service_run env s t'"
| run_send: "service_run env s t \<Longrightarrow> run_state (sms_service_send env to body report) t = (y, t') \<Longrightarrow> service_run env s t'"
| run_api_delete: "service_run env s t \<Longrightarrow> run_state (sms_service_delete env i) t = (z, t') \<Longrightarrow> service_run env s t'"
| run_retry: "service_run env s t \<Longrightarrow> run_state (sms_service_retry_uncertain env i) t = (z, t') \<Longrightarrow> service_run env s t'"
| run_mark: "service_run env s t \<Longrightarrow> run_state (sms_service_set_event_replay_watermark p w) t = (x, t') \<Longrightarrow> service_run env s t'"

context sms_environment
begin

lemma run_ok: "service_run env s t \<Longrightarrow> ok s \<Longrightarrow> ok t"
proof (induction rule: service_run.induct)
  case run_init
  then show ?case .
next
  case run_notify
  then show ?case using safeD [OF safe_queue_simple [where R = "\<lambda>_. True"]] by blast
qed (blast dest: safeD [OF safe_start] safeD [OF safe_turn] safeD [OF safe_urc] safeD [OF safe_send]
    safeD [OF safe_api_delete] safeD [OF safe_retry] safeD [OF safe_watermark])+

end

end
