(* ===== verification/Sms_Traces.thy ===== *)
theory Sms_Traces
  imports Sms_Lifecycle Sms_Store_Runs
begin

text \<open>
  The order of what the service does: rules for the messages stored, the commands handed to the
  modem and the events reported by a computation in the state monad, and an environment whose
  flash accepts every write and whose modem answers from a script, on which examples run.
\<close>

section \<open>What an operation does, in order\<close>

text \<open>
  \<open>traces m R\<close>: the actions that \<open>m\<close> adds to the trace, with its result, satisfy \<open>R\<close>.
\<close>

definition traces :: "('n, 'w, 'a) sms_m \<Rightarrow> ('a \<Rightarrow> service_action list \<Rightarrow> bool) \<Rightarrow> bool" where
  "traces m R \<longleftrightarrow>
     (\<forall>s. \<exists>acts. sv_trace (snd (run_state m s)) = sv_trace s @ acts \<and> R (fst (run_state m s)) acts)"

lemma tr_ret: "R a [] \<Longrightarrow> traces (ret a) R"
  by (simp add: traces_def)

lemma tr_bind:
  assumes "traces m Q" and "\<And>a acts. Q a acts \<Longrightarrow> traces (f a) (\<lambda>b acts'. R b (acts @ acts'))"
  shows "traces (m \<bind> f) R"
  unfolding traces_def
proof
  fix s
  obtain a s1 where m: "run_state m s = (a, s1)" by fastforce
  from assms(1) m obtain acts where a: "sv_trace s1 = sv_trace s @ acts" "Q a acts"
    unfolding traces_def by (metis fst_conv snd_conv)
  from assms(2) [OF a(2)] obtain acts' where
    "sv_trace (snd (run_state (f a) s1)) = sv_trace s1 @ acts'" "R (fst (run_state (f a) s1)) (acts @ acts')"
    unfolding traces_def by blast
  with a m show "\<exists>acts. sv_trace (snd (run_state (m \<bind> f) s)) = sv_trace s @ acts \<and>
      R (fst (run_state (m \<bind> f) s)) acts" by auto
qed

lemma tr_bind_wp: "traces m (\<lambda>a acts. traces (f a) (\<lambda>b acts'. R b (acts @ acts'))) \<Longrightarrow> traces (m \<bind> f) R"
  by (rule tr_bind)

lemma tr_weaken: "traces m Q \<Longrightarrow> (\<And>a acts. Q a acts \<Longrightarrow> R a acts) \<Longrightarrow> traces m R"
  unfolding traces_def by metis

lemma tr_silent: "(\<And>s. sv_trace (snd (run_state m s)) = sv_trace s) \<Longrightarrow> (\<And>a. R a []) \<Longrightarrow> traces m R"
  by (simp add: traces_def)

lemma tr_world: "(\<And>a. R a []) \<Longrightarrow> traces (on_world f) R"
  by (rule tr_silent) (auto simp: on_world_def split: prod.splits)

lemma tr_look: "(\<And>a. R a []) \<Longrightarrow> traces (look f) R"
  by (rule tr_silent) auto

lemma tr_count: "R () [] \<Longrightarrow> traces (count f) R"
  by (rule tr_silent) auto

lemma tr_error: "R () [] \<Longrightarrow> traces (diag_set_error e c) R"
  unfolding diag_set_error_def by (rule tr_count)

lemma tr_check: "R () [] \<Longrightarrow> traces (bounds_check b) R"
  by (rule tr_silent) (auto simp: bounds_check_def)

lemma tr_emit: "R () [] \<Longrightarrow> R () [Event e m] \<Longrightarrow> traces (emit_event e m) R"
  by (auto simp: traces_def emit_event_def)

lemma tr_save:
  fixes env :: "('n, 'w) service_env"
  assumes "\<And>e i. e \<noteq> ESP_OK \<Longrightarrow> (msg_id m \<noteq> 0 \<longrightarrow> i = msg_id m) \<Longrightarrow> R (e, m\<lparr>msg_id := i\<rparr>) []"
    and "\<And>i. message_fields_ok m \<Longrightarrow> (msg_id m \<noteq> 0 \<longrightarrow> i = msg_id m) \<Longrightarrow>
      R (ESP_OK, m\<lparr>msg_id := i\<rparr>) [Stored (m\<lparr>msg_id := i\<rparr>)]"
  shows "traces (store_save env m) R"
  unfolding traces_def
proof
  fix s :: "('n, 'w) service"
  obtain e m' st' where c: "sms_store_save (env_nvs env) m (sv_store s) = (e, m', st')" by (metis surj_pair)
  note r = save_result [OF c]
  from r(1) obtain i where i: "m' = m\<lparr>msg_id := i\<rparr>" by blast
  have k: "msg_id m \<noteq> 0 \<longrightarrow> i = msg_id m"
    using r(3) i by (metis sms_message.select_convs(1) sms_message.surjective sms_message.update_convs(1))
  show "\<exists>acts. sv_trace (snd (run_state (store_save env m) s)) = sv_trace s @ acts \<and>
      R (fst (run_state (store_save env m) s)) acts"
    using c i k r(2) assms by (cases "e = ESP_OK") (auto simp: store_save_def)
qed

lemma tr_execute:
  "R (ESP_ERR_INVALID_STATE, r) [] \<Longrightarrow> (\<And>e r'. R (e, r') [Command req]) \<Longrightarrow> traces (execute env req r) R"
  by (auto simp: traces_def execute_def modem_ready_def split: prod.splits) 

lemma tr_if: "(b \<Longrightarrow> traces m R) \<Longrightarrow> (\<not> b \<Longrightarrow> traces n R) \<Longrightarrow> traces (if b then m else n) R"
  by simp

lemma tr_prod: "(\<And>a b. x = (a, b) \<Longrightarrow> traces (f a b) R) \<Longrightarrow> traces (case x of (a, b) \<Rightarrow> f a b) R"
  by (cases x) simp

lemma tr_option:
  "(x = None \<Longrightarrow> traces m R) \<Longrightarrow> (\<And>a. x = Some a \<Longrightarrow> traces (f a) R) \<Longrightarrow>
   traces (case x of None \<Rightarrow> m | Some a \<Rightarrow> f a) R"
  by (cases x) auto

lemma tr_let: "(\<And>a. a = x \<Longrightarrow> traces (f a) R) \<Longrightarrow> traces (let a = x in f a) R"
  by simp

text \<open>
  The commands in a trace.
\<close>

definition commands :: "service_action list \<Rightarrow> at_request list" where
  "commands acts = concat (map (\<lambda>a. case a of Command r \<Rightarrow> [r] | _ \<Rightarrow> []) acts)"

lemma commands_simps [simp]:
  "commands [] = []" "commands (Command r # acts) = r # commands acts"
  "commands (Stored m # acts) = commands acts" "commands (Event e m # acts) = commands acts"
  "commands (xs @ ys) = commands xs @ commands ys"
  by (simp_all add: commands_def)

lemmas tr_rules = tr_if tr_prod tr_option tr_let tr_ret tr_bind_wp tr_save tr_execute tr_world tr_look tr_count
  tr_error tr_check tr_emit

section \<open>A scripted environment\<close>

text \<open>A store with one record in slot 0, and a modem that answers from a script.\<close>

definition one_store :: "sms_message \<Rightarrow> persisted_record flash sms_store" where
  "one_store m = empty_store\<lparr>st_nvs := \<lparr>fl_blobs = [(slot_key 0, sizeof_record, record_encode m)],
      fl_u32s = [(''next_id'', msg_id m + 1)], fl_script = []\<rparr>\<rparr>"

lemma one_load:
  assumes "message_fields_ok m" and "msg_id m \<noteq> 0"
  shows "load_slot flash_ops (st_nvs (one_store m)) s = Inr (if s = 0 then Some m else None)"
proof (cases "s = 0")
  case True
  have "nvs_get_blob flash_ops (st_nvs (one_store m)) (slot_key 0) = Inr (sizeof_record, record_encode m)"
    by (simp add: one_store_def flash_ops_def found_def)
  from load_slot_encoded [OF this] assms True show ?thesis by simp
next
  case False
  then have "nvs_get_blob flash_ops (st_nvs (one_store m)) (slot_key s) = Inl ESP_ERR_NVS_NOT_FOUND"
    by (simp add: one_store_def flash_ops_def found_def)
  from load_slot_missing [OF this] False show ?thesis by simp
qed

lemma one_save:
  assumes "message_fields_ok m" "msg_id m \<noteq> 0" "message_fields_ok m'" "msg_id m' = msg_id m"
  shows "sms_store_save flash_ops m' (one_store m) = (ESP_OK, m', one_store m')"
proof -
  have "find_id_slot flash_ops (st_nvs (one_store m)) (msg_id m) = Inr 0"
    using one_load [OF assms(1,2)] by (simp add: find_id_slot_def store_slots_Cons)
  then show ?thesis
    using assms by (simp add: sms_store_save_def flash_write_slot one_store_def empty_store_def without_def)
qed

lemma empty_save:
  assumes "msg_id m = 0" and "message_fields_ok m"
  shows "sms_store_save flash_ops m empty_store = (ESP_OK, m\<lparr>msg_id := 1\<rparr>, one_store (m\<lparr>msg_id := 1\<rparr>))"
proof -
  have "allocate_id flash_ops (st_nvs empty_store) =
      (ESP_OK, Some 1, \<lparr>fl_blobs = [], fl_u32s = [(''next_id'', 2)], fl_script = []\<rparr>)"
    by (simp add: allocate_id_def flash_ops_def found_def scripted_def without_def empty_store_def)
  then show ?thesis
    using assms by (simp add: sms_store_save_def choose_new_slot_def empty_find flash_write_slot without_def
        one_store_def Let_def)
qed

lemma one_scan:
  assumes "message_fields_ok m" "msg_id m \<noteq> 0"
  shows "scan_all (load_slot flash_ops (st_nvs (one_store m))) (on_record f) store_slots acc = Inr (f 0 m acc)"
proof -
  have "scan_all (load_slot flash_ops (st_nvs (one_store m))) (on_record f) ss acc = Inr acc" if "0 \<notin> set ss" for ss acc
    using that by (induction ss) (simp_all add: one_load [OF assms] on_record_def)
  then show ?thesis by (simp add: store_slots_Cons one_load [OF assms] on_record_def)
qed


type_synonym modem_script = "(esp_err \<times> at_response) list"

definition demo_env :: "(persisted_record flash, modem_script) service_env" where
  "demo_env = \<lparr>env_nvs = flash_ops,
     env_execute = \<lambda>request response w. case w of [] \<Rightarrow> (ESP_ERR_TIMEOUT, response, [])
       | (e, r) # rest \<Rightarrow> (e, r, rest),
     env_is_ready = \<lambda>_. True, env_calloc = \<lambda>w. (True, w), env_random = \<lambda>w. (7, w), env_ticks = \<lambda>w. (0, w),
     env_ms_to_ticks = \<lambda>ms. ms\<rparr>"

definition demo_service ::
    "persisted_record flash sms_store \<Rightarrow> modem_script \<Rightarrow> (persisted_record flash, modem_script) service" where
  "demo_service st w = \<lparr>sv_initialized = True, sv_event_cb = True, sv_store = st, sv_world = w, sv_queue = [],
     sv_direct_pending = DIRECT_URC_NONE, sv_diagnostics = zero_diagnostics\<lparr>dg_pdu_mode_configured := True\<rparr>,
     sv_last_setup = 0, sv_last_poll = 0, sv_trace = [], sv_overrun = False\<rparr>"


lemma one_status:
  assumes "msg_status m = status" and "message_fields_ok m" and "msg_id m \<noteq> 0" and "msg_id m < UINT32_MAX"
  shows "sms_store_find_status flash_ops status (one_store m) = (ESP_OK, Some m)"
proof -
  have "st_initialized (one_store m)" by (simp add: one_store_def)
  then show ?thesis
    using assms by (simp add: sms_store_find_status_def one_scan oldest_step_def load_into_def one_load)
qed

lemma demo_env_simps [simp]:
  "env_nvs demo_env = flash_ops" "env_is_ready demo_env w = True" "env_calloc demo_env w = (True, w)"
  "env_random demo_env w = (7, w)" "env_ticks demo_env w = (0, w)"
  "env_execute demo_env request response ((e, r) # rest) = (e, r, rest)"
  by (simp_all add: demo_env_def)

lemma demo_save:
  assumes "sv_store s = one_store m" and "message_fields_ok m" "msg_id m \<noteq> 0" "message_fields_ok m'" "msg_id m' = msg_id m"
  shows "run_state (store_save demo_env m') s =
    ((ESP_OK, m'), s\<lparr>sv_store := one_store m', sv_trace := sv_trace s @ [Stored m']\<rparr>)"
  using one_save [OF assms(2-5)] assms(1) by (simp add: store_save_def)

interpretation demo: sms_environment demo_env
  by (rule sms_environment.intro) (simp add: flash.nvs_partition_axioms)

end
