(* ===== verification/Sms_Delivery.thy ===== *)
theory Sms_Delivery
  imports Sms_Traces Pdu_Submit
begin

text \<open>
  Outbound messages: every segment is handed to the modem at most once, in order, and only after
  a record says that it is in flight.
\<close>

section \<open>Outbound segments\<close>

text \<open>
  The rule of writing ahead: when a segment is handed to the modem, the last record stored is its
  message, marked as sending with just that segment in flight.
\<close>

definition announces :: "u32 \<Rightarrow> sms_submit_segment list \<Rightarrow> sms_message option \<Rightarrow> at_request \<Rightarrow> bool" where
  "announces i segs saved r =
     (case saved of
        None \<Rightarrow> False
      | Some m \<Rightarrow> msg_id m = i \<and> msg_status m = SMS_MESSAGE_SENDING \<and> msg_inflight_segment m \<noteq> 0 \<and>
          r = cmgs_request (segs ! (unat (msg_inflight_segment m) - 1)))"

fun written_ahead ::
    "u32 \<Rightarrow> sms_submit_segment list \<Rightarrow> sms_message option \<Rightarrow> service_action list \<Rightarrow> bool" where
  "written_ahead i segs saved [] = True"
| "written_ahead i segs saved (Stored m # acts) = written_ahead i segs (Some m) acts"
| "written_ahead i segs saved (Event e m # acts) = written_ahead i segs saved acts"
| "written_ahead i segs saved (Command r # acts) = (announces i segs saved r \<and> written_ahead i segs saved acts)"

lemma written_ahead_append:
  assumes "written_ahead i segs saved xs" and "\<And>saved. written_ahead i segs saved ys"
  shows "written_ahead i segs saved (xs @ ys)"
  using assms by (induction i segs saved xs rule: written_ahead.induct) auto

lemma inflight_number:
  assumes "k < unat (c :: u8)"
  shows "unat (word_of_nat (k + 1) :: u8) = k + 1"
proof -
  have "k + 1 < 2 ^ 8" using assms unsigned_less [of c, where 'a = nat] by simp
  then show ?thesis by (simp only: unsigned_of_nat take_bit_nat_eq_self len_num1 len_bit0 mult_2)
    (simp add: take_bit_nat_eq_self)
qed

lemma inflight_nonzero: "k < unat (c :: u8) \<Longrightarrow> (word_of_nat (k + 1) :: u8) \<noteq> 0"
  using inflight_number by (metis add_is_0 one_neq_zero unat_0)

text \<open>What \<open>send_segment\<close> leaves in the trace, for segment \<open>k\<close> of the message \<open>m\<close>.\<close>

definition segment_trace ::
    "sms_submit_segment list \<Rightarrow> sms_message \<Rightarrow> nat \<Rightarrow> esp_err \<Rightarrow> sms_message \<Rightarrow> service_action list \<Rightarrow> bool" where
  "segment_trace segs m k e m' acts \<longleftrightarrow>
     (\<forall>saved. written_ahead (msg_id m) segs saved acts) \<and>
     (commands acts = [] \<or> commands acts = [cmgs_request (segs ! k)]) \<and>
     (\<forall>m''. Event SMS_SERVICE_EVENT_SENT m'' \<notin> set acts) \<and> msg_id m' = msg_id m \<and>
     (e = ESP_OK \<longrightarrow> commands acts = [cmgs_request (segs ! k)] \<and>
        msg_segment_sent_mask m' = msg_segment_sent_mask m OR segment_bit k)"

lemma tr_send_segment:
  assumes "msg_id m \<noteq> 0"
  shows "traces (send_segment env m (segs ! k) k) (\<lambda>(e, m'). segment_trace segs m k e m')"
proof -
  have "(word_of_nat (k + 1) :: u8) \<noteq> 0" "unat (word_of_nat (k + 1) :: u8) = k + 1"
    if "k < unat (msg_segment_count m)"
    using inflight_number inflight_nonzero that by auto
  then show ?thesis
    unfolding send_segment_def
    by (intro tr_rules) (auto simp: segment_trace_def announces_def assms)
qed

definition unsent :: "sms_message \<Rightarrow> nat list \<Rightarrow> nat list" where
  "unsent m is = filter (\<lambda>i. \<not> bit (msg_segment_sent_mask m) i) is"

lemma unsent_mask:
  "k \<notin> set is \<Longrightarrow> msg_segment_sent_mask m' = msg_segment_sent_mask m OR segment_bit k \<Longrightarrow> unsent m' is = unsent m is"
  by (auto simp: unsent_def segment_bit_def bit_simps intro!: filter_cong)

abbreviation requests :: "sms_submit_segment list \<Rightarrow> nat list \<Rightarrow> at_request list" where
  "requests segs is \<equiv> map (\<lambda>i. cmgs_request (segs ! i)) is"

definition segments_trace ::
    "sms_submit_segment list \<Rightarrow> sms_message \<Rightarrow> nat list \<Rightarrow> sms_message option \<Rightarrow> service_action list \<Rightarrow> bool" where
  "segments_trace segs m is x acts \<longleftrightarrow>
     (\<forall>saved. written_ahead (msg_id m) segs saved acts) \<and>
     (\<exists>n. commands acts = requests segs (take n (unsent m is))) \<and>
     (\<forall>m''. Event SMS_SERVICE_EVENT_SENT m'' \<notin> set acts) \<and>
     (\<forall>m'. x = Some m' \<longrightarrow> commands acts = requests segs (unsent m is) \<and> msg_id m' = msg_id m)"

lemma segments_trace_stop:
  assumes "segment_trace segs m k e m' acts" and "\<not> bit (msg_segment_sent_mask m) k"
  shows "segments_trace segs m (k # is) None acts"
proof -
  have "requests segs (take 0 (unsent m (k # is))) = []"
    "requests segs (take 1 (unsent m (k # is))) = [cmgs_request (segs ! k)]"
    using assms(2) by (simp_all add: unsent_def)
  then have "\<exists>n. commands acts = requests segs (take n (unsent m (k # is)))"
    using assms(1) by (metis segment_trace_def)
  then show ?thesis using assms(1) by (simp add: segments_trace_def segment_trace_def)
qed

lemma segments_trace_step:
  assumes "segment_trace segs m k ESP_OK m' acts" and "\<not> bit (msg_segment_sent_mask m) k"
    and "k \<notin> set is" and "segments_trace segs m' is x acts'"
  shows "segments_trace segs m (k # is) x (acts @ acts')"
proof -
  have m': "msg_segment_sent_mask m' = msg_segment_sent_mask m OR segment_bit k" "msg_id m' = msg_id m"
    "commands acts = [cmgs_request (segs ! k)]"
    using assms(1) by (auto simp: segment_trace_def)
  have u: "unsent m (k # is) = k # unsent m' is"
    using assms(2) unsent_mask [OF assms(3) m'(1)] by (simp add: unsent_def)
  obtain n where "commands acts' = requests segs (take n (unsent m' is))"
    using assms(4) by (auto simp: segments_trace_def)
  then have "commands (acts @ acts') = requests segs (take (Suc n) (unsent m (k # is)))" using m' u by simp
  moreover have "written_ahead (msg_id m) segs saved (acts @ acts')" for saved
    using assms(1,4) m'(2) by (intro written_ahead_append) (auto simp: segments_trace_def segment_trace_def)
  moreover have "Event SMS_SERVICE_EVENT_SENT m'' \<notin> set (acts @ acts')" for m''
    using assms(1,4) by (simp add: segments_trace_def segment_trace_def)
  moreover have "commands (acts @ acts') = requests segs (unsent m (k # is)) \<and> msg_id y = msg_id m" if "x = Some y" for y
    using assms(4) that m' u by (simp add: segments_trace_def)
  ultimately show ?thesis unfolding segments_trace_def by blast
qed

lemma tr_send_segments:
  "msg_id m \<noteq> 0 \<Longrightarrow> distinct is \<Longrightarrow> traces (send_segments env segs is m) (segments_trace segs m is)"
proof (induction "is" arbitrary: m)
  case Nil
  then show ?case by (auto simp: segments_trace_def unsent_def intro!: tr_ret)
next
  case (Cons k "is")
  show ?case
  proof (cases "bit (msg_segment_sent_mask m) k")
    case True
    then have "segments_trace segs m (k # is) = segments_trace segs m is"
      by (intro ext) (simp add: segments_trace_def unsent_def)
    with True Cons show ?thesis by simp
  next
    case False
    have "traces (if e \<noteq> ESP_OK then ret None else send_segments env segs is m')
        (\<lambda>x acts'. segments_trace segs m (k # is) x (acts @ acts'))"
      if t: "segment_trace segs m k e m' acts" for e m' acts
    proof (intro tr_if tr_ret)
      assume "e \<noteq> ESP_OK"
      then show "segments_trace segs m (k # is) None (acts @ [])" using segments_trace_stop [OF t False] by simp
    next
      assume "\<not> e \<noteq> ESP_OK"
      with t have e: "segment_trace segs m k ESP_OK m' acts" "msg_id m' = msg_id m" by (auto simp: segment_trace_def)
      have "traces (send_segments env segs is m') (segments_trace segs m' is)" using Cons e(2) by simp
      then show "traces (send_segments env segs is m') (\<lambda>x acts'. segments_trace segs m (k # is) x (acts @ acts'))"
        using segments_trace_step [OF e(1) False] Cons.prems(2) by (auto elim!: tr_weaken)
    qed
    then show ?thesis
      using False by (simp only: send_segments.simps if_False) (intro tr_bind [OF tr_send_segment [OF Cons.prems(1)]] tr_prod; simp)
  qed
qed

text \<open>The segments of a queued message, as \<open>process_one_outbound\<close> encodes them.\<close>

definition segments_of :: "sms_message \<Rightarrow> sms_submit_segment list" where
  "segments_of m = (case sms_submit_encode (msg_recipient m) (msg_text m) (msg_delivery_report_requested m)
      (msg_concat_reference m) (replicate (segment_capacity m) zero_segment) of Some (segs, n) \<Rightarrow> segs | None \<Rightarrow> [])"

definition message_trace :: "sms_message \<Rightarrow> service_action list \<Rightarrow> bool" where
  "message_trace m acts \<longleftrightarrow>
     (let segs = segments_of m; todo = unsent m [0..<unat (msg_segment_count m)] in
      written_ahead (msg_id m) segs None acts \<and>
      (\<exists>n. commands acts = requests segs (take n todo)) \<and>
      (\<forall>m'. Event SMS_SERVICE_EVENT_SENT m' \<in> set acts \<longrightarrow>
         commands acts = requests segs todo \<and> msg_id m' = msg_id m \<and> Stored m' \<in> set acts))"

lemma message_trace_quiet:
  "commands acts = [] \<Longrightarrow> (\<And>saved. written_ahead (msg_id m) (segments_of m) saved acts) \<Longrightarrow>
   (\<And>m'. Event SMS_SERVICE_EVENT_SENT m' \<notin> set acts) \<Longrightarrow> message_trace m acts"
  by (auto simp: message_trace_def Let_def intro: exI [of _ 0])

lemma message_trace_segments:
  assumes "segments_trace (segments_of m) m [0..<unat (msg_segment_count m)] x acts"
  shows "message_trace m acts"
  using assms by (auto simp: message_trace_def segments_trace_def Let_def)

lemma message_trace_sent:
  assumes "segments_trace (segments_of m) m [0..<unat (msg_segment_count m)] (Some m') acts"
    and "acts' = [] \<or> acts' = [Stored m''] \<or> acts' = [Stored m'', Event SMS_SERVICE_EVENT_SENT m'']"
    and "msg_id m'' = msg_id m"
  shows "message_trace m (acts @ acts')"
proof -
  have "written_ahead (msg_id m) (segments_of m) None (acts @ acts')"
    using assms by (intro written_ahead_append) (auto simp: segments_trace_def)
  moreover have c: "commands (acts @ acts') = requests (segments_of m) (unsent m [0..<unat (msg_segment_count m)])"
    using assms by (auto simp: segments_trace_def)
  moreover from this have "\<exists>n. commands (acts @ acts') = requests (segments_of m) (take n (unsent m [0..<unat (msg_segment_count m)]))"
    by (metis take_all order_refl)
  moreover have "y = m''" "Stored y \<in> set (acts @ acts')" if "Event SMS_SERVICE_EVENT_SENT y \<in> set (acts @ acts')" for y
    using that assms(1,2) by (auto simp: segments_trace_def)
  ultimately show ?thesis
    using assms(3) unfolding message_trace_def Let_def by blast
qed

lemma tr_mark_sent:
  fixes env :: "('n, 'w) service_env"
  assumes "segments_trace (segments_of m) m [0..<unat (msg_segment_count m)] x acts" and "msg_id m \<noteq> 0"
  shows "traces (case x of None \<Rightarrow> ret ()
      | Some message \<Rightarrow> (let all = all_segments k in
          if msg_segment_sent_mask message AND all = all
          then store_save env (message\<lparr>msg_status := SMS_MESSAGE_SENT, msg_inflight_segment := 0\<rparr>) \<bind>
            (\<lambda>(err, message). if err = ESP_OK then emit_event SMS_SERVICE_EVENT_SENT message else ret ())
          else ret ())) (\<lambda>_ acts'. message_trace m (acts @ acts'))"
proof (cases x)
  case None
  then show ?thesis using message_trace_segments [OF assms(1)] by (simp add: tr_ret)
next
  case (Some m')
  note sent = message_trace_sent [OF assms(1) [unfolded Some]]
  have i: "msg_id m' = msg_id m" using assms(1) Some by (simp add: segments_trace_def)
  have "message_trace m (acts @ acts')"
    if "acts' = [] \<or> acts' = [Stored y] \<or> acts' = [Stored y, Event SMS_SERVICE_EVENT_SENT y]" "msg_id y = msg_id m" for acts' y
    using sent that by blast
  note cases = this [of "[]" m] this [of "[Stored y]" y for y] this [of "[Stored y, Event SMS_SERVICE_EVENT_SENT y]" y for y]
  show ?thesis
    unfolding Some option.case
    by (intro tr_let tr_if tr_bind_wp tr_save tr_prod tr_emit tr_ret) (use i assms(2) cases in auto)
qed

lemma tr_send_queued:
  fixes env :: "('n, 'w) service_env"
  assumes "msg_id m \<noteq> 0"
  shows "traces (send_queued env m) (\<lambda>_. message_trace m)"
proof -
  have quiet: "message_trace m []" "message_trace m [Event SMS_SERVICE_EVENT_FAILED y]" "message_trace m [Stored y]"
    "message_trace m [Stored y, Event SMS_SERVICE_EVENT_FAILED y]" for y
    by (auto intro: message_trace_quiet)
  have segs: "segs = segments_of m"
    if "sms_submit_encode (msg_recipient m) (msg_text m) (msg_delivery_report_requested m)
      (msg_concat_reference m) (replicate (segment_capacity m) zero_segment) = Some (segs, n)" for segs n
    unfolding segments_of_def that by simp
  note segments = tr_weaken [OF tr_send_segments [OF assms] tr_mark_sent [OF _ assms]]
  show ?thesis
    unfolding send_queued_def
    by (intro tr_if tr_prod tr_option tr_let tr_ret tr_bind_wp tr_save tr_world tr_error tr_emit)
      (use quiet in \<open>auto dest: segs intro: segments\<close>)
qed

lemma process_one_trace:
  assumes "nvs_partition (env_nvs env)" and "run_state (process_one_outbound env) s = (x, t)"
  shows "sv_trace t = sv_trace s \<or>
    (\<exists>m acts. sms_store_find_status (env_nvs env) SMS_MESSAGE_QUEUED (sv_store s) = (ESP_OK, Some m) \<and>
       sv_trace t = sv_trace s @ acts \<and> message_trace m acts)"
proof -
  obtain ok w where w: "env_calloc env (sv_world s) = (ok, w)" by fastforce
  obtain e out where f: "sms_store_find_status (env_nvs env) SMS_MESSAGE_QUEUED (sv_store s) = (e, out)" by fastforce
  show ?thesis
  proof (cases "env_is_ready env (sv_world s) \<and> dg_pdu_mode_configured (sv_diagnostics s) \<and> ok \<and> e = ESP_OK")
    case True
    obtain m k where m: "out = Some m" "load_slot (env_nvs env) (st_nvs (sv_store s)) k = Inr (Some m)"
      using message_partition.find_status_load [OF message_partitionI [OF assms(1)] f] True by blast
    from True w f m(1) have r: "run_state (send_queued env m) (s\<lparr>sv_world := w\<rparr>) = (x, t)"
      using assms(2) by (simp add: process_one_outbound_def modem_ready_def look_def on_world_def)
    have "msg_id m \<noteq> 0" using load_slot_ok [OF m(2)] by simp
    from tr_send_queued [OF this, of env] obtain acts where
      "sv_trace (snd (run_state (send_queued env m) (s\<lparr>sv_world := w\<rparr>))) = sv_trace (s\<lparr>sv_world := w\<rparr>) @ acts"
      "message_trace m acts"
      unfolding traces_def by blast
    with r f True m(1) show ?thesis by auto
  next
    case False
    then show ?thesis
      using assms w f by (auto simp: process_one_outbound_def modem_ready_def look_def on_world_def diag_set_error_def split: if_splits)
  qed
qed

section \<open>An example\<close>

definition demo_message :: sms_message where
  "demo_message = (outbound_message ''+4915'' ''Hi'' False SMS_ENCODING_GSM7 7 1)\<lparr>msg_id := 5\<rparr>"

definition accepted :: at_response where
  "accepted = zero_response\<lparr>rs_data := ''+CMGS: 42'' @ [CHR 0x00], rs_line_offsets := [0]\<rparr>"

lemma demo_fields:
  "message_fields_ok demo_message" "msg_id demo_message = 5" "msg_status demo_message = SMS_MESSAGE_QUEUED"
  "msg_segment_count demo_message = 1" "segment_capacity demo_message = 1" "msg_segment_sent_mask demo_message = 0"
  "msg_recipient demo_message = ''+4915''" "msg_text demo_message = ''Hi''" "msg_delivery_report_requested demo_message = False"
  "msg_concat_reference demo_message = 7"
proof -
  show "message_fields_ok demo_message" by code_simp
  show "msg_recipient demo_message = ''+4915''" "msg_text demo_message = ''Hi''" by code_simp+
qed (simp_all add: demo_message_def outbound_message_def segment_capacity_def SMS_MAX_SEGMENTS_def zero_message_def)

lemma accepted_reference: "parse_cmgs_reference accepted = Some 42"
  by code_simp

lemma demo_encode: "sms_submit_encode ''+4915'' ''Hi'' False 7 [zero_segment] = Some (segments_of demo_message, 1)"
proof -
  have v: "address_validate ''+4915'' = Some (''4915'', True)" by code_simp
  have s: "gsm7_of_text ''Hi'' = Some [0x48, 0x69]" by code_simp
  then have c: "sms_gsm7_septet_count ''Hi'' \<noteq> SIZE_MAX" by (simp add: sms_gsm7_septet_count_spec SIZE_MAX_def)
  have "sms_submit_preflight ''+4915'' ''Hi'' 7 = Some (SMS_ENCODING_GSM7, 1)"
    by (simp add: gsm7_branch(1) [OF v s c])
  then obtain segs where "sms_submit_encode ''+4915'' ''Hi'' False 7 [zero_segment] = Some (segs, 1)"
    using encode_outcome [of "''+4915''" "''Hi''" False 7 "[zero_segment]"] by (auto simp: encode_outcome_def)
  then show ?thesis by (simp add: segments_of_def demo_fields)
qed

text \<open>The message while its only segment is handed over, after the acknowledgement, and at the end.\<close>

definition demo_sending :: sms_message where
  "demo_sending = demo_message\<lparr>msg_status := SMS_MESSAGE_SENDING, msg_inflight_segment := 1, msg_send_attempts := 1\<rparr>"

definition demo_acknowledged :: sms_message where
  "demo_acknowledged = demo_sending\<lparr>msg_modem_reference := (msg_modem_reference demo_sending)[0 := 42],
     msg_segment_sent_mask := 1, msg_inflight_segment := 0, msg_last_modem_error := 0\<rparr>"

definition demo_sent :: sms_message where
  "demo_sent = demo_acknowledged\<lparr>msg_status := SMS_MESSAGE_SENT, msg_inflight_segment := 0\<rparr>"

lemma demo_states:
  "message_fields_ok demo_sending" "message_fields_ok demo_acknowledged" "message_fields_ok demo_sent"
  "msg_id demo_sending = 5" "msg_id demo_acknowledged = 5" "msg_id demo_sent = 5"
  "msg_segment_sent_mask demo_sending = 0" "msg_segment_sent_mask demo_acknowledged = 1"
  using demo_fields
  by (simp_all add: demo_sending_def demo_acknowledged_def demo_sent_def message_fields_ok_def)

lemma demo_send_segment:
  assumes "sv_store s = one_store demo_message" and "sv_world s = [(ESP_OK, accepted)]"
  obtains t where "run_state (send_segment demo_env demo_message segment 0) s = ((ESP_OK, demo_acknowledged), t)"
    "sv_store t = one_store demo_acknowledged" "sv_event_cb t = sv_event_cb s"
    "sv_trace t = sv_trace s @ [Stored demo_sending, Command (cmgs_request segment), Stored demo_acknowledged]"
proof -
  have m: "demo_message\<lparr>msg_status := SMS_MESSAGE_SENDING, msg_inflight_segment := 1,
      msg_send_attempts := msg_send_attempts demo_message + 1\<rparr> = demo_sending"
    "demo_sending\<lparr>msg_modem_reference := (msg_modem_reference demo_sending)[0 := 42],
      msg_segment_sent_mask := segment_bit 0,
      msg_inflight_segment := 0, msg_last_modem_error := 0\<rparr> = demo_acknowledged"
    by (simp_all add: demo_sending_def demo_acknowledged_def segment_bit_def demo_states demo_fields)
      (simp_all add: demo_message_def outbound_message_def zero_message_def)
  have r: "rs_result accepted = AT_RESULT_OK" by (simp add: accepted_def zero_response_def)
  obtain t where "run_state (send_segment demo_env demo_message segment 0) s = ((ESP_OK, demo_acknowledged), t) \<and>
      sv_store t = one_store demo_acknowledged \<and> sv_event_cb t = sv_event_cb s \<and>
      sv_trace t = sv_trace s @ [Stored demo_sending, Command (cmgs_request segment), Stored demo_acknowledged]"
    by (simp add: send_segment_def demo_fields m demo_save [where m = demo_message] demo_save [where m = demo_sending]
      demo_states assms r accepted_reference execute_def modem_ready_def look_def on_world_def bounds_check_def)
  then show ?thesis using that by blast
qed

lemma demo_found: "sms_store_find_status flash_ops SMS_MESSAGE_QUEUED (one_store demo_message) = (ESP_OK, Some demo_message)"
  by (rule one_status) (simp_all add: demo_fields UINT32_MAX_def)

lemma demo_run:
  "\<exists>t. run_state (process_one_outbound demo_env) (demo_service (one_store demo_message) [(ESP_OK, accepted)]) = ((), t) \<and>
     sv_trace t = [Stored demo_sending, Command (cmgs_request (segments_of demo_message ! 0)), Stored demo_acknowledged,
       Stored demo_sent, Event SMS_SERVICE_EVENT_SENT demo_sent]"
proof -
  let ?s = "demo_service (one_store demo_message) [(ESP_OK, accepted)]"
  have s: "sv_store ?s = one_store demo_message" "sv_world ?s = [(ESP_OK, accepted)]" "sv_trace ?s = []" "sv_event_cb ?s"
    "dg_pdu_mode_configured (sv_diagnostics ?s)"
    by (simp_all add: demo_service_def)
  from demo_send_segment [OF s(1,2), of "segments_of demo_message ! 0"] s obtain t where t:
    "run_state (send_segment demo_env demo_message (segments_of demo_message ! 0) 0) ?s = ((ESP_OK, demo_acknowledged), t)"
    "sv_store t = one_store demo_acknowledged" "sv_event_cb t"
    "sv_trace t = [Stored demo_sending, Command (cmgs_request (segments_of demo_message ! 0)), Stored demo_acknowledged]"
    by auto
  have m: "demo_acknowledged\<lparr>msg_status := SMS_MESSAGE_SENT, msg_inflight_segment := 0\<rparr> = demo_sent"
    by (simp add: demo_sent_def)
  show ?thesis
    by (simp add: process_one_outbound_def look_def modem_ready_def on_world_def s demo_found send_queued_def demo_fields demo_encode
        t(1) demo_states all_segments_def m demo_save [OF t(2)] emit_event_def t(3,4))
qed

section \<open>Properties\<close>





end
