(* ===== verification/Sms_Inbound.thy ===== *)
theory Sms_Inbound
  imports Sms_Traces
begin

text \<open>
  Inbound messages: a message is deleted from the modem only after it is in the store, and a
  message the modem delivers again is not stored again.
\<close>

section \<open>Commands of the inbound path\<close>

definition deletion :: "int \<Rightarrow> at_request" where
  "deletion i = simple_request (''AT+CMGD='' @ dec (nat i) @ '',0'') [] SMS_SERVICE_AT_TIMEOUT_MS"

abbreviation quiet :: "'a \<Rightarrow> service_action list \<Rightarrow> bool" where
  "quiet \<equiv> \<lambda>_ acts. commands acts = []"

lemma tr_delete: "R e [] \<Longrightarrow> (\<And>e. R e []) \<Longrightarrow> traces (store_delete env i) R"
  by (rule tr_silent) (auto simp: store_delete_def split: prod.splits)

lemma quiet_bind: "traces m quiet \<Longrightarrow> (\<And>a. traces (f a) quiet) \<Longrightarrow> traces (m \<bind> f) quiet"
  by (erule tr_bind) (auto elim: tr_weaken)

lemma quiet_save: "traces (store_save env m) quiet"
  by (rule tr_save) auto

lemma quiet_delete: "traces (store_delete env i) quiet"
  by (rule tr_delete) auto

lemmas quiet_rules = tr_if tr_prod tr_option tr_let tr_ret quiet_bind quiet_save quiet_delete tr_world tr_look
  tr_count tr_error tr_check tr_emit

lemma quiet_assemble_loop: "traces (assemble_loop env d ps a ids) quiet"
proof (induction ps arbitrary: a ids)
  case (Cons p ps)
  show ?case unfolding assemble_loop.simps by (intro quiet_rules Cons.IH) auto
qed (simp add: tr_ret)

lemma quiet_delete_partials: "traces (delete_partials env ids) quiet"
  by (induction ids) (auto intro!: quiet_rules)

lemma quiet_assemble: "traces (assemble_if_complete env d) quiet"
  unfolding assemble_if_complete_def
  by (intro quiet_rules quiet_assemble_loop quiet_delete_partials) auto

lemma quiet_persist: "traces (persist_deliver env d) quiet"
  unfolding persist_deliver_def persist_part_def
  by (intro quiet_rules quiet_assemble) auto

lemma quiet_unsupported: "traces (persist_unsupported_deliver env pdu d) quiet"
  unfolding persist_unsupported_deliver_def by (intro quiet_rules) auto

lemma quiet_report: "traces (process_status_report_pdu env pdu) quiet"
  unfolding process_status_report_pdu_def
  by (cases "sms_status_report_decode pdu") (auto intro!: quiet_rules)

text \<open>The only command is the deletion of the message, last, and only on success.\<close>

definition deletes_last :: "int \<Rightarrow> esp_err \<Rightarrow> service_action list \<Rightarrow> bool" where
  "deletes_last i e acts \<longleftrightarrow>
     commands acts = [] \<or> e = ESP_OK \<and> 0 \<le> i \<and> (\<exists>acts'. acts = acts' @ [Command (deletion i)] \<and> commands acts' = [])"

lemma tr_delete_modem:
  assumes "R ESP_OK [] \<and> R ESP_FAIL []" "R ESP_OK [Command (deletion i)] \<and> R ESP_FAIL [Command (deletion i)]"
  shows "traces (delete_modem_index env i) R"
  unfolding delete_modem_index_def execute_simple_def
  by (intro tr_if tr_prod tr_ret tr_bind_wp tr_execute tr_error) (use assms in \<open>auto simp: deletion_def\<close>)

lemma deletes_quiet: "commands acts = [] \<Longrightarrow> deletes_last i e acts"
  by (simp add: deletes_last_def)

lemma tr_then_delete:
  assumes "commands acts = []" and "e = ESP_OK \<and> 0 \<le> i"
  shows "traces (delete_modem_index env i \<bind> (\<lambda>_. ret e)) (\<lambda>e acts'. deletes_last i e (acts @ acts'))"
  by (intro tr_bind_wp tr_delete_modem) (use assms in \<open>auto simp: deletes_last_def intro!: tr_ret\<close>)

lemma tr_outcome:
  "(\<And>a. x = Ret a \<Longrightarrow> traces (f a) R) \<Longrightarrow> (\<And>e. x = Err e \<Longrightarrow> traces (g e) R) \<Longrightarrow>
   (x = Fault \<Longrightarrow> traces h R) \<Longrightarrow> traces (case x of Ret a \<Rightarrow> f a | Err e \<Rightarrow> g e | Fault \<Rightarrow> h) R"
  by (cases x) auto

lemma tr_process_deliver: "traces (process_deliver_pdu env pdu i) (deletes_last i)"
proof -
  have "traces (if e = ESP_OK \<and> 0 \<le> i then delete_modem_index env i \<bind> (\<lambda>_. ret e) else ret e)
      (\<lambda>e acts'. deletes_last i e (acts @ acts'))" if "commands acts = []" for e acts
    using that by (intro tr_if tr_then_delete tr_ret) (auto simp: deletes_last_def)
  moreover have "traces (if 0 \<le> i then delete_modem_index env i \<bind> (\<lambda>_. ret ESP_OK) else ret ESP_OK)
      (\<lambda>e acts'. deletes_last i e (acts @ acts'))" if "commands acts = []" for acts
    using that by (intro tr_if tr_then_delete tr_ret) (auto simp: deletes_last_def)
  ultimately show ?thesis
    unfolding process_deliver_pdu_def
    by (intro tr_if [of "\<not> _"] tr_if [of "_ \<or> _"] tr_outcome tr_bind [OF quiet_persist] tr_bind [OF quiet_unsupported]
        tr_ret tr_bind_wp tr_world tr_count tr_error tr_check) (auto simp: deletes_last_def)
qed

lemma tr_process_any: "traces (process_any_pdu env pdu i) (deletes_last i)"
proof (cases "pdu_type pdu")
  case SMS_PDU_TYPE_STATUS_REPORT
  have "traces (if e = ESP_OK \<and> 0 \<le> i then delete_modem_index env i \<bind> (\<lambda>_. ret e) else ret e)
      (\<lambda>e acts'. deletes_last i e (acts @ acts'))" if "commands acts = []" for e acts
    using that by (intro tr_if tr_then_delete tr_ret) (auto simp: deletes_last_def)
  then show ?thesis
    using SMS_PDU_TYPE_STATUS_REPORT by (auto simp: process_any_pdu_def intro!: tr_bind [OF quiet_report])
next
  case SMS_PDU_TYPE_UNKNOWN
  then show ?thesis by (auto simp: process_any_pdu_def deletes_last_def intro!: tr_bind_wp tr_count tr_ret)
qed (simp add: process_any_pdu_def tr_process_deliver)

section \<open>What is stored\<close>

text \<open>Whether the store holds the message: the search that \<open>persist_deliver\<close> uses for duplicates.\<close>

definition holds :: "('n, persisted_record) nvs_ops \<Rightarrow> 'n sms_store \<Rightarrow> sms_deliver \<Rightarrow> bool" where
  "holds ops st d \<longleftrightarrow>
     (let r = deliver_record d in
      fst (sms_store_find_inbound_identity ops (Some (msg_sender r)) (Some (msg_service_center_timestamp r))
        (msg_encoding r) (Some (msg_text r)) st) = ESP_OK)"

lemma find_matching_found:
  assumes "store_wf ops n" and "store_map ops n i = Some m" and "P m"
  shows "fst (find_matching ops P n) = ESP_OK"
proof -
  obtain s where s: "s \<in> set store_slots" "load_slot ops n s = Inr (Some m)"
    using assms(1,2) by (auto simp: store_map_iff)
  have r: "readable (load_slot ops n) store_slots" using assms(1) by (simp add: store_wf_def)
  show ?thesis
  proof (cases "scan_until (load_slot ops n) (\<lambda>x. case x of None \<Rightarrow> False | Some m \<Rightarrow> P m) store_slots")
    case (Inl e)
    then show ?thesis using scan_until_find [OF r] by simp
  next
    case (Inr x)
    then show ?thesis
      using scan_until_None [of "load_slot ops n" "\<lambda>x. case x of None \<Rightarrow> False | Some m \<Rightarrow> P m" store_slots s] s assms(3)
      by (cases x) (auto simp: find_matching_def)
  qed
qed

lemma saved_holds:
  assumes "nvs_partition ops" and "store_inv ops (st_nvs st)" and "\<not> cc_present (dl_concat d)"
    and "sms_store_save ops (deliver_record d) st = (ESP_OK, m', st')"
  shows "holds ops st' d"
proof -
  note g = save_ok_guards [OF assms(4)]
  have "msg_id (deliver_record d) = 0" by (simp add: deliver_record_def zero_message_def)
  note n = message_partition.save_new [OF message_partitionI [OF assms(1)] assms(2) _ this _ assms(4)]
  have "store_wf ops (st_nvs st')" "\<exists>i. store_map ops (st_nvs st') i = Some m'"
    "\<exists>i. m' = deliver_record d\<lparr>msg_id := i\<rparr>"
    using n(1,4) g by auto
  then show ?thesis
    using find_matching_found [of ops "st_nvs st'" _ m' "identity_matches (msg_sender (deliver_record d))
        (msg_service_center_timestamp (deliver_record d)) (msg_encoding (deliver_record d)) (msg_text (deliver_record d))"]
      save_initialized [OF assms(4)] g assms(3)
    by (auto simp: holds_def Let_def sms_store_find_inbound_identity_def identity_matches_def deliver_record_def)
qed

lemma persist_single:
  assumes "nvs_partition (env_nvs env)" and "store_inv (env_nvs env) (st_nvs (sv_store s))"
    and "\<not> cc_present (dl_concat d)" and "run_state (persist_deliver env d) s = (ESP_OK, t)"
  shows "holds (env_nvs env) (sv_store t) d"
proof -
  obtain w1 w2 where w: "env_calloc env (sv_world s) = (True, w1)" "env_calloc env w1 = (True, w2)"
    using assms(3,4) by (auto simp: persist_deliver_def on_world_def split: prod.splits if_splits)
  let ?r = "deliver_record d" and ?s = "s\<lparr>sv_world := w2\<rparr>"
  obtain de x where f: "sms_store_find_inbound_identity (env_nvs env) (Some (msg_sender ?r))
      (Some (msg_service_center_timestamp ?r)) (msg_encoding ?r) (Some (msg_text ?r)) (sv_store s) = (de, x)" by fastforce
  obtain e m' st' where c: "sms_store_save (env_nvs env) ?r (sv_store s) = (e, m', st')" by (metis surj_pair)
  show ?thesis
  proof (cases "de = ESP_OK")
    case True
    then have "sv_store t = sv_store s"
      using assms(3,4) w f by (auto simp: persist_deliver_def on_world_def Let_def)
    then show ?thesis using f True by (simp add: holds_def Let_def)
  next
    case False
    then have "e = ESP_OK \<and> sv_store t = st'"
      using assms(3,4) w f c
      by (auto simp: persist_deliver_def on_world_def Let_def store_save_def emit_event_def split: if_splits)
    then show ?thesis using saved_holds [OF assms(1,2,3)] c by simp
  qed
qed

lemma store_execute: "sv_store (snd (run_state (execute env req r) s)) = sv_store s"
  by (auto simp: execute_def modem_ready_def split: prod.splits)

lemma store_delete_modem: "sv_store (snd (run_state (delete_modem_index env i) s)) = sv_store s"
proof -
  obtain e r t where "run_state (execute env (simple_request (''AT+CMGD='' @ dec (nat i) @ '',0'') [] SMS_SERVICE_AT_TIMEOUT_MS) zero_response) s
      = ((e, r), t)" by (metis surj_pair)
  with store_execute [of env _ zero_response s] show ?thesis
    by (auto simp: delete_modem_index_def execute_simple_def diag_set_error_def dest!: arg_cong [of _ _ "\<lambda>x. sv_store (snd x)"] split: prod.splits)
qed

lemma deliver_single:
  assumes "nvs_partition (env_nvs env)" and "store_inv (env_nvs env) (st_nvs (sv_store s))"
    and "sms_deliver_decode pdu = Ret d" and "\<not> cc_present (dl_concat d)"
    and "run_state (process_deliver_pdu env pdu i) s = (ESP_OK, t)"
  shows "holds (env_nvs env) (sv_store t) d"
proof -
  obtain w1 w2 where w: "env_calloc env (sv_world s) = (True, w1)" "env_calloc env w1 = (True, w2)"
    using assms(5) by (auto simp: process_deliver_pdu_def on_world_def split: prod.splits if_splits)
  let ?s = "s\<lparr>sv_world := w2, sv_diagnostics := (sv_diagnostics s)\<lparr>dg_inbound_pdus := dg_inbound_pdus (sv_diagnostics s) + 1\<rparr>\<rparr>"
  obtain e u where p: "run_state (persist_deliver env d) ?s = (e, u)" by fastforce
  have "e = ESP_OK" "sv_store t = sv_store u"
    using assms(3,5) w p store_delete_modem [of env i u]
    by (auto simp: process_deliver_pdu_def on_world_def diag_set_error_def split: if_splits prod.splits)
  then show ?thesis using persist_single [OF assms(1) _ assms(4), of ?s] p assms(2) by simp
qed

text \<open>A message that the store holds already is counted as a duplicate and nothing else changes.\<close>

lemma duplicate_persist:
  assumes "\<And>w. fst (env_calloc env w)" and "\<not> cc_present (dl_concat d)" and "holds (env_nvs env) (sv_store s) d"
  shows "\<exists>t. run_state (persist_deliver env d) s = (ESP_OK, t) \<and> sv_store t = sv_store s \<and> sv_trace t = sv_trace s"
proof -
  have "\<exists>w'. env_calloc env w = (True, w')" for w using assms(1) [of w] by (cases "env_calloc env w") auto
  then obtain w1 w2 where w: "env_calloc env (sv_world s) = (True, w1)" "env_calloc env w1 = (True, w2)" by metis
  show ?thesis
    using assms(2,3) by (auto simp: persist_deliver_def on_world_def holds_def Let_def w split: prod.splits)
qed

lemma duplicate_single:
  assumes "\<And>w. fst (env_calloc env w)" and "sms_deliver_decode pdu = Ret d" and "\<not> cc_present (dl_concat d)"
    and "holds (env_nvs env) (sv_store s) d"
  shows "\<exists>t. run_state (process_deliver_pdu env pdu (-1)) s = (ESP_OK, t) \<and> sv_store t = sv_store s \<and> sv_trace t = sv_trace s"
proof -
  have "\<exists>w'. env_calloc env w = (True, w')" for w using assms(1) [of w] by (cases "env_calloc env w") auto
  then obtain w1 w2 where w: "env_calloc env (sv_world s) = (True, w1)" "env_calloc env w1 = (True, w2)" by metis
  let ?s = "s\<lparr>sv_world := w2, sv_diagnostics := (sv_diagnostics s)\<lparr>dg_inbound_pdus := dg_inbound_pdus (sv_diagnostics s) + 1\<rparr>\<rparr>"
  obtain t where "run_state (persist_deliver env d) ?s = (ESP_OK, t)" "sv_store t = sv_store s" "sv_trace t = sv_trace s"
    using duplicate_persist [OF assms(1,3), of ?s] assms(4) by auto
  then show ?thesis using assms(2) w by (simp add: process_deliver_pdu_def on_world_def)
qed

section \<open>An example\<close>

definition demo_deliver :: sms_deliver where
  "demo_deliver = \<lparr>dl_sender = ''+1234'', dl_encoding = SMS_ENCODING_GSM7, dl_concat = no_concat,
     dl_service_center_timestamp = ''2026-07-09T12:34:56+00:00'', dl_text = ''Hi''\<rparr>"

abbreviation demo_pdu :: string where
  "demo_pdu \<equiv> ''00000491214300006270902143650002C834''"

lemma demo_decode: "sms_deliver_decode demo_pdu = Ret demo_deliver" "pdu_type demo_pdu = SMS_PDU_TYPE_DELIVER"
  by code_simp+

lemma demo_record: "\<not> cc_present (dl_concat demo_deliver)" "message_fields_ok (deliver_record demo_deliver)"
    "msg_id (deliver_record demo_deliver) = 0"
  by code_simp+

lemma demo_unknown:
  "sms_store_find_inbound_identity flash_ops (Some a) (Some b) c (Some d) empty_store = (ESP_ERR_NOT_FOUND, None)"
proof -
  have "scan_until (load_slot flash_ops (st_nvs empty_store)) (case_option False P) ss = Inr None" for P ss
    by (induction ss) (simp_all add: load_slot_empty)
  then show ?thesis by (simp add: sms_store_find_inbound_identity_def find_matching_def)
qed

lemma demo_receive:
  "\<exists>t. run_state (process_deliver_pdu demo_env demo_pdu 3) (demo_service empty_store [(ESP_OK, zero_response)]) = (ESP_OK, t) \<and>
     sv_store t = one_store (deliver_record demo_deliver\<lparr>msg_id := 1\<rparr>) \<and>
     sv_trace t = [Stored (deliver_record demo_deliver\<lparr>msg_id := 1\<rparr>),
       Event SMS_SERVICE_EVENT_RECEIVED (deliver_record demo_deliver\<lparr>msg_id := 1\<rparr>), Command (deletion 3)]"
  by (simp add: process_deliver_pdu_def demo_decode on_world_def persist_deliver_def demo_record Let_def demo_service_def
      demo_unknown store_save_def empty_save emit_event_def delete_modem_index_def execute_simple_def execute_def
      modem_ready_def deletion_def zero_response_def)

section \<open>Properties\<close>





end
