(* ===== verification/Sms_Api.thy ===== *)
theory Sms_Api
  imports Sms_Delivery
begin

text \<open>
  What the API and the start of the service guarantee: an accepted message is in the store and can
  be encoded again for sending; after a restart no message is left in the middle of a send.
\<close>

section \<open>Accepted messages\<close>

lemma copy_field_fits: "cstring s \<Longrightarrow> length s < n \<Longrightarrow> copy_field n s = s"
  by (simp add: copy_field_def)

lemma address_length: "address_validate a = Some v \<Longrightarrow> length a \<le> 21"
  by (auto simp: address_validate_def Let_def split: if_splits)

lemma encode_address: "sms_submit_encode r b rep ref segs = Some x \<Longrightarrow> \<exists>v. address_validate r = Some v"
  using encode_outcome [of r b rep ref segs] by (auto simp: encode_outcome_def split: option.splits if_splits)

text \<open>The number of segments does not depend on the array they are written to.\<close>

lemma encode_again:
  assumes "sms_submit_encode r b rep ref segments = Some (segs, n)" and "n \<le> length segments'"
  shows "1 \<le> n \<and> n \<le> SMS_MAX_SEGMENTS \<and> (\<exists>segs'. sms_submit_encode r b rep ref segments' = Some (segs', n))"
  using encode_outcome [of r b rep ref segments] encode_outcome [of r b rep ref segments'] assms
  by (auto simp: encode_outcome_def split: option.splits if_splits)

lemma outbound_fields:
  "msg_id (outbound_message to body rep enc ref n) = 0"
  "msg_status (outbound_message to body rep enc ref n) = SMS_MESSAGE_QUEUED"
  "msg_direction (outbound_message to body rep enc ref n) = SMS_DIRECTION_OUTBOUND"
  "msg_delivery_report_requested (outbound_message to body rep enc ref n) = rep"
  "msg_concat_reference (outbound_message to body rep enc ref n) = ref"
  "msg_segment_count (outbound_message to body rep enc ref n) = word_of_nat n"
  "msg_recipient (outbound_message to body rep enc ref n) = copy_field SMS_MAX_ADDRESS_LENGTH to"
  "msg_text (outbound_message to body rep enc ref n) = copy_field SMS_MESSAGE_TEXT_MAX body"
  by (simp_all add: outbound_message_def zero_message_def)

lemma queue_simple_store [simp]: "sv_store (snd (run_state (queue_simple_event e) s)) = sv_store s"
  by (simp add: queue_simple_event_def queue_send_def)

lemma send_stores:
  assumes "run_state (sms_service_send env (Some to) (Some body) rep) s = ((ESP_OK, x), t)" and "cstring body"
  obtains enc ref n segs m st' where "length body < SMS_MESSAGE_TEXT_MAX"
    "sms_submit_encode to body rep ref (replicate SMS_MAX_SEGMENTS zero_segment) = Some (segs, n)"
    "sms_store_save (env_nvs env) (outbound_message to body rep enc ref n) (sv_store s) = (ESP_OK, m, st')"
    "x = Some (msg_id m)" "sv_store t = st'"
proof -
  obtain b1 w1 where w1: "env_calloc env (sv_world s) = (b1, w1)" by fastforce
  obtain r w2 where w2: "env_random env w1 = (r, w2)" by fastforce
  obtain b3 w3 where w3: "env_calloc env w2 = (b3, w3)" by fastforce
  define ref :: u16 where "ref = (if (ucast r :: u16) = 0 then 1 else ucast r)"
  let ?enc = "sms_submit_encode to body rep ref (replicate SMS_MAX_SEGMENTS zero_segment)"
  have g: "sv_initialized s" "length body < SMS_MESSAGE_TEXT_MAX" b1
    using assms w1 by (auto simp: sms_service_send_def bounded_strlen_def on_world_def split: if_splits)
  have False if "?enc = None"
    using assms g w1 w2 that
    by (auto simp: sms_service_send_def bounded_strlen_def on_world_def Let_def ref_def [symmetric])
  then obtain segs n where e: "?enc = Some (segs, n)" by (cases ?enc) auto
  obtain e1 m st' where c: "sms_store_save (env_nvs env)
      (outbound_message to body rep (seg_encoding (segs ! 0)) ref n) (sv_store s) = (e1, m, st')" by (metis surj_pair)
  have "e1 = ESP_OK \<and> x = Some (msg_id m) \<and> sv_store t = st'"
    using assms g w1 w2 w3 e c
    by (auto simp: sms_service_send_def bounded_strlen_def on_world_def Let_def ref_def [symmetric] store_save_def
        split: if_splits prod.splits dest!: arg_cong [where f = "\<lambda>x. sv_store (snd x)"])
  with c g e show ?thesis using that by blast
qed

lemma accepted_message:
  assumes part: "nvs_partition (env_nvs env)" and inv: "store_inv (env_nvs env) (st_nvs (sv_store s))"
    and c: "cstring to" "cstring body"
    and run: "run_state (sms_service_send env (Some to) (Some body) rep) s = ((ESP_OK, x), t)"
  obtains m where "x = Some (msg_id m)" "sms_store_get (env_nvs env) (msg_id m) (sv_store t) = (ESP_OK, Some m)"
    "msg_status m = SMS_MESSAGE_QUEUED" "msg_direction m = SMS_DIRECTION_OUTBOUND" "msg_recipient m = to" "msg_text m = body"
    "msg_delivery_report_requested m = rep"
    "\<exists>segs. sms_submit_encode to body rep (msg_concat_reference m) (replicate (segment_capacity m) zero_segment) =
       Some (segs, unat (msg_segment_count m))"
proof -
  obtain enc ref n segs m st' where len: "length body < SMS_MESSAGE_TEXT_MAX"
    and e: "sms_submit_encode to body rep ref (replicate SMS_MAX_SEGMENTS zero_segment) = Some (segs, n)"
    and s: "sms_store_save (env_nvs env) (outbound_message to body rep enc ref n) (sv_store s) = (ESP_OK, m, st')"
    and t: "x = Some (msg_id m)" "sv_store t = st'"
    by (rule send_stores [OF run c(2)])
  note g = save_ok_guards [OF s]
  note n = message_partition.save_new [OF message_partitionI [OF part] inv _ outbound_fields(1) _ s]
  have m: "m = (outbound_message to body rep enc ref n)\<lparr>msg_id := msg_id m\<rparr>" "store_map (env_nvs env) (st_nvs st') (msg_id m) = Some m"
    "store_wf (env_nvs env) (st_nvs st')"
    using n(1,4) g by auto
  from encode_address [OF e] address_length have "length to \<le> 21" by blast
  then have f: "msg_recipient m = to" "msg_text m = body" "msg_concat_reference m = ref" "msg_segment_count m = word_of_nat n"
    "msg_status m = SMS_MESSAGE_QUEUED" "msg_direction m = SMS_DIRECTION_OUTBOUND" "msg_delivery_report_requested m = rep"
    using c len by (subst m(1), simp add: outbound_fields copy_field_fits SMS_MAX_ADDRESS_LENGTH_def)+
  have k: "1 \<le> n" "n \<le> SMS_MAX_SEGMENTS" using encode_again [OF e, of "replicate n zero_segment"] by auto
  then have u: "unat (msg_segment_count m) = n" by (simp add: f unat_of_nat SMS_MAX_SEGMENTS_def)
  then have "segment_capacity m = n" using k by (simp add: segment_capacity_def)
  then have again: "\<exists>segs. sms_submit_encode to body rep (msg_concat_reference m) (replicate (segment_capacity m) zero_segment) =
       Some (segs, unat (msg_segment_count m))"
    using encode_again [OF e, of "replicate n zero_segment"] u f(3) by simp
  have "sms_store_get (env_nvs env) (msg_id m) (sv_store t) = (ESP_OK, Some m)"
    using m(2) t(2) save_initialized [OF s] g store_map_fields [OF m(3) m(2)] by (simp add: get_lookup [OF m(3)])
  with t f again that show ?thesis by blast
qed

section \<open>Interrupted sends\<close>

text \<open>A partition on which every write succeeds.\<close>

definition reliable :: "('n, 'b) nvs_ops \<Rightarrow> bool" where
  "reliable ops \<longleftrightarrow> (\<forall>k v n. fst (nvs_set_blob ops k v n) = ESP_OK) \<and> (\<forall>n. fst (nvs_commit ops n) = ESP_OK)"

lemma reliable_save:
  assumes "reliable ops" and "store_wf ops (st_nvs st)" and "st_initialized st" and "message_fields_ok m"
    and "store_map ops (st_nvs st) (msg_id m) = Some m0"
  shows "\<exists>st'. sms_store_save ops m st = (ESP_OK, m, st')"
proof -
  obtain k where "find_id_slot ops (st_nvs st) (msg_id m) = Inr k" using find_id_slot_known [OF assms(2,5)] by blast
  moreover have "msg_id m \<noteq> 0" using store_map_fields [OF assms(2,5)] by simp
  moreover obtain n' where "write_slot ops k m (st_nvs st) = (ESP_OK, n')"
    using assms(1) unfolding reliable_def write_slot_def by (metis (mono_tags, lifting) case_prod_conv prod.collapse)
  ultimately show ?thesis using assms(3,4) by (simp add: sms_store_save_def)
qed

definition marked :: "sms_message \<Rightarrow> sms_message" where
  "marked r = (if msg_direction r = SMS_DIRECTION_OUTBOUND \<and> msg_status r = SMS_MESSAGE_SENDING
     then r\<lparr>msg_status := SMS_MESSAGE_UNCERTAIN\<rparr> else r)"

lemma marked_id [simp]: "msg_id (marked r) = msg_id r"
  by (simp add: marked_def)

lemma marked_not_sending: "\<not> (msg_direction (marked r) = SMS_DIRECTION_OUTBOUND \<and> msg_status (marked r) = SMS_MESSAGE_SENDING)"
  by (simp add: marked_def)

lemma next_record:
  assumes "store_wf ops (st_nvs st)" and "st_initialized st"
  shows "case sms_store_list ops after 1 st of
     Inl _ \<Rightarrow> False
   | Inr [] \<Rightarrow> (\<forall>i. after < i \<longrightarrow> store_map ops (st_nvs st) i = None)
   | Inr (r # _) \<Rightarrow> after < msg_id r \<and> store_map ops (st_nvs st) (msg_id r) = Some r \<and>
       (\<forall>i. after < i \<longrightarrow> i < msg_id r \<longrightarrow> store_map ops (st_nvs st) i = None)"
proof -
  let ?xs = "filter (\<lambda>m. after < msg_id m) (stored ops (st_nvs st))"
  have l: "sms_store_list ops after 1 st = Inr (take 1 (sort_key msg_id ?xs))"
    using list_sorted [OF assms, of 1] by simp
  have rec: "m \<in> set (stored ops (st_nvs st)) \<longleftrightarrow> store_map ops (st_nvs st) (msg_id m) = Some m" for m
    using assms(1) by (auto simp: store_map_iff set_stored)
  have none: "store_map ops (st_nvs st) i = None"
    if "after < i" "\<forall>m \<in> set ?xs. i < msg_id m" for i
  proof (rule ccontr)
    assume "store_map ops (st_nvs st) i \<noteq> None"
    then obtain m where "store_map ops (st_nvs st) i = Some m" by blast
    with store_map_fields [OF assms(1) this] rec [of m] that show False by auto
  qed
  show ?thesis
  proof (cases "sort_key msg_id ?xs")
    case Nil
    then have "set ?xs = {}" by (metis set_empty set_sort)
    then show ?thesis using l none Nil by auto
  next
    case (Cons r rs)
    then have r: "r \<in> set ?xs" by (metis list.set_intros(1) set_sort)
    have "sorted (map msg_id (r # rs))" using Cons by (metis sorted_sort_key)
    then have "msg_id r \<le> msg_id m" if "m \<in> set ?xs" for m
      using that Cons by (metis (no_types, lifting) dual_order.refl image_eqI list.simps(9) list.set_map set_ConsD set_sort sorted_simps(2))
    then have "store_map ops (st_nvs st) i = None" if "after < i" "i < msg_id r" for i
      using none [OF that(1)] that(2) by fastforce
    then show ?thesis using l Cons r rec by auto
  qed
qed

lemma mark_step:
  assumes part: "nvs_partition (env_nvs env)" and rel: "reliable (env_nvs env)"
    and wf: "store_wf (env_nvs env) (st_nvs (sv_store s))" "st_initialized (sv_store s)"
    and r: "store_map (env_nvs env) (st_nvs (sv_store s)) (msg_id r) = Some r"
  defines "t \<equiv> snd (run_state (mark_uncertain env r) s)"
  shows "store_wf (env_nvs env) (st_nvs (sv_store t)) \<and> st_initialized (sv_store t) \<and>
    store_map (env_nvs env) (st_nvs (sv_store t)) = (store_map (env_nvs env) (st_nvs (sv_store s)))(msg_id r \<mapsto> marked r)"
proof (cases "msg_direction r = SMS_DIRECTION_OUTBOUND \<and> msg_status r = SMS_MESSAGE_SENDING")
  case True
  let ?m = "r\<lparr>msg_status := SMS_MESSAGE_UNCERTAIN\<rparr>"
  have f: "message_fields_ok ?m" "msg_id ?m \<noteq> 0"
    using store_map_fields [OF wf(1) r] by (auto simp: message_fields_ok_def)
  obtain st' where c: "sms_store_save (env_nvs env) ?m (sv_store s) = (ESP_OK, ?m, st')"
    using reliable_save [OF rel wf f(1), of r] r by auto
  have "sv_store t = st'" using True c by (simp add: t_def mark_uncertain_def store_save_def emit_event_def)
  then show ?thesis
    using message_partition.save_known [OF message_partitionI [OF part] wf(1,2) f(2,1) c] save_initialized [OF c] wf(2) True
    by (simp add: marked_def)
next
  case False
  then show ?thesis using wf r by (auto simp: t_def mark_uncertain_def marked_def)
qed

lemma mark_loop_marks:
  assumes "nvs_partition (env_nvs env)" and "reliable (env_nvs env)"
  shows "store_wf (env_nvs env) (st_nvs (sv_store s)) \<Longrightarrow> st_initialized (sv_store s) \<Longrightarrow>
    store_map (env_nvs env) (st_nvs (sv_store (mark_loop env after s))) =
      (\<lambda>i. if after < i then map_option marked (store_map (env_nvs env) (st_nvs (sv_store s)) i)
           else store_map (env_nvs env) (st_nvs (sv_store s)) i)"
  using assms
proof (induction env after s rule: mark_loop.induct)
  case (1 env after s)
  note part = 1(4,5) and wf = 1(2,3)
  let ?M = "store_map (env_nvs env) (st_nvs (sv_store s))"
  note n = next_record [OF wf, of after]
  show ?case
  proof (cases "sms_store_list (env_nvs env) after 1 (sv_store s)")
    case (Inl e)
    then show ?thesis using n by simp
  next
    case (Inr rs)
    show ?thesis
    proof (cases rs)
      case Nil
      then show ?thesis using n Inr by (auto simp: mark_loop.simps [of env after s])
    next
      case (Cons r rs')
      let ?t = "snd (run_state (mark_uncertain env r) s)"
      from n Inr Cons have r: "after < msg_id r" "?M (msg_id r) = Some r"
        "\<And>i. after < i \<Longrightarrow> i < msg_id r \<Longrightarrow> ?M i = None" by auto
      note st = mark_step [OF part wf r(2), THEN conjunct1]
        mark_step [OF part wf r(2), THEN conjunct2, THEN conjunct1]
        mark_step [OF part wf r(2), THEN conjunct2, THEN conjunct2]
      have "store_map (env_nvs env) (st_nvs (sv_store (mark_loop env (msg_id r) ?t))) =
          (\<lambda>i. if msg_id r < i then map_option marked ((?M(msg_id r \<mapsto> marked r)) i) else (?M(msg_id r \<mapsto> marked r)) i)"
        using 1(1) [OF Inr Cons st(1,2) part] unfolding st(3) .
      also have "\<dots> = (\<lambda>i. if after < i then map_option marked (?M i) else ?M i)"
        using r by (intro ext) (auto simp: not_less intro: order.strict_trans order.strict_trans1 dest: le_neq_trans)
      finally show ?thesis using Inr Cons by (simp add: mark_loop.simps [of env after s])
    qed
  qed
qed

lemma demo_send:
  "\<exists>x t. run_state (sms_service_send demo_env (Some ''+4915'') (Some ''Hi'') False) (demo_service empty_store []) = ((ESP_OK, x), t)"
proof -
  let ?s = "demo_service empty_store []"
  have s: "sv_store ?s = empty_store" "sv_initialized ?s" by (simp_all add: demo_service_def)
  obtain segs where e: "sms_submit_encode ''+4915'' ''Hi'' False 7 (replicate SMS_MAX_SEGMENTS zero_segment) = Some (segs, 1)"
    using encode_again [OF demo_encode, of "replicate SMS_MAX_SEGMENTS zero_segment"] by (auto simp: SMS_MAX_SEGMENTS_def)
  have "message_fields_ok (outbound_message ''+4915'' ''Hi'' False enc 7 (Suc 0))" for enc by (cases enc; code_simp)
  note save = empty_save [OF outbound_fields(1) this]
  have c: "cstring ''+4915''" "cstring ''Hi''" by code_simp+
  have m: "0 < SMS_MAX_SEGMENTS" by (simp add: SMS_MAX_SEGMENTS_def)
  show ?thesis
    using c by (simp add: sms_service_send_def s bounded_strlen_def SMS_MESSAGE_TEXT_MAX_def on_world_def
        e save store_save_def m queue_simple_event_def queue_send_def)
qed

section \<open>Properties\<close>

text \<open>When \<open>sms_service_send\<close> accepts a message it returns an identifier under which the store
  holds it, queued, with the recipient, the text and the report flag it was given; and the sender
  will encode the stored message into exactly the number of segments that was recorded, so an
  accepted message is never failed for a different encoding.\<close>

theorem send_accepted:
  assumes "nvs_partition (env_nvs env)" and "store_inv (env_nvs env) (st_nvs (sv_store s))"
    and "cstring to" "cstring body"
    and "run_state (sms_service_send env (Some to) (Some body) rep) s = ((ESP_OK, x), t)"
  shows "\<exists>m. x = Some (msg_id m) \<and> sms_store_get (env_nvs env) (msg_id m) (sv_store t) = (ESP_OK, Some m) \<and>
    msg_status m = SMS_MESSAGE_QUEUED \<and> msg_direction m = SMS_DIRECTION_OUTBOUND \<and>
    msg_recipient m = to \<and> msg_text m = body \<and> msg_delivery_report_requested m = rep \<and>
    (\<exists>segs. sms_submit_encode to body rep (msg_concat_reference m) (replicate (segment_capacity m) zero_segment) =
       Some (segs, unat (msg_segment_count m)))"
  using accepted_message [OF assms] by metis

theorem send_accepted_witness:
  "\<exists>t m. run_state (sms_service_send demo_env (Some ''+4915'') (Some ''Hi'') False) (demo_service empty_store []) =
      ((ESP_OK, Some (msg_id m)), t) \<and> sms_store_get flash_ops (msg_id m) (sv_store t) = (ESP_OK, Some m) \<and>
    msg_text m = ''Hi''"
proof -
  let ?s = "demo_service empty_store []"
  have s: "sv_store ?s = empty_store" by (simp add: demo_service_def)
  have c: "cstring ''+4915''" "cstring ''Hi''" by code_simp+
  obtain x t where r: "run_state (sms_service_send demo_env (Some ''+4915'') (Some ''Hi'') False) ?s = ((ESP_OK, x), t)"
    using demo_send by blast
  from send_accepted [OF _ _ c r] r show ?thesis
    using empty_store_inv by (auto simp: flash.nvs_partition_axioms s)
qed


text \<open>A flash partition that accepts every write, whatever its script says.\<close>

definition solid_ops :: "(persisted_record flash, persisted_record) nvs_ops" where
  "solid_ops = flash_ops\<lparr>nvs_set_blob := \<lambda>k v n. (ESP_OK, n\<lparr>fl_blobs := (k, v) # without k (fl_blobs n)\<rparr>),
     nvs_commit := \<lambda>n. (ESP_OK, n)\<rparr>"

interpretation solid: nvs_partition solid_ops
  by unfold_locales
    (auto simp: solid_ops_def flash_ops_def scripted_def found_def map_of_without
      split: list.splits if_splits option.splits)

lemma solid_load: "load_slot solid_ops n s = load_slot flash_ops n s"
  by (simp add: load_slot_def solid_ops_def flash_ops_def)

lemma solid_one:
  assumes "message_fields_ok m" and "msg_id m \<noteq> 0"
  shows "store_wf solid_ops (st_nvs (one_store m)) \<and> store_map solid_ops (st_nvs (one_store m)) = [msg_id m \<mapsto> m]"
proof -
  have l: "load_slot solid_ops (st_nvs (one_store m)) s = Inr (if s = 0 then Some m else None)" for s
    by (simp add: solid_load one_load [OF assms])
  have "held (load_slot solid_ops (st_nvs (one_store m))) ss = []" if "0 \<notin> set ss" for ss
    using that by (induction ss) (simp_all add: l)
  then have "stored solid_ops (st_nvs (one_store m)) = [m]" by (simp add: stored_def store_slots_Cons l)
  moreover have "readable (load_slot solid_ops (st_nvs (one_store m))) store_slots" by (rule readableI) (simp add: l)
  ultimately show ?thesis by (simp add: store_wf_def store_map_def)
qed


end
