(* ===== verification/Idempotency.thy ===== *)
theory Idempotency
  imports Nvs
begin

text \<open>
  The idempotency records of the send API, \<open>api_idempotency.c\<close>: 32 slots in the NVS partition
  that bind the hash of a client's key to the hash of its request and to the message that was
  queued for it. SHA-256 (\<open>gateway_security_sha256\<close>, over mbedTLS) is a parameter that gives the
  digest or an error. The lock of the store may time out; its outcome is an argument of every
  operation, and an operation that gets it is one step.
\<close>

section \<open>Records\<close>

definition GATEWAY_SHA256_LEN :: nat where "GATEWAY_SHA256_LEN = 32"
definition GATEWAY_IDEMPOTENCY_MAX_RECORDS :: nat where "GATEWAY_IDEMPOTENCY_MAX_RECORDS = 32"
definition IDEM_MAGIC :: u32 where "IDEM_MAGIC = 0x4944454d"
definition IDEM_VERSION :: u16 where "IDEM_VERSION = 2"

datatype gateway_idempotency_result =
  GATEWAY_IDEMPOTENCY_MISS | GATEWAY_IDEMPOTENCY_REPLAY | GATEWAY_IDEMPOTENCY_CONFLICT

record idem_record =
  ir_magic :: u32
  ir_version :: u16
  ir_reserved :: u16
  ir_sequence :: u32
  ir_message_id :: u32
  ir_key_hash :: "u8 list"
  ir_request_hash :: "u8 list"

text \<open>\<open>sizeof(idem_record_t)\<close>: every member lies at a multiple of its size, so there is no padding.\<close>

definition sizeof_idem :: nat where
  "sizeof_idem = 4 + 2 + 2 + 4 + 4 + 2 * GATEWAY_SHA256_LEN"

record gateway_idempotency_diagnostics =
  id_pending_records :: u16
  id_finalized_records :: u16
  id_free_records :: u16

record 'n idem_store =
  is_initialized :: bool
  is_mutex :: bool
  is_nvs :: 'n

text \<open>
  The comparison looks at every byte, whatever the earlier ones are: \<open>diff\<close> collects the bits in
  which they differ.
\<close>

definition equal32 :: "u8 list \<Rightarrow> u8 list \<Rightarrow> bool" where
  "equal32 a b = (fold (\<lambda>i diff. diff OR (a ! i XOR b ! i)) [0..<GATEWAY_SHA256_LEN] 0 = 0)"

section \<open>Slots\<close>

definition idem_slots :: "nat list" where
  "idem_slots = [0..<GATEWAY_IDEMPOTENCY_MAX_RECORDS]"

text \<open>\<open>snprintf(out, 8, "r%02u", slot)\<close>\<close>

definition idem_slot_key :: "nat \<Rightarrow> string" where
  "idem_slot_key slot = CHR ''r'' # dec_pad 2 slot"

definition read_slot :: "('n, idem_record) nvs_ops \<Rightarrow> 'n \<Rightarrow> nat \<Rightarrow> esp_err + idem_record" where
  "read_slot ops n slot =
     (case nvs_get_blob ops n (idem_slot_key slot) of
        Inl e \<Rightarrow> Inl e
      | Inr (len, r) \<Rightarrow>
          if len \<noteq> sizeof_idem \<or> ir_magic r \<noteq> IDEM_MAGIC \<or> ir_version r \<noteq> IDEM_VERSION
          then Inl ESP_ERR_INVALID_VERSION else Inr r)"

definition idem_write_slot ::
    "('n, idem_record) nvs_ops \<Rightarrow> nat \<Rightarrow> idem_record \<Rightarrow> 'n \<Rightarrow> esp_err \<times> 'n" where
  "idem_write_slot ops slot r n =
     (case nvs_set_blob ops (idem_slot_key slot) (sizeof_idem, r) n of
        (e, n1) \<Rightarrow> if e = ESP_OK then nvs_commit ops n1 else (e, n1))"

text \<open>
  How the loops see a slot: a missing record and one of another version count as free, any other
  error ends the loop.
\<close>

definition idem_view :: "('n, idem_record) nvs_ops \<Rightarrow> 'n \<Rightarrow> nat \<Rightarrow> esp_err + idem_record option" where
  "idem_view ops n slot =
     (case read_slot ops n slot of
        Inr r \<Rightarrow> Inr (Some r)
      | Inl e \<Rightarrow> if e = ESP_ERR_NVS_NOT_FOUND \<or> e = ESP_ERR_INVALID_VERSION then Inr None else Inl e)"

definition lock_store :: "bool \<Rightarrow> 'n idem_store \<Rightarrow> esp_err" where
  "lock_store taken st =
     (if \<not> is_initialized st \<or> \<not> is_mutex st then ESP_ERR_INVALID_STATE
      else if taken then ESP_OK else ESP_ERR_TIMEOUT)"

definition hash_key :: "(u8 list \<Rightarrow> esp_err + u8 list) \<Rightarrow> string \<Rightarrow> esp_err + u8 list" where
  "hash_key sha256 key = sha256 (map byte_of key)"

section \<open>Operations\<close>

definition gateway_idempotency_init ::
    "bool \<Rightarrow> esp_err \<times> 'n \<Rightarrow> 'n idem_store \<Rightarrow> esp_err \<times> 'n idem_store" where
  "gateway_idempotency_init mutex_created opened st =
     (if is_initialized st then (ESP_OK, st)
      else if \<not> mutex_created then (ESP_ERR_NO_MEM, st\<lparr>is_mutex := False\<rparr>)
      else if fst opened = ESP_OK
      then (ESP_OK, st\<lparr>is_mutex := True, is_initialized := True, is_nvs := snd opened\<rparr>)
      else (fst opened, st\<lparr>is_mutex := True\<rparr>))"

text \<open>
  The bytes that are hashed for a request: recipient and text, each with a terminating 0, and the
  flag. \<open>malloc_ok\<close> is whether the buffer could be allocated.
\<close>

definition fingerprint_bytes :: "string \<Rightarrow> string \<Rightarrow> bool \<Rightarrow> u8 list" where
  "fingerprint_bytes recipient body delivery_report =
     map byte_of recipient @ [0] @ map byte_of body @ [0] @ [if delivery_report then 1 else 0]"

definition gateway_idempotency_sms_fingerprint ::
    "(u8 list \<Rightarrow> esp_err + u8 list) \<Rightarrow> bool \<Rightarrow> string option \<Rightarrow> string option \<Rightarrow> bool \<Rightarrow> esp_err + u8 list" where
  "gateway_idempotency_sms_fingerprint sha256 malloc_ok recipient body delivery_report =
     (case (recipient, body) of
        (Some a, Some b) \<Rightarrow>
          if int (length a) > int SIZE_MAX - int (length b) - 3 then Inl ESP_ERR_INVALID_SIZE
          else if \<not> malloc_ok then Inl ESP_ERR_NO_MEM
          else sha256 (fingerprint_bytes a b delivery_report)
      | _ \<Rightarrow> Inl ESP_ERR_INVALID_ARG)"

text \<open>What a record with the key says about the request.\<close>

definition verdict :: "u8 list \<Rightarrow> idem_record \<Rightarrow> gateway_idempotency_result" where
  "verdict request_hash r =
     (if equal32 (ir_request_hash r) request_hash then GATEWAY_IDEMPOTENCY_REPLAY
      else GATEWAY_IDEMPOTENCY_CONFLICT)"

text \<open>The error code and, when they were written, the result and the message identifier.\<close>

definition gateway_idempotency_lookup ::
    "('n, idem_record) nvs_ops \<Rightarrow> (u8 list \<Rightarrow> esp_err + u8 list) \<Rightarrow> bool \<Rightarrow> string \<Rightarrow> u8 list \<Rightarrow>
     'n idem_store \<Rightarrow> esp_err \<times> (gateway_idempotency_result \<times> u32) option" where
  "gateway_idempotency_lookup ops sha256 taken key request_hash st =
     (if lock_store taken st \<noteq> ESP_OK then (lock_store taken st, None)
      else (case hash_key sha256 key of
              Inl e \<Rightarrow> (e, None)
            | Inr key_hash \<Rightarrow>
                (case scan_until (idem_view ops (is_nvs st))
                        (\<lambda>x. case x of None \<Rightarrow> False | Some r \<Rightarrow> equal32 (ir_key_hash r) key_hash) idem_slots of
                   Inl e \<Rightarrow> (e, Some (GATEWAY_IDEMPOTENCY_MISS, 0))
                 | Inr (Some (_, Some r)) \<Rightarrow> (ESP_OK, Some (verdict request_hash r, ir_message_id r))
                 | Inr _ \<Rightarrow> (ESP_OK, Some (GATEWAY_IDEMPOTENCY_MISS, 0)))))"

text \<open>The variables of the claim loop before it ends or meets the key.\<close>

record claim_vars =
  cl_empty_slot :: "nat option"
  cl_oldest_slot :: "nat option"
  cl_oldest_sequence :: u32
  cl_max_sequence :: u32

definition claim_step :: "nat \<Rightarrow> idem_record option \<Rightarrow> claim_vars \<Rightarrow> claim_vars" where
  "claim_step i x v =
     (case x of
        None \<Rightarrow> if cl_empty_slot v = None then v\<lparr>cl_empty_slot := Some i\<rparr> else v
      | Some r \<Rightarrow>
          let v = (if ir_sequence r > cl_max_sequence v then v\<lparr>cl_max_sequence := ir_sequence r\<rparr> else v)
          in if ir_message_id r \<noteq> 0 \<and> ir_sequence r < cl_oldest_sequence v
             then v\<lparr>cl_oldest_sequence := ir_sequence r, cl_oldest_slot := Some i\<rparr> else v)"

fun claim_loop ::
    "(nat \<Rightarrow> esp_err + idem_record option) \<Rightarrow> u8 list \<Rightarrow> nat list \<Rightarrow> claim_vars \<Rightarrow>
     esp_err + (idem_record option \<times> claim_vars)" where
  "claim_loop view key_hash [] v = Inr (None, v)"
| "claim_loop view key_hash (i # is) v =
     (case view i of
        Inl e \<Rightarrow> Inl e
      | Inr x \<Rightarrow>
          (case x of
             Some r \<Rightarrow> if equal32 (ir_key_hash r) key_hash then Inr (Some r, claim_step i x v)
                       else claim_loop view key_hash is (claim_step i x v)
           | None \<Rightarrow> claim_loop view key_hash is (claim_step i x v)))"

definition reservation :: "u8 list \<Rightarrow> u8 list \<Rightarrow> u32 \<Rightarrow> idem_record" where
  "reservation key_hash request_hash max_sequence =
     \<lparr>ir_magic = IDEM_MAGIC, ir_version = IDEM_VERSION, ir_reserved = 0,
      ir_sequence = (if max_sequence = UINT32_MAX then 1 else max_sequence + 1), ir_message_id = 0,
      ir_key_hash = key_hash, ir_request_hash = request_hash\<rparr>"

definition gateway_idempotency_claim ::
    "('n, idem_record) nvs_ops \<Rightarrow> (u8 list \<Rightarrow> esp_err + u8 list) \<Rightarrow> bool \<Rightarrow> string \<Rightarrow> u8 list \<Rightarrow>
     'n idem_store \<Rightarrow> esp_err \<times> (gateway_idempotency_result \<times> u32) option \<times> 'n idem_store" where
  "gateway_idempotency_claim ops sha256 taken key request_hash st =
     (if lock_store taken st \<noteq> ESP_OK then (lock_store taken st, None, st)
      else (case hash_key sha256 key of
              Inl e \<Rightarrow> (e, None, st)
            | Inr key_hash \<Rightarrow>
                (case claim_loop (idem_view ops (is_nvs st)) key_hash idem_slots
                        \<lparr>cl_empty_slot = None, cl_oldest_slot = None, cl_oldest_sequence = UINT32_MAX,
                         cl_max_sequence = 0\<rparr> of
                   Inl e \<Rightarrow> (e, Some (GATEWAY_IDEMPOTENCY_MISS, 0), st)
                 | Inr (Some r, _) \<Rightarrow> (ESP_OK, Some (verdict request_hash r, ir_message_id r), st)
                 | Inr (None, v) \<Rightarrow>
                     (case (case cl_empty_slot v of Some i \<Rightarrow> Some i | None \<Rightarrow> cl_oldest_slot v) of
                        None \<Rightarrow> (ESP_ERR_NO_MEM, Some (GATEWAY_IDEMPOTENCY_MISS, 0), st)
                      | Some chosen \<Rightarrow>
                          (case idem_write_slot ops chosen
                                  (reservation key_hash request_hash (cl_max_sequence v)) (is_nvs st) of
                             (e, n1) \<Rightarrow> (e, Some (GATEWAY_IDEMPOTENCY_MISS, 0), st\<lparr>is_nvs := n1\<rparr>))))))"

text \<open>The record of a key, for the operations that change it.\<close>

definition with_key ::
    "('n, idem_record) nvs_ops \<Rightarrow> (u8 list \<Rightarrow> esp_err + u8 list) \<Rightarrow> bool \<Rightarrow> string \<Rightarrow>
     (nat \<Rightarrow> idem_record \<Rightarrow> 'n \<Rightarrow> esp_err \<times> 'n) \<Rightarrow> 'n idem_store \<Rightarrow> esp_err \<times> 'n idem_store" where
  "with_key ops sha256 taken key act st =
     (if lock_store taken st \<noteq> ESP_OK then (lock_store taken st, st)
      else (case hash_key sha256 key of
              Inl e \<Rightarrow> (e, st)
            | Inr key_hash \<Rightarrow>
                (case scan_until (idem_view ops (is_nvs st))
                        (\<lambda>x. case x of None \<Rightarrow> False | Some r \<Rightarrow> equal32 (ir_key_hash r) key_hash) idem_slots of
                   Inl e \<Rightarrow> (e, st)
                 | Inr (Some (i, Some r)) \<Rightarrow>
                     (case act i r (is_nvs st) of (e, n1) \<Rightarrow> (e, st\<lparr>is_nvs := n1\<rparr>))
                 | Inr _ \<Rightarrow> (ESP_ERR_NOT_FOUND, st))))"

definition gateway_idempotency_finalize ::
    "('n, idem_record) nvs_ops \<Rightarrow> (u8 list \<Rightarrow> esp_err + u8 list) \<Rightarrow> bool \<Rightarrow> string \<Rightarrow> u8 list \<Rightarrow> u32 \<Rightarrow>
     'n idem_store \<Rightarrow> esp_err \<times> 'n idem_store" where
  "gateway_idempotency_finalize ops sha256 taken key request_hash message_id st =
     (if message_id = 0 then (ESP_ERR_INVALID_ARG, st)
      else with_key ops sha256 taken key (\<lambda>i r n.
        if \<not> equal32 (ir_request_hash r) request_hash then (ESP_ERR_INVALID_STATE, n)
        else idem_write_slot ops i (r\<lparr>ir_message_id := message_id\<rparr>) n) st)"

definition idem_erase :: "('n, idem_record) nvs_ops \<Rightarrow> nat \<Rightarrow> 'n \<Rightarrow> esp_err \<times> 'n" where
  "idem_erase ops i n =
     (case nvs_erase_key ops (idem_slot_key i) n of
        (e, n1) \<Rightarrow> if e = ESP_OK then nvs_commit ops n1 else (e, n1))"

definition gateway_idempotency_release_pending ::
    "('n, idem_record) nvs_ops \<Rightarrow> (u8 list \<Rightarrow> esp_err + u8 list) \<Rightarrow> bool \<Rightarrow> string \<Rightarrow> u8 list \<Rightarrow>
     'n idem_store \<Rightarrow> esp_err \<times> 'n idem_store" where
  "gateway_idempotency_release_pending ops sha256 taken key request_hash st =
     with_key ops sha256 taken key (\<lambda>i r n.
       if \<not> equal32 (ir_request_hash r) request_hash \<or> ir_message_id r \<noteq> 0
       then (ESP_ERR_INVALID_STATE, n) else idem_erase ops i n) st"

text \<open>\<open>gateway_idempotency_remember\<close> takes the lock twice, in its claim and in its finalize.\<close>

definition gateway_idempotency_remember ::
    "('n, idem_record) nvs_ops \<Rightarrow> (u8 list \<Rightarrow> esp_err + u8 list) \<Rightarrow> bool \<Rightarrow> bool \<Rightarrow> string \<Rightarrow> u8 list \<Rightarrow>
     u32 \<Rightarrow> 'n idem_store \<Rightarrow> esp_err \<times> 'n idem_store" where
  "gateway_idempotency_remember ops sha256 taken1 taken2 key request_hash message_id st =
     (case gateway_idempotency_claim ops sha256 taken1 key request_hash st of
        (e, out, st1) \<Rightarrow>
          if e \<noteq> ESP_OK then (e, st1)
          else (case (case out of None \<Rightarrow> (GATEWAY_IDEMPOTENCY_MISS, 0) | Some x \<Rightarrow> x) of
                  (result, existing) \<Rightarrow>
                    if result = GATEWAY_IDEMPOTENCY_CONFLICT then (ESP_ERR_INVALID_STATE, st1)
                    else if result = GATEWAY_IDEMPOTENCY_REPLAY \<and> existing \<noteq> 0 \<and> existing \<noteq> message_id
                    then (ESP_ERR_INVALID_STATE, st1)
                    else gateway_idempotency_finalize ops sha256 taken2 key request_hash message_id st1))"

definition gateway_idempotency_get_diagnostics ::
    "('n, idem_record) nvs_ops \<Rightarrow> bool \<Rightarrow> 'n idem_store \<Rightarrow> esp_err \<times> gateway_idempotency_diagnostics option" where
  "gateway_idempotency_get_diagnostics ops taken st =
     (if lock_store taken st \<noteq> ESP_OK then (lock_store taken st, None)
      else (case scan_all (idem_view ops (is_nvs st))
                   (\<lambda>_ x d. case x of
                      None \<Rightarrow> d\<lparr>id_free_records := id_free_records d + 1\<rparr>
                    | Some r \<Rightarrow> if ir_message_id r = 0 then d\<lparr>id_pending_records := id_pending_records d + 1\<rparr>
                                else d\<lparr>id_finalized_records := id_finalized_records d + 1\<rparr>)
                   idem_slots \<lparr>id_pending_records = 0, id_finalized_records = 0, id_free_records = 0\<rparr> of
              Inl e \<Rightarrow> (e, None)
            | Inr d \<Rightarrow> (ESP_OK, Some d)))"

text \<open>The loop that erases the pending records: the error code, the count and the partition.\<close>

fun clear_loop ::
    "('n, idem_record) nvs_ops \<Rightarrow> nat list \<Rightarrow> u32 \<Rightarrow> 'n \<Rightarrow> esp_err \<times> u32 \<times> 'n" where
  "clear_loop ops [] cleared n = (ESP_OK, cleared, n)"
| "clear_loop ops (i # is) cleared n =
     (case idem_view ops n i of
        Inl e \<Rightarrow> (e, cleared, n)
      | Inr None \<Rightarrow> clear_loop ops is cleared n
      | Inr (Some r) \<Rightarrow>
          if ir_message_id r = 0
          then (case nvs_erase_key ops (idem_slot_key i) n of
                  (e, n1) \<Rightarrow> if e \<noteq> ESP_OK then (e, cleared, n1) else clear_loop ops is (cleared + 1) n1)
          else clear_loop ops is cleared n)"

definition gateway_idempotency_clear_pending ::
    "('n, idem_record) nvs_ops \<Rightarrow> bool \<Rightarrow> 'n idem_store \<Rightarrow> esp_err \<times> u32 \<times> 'n idem_store" where
  "gateway_idempotency_clear_pending ops taken st =
     (if lock_store taken st \<noteq> ESP_OK then (lock_store taken st, 0, st)
      else (case clear_loop ops idem_slots 0 (is_nvs st) of
              (e, cleared, n1) \<Rightarrow>
                if e = ESP_OK \<and> cleared > 0
                then (case nvs_commit ops n1 of (e, n2) \<Rightarrow> (e, cleared, st\<lparr>is_nvs := n2\<rparr>))
                else (e, cleared, st\<lparr>is_nvs := n1\<rparr>)))"

end
