(* ===== verification/Idempotency_Runs.thy ===== *)
theory Idempotency_Runs
  imports Idempotency Sms_Store_Runs
begin

text \<open>
  The idempotency records over sequences of operations: a key that was claimed for a request keeps
  its reservation whatever other clients do, so the request is not executed twice.
\<close>

section \<open>Hashes and fingerprints\<close>

lemma or_eq_zero: "(a :: 'a :: len word) OR b = 0 \<longleftrightarrow> a = 0 \<and> b = 0"
  by (metis or_eq_0_iff)

lemma fold_or_zero:
  "(fold (\<lambda>i diff. diff OR (f i :: u8)) is d = 0) \<longleftrightarrow> d = 0 \<and> (\<forall>i \<in> set is. f i = 0)"
  by (induction "is" arbitrary: d) (auto simp: or_eq_zero)

lemma xor_eq_zero: "(a :: 'a :: len word) XOR b = 0 \<longleftrightarrow> a = b"
proof
  assume "a XOR b = 0"
  then have "bit a n = bit b n" for n using bit_xor_iff [of a b n] by simp
  then show "a = b" by (intro bit_word_eqI) simp
qed simp

lemma equal32_iff:
  assumes "length a = GATEWAY_SHA256_LEN" and "length b = GATEWAY_SHA256_LEN"
  shows "equal32 a b \<longleftrightarrow> a = b"
proof -
  have "equal32 a b \<longleftrightarrow> (\<forall>i < GATEWAY_SHA256_LEN. a ! i = b ! i)"
    by (simp add: equal32_def fold_or_zero xor_eq_zero Ball_def)
  then show ?thesis using assms by (simp add: list_eq_iff_nth_eq)
qed

lemma byte_of_zero: "byte_of c = 0 \<longleftrightarrow> c = NUL"
proof -
  have "byte_of NUL = 0" by code_simp
  then show ?thesis by (metis byte_of_eq_iff)
qed

lemma map_byte_of_eq: "map byte_of a = map byte_of b \<longleftrightarrow> a = b"
  by (simp add: inj_map_eq_map inj_def)

lemma terminated_inj:
  assumes "cstring a" "cstring a'"
  shows "map byte_of a @ 0 # x = map byte_of a' @ 0 # x' \<longleftrightarrow> a = a' \<and> x = x'"
  using assms
proof (induction a arbitrary: a')
  case Nil
  then show ?case by (cases a') (auto simp: cstring_def byte_of_zero)
next
  case (Cons c a)
  then show ?case by (cases a') (auto simp: cstring_def byte_of_zero eq_commute [of "0 :: u8"])
qed

section \<open>Slots\<close>

lemma idem_slot_key_inj [simp]: "idem_slot_key a = idem_slot_key b \<longleftrightarrow> a = b"
  by (simp add: idem_slot_key_def)

definition valid_record :: "idem_record \<Rightarrow> bool" where
  "valid_record r \<longleftrightarrow> ir_magic r = IDEM_MAGIC \<and> ir_version r = IDEM_VERSION"

lemma idem_view_cong:
  "nvs_get_blob ops n' (idem_slot_key i) = nvs_get_blob ops n (idem_slot_key i) \<Longrightarrow> idem_view ops n' i = idem_view ops n i"
  by (simp add: idem_view_def read_slot_def)

lemma idem_view_stored:
  "nvs_get_blob ops n (idem_slot_key i) = Inr (sizeof_idem, r) \<Longrightarrow> valid_record r \<Longrightarrow> idem_view ops n i = Inr (Some r)"
  by (simp add: idem_view_def read_slot_def valid_record_def)

lemma idem_view_missing:
  "nvs_get_blob ops n (idem_slot_key i) = Inl ESP_ERR_NVS_NOT_FOUND \<Longrightarrow> idem_view ops n i = Inr None"
  by (simp add: idem_view_def read_slot_def)

lemma idem_view_valid: "idem_view ops n i = Inr (Some r) \<Longrightarrow> valid_record r"
  by (auto simp: idem_view_def read_slot_def valid_record_def split: sum.splits if_splits prod.splits)

locale idem_partition = nvs_partition ops for ops :: "('n, idem_record) nvs_ops"
begin

lemma idem_write:
  assumes "idem_write_slot ops i r n = (e, n')" and "valid_record r"
  shows "idem_view ops n' i = idem_view ops n i \<or> idem_view ops n' i = Inr (Some r)"
    and "e = ESP_OK \<Longrightarrow> idem_view ops n' i = Inr (Some r)"
    and "j \<noteq> i \<Longrightarrow> idem_view ops n' j = idem_view ops n j"
proof -
  obtain e1 n1 where w: "nvs_set_blob ops (idem_slot_key i) (sizeof_idem, r) n = (e1, n1)" by fastforce
  have g: "nvs_get_blob ops n' k = nvs_get_blob ops n1 k" for k
    using assms(1) w by (auto simp: idem_write_slot_def commit_blob split: if_splits)
  show "idem_view ops n' i = idem_view ops n i \<or> idem_view ops n' i = Inr (Some r)"
    using set_blob_failed [OF w] g idem_view_cong idem_view_stored [OF _ assms(2)] by metis
  show "idem_view ops n' j = idem_view ops n j" if "j \<noteq> i"
    using set_blob_other [OF w, of "idem_slot_key j"] g that by (intro idem_view_cong) simp
  assume e: "e = ESP_OK"
  with assms(1) w have "e1 = ESP_OK" by (auto simp: idem_write_slot_def split: if_splits)
  with w set_blob_get g show "idem_view ops n' i = Inr (Some r)" using idem_view_stored [OF _ assms(2)] by metis
qed

lemma idem_erased:
  assumes "idem_erase ops i n = (e, n')"
  shows "idem_view ops n' i = idem_view ops n i \<or> idem_view ops n' i = Inr None"
    and "j \<noteq> i \<Longrightarrow> idem_view ops n' j = idem_view ops n j"
proof -
  obtain e1 n1 where w: "nvs_erase_key ops (idem_slot_key i) n = (e1, n1)" by fastforce
  have g: "nvs_get_blob ops n' k = nvs_get_blob ops n1 k" for k
    using assms(1) w by (auto simp: idem_erase_def commit_blob split: if_splits)
  show "idem_view ops n' i = idem_view ops n i \<or> idem_view ops n' i = Inr None"
    using erase_failed [OF w] g idem_view_cong idem_view_missing by metis
  show "idem_view ops n' j = idem_view ops n j" if "j \<noteq> i"
    using erase_other [OF w, of "idem_slot_key j"] g that by (intro idem_view_cong) simp
qed

end

section \<open>Finding a key\<close>

definition has_key :: "u8 list \<Rightarrow> idem_record option \<Rightarrow> bool" where
  "has_key key_hash x = (case x of None \<Rightarrow> False | Some r \<Rightarrow> equal32 (ir_key_hash r) key_hash)"

lemma has_key_simps [simp]:
  "\<not> has_key kh None" "has_key kh (Some r) = equal32 (ir_key_hash r) kh"
  by (simp_all add: has_key_def)

text \<open>
  The invariant: no two slots hold the same key, and the hashes are 32 bytes long.
\<close>

definition idem_inv :: "('n, idem_record) nvs_ops \<Rightarrow> 'n \<Rightarrow> bool" where
  "idem_inv ops n \<longleftrightarrow>
     (\<forall>i \<in> set idem_slots. \<forall>r. idem_view ops n i = Inr (Some r) \<longrightarrow>
        length (ir_key_hash r) = GATEWAY_SHA256_LEN \<and> length (ir_request_hash r) = GATEWAY_SHA256_LEN \<and>
        (\<forall>j \<in> set idem_slots. \<forall>r'. idem_view ops n j = Inr (Some r') \<longrightarrow> ir_key_hash r' = ir_key_hash r \<longrightarrow> j = i))"

lemma claim_loop_None:
  "claim_loop view kh is v = Inr (None, v') \<Longrightarrow>
     (\<forall>i \<in> set is. \<exists>x. view i = Inr x \<and> \<not> has_key kh x) \<and> v' = fold (\<lambda>i. claim_step i (projr (view i))) is v"
  by (induction "is" arbitrary: v) (auto split: sum.splits option.splits if_splits)

lemma claim_loop_Some:
  "claim_loop view kh is v = Inr (Some r, v') \<Longrightarrow> \<exists>i \<in> set is. view i = Inr (Some r) \<and> has_key kh (Some r)"
  by (induction "is" arbitrary: v) (auto split: sum.splits option.splits if_splits)

lemma claim_loop_Inl: "claim_loop view kh is v = Inl e \<Longrightarrow> \<exists>i. view i = Inl e"
  by (induction "is" arbitrary: v) (auto split: sum.splits option.splits if_splits)

text \<open>
  A slot chosen for a new reservation is free or holds a finalized record.
\<close>

definition replaceable :: "idem_record option \<Rightarrow> bool" where
  "replaceable x = (case x of None \<Rightarrow> True | Some r \<Rightarrow> ir_message_id r \<noteq> 0)"

definition choices_ok :: "(nat \<Rightarrow> esp_err + idem_record option) \<Rightarrow> nat set \<Rightarrow> claim_vars \<Rightarrow> bool" where
  "choices_ok view I v \<longleftrightarrow>
     (\<forall>i. cl_empty_slot v = Some i \<longrightarrow> i \<in> I \<and> replaceable (projr (view i))) \<and>
     (\<forall>i. cl_oldest_slot v = Some i \<longrightarrow> i \<in> I \<and> replaceable (projr (view i)))"

lemma claim_step_choices:
  "choices_ok view I v \<Longrightarrow> i \<in> I \<Longrightarrow> choices_ok view I (claim_step i (projr (view i)) v)"
  by (auto simp: choices_ok_def claim_step_def replaceable_def Let_def split: option.splits)

lemma claim_fold_choices:
  "choices_ok view I v \<Longrightarrow> set is \<subseteq> I \<Longrightarrow> choices_ok view I (fold (\<lambda>i. claim_step i (projr (view i))) is v)"
  by (induction "is" arbitrary: v) (auto intro: claim_step_choices)

context idem_partition
begin

lemma idem_view_error: "idem_view ops n i \<noteq> Inl ESP_OK"
  using get_blob_error by (auto simp: idem_view_def read_slot_def split: sum.splits if_splits)

text \<open>
  What a claim does to the slots: nothing, or it writes a reservation for a key that no slot held
  into a slot that was free or finalized.
\<close>

lemma claim_effect:
  assumes "gateway_idempotency_claim ops sha256 taken key req st = (e, out, st')"
  obtains "st' = st" "out \<noteq> Some (GATEWAY_IDEMPOTENCY_MISS, 0) \<or> e \<noteq> ESP_OK"
  | key_hash i q n' where "sha256 (map byte_of key) = Inr key_hash" "i \<in> set idem_slots"
      "\<And>j. j \<in> set idem_slots \<Longrightarrow> \<exists>x. idem_view ops (is_nvs st) j = Inr x \<and> \<not> has_key key_hash x"
      "replaceable (projr (idem_view ops (is_nvs st) i))"
      "idem_write_slot ops i (reservation key_hash req q) (is_nvs st) = (e, n')"
      "st' = st\<lparr>is_nvs := n'\<rparr>" "out = Some (GATEWAY_IDEMPOTENCY_MISS, 0)"
proof -
  let ?v0 = "\<lparr>cl_empty_slot = None, cl_oldest_slot = None, cl_oldest_sequence = UINT32_MAX, cl_max_sequence = 0\<rparr>"
  let ?view = "idem_view ops (is_nvs st)"
  show ?thesis
  proof (cases "lock_store taken st = ESP_OK")
    case False
    then show ?thesis using assms that(1) by (auto simp: gateway_idempotency_claim_def)
  next
    case lock: True
    show ?thesis
    proof (cases "hash_key sha256 key")
      case (Inl e')
      then show ?thesis using assms that(1) lock by (auto simp: gateway_idempotency_claim_def)
    next
      case hash: (Inr kh)
      show ?thesis
      proof (cases "claim_loop ?view kh idem_slots ?v0")
        case (Inl e')
        then have "e' \<noteq> ESP_OK" using claim_loop_Inl idem_view_error by metis
        then show ?thesis using Inl assms that(1) lock hash by (auto simp: gateway_idempotency_claim_def)
      next
        case loop: (Inr x)
        show ?thesis
        proof (cases "fst x")
          case (Some r)
          then show ?thesis
            using assms that(1) lock hash loop by (cases x) (auto simp: gateway_idempotency_claim_def verdict_def)
        next
          case None
          then obtain v where x: "x = (None, v)" by (cases x) auto
          note n = claim_loop_None [OF loop [unfolded x]]
          have "choices_ok ?view (set idem_slots) v"
            using n claim_fold_choices [of ?view "set idem_slots" ?v0 idem_slots] by (simp add: choices_ok_def)
          note ch = this [unfolded choices_ok_def]
          let ?c = "case cl_empty_slot v of Some i \<Rightarrow> Some i | None \<Rightarrow> cl_oldest_slot v"
          show ?thesis
          proof (cases ?c)
            case None
            then show ?thesis using assms that(1) lock hash loop x by (auto simp: gateway_idempotency_claim_def)
          next
            case (Some i)
            obtain e1 n1 where w: "idem_write_slot ops i (reservation kh req (cl_max_sequence v)) (is_nvs st) = (e1, n1)" by fastforce
            have "i \<in> set idem_slots" "replaceable (projr (?view i))" using Some ch by (auto split: option.splits)
            moreover have "e = e1" "out = Some (GATEWAY_IDEMPOTENCY_MISS, 0)" "st' = st\<lparr>is_nvs := n1\<rparr>"
              using assms lock hash loop x Some w by (auto simp: gateway_idempotency_claim_def)
            ultimately show ?thesis using that(2) [of kh i "cl_max_sequence v" n1] w n hash by (simp add: hash_key_def)
          qed
        qed
      qed
    qed
  qed
qed

end

section \<open>Runs\<close>

text \<open>
  The operations of all clients that do not end the reservation of the key with hash \<open>kh\<close>: claims
  of any key, finalizations and releases of other keys, each with any outcome of the lock and of
  the partition. Lookups and diagnostics change nothing. A request hash is the result of
  \<open>gateway_idempotency_sms_fingerprint\<close>, 32 bytes.
\<close>

inductive idem_run ::
    "('n, idem_record) nvs_ops \<Rightarrow> (u8 list \<Rightarrow> esp_err + u8 list) \<Rightarrow> u8 list \<Rightarrow> 'n idem_store \<Rightarrow> 'n idem_store \<Rightarrow> bool"
  for ops :: "('n, idem_record) nvs_ops" and sha256 :: "u8 list \<Rightarrow> esp_err + u8 list" and kh :: "u8 list"
    and st :: "'n idem_store" where
  idem_start: "idem_run ops sha256 kh st st"
| idem_claim: "idem_run ops sha256 kh st st1 \<Longrightarrow> length req = GATEWAY_SHA256_LEN \<Longrightarrow>
    gateway_idempotency_claim ops sha256 taken key req st1 = (e, out, st2) \<Longrightarrow> idem_run ops sha256 kh st st2"
| idem_finalize: "idem_run ops sha256 kh st st1 \<Longrightarrow> sha256 (map byte_of key) \<noteq> Inr kh \<Longrightarrow>
    gateway_idempotency_finalize ops sha256 taken key req mid st1 = (e, st2) \<Longrightarrow> idem_run ops sha256 kh st st2"
| idem_release: "idem_run ops sha256 kh st st1 \<Longrightarrow> sha256 (map byte_of key) \<noteq> Inr kh \<Longrightarrow>
    gateway_idempotency_release_pending ops sha256 taken key req st1 = (e, st2) \<Longrightarrow> idem_run ops sha256 kh st st2"

text \<open>What is assumed of SHA-256: a digest is 32 bytes long, and a failure is reported as one.\<close>

definition digest :: "(u8 list \<Rightarrow> esp_err + u8 list) \<Rightarrow> bool" where
  "digest sha256 \<longleftrightarrow> (\<forall>x. sha256 x \<noteq> Inl ESP_OK \<and> (\<forall>h. sha256 x = Inr h \<longrightarrow> length h = GATEWAY_SHA256_LEN))"

lemma digestD: "digest sha256 \<Longrightarrow> sha256 x = Inr h \<Longrightarrow> length h = GATEWAY_SHA256_LEN"
  by (simp add: digest_def)

lemma scan_until_Inl_view: "scan_until view P ss = Inl e \<Longrightarrow> \<exists>i. view i = Inl e"
  by (induction ss) (auto split: sum.splits if_splits)

lemma idem_invD:
  assumes "idem_inv ops n" "i \<in> set idem_slots" "idem_view ops n i = Inr (Some r)"
  shows "length (ir_key_hash r) = GATEWAY_SHA256_LEN" "length (ir_request_hash r) = GATEWAY_SHA256_LEN"
    "j \<in> set idem_slots \<Longrightarrow> idem_view ops n j = Inr (Some r') \<Longrightarrow> ir_key_hash r' = ir_key_hash r \<Longrightarrow> j = i"
  using assms by (auto simp: idem_inv_def)

lemma idem_inv_replace:
  assumes "idem_inv ops n" and "\<And>j. j \<noteq> i \<Longrightarrow> idem_view ops n' j = idem_view ops n j"
    and "idem_view ops n' i = idem_view ops n i \<or> idem_view ops n' i = Inr None \<or> idem_view ops n' i = Inr (Some r)"
    and "length (ir_key_hash r) = GATEWAY_SHA256_LEN" "length (ir_request_hash r) = GATEWAY_SHA256_LEN"
    and "\<And>j r'. j \<in> set idem_slots \<Longrightarrow> j \<noteq> i \<Longrightarrow> idem_view ops n j = Inr (Some r') \<Longrightarrow> ir_key_hash r' \<noteq> ir_key_hash r"
  shows "idem_inv ops n'"
  unfolding idem_inv_def
proof (intro ballI allI impI conjI)
  fix j r1 assume j: "j \<in> set idem_slots" "idem_view ops n' j = Inr (Some r1)"
  then show "length (ir_key_hash r1) = GATEWAY_SHA256_LEN" "length (ir_request_hash r1) = GATEWAY_SHA256_LEN"
    using assms(2-5) idem_invD(1,2) [OF assms(1)] by (metis old.sum.inject(2) option.distinct(1) option.inject)+
  fix k r2 assume k: "k \<in> set idem_slots" "idem_view ops n' k = Inr (Some r2)" "ir_key_hash r2 = ir_key_hash r1"
  show "k = j"
    using j k assms(2,3,6) idem_invD(3) [OF assms(1)] by (metis old.sum.inject(2) option.distinct(1) option.inject)
qed

text \<open>The slot \<open>i\<close> holds the pending reservation \<open>r\<close>, in a store that satisfies the invariant.\<close>

definition reserved :: "('n, idem_record) nvs_ops \<Rightarrow> nat \<Rightarrow> idem_record \<Rightarrow> 'n idem_store \<Rightarrow> bool" where
  "reserved ops i r st \<longleftrightarrow> idem_inv ops (is_nvs st) \<and> i \<in> set idem_slots \<and> ir_message_id r = 0 \<and>
     idem_view ops (is_nvs st) i = Inr (Some r)"

context idem_partition
begin

lemma scan_error: "scan_until (idem_view ops n) P ss \<noteq> Inl ESP_OK"
  using scan_until_Inl_view idem_view_error by metis

lemma with_key_effect:
  assumes "with_key ops sha256 taken key act st = (e, st')" and "digest sha256"
  obtains "st' = st" "e \<noteq> ESP_OK"
  | kh i r n' where "sha256 (map byte_of key) = Inr kh" "i \<in> set idem_slots" "idem_view ops (is_nvs st) i = Inr (Some r)"
      "has_key kh (Some r)" "act i r (is_nvs st) = (e, n')" "st' = st\<lparr>is_nvs := n'\<rparr>"
  using assms scan_error
  by (fastforce simp: with_key_def hash_key_def has_key_def digest_def split: if_splits sum.splits option.splits prod.splits
      dest: scan_until_Some)

lemma reservation_valid: "valid_record (reservation kh req q)"
  by (simp add: valid_record_def reservation_def)

lemma claim_inv:
  assumes "idem_inv ops (is_nvs st)" and "length req = GATEWAY_SHA256_LEN"
    and hash: "digest sha256"
    and c: "gateway_idempotency_claim ops sha256 taken key req st = (e, out, st')"
  shows "idem_inv ops (is_nvs st') \<and> (reserved ops i r st \<longrightarrow> reserved ops i r st')"
proof (rule claim_effect [OF c])
  fix kh j q n'
  assume h: "sha256 (map byte_of key) = Inr kh" "j \<in> set idem_slots"
    "\<And>i. i \<in> set idem_slots \<Longrightarrow> \<exists>x. idem_view ops (is_nvs st) i = Inr x \<and> \<not> has_key kh x"
    "replaceable (projr (idem_view ops (is_nvs st) j))"
    "idem_write_slot ops j (reservation kh req q) (is_nvs st) = (e, n')" "st' = st\<lparr>is_nvs := n'\<rparr>"
  note w = idem_write [OF h(5) reservation_valid]
  have k: "ir_key_hash r' \<noteq> kh" if "i \<in> set idem_slots" "idem_view ops (is_nvs st) i = Inr (Some r')" for i r'
  proof -
    have "\<not> equal32 (ir_key_hash r') kh" using h(3) [OF that(1)] that(2) by auto
    then show ?thesis using equal32_iff idem_invD(1) [OF assms(1) that] digestD [OF hash h(1)] by metis
  qed
  have "idem_inv ops n'"
    by (rule idem_inv_replace [OF assms(1), where i = j and r = "reservation kh req q"])
      (use w(1,3) k assms(2) digestD [OF hash h(1)] in \<open>auto simp: reservation_def\<close>)
  moreover have "reserved ops i r st'" if "reserved ops i r st"
  proof -
    have "i \<noteq> j" using that h(4) by (auto simp: reserved_def replaceable_def)
    then show ?thesis using that calculation w(3) h(6) by (simp add: reserved_def)
  qed
  ultimately show ?thesis using h(6) by simp
qed (use assms(1) in auto)

lemma with_key_inv:
  assumes "idem_inv ops (is_nvs st)"
    and hash: "digest sha256"
    and c: "with_key ops sha256 taken key act st = (e, st')" and "sha256 (map byte_of key) \<noteq> Inr (ir_key_hash r)"
    and act: "\<And>j r' n e n' k. act j r' n = (e, n') \<Longrightarrow> idem_view ops n j = Inr (Some r') \<Longrightarrow>
      (k \<noteq> j \<longrightarrow> idem_view ops n' k = idem_view ops n k) \<and>
      (idem_view ops n' j = idem_view ops n j \<or> idem_view ops n' j = Inr None \<or>
       (\<exists>m. idem_view ops n' j = Inr (Some (r'\<lparr>ir_message_id := m\<rparr>))))"
  shows "idem_inv ops (is_nvs st') \<and> (reserved ops i r st \<longrightarrow> reserved ops i r st')"
proof (rule with_key_effect [OF c hash])
  fix kh j r' n'
  assume h: "sha256 (map byte_of key) = Inr kh" "j \<in> set idem_slots" "idem_view ops (is_nvs st) j = Inr (Some r')"
    "has_key kh (Some r')" "act j r' (is_nvs st) = (e, n')" "st' = st\<lparr>is_nvs := n'\<rparr>"
  note a = act [OF h(5,3)] and l = idem_invD [OF assms(1) h(2,3)]
  obtain m where m: "idem_view ops n' j = idem_view ops (is_nvs st) j \<or> idem_view ops n' j = Inr None \<or>
       idem_view ops n' j = Inr (Some (r'\<lparr>ir_message_id := m\<rparr>))" using a by blast
  have "idem_inv ops n'"
    by (rule idem_inv_replace [OF assms(1) _ m]) (use a l in auto)
  moreover have "ir_key_hash r' = kh" using h(4) equal32_iff [OF l(1) digestD [OF hash h(1)]] by simp
  then have "i \<noteq> j" if "reserved ops i r st" using that h(1,3) assms(4) by (auto simp: reserved_def)
  ultimately show ?thesis using h(6) a by (auto simp: reserved_def)
qed (use assms(1) in auto)

lemma finalize_inv:
  assumes "idem_inv ops (is_nvs st)"
    and "digest sha256"
    and c: "gateway_idempotency_finalize ops sha256 taken key req mid st = (e, st')" and "sha256 (map byte_of key) \<noteq> Inr (ir_key_hash r)"
  shows "idem_inv ops (is_nvs st') \<and> (reserved ops i r st \<longrightarrow> reserved ops i r st')"
proof (cases "mid = 0")
  case True
  then show ?thesis using assms(1) c by (simp add: gateway_idempotency_finalize_def)
next
  case False
  show ?thesis
  proof (rule with_key_inv [OF assms(1,2) _ assms(4)])
    show "with_key ops sha256 taken key (\<lambda>i r n. if \<not> equal32 (ir_request_hash r) req then (ESP_ERR_INVALID_STATE, n)
        else idem_write_slot ops i (r\<lparr>ir_message_id := mid\<rparr>) n) st = (e, st')"
      using c False by (simp add: gateway_idempotency_finalize_def)
  next
    fix j r' n e n' k
    assume "(if \<not> equal32 (ir_request_hash r') req then (ESP_ERR_INVALID_STATE, n)
        else idem_write_slot ops j (r'\<lparr>ir_message_id := mid\<rparr>) n) = (e, n')" "idem_view ops n j = Inr (Some r')"
    moreover from this(2) have "valid_record (r'\<lparr>ir_message_id := mid\<rparr>)"
      using idem_view_valid by (fastforce simp: valid_record_def)
    ultimately show "(k \<noteq> j \<longrightarrow> idem_view ops n' k = idem_view ops n k) \<and>
      (idem_view ops n' j = idem_view ops n j \<or> idem_view ops n' j = Inr None \<or>
       (\<exists>m. idem_view ops n' j = Inr (Some (r'\<lparr>ir_message_id := m\<rparr>))))"
      using idem_write [of j "r'\<lparr>ir_message_id := mid\<rparr>" n e n'] by (auto split: if_splits)
  qed
qed

lemma release_inv:
  assumes "idem_inv ops (is_nvs st)"
    and "digest sha256"
    and c: "gateway_idempotency_release_pending ops sha256 taken key req st = (e, st')" and "sha256 (map byte_of key) \<noteq> Inr (ir_key_hash r)"
  shows "idem_inv ops (is_nvs st') \<and> (reserved ops i r st \<longrightarrow> reserved ops i r st')"
proof (rule with_key_inv [OF assms(1,2) c [unfolded gateway_idempotency_release_pending_def] assms(4)])
  fix j n e n' k and r' :: idem_record
  assume "(if \<not> equal32 (ir_request_hash r') req \<or> ir_message_id r' \<noteq> 0 then (ESP_ERR_INVALID_STATE, n) else idem_erase ops j n) = (e, n')"
  then show "(k \<noteq> j \<longrightarrow> idem_view ops n' k = idem_view ops n k) \<and>
      (idem_view ops n' j = idem_view ops n j \<or> idem_view ops n' j = Inr None \<or>
       (\<exists>m. idem_view ops n' j = Inr (Some (r'\<lparr>ir_message_id := m\<rparr>))))"
    using idem_erased [of j n e n'] by (auto split: if_splits)
qed

lemma run_reserved:
  assumes "idem_run ops sha256 (ir_key_hash r) st st'"
    and "digest sha256" and "reserved ops i r st"
  shows "reserved ops i r st'"
  using assms
proof (induction rule: idem_run.induct)
  case idem_start
  then show ?case by simp
next
  case idem_claim
  then show ?case using claim_inv [where i = i and r = r] by (metis reserved_def)
next
  case idem_finalize
  then show ?case using finalize_inv [where i = i and r = r] by (metis reserved_def)
next
  case idem_release
  then show ?case using release_inv [where i = i and r = r] by (metis reserved_def)
qed

end

section \<open>Known keys\<close>


lemma verdict_iff:
  assumes "length (ir_request_hash r) = GATEWAY_SHA256_LEN" and "length req = GATEWAY_SHA256_LEN"
  shows "verdict req r = (if req = ir_request_hash r then GATEWAY_IDEMPOTENCY_REPLAY else GATEWAY_IDEMPOTENCY_CONFLICT)"
  using equal32_iff [OF assms] by (auto simp: verdict_def)

lemma same_key:
  assumes "idem_inv ops n" and "i \<in> set idem_slots" "idem_view ops n i = Inr (Some r)"
    and "j \<in> set idem_slots" "idem_view ops n j = Inr (Some r')" "has_key (ir_key_hash r) (Some r')"
  shows "r' = r"
proof -
  have "ir_key_hash r' = ir_key_hash r"
    using assms(6) equal32_iff idem_invD(1) [OF assms(1,2,3)] idem_invD(1) [OF assms(1,4,5)] by simp
  then show ?thesis using idem_invD(3) [OF assms(1,2,3,4,5)] assms(3,5) by simp
qed

lemma has_own_key: "idem_inv ops n \<Longrightarrow> i \<in> set idem_slots \<Longrightarrow> idem_view ops n i = Inr (Some r) \<Longrightarrow> has_key (ir_key_hash r) (Some r)"
  using idem_invD(1) equal32_iff by fastforce

context idem_partition
begin

lemma claim_known:
  assumes "idem_inv ops (is_nvs st)" and "i \<in> set idem_slots" and "idem_view ops (is_nvs st) i = Inr (Some r)"
    and "sha256 (map byte_of key) = Inr (ir_key_hash r)"
    and c: "gateway_idempotency_claim ops sha256 taken key req st = (ESP_OK, out, st')"
  shows "out = Some (verdict req r, ir_message_id r) \<and> st' = st"
proof -
  let ?v0 = "\<lparr>cl_empty_slot = None, cl_oldest_slot = None, cl_oldest_sequence = UINT32_MAX, cl_max_sequence = 0\<rparr>"
  let ?loop = "claim_loop (idem_view ops (is_nvs st)) (ir_key_hash r) idem_slots ?v0"
  have lock: "lock_store taken st = ESP_OK" using c by (auto simp: gateway_idempotency_claim_def split: if_splits)
  have "?loop \<noteq> Inl ESP_OK" using claim_loop_Inl idem_view_error by metis
  moreover have "?loop \<noteq> Inr (None, v)" for v
    using claim_loop_None [of "idem_view ops (is_nvs st)" "ir_key_hash r" idem_slots ?v0 v] assms(2,3)
      has_own_key [OF assms(1,2,3)] by (metis old.sum.inject(2))
  ultimately obtain r' v where l: "?loop = Inr (Some r', v)"
    using c lock assms(4) by (auto simp: gateway_idempotency_claim_def hash_key_def split: sum.splits option.splits prod.splits)
  from claim_loop_Some [OF this] same_key [OF assms(1,2,3)] have "r' = r" by blast
  then show ?thesis using c lock l assms(4) by (simp add: gateway_idempotency_claim_def hash_key_def)
qed

lemma scan_known:
  assumes "idem_inv ops n" and "i \<in> set idem_slots" and "idem_view ops n i = Inr (Some r)"
    and "scan_until (idem_view ops n) (has_key (ir_key_hash r)) idem_slots = Inr x"
  shows "\<exists>j. x = Some (j, Some r) \<and> j \<in> set idem_slots \<and> idem_view ops n j = Inr (Some r)"
proof (cases x)
  case None
  then show ?thesis using scan_until_None assms(2-4) has_own_key [OF assms(1-3)] by fastforce
next
  case (Some p)
  obtain j y where p: "p = (j, y)" by fastforce
  from scan_until_Some [OF assms(4) [unfolded Some p]]
  have j: "j \<in> set idem_slots" "idem_view ops n j = Inr y" "has_key (ir_key_hash r) y" by auto
  then obtain r' where "y = Some r'" by (cases y) auto
  with same_key [OF assms(1-3)] j Some p show ?thesis by blast
qed

lemma lookup_known:
  assumes "idem_inv ops (is_nvs st)" and "i \<in> set idem_slots" and "idem_view ops (is_nvs st) i = Inr (Some r)"
    and "sha256 (map byte_of key) = Inr (ir_key_hash r)"
    and c: "gateway_idempotency_lookup ops sha256 taken key req st = (ESP_OK, out)"
  shows "out = Some (verdict req r, ir_message_id r)"
proof -
  have lock: "lock_store taken st = ESP_OK" using c by (auto simp: gateway_idempotency_lookup_def split: if_splits)
  have h: "has_key (ir_key_hash r) = (\<lambda>x. case x of None \<Rightarrow> False | Some r' \<Rightarrow> equal32 (ir_key_hash r') (ir_key_hash r))"
    by (rule ext) (simp add: has_key_def)
  let ?scan = "scan_until (idem_view ops (is_nvs st)) (has_key (ir_key_hash r)) idem_slots"
  from scan_error have "?scan \<noteq> Inl ESP_OK" .
  then obtain x where x: "?scan = Inr x"
    using c lock assms(4) by (auto simp: gateway_idempotency_lookup_def hash_key_def h split: sum.splits)
  from scan_known [OF assms(1-3) this] x c lock assms(4) show ?thesis
    by (auto simp: gateway_idempotency_lookup_def hash_key_def h)
qed

lemma claim_reserves:
  assumes "digest sha256" and "idem_inv ops (is_nvs st)" and "length req = GATEWAY_SHA256_LEN"
    and "sha256 (map byte_of key) = Inr kh"
    and c: "gateway_idempotency_claim ops sha256 taken key req st = (ESP_OK, Some (GATEWAY_IDEMPOTENCY_MISS, 0), st')"
  obtains i q where "reserved ops i (reservation kh req q) st'"
proof (rule claim_effect [OF c])
  fix kh' i q n'
  assume h: "sha256 (map byte_of key) = Inr kh'" "i \<in> set idem_slots"
    "idem_write_slot ops i (reservation kh' req q) (is_nvs st) = (ESP_OK, n')" "st' = st\<lparr>is_nvs := n'\<rparr>"
  then have "idem_view ops (is_nvs st') i = Inr (Some (reservation kh req q))"
    using idem_write(2) [OF h(3) reservation_valid] assms(4) by simp
  moreover have "idem_inv ops (is_nvs st')" using claim_inv [OF assms(2,3,1) c] by blast
  ultimately show thesis using that h(2) by (simp add: reserved_def reservation_def)
qed simp

lemma claim_twice:
  assumes "digest sha256" and "idem_inv ops (is_nvs st)"
    and "sha256 (map byte_of key) = Inr kh" and "length req = GATEWAY_SHA256_LEN" "length req' = GATEWAY_SHA256_LEN"
    and "gateway_idempotency_claim ops sha256 taken key req st = (ESP_OK, Some (GATEWAY_IDEMPOTENCY_MISS, 0), st1)"
    and "idem_run ops sha256 kh st1 st2"
    and "gateway_idempotency_claim ops sha256 taken' key req' st2 = (ESP_OK, out, st3)"
  shows "out = Some (if req' = req then GATEWAY_IDEMPOTENCY_REPLAY else GATEWAY_IDEMPOTENCY_CONFLICT, 0)"
proof -
  obtain i q where "reserved ops i (reservation kh req q) st1"
    by (rule claim_reserves [OF assms(1,2,4,3,6)])
  moreover have k: "ir_key_hash (reservation kh req q) = kh" "ir_request_hash (reservation kh req q) = req"
    "ir_message_id (reservation kh req q) = 0" by (simp_all add: reservation_def)
  ultimately have "reserved ops i (reservation kh req q) st2" using run_reserved [OF _ assms(1)] assms(7) by simp
  then have "out = Some (verdict req' (reservation kh req q), 0)"
    using claim_known [of st2 i "reservation kh req q" sha256 key taken' req' out st3] assms(3,8) k by (simp add: reserved_def)
  then show ?thesis using verdict_iff [of "reservation kh req q" req'] k assms(4,5) by simp
qed

lemma finalize_recorded:
  assumes "digest sha256" and "idem_inv ops (is_nvs st)" and "length req = GATEWAY_SHA256_LEN"
    and "sha256 (map byte_of key) = Inr kh"
    and c: "gateway_idempotency_finalize ops sha256 taken key req mid st = (ESP_OK, st')"
  obtains i r where "i \<in> set idem_slots" "idem_view ops (is_nvs st') i = Inr (Some r)" "ir_key_hash r = kh"
    "ir_request_hash r = req" "ir_message_id r = mid" "idem_inv ops (is_nvs st')"
proof -
  let ?act = "\<lambda>i r n. if \<not> equal32 (ir_request_hash r) req then (ESP_ERR_INVALID_STATE, n)
      else idem_write_slot ops i (r\<lparr>ir_message_id := mid\<rparr>) n"
  have w: "with_key ops sha256 taken key ?act st = (ESP_OK, st')"
    using c by (auto simp: gateway_idempotency_finalize_def split: if_splits)
  show ?thesis
  proof (rule with_key_effect [OF w assms(1)])
    fix kh' i r n'
    assume h: "sha256 (map byte_of key) = Inr kh'" "i \<in> set idem_slots" "idem_view ops (is_nvs st) i = Inr (Some r)"
      "has_key kh' (Some r)" "?act i r (is_nvs st) = (ESP_OK, n')" "st' = st\<lparr>is_nvs := n'\<rparr>"
    note l = idem_invD [OF assms(2) h(2,3)]
    have k: "ir_key_hash r = kh" using h(1,4) assms(4) equal32_iff [OF l(1) digestD [OF assms(1,4)]] by simp
    have e: "equal32 (ir_request_hash r) req" "idem_write_slot ops i (r\<lparr>ir_message_id := mid\<rparr>) (is_nvs st) = (ESP_OK, n')"
      using h(5) by (auto split: if_splits)
    have q: "ir_request_hash r = req" using e(1) equal32_iff [OF l(2) assms(3)] by simp
    have "valid_record (r\<lparr>ir_message_id := mid\<rparr>)" using idem_view_valid [OF h(3)] by (simp add: valid_record_def)
    note wr = idem_write [OF e(2) this]
    have "idem_inv ops n'"
      by (rule idem_inv_replace [OF assms(2), where i = i and r = "r\<lparr>ir_message_id := mid\<rparr>"]) (use wr l in auto)
    then show ?thesis using that [of i "r\<lparr>ir_message_id := mid\<rparr>"] wr(2) h(2,6) k q by simp
  qed simp
qed

end

interpretation flash_idem: idem_partition flash_ops
  by unfold_locales

section \<open>An example\<close>

definition demo_sha :: "u8 list \<Rightarrow> esp_err + u8 list" where
  "demo_sha x = Inr (take GATEWAY_SHA256_LEN (x @ replicate GATEWAY_SHA256_LEN 0))"

definition empty_idem :: "idem_record flash idem_store" where
  "empty_idem = \<lparr>is_initialized = True, is_mutex = True, is_nvs = \<lparr>fl_blobs = [], fl_u32s = [], fl_script = []\<rparr>\<rparr>"

lemma demo_digest: "digest demo_sha"
  by (auto simp: digest_def demo_sha_def)

abbreviation demo_request :: "u8 list" where
  "demo_request \<equiv> replicate GATEWAY_SHA256_LEN 1"

lemma empty_idem_inv: "idem_inv flash_ops (is_nvs empty_idem)"
  by (simp add: idem_inv_def idem_view_def read_slot_def flash_ops_def found_def empty_idem_def)

lemma demo_claim:
  "\<exists>st. gateway_idempotency_claim flash_ops demo_sha True ''k'' demo_request empty_idem =
     (ESP_OK, Some (GATEWAY_IDEMPOTENCY_MISS, 0), st)"
proof -
  have "fst (gateway_idempotency_claim flash_ops demo_sha True ''k'' demo_request empty_idem) = ESP_OK"
    "fst (snd (gateway_idempotency_claim flash_ops demo_sha True ''k'' demo_request empty_idem)) = Some (GATEWAY_IDEMPOTENCY_MISS, 0)"
    by code_simp+
  then show ?thesis by (metis prod.collapse)
qed

lemma demo_claim_again:
  "let st1 = snd (snd (gateway_idempotency_claim flash_ops demo_sha True ''k'' demo_request empty_idem)) in
   fst (gateway_idempotency_claim flash_ops demo_sha True ''k'' demo_request st1) = ESP_OK"
  by code_simp

lemma demo_finalize:
  "let st1 = snd (snd (gateway_idempotency_claim flash_ops demo_sha True ''k'' demo_request empty_idem));
     f = gateway_idempotency_finalize flash_ops demo_sha True ''k'' demo_request 9 st1 in
   fst f = ESP_OK \<and> fst (gateway_idempotency_lookup flash_ops demo_sha True ''k'' demo_request (snd f)) = ESP_OK"
  by code_simp

section \<open>Properties\<close>

text \<open>C6: Idempotency of the send API. Once a claim of a key has returned a miss, so that its client
  goes on to send, every later claim of that key that is answered returns a replay, when it comes
  with the same request, or a conflict otherwise, and never again a miss, whatever other clients
  claimed, finalized or released in between and however full the table is.\<close>

theorem claim_at_most_once:
  assumes "nvs_partition ops" and "digest sha256" and "idem_inv ops (is_nvs st)"
    and "sha256 (map byte_of key) = Inr kh" and "length req = GATEWAY_SHA256_LEN" "length req' = GATEWAY_SHA256_LEN"
    and "gateway_idempotency_claim ops sha256 taken key req st = (ESP_OK, Some (GATEWAY_IDEMPOTENCY_MISS, 0), st1)"
    and "idem_run ops sha256 kh st1 st2"
    and "gateway_idempotency_claim ops sha256 taken' key req' st2 = (ESP_OK, out, st3)"
  shows "out = Some (if req' = req then GATEWAY_IDEMPOTENCY_REPLAY else GATEWAY_IDEMPOTENCY_CONFLICT, 0)"
  by (rule idem_partition.claim_twice [OF idem_partition.intro [OF assms(1)] assms(2-9)])

theorem claim_at_most_once_witness:
  "\<exists>st1 st3. gateway_idempotency_claim flash_ops demo_sha True ''k'' demo_request empty_idem =
      (ESP_OK, Some (GATEWAY_IDEMPOTENCY_MISS, 0), st1) \<and>
    gateway_idempotency_claim flash_ops demo_sha True ''k'' demo_request st1 = (ESP_OK, Some (GATEWAY_IDEMPOTENCY_REPLAY, 0), st3)"
proof -
  obtain st1 where c: "gateway_idempotency_claim flash_ops demo_sha True ''k'' demo_request empty_idem =
      (ESP_OK, Some (GATEWAY_IDEMPOTENCY_MISS, 0), st1)" using demo_claim by blast
  obtain e out st3 where d: "gateway_idempotency_claim flash_ops demo_sha True ''k'' demo_request st1 = (e, out, st3)" by (metis surj_pair)
  have "e = ESP_OK" using demo_claim_again c d by (simp add: Let_def)
  then show ?thesis
    using claim_at_most_once [OF flash.nvs_partition_axioms demo_digest empty_idem_inv _ _ _ c idem_start, of _ demo_request True out st3]
      c d by (simp add: demo_sha_def)
qed

text \<open>When the send has been recorded with \<open>gateway_idempotency_finalize\<close>, a lookup of the key finds
  the identifier of the message: as a replay for the same request, as a conflict for another.\<close>

theorem finalize_then_lookup:
  assumes "nvs_partition ops" and "digest sha256" and "idem_inv ops (is_nvs st)"
    and "length req = GATEWAY_SHA256_LEN" "length req' = GATEWAY_SHA256_LEN"
    and "gateway_idempotency_finalize ops sha256 taken key req mid st = (ESP_OK, st')"
    and "gateway_idempotency_lookup ops sha256 taken' key req' st' = (ESP_OK, out)"
  shows "out = Some (if req' = req then GATEWAY_IDEMPOTENCY_REPLAY else GATEWAY_IDEMPOTENCY_CONFLICT, mid)"
proof -
  note p = idem_partition.intro [OF assms(1)]
  obtain kh where kh: "sha256 (map byte_of key) = Inr kh"
    using assms(2,7) by (auto simp: gateway_idempotency_lookup_def hash_key_def digest_def split: if_splits sum.splits)
  obtain i r where r: "i \<in> set idem_slots" "idem_view ops (is_nvs st') i = Inr (Some r)" "ir_key_hash r = kh"
    "ir_request_hash r = req" "ir_message_id r = mid" "idem_inv ops (is_nvs st')"
    by (rule idem_partition.finalize_recorded [OF p assms(2,3,4) kh assms(6)])
  have "out = Some (verdict req' r, mid)"
    using idem_partition.lookup_known [OF p r(6,1,2), of sha256 key taken' req' out] kh r assms(7) by simp
  then show ?thesis using verdict_iff [of r req'] r assms(4,5) by simp
qed

theorem finalize_then_lookup_witness:
  "\<exists>st1 st2. gateway_idempotency_finalize flash_ops demo_sha True ''k'' demo_request 9 st1 = (ESP_OK, st2) \<and>
     gateway_idempotency_lookup flash_ops demo_sha True ''k'' demo_request st2 = (ESP_OK, Some (GATEWAY_IDEMPOTENCY_REPLAY, 9))"
proof -
  obtain st1 where c: "gateway_idempotency_claim flash_ops demo_sha True ''k'' demo_request empty_idem =
      (ESP_OK, Some (GATEWAY_IDEMPOTENCY_MISS, 0), st1)" using demo_claim by blast
  have inv: "idem_inv flash_ops (is_nvs st1)" using flash_idem.claim_inv [OF empty_idem_inv _ demo_digest c] by simp
  obtain e st2 where f: "gateway_idempotency_finalize flash_ops demo_sha True ''k'' demo_request 9 st1 = (e, st2)" by fastforce
  obtain e' out where l: "gateway_idempotency_lookup flash_ops demo_sha True ''k'' demo_request st2 = (e', out)" by fastforce
  have "e = ESP_OK" "e' = ESP_OK" using demo_finalize c f l by (simp_all add: Let_def)
  then show ?thesis
    using finalize_then_lookup [OF flash.nvs_partition_axioms demo_digest inv, of demo_request demo_request True "''k''" 9 st2 True out]
      f l by auto
qed

text \<open>Two requests have the same fingerprint input only when they ask for the same thing: the
  terminators separate recipient and text, so no text can imitate another recipient.\<close>

theorem fingerprint_injective:
  assumes "cstring to" "cstring to'" "cstring body" "cstring body'"
  shows "fingerprint_bytes to body report = fingerprint_bytes to' body' report' \<longleftrightarrow> to = to' \<and> body = body' \<and> report = report'"
  using assms by (auto simp: fingerprint_bytes_def terminated_inj map_byte_of_eq)

theorem fingerprint_injective_witness:
  "fingerprint_bytes ''+1'' ''2'' False \<noteq> fingerprint_bytes ''+12'' ''3'' False"
proof -
  have "cstring ''+1''" "cstring ''+12''" "cstring ''2''" "cstring ''3''" by code_simp+
  from fingerprint_injective [OF this, of False False] show ?thesis by simp
qed

end
