(* ===== verification/Ota_Version_Policy.thy ===== *)
theory Ota_Version_Policy
  imports Gateway_Prelude "HOL-Library.Monad_Syntax" "HOL-Library.Char_ord" "HOL-Library.List_Lexorder" "HOL-Library.Product_Lexorder"
begin

text \<open>
  Which firmware image may be installed, \<open>ota_version_policy.c\<close>: the parser for semantic versions,
  their comparison and the decision. The comparison works on the text; it is shown to be the
  order of SemVer 2.0 on the parsed versions, which is built here from the library's
  lexicographic orders on lists and tuples.
\<close>

section \<open>Parsing\<close>

text \<open>\<open>unsigned long\<close> has 32 bits on the target.\<close>

definition ULONG_MAX :: u32 where "ULONG_MAX = 0xFFFFFFFF"

fun number_loop :: "u32 \<Rightarrow> string \<Rightarrow> (u32 \<times> string) option" where
  "number_loop out [] = Some (out, [])"
| "number_loop out (c # p) =
     (if isdigit c
      then let digit = word_of_nat (code c - 48)
           in if out > (ULONG_MAX - digit) div 10 then None else number_loop (out * 10 + digit) p
      else Some (out, c # p))"

definition parse_number :: "string \<Rightarrow> (u32 \<times> string) option" where
  "parse_number p =
     (if \<not> isdigit (cchar p 0) then None
      else if cchar p 0 = CHR ''0'' \<and> isdigit (cchar p 1) then None
      else number_loop 0 p)"

definition valid_identifier_char :: "char \<Rightarrow> bool" where
  "valid_identifier_char c \<longleftrightarrow> isalnum c \<or> c = CHR ''-''"

text \<open>The text up to the next dot, and what follows that dot.\<close>

abbreviation head_identifier :: "string \<Rightarrow> string" where
  "head_identifier s \<equiv> takeWhile (\<lambda>c. c \<noteq> CHR ''.'') s"

abbreviation tail_identifiers :: "string \<Rightarrow> string" where
  "tail_identifiers s \<equiv> drop 1 (dropWhile (\<lambda>c. c \<noteq> CHR ''.'') s)"

lemma tail_identifiers_shorter: "s \<noteq> [] \<Longrightarrow> length (tail_identifiers s) < length s"
  by (cases s) (auto simp: le_imp_less_Suc length_dropWhile_le diff_le_self less_Suc_eq_le intro: le_trans [OF diff_le_self])

function valid_prerelease_sequence :: "string \<Rightarrow> bool" where
  "valid_prerelease_sequence s =
     (if s = [] then True
      else let ident = head_identifier s
           in if ident = [] \<or> list_all isdigit ident \<and> length ident > 1 \<and> hd ident = CHR ''0'' then False
              else valid_prerelease_sequence (tail_identifiers s))"
  by pat_completeness auto

termination
  by (relation "measure length") (auto dest: tail_identifiers_shorter)

declare valid_prerelease_sequence.simps [simp del]

text \<open>The two loops over dot-separated identifiers: where they stop, or \<open>None\<close> when they return false.\<close>

fun identifiers_loop :: "(char \<Rightarrow> bool) \<Rightarrow> bool \<Rightarrow> string \<Rightarrow> (bool \<times> string) option" where
  "identifiers_loop stop previous_dot [] = Some (previous_dot, [])"
| "identifiers_loop stop previous_dot (c # p) =
     (if stop c then Some (previous_dot, c # p)
      else if c = CHR ''.'' then (if previous_dot then None else identifiers_loop stop True p)
      else if \<not> valid_identifier_char c then None
      else identifiers_loop stop False p)"

record semver =
  ver_major :: u32
  ver_minor :: u32
  ver_patch :: u32
  ver_pre :: string

definition parse_prerelease :: "string \<Rightarrow> (string \<times> string) option" where
  "parse_prerelease p =
     (if cchar p 0 \<noteq> CHR ''-'' then Some ([], p)
      else let start = drop 1 p in
        (case identifiers_loop (\<lambda>c. c = CHR ''+'') True start of
           None \<Rightarrow> None
         | Some (previous_dot, p) \<Rightarrow>
             let pre = take (length start - length p) start in
             if pre = [] \<or> previous_dot then None
             else if \<not> valid_prerelease_sequence pre then None
             else Some (pre, p)))"

definition parse_build :: "string \<Rightarrow> string option" where
  "parse_build p =
     (if cchar p 0 \<noteq> CHR ''+'' then Some p
      else let start = drop 1 p in
        (case identifiers_loop (\<lambda>_. False) True start of
           None \<Rightarrow> None
         | Some (previous_dot, p) \<Rightarrow> if p = start \<or> previous_dot then None else Some p))"

definition parse_dot :: "string \<Rightarrow> string option" where
  "parse_dot p = (case p of c # p \<Rightarrow> if c = CHR ''.'' then Some p else None | [] \<Rightarrow> None)"

definition parse_semver :: "string option \<Rightarrow> semver option" where
  "parse_semver input = do {
     p \<leftarrow> input;
     if p = [] then None
     else do {
       (major, p) \<leftarrow> parse_number p;
       p \<leftarrow> parse_dot p;
       (minor, p) \<leftarrow> parse_number p;
       p \<leftarrow> parse_dot p;
       (patch, p) \<leftarrow> parse_number p;
       (pre, p) \<leftarrow> parse_prerelease p;
       p \<leftarrow> parse_build p;
       if p = [] then Some \<lparr>ver_major = major, ver_minor = minor, ver_patch = patch, ver_pre = pre\<rparr> else None } }"

section \<open>Comparing\<close>

definition identifier_numeric :: "string \<Rightarrow> bool" where
  "identifier_numeric s =
     (if length s = 0 then False
      else if length s > 1 \<and> hd s = CHR ''0'' then False
      else list_all isdigit s)"

text \<open>The sign of \<open>memcmp\<close> on the common length of its arguments.\<close>

fun memcmp :: "string \<Rightarrow> string \<Rightarrow> int" where
  "memcmp (c # a) (d # b) = (if code c < code d then -1 else if code d < code c then 1 else memcmp a b)"
| "memcmp _ _ = 0"

definition compare_identifiers :: "string \<Rightarrow> string \<Rightarrow> int" where
  "compare_identifiers a b =
     (let an = identifier_numeric a; bn = identifier_numeric b in
      if an \<and> bn then
        (if length a \<noteq> length b then (if length a < length b then -1 else 1)
         else let cmp = memcmp a b in if cmp < 0 then -1 else if cmp > 0 then 1 else 0)
      else if an \<noteq> bn then (if an then -1 else 1)
      else let n = min (length a) (length b); cmp = memcmp (take n a) (take n b) in
           if cmp \<noteq> 0 then (if cmp < 0 then -1 else 1)
           else if length a < length b then -1 else if length a > length b then 1 else 0)"

function prerelease_loop :: "string \<Rightarrow> string \<Rightarrow> int" where
  "prerelease_loop a b =
     (if a \<noteq> [] \<and> b \<noteq> []
      then let cmp = compare_identifiers (head_identifier a) (head_identifier b)
           in if cmp \<noteq> 0 then cmp else prerelease_loop (tail_identifiers a) (tail_identifiers b)
      else if a \<noteq> [] then 1 else if b \<noteq> [] then -1 else 0)"
  by pat_completeness auto

termination
  by (relation "measure (\<lambda>(a, b). length a)") (auto dest: tail_identifiers_shorter)

declare prerelease_loop.simps [simp del]

definition compare_prerelease :: "semver \<Rightarrow> semver \<Rightarrow> int" where
  "compare_prerelease a b =
     (if length (ver_pre a) = 0 \<and> length (ver_pre b) = 0 then 0
      else if length (ver_pre a) = 0 then 1
      else if length (ver_pre b) = 0 then -1
      else prerelease_loop (ver_pre a) (ver_pre b))"

definition ota_semver_compare :: "string option \<Rightarrow> string option \<Rightarrow> int option" where
  "ota_semver_compare a b = do {
     av \<leftarrow> parse_semver a;
     bv \<leftarrow> parse_semver b;
     Some (if ver_major av \<noteq> ver_major bv then (if ver_major av < ver_major bv then -1 else 1)
           else if ver_minor av \<noteq> ver_minor bv then (if ver_minor av < ver_minor bv then -1 else 1)
           else if ver_patch av \<noteq> ver_patch bv then (if ver_patch av < ver_patch bv then -1 else 1)
           else compare_prerelease av bv) }"

datatype ota_version_decision =
    OTA_VERSION_ACCEPT | OTA_VERSION_REJECT_PROJECT | OTA_VERSION_REJECT_FORMAT
  | OTA_VERSION_REJECT_REINSTALL | OTA_VERSION_REJECT_DOWNGRADE | OTA_VERSION_REJECT_SECURE_VERSION

definition ota_version_policy_decide ::
    "string option \<Rightarrow> string option \<Rightarrow> u32 \<Rightarrow> string option \<Rightarrow> string option \<Rightarrow> u32 \<Rightarrow> bool \<Rightarrow> bool \<Rightarrow>
     ota_version_decision" where
  "ota_version_policy_decide expected_project running_version running_secure_version candidate_project
       candidate_version candidate_secure_version allow_reinstall allow_downgrade =
     (if expected_project = None \<or> candidate_project = None \<or> expected_project \<noteq> candidate_project
      then OTA_VERSION_REJECT_PROJECT
      else if candidate_secure_version < running_secure_version then OTA_VERSION_REJECT_SECURE_VERSION
      else (case ota_semver_compare candidate_version running_version of
              None \<Rightarrow> OTA_VERSION_REJECT_FORMAT
            | Some cmp \<Rightarrow>
                if cmp = 0 \<and> \<not> allow_reinstall then OTA_VERSION_REJECT_REINSTALL
                else if cmp < 0 \<and> \<not> allow_downgrade then OTA_VERSION_REJECT_DOWNGRADE
                else OTA_VERSION_ACCEPT))"

section \<open>The order of SemVer\<close>

datatype semver_ident = Numeric nat | Alphanumeric string

instantiation semver_ident :: linorder
begin

fun less_semver_ident :: "semver_ident \<Rightarrow> semver_ident \<Rightarrow> bool" where
  "less_semver_ident (Numeric a) (Numeric b) = (a < b)"
| "less_semver_ident (Numeric a) (Alphanumeric t) = True"
| "less_semver_ident (Alphanumeric s) (Numeric b) = False"
| "less_semver_ident (Alphanumeric s) (Alphanumeric t) = (s < t)"

definition less_eq_semver_ident :: "semver_ident \<Rightarrow> semver_ident \<Rightarrow> bool" where
  "less_eq_semver_ident a b = (a < b \<or> a = b)"

instance
proof
  fix a b c :: semver_ident
  show "(a < b) = (a \<le> b \<and> \<not> b \<le> a)"
    by (cases a; cases b) (auto simp: less_eq_semver_ident_def)
  show "a \<le> a" by (simp add: less_eq_semver_ident_def)
  show "a \<le> c" if "a \<le> b" "b \<le> c"
    using that by (cases a; cases b; cases c) (auto simp: less_eq_semver_ident_def)
  show "a = b" if "a \<le> b" "b \<le> a"
    using that by (cases a; cases b) (auto simp: less_eq_semver_ident_def)
  show "a \<le> b \<or> b \<le> a"
    by (cases a; cases b) (auto simp: less_eq_semver_ident_def)
qed

end

definition decimal :: "string \<Rightarrow> nat" where
  "decimal s = foldl (\<lambda>n c. 10 * n + (code c - 48)) 0 s"

definition identifier_of :: "string \<Rightarrow> semver_ident" where
  "identifier_of s = (if identifier_numeric s then Numeric (decimal s) else Alphanumeric s)"

function identifiers :: "string \<Rightarrow> semver_ident list" where
  "identifiers s = (if s = [] then [] else identifier_of (head_identifier s) # identifiers (tail_identifiers s))"
  by pat_completeness auto

termination
  by (relation "measure length") (auto dest: tail_identifiers_shorter)

declare identifiers.simps [simp del]

text \<open>Compared from the left; a release (\<open>True\<close>) is above all its pre-releases.\<close>

definition precedence :: "semver \<Rightarrow> u32 \<times> u32 \<times> u32 \<times> bool \<times> semver_ident list" where
  "precedence v = (ver_major v, ver_minor v, ver_patch v, ver_pre v = [], identifiers (ver_pre v))"

section \<open>The comparison is that order\<close>

definition cmp_sign :: "'a :: linorder \<Rightarrow> 'a \<Rightarrow> int" where
  "cmp_sign x y = (if x < y then -1 else if y < x then 1 else 0)"

lemma cmp_sign_simps [simp]: "cmp_sign x x = 0" "cmp_sign x y = 0 \<longleftrightarrow> x = y"
  by (auto simp: cmp_sign_def)

subsection \<open>Numeric identifiers\<close>

lemma decimal_Cons: "decimal (c # s) = (code c - 48) * 10 ^ length s + decimal s"
proof -
  have last: "decimal (s @ [c]) = 10 * decimal s + (code c - 48)" for s c by (simp add: decimal_def)
  show ?thesis
  proof (induction s rule: rev_induct)
    case (snoc d s)
    then show ?case using last [of "c # s" d] last [of s d] by (simp add: add_mult_distrib2)
  qed (simp add: decimal_def)
qed

lemma decimal_less: "list_all isdigit s \<Longrightarrow> decimal s < 10 ^ length s"
proof (induction s)
  case (Cons c s)
  have "code c - 48 \<le> 9" using Cons.prems by (auto simp: isdigit_def)
  then have "(code c - 48) * 10 ^ length s \<le> 9 * 10 ^ length s" by (rule mult_le_mono1)
  moreover have "decimal s < 10 ^ length s" using Cons by simp
  ultimately show ?case unfolding decimal_Cons list.size power_Suc add_0_right add_Suc_right by linarith
qed (simp add: decimal_def)

lemma decimal_step:
  fixes x y :: nat
  assumes "x < y" and "m < 10 ^ k"
  shows "x * 10 ^ k + m < y * 10 ^ k + n"
proof -
  have "Suc x * 10 ^ k \<le> y * 10 ^ k" using assms(1) by (intro mult_le_mono1) simp
  then show ?thesis using assms(2) by simp
qed

lemma decimal_less_same:
  "length a = length b \<Longrightarrow> list_all isdigit a \<Longrightarrow> list_all isdigit b \<Longrightarrow> memcmp a b = cmp_sign (decimal a) (decimal b)"
proof (induction a b rule: memcmp.induct)
  case (1 c a d b)
  have l: "length a = length b" using 1(2) by simp
  have d: "48 \<le> code c" "48 \<le> code d" using 1(3,4) by (auto simp: isdigit_def)
  have m: "decimal a < 10 ^ length b" "decimal b < 10 ^ length b"
    using 1(3,4) decimal_less [of a] decimal_less [of b] l by auto
  consider "code c < code d" | "code d < code c" | "code c = code d" by linarith
  then show ?case
  proof cases
    case 1
    then have "code c - 48 < code d - 48" using d(1) by linarith
    from decimal_step [OF this m(1)] have "decimal (c # a) < decimal (d # b)" by (simp add: decimal_Cons l)
    then show ?thesis using 1 by (simp add: cmp_sign_def)
  next
    case 2
    then have "code d - 48 < code c - 48" using d(2) by linarith
    from decimal_step [OF this m(2)] have "decimal (d # b) < decimal (c # a)" by (simp add: decimal_Cons l)
    then show ?thesis using 2 by (auto simp: cmp_sign_def)
  next
    case 3
    then have "memcmp (c # a) (d # b) = cmp_sign (decimal a) (decimal b)" using 1 by simp
    then show ?thesis using 3 l by (simp add: decimal_Cons cmp_sign_def)
  qed
qed (auto simp: decimal_def)

lemma decimal_shorter:
  assumes "identifier_numeric a" "identifier_numeric b" "length a < length b"
  shows "decimal a < decimal b"
proof -
  obtain c s where b: "b = c # s" using assms(2) by (cases b) (auto simp: identifier_numeric_def)
  have "a \<noteq> []" using assms(1) by (auto simp: identifier_numeric_def)
  then have "1 \<le> length s" "length a \<le> length s" using assms(3) b by (auto simp: Suc_le_eq)
  then have "c \<noteq> CHR ''0''" "isdigit c" using assms(2) b by (auto simp: identifier_numeric_def split: if_splits)
  then have "code c \<noteq> 48" "48 \<le> code c" using of_char_eq_iff [of c "CHR ''0''"] by (auto simp: isdigit_def)
  then have "10 ^ length s \<le> (code c - 48) * 10 ^ length s" by simp
  moreover have "decimal a < 10 ^ length a" using assms(1) decimal_less by (auto simp: identifier_numeric_def split: if_splits)
  moreover have "(10 :: nat) ^ length a \<le> 10 ^ length s" using \<open>length a \<le> length s\<close> by simp
  ultimately show ?thesis unfolding b decimal_Cons by linarith
qed

subsection \<open>Identifiers and lists\<close>

lemma less_char_code: "c < d \<longleftrightarrow> code c < code d"
  by (simp add: less_char_def)

lemma Nil_less_iff: "[] < (a :: string) \<longleftrightarrow> a \<noteq> []"
  by (cases a) auto

lemma memcmp_lexicographic:
  "(let n = min (length a) (length b); cmp = memcmp (take n a) (take n b) in
    if cmp \<noteq> 0 then (if cmp < 0 then -1 else 1)
    else if length a < length b then -1 else if length a > length b then 1 else 0) = cmp_sign a b"
proof (induction a b rule: memcmp.induct)
  case (1 c a d b)
  then show ?case by (auto simp: cmp_sign_def less_char_code Let_def split: if_splits)
qed (simp_all add: cmp_sign_def Nil_less_iff)

lemma compare_identifiers_order:
  "compare_identifiers a b = cmp_sign (identifier_of a) (identifier_of b)"
proof (cases "identifier_numeric a \<and> identifier_numeric b")
  case True
  consider "length a < length b" | "length b < length a" | "length a = length b" by linarith
  then show ?thesis
  proof cases
    case 3
    have "memcmp a b = cmp_sign (decimal a) (decimal b)"
      using decimal_less_same [OF 3] True by (auto simp: identifier_numeric_def split: if_splits)
    then show ?thesis using True 3 by (auto simp: compare_identifiers_def identifier_of_def cmp_sign_def)
  qed (use True decimal_shorter in \<open>auto simp: compare_identifiers_def identifier_of_def cmp_sign_def dest: order.strict_trans\<close>)
next
  case False
  then show ?thesis
    using memcmp_lexicographic [of a b]
    by (auto simp: compare_identifiers_def identifier_of_def cmp_sign_def [of "Alphanumeric _"] cmp_sign_def [of "Numeric _"]
        cmp_sign_def [of a] Let_def)
qed

lemma prerelease_order: "prerelease_loop a b = cmp_sign (identifiers a) (identifiers b)"
proof (induction a b rule: prerelease_loop.induct)
  case (1 a b)
  show ?case
  proof (cases "a \<noteq> [] \<and> b \<noteq> []")
    case True
    then show ?thesis
      using 1 by (auto simp: prerelease_loop.simps [of a b] identifiers.simps [of a] identifiers.simps [of b]
        compare_identifiers_order cmp_sign_def Let_def)
  next
    case False
    then show ?thesis
      by (auto simp: prerelease_loop.simps [of a b] identifiers.simps [of a] identifiers.simps [of b] cmp_sign_def)
  qed
qed

lemma cmp_sign_Pair: "cmp_sign (a, b) (c, d) = (if a \<noteq> c then (if a < c then -1 else 1) else cmp_sign b d)"
  by (auto simp: cmp_sign_def)

lemma cmp_sign_release:
  "cmp_sign (ver_pre va = [], identifiers (ver_pre va)) (ver_pre vb = [], identifiers (ver_pre vb)) = compare_prerelease va vb"
  by (cases "ver_pre va = []"; cases "ver_pre vb = []")
    (simp_all add: cmp_sign_Pair compare_prerelease_def prerelease_order)

lemma compare_order:
  assumes "parse_semver a = Some va" "parse_semver b = Some vb"
  shows "ota_semver_compare a b = Some (cmp_sign (precedence va) (precedence vb))"
  using assms unfolding precedence_def cmp_sign_Pair [of "ver_major _"] cmp_sign_Pair [of "ver_minor _"]
    cmp_sign_Pair [of "ver_patch _"] cmp_sign_release by (simp add: ota_semver_compare_def)

section \<open>Numbers\<close>

lemma digit_word: "isdigit c \<Longrightarrow> unat (word_of_nat (code c - 48) :: u32) = code c - 48"
proof -
  assume "isdigit c"
  then obtain d where d: "code c - 48 = d" "d < 2 ^ 32" by (auto simp: isdigit_def)
  show ?thesis unfolding d(1) using d(2) by (simp add: unsigned_of_nat take_bit_nat_eq_self)
qed

text \<open>The guard in the loop is exact: it refuses a digit just when the value would not fit.\<close>

lemma number_guard:
  fixes out digit :: u32
  assumes "unat digit \<le> 9"
  shows "out > (ULONG_MAX - digit) div 10 \<longleftrightarrow> unat out * 10 + unat digit > unat ULONG_MAX"
proof -
  have m: "unat ULONG_MAX = 4294967295" by (simp add: ULONG_MAX_def)
  have "digit \<le> ULONG_MAX" using assms m by (simp add: word_le_nat_alt)
  then have "unat ((ULONG_MAX - digit) div 10) = (4294967295 - unat digit) div 10"
    by (simp add: unat_div unat_sub m)
  then show ?thesis using m assms by (auto simp: word_less_nat_alt div_less_iff_less_mult less_diff_conv)
qed

lemma number_step:
  fixes out digit :: u32
  assumes "unat out * 10 + unat digit \<le> unat ULONG_MAX"
  shows "unat (out * 10 + digit) = unat out * 10 + unat digit"
proof -
  have "unat out * 10 + unat digit < 2 ^ 32" using assms by (simp add: ULONG_MAX_def)
  then show ?thesis by (simp add: unat_word_ariths)
qed

lemma number_loop_exact:
  "number_loop out p =
     (let n = unat out * 10 ^ length (takeWhile isdigit p) + decimal (takeWhile isdigit p)
      in if n \<le> unat ULONG_MAX then Some (word_of_nat n, dropWhile isdigit p) else None)"
proof (induction out p rule: number_loop.induct)
  case (1 out)
  have "unat out \<le> unat ULONG_MAX" using unsigned_less [of out, where 'a = nat] by (simp add: ULONG_MAX_def)
  then show ?case by (simp add: decimal_def)
next
  case (2 out c p)
  show ?case
  proof (cases "isdigit c")
    case False
    have "unat out \<le> unat ULONG_MAX" using unsigned_less [of out, where 'a = nat] by (simp add: ULONG_MAX_def)
    then show ?thesis using False by (simp add: decimal_def)
  next
    case True
    let ?d = "word_of_nat (code c - 48) :: u32" and ?ds = "takeWhile isdigit p"
    have d: "unat ?d = code c - 48" "unat ?d \<le> 9" using digit_word [OF True] True by (auto simp: isdigit_def)
    have n: "unat out * 10 ^ length (c # ?ds) + decimal (c # ?ds) =
        (unat out * 10 + unat ?d) * 10 ^ length ?ds + decimal ?ds"
      by (simp add: decimal_Cons d algebra_simps)
    show ?thesis
    proof (cases "unat out * 10 + unat ?d \<le> unat ULONG_MAX")
      case fits: True
      then have "number_loop out (c # p) = number_loop (out * 10 + ?d) p"
        using True number_guard [OF d(2), of out] by (simp add: Let_def)
      then show ?thesis using 2 [OF True refl] number_guard [OF d(2), of out] fits number_step [OF fits] True n by (simp add: Let_def)
    next
      case over: False
      have "unat out * 10 + unat ?d \<le> (unat out * 10 + unat ?d) * 10 ^ length ?ds" by simp
      then have "\<not> (unat out * 10 + unat ?d) * 10 ^ length ?ds + decimal ?ds \<le> unat ULONG_MAX" using over by linarith
      moreover have "number_loop out (c # p) = None" using True over number_guard [OF d(2), of out] by (simp add: Let_def)
      ultimately show ?thesis using True n by (simp add: Let_def)
    qed
  qed
qed

section \<open>Properties\<close>

text \<open>C15: The comparison of two version strings is the precedence order of SemVer 2.0: numbers by
  value, then a release above its pre-releases, then the dot-separated identifiers from the left,
  numeric ones by value and below the others, a longer list above its prefix. It fails just when
  one of the strings is no version.\<close>

theorem semver_compare_is_precedence:
  "ota_semver_compare a b =
     (case (parse_semver a, parse_semver b) of
        (Some va, Some vb) \<Rightarrow> Some (cmp_sign (precedence va) (precedence vb))
      | _ \<Rightarrow> None)"
  by (cases "parse_semver a"; cases "parse_semver b")
    (simp_all add: compare_order, simp_all add: ota_semver_compare_def)

text \<open>An image is accepted just when it belongs to this project, does not lower the secure
  version, both versions parse, and it is newer, or the same with a permission to reinstall, or
  older with a permission to downgrade. No permission overrides the secure version.\<close>

theorem ota_accepts:
  "ota_version_policy_decide expected running running_secure candidate version secure reinstall downgrade = OTA_VERSION_ACCEPT \<longleftrightarrow>
     (\<exists>project vc vr. expected = Some project \<and> candidate = Some project \<and> running_secure \<le> secure \<and>
        parse_semver version = Some vc \<and> parse_semver running = Some vr \<and>
        (precedence vr < precedence vc \<or> precedence vc = precedence vr \<and> reinstall \<or>
         precedence vc < precedence vr \<and> downgrade))"
proof (cases "parse_semver version = None \<or> parse_semver running = None")
  case True
  then have "ota_semver_compare version running = None" by (auto simp: ota_semver_compare_def split: option.splits)
  then show ?thesis using True by (auto simp: ota_version_policy_decide_def)
next
  case False
  then obtain vc vr where v: "parse_semver version = Some vc" "parse_semver running = Some vr" by auto
  have "cmp_sign (precedence vc) (precedence vr) < 0 \<longleftrightarrow> precedence vc < precedence vr" by (simp add: cmp_sign_def)
  then show ?thesis
    using v by (auto simp: ota_version_policy_decide_def compare_order [OF v] not_less order.order_iff_strict linorder_neq_iff
        simp del: cmp_sign_simps(1))
qed

end
