(* ===== verification/Modem_Status.thy ===== *)
theory Modem_Status
  imports Gateway_Prelude
begin

text \<open>
  The parsers for the status lines of the modem, \<open>modem_status.c\<close>, and the recovery policy,
  \<open>modem_recovery_policy.c\<close>. A cursor is the rest of the line; a parser returns \<open>None\<close> where the
  source returns false. \<open>int\<close> and \<open>long\<close> both have 32 bits on the target, so the range check of
  \<open>parse_int\<close> never fails after \<open>strtol\<close>; it is kept.
\<close>

section \<open>Data\<close>

datatype modem_sim_state =
    MODEM_SIM_UNKNOWN | MODEM_SIM_READY | MODEM_SIM_PIN_REQUIRED | MODEM_SIM_PUK_REQUIRED
  | MODEM_SIM_NOT_INSERTED | MODEM_SIM_BLOCKED | MODEM_SIM_ERROR

datatype modem_registration_status =
    MODEM_REG_UNKNOWN | MODEM_REG_NOT_REGISTERED | MODEM_REG_HOME | MODEM_REG_SEARCHING
  | MODEM_REG_DENIED | MODEM_REG_UNKNOWN_NETWORK | MODEM_REG_ROAMING

record modem_registration =
  rg_status :: modem_registration_status
  rg_access_technology :: int

record modem_signal =
  sg_rssi :: int
  sg_rssi_dbm :: int
  sg_ber :: int

record modem_operator =
  op_mode :: int
  op_format :: int
  op_name :: string
  op_access_technology :: int

definition MODEM_OPERATOR_NAME_MAX :: nat where "MODEM_OPERATOR_NAME_MAX = 64"
definition INT_MAX :: int where "INT_MAX = 2147483647"
definition INT_MIN :: int where "INT_MIN = -2147483648"
definition INT16_MIN :: int where "INT16_MIN = -32768"

section \<open>Cursors\<close>

definition skip_space :: "string \<Rightarrow> string" where
  "skip_space p = dropWhile (\<lambda>c. c = CHR '' '' \<or> c = TAB) p"

definition parse_int :: "string \<Rightarrow> (int \<times> string) option" where
  "parse_int cursor =
     (let p = skip_space cursor in
      case strtol p of (parsed, stop) \<Rightarrow>
        if stop = p \<or> parsed < INT_MIN \<or> parsed > INT_MAX then None else Some (parsed, stop))"

definition consume_char :: "string \<Rightarrow> char \<Rightarrow> string option" where
  "consume_char cursor expected =
     (let p = skip_space cursor in if cchar p 0 \<noteq> expected then None else Some (drop 1 p))"

definition line_has_prefix :: "string option \<Rightarrow> string \<Rightarrow> bool" where
  "line_has_prefix line prefix = (case line of None \<Rightarrow> False | Some l \<Rightarrow> has_prefix l prefix)"

section \<open>Lines\<close>

definition modem_status_parse_cpin :: "string option \<Rightarrow> modem_sim_state option" where
  "modem_status_parse_cpin line =
     (if \<not> line_has_prefix line ''+CPIN:'' then None
      else let value = skip_space (drop 6 (the line)) in
        Some (if value = ''READY'' then MODEM_SIM_READY
              else if value = ''SIM PIN'' then MODEM_SIM_PIN_REQUIRED
              else if value = ''SIM PUK'' then MODEM_SIM_PUK_REQUIRED
              else if value = ''NOT INSERTED'' \<or> value = ''SIM NOT INSERTED'' then MODEM_SIM_NOT_INSERTED
              else if value = ''SIM BLOCK'' \<or> value = ''SIM BLOCKED'' then MODEM_SIM_BLOCKED
              else MODEM_SIM_ERROR))"

definition modem_status_parse_csq :: "string option \<Rightarrow> modem_signal option" where
  "modem_status_parse_csq line =
     (if \<not> line_has_prefix line ''+CSQ:'' then None
      else (case parse_int (drop 5 (the line)) of
              None \<Rightarrow> None
            | Some (rssi, cursor) \<Rightarrow>
                (case consume_char cursor (CHR '','') of
                   None \<Rightarrow> None
                 | Some cursor \<Rightarrow>
                     (case parse_int cursor of
                        None \<Rightarrow> None
                      | Some (ber, cursor) \<Rightarrow>
                          if skip_space cursor \<noteq> [] \<or> \<not> (rssi \<ge> 0 \<and> rssi \<le> 31 \<or> rssi = 99) \<or>
                             \<not> (ber \<ge> 0 \<and> ber \<le> 7 \<or> ber = 99)
                          then None
                          else Some \<lparr>sg_rssi = rssi,
                                 sg_rssi_dbm = (if rssi = 99 then INT16_MIN else -113 + 2 * rssi),
                                 sg_ber = ber\<rparr>))))"

definition registration_status :: "int \<Rightarrow> modem_registration_status" where
  "registration_status n =
     (if n = 0 then MODEM_REG_NOT_REGISTERED else if n = 1 then MODEM_REG_HOME
      else if n = 2 then MODEM_REG_SEARCHING else if n = 3 then MODEM_REG_DENIED
      else if n = 4 then MODEM_REG_UNKNOWN_NETWORK else if n = 5 then MODEM_REG_ROAMING
      else MODEM_REG_UNKNOWN)"

text \<open>
  The fields after the first number: the status, and where the search for the access technology
  starts. The query form is \<open>+xREG: <n>,<stat>[,...]\<close>, the unsolicited form starts with the status.
\<close>

definition registration_fields :: "int \<Rightarrow> string \<Rightarrow> int \<times> string" where
  "registration_fields first cursor =
     (let cursor = skip_space cursor in
      if cchar cursor 0 \<noteq> CHR '','' then (first, cursor)
      else let second_start = skip_space (drop 1 cursor) in
        if cchar second_start 0 = CHR 0x22 then (first, second_start)
        else (case parse_int second_start of
                None \<Rightarrow> (first, second_start)
              | Some (second, after_second) \<Rightarrow>
                  if first \<ge> 0 \<and> first \<le> 2 \<and> second \<ge> 0 \<and> second \<le> 5 then (second, after_second)
                  else (first, second_start)))"

definition access_technology :: "string \<Rightarrow> int" where
  "access_technology cursor =
     (if CHR '','' \<in> set cursor
      then (case parse_int (rev (takeWhile (\<lambda>c. c \<noteq> CHR '','') (rev cursor))) of
              Some (parsed_act, act_cursor) \<Rightarrow> if skip_space act_cursor = [] then parsed_act else -1
            | None \<Rightarrow> -1)
      else -1)"

definition modem_status_parse_registration :: "string option \<Rightarrow> string \<Rightarrow> modem_registration option" where
  "modem_status_parse_registration line prefix =
     (if \<not> line_has_prefix line prefix then None
      else (case parse_int (drop (length prefix) (the line)) of
              None \<Rightarrow> None
            | Some (first, cursor) \<Rightarrow>
                (case registration_fields first cursor of
                   (status, cursor) \<Rightarrow>
                     if status < 0 \<or> status > 5 then None
                     else Some \<lparr>rg_status = registration_status status,
                            rg_access_technology = access_technology cursor\<rparr>)))"

definition modem_status_parse_operator :: "string option \<Rightarrow> modem_operator option" where
  "modem_status_parse_operator line =
     (if \<not> line_has_prefix line ''+COPS:'' then None
      else (case parse_int (drop 6 (the line)) of
              None \<Rightarrow> None
            | Some (mode, cursor) \<Rightarrow>
                let parsed = \<lparr>op_mode = mode, op_format = -1, op_name = [], op_access_technology = -1\<rparr>;
                    cursor = skip_space cursor
                in if cursor = [] then Some parsed
                   else (case consume_char cursor (CHR '','') of
                           None \<Rightarrow> None
                         | Some cursor \<Rightarrow>
                             (case parse_int cursor of
                                None \<Rightarrow> None
                              | Some (format, cursor) \<Rightarrow>
                                  (case consume_char cursor (CHR '','') of
                                     None \<Rightarrow> None
                                   | Some cursor \<Rightarrow>
                                       let cursor = skip_space cursor in
                                       if cchar cursor 0 \<noteq> CHR 0x22 then None
                                       else let quoted = takeWhile (\<lambda>c. c \<noteq> CHR 0x22) (drop 1 cursor);
                                                cursor = dropWhile (\<lambda>c. c \<noteq> CHR 0x22) (drop 1 cursor)
                                            in if cursor = [] then None
                                               else let parsed = parsed\<lparr>op_format := format,
                                                          op_name := take (MODEM_OPERATOR_NAME_MAX - 1) quoted\<rparr>;
                                                        cursor = skip_space (drop 1 cursor)
                                                    in (case (if cchar cursor 0 = CHR '',''
                                                              then (case parse_int (drop 1 cursor) of
                                                                      None \<Rightarrow> None
                                                                    | Some (act, cursor) \<Rightarrow>
                                                                        Some (parsed\<lparr>op_access_technology := act\<rparr>, cursor))
                                                              else Some (parsed, cursor)) of
                                                          None \<Rightarrow> None
                                                        | Some (parsed, cursor) \<Rightarrow>
                                                            if skip_space cursor \<noteq> [] then None
                                                            else Some parsed))))))"

definition modem_registration_is_registered :: "modem_registration_status \<Rightarrow> bool" where
  "modem_registration_is_registered status \<longleftrightarrow> status = MODEM_REG_HOME \<or> status = MODEM_REG_ROAMING"

definition modem_registration_is_roaming :: "modem_registration_status \<Rightarrow> bool" where
  "modem_registration_is_roaming status \<longleftrightarrow> status = MODEM_REG_ROAMING"

fun modem_sim_state_name :: "modem_sim_state \<Rightarrow> string" where
  "modem_sim_state_name MODEM_SIM_UNKNOWN = ''unknown''"
| "modem_sim_state_name MODEM_SIM_READY = ''ready''"
| "modem_sim_state_name MODEM_SIM_PIN_REQUIRED = ''pin_required''"
| "modem_sim_state_name MODEM_SIM_PUK_REQUIRED = ''puk_required''"
| "modem_sim_state_name MODEM_SIM_NOT_INSERTED = ''not_inserted''"
| "modem_sim_state_name MODEM_SIM_BLOCKED = ''blocked''"
| "modem_sim_state_name MODEM_SIM_ERROR = ''error''"

fun modem_registration_status_name :: "modem_registration_status \<Rightarrow> string" where
  "modem_registration_status_name MODEM_REG_NOT_REGISTERED = ''not_registered''"
| "modem_registration_status_name MODEM_REG_HOME = ''home''"
| "modem_registration_status_name MODEM_REG_SEARCHING = ''searching''"
| "modem_registration_status_name MODEM_REG_DENIED = ''denied''"
| "modem_registration_status_name MODEM_REG_UNKNOWN_NETWORK = ''unknown_network''"
| "modem_registration_status_name MODEM_REG_ROAMING = ''roaming''"
| "modem_registration_status_name MODEM_REG_UNKNOWN = ''unknown''"

section \<open>Recovery policy\<close>

datatype modem_recovery_action =
  MODEM_RECOVERY_NONE | MODEM_RECOVERY_REINITIALIZE | MODEM_RECOVERY_FUNCTIONAL_RESET | MODEM_RECOVERY_HARD_RESET

text \<open>The action and the counter \<open>*rounds_since_hard_reset\<close> after the call.\<close>

definition modem_recovery_policy_next :: "u32 \<Rightarrow> u32 \<Rightarrow> u32 \<Rightarrow> u32 \<Rightarrow> modem_recovery_action \<times> u32" where
  "modem_recovery_policy_next consecutive_failures failure_threshold hard_reset_after_rounds rounds =
     (if failure_threshold = 0 \<or> hard_reset_after_rounds = 0 \<or> consecutive_failures < failure_threshold
      then (MODEM_RECOVERY_NONE, rounds)
      else let rounds = rounds + 1 in
        if rounds = 1 then (MODEM_RECOVERY_REINITIALIZE, rounds)
        else if rounds \<le> hard_reset_after_rounds then (MODEM_RECOVERY_FUNCTIONAL_RESET, rounds)
        else (MODEM_RECOVERY_HARD_RESET, 0))"

section \<open>Reading numbers\<close>

lemma skip_space_stop: "s = [] \<or> hd s \<noteq> CHR '' '' \<and> hd s \<noteq> TAB \<Longrightarrow> skip_space s = s"
  by (cases s) (auto simp: skip_space_def)

lemma skip_space_dec [simp]: "skip_space (dec n @ r) = dec n @ r"
  using dec_hd_digit [of n] by (intro skip_space_stop) (auto simp: isdigit_def TAB_def)

lemma skip_space_blank [simp]: "skip_space (CHR '' '' # s) = skip_space s" "skip_space [] = []"
  by (simp_all add: skip_space_def)

lemma skip_space_char: "c \<noteq> CHR '' '' \<Longrightarrow> c \<noteq> TAB \<Longrightarrow> skip_space (c # s) = c # s"
  by (simp add: skip_space_def)

lemma parse_int_dec:
  assumes "n \<le> 2147483647" and "r = [] \<or> \<not> isdigit (hd r)"
  shows "parse_int (dec n @ r) = Some (int n, r)"
proof -
  have "strtol (dec n @ r) = (int n, r)" using strtol_dec [of "[]" r n] assms by (simp add: LONG_MAX_def)
  moreover have "r \<noteq> dec n @ r" by simp
  ultimately show ?thesis using assms(1) by (simp add: parse_int_def Let_def INT_MIN_def INT_MAX_def)
qed

lemma parse_int_quote: "parse_int (CHR 0x22 # s) = None"
  by (simp add: parse_int_def skip_space_def strtol_def isspace_def isdigit_def TAB_def)

lemma parse_int_blank [simp]: "parse_int (CHR '' '' # s) = parse_int s"
  by (simp add: parse_int_def)

lemma line_prefix: "line_has_prefix (Some (prefix @ s)) prefix"
  by (simp add: line_has_prefix_def has_prefix_def)

lemma not_comma: "\<not> isdigit (CHR '','')" "CHR '','' \<noteq> CHR '' ''" "CHR '','' \<noteq> TAB" "CHR 0x22 \<noteq> TAB"
  by code_simp+

lemma dec_no_comma: "CHR '','' \<notin> set (dec n)"
  using dec_digits not_comma(1) by blast

lemma dec_not_quote: "cchar (dec n @ r) 0 \<noteq> CHR 0x22"
  using dec_hd_digit [of n] by (cases "dec n") (auto simp: isdigit_def)

lemma small_status: "n \<le> 5 \<Longrightarrow> n \<le> (2147483647 :: nat)"
  by simp

lemma registration_query:
  assumes "stat \<le> 5" and "n \<le> 2"
  shows "modem_status_parse_registration (Some (prefix @ '' '' @ dec n @ '','' @ dec stat)) prefix =
       Some \<lparr>rg_status = registration_status (int stat), rg_access_technology = -1\<rparr>"
proof -
  have first: "parse_int ('' '' @ dec n @ '','' @ dec stat) = Some (int n, '','' @ dec stat)"
    using parse_int_dec [of n "'','' @ dec stat"] assms not_comma(1) by simp
  have second: "parse_int (dec stat) = Some (int stat, [])" using parse_int_dec [of stat "[]"] assms by simp
  have "registration_fields (int n) ('','' @ dec stat) = (int stat, [])"
    using assms second dec_not_quote [of stat "[]"] skip_space_dec [of stat "[]"]
    by (simp add: registration_fields_def skip_space_char not_comma cchar_def)
  then show ?thesis
    using first assms by (simp add: modem_status_parse_registration_def line_prefix access_technology_def)
qed

lemma registration_report:
  assumes "stat \<le> 5" and "CHR '','' \<notin> set area" "CHR '','' \<notin> set cell" "act \<le> 2147483647"
  shows "modem_status_parse_registration
     (Some (prefix @ '' '' @ dec stat @ '','' @ [CHR 0x22] @ area @ [CHR 0x22] @ '','' @ [CHR 0x22] @ cell @ [CHR 0x22] @ '','' @ dec act)) prefix =
   Some \<lparr>rg_status = registration_status (int stat), rg_access_technology = int act\<rparr>"
proof -
  let ?t = "[CHR 0x22] @ area @ [CHR 0x22] @ '','' @ [CHR 0x22] @ cell @ [CHR 0x22] @ '','' @ dec act"
  have first: "parse_int ('' '' @ dec stat @ '','' @ ?t) = Some (int stat, '','' @ ?t)"
    using parse_int_dec [of stat "'','' @ ?t"] assms not_comma(1) by simp
  have fields: "registration_fields (int stat) ('','' @ ?t) = (int stat, ?t)"
    using not_comma by (simp add: registration_fields_def skip_space_char cchar_def)
  have "rev (takeWhile (\<lambda>c. c \<noteq> CHR '','') (rev ?t)) = dec act"
    using dec_no_comma [of act] by (simp add: takeWhile_append)
  moreover have "parse_int (dec act) = Some (int act, [])" using parse_int_dec [of act "[]"] assms(4) by simp
  ultimately have "access_technology ?t = int act" by (simp add: access_technology_def)
  then show ?thesis
    using first fields assms(1) by (simp add: modem_status_parse_registration_def line_prefix)
qed

section \<open>Rounds of recovery\<close>

fun recovery_rounds :: "u32 \<Rightarrow> u32 \<Rightarrow> u32 \<Rightarrow> nat \<Rightarrow> u32 \<Rightarrow> modem_recovery_action list \<times> u32" where
  "recovery_rounds failures threshold hard_after 0 rounds = ([], rounds)"
| "recovery_rounds failures threshold hard_after (Suc n) rounds =
     (case modem_recovery_policy_next failures threshold hard_after rounds of
        (action, rounds) \<Rightarrow>
          (case recovery_rounds failures threshold hard_after n rounds of
             (actions, rounds) \<Rightarrow> (action # actions, rounds)))"

lemma recovery_rounds_add:
  "recovery_rounds f t h (m + n) r =
     (case recovery_rounds f t h m r of (xs, r') \<Rightarrow> case recovery_rounds f t h n r' of (ys, r'') \<Rightarrow> (xs @ ys, r''))"
  by (induction m arbitrary: r) (auto split: prod.splits)

lemma next_round:
  fixes r h :: u32
  assumes "unat r < unat h"
  shows "unat (r + 1) = unat r + 1"
proof -
  have "unat r + 1 < 2 ^ 32" using assms unsigned_less [of h, where 'a = nat] by simp
  then show ?thesis by (simp add: unat_word_ariths)
qed

lemma functional_rounds:
  assumes "0 < t" "t \<le> f" and "1 \<le> unat r" "unat r + n \<le> unat h"
  shows "recovery_rounds f t h n r = (replicate n MODEM_RECOVERY_FUNCTIONAL_RESET, r + word_of_nat n)"
  using assms(3,4)
proof (induction n arbitrary: r)
  case (Suc n)
  note u = next_round [of r h]
  have k: "unat (r + 1) = unat r + 1" using u Suc.prems by simp
  then have "modem_recovery_policy_next f t h r = (MODEM_RECOVERY_FUNCTIONAL_RESET, r + 1)"
    using assms(1,2) Suc.prems
    by (auto simp: modem_recovery_policy_next_def Let_def word_le_nat_alt word_less_nat_alt unat_eq_zero simp flip: unat_eq_nat_uint)
  moreover have "recovery_rounds f t h n (r + 1) = (replicate n MODEM_RECOVERY_FUNCTIONAL_RESET, r + 1 + word_of_nat n)"
    using Suc k by simp
  ultimately show ?case by (simp add: algebra_simps)
qed simp

section \<open>Properties\<close>

text \<open>What is accepted as a signal report is in range: the strength is 0 to 31 with the decibel
  value between -113 and -51, or 99 with the mark for unknown; the error rate is 0 to 7 or 99.\<close>

theorem csq_in_range:
  assumes "modem_status_parse_csq line = Some s"
  shows "(0 \<le> sg_rssi s \<and> sg_rssi s \<le> 31 \<and> -113 \<le> sg_rssi_dbm s \<and> sg_rssi_dbm s \<le> -51 \<or>
      sg_rssi s = 99 \<and> sg_rssi_dbm s = INT16_MIN) \<and> (0 \<le> sg_ber s \<and> sg_ber s \<le> 7 \<or> sg_ber s = 99)"
  using assms by (auto simp: modem_status_parse_csq_def split: if_splits option.splits prod.splits)

theorem csq_in_range_witness:
  "modem_status_parse_csq (Some ''+CSQ: 20,99'') = Some \<lparr>sg_rssi = 20, sg_rssi_dbm = -73, sg_ber = 99\<rparr> \<and> (-73 :: int) \<le> -51"
proof -
  have c: "modem_status_parse_csq (Some ''+CSQ: 20,99'') = Some \<lparr>sg_rssi = 20, sg_rssi_dbm = -73, sg_ber = 99\<rparr>" by code_simp
  from c csq_in_range [OF c] show ?thesis by simp
qed

text \<open>Both forms of a registration line are understood: in the answer to a query the mode comes
  first and the status second, in an unsolicited report the status comes first, followed by area,
  cell and access technology.\<close>

theorem registration_forms:
  assumes "stat \<le> 5" and "n \<le> 2" and "CHR '','' \<notin> set area" "CHR '','' \<notin> set cell" "act \<le> 2147483647"
  shows "modem_status_parse_registration (Some (prefix @ '' '' @ dec n @ '','' @ dec stat)) prefix =
       Some \<lparr>rg_status = registration_status (int stat), rg_access_technology = -1\<rparr> \<and>
    modem_status_parse_registration
       (Some (prefix @ '' '' @ dec stat @ '','' @ [CHR 0x22] @ area @ [CHR 0x22] @ '','' @ [CHR 0x22] @ cell @ [CHR 0x22] @ '','' @ dec act)) prefix =
       Some \<lparr>rg_status = registration_status (int stat), rg_access_technology = int act\<rparr>"
  using registration_query [OF assms(1,2)] registration_report [OF assms(1,3-5)] by simp

theorem registration_forms_witness:
  "modem_status_parse_registration (Some ''+CREG: 2,5'') ''+CREG:'' =
     Some \<lparr>rg_status = MODEM_REG_ROAMING, rg_access_technology = -1\<rparr>"
proof -
  have "dec 2 = ''2''" "dec 5 = ''5''" by code_simp+
  then show ?thesis
    using registration_forms [of 5 2 "''A1''" "''B2''" 7 "''+CREG:''"] by (simp add: registration_status_def)
qed

text \<open>The recovery of the modem escalates and comes round: from a fresh start, as long as the
  failures stay at the threshold, the rounds are one reinitialization, then functional resets,
  then a hard reset after the configured number of rounds, and the counter is back at 0.\<close>

theorem recovery_reaches_hard_reset:
  assumes "0 < threshold" "threshold \<le> failures" and "0 < hard_after" "hard_after < UINT32_MAX"
  shows "recovery_rounds failures threshold hard_after (unat hard_after + 1) 0 =
    (MODEM_RECOVERY_REINITIALIZE # replicate (unat hard_after - 1) MODEM_RECOVERY_FUNCTIONAL_RESET @ [MODEM_RECOVERY_HARD_RESET], 0)"
proof -
  let ?h = "unat hard_after"
  have g: "threshold \<noteq> 0" "hard_after \<noteq> 0" "\<not> failures < threshold" using assms(1-3) by auto
  have h: "1 \<le> ?h" "?h + 1 < 2 ^ 32" using assms(3,4) by (auto simp: word_less_nat_alt UINT32_MAX_def)
  have "recovery_rounds failures threshold hard_after 1 0 = ([MODEM_RECOVERY_REINITIALIZE], 1)"
    using g by (simp add: modem_recovery_policy_next_def)
  moreover have "recovery_rounds failures threshold hard_after (?h - 1) 1 =
      (replicate (?h - 1) MODEM_RECOVERY_FUNCTIONAL_RESET, 1 + word_of_nat (?h - 1))"
    using functional_rounds [OF assms(1,2), of 1 "?h - 1" hard_after] h by simp
  moreover have "1 + word_of_nat (?h - 1) = hard_after"
  proof -
    have "1 + word_of_nat (?h - 1) = (word_of_nat (1 + (?h - 1)) :: u32)" by simp
    also have "1 + (?h - 1) = ?h" using h by simp
    finally show ?thesis by simp
  qed
  moreover have "unat (hard_after + 1) = ?h + 1" using h by (simp add: unat_word_ariths)
  then have "hard_after < hard_after + 1" "hard_after + 1 \<noteq> 1"
    using h by (auto simp: word_less_nat_alt)
  then have "recovery_rounds failures threshold hard_after 1 hard_after = ([MODEM_RECOVERY_HARD_RESET], 0)"
    using g by (simp add: modem_recovery_policy_next_def Let_def not_le)
  moreover have "?h + 1 = 1 + ((?h - 1) + 1)" using h by simp
  ultimately show ?thesis by (simp only: recovery_rounds_add) simp
qed

theorem recovery_reaches_hard_reset_witness:
  "recovery_rounds 3 3 2 3 0 =
     ([MODEM_RECOVERY_REINITIALIZE, MODEM_RECOVERY_FUNCTIONAL_RESET, MODEM_RECOVERY_HARD_RESET], 0)"
  using recovery_reaches_hard_reset [of 3 3 2] by (simp add: UINT32_MAX_def)

end
