(* ===== verification/Modem_Manager.thy ===== *)
theory Modem_Manager
  imports Gateway_Monad At_Engine Modem_Status
begin

text \<open>
  The modem manager, \<open>modem_manager.c\<close>: it brings up the AT session, polls the SIM, the
  registration and the signal, reacts to unsolicited lines, and recovers a modem that stops
  answering. Its task takes one event from the queue at a time; the functions other tasks call only
  put events into the queue. The AT transport, the hard reset and the clock are the record
  \<open>manager_env\<close>, with the values of the build configuration; \<open>me_wait\<close> is the passage of time while
  the task is blocked. The calls of other tasks change nothing but the queue and one counter, which
  the task touches only when it takes the next event, so they are steps between its turns.
  \<open>mg_trace\<close> records the requests handed to the transport, the hard resets and the snapshots given
  to the callback; the code does not read it.
\<close>

section \<open>State\<close>

definition MODEM_MANAGER_QUEUE_DEPTH :: nat where "MODEM_MANAGER_QUEUE_DEPTH = 16"
definition MODEM_MANAGER_URC_MAX :: nat where "MODEM_MANAGER_URC_MAX = AT_ENGINE_MAX_URC_LENGTH"
definition MODEM_MANAGER_PIN_MAX :: nat where "MODEM_MANAGER_PIN_MAX = 8"
definition MODEM_MANAGER_DEFAULT_TIMEOUT_MS :: u32 where "MODEM_MANAGER_DEFAULT_TIMEOUT_MS = 3000"
definition MODEM_MANAGER_OPERATOR_TIMEOUT_MS :: u32 where "MODEM_MANAGER_OPERATOR_TIMEOUT_MS = 10000"
definition MODEM_IDENTITY_MAX :: nat where "MODEM_IDENTITY_MAX = 64"
definition MODEM_IMEI_MAX :: nat where "MODEM_IMEI_MAX = 24"

datatype modem_manager_state =
    MODEM_MANAGER_STOPPED | MODEM_MANAGER_WAIT_TRANSPORT | MODEM_MANAGER_INITIALIZING | MODEM_MANAGER_SIM_WAIT
  | MODEM_MANAGER_NETWORK_WAIT | MODEM_MANAGER_READY | MODEM_MANAGER_DEGRADED | MODEM_MANAGER_RECOVERY

datatype manager_event =
    MANAGER_EVENT_TRANSPORT_READY | MANAGER_EVENT_TRANSPORT_LOST | MANAGER_EVENT_URC string
  | MANAGER_EVENT_SIM_PIN string | MANAGER_EVENT_MANUAL_RESTART

record modem_manager_snapshot =
  ms_state :: modem_manager_state
  ms_transport_ready :: bool
  ms_initialized :: bool
  ms_sim :: modem_sim_state
  ms_circuit_registration :: modem_registration
  ms_packet_registration :: modem_registration
  ms_eps_registration :: modem_registration
  ms_registered :: bool
  ms_roaming :: bool
  ms_signal :: modem_signal
  ms_operator_info :: modem_operator
  ms_manufacturer :: string
  ms_model :: string
  ms_revision :: string
  ms_imei :: string
  ms_initialization_attempts :: u32
  ms_status_polls :: u32
  ms_consecutive_failures :: u32
  ms_recovery_attempts :: u32
  ms_hard_resets :: u32
  ms_urcs_processed :: u32
  ms_urcs_dropped :: u32
  ms_last_recovery_action :: modem_recovery_action
  ms_last_at_result :: at_result
  ms_last_modem_error_code :: int
  ms_last_at_success_ms :: int
  ms_last_status_update_ms :: int
  ms_last_error :: esp_err

datatype manager_action = Sent at_request | Published modem_manager_snapshot | Hard_Reset

record 'w manager =
  mg_initialized :: bool
  mg_event_cb :: bool
  mg_queue :: "manager_event list"
  mg_snapshot :: modem_manager_snapshot
  mg_recoveries_since_hard_reset :: u32
  mg_successful_poll_cycles :: u32
  mg_reinitialize_pending :: bool
  mg_next_poll_ms :: int
  mg_next_operator_poll_ms :: int
  mg_world :: 'w
  mg_trace :: "manager_action list"

record 'w manager_env =
  me_execute :: "at_request \<Rightarrow> at_response \<Rightarrow> 'w \<Rightarrow> esp_err \<times> at_response \<times> 'w"
  me_hard_reset :: "('w \<Rightarrow> esp_err \<times> 'w) option"
  me_now_ms :: "'w \<Rightarrow> int \<times> 'w"
  me_wait :: "nat option \<Rightarrow> 'w \<Rightarrow> 'w"
  me_tick_rate_hz :: nat
  me_poll_ready_ms :: int
  me_poll_wait_ms :: int
  me_failures_before_recovery :: u32
  me_hard_reset_after_recoveries :: u32
  me_recovery_backoff_ms :: int

type_synonym ('w, 'a) mgr_m = "('w manager, 'a) state"

definition now_ms :: "'w manager_env \<Rightarrow> ('w, int) mgr_m" where
  "now_ms env = State (\<lambda>s. case me_now_ms env (mg_world s) of (t, w) \<Rightarrow> (t, s\<lparr>mg_world := w\<rparr>))"

abbreviation snap :: "(modem_manager_snapshot \<Rightarrow> modem_manager_snapshot) \<Rightarrow> ('w, unit) mgr_m" where
  "snap f \<equiv> upd (\<lambda>s. s\<lparr>mg_snapshot := f (mg_snapshot s)\<rparr>)"

abbreviation snapshot_copy :: "('w, modem_manager_snapshot) mgr_m" where
  "snapshot_copy \<equiv> look mg_snapshot"

definition emit_snapshot :: "('w, unit) mgr_m" where
  "emit_snapshot =
     upd (\<lambda>s. if mg_event_cb s then s\<lparr>mg_trace := mg_trace s @ [Published (mg_snapshot s)]\<rparr> else s)"

definition snapshot_set_state :: "modem_manager_state \<Rightarrow> ('w, unit) mgr_m" where
  "snapshot_set_state state = do {
     old \<leftarrow> look (\<lambda>s. ms_state (mg_snapshot s));
     if old \<noteq> state then do { snap (\<lambda>p. p\<lparr>ms_state := state\<rparr>); emit_snapshot }
     else ret () }"

definition snapshot_record_success :: "'w manager_env \<Rightarrow> at_response \<Rightarrow> ('w, unit) mgr_m" where
  "snapshot_record_success env response = do {
     timestamp \<leftarrow> now_ms env;
     snap (\<lambda>p. p\<lparr>ms_consecutive_failures := 0, ms_last_at_success_ms := timestamp, ms_last_error := ESP_OK,
       ms_last_at_result := AT_RESULT_OK, ms_last_modem_error_code := rs_error_code response\<rparr>) }"

definition snapshot_record_failure :: "esp_err \<Rightarrow> at_result \<Rightarrow> int \<Rightarrow> ('w, unit) mgr_m" where
  "snapshot_record_failure err result modem_error_code =
     snap (\<lambda>p. p\<lparr>ms_consecutive_failures := ms_consecutive_failures p + 1, ms_last_error := err,
       ms_last_at_result := result, ms_last_modem_error_code := modem_error_code\<rparr>)"

definition copy_identity :: "nat \<Rightarrow> string \<Rightarrow> string" where
  "copy_identity capacity val =
     take (capacity - 1) (filter (\<lambda>c. 0x20 \<le> code c \<and> code c \<le> 0x7E) val)"

section \<open>Commands\<close>

definition manager_request :: "string \<Rightarrow> string list \<Rightarrow> u32 \<Rightarrow> at_request" where
  "manager_request command prefixes timeout_ms =
     \<lparr>rq_command = Some command,
      rq_expected_prefixes = (if prefixes = [] then None else Some (map Some prefixes)),
      rq_expected_prefix_count = length prefixes,
      rq_timeout_ms = (if timeout_ms = 0 then MODEM_MANAGER_DEFAULT_TIMEOUT_MS else timeout_ms),
      rq_max_attempts = 2, rq_retry_delay_ms = 150,
      rq_retry_policy = AT_RETRY_ON_TIMEOUT OR AT_RETRY_ON_TRANSPORT_ERROR,
      rq_wait_for_prompt = False, rq_prompt_payload = None, rq_prompt_payload_len = 0\<rparr>"

text \<open>
  Whether the command succeeded, and the response. The caller's response is uninitialised before
  the call and read only after success.
\<close>

definition execute_command ::
    "'w manager_env \<Rightarrow> string \<Rightarrow> string list \<Rightarrow> u32 \<Rightarrow> ('w, bool \<times> at_response) mgr_m" where
  "execute_command env command prefixes timeout_ms = do {
     let request = manager_request command prefixes timeout_ms;
     (err, response) \<leftarrow> State (\<lambda>s. case me_execute env request response_reset (mg_world s) of
       (e, r, w) \<Rightarrow> ((e, r), s\<lparr>mg_world := w, mg_trace := mg_trace s @ [Sent request]\<rparr>));
     if err \<noteq> ESP_OK then do {
       snapshot_record_failure err AT_RESULT_TRANSPORT_ERROR (-1);
       ret (False, response) }
     else if rs_result response \<noteq> AT_RESULT_OK then do {
       snapshot_record_failure
         (if rs_result response = AT_RESULT_TRANSPORT_UNAVAILABLE \<or> rs_result response = AT_RESULT_TRANSPORT_ERROR
          then ESP_ERR_INVALID_STATE else ESP_FAIL) (rs_result response) (rs_error_code response);
       ret (False, response) }
     else do {
       snapshot_record_success env response;
       ret (True, response) } }"

definition execute_optional ::
    "'w manager_env \<Rightarrow> string \<Rightarrow> string list \<Rightarrow> u32 \<Rightarrow> ('w, bool \<times> at_response) mgr_m" where
  "execute_optional env command prefixes timeout_ms = do {
     before \<leftarrow> snapshot_copy;
     (ok, response) \<leftarrow> execute_command env command prefixes timeout_ms;
     if \<not> ok then do {
       snap (\<lambda>p. p\<lparr>ms_consecutive_failures := ms_consecutive_failures before, ms_last_error := ms_last_error before,
         ms_last_at_result := ms_last_at_result before, ms_last_modem_error_code := ms_last_modem_error_code before\<rparr>);
       ret (ok, response) }
     else ret (ok, response) }"

section \<open>Answers\<close>

definition parse_into ::
    "'w manager_env \<Rightarrow> (string option \<Rightarrow> 'a option) \<Rightarrow> ('a \<Rightarrow> modem_manager_snapshot \<Rightarrow> modem_manager_snapshot) \<Rightarrow>
     at_response \<Rightarrow> ('w, bool) mgr_m" where
  "parse_into env parse store response =
     (case first_some parse (response_lines response) of
        None \<Rightarrow> ret False
      | Some x \<Rightarrow> do {
          snap (store x);
          t \<leftarrow> now_ms env;
          snap (\<lambda>p. p\<lparr>ms_last_status_update_ms := t\<rparr>);
          ret True })"

definition response_parse_sim :: "'w manager_env \<Rightarrow> at_response \<Rightarrow> ('w, bool) mgr_m" where
  "response_parse_sim env = parse_into env modem_status_parse_cpin (\<lambda>sim p. p\<lparr>ms_sim := sim\<rparr>)"

definition response_parse_signal :: "'w manager_env \<Rightarrow> at_response \<Rightarrow> ('w, bool) mgr_m" where
  "response_parse_signal env = parse_into env modem_status_parse_csq (\<lambda>signal p. p\<lparr>ms_signal := signal\<rparr>)"

text \<open>The pointer \<open>target\<close> to one of the three registrations.\<close>

datatype registration_target = Circuit | Packet | Eps

fun set_registration :: "registration_target \<Rightarrow> modem_registration \<Rightarrow> modem_manager_snapshot \<Rightarrow> modem_manager_snapshot" where
  "set_registration Circuit r p = p\<lparr>ms_circuit_registration := r\<rparr>"
| "set_registration Packet r p = p\<lparr>ms_packet_registration := r\<rparr>"
| "set_registration Eps r p = p\<lparr>ms_eps_registration := r\<rparr>"

definition response_parse_registration ::
    "'w manager_env \<Rightarrow> at_response \<Rightarrow> string \<Rightarrow> registration_target \<Rightarrow> ('w, bool) mgr_m" where
  "response_parse_registration env response prefix target =
     parse_into env (\<lambda>line. modem_status_parse_registration line prefix) (set_registration target) response"

definition response_parse_operator :: "'w manager_env \<Rightarrow> at_response \<Rightarrow> ('w, bool) mgr_m" where
  "response_parse_operator env =
     parse_into env modem_status_parse_operator (\<lambda>info p. p\<lparr>ms_operator_info := info\<rparr>)"

definition registration_summary :: "modem_manager_snapshot \<Rightarrow> bool \<times> bool" where
  "registration_summary p =
     (let statuses = [rg_status (ms_eps_registration p), rg_status (ms_packet_registration p),
                      rg_status (ms_circuit_registration p)] in
      case find modem_registration_is_registered statuses of
        None \<Rightarrow> (False, False)
      | Some status \<Rightarrow> (True, modem_registration_is_roaming status))"

definition recompute_registration :: "('w, unit) mgr_m" where
  "recompute_registration =
     snap (\<lambda>p. case registration_summary p of (registered, roaming) \<Rightarrow>
       p\<lparr>ms_registered := registered, ms_roaming := roaming\<rparr>)"

definition query_sim :: "'w manager_env \<Rightarrow> ('w, bool) mgr_m" where
  "query_sim env = do {
     (ok, response) \<leftarrow> execute_command env ''AT+CPIN?'' [''+CPIN:''] 3000;
     if ok then response_parse_sim env response else ret False }"

definition query_signal :: "'w manager_env \<Rightarrow> ('w, bool) mgr_m" where
  "query_signal env = do {
     (ok, response) \<leftarrow> execute_command env ''AT+CSQ'' [''+CSQ:''] 3000;
     if ok then response_parse_signal env response else ret False }"

definition query_registration_one ::
    "'w manager_env \<Rightarrow> string \<Rightarrow> string \<Rightarrow> registration_target \<Rightarrow> bool \<Rightarrow> ('w, bool) mgr_m" where
  "query_registration_one env command prefix target optional = do {
     (ok, response) \<leftarrow> (if optional then execute_optional env command [prefix] 3000
                         else execute_command env command [prefix] 3000);
     if ok then response_parse_registration env response prefix target else ret False }"

definition query_registration :: "'w manager_env \<Rightarrow> ('w, bool) mgr_m" where
  "query_registration env = do {
     a \<leftarrow> query_registration_one env ''AT+CREG?'' ''+CREG:'' Circuit False;
     b \<leftarrow> query_registration_one env ''AT+CGREG?'' ''+CGREG:'' Packet True;
     c \<leftarrow> query_registration_one env ''AT+CEREG?'' ''+CEREG:'' Eps True;
     recompute_registration;
     ret (a \<or> b \<or> c) }"

definition query_operator :: "'w manager_env \<Rightarrow> ('w, bool) mgr_m" where
  "query_operator env = do {
     (ok, response) \<leftarrow> execute_optional env ''AT+COPS?'' [''+COPS:''] MODEM_MANAGER_OPERATOR_TIMEOUT_MS;
     if ok then response_parse_operator env response else ret False }"

definition configure_registration_urc :: "'w manager_env \<Rightarrow> string \<Rightarrow> string \<Rightarrow> ('w, unit) mgr_m" where
  "configure_registration_urc env extended basic = do {
     (ok, _) \<leftarrow> execute_optional env extended [] 3000;
     if \<not> ok then do { _ \<leftarrow> execute_optional env basic [] 3000; ret () } else ret () }"

definition query_identity ::
    "'w manager_env \<Rightarrow> string \<Rightarrow> (string \<Rightarrow> modem_manager_snapshot \<Rightarrow> modem_manager_snapshot) \<Rightarrow> nat \<Rightarrow> ('w, unit) mgr_m" where
  "query_identity env command store capacity = do {
     (ok, response) \<leftarrow> execute_optional env command [] 3000;
     if \<not> ok then ret ()
     else (case find (\<lambda>line. case line of None \<Rightarrow> False | Some l \<Rightarrow> l \<noteq> []) (response_lines response) of
             Some (Some l) \<Rightarrow> snap (store (copy_identity capacity l))
           | _ \<Rightarrow> ret ()) }"


section \<open>Session and polling\<close>

definition set_next_poll :: "'w manager_env \<Rightarrow> int \<Rightarrow> ('w, unit) mgr_m" where
  "set_next_poll env delay = do { t \<leftarrow> now_ms env; upd (\<lambda>s. s\<lparr>mg_next_poll_ms := t + delay\<rparr>) }"

definition set_next_operator_poll :: "'w manager_env \<Rightarrow> ('w, unit) mgr_m" where
  "set_next_operator_poll env = do { t \<leftarrow> now_ms env; upd (\<lambda>s. s\<lparr>mg_next_operator_poll_ms := t + 300000\<rparr>) }"

text \<open>The rest of \<open>initialize_session\<close> once the SIM has answered.\<close>

definition finish_session :: "'w manager_env \<Rightarrow> ('w, bool) mgr_m" where
  "finish_session env = do {
     configure_registration_urc env ''AT+CREG=2'' ''AT+CREG=1'';
     configure_registration_urc env ''AT+CGREG=2'' ''AT+CGREG=1'';
     configure_registration_urc env ''AT+CEREG=2'' ''AT+CEREG=1'';
     sim \<leftarrow> look (\<lambda>s. ms_sim (mg_snapshot s));
     snap (\<lambda>p. p\<lparr>ms_initialized := True\<rparr>);
     if sim \<noteq> MODEM_SIM_READY then do {
       snapshot_set_state MODEM_MANAGER_SIM_WAIT;
       set_next_poll env (me_poll_wait_ms env);
       emit_snapshot;
       ret True }
     else do {
       _ \<leftarrow> query_registration env;
       _ \<leftarrow> query_signal env;
       _ \<leftarrow> query_operator env;
       set_next_operator_poll env;
       recompute_registration;
       registered \<leftarrow> look (\<lambda>s. ms_registered (mg_snapshot s));
       snapshot_set_state (if registered then MODEM_MANAGER_READY else MODEM_MANAGER_NETWORK_WAIT);
       set_next_poll env (if registered then me_poll_ready_ms env else me_poll_wait_ms env);
       emit_snapshot;
       ret True } }"

definition initialize_session :: "'w manager_env \<Rightarrow> ('w, bool) mgr_m" where
  "initialize_session env = do {
     snapshot_set_state MODEM_MANAGER_INITIALIZING;
     snap (\<lambda>p. p\<lparr>ms_initialization_attempts := ms_initialization_attempts p + 1, ms_initialized := False\<rparr>);
     (ok, _) \<leftarrow> execute_command env ''ATE0'' [] 3000;
     if \<not> ok then ret False
     else do {
       (ok, _) \<leftarrow> execute_command env ''AT+CMEE=2'' [] 3000;
       if \<not> ok then ret False
       else do {
         _ \<leftarrow> execute_optional env ''AT^CURC=0'' [] 3000;
         _ \<leftarrow> execute_optional env ''AT^PORTSEL=1'' [] 3000;
         query_identity env ''AT+CGMI'' (\<lambda>v p. p\<lparr>ms_manufacturer := v\<rparr>) MODEM_IDENTITY_MAX;
         query_identity env ''AT+CGMM'' (\<lambda>v p. p\<lparr>ms_model := v\<rparr>) MODEM_IDENTITY_MAX;
         query_identity env ''AT+CGMR'' (\<lambda>v p. p\<lparr>ms_revision := v\<rparr>) MODEM_IDENTITY_MAX;
         query_identity env ''AT+CGSN'' (\<lambda>v p. p\<lparr>ms_imei := v\<rparr>) MODEM_IMEI_MAX;
         ok \<leftarrow> query_sim env;
         if \<not> ok then ret False else finish_session env } } }"

definition update_state_after_poll :: "('w, unit) mgr_m" where
  "update_state_after_poll = do {
     p \<leftarrow> snapshot_copy;
     if ms_sim p \<noteq> MODEM_SIM_READY then snapshot_set_state MODEM_MANAGER_SIM_WAIT
     else if ms_registered p then snapshot_set_state MODEM_MANAGER_READY
     else snapshot_set_state MODEM_MANAGER_NETWORK_WAIT }"

definition poll_status :: "'w manager_env \<Rightarrow> ('w, bool) mgr_m" where
  "poll_status env = do {
     snap (\<lambda>p. p\<lparr>ms_status_polls := ms_status_polls p + 1\<rparr>);
     sim \<leftarrow> look (\<lambda>s. ms_sim (mg_snapshot s));
     if sim \<noteq> MODEM_SIM_READY then do {
       ok \<leftarrow> query_sim env;
       upd (\<lambda>s. if ok \<and> ms_sim (mg_snapshot s) = MODEM_SIM_READY then s\<lparr>mg_reinitialize_pending := True\<rparr> else s);
       update_state_after_poll;
       emit_snapshot;
       ret ok }
     else do {
       reg_ok \<leftarrow> query_registration env;
       signal_ok \<leftarrow> query_signal env;
       t \<leftarrow> now_ms env;
       next_operator_poll \<leftarrow> look mg_next_operator_poll_ms;
       (if t \<ge> next_operator_poll then do { _ \<leftarrow> query_operator env; set_next_operator_poll env } else ret ());
       update_state_after_poll;
       emit_snapshot;
       ret (reg_ok \<and> signal_ok) } }"

section \<open>Unsolicited lines\<close>

definition urc_status_update ::
    "'w manager_env \<Rightarrow> (modem_manager_snapshot \<Rightarrow> modem_manager_snapshot) \<Rightarrow> ('w, unit) mgr_m" where
  "urc_status_update env store = do {
     snap store;
     t \<leftarrow> now_ms env;
     snap (\<lambda>p. p\<lparr>ms_last_status_update_ms := t, ms_urcs_processed := ms_urcs_processed p + 1\<rparr>) }"

definition urc_registration ::
    "'w manager_env \<Rightarrow> string \<Rightarrow> string \<Rightarrow> registration_target \<Rightarrow> ('w, bool) mgr_m" where
  "urc_registration env line prefix target =
     (case modem_status_parse_registration (Some line) prefix of
        None \<Rightarrow> ret False
      | Some registration \<Rightarrow> do {
          urc_status_update env (set_registration target registration);
          upd (\<lambda>s. s\<lparr>mg_next_operator_poll_ms := 0\<rparr>);
          set_next_poll env 0;
          ret True })"

text \<open>The chain of alternatives; the result is the flag \<open>changed\<close>.\<close>

definition urc_changed :: "'w manager_env \<Rightarrow> string \<Rightarrow> ('w, bool) mgr_m" where
  "urc_changed env line =
     (case modem_status_parse_cpin (Some line) of
        Some sim \<Rightarrow> do {
          urc_status_update env (\<lambda>p. p\<lparr>ms_sim := sim\<rparr>);
          (if sim = MODEM_SIM_READY then do {
             upd (\<lambda>s. s\<lparr>mg_reinitialize_pending := True\<rparr>);
             set_next_poll env 0 }
           else ret ());
          ret True }
      | None \<Rightarrow>
          (case modem_status_parse_csq (Some line) of
             Some signal \<Rightarrow> do { urc_status_update env (\<lambda>p. p\<lparr>ms_signal := signal\<rparr>); ret True }
           | None \<Rightarrow> do {
               changed \<leftarrow> urc_registration env line ''+CREG:'' Circuit;
               if changed then ret True
               else do {
                 changed \<leftarrow> urc_registration env line ''+CGREG:'' Packet;
                 if changed then ret True
                 else urc_registration env line ''+CEREG:'' Eps } }))"

definition manager_handle_urc_line :: "'w manager_env \<Rightarrow> string \<Rightarrow> ('w, unit) mgr_m" where
  "manager_handle_urc_line env line = do {
     changed \<leftarrow> urc_changed env line;
     if changed then do {
       recompute_registration;
       update_state_after_poll;
       emit_snapshot }
     else ret () }"

section \<open>Recovery\<close>

text \<open>The optional function \<open>hard_reset\<close> of the transport.\<close>

definition hard_reset :: "'w manager_env \<Rightarrow> ('w, esp_err) mgr_m" where
  "hard_reset env =
     (case me_hard_reset env of
        None \<Rightarrow> ret ESP_ERR_NOT_SUPPORTED
      | Some f \<Rightarrow> State (\<lambda>s. case f (mg_world s) of
          (e, w) \<Rightarrow> (e, s\<lparr>mg_world := w, mg_trace := mg_trace s @ [Hard_Reset]\<rparr>)))"

text \<open>The part of \<open>schedule_recovery\<close> after the decision.\<close>

definition perform_recovery :: "'w manager_env \<Rightarrow> modem_recovery_action \<Rightarrow> ('w, unit) mgr_m" where
  "perform_recovery env action = do {
     snapshot_set_state MODEM_MANAGER_RECOVERY;
     snap (\<lambda>p. p\<lparr>ms_recovery_attempts := ms_recovery_attempts p + 1, ms_last_recovery_action := action\<rparr>);
     if action = MODEM_RECOVERY_REINITIALIZE then do {
       upd (\<lambda>s. s\<lparr>mg_reinitialize_pending := True\<rparr>);
       snap (\<lambda>p. p\<lparr>ms_consecutive_failures := 0\<rparr>) }
     else if action = MODEM_RECOVERY_FUNCTIONAL_RESET then do {
       _ \<leftarrow> execute_optional env ''AT+CFUN=1,1'' [] 5000;
       snap (\<lambda>p. p\<lparr>ms_initialized := False, ms_consecutive_failures := 0\<rparr>);
       upd (\<lambda>s. s\<lparr>mg_reinitialize_pending := True\<rparr>);
       set_next_poll env (me_recovery_backoff_ms env) }
     else do {
       hard_reset_err \<leftarrow> hard_reset env;
       snap (\<lambda>p. p\<lparr>ms_last_error := hard_reset_err\<rparr>);
       (if hard_reset_err = ESP_OK then
          snap (\<lambda>p. p\<lparr>ms_hard_resets := ms_hard_resets p + 1, ms_initialized := False,
            ms_transport_ready := False, ms_consecutive_failures := 0\<rparr>)
        else ret ());
       upd (\<lambda>s. s\<lparr>mg_successful_poll_cycles := 0, mg_reinitialize_pending := False\<rparr>);
       snapshot_set_state (if hard_reset_err = ESP_OK then MODEM_MANAGER_WAIT_TRANSPORT
                           else MODEM_MANAGER_DEGRADED) } }"

definition schedule_recovery :: "'w manager_env \<Rightarrow> ('w, unit) mgr_m" where
  "schedule_recovery env = do {
     failures \<leftarrow> look (\<lambda>s. ms_consecutive_failures (mg_snapshot s));
     rounds \<leftarrow> look mg_recoveries_since_hard_reset;
     let (action, rounds) = modem_recovery_policy_next failures (me_failures_before_recovery env)
           (me_hard_reset_after_recoveries env) rounds;
     upd (\<lambda>s. s\<lparr>mg_recoveries_since_hard_reset := rounds\<rparr>);
     if action = MODEM_RECOVERY_NONE then ret () else perform_recovery env action }"

definition handle_manual_restart :: "'w manager_env \<Rightarrow> ('w, unit) mgr_m" where
  "handle_manual_restart env = do {
     p \<leftarrow> snapshot_copy;
     if \<not> ms_transport_ready p then ret ()
     else do {
       snapshot_set_state MODEM_MANAGER_RECOVERY;
       snap (\<lambda>p. p\<lparr>ms_recovery_attempts := ms_recovery_attempts p + 1\<rparr>);
       err \<leftarrow> hard_reset env;
       if err = ESP_OK then do {
         snap (\<lambda>p. p\<lparr>ms_hard_resets := ms_hard_resets p + 1, ms_last_recovery_action := MODEM_RECOVERY_HARD_RESET,
           ms_transport_ready := False, ms_initialized := False\<rparr>);
         snapshot_set_state MODEM_MANAGER_WAIT_TRANSPORT }
       else do {
         (reset_ok, _) \<leftarrow> execute_optional env ''AT+CFUN=1,1'' [] 5000;
         snap (\<lambda>p. p\<lparr>ms_last_recovery_action := MODEM_RECOVERY_FUNCTIONAL_RESET, ms_initialized := False,
           ms_consecutive_failures := 0\<rparr>);
         upd (\<lambda>s. s\<lparr>mg_reinitialize_pending := True\<rparr>);
         set_next_poll env (me_recovery_backoff_ms env);
         if \<not> reset_ok then snapshot_set_state MODEM_MANAGER_DEGRADED else ret () } } }"

definition pin_command :: "string \<Rightarrow> string" where
  "pin_command pin = ''AT+CPIN='' @ [CHR 0x22] @ pin @ [CHR 0x22]"

definition handle_sim_pin :: "'w manager_env \<Rightarrow> string \<Rightarrow> ('w, unit) mgr_m" where
  "handle_sim_pin env pin = do {
     p \<leftarrow> snapshot_copy;
     if \<not> ms_transport_ready p \<or> ms_sim p \<noteq> MODEM_SIM_PIN_REQUIRED then ret ()
     else if length (pin_command pin) \<ge> 32 then ret ()
     else do {
       (ok, _) \<leftarrow> execute_optional env (pin_command pin) [] 10000;
       if ok then do {
         upd (\<lambda>s. s\<lparr>mg_reinitialize_pending := True\<rparr>);
         set_next_poll env 1000 }
       else ret () } }"

section \<open>The manager task\<close>

definition handle_transport_ready :: "'w manager_env \<Rightarrow> ('w, unit) mgr_m" where
  "handle_transport_ready env = do {
     snap (\<lambda>p. p\<lparr>ms_transport_ready := True, ms_initialized := False, ms_last_error := ESP_OK,
       ms_consecutive_failures := 0\<rparr>);
     upd (\<lambda>s. s\<lparr>mg_reinitialize_pending := True\<rparr>);
     set_next_poll env 0;
     snapshot_set_state MODEM_MANAGER_INITIALIZING }"

definition handle_transport_lost :: "('w, unit) mgr_m" where
  "handle_transport_lost = do {
     snap (\<lambda>p. p\<lparr>ms_transport_ready := False, ms_initialized := False, ms_registered := False,
       ms_roaming := False, ms_sim := MODEM_SIM_UNKNOWN,
       ms_circuit_registration := (ms_circuit_registration p)\<lparr>rg_status := MODEM_REG_UNKNOWN\<rparr>,
       ms_packet_registration := (ms_packet_registration p)\<lparr>rg_status := MODEM_REG_UNKNOWN\<rparr>,
       ms_eps_registration := (ms_eps_registration p)\<lparr>rg_status := MODEM_REG_UNKNOWN\<rparr>\<rparr>);
     upd (\<lambda>s. s\<lparr>mg_reinitialize_pending := False\<rparr>);
     snapshot_set_state MODEM_MANAGER_WAIT_TRANSPORT;
     emit_snapshot }"

text \<open>How long the task waits for an event; \<open>None\<close> is \<open>portMAX_DELAY\<close>.\<close>

definition next_wait_ticks :: "'w manager_env \<Rightarrow> ('w, nat option) mgr_m" where
  "next_wait_ticks env = do {
     p \<leftarrow> snapshot_copy;
     if \<not> ms_transport_ready p then ret None
     else do {
       next_poll \<leftarrow> look mg_next_poll_ms;
       t \<leftarrow> now_ms env;
       let remaining = next_poll - t;
       if remaining \<le> 0 then ret (Some 0)
       else ret (Some (unat (word_of_int remaining :: u32) * me_tick_rate_hz env div 1000)) } }"

text \<open>\<open>xQueueReceive\<close>: the first event, or none when the wait ends with an empty queue.\<close>

definition receive_event :: "'w manager_env \<Rightarrow> nat option \<Rightarrow> ('w, manager_event option) mgr_m" where
  "receive_event env ticks = do {
     queue \<leftarrow> look mg_queue;
     case queue of
       [] \<Rightarrow> do { upd (\<lambda>s. s\<lparr>mg_world := me_wait env ticks (mg_world s)\<rparr>); ret None }
     | event # rest \<Rightarrow> do { upd (\<lambda>s. s\<lparr>mg_queue := rest\<rparr>); ret (Some event) } }"

fun manager_dispatch :: "'w manager_env \<Rightarrow> manager_event \<Rightarrow> ('w, unit) mgr_m" where
  "manager_dispatch env MANAGER_EVENT_TRANSPORT_READY = handle_transport_ready env"
| "manager_dispatch env MANAGER_EVENT_TRANSPORT_LOST = handle_transport_lost"
| "manager_dispatch env (MANAGER_EVENT_URC urc) = manager_handle_urc_line env urc"
| "manager_dispatch env (MANAGER_EVENT_SIM_PIN pin) = handle_sim_pin env pin"
| "manager_dispatch env MANAGER_EVENT_MANUAL_RESTART = handle_manual_restart env"

definition manager_poll :: "'w manager_env \<Rightarrow> ('w, unit) mgr_m" where
  "manager_poll env = do {
     ok \<leftarrow> poll_status env;
     registered \<leftarrow> look (\<lambda>s. ms_registered (mg_snapshot s));
     (if \<not> ok then do {
        upd (\<lambda>s. s\<lparr>mg_successful_poll_cycles := 0\<rparr>);
        schedule_recovery env }
      else upd (\<lambda>s. let cycles = mg_successful_poll_cycles s + 1 in
        if cycles \<ge> 3 then s\<lparr>mg_recoveries_since_hard_reset := 0, mg_successful_poll_cycles := 3\<rparr>
        else s\<lparr>mg_successful_poll_cycles := cycles\<rparr>));
     set_next_poll env (if registered then me_poll_ready_ms env else me_poll_wait_ms env) }"

text \<open>\<open>reinitialize_pending && now_ms() >= next_poll_ms\<close>: the clock is read only when it is pending.\<close>

definition session_due :: "'w manager_env \<Rightarrow> ('w, bool) mgr_m" where
  "session_due env = do {
     pending \<leftarrow> look mg_reinitialize_pending;
     if \<not> pending then ret False
     else do { t \<leftarrow> now_ms env; next_poll \<leftarrow> look mg_next_poll_ms; ret (t \<ge> next_poll) } }"

definition manager_work :: "'w manager_env \<Rightarrow> ('w, unit) mgr_m" where
  "manager_work env = do {
     p \<leftarrow> snapshot_copy;
     if \<not> ms_transport_ready p then ret ()
     else do {
       session \<leftarrow> session_due env;
       if session then do {
         upd (\<lambda>s. s\<lparr>mg_reinitialize_pending := False\<rparr>);
         ok \<leftarrow> initialize_session env;
         if \<not> ok then do {
           schedule_recovery env;
           set_next_poll env (me_recovery_backoff_ms env) }
         else ret () }
       else do {
         t \<leftarrow> now_ms env;
         next_poll \<leftarrow> look mg_next_poll_ms;
         if t \<ge> next_poll then manager_poll env else ret () } } }"

definition manager_turn :: "'w manager_env \<Rightarrow> ('w, unit) mgr_m" where
  "manager_turn env = do {
     ticks \<leftarrow> next_wait_ticks env;
     event \<leftarrow> receive_event env ticks;
     (case event of None \<Rightarrow> ret () | Some e \<Rightarrow> manager_dispatch env e);
     manager_work env }"

section \<open>The functions other tasks call\<close>

definition initial_snapshot :: modem_manager_snapshot where
  "initial_snapshot = (let unknown = \<lparr>rg_status = MODEM_REG_UNKNOWN, rg_access_technology = -1\<rparr> in
     \<lparr>ms_state = MODEM_MANAGER_WAIT_TRANSPORT, ms_transport_ready = False, ms_initialized = False,
      ms_sim = MODEM_SIM_UNKNOWN, ms_circuit_registration = unknown, ms_packet_registration = unknown,
      ms_eps_registration = unknown, ms_registered = False, ms_roaming = False,
      ms_signal = \<lparr>sg_rssi = 99, sg_rssi_dbm = INT16_MIN, sg_ber = 99\<rparr>,
      ms_operator_info = \<lparr>op_mode = -1, op_format = -1, op_name = [], op_access_technology = -1\<rparr>,
      ms_manufacturer = [], ms_model = [], ms_revision = [], ms_imei = [],
      ms_initialization_attempts = 0, ms_status_polls = 0, ms_consecutive_failures = 0,
      ms_recovery_attempts = 0, ms_hard_resets = 0, ms_urcs_processed = 0, ms_urcs_dropped = 0,
      ms_last_recovery_action = MODEM_RECOVERY_NONE, ms_last_at_result = AT_RESULT_TRANSPORT_UNAVAILABLE,
      ms_last_modem_error_code = -1, ms_last_at_success_ms = 0, ms_last_status_update_ms = 0,
      ms_last_error = ESP_OK\<rparr>)"

text \<open>
  Whether the transport has its function \<open>execute\<close>, whether there is a callback, and the results
  of creating the queue and the task are arguments.
\<close>

definition modem_manager_init :: "bool \<Rightarrow> bool \<Rightarrow> bool \<Rightarrow> bool \<Rightarrow> ('w, esp_err) mgr_m" where
  "modem_manager_init transport_ok event_cb queue_created task_created = do {
     initialized \<leftarrow> look mg_initialized;
     if \<not> transport_ok then ret ESP_ERR_INVALID_ARG
     else if initialized then ret ESP_ERR_INVALID_STATE
     else do {
       upd (\<lambda>s. s\<lparr>mg_initialized := False, mg_event_cb := event_cb, mg_queue := [], mg_snapshot := initial_snapshot,
         mg_recoveries_since_hard_reset := 0, mg_successful_poll_cycles := 0, mg_reinitialize_pending := False,
         mg_next_poll_ms := 0, mg_next_operator_poll_ms := 0\<rparr>);
       if \<not> queue_created then ret ESP_ERR_NO_MEM
       else if \<not> task_created then ret ESP_ERR_NO_MEM
       else do { upd (\<lambda>s. s\<lparr>mg_initialized := True\<rparr>); ret ESP_OK } } }"

text \<open>\<open>xQueueSend\<close> and \<open>xQueueSendToFront\<close> without waiting.\<close>

definition send_back :: "manager_event \<Rightarrow> ('w, bool) mgr_m" where
  "send_back event = do {
     queue \<leftarrow> look mg_queue;
     if length queue < MODEM_MANAGER_QUEUE_DEPTH
     then do { upd (\<lambda>s. s\<lparr>mg_queue := queue @ [event]\<rparr>); ret True }
     else ret False }"

definition send_front :: "manager_event \<Rightarrow> ('w, bool) mgr_m" where
  "send_front event = do {
     queue \<leftarrow> look mg_queue;
     if length queue < MODEM_MANAGER_QUEUE_DEPTH
     then do { upd (\<lambda>s. s\<lparr>mg_queue := event # queue\<rparr>); ret True }
     else ret False }"

definition manager_queue_simple_event :: "manager_event \<Rightarrow> ('w, unit) mgr_m" where
  "manager_queue_simple_event event = do {
     initialized \<leftarrow> look mg_initialized;
     if \<not> initialized then ret ()
     else do {
       queued \<leftarrow> (if event = MANAGER_EVENT_TRANSPORT_LOST then send_front event else send_back event);
       if \<not> queued \<and> event = MANAGER_EVENT_TRANSPORT_LOST then do {
         upd (\<lambda>s. s\<lparr>mg_queue := []\<rparr>);
         _ \<leftarrow> send_front event;
         ret () }
       else ret () } }"

definition modem_manager_notify_transport_ready :: "('w, unit) mgr_m" where
  "modem_manager_notify_transport_ready = manager_queue_simple_event MANAGER_EVENT_TRANSPORT_READY"

definition modem_manager_notify_transport_lost :: "('w, unit) mgr_m" where
  "modem_manager_notify_transport_lost = manager_queue_simple_event MANAGER_EVENT_TRANSPORT_LOST"

definition modem_manager_handle_urc :: "string option \<Rightarrow> ('w, unit) mgr_m" where
  "modem_manager_handle_urc line = do {
     initialized \<leftarrow> look mg_initialized;
     case line of
       None \<Rightarrow> ret ()
     | Some l \<Rightarrow>
         if \<not> initialized then ret ()
         else if length (cstr_view l) \<ge> MODEM_MANAGER_URC_MAX
         then snap (\<lambda>p. p\<lparr>ms_urcs_dropped := ms_urcs_dropped p + 1\<rparr>)
         else do {
           queued \<leftarrow> send_back (MANAGER_EVENT_URC (cstr_view l));
           if \<not> queued then snap (\<lambda>p. p\<lparr>ms_urcs_dropped := ms_urcs_dropped p + 1\<rparr>) else ret () } }"

definition modem_manager_get_snapshot :: "bool \<Rightarrow> ('w, esp_err \<times> modem_manager_snapshot option) mgr_m" where
  "modem_manager_get_snapshot out = do {
     initialized \<leftarrow> look mg_initialized;
     if \<not> out then ret (ESP_ERR_INVALID_ARG, None)
     else if \<not> initialized then ret (ESP_ERR_INVALID_STATE, None)
     else do { p \<leftarrow> snapshot_copy; ret (ESP_OK, Some p) } }"

definition modem_manager_request_restart :: "('w, esp_err) mgr_m" where
  "modem_manager_request_restart = do {
     initialized \<leftarrow> look mg_initialized;
     if \<not> initialized then ret ESP_ERR_INVALID_STATE
     else do {
       queued \<leftarrow> send_back MANAGER_EVENT_MANUAL_RESTART;
       ret (if queued then ESP_OK else ESP_ERR_NO_MEM) } }"

definition modem_manager_submit_sim_pin :: "string option \<Rightarrow> ('w, esp_err) mgr_m" where
  "modem_manager_submit_sim_pin pin = do {
     initialized \<leftarrow> look mg_initialized;
     case pin of
       None \<Rightarrow> ret ESP_ERR_INVALID_STATE
     | Some p \<Rightarrow>
         (let p = cstr_view p in
          if \<not> initialized then ret ESP_ERR_INVALID_STATE
          else if \<not> list_all isdigit (take (MODEM_MANAGER_PIN_MAX + 1) p) then ret ESP_ERR_INVALID_ARG
          else if length p < 4 \<or> length p > MODEM_MANAGER_PIN_MAX then ret ESP_ERR_INVALID_ARG
          else do {
            queued \<leftarrow> send_back (MANAGER_EVENT_SIM_PIN p);
            ret (if queued then ESP_OK else ESP_ERR_NO_MEM) }) }"

fun modem_manager_state_name :: "modem_manager_state \<Rightarrow> string" where
  "modem_manager_state_name MODEM_MANAGER_STOPPED = ''stopped''"
| "modem_manager_state_name MODEM_MANAGER_WAIT_TRANSPORT = ''wait_transport''"
| "modem_manager_state_name MODEM_MANAGER_INITIALIZING = ''initializing''"
| "modem_manager_state_name MODEM_MANAGER_SIM_WAIT = ''sim_wait''"
| "modem_manager_state_name MODEM_MANAGER_NETWORK_WAIT = ''network_wait''"
| "modem_manager_state_name MODEM_MANAGER_READY = ''ready''"
| "modem_manager_state_name MODEM_MANAGER_DEGRADED = ''degraded''"
| "modem_manager_state_name MODEM_MANAGER_RECOVERY = ''recovery''"

end
