(* ===== verification/Modem_Runs.thy ===== *)
theory Modem_Runs
  imports Modem_Manager
begin

text \<open>
  What the modem manager tells its clients. Every snapshot it publishes, and the one other tasks can
  read between its turns, is coherent: the reported state agrees with the SIM and the registration,
  and every value fits its field. The queries change the snapshot step by step, so this is no
  invariant of the single assignments; the triples below follow the values the state depends on.
\<close>

section \<open>Coherent snapshots\<close>

type_synonym status_core = "modem_manager_state \<times> modem_sim_state \<times> bool \<times> bool"

definition core :: "modem_manager_snapshot \<Rightarrow> status_core" where
  "core p = (ms_state p, ms_sim p, ms_registered p, ms_roaming p)"

fun coherent :: "status_core \<Rightarrow> bool" where
  "coherent (state, sim, registered, roaming) \<longleftrightarrow>
     state \<noteq> MODEM_MANAGER_STOPPED \<and>
     (state = MODEM_MANAGER_READY \<longrightarrow> sim = MODEM_SIM_READY \<and> registered) \<and>
     (state = MODEM_MANAGER_NETWORK_WAIT \<longrightarrow> sim = MODEM_SIM_READY \<and> \<not> registered) \<and>
     (state = MODEM_MANAGER_SIM_WAIT \<longrightarrow> sim \<noteq> MODEM_SIM_READY) \<and>
     (roaming \<longrightarrow> registered)"

definition signal_ok :: "modem_signal \<Rightarrow> bool" where
  "signal_ok g \<longleftrightarrow>
     (0 \<le> sg_rssi g \<and> sg_rssi g \<le> 31 \<and> -113 \<le> sg_rssi_dbm g \<and> sg_rssi_dbm g \<le> -51 \<or>
      sg_rssi g = 99 \<and> sg_rssi_dbm g = INT16_MIN) \<and>
     (0 \<le> sg_ber g \<and> sg_ber g \<le> 7 \<or> sg_ber g = 99)"

definition identity_ok :: "nat \<Rightarrow> string \<Rightarrow> bool" where
  "identity_ok capacity t \<longleftrightarrow> length t < capacity \<and> (\<forall>c \<in> set t. 0x20 \<le> code c \<and> code c \<le> 0x7E)"

definition snapshot_fields :: "modem_manager_snapshot \<Rightarrow> bool" where
  "snapshot_fields p \<longleftrightarrow>
     signal_ok (ms_signal p) \<and> length (op_name (ms_operator_info p)) < MODEM_OPERATOR_NAME_MAX \<and>
     identity_ok MODEM_IDENTITY_MAX (ms_manufacturer p) \<and> identity_ok MODEM_IDENTITY_MAX (ms_model p) \<and>
     identity_ok MODEM_IDENTITY_MAX (ms_revision p) \<and> identity_ok MODEM_IMEI_MAX (ms_imei p)"

fun event_ok :: "manager_event \<Rightarrow> bool" where
  "event_ok (MANAGER_EVENT_URC l) \<longleftrightarrow> length l < MODEM_MANAGER_URC_MAX"
| "event_ok (MANAGER_EVENT_SIM_PIN p) \<longleftrightarrow> 4 \<le> length p \<and> length p \<le> MODEM_MANAGER_PIN_MAX \<and> list_all isdigit p"
| "event_ok _ \<longleftrightarrow> True"

definition published_ok :: "manager_action list \<Rightarrow> bool" where
  "published_ok trace \<longleftrightarrow> (\<forall>p. Published p \<in> set trace \<longrightarrow> coherent (core p) \<and> snapshot_fields p)"

text \<open>\<open>at_core c s\<close>: all that was published is coherent, and the current snapshot has the core \<open>c\<close>.\<close>

definition at_core :: "status_core \<Rightarrow> 'w manager \<Rightarrow> bool" where
  "at_core c s \<longleftrightarrow> published_ok (mg_trace s) \<and> snapshot_fields (mg_snapshot s) \<and>
     length (mg_queue s) \<le> MODEM_MANAGER_QUEUE_DEPTH \<and> list_all event_ok (mg_queue s) \<and> core (mg_snapshot s) = c"

definition manager_inv :: "'w manager \<Rightarrow> bool" where
  "manager_inv s \<longleftrightarrow> (\<exists>c. at_core c s \<and> coherent c)"

section \<open>Single operations\<close>

lemma triple_seq: "triple P m (\<lambda>_. P) \<Longrightarrow> (\<And>a. triple P (f a) R) \<Longrightarrow> triple P (m \<bind> f) R"
  by (rule triple_bind)

lemma published_ok_simps [simp]:
  "published_ok []"
  "published_ok (t @ [Sent r]) = published_ok t"
  "published_ok (t @ [Hard_Reset]) = published_ok t"
  "published_ok (t @ [Published p]) \<longleftrightarrow> published_ok t \<and> coherent (core p) \<and> snapshot_fields p"
  by (auto simp: published_ok_def)

named_theorems core_rules "operations that keep the core of the snapshot"

lemma core_now [core_rules]: "triple (at_core c) (now_ms env) (\<lambda>_. at_core c)"
  by (simp add: triple_def now_ms_def at_core_def split: prod.splits)

lemma core_snap [core_rules]:
  "(\<And>p. snapshot_fields p \<Longrightarrow> snapshot_fields (f p)) \<Longrightarrow> (\<And>p. core (f p) = core p) \<Longrightarrow>
   triple (at_core c) (snap f) (\<lambda>_. at_core c)"
  by (simp add: triple_def at_core_def)

lemma core_upd [core_rules]:
  "(\<And>s. mg_snapshot (f s) = mg_snapshot s \<and> mg_trace (f s) = mg_trace s \<and> mg_queue (f s) = mg_queue s) \<Longrightarrow>
   triple (at_core c) (upd f) (\<lambda>_. at_core c)"
  by (simp add: triple_def at_core_def)

lemma core_look [core_rules]: "(\<And>a. triple (at_core c) (f a) R) \<Longrightarrow> triple (at_core c) (look g \<bind> f) R"
  by (simp add: triple_def)

lemma core_ret [core_rules]: "triple (at_core c) (ret a) (\<lambda>_. at_core c)"
  by (simp add: triple_ret)

lemma core_send: "triple (at_core c) (State (\<lambda>s. case me_execute env rq r (mg_world s) of
    (e, r, w) \<Rightarrow> ((e, r), s\<lparr>mg_world := w, mg_trace := mg_trace s @ [Sent rq]\<rparr>))) (\<lambda>_. at_core c)"
  by (simp add: triple_def at_core_def split: prod.splits)

lemma fields_simps [simp]:
  "snapshot_fields (p\<lparr>ms_consecutive_failures := a\<rparr>) = snapshot_fields p"
  "snapshot_fields (p\<lparr>ms_last_at_success_ms := b\<rparr>) = snapshot_fields p"
  "snapshot_fields (p\<lparr>ms_last_error := e\<rparr>) = snapshot_fields p"
  "snapshot_fields (p\<lparr>ms_last_at_result := r\<rparr>) = snapshot_fields p"
  "snapshot_fields (p\<lparr>ms_last_modem_error_code := i\<rparr>) = snapshot_fields p"
  "snapshot_fields (p\<lparr>ms_last_status_update_ms := b\<rparr>) = snapshot_fields p"
  "snapshot_fields (p\<lparr>ms_state := st\<rparr>) = snapshot_fields p"
  "snapshot_fields (p\<lparr>ms_sim := sim\<rparr>) = snapshot_fields p"
  "snapshot_fields (p\<lparr>ms_circuit_registration := g\<rparr>) = snapshot_fields p"
  "snapshot_fields (p\<lparr>ms_packet_registration := g\<rparr>) = snapshot_fields p"
  "snapshot_fields (p\<lparr>ms_eps_registration := g\<rparr>) = snapshot_fields p"
  "snapshot_fields (p\<lparr>ms_registered := x\<rparr>) = snapshot_fields p"
  "snapshot_fields (p\<lparr>ms_roaming := x\<rparr>) = snapshot_fields p"
  "snapshot_fields (p\<lparr>ms_initialized := x\<rparr>) = snapshot_fields p"
  "snapshot_fields (p\<lparr>ms_transport_ready := x\<rparr>) = snapshot_fields p"
  "snapshot_fields (p\<lparr>ms_initialization_attempts := a\<rparr>) = snapshot_fields p"
  "snapshot_fields (p\<lparr>ms_status_polls := a\<rparr>) = snapshot_fields p"
  "snapshot_fields (p\<lparr>ms_recovery_attempts := a\<rparr>) = snapshot_fields p"
  "snapshot_fields (p\<lparr>ms_hard_resets := a\<rparr>) = snapshot_fields p"
  "snapshot_fields (p\<lparr>ms_urcs_processed := a\<rparr>) = snapshot_fields p"
  "snapshot_fields (p\<lparr>ms_urcs_dropped := a\<rparr>) = snapshot_fields p"
  "snapshot_fields (p\<lparr>ms_last_recovery_action := y\<rparr>) = snapshot_fields p"
  by (simp_all add: snapshot_fields_def)

lemma core_failure [core_rules]: "triple (at_core c) (snapshot_record_failure e r i) (\<lambda>_. at_core c)"
  unfolding snapshot_record_failure_def by (rule core_snap) (simp_all add: core_def)

lemma core_success [core_rules]: "triple (at_core c) (snapshot_record_success env r) (\<lambda>_. at_core c)"
  unfolding snapshot_record_success_def by (intro triple_seq core_now core_snap) (simp_all add: core_def)

lemma core_execute [core_rules]: "triple (at_core c) (execute_command env cmd ps t) (\<lambda>_. at_core c)"
  unfolding execute_command_def Let_def by (intro triple_seq core_send triple_rules core_rules)

lemma core_optional [core_rules]: "triple (at_core c) (execute_optional env cmd ps t) (\<lambda>_. at_core c)"
  unfolding execute_optional_def
  by (intro core_look triple_seq [OF core_execute] triple_seq [OF core_snap] triple_rules core_ret) (simp_all add: core_def)

lemma first_some_Some: "first_some f xs = Some y \<Longrightarrow> \<exists>x \<in> set xs. f x = Some y"
  by (induction xs) (auto split: option.splits)

lemma core_parse_into:
  assumes "\<And>l x p. parse l = Some x \<Longrightarrow> snapshot_fields p \<Longrightarrow> snapshot_fields (store x p)" and "\<And>x p. core (store x p) = core p"
  shows "triple (at_core c) (parse_into env parse store r) (\<lambda>_. at_core c)"
  unfolding parse_into_def
  by (intro triple_rules core_ret triple_seq [OF core_snap] triple_seq [OF core_now])
    (use assms in \<open>auto dest!: first_some_Some simp: core_def\<close>)

lemma operator_name: "modem_status_parse_operator l = Some x \<Longrightarrow> length (op_name x) < MODEM_OPERATOR_NAME_MAX"
  by (auto simp: modem_status_parse_operator_def Let_def MODEM_OPERATOR_NAME_MAX_def split: if_splits option.splits prod.splits)

lemma csq_signal: "modem_status_parse_csq l = Some g \<Longrightarrow> signal_ok g"
  using csq_in_range [of l g] by (simp add: signal_ok_def)

lemma identity_copied: "capacity > 0 \<Longrightarrow> identity_ok capacity (copy_identity capacity v)"
  by (auto simp: identity_ok_def copy_identity_def dest: in_set_takeD)

lemma core_set_registration [simp]:
  "core (set_registration t r p) = core p" "snapshot_fields (set_registration t r p) = snapshot_fields p"
  by (cases t; simp add: core_def)+

lemma core_query_signal [core_rules]: "triple (at_core c) (query_signal env) (\<lambda>_. at_core c)"
  unfolding query_signal_def response_parse_signal_def
  by (intro triple_seq core_execute triple_rules core_parse_into core_ret)
    (auto simp: core_def snapshot_fields_def csq_signal)

lemma core_query_operator [core_rules]: "triple (at_core c) (query_operator env) (\<lambda>_. at_core c)"
  unfolding query_operator_def response_parse_operator_def
  by (intro triple_seq core_optional triple_rules core_parse_into core_ret)
    (auto simp: core_def snapshot_fields_def operator_name)

lemma core_query_registration_one [core_rules]:
  "triple (at_core c) (query_registration_one env cmd prefix t opt) (\<lambda>_. at_core c)"
  unfolding query_registration_one_def response_parse_registration_def
  by (intro triple_seq triple_rules core_optional core_execute core_parse_into core_ret) auto

lemma core_configure [core_rules]: "triple (at_core c) (configure_registration_urc env a b) (\<lambda>_. at_core c)"
  unfolding configure_registration_urc_def by (intro triple_seq core_optional triple_rules core_ret)

lemma core_identity:
  assumes "\<And>v p. identity_ok capacity v \<Longrightarrow> snapshot_fields p \<Longrightarrow> snapshot_fields (store v p)"
    and "\<And>v p. core (store v p) = core p" and "capacity > 0"
  shows "triple (at_core c) (query_identity env cmd store capacity) (\<lambda>_. at_core c)"
  unfolding query_identity_def
  by (intro triple_seq core_optional triple_rules core_ret) (auto intro!: core_snap core_ret simp: assms identity_copied split: option.splits)

lemma core_set_next_poll [core_rules]: "triple (at_core c) (set_next_poll env d) (\<lambda>_. at_core c)"
  unfolding set_next_poll_def by (intro triple_seq core_now core_upd) simp

lemma core_set_next_operator_poll [core_rules]: "triple (at_core c) (set_next_operator_poll env) (\<lambda>_. at_core c)"
  unfolding set_next_operator_poll_def by (intro triple_seq core_now core_upd) simp

section \<open>Operations that change or publish the core\<close>

lemma emit_core: "coherent c \<Longrightarrow> triple (at_core c) emit_snapshot (\<lambda>_. at_core c)"
  by (auto simp: triple_def emit_snapshot_def at_core_def)

lemma set_state_core:
  "coherent (st', c) \<Longrightarrow> triple (at_core (st, c)) (snapshot_set_state st') (\<lambda>_. at_core (st', c))"
  by (auto simp: triple_def snapshot_set_state_def emit_snapshot_def at_core_def core_def)

text \<open>\<open>in_state st\<close>: the state is \<open>st\<close>, and a roaming modem counts as registered.\<close>

definition in_state :: "modem_manager_state \<Rightarrow> 'w manager \<Rightarrow> bool" where
  "in_state st s \<longleftrightarrow> (\<exists>sim registered roaming. at_core (st, sim, registered, roaming) s \<and> (roaming \<longrightarrow> registered))"

abbreviation quiet_state :: "modem_manager_state \<Rightarrow> bool" where
  "quiet_state st \<equiv> st \<notin> {MODEM_MANAGER_STOPPED, MODEM_MANAGER_READY, MODEM_MANAGER_NETWORK_WAIT, MODEM_MANAGER_SIM_WAIT}"

lemma in_state_core: "(\<And>c. triple (at_core c) m (\<lambda>_. at_core c)) \<Longrightarrow> triple (in_state st) m (\<lambda>_. in_state st)"
  by (simp add: triple_def in_state_def) blast

lemma in_state_set: "quiet_state st' \<Longrightarrow> triple (in_state st) (snapshot_set_state st') (\<lambda>_. in_state st')"
  unfolding triple_def
proof (intro allI impI)
  fix s :: "'a manager"
  assume q: "quiet_state st'" and "in_state st s"
  then obtain sim registered roaming where c: "at_core (st, sim, registered, roaming) s" "roaming \<longrightarrow> registered"
    by (auto simp: in_state_def)
  then have "coherent (st', sim, registered, roaming)" using q by simp
  from tripleD [OF set_state_core [OF this] c(1)] c(2)
  show "in_state st' (snd (run_state (snapshot_set_state st') s))" by (auto simp: in_state_def)
qed

lemma in_state_inv: "quiet_state st \<Longrightarrow> in_state st s \<Longrightarrow> manager_inv s"
  unfolding in_state_def manager_inv_def by auto

lemma inv_in_state: "manager_inv s \<Longrightarrow> \<exists>st. in_state st s"
  by (auto simp: in_state_def manager_inv_def)

lemma inv_core: "(\<And>c. triple (at_core c) m (\<lambda>_. at_core c)) \<Longrightarrow> triple manager_inv m (\<lambda>_. manager_inv)"
  by (simp add: triple_def manager_inv_def) blast

lemma triple_from_inv: "(\<And>st. triple (in_state st) m Q) \<Longrightarrow> triple manager_inv m Q"
  unfolding triple_def using inv_in_state by blast

lemma summary_roaming: "registration_summary p = (registered, roaming) \<Longrightarrow> roaming \<longrightarrow> registered"
  by (auto simp: registration_summary_def Let_def split: option.splits)

text \<open>The registration is computed afresh: afterwards the SIM and the state are as before.\<close>

definition with_sim :: "modem_manager_state \<Rightarrow> modem_sim_state \<Rightarrow> 'w manager \<Rightarrow> bool" where
  "with_sim st sim s \<longleftrightarrow> (\<exists>registered roaming. at_core (st, sim, registered, roaming) s \<and> (roaming \<longrightarrow> registered))"

lemma in_state_iff: "in_state st s \<longleftrightarrow> (\<exists>sim. with_sim st sim s)"
  by (auto simp: in_state_def with_sim_def)

lemma with_sim_core: "(\<And>c. triple (at_core c) m (\<lambda>_. at_core c)) \<Longrightarrow> triple (with_sim st sim) m (\<lambda>_. with_sim st sim)"
  by (simp add: triple_def with_sim_def) blast

lemma recompute_core: "triple (at_core (st, sim, c)) recompute_registration (\<lambda>_. with_sim st sim)"
  unfolding recompute_registration_def triple_def with_sim_def at_core_def
  by (auto simp: core_def split: prod.splits dest: summary_roaming)

lemma recompute_sim: "triple (with_sim st sim) recompute_registration (\<lambda>_. with_sim st sim)"
  using recompute_core unfolding triple_def with_sim_def by blast

lemma query_registration_sim: "triple (with_sim st sim) (query_registration env) (\<lambda>_. with_sim st sim)"
  unfolding query_registration_def
  by (intro triple_seq [OF with_sim_core] core_rules triple_seq [OF recompute_sim] triple_ret)

lemma snap_sim: "triple (in_state st) (snap (\<lambda>p. p\<lparr>ms_sim := sim\<rparr>)) (\<lambda>_. in_state st)"
  by (auto simp: triple_def in_state_def at_core_def core_def)

lemma query_sim_state: "triple (in_state st) (query_sim env) (\<lambda>_. in_state st)"
  unfolding query_sim_def response_parse_sim_def parse_into_def
  by (intro triple_seq [OF in_state_core] core_rules triple_rules triple_seq [OF snap_sim] triple_ret)
    (simp_all add: core_def)

lemma set_state_inv:
  "coherent (st', c) \<Longrightarrow> triple (\<lambda>s. at_core (st, c) s \<and> Q s) (snapshot_set_state st') (\<lambda>_. manager_inv)"
  unfolding triple_def manager_inv_def using tripleD [OF set_state_core] by blast

lemma update_core:
  assumes "roaming \<longrightarrow> registered"
  shows "triple (at_core (st, sim, registered, roaming)) update_state_after_poll (\<lambda>_. manager_inv)"
  unfolding update_state_after_poll_def
proof (rule triple_look_bind, rule triple_fact)
  fix p :: modem_manager_snapshot and s :: "'a manager"
  assume "at_core (st, sim, registered, roaming) s \<and> p = mg_snapshot s"
  then show "ms_sim p = sim \<and> ms_registered p = registered" by (simp add: at_core_def core_def)
next
  fix p :: modem_manager_snapshot
  assume "ms_sim p = sim \<and> ms_registered p = registered"
  then show "triple (\<lambda>s. at_core (st, sim, registered, roaming) s \<and> p = mg_snapshot s)
      (if ms_sim p \<noteq> MODEM_SIM_READY then snapshot_set_state MODEM_MANAGER_SIM_WAIT
       else if ms_registered p then snapshot_set_state MODEM_MANAGER_READY
       else snapshot_set_state MODEM_MANAGER_NETWORK_WAIT) (\<lambda>_. manager_inv)"
    using assms by (intro triple_if set_state_inv) auto
qed

lemma update_state: "triple (in_state st) update_state_after_poll (\<lambda>_. manager_inv)"
  using update_core unfolding triple_def in_state_def by blast

lemma emit_inv: "triple manager_inv emit_snapshot (\<lambda>_. manager_inv)"
  using emit_core unfolding triple_def manager_inv_def by blast

section \<open>The handlers\<close>

text \<open>Assignments that neither change the core nor spoil a field.\<close>

definition harmless :: "('w manager \<Rightarrow> 'w manager) \<Rightarrow> bool" where
  "harmless f \<longleftrightarrow> (\<forall>s. (snapshot_fields (mg_snapshot s) \<longrightarrow> snapshot_fields (mg_snapshot (f s))) \<and>
     core (mg_snapshot (f s)) = core (mg_snapshot s) \<and> mg_trace (f s) = mg_trace s \<and> mg_queue (f s) = mg_queue s)"

lemma core_harmless: "harmless f \<Longrightarrow> triple (at_core c) (upd f) (\<lambda>_. at_core c)"
  by (simp add: triple_def at_core_def harmless_def)

lemma hard_reset_core: "triple (at_core c) (hard_reset env) (\<lambda>_. at_core c)"
  by (simp add: triple_def hard_reset_def at_core_def split: option.split prod.splits)

lemmas core_ops = core_now core_execute core_optional core_query_signal core_query_operator core_configure
  core_set_next_poll core_set_next_operator_poll hard_reset_core

lemmas state_ops = core_ops [THEN in_state_core] in_state_core [OF core_identity] in_state_core [OF core_harmless]
  query_sim_state
lemmas state_seq = state_ops [THEN triple_seq]
lemmas sim_ops = core_ops [THEN with_sim_core] with_sim_core [OF core_harmless] query_registration_sim recompute_sim
lemmas sim_seq = sim_ops [THEN triple_seq]
lemmas inv_ops = core_ops [THEN inv_core] inv_core [OF core_harmless] emit_inv
lemmas inv_seq = inv_ops [THEN triple_seq]

lemma triple_look: "(\<And>a. triple P (f a) R) \<Longrightarrow> triple P (look g \<bind> f) R"
  by (simp add: triple_def)

lemma set_sim_wait:
  "sim \<noteq> MODEM_SIM_READY \<Longrightarrow> triple (with_sim st sim) (snapshot_set_state MODEM_MANAGER_SIM_WAIT) (\<lambda>_. manager_inv)"
  unfolding triple_def
proof (intro allI impI)
  fix s :: "'a manager"
  assume sim: "sim \<noteq> MODEM_SIM_READY" and "with_sim st sim s"
  then obtain registered roaming where c: "at_core (st, sim, registered, roaming) s" "roaming \<longrightarrow> registered"
    by (auto simp: with_sim_def)
  then have "coherent (MODEM_MANAGER_SIM_WAIT, sim, registered, roaming)" using sim by simp
  from tripleD [OF set_state_inv [OF this, of st "\<lambda>_. True"], of s] c(1)
  show "manager_inv (snd (run_state (snapshot_set_state MODEM_MANAGER_SIM_WAIT) s))" by simp
qed

lemma set_registered:
  "sim = MODEM_SIM_READY \<Longrightarrow> triple (\<lambda>s. with_sim st sim s \<and> registered = ms_registered (mg_snapshot s))
     (snapshot_set_state (if registered then MODEM_MANAGER_READY else MODEM_MANAGER_NETWORK_WAIT)) (\<lambda>_. manager_inv)"
  unfolding triple_def
proof (intro allI impI)
  fix s :: "'a manager"
  let ?st = "if registered then MODEM_MANAGER_READY else MODEM_MANAGER_NETWORK_WAIT"
  assume "sim = MODEM_SIM_READY" "with_sim st sim s \<and> registered = ms_registered (mg_snapshot s)"
  then obtain roaming where c: "at_core (st, MODEM_SIM_READY, registered, roaming) s" "roaming \<longrightarrow> registered"
    by (auto simp: with_sim_def at_core_def core_def)
  then have "coherent (?st, MODEM_SIM_READY, registered, roaming)" by simp
  from tripleD [OF set_state_inv [OF this, of st "\<lambda>_. True"], of s] c(1)
  show "manager_inv (snd (run_state (snapshot_set_state ?st) s))" by simp
qed

lemma finish_inv: "triple (in_state st) (finish_session env) (\<lambda>_. manager_inv)"
proof -
  have sim: "triple (\<lambda>s. in_state st s \<and> sim = ms_sim (mg_snapshot s)) m Q" if "triple (with_sim st sim) m Q" for sim m Q
    by (rule triple_weaken [OF that]) (auto simp: in_state_iff with_sim_def at_core_def core_def)
  show ?thesis
    unfolding finish_session_def
    by (intro state_seq triple_look_bind sim sim_seq triple_if triple_bind [OF set_sim_wait] inv_seq triple_ret
        triple_bind [OF set_registered]) (simp_all add: core_def harmless_def)
qed

lemma initialize_inv: "triple (in_state st) (initialize_session env) (\<lambda>_. manager_inv)"
proof -
  have failed: "triple (in_state MODEM_MANAGER_INITIALIZING) (ret False) (\<lambda>_. manager_inv)"
    by (rule triple_ret) (rule in_state_inv, simp_all)
  show ?thesis
    unfolding initialize_session_def
    by (intro triple_bind [OF in_state_set] state_seq triple_if triple_prod failed finish_inv)
      (simp_all add: core_def harmless_def snapshot_fields_def MODEM_IDENTITY_MAX_def MODEM_IMEI_MAX_def)
qed

lemma query_registration_state: "triple (in_state st) (query_registration env) (\<lambda>_. in_state st)"
  using query_registration_sim unfolding triple_def in_state_iff by blast

lemma poll_inv: "triple manager_inv (poll_status env) (\<lambda>_. manager_inv)"
  unfolding poll_status_def
  by (intro triple_from_inv state_seq triple_look triple_if triple_bind [OF update_state]
      inv_seq triple_ret triple_seq [OF query_registration_state] triple_seq [OF triple_if] state_ops)
    (simp_all add: core_def harmless_def)

lemma core_in_state: "at_core c s \<Longrightarrow> coherent c \<Longrightarrow> in_state (fst c) s"
  by (cases c) (auto simp: in_state_def)

lemma core_inv: "at_core c s \<Longrightarrow> coherent c \<Longrightarrow> manager_inv s"
  unfolding manager_inv_def by blast

lemma core_urc_update:
  "(\<And>p. core (f p) = core p) \<Longrightarrow> (\<And>p. snapshot_fields p \<Longrightarrow> snapshot_fields (f p)) \<Longrightarrow>
   triple (at_core c) (urc_status_update env f) (\<lambda>_. at_core c)"
  unfolding urc_status_update_def
  by (intro triple_seq [OF core_harmless] triple_seq [OF core_now] core_harmless) (simp_all add: harmless_def, simp add: core_def)

lemma core_urc_registration: "triple (at_core c) (urc_registration env line prefix t) (\<lambda>_. at_core c)"
  unfolding urc_registration_def
  by (intro triple_option triple_seq [OF core_urc_update] triple_seq [OF core_harmless]
      triple_seq [OF core_set_next_poll] core_ret) (simp_all add: harmless_def)

lemma state_urc_sim:
  "triple (in_state st) (urc_status_update env (\<lambda>p. p\<lparr>ms_sim := sim\<rparr>)) (\<lambda>_. in_state st)"
  unfolding urc_status_update_def
  by (intro triple_seq [OF snap_sim] state_seq state_ops) (simp add: harmless_def core_def)

lemma urc_changed_core:
  assumes "coherent c"
  shows "triple (at_core c) (urc_changed env line) (\<lambda>changed s. if changed then in_state (fst c) s else at_core c s)"
proof -
  let ?Q = "\<lambda>changed s. if changed then in_state (fst c) s else at_core c s"
  have core: "triple (at_core c) m ?Q" if "triple (at_core c) m (\<lambda>_. at_core c)" for m :: "('a, bool) mgr_m"
    by (rule triple_weaken [OF that]) (auto intro: core_in_state [OF _ assms])
  have state: "triple (at_core c) m ?Q" if "triple (in_state (fst c)) m (\<lambda>a s. a \<and> in_state (fst c) s)"
    for m :: "('a, bool) mgr_m"
    by (rule triple_weaken [OF that]) (auto intro: core_in_state [OF _ assms])
  show ?thesis
    unfolding urc_changed_def
  proof (intro triple_option)
    fix sim
    show "triple (at_core c) (urc_status_update env (\<lambda>p. p\<lparr>ms_sim := sim\<rparr>) \<bind> (\<lambda>_.
        (if sim = MODEM_SIM_READY then upd (\<lambda>s. s\<lparr>mg_reinitialize_pending := True\<rparr>) \<bind> (\<lambda>_. set_next_poll env 0)
         else ret ()) \<bind> (\<lambda>_. ret True))) ?Q"
      by (intro state triple_seq [OF state_urc_sim] triple_seq [OF triple_if] state_seq state_ops triple_ret)
        (simp_all add: harmless_def)
  next
    fix signal
    assume "modem_status_parse_csq (Some line) = Some signal"
    then show "triple (at_core c) (urc_status_update env (\<lambda>p. p\<lparr>ms_signal := signal\<rparr>) \<bind> (\<lambda>_. ret True)) ?Q"
      by (intro core triple_seq [OF core_urc_update] core_ret) (simp_all add: core_def snapshot_fields_def csq_signal)
  qed (intro core triple_seq [OF core_urc_registration] triple_if core_ret core_urc_registration)
qed

lemma handle_urc_inv: "triple manager_inv (manager_handle_urc_line env line) (\<lambda>_. manager_inv)"
proof -
  have recompute: "triple (in_state st) recompute_registration (\<lambda>_. in_state st)" for st
    using recompute_sim unfolding triple_def in_state_iff by blast
  have after: "triple (in_state st) (recompute_registration \<bind> (\<lambda>_. update_state_after_poll \<bind> (\<lambda>_. emit_snapshot)))
      (\<lambda>_. manager_inv)" for st
    by (rule triple_seq [OF recompute triple_bind [OF update_state emit_inv]])
  have "triple (at_core c) (manager_handle_urc_line env line) (\<lambda>_. manager_inv)" if "coherent c" for c
    unfolding manager_handle_urc_line_def
    by (intro triple_bind [OF urc_changed_core [OF that]] triple_if)
      (use that after in \<open>auto intro!: triple_ret intro: core_inv\<close>)
  then show ?thesis unfolding triple_def manager_inv_def by blast
qed

lemma quiet_inv:
  assumes "quiet_state st" "triple (in_state st) m (\<lambda>_. in_state st)"
  shows "triple (in_state st) m (\<lambda>_. manager_inv)"
  by (rule triple_weaken [OF assms(2)]) (use assms(1) in \<open>auto intro: in_state_inv\<close>)

lemma quiet_set_inv: "quiet_state st' \<Longrightarrow> triple (in_state st) (snapshot_set_state st') (\<lambda>_. manager_inv)"
  by (rule triple_weaken [OF in_state_set]) (auto intro: in_state_inv)

lemma quiet_set_seq:
  "quiet_state st' \<Longrightarrow> (\<And>a. triple (in_state st') (f a) R) \<Longrightarrow> triple manager_inv (snapshot_set_state st' \<bind> f) R"
  by (rule triple_from_inv) (rule triple_bind [OF in_state_set])

lemma recovery_inv: "triple manager_inv (schedule_recovery env) (\<lambda>_. manager_inv)"
  unfolding schedule_recovery_def perform_recovery_def Let_def
  by (intro triple_look triple_prod inv_seq triple_if triple_ret quiet_set_seq state_seq
      quiet_inv [OF _ in_state_core [OF core_harmless]] quiet_inv [OF _ in_state_core [OF core_set_next_poll]]
      triple_seq [OF triple_if] state_ops quiet_set_inv) (simp_all add: harmless_def core_def)

lemma restart_inv: "triple manager_inv (handle_manual_restart env) (\<lambda>_. manager_inv)"
  unfolding handle_manual_restart_def
  by (intro triple_look triple_prod triple_if triple_ret quiet_set_seq state_seq quiet_set_inv)
    (auto simp: harmless_def core_def intro: in_state_inv [of MODEM_MANAGER_RECOVERY])

lemma pin_inv: "triple manager_inv (handle_sim_pin env pin) (\<lambda>_. manager_inv)"
  unfolding handle_sim_pin_def
  by (intro triple_look triple_prod triple_if triple_ret inv_seq inv_ops) (simp_all add: harmless_def core_def)

lemma ready_inv: "triple manager_inv (handle_transport_ready env) (\<lambda>_. manager_inv)"
  unfolding handle_transport_ready_def
  by (rule triple_from_inv) (intro state_seq quiet_set_inv; simp add: harmless_def core_def)

lemma lost_inv: "triple manager_inv handle_transport_lost (\<lambda>_. manager_inv)"
proof -
  have lost: "triple (in_state st) (snap (\<lambda>p. p\<lparr>ms_transport_ready := False, ms_initialized := False, ms_registered := False,
       ms_roaming := False, ms_sim := MODEM_SIM_UNKNOWN,
       ms_circuit_registration := (ms_circuit_registration p)\<lparr>rg_status := MODEM_REG_UNKNOWN\<rparr>,
       ms_packet_registration := (ms_packet_registration p)\<lparr>rg_status := MODEM_REG_UNKNOWN\<rparr>,
       ms_eps_registration := (ms_eps_registration p)\<lparr>rg_status := MODEM_REG_UNKNOWN\<rparr>\<rparr>)) (\<lambda>_. in_state st)" for st
    by (auto simp: triple_def in_state_def at_core_def core_def)
  show ?thesis
    unfolding handle_transport_lost_def
    by (rule triple_from_inv) (intro triple_seq [OF lost] state_seq triple_bind [OF quiet_set_inv] emit_inv;
      simp add: harmless_def core_def)
qed

lemma dispatch_inv: "triple manager_inv (manager_dispatch env e) (\<lambda>_. manager_inv)"
  by (cases e) (simp_all add: ready_inv lost_inv handle_urc_inv pin_inv restart_inv)

section \<open>Turns\<close>

lemma manager_poll_inv: "triple manager_inv (manager_poll env) (\<lambda>_. manager_inv)"
  unfolding manager_poll_def
  by (intro triple_seq [OF poll_inv] triple_look triple_seq [OF triple_if] inv_seq recovery_inv inv_ops)
    (simp_all add: harmless_def Let_def)

lemma work_inv: "triple manager_inv (manager_work env) (\<lambda>_. manager_inv)"
proof -
  have due: "triple manager_inv (session_due env) (\<lambda>_. manager_inv)"
    unfolding session_due_def by (intro triple_look triple_if triple_ret inv_seq) simp_all
  show ?thesis
    unfolding manager_work_def
    by (intro triple_look triple_if triple_ret triple_seq [OF due] inv_seq triple_seq [OF triple_from_inv [OF initialize_inv]]
        triple_seq [OF recovery_inv] inv_ops manager_poll_inv) (simp_all add: harmless_def)
qed

lemma receive_inv: "triple manager_inv (receive_event env ticks) (\<lambda>_. manager_inv)"
  by (auto simp: triple_def receive_event_def manager_inv_def at_core_def split: list.splits)

lemma turn_inv: "triple manager_inv (manager_turn env) (\<lambda>_. manager_inv)"
proof -
  have wait: "triple manager_inv (next_wait_ticks env) (\<lambda>_. manager_inv)"
    unfolding next_wait_ticks_def Let_def by (intro triple_look triple_if triple_ret inv_seq) simp_all
  show ?thesis
    unfolding manager_turn_def
    by (intro triple_seq [OF wait] triple_seq [OF receive_inv] triple_seq [OF triple_option] triple_ret dispatch_inv work_inv)
qed

section \<open>Runs\<close>

text \<open>
  A run starts when the initialisation succeeds; then turns of the task and calls of other tasks
  alternate in any order, and the modem and the clock change between them. The task has a turn when
  an event is queued or its wait ends, which it does only while the transport is there.
\<close>

inductive manager_reachable :: "'w manager_env \<Rightarrow> 'w manager \<Rightarrow> bool" for env where
  start: "mg_trace s0 = [] \<Longrightarrow> run_state (modem_manager_init tok cb qok pok) s0 = (ESP_OK, s) \<Longrightarrow> manager_reachable env s"
| turn: "manager_reachable env s \<Longrightarrow> mg_queue s \<noteq> [] \<or> ms_transport_ready (mg_snapshot s) \<Longrightarrow>
    manager_reachable env (snd (run_state (manager_turn env) s))"
| ready: "manager_reachable env s \<Longrightarrow> manager_reachable env (snd (run_state modem_manager_notify_transport_ready s))"
| lost: "manager_reachable env s \<Longrightarrow> manager_reachable env (snd (run_state modem_manager_notify_transport_lost s))"
| urc: "manager_reachable env s \<Longrightarrow> manager_reachable env (snd (run_state (modem_manager_handle_urc l) s))"
| restart: "manager_reachable env s \<Longrightarrow> manager_reachable env (snd (run_state modem_manager_request_restart s))"
| pin: "manager_reachable env s \<Longrightarrow> manager_reachable env (snd (run_state (modem_manager_submit_sim_pin p) s))"
| world: "manager_reachable env s \<Longrightarrow> manager_reachable env (s\<lparr>mg_world := w\<rparr>)"

lemma send_inv:
  "event_ok e \<Longrightarrow> triple manager_inv (send_back e) (\<lambda>_. manager_inv)"
  "event_ok e \<Longrightarrow> triple manager_inv (send_front e) (\<lambda>_. manager_inv)"
  by (auto simp: triple_def send_back_def send_front_def manager_inv_def at_core_def)

lemma simple_event_inv: "event_ok e \<Longrightarrow> triple manager_inv (manager_queue_simple_event e) (\<lambda>_. manager_inv)"
proof -
  assume e: "event_ok e"
  have clear: "triple manager_inv (upd (\<lambda>s. s\<lparr>mg_queue := []\<rparr>)) (\<lambda>_. manager_inv)"
    by (auto simp: triple_def manager_inv_def at_core_def)
  show ?thesis
    unfolding manager_queue_simple_event_def
    by (intro triple_look triple_if triple_ret triple_seq [OF triple_if] send_inv e triple_seq [OF clear] triple_seq [OF send_inv(2)])
qed

lemma urc_inv: "triple manager_inv (modem_manager_handle_urc l) (\<lambda>_. manager_inv)"
  unfolding modem_manager_handle_urc_def
  by (intro triple_look triple_option triple_if triple_ret triple_seq [OF send_inv(1)] inv_ops)
    (simp_all add: harmless_def core_def)

lemma submit_pin_inv: "triple manager_inv (modem_manager_submit_sim_pin p) (\<lambda>_. manager_inv)"
  unfolding modem_manager_submit_sim_pin_def Let_def
  by (intro triple_look triple_option triple_if triple_ret triple_seq [OF send_inv(1)])
    (simp_all add: MODEM_MANAGER_PIN_MAX_def)

lemma restart_request_inv: "triple manager_inv modem_manager_request_restart (\<lambda>_. manager_inv)"
  unfolding modem_manager_request_restart_def
  by (intro triple_look triple_if triple_ret triple_seq [OF send_inv(1)]) simp_all

lemma initial_coherent: "coherent (core initial_snapshot)" "snapshot_fields initial_snapshot"
  by (simp_all add: core_def snapshot_fields_def initial_snapshot_def Let_def signal_ok_def identity_ok_def
      MODEM_OPERATOR_NAME_MAX_def MODEM_IDENTITY_MAX_def MODEM_IMEI_MAX_def)

lemma init_inv: "mg_trace s0 = [] \<Longrightarrow> run_state (modem_manager_init tok cb qok pok) s0 = (ESP_OK, s) \<Longrightarrow> manager_inv s"
  using initial_coherent by (auto simp: modem_manager_init_def manager_inv_def at_core_def split: if_splits)

lemma reachable_inv: "manager_reachable env s \<Longrightarrow> manager_inv s"
proof (induction rule: manager_reachable.induct)
  case (start s0 tok cb qok pok s)
  then show ?case by (rule init_inv)
next
  case (world s w)
  then show ?case by (simp add: manager_inv_def at_core_def)
qed (auto intro: tripleD [OF turn_inv] tripleD [OF simple_event_inv] tripleD [OF urc_inv] tripleD [OF restart_request_inv]
    tripleD [OF submit_pin_inv] simp: modem_manager_notify_transport_ready_def modem_manager_notify_transport_lost_def)

section \<open>Properties\<close>

definition demo_modem :: "int manager_env" where
  "demo_modem = \<lparr>me_execute = (\<lambda>rq r w. (ESP_FAIL, r, w)), me_hard_reset = Some (\<lambda>w. (ESP_OK, w)),
     me_now_ms = (\<lambda>w. (w, w)), me_wait = (\<lambda>t w. w + 60000), me_tick_rate_hz = 100, me_poll_ready_ms = 30000,
     me_poll_wait_ms = 5000, me_failures_before_recovery = 3, me_hard_reset_after_recoveries = 2, me_recovery_backoff_ms = 5000\<rparr>"

definition demo_manager :: "int manager" where
  "demo_manager = \<lparr>mg_initialized = True, mg_event_cb = True, mg_queue = [], mg_snapshot = initial_snapshot,
     mg_recoveries_since_hard_reset = 0, mg_successful_poll_cycles = 0, mg_reinitialize_pending = False,
     mg_next_poll_ms = 0, mg_next_operator_poll_ms = 0, mg_world = 0, mg_trace = []\<rparr>"

lemma demo_start: "run_state (modem_manager_init True True True True) (demo_manager\<lparr>mg_initialized := False\<rparr>) = (ESP_OK, demo_manager)"
  by (simp add: modem_manager_init_def demo_manager_def)

text \<open>C23: In every run, whatever the modem answers, each snapshot handed to the callback and the one
  \<open>modem_manager_get_snapshot\<close> returns between the turns of the task are coherent: \<open>READY\<close> is reported
  only with an unlocked SIM and a registration, \<open>NETWORK_WAIT\<close> only with an unlocked SIM and none,
  \<open>SIM_WAIT\<close> only without an unlocked SIM, and roaming only when registered; the signal values are in
  range and the texts fit their arrays and are printable. The queue never exceeds its depth.\<close>

theorem manager_snapshots_coherent:
  assumes "manager_reachable env s" and "p = mg_snapshot s \<or> Published p \<in> set (mg_trace s)"
  shows "coherent (core p) \<and> snapshot_fields p \<and> length (mg_queue s) \<le> MODEM_MANAGER_QUEUE_DEPTH"
  using reachable_inv [OF assms(1)] assms(2) by (auto simp: manager_inv_def at_core_def published_ok_def)

theorem manager_snapshots_coherent_witness: "\<exists>s. manager_reachable demo_modem s \<and> coherent (core (mg_snapshot s))"
proof -
  have r: "manager_reachable demo_modem demo_manager" using demo_start by (rule manager_reachable.start [rotated]) (simp add: demo_manager_def)
  from manager_snapshots_coherent [OF r disjI1 [OF refl]] r show ?thesis by blast
qed

end
