(* ===== verification/Modem_Recovery.thy ===== *)
theory Modem_Recovery
  imports Modem_Runs
begin

text \<open>
  What the modem manager does when the modem is gone. While the transport is lost nothing is sent;
  a modem that stays connected but answers nothing is reset in the end, however the failing
  commands, the polls and the attempts to start a new session alternate. The second part follows
  the failure counter and the escalation counter through the turns and gives a measure that every
  turn with work decreases.
\<close>

section \<open>Nothing is sent while the transport is lost\<close>

definition wire :: "manager_action list \<Rightarrow> manager_action list" where
  "wire trace = filter (\<lambda>a. case a of Published _ \<Rightarrow> False | _ \<Rightarrow> True) trace"

lemma wire_simps [simp]:
  "wire (t @ [Published p]) = wire t" "wire (t @ [Sent r]) = wire t @ [Sent r]" "wire (t @ [Hard_Reset]) = wire t @ [Hard_Reset]"
  by (simp_all add: wire_def)

definition offline :: "manager_action list \<Rightarrow> 'w manager \<Rightarrow> bool" where
  "offline t s \<longleftrightarrow> \<not> ms_transport_ready (mg_snapshot s) \<and> wire (mg_trace s) = t"

lemma offline_now: "triple (offline t) (now_ms env) (\<lambda>_. offline t)"
  by (simp add: triple_def now_ms_def offline_def split: prod.splits)

lemma offline_upd:
  "(\<And>s. ms_transport_ready (mg_snapshot (f s)) \<longrightarrow> ms_transport_ready (mg_snapshot s)) \<Longrightarrow>
   (\<And>s. mg_trace (f s) = mg_trace s) \<Longrightarrow> triple (offline t) (upd f) (\<lambda>_. offline t)"
  by (auto simp: triple_def offline_def)

lemma offline_emit: "triple (offline t) emit_snapshot (\<lambda>_. offline t)"
  by (simp add: triple_def emit_snapshot_def offline_def)

lemma offline_set_state: "triple (offline t) (snapshot_set_state st) (\<lambda>_. offline t)"
  unfolding snapshot_set_state_def
  by (intro triple_look triple_if triple_seq [OF offline_upd] offline_emit triple_ret) simp_all

lemma offline_recompute: "triple (offline t) recompute_registration (\<lambda>_. offline t)"
  unfolding recompute_registration_def by (rule offline_upd) (simp_all split: prod.splits)

lemma offline_update: "triple (offline t) update_state_after_poll (\<lambda>_. offline t)"
  unfolding update_state_after_poll_def by (intro triple_look triple_if offline_set_state)

lemma offline_next_poll: "triple (offline t) (set_next_poll env d) (\<lambda>_. offline t)"
  unfolding set_next_poll_def by (intro triple_seq [OF offline_now] offline_upd) simp_all

lemma offline_urc_update:
  "(\<And>p. ms_transport_ready (f p) = ms_transport_ready p) \<Longrightarrow> triple (offline t) (urc_status_update env f) (\<lambda>_. offline t)"
  unfolding urc_status_update_def
  by (intro triple_seq [OF offline_upd] triple_seq [OF offline_now] offline_upd) simp_all

lemma transport_set_registration [simp]: "ms_transport_ready (set_registration g r p) = ms_transport_ready p"
  by (cases g) simp_all

lemma offline_urc_registration: "triple (offline t) (urc_registration env line prefix g) (\<lambda>_. offline t)"
  unfolding urc_registration_def
  by (intro triple_option triple_seq [OF offline_urc_update] triple_seq [OF offline_upd] triple_seq [OF offline_next_poll] triple_ret)
    simp_all

lemma offline_urc: "triple (offline t) (manager_handle_urc_line env line) (\<lambda>_. offline t)"
proof -
  have "triple (offline t) (urc_changed env line) (\<lambda>_. offline t)"
    unfolding urc_changed_def
    by (intro triple_option triple_seq [OF offline_urc_update] triple_seq [OF triple_if] triple_seq [OF offline_upd]
        triple_seq [OF offline_urc_registration] triple_if offline_next_poll offline_urc_registration triple_ret) simp_all
  then show ?thesis
    unfolding manager_handle_urc_line_def
    by (intro triple_seq triple_if offline_recompute offline_update offline_emit triple_ret)
qed

lemma triple_read: "(\<And>a. triple (\<lambda>s. P s \<and> a = g s) (f a) R) \<Longrightarrow> triple P (look g \<bind> f) R"
  by (rule triple_look_bind)

lemma offline_dispatch: "e \<noteq> MANAGER_EVENT_TRANSPORT_READY \<Longrightarrow> triple (offline t) (manager_dispatch env e) (\<lambda>_. offline t)"
proof (cases e)
  case MANAGER_EVENT_TRANSPORT_LOST
  then show ?thesis
    by (simp add: handle_transport_lost_def)
      (intro triple_seq [OF offline_upd] triple_seq [OF offline_set_state] offline_emit; simp)
next
  case (MANAGER_EVENT_SIM_PIN pin)
  then show ?thesis by (simp add: triple_def handle_sim_pin_def offline_def)
next
  case MANAGER_EVENT_MANUAL_RESTART
  then show ?thesis by (simp add: triple_def handle_manual_restart_def offline_def)
qed (simp_all add: offline_urc)

lemma offline_turn:
  assumes "offline t s" "mg_queue s = [] \<or> hd (mg_queue s) \<noteq> MANAGER_EVENT_TRANSPORT_READY"
  shows "offline t (snd (run_state (manager_turn env) s))"
proof -
  have work: "triple (offline t) (manager_work env) (\<lambda>_. offline t)"
    by (simp add: triple_def manager_work_def offline_def)
  have wait: "run_state (next_wait_ticks env) s = (None, s)" using assms(1) by (simp add: next_wait_ticks_def offline_def)
  show ?thesis
  proof (cases "mg_queue s")
    case Nil
    moreover have "offline t (s\<lparr>mg_world := me_wait env None (mg_world s)\<rparr>)" using assms(1) by (simp add: offline_def)
    ultimately show ?thesis using tripleD [OF work] by (simp add: manager_turn_def wait receive_event_def)
  next
    case (Cons e q)
    then have e: "e \<noteq> MANAGER_EVENT_TRANSPORT_READY" using assms(2) by simp
    have "offline t (s\<lparr>mg_queue := q\<rparr>)" using assms(1) by (simp add: offline_def)
    from tripleD [OF triple_seq [OF offline_dispatch [OF e] work] this] show ?thesis
      using Cons by (simp add: manager_turn_def wait receive_event_def)
  qed
qed

section \<open>A modem that does not answer\<close>

definition dead :: "'w manager_env \<Rightarrow> bool" where
  "dead env \<longleftrightarrow> (\<forall>rq r w. case me_execute env rq r w of (e, r', _) \<Rightarrow> e \<noteq> ESP_OK \<or> rs_result r' \<noteq> AT_RESULT_OK)"

definition resets :: "'w manager \<Rightarrow> nat" where
  "resets s = length (filter (\<lambda>a. a = Hard_Reset) (mg_trace s))"

text \<open>
  What the escalation depends on: the transport is there, no event is queued, \<open>n\<close> hard resets so
  far, \<open>f\<close> failures in a row, a session pending or not, \<open>r\<close> rounds since the last hard reset.
\<close>

definition watch :: "nat \<Rightarrow> u32 \<Rightarrow> bool \<Rightarrow> u32 \<Rightarrow> 'w manager \<Rightarrow> bool" where
  "watch n f pending r s \<longleftrightarrow> ms_transport_ready (mg_snapshot s) \<and> mg_queue s = [] \<and> resets s = n \<and>
     ms_consecutive_failures (mg_snapshot s) = f \<and> mg_reinitialize_pending s = pending \<and>
     mg_recoveries_since_hard_reset s = r"

lemma watch_now: "triple (watch n f p r) (now_ms env) (\<lambda>_. watch n f p r)"
  by (simp add: triple_def now_ms_def watch_def resets_def split: prod.splits)

lemma watch_upd:
  "(\<And>s. watch n f p r s \<Longrightarrow> watch n f' p' r' (g s)) \<Longrightarrow> triple (watch n f p r) (upd g) (\<lambda>_. watch n f' p' r')"
  by (rule triple_upd)

lemma watch_emit: "triple (watch n f p r) emit_snapshot (\<lambda>_. watch n f p r)"
  by (simp add: triple_def emit_snapshot_def watch_def resets_def)

lemma watch_set_state: "triple (watch n f p r) (snapshot_set_state st) (\<lambda>_. watch n f p r)"
  unfolding snapshot_set_state_def
  by (intro triple_look triple_if triple_seq [OF watch_upd] watch_emit triple_ret) (simp_all add: watch_def resets_def)

lemma watch_update: "triple (watch n f p r) update_state_after_poll (\<lambda>_. watch n f p r)"
  unfolding update_state_after_poll_def by (intro triple_look triple_if watch_set_state)

lemma watch_recompute: "triple (watch n f p r) recompute_registration (\<lambda>_. watch n f p r)"
  unfolding recompute_registration_def by (rule watch_upd) (simp add: watch_def resets_def split: prod.splits)

lemma watch_next_poll: "triple (watch n f p r) (set_next_poll env d) (\<lambda>_. watch n f p r)"
  unfolding set_next_poll_def by (intro triple_seq [OF watch_now] watch_upd) (simp add: watch_def resets_def)

lemma watch_next_operator_poll: "triple (watch n f p r) (set_next_operator_poll env) (\<lambda>_. watch n f p r)"
  unfolding set_next_operator_poll_def by (intro triple_seq [OF watch_now] watch_upd) (simp add: watch_def resets_def)

lemmas watch_seq = watch_now [THEN triple_seq] watch_emit [THEN triple_seq] watch_set_state [THEN triple_seq]
  watch_update [THEN triple_seq] watch_recompute [THEN triple_seq] watch_next_poll [THEN triple_seq]

lemma dead_execute:
  assumes "dead env"
  shows "triple (watch n f p r) (execute_command env cmd ps t) (\<lambda>a s. \<not> fst a \<and> watch n (f + 1) p r s)"
proof -
  have "e \<noteq> ESP_OK \<or> rs_result r' \<noteq> AT_RESULT_OK" if "me_execute env rq r w = (e, r', w')" for rq r w e r' w'
    using assms that unfolding dead_def by (metis (mono_tags, lifting) case_prod_conv)
  then show ?thesis
    by (auto simp: triple_def execute_command_def Let_def snapshot_record_failure_def watch_def resets_def
        split: prod.splits)
qed

lemma dead_optional:
  assumes "dead env"
  shows "triple (watch n f p r) (execute_optional env cmd ps t) (\<lambda>a s. \<not> fst a \<and> watch n f p r s)"
proof -
  have "\<not> fst (fst x) \<and> watch n (f + 1) p r (snd x)"
    if "watch n f p r s" "run_state (execute_command env cmd ps t) s = x" for s x
    using tripleD [OF dead_execute [OF assms] that(1)] that(2) by blast
  then show ?thesis
    by (fastforce simp: triple_def execute_optional_def watch_def resets_def split: prod.splits)
qed

text \<open>An answer that fails is followed by the branch for failure.\<close>

lemma triple_failed:
  "triple P m (\<lambda>a s. \<not> fst a \<and> Q s) \<Longrightarrow> (\<And>b. triple Q (f (False, b)) R) \<Longrightarrow> triple P (m \<bind> f) R"
  by (rule triple_bind, assumption) (auto simp: triple_def)

lemma dead_query_sim: "dead env \<Longrightarrow> triple (watch n f p r) (query_sim env) (\<lambda>ok s. \<not> ok \<and> watch n (f + 1) p r s)"
  unfolding query_sim_def by (rule triple_failed [OF dead_execute]) (simp_all add: triple_ret)

lemma dead_query_signal: "dead env \<Longrightarrow> triple (watch n f p r) (query_signal env) (\<lambda>ok s. \<not> ok \<and> watch n (f + 1) p r s)"
  unfolding query_signal_def by (rule triple_failed [OF dead_execute]) (simp_all add: triple_ret)

lemma dead_query_operator: "dead env \<Longrightarrow> triple (watch n f p r) (query_operator env) (\<lambda>_. watch n f p r)"
  unfolding query_operator_def by (rule triple_failed [OF dead_optional]) (simp_all add: triple_ret)

lemma dead_query_one:
  "dead env \<Longrightarrow> triple (watch n f p r) (query_registration_one env cmd prefix g opt)
     (\<lambda>ok s. \<not> ok \<and> watch n (if opt then f else f + 1) p r s)"
  unfolding query_registration_one_def
  by (cases opt) (auto intro!: triple_failed [OF dead_optional] triple_failed [OF dead_execute] triple_ret)

lemma triple_false: "triple P m (\<lambda>ok s. \<not> ok \<and> Q s) \<Longrightarrow> triple Q (f False) R \<Longrightarrow> triple P (m \<bind> f) R"
  by (rule triple_bind, assumption) (auto simp: triple_def)

lemma dead_query_registration:
  "dead env \<Longrightarrow> triple (watch n f p r) (query_registration env) (\<lambda>ok s. \<not> ok \<and> watch n (f + 1) p r s)"
  unfolding query_registration_def
  by (intro triple_false [OF dead_query_one] watch_seq triple_ret) simp_all

text \<open>A value that is known from the precondition.\<close>

lemma triple_known: "(\<And>s. P s \<Longrightarrow> g s = v) \<Longrightarrow> triple P (f v) R \<Longrightarrow> triple P (look g \<bind> f) R"
  by (simp add: triple_def)

lemma dead_poll:
  assumes "dead env"
  shows "triple (watch n f p r) (poll_status env) (\<lambda>ok s. \<not> ok \<and> (watch n (f + 1) p r s \<or> watch n (f + 2) p r s))"
proof -
  have op: "triple (watch n f p r) (if c then query_operator env \<bind> (\<lambda>_. set_next_operator_poll env) else ret ())
      (\<lambda>_. watch n f p r)" for c f
    by (intro triple_if triple_seq [OF dead_query_operator] watch_next_operator_poll triple_ret assms)
  show ?thesis
    unfolding poll_status_def
    by (intro triple_seq [OF watch_upd] triple_look triple_if triple_false [OF dead_query_sim] watch_seq
        triple_false [OF dead_query_registration] triple_false [OF dead_query_signal] triple_seq [OF op] triple_ret assms)
      (auto simp: watch_def resets_def add.assoc)
qed

lemma dead_initialize:
  assumes "dead env"
  shows "triple (watch n f p r) (initialize_session env) (\<lambda>ok s. \<not> ok \<and> watch n (f + 1) p r s)"
  unfolding initialize_session_def
  by (intro watch_seq triple_seq [OF watch_upd] triple_failed [OF dead_execute] triple_prod assms)
    (auto simp: watch_def resets_def intro!: triple_ret)

definition kconfig :: "'w manager_env \<Rightarrow> bool" where
  "kconfig env \<longleftrightarrow> me_failures_before_recovery env \<in> {2..10} \<and> me_hard_reset_after_recoveries env \<in> {1..10}"

text \<open>How many more turns with work a dead modem can survive.\<close>

definition effort :: "'w manager_env \<Rightarrow> u32 \<Rightarrow> u32 \<Rightarrow> nat" where
  "effort env f r =
     (unat (me_hard_reset_after_recoveries env) + 1 - unat r) * (unat (me_failures_before_recovery env) + 1) +
     (unat (me_failures_before_recovery env) - unat f)"

definition progress :: "'w manager_env \<Rightarrow> nat \<Rightarrow> nat \<Rightarrow> 'w manager \<Rightarrow> bool" where
  "progress env n k s \<longleftrightarrow> resets s = Suc n \<or>
     (\<exists>f p r. watch n f p r s \<and> r \<le> me_hard_reset_after_recoveries env \<and> f < 0xFFFFFFFE \<and> effort env f r < k)"

lemma progressI:
  "watch n f p r s \<Longrightarrow> r \<le> me_hard_reset_after_recoveries env \<Longrightarrow> f < 0xFFFFFFFE \<Longrightarrow> effort env f r < k \<Longrightarrow> progress env n k s"
  unfolding progress_def by blast

lemma round_number:
  assumes "kconfig env" "r \<le> me_hard_reset_after_recoveries env"
  shows "unat (r + 1) = unat r + 1"
proof -
  have "unat r \<le> 10" using assms by (auto simp: kconfig_def word_le_nat_alt)
  then show ?thesis by (simp add: unat_word_ariths)
qed

lemma failure_number:
  fixes f :: u32
  assumes "f < 0xFFFFFFFE"
  shows "unat (f + 1) = unat f + 1" "unat (f + 2) = unat f + 2"
  using assms by (simp_all add: unat_word_ariths word_less_nat_alt)

lemma effort_round:
  assumes "kconfig env" "r \<le> me_hard_reset_after_recoveries env"
  shows "effort env 0 (r + 1) < effort env f r"
proof -
  let ?H = "unat (me_hard_reset_after_recoveries env)"
  have "unat r \<le> ?H" using assms(2) by (simp add: word_le_nat_alt)
  then have "?H + 1 - unat r = Suc (?H - unat r)" "?H + 1 - unat (r + 1) = ?H - unat r"
    using round_number [OF assms] by simp_all
  then show ?thesis by (simp add: effort_def)
qed

lemma watch_recovery:
  assumes "dead env" "action \<in> {MODEM_RECOVERY_REINITIALIZE, MODEM_RECOVERY_FUNCTIONAL_RESET}"
  shows "triple (watch n f p r) (perform_recovery env action) (\<lambda>_. watch n 0 True r)"
proof -
  have "triple (watch n f p r) (upd (\<lambda>s. s\<lparr>mg_reinitialize_pending := True\<rparr>) \<bind>
      (\<lambda>_. snap (\<lambda>p. p\<lparr>ms_consecutive_failures := 0\<rparr>))) (\<lambda>_. watch n 0 True r)"
    by (simp add: triple_def watch_def resets_def)
  moreover have "triple (watch n f p r) (execute_optional env ''AT+CFUN=1,1'' [] 5000 \<bind>
      (\<lambda>_. snap (\<lambda>p. p\<lparr>ms_initialized := False, ms_consecutive_failures := 0\<rparr>) \<bind> (\<lambda>_.
       upd (\<lambda>s. s\<lparr>mg_reinitialize_pending := True\<rparr>) \<bind> (\<lambda>_. set_next_poll env (me_recovery_backoff_ms env)))))
      (\<lambda>_. watch n 0 True r)"
    by (intro triple_failed [OF dead_optional] assms(1) triple_bind [OF watch_upd [where f' = 0 and p' = p and r' = r]]
        triple_bind [OF watch_upd [where f' = 0 and p' = True and r' = r]] watch_next_poll)
      (simp_all add: watch_def resets_def)
  ultimately show ?thesis
    unfolding perform_recovery_def using assms(2)
    by - (rule triple_seq [OF watch_set_state], rule triple_seq [OF watch_upd], simp add: watch_def resets_def, auto)
qed

lemma reset_recovery:
  assumes "me_hard_reset env = Some reset"
  shows "triple (watch n f p r) (perform_recovery env MODEM_RECOVERY_HARD_RESET) (\<lambda>_ s. resets s = Suc n)"
proof -
  have set_state: "triple (\<lambda>s. resets s = m) (snapshot_set_state st) (\<lambda>_ s. resets s = m)" for st m
    by (simp add: triple_def snapshot_set_state_def emit_snapshot_def resets_def)
  have reset: "triple (\<lambda>s. resets s = n) (hard_reset env) (\<lambda>_ s. resets s = Suc n)"
    using assms by (simp add: triple_def hard_reset_def resets_def split: prod.splits)
  have upd: "triple (\<lambda>s. resets s = m) (upd g) (\<lambda>_ s. resets s = m)" if "\<And>s. mg_trace (g s) = mg_trace s" for g m
    using that by (simp add: triple_def resets_def)
  have "triple (\<lambda>s. resets s = n) (perform_recovery env MODEM_RECOVERY_HARD_RESET) (\<lambda>_ s. resets s = Suc n)"
    unfolding perform_recovery_def
    by simp (intro triple_seq [OF set_state] triple_seq [OF upd] triple_bind [OF reset] triple_seq [OF triple_if] upd set_state
        triple_ret; simp)
  then show ?thesis by (rule triple_weaken) (simp_all add: watch_def)
qed

lemma dead_recovery:
  assumes "dead env" "kconfig env" "me_hard_reset env = Some reset"
    and r: "r \<le> me_hard_reset_after_recoveries env" and f: "unat f0 < unat f"
  shows "triple (watch n f p r) (schedule_recovery env) (\<lambda>_. progress env n (effort env f0 r))"
proof -
  let ?T = "me_failures_before_recovery env" and ?H = "me_hard_reset_after_recoveries env"
  obtain action r' where next_action: "modem_recovery_policy_next f ?T ?H r = (action, r')" by fastforce
  have nz: "?T \<noteq> 0" "?H \<noteq> 0" using assms(2) by (auto simp: kconfig_def)
  have rest: "triple (watch n f p r') (if action = MODEM_RECOVERY_NONE then ret () else perform_recovery env action)
      (\<lambda>_. progress env n (effort env f0 r))"
  proof (cases "f < ?T")
    case True
    then have "effort env f r < effort env f0 r" "f < 0xFFFFFFFE"
      using f(1) assms(2) by (auto simp: effort_def word_less_nat_alt kconfig_def word_le_nat_alt)
    moreover have "action = MODEM_RECOVERY_NONE" "r' = r"
      using next_action True by (auto simp: modem_recovery_policy_next_def)
    ultimately show ?thesis using r by (auto simp: progress_def intro!: triple_ret)
  next
    case False
    have round: "triple (watch n f p r') (perform_recovery env action) (\<lambda>_. progress env n (effort env f0 r))"
      if "action \<in> {MODEM_RECOVERY_REINITIALIZE, MODEM_RECOVERY_FUNCTIONAL_RESET}" "r' = r + 1" "r' \<le> ?H"
      by (rule triple_weaken [OF watch_recovery [OF assms(1) that(1)]])
        (use that effort_round [OF assms(2) r] in \<open>auto intro: progressI\<close>)
    have hard: "triple (watch n f p r') (perform_recovery env MODEM_RECOVERY_HARD_RESET) (\<lambda>_. progress env n (effort env f0 r))"
      by (rule triple_weaken [OF reset_recovery [OF assms(3)]]) (auto simp: progress_def)
    have "1 \<le> ?H" using assms(2) by (simp add: kconfig_def)
    then show ?thesis
      using next_action False nz round hard by (auto simp: modem_recovery_policy_next_def Let_def split: if_splits)
  qed
  have "triple (watch n f p r) (upd (\<lambda>s. s\<lparr>mg_recoveries_since_hard_reset := r'\<rparr>) \<bind> (\<lambda>_.
      if action = MODEM_RECOVERY_NONE then ret () else perform_recovery env action))
      (\<lambda>_. progress env n (effort env f0 r))"
    by (rule triple_bind [OF watch_upd rest]) (simp add: watch_def resets_def)
  moreover have "triple (watch n f p r) (schedule_recovery env) R"
    if "triple (watch n f p r) (let (action, rounds) = modem_recovery_policy_next f ?T ?H r in
      upd (\<lambda>s. s\<lparr>mg_recoveries_since_hard_reset := rounds\<rparr>) \<bind> (\<lambda>_.
      if action = MODEM_RECOVERY_NONE then ret () else perform_recovery env action)) R" for R
    unfolding schedule_recovery_def
    by (rule triple_known [where v = f], simp add: watch_def, rule triple_known [where v = r], simp add: watch_def) (rule that)
  ultimately show ?thesis by (simp add: next_action)
qed

lemma progress_next_poll: "triple (progress env n k) (set_next_poll env' d) (\<lambda>_. progress env n k)"
  by (simp add: triple_def set_next_poll_def now_ms_def progress_def watch_def resets_def split: prod.splits)

lemma dead_session:
  assumes "dead env" "kconfig env" "me_hard_reset env = Some reset"
    and "r \<le> me_hard_reset_after_recoveries env" "f < 0xFFFFFFFE"
  shows "triple (watch n f p r) (initialize_session env \<bind> (\<lambda>ok.
      if \<not> ok then schedule_recovery env \<bind> (\<lambda>_. set_next_poll env (me_recovery_backoff_ms env)) else ret ()))
      (\<lambda>_. progress env n (effort env f r))"
proof (rule triple_false [OF dead_initialize [OF assms(1)]])
  have "unat f < unat (f + 1)" using failure_number [OF assms(5)] by simp
  from triple_bind [OF dead_recovery [OF assms(1-4) this] progress_next_poll]
  show "triple (watch n (f + 1) p r) (if \<not> False then schedule_recovery env \<bind>
      (\<lambda>_. set_next_poll env (me_recovery_backoff_ms env)) else ret ()) (\<lambda>_. progress env n (effort env f r))" by simp
qed

lemma dead_manager_poll:
  assumes "dead env" "kconfig env" "me_hard_reset env = Some reset"
    and "r \<le> me_hard_reset_after_recoveries env" "f < 0xFFFFFFFE"
  shows "triple (watch n f p r) (manager_poll env) (\<lambda>_. progress env n (effort env f r))"
  unfolding manager_poll_def
proof (rule triple_false [OF dead_poll [OF assms(1)]], rule triple_look, simp only: not_False_eq_True if_True,
    rule triple_bind [OF _ progress_next_poll])
  have less: "unat f < unat (f + 1)" "unat f < unat (f + 2)" using failure_number [OF assms(5)] by simp_all
  have "triple (watch n f' p r) (upd (\<lambda>s. s\<lparr>mg_successful_poll_cycles := 0\<rparr>) \<bind> (\<lambda>_. schedule_recovery env))
      (\<lambda>_. progress env n (effort env f r))" if "unat f < unat f'" for f'
    by (rule triple_bind [OF watch_upd dead_recovery [OF assms(1-4) that]]) (simp add: watch_def resets_def)
  from this [OF less(1)] this [OF less(2)]
  show "triple (\<lambda>s. watch n (f + 1) p r s \<or> watch n (f + 2) p r s)
      (upd (\<lambda>s. s\<lparr>mg_successful_poll_cycles := 0\<rparr>) \<bind> (\<lambda>_. schedule_recovery env)) (\<lambda>_. progress env n (effort env f r))"
    unfolding triple_def by blast
qed

lemma watch_world [simp]:
  "watch n f p r (s\<lparr>mg_world := w\<rparr>) = watch n f p r s"
  "watch n f q r (s\<lparr>mg_world := w, mg_reinitialize_pending := q\<rparr>) = watch n f (mg_reinitialize_pending s) r s"
  by (simp_all add: watch_def resets_def)

lemma dead_work:
  assumes env: "dead env" "kconfig env" "me_hard_reset env = Some reset" "r \<le> me_hard_reset_after_recoveries env" "f < 0xFFFFFFFE"
    and s: "watch n f p r s" and s': "s' = snd (run_state (manager_work env) s)"
  shows "progress env n (effort env f r) s' \<or> \<not> mg_next_poll_ms s \<le> fst (run_state (now_ms env) s) \<and> watch n f p r s'"
proof -
  obtain t w where now: "me_now_ms env (mg_world s) = (t, w)" by fastforce
  obtain t2 w2 where now2: "me_now_ms env w = (t2, w2)" by fastforce
  have ready: "ms_transport_ready (mg_snapshot s)" "mg_reinitialize_pending s = p" using s by (simp_all add: watch_def)
  have session: "progress env n (effort env f r) s'" if "p" "t \<ge> mg_next_poll_ms s"
    using that ready s now s' tripleD [OF dead_session [OF env], of n False "s\<lparr>mg_world := w, mg_reinitialize_pending := False\<rparr>"]
    by (simp add: manager_work_def session_due_def now_ms_def)
  have poll: "progress env n (effort env f r) s'" if "p \<longrightarrow> t < mg_next_poll_ms s \<and> t2 \<ge> mg_next_poll_ms s" "\<not> p \<longrightarrow> t \<ge> mg_next_poll_ms s"
    using that ready s now now2 s' tripleD [OF dead_manager_poll [OF env], of n p "s\<lparr>mg_world := if p then w2 else w\<rparr>"]
    by (cases p) (simp_all add: manager_work_def session_due_def now_ms_def)
  show ?thesis
    using session poll s now now2 ready s'
    by (cases p; cases "t \<ge> mg_next_poll_ms s"; cases "t2 \<ge> mg_next_poll_ms s")
      (simp_all add: manager_work_def session_due_def now_ms_def)
qed

text \<open>The clock has reached the time of the next poll when the wait of the turn ends.\<close>

definition due :: "'w manager_env \<Rightarrow> 'w manager \<Rightarrow> bool" where
  "due env s \<longleftrightarrow> mg_next_poll_ms s \<le>
     fst (run_state (do { ticks \<leftarrow> next_wait_ticks env; _ \<leftarrow> receive_event env ticks; now_ms env }) s)"

lemma dead_turn:
  assumes env: "dead env" "kconfig env" "me_hard_reset env = Some reset" "r \<le> me_hard_reset_after_recoveries env" "f < 0xFFFFFFFE"
    and s: "watch n f p r s" and s': "s' = snd (run_state (manager_turn env) s)"
  shows "progress env n (effort env f r) s' \<or> \<not> due env s \<and> watch n f p r s'"
proof -
  obtain w ticks where wait: "run_state (next_wait_ticks env) s = (ticks, s\<lparr>mg_world := w\<rparr>)"
  proof -
    have "\<exists>ticks w. run_state (next_wait_ticks env) s = (ticks, s\<lparr>mg_world := w\<rparr>)"
      using s by (cases "me_now_ms env (mg_world s)") (auto simp: next_wait_ticks_def Let_def now_ms_def watch_def)
    with that show thesis by blast
  qed
  define s1 where "s1 = s\<lparr>mg_world := me_wait env ticks w\<rparr>"
  have "run_state (manager_turn env) s = run_state (manager_work env) s1"
    using s by (simp add: manager_turn_def wait receive_event_def watch_def s1_def)
  moreover have "due env s \<longleftrightarrow> mg_next_poll_ms s1 \<le> fst (run_state (now_ms env) s1)"
    using s by (simp add: due_def wait receive_event_def watch_def s1_def)
  moreover have "watch n f p r s1" using s by (simp add: s1_def)
  ultimately show ?thesis using dead_work [OF env, of n p s1 s'] s' by simp
qed

definition turns :: "'w manager_env \<Rightarrow> nat \<Rightarrow> 'w manager \<Rightarrow> 'w manager" where
  "turns env k = (\<lambda>s. snd (run_state (manager_turn env) s)) ^^ k"

definition due_turns :: "'w manager_env \<Rightarrow> nat \<Rightarrow> 'w manager \<Rightarrow> nat" where
  "due_turns env k s = length (filter (\<lambda>j. due env (turns env j s)) [0..<k])"

lemma dead_turns:
  assumes env: "dead env" "kconfig env" "me_hard_reset env = Some reset"
    and "r \<le> me_hard_reset_after_recoveries env" "f < 0xFFFFFFFE" "watch n f p r s"
  shows "(\<exists>j \<le> k. resets (turns env j s) = Suc n) \<or>
    (\<exists>f' p' r'. watch n f' p' r' (turns env k s) \<and> r' \<le> me_hard_reset_after_recoveries env \<and> f' < 0xFFFFFFFE \<and>
       effort env f' r' + due_turns env k s \<le> effort env f r)"
proof (induction k)
  case 0
  then show ?case using assms by (auto simp: turns_def due_turns_def)
next
  case (Suc k)
  then show ?case
  proof (elim disjE)
    assume "\<exists>f' p' r'. watch n f' p' r' (turns env k s) \<and> r' \<le> me_hard_reset_after_recoveries env \<and> f' < 0xFFFFFFFE \<and>
      effort env f' r' + due_turns env k s \<le> effort env f r"
    then obtain f' p' r' where w: "watch n f' p' r' (turns env k s)" "r' \<le> me_hard_reset_after_recoveries env" "f' < 0xFFFFFFFE"
      "effort env f' r' + due_turns env k s \<le> effort env f r" by blast
    have "turns env (Suc k) s = snd (run_state (manager_turn env) (turns env k s))" by (simp add: turns_def)
    from dead_turn [OF env w(2,3,1) this] consider
        "progress env n (effort env f' r') (turns env (Suc k) s)"
      | "\<not> due env (turns env k s)" "watch n f' p' r' (turns env (Suc k) s)" by blast
    then show ?thesis
    proof cases
      case 1
      have le: "due_turns env (Suc k) s \<le> Suc (due_turns env k s)" by (simp add: due_turns_def)
      from 1 show ?thesis unfolding progress_def
      proof (elim disjE exE conjE)
        fix f2 p2 r2
        assume "watch n f2 p2 r2 (turns env (Suc k) s)" "r2 \<le> me_hard_reset_after_recoveries env" "f2 < 0xFFFFFFFE"
          and "effort env f2 r2 < effort env f' r'"
        moreover from this(4) le w(4) have "effort env f2 r2 + due_turns env (Suc k) s \<le> effort env f r" by linarith
        ultimately show ?thesis by blast
      qed blast
    next
      case 2
      from 2(1) have "due_turns env (Suc k) s = due_turns env k s" by (simp add: due_turns_def)
      with 2(2) w(2-4) show ?thesis by (intro disjI2 exI conjI) simp_all
    qed
  qed (auto intro: le_SucI)
qed

lemma effort_bound:
  "effort env f r < (unat (me_hard_reset_after_recoveries env) + 2) * (unat (me_failures_before_recovery env) + 1)"
proof -
  let ?H = "unat (me_hard_reset_after_recoveries env)" and ?T = "unat (me_failures_before_recovery env)"
  have "(?H + 1 - unat r) * (?T + 1) \<le> (?H + 1) * (?T + 1)" by (intro mult_right_mono) auto
  then show ?thesis by (simp add: effort_def algebra_simps)
qed

section \<open>Properties\<close>

text \<open>While the transport is lost the manager touches neither the modem nor its power: a turn
  sends no command and performs no hard reset, whatever event it takes, unless the event says that
  the transport is back; and no other event makes it believe so.\<close>

theorem manager_silent_offline:
  assumes "\<not> ms_transport_ready (mg_snapshot s)" "mg_queue s = [] \<or> hd (mg_queue s) \<noteq> MANAGER_EVENT_TRANSPORT_READY"
    and "s' = snd (run_state (manager_turn env) s)"
  shows "\<not> ms_transport_ready (mg_snapshot s') \<and> wire (mg_trace s') = wire (mg_trace s)"
  using offline_turn [of "wire (mg_trace s)" s env] assms by (simp add: offline_def)

theorem manager_silent_offline_witness:
  "wire (mg_trace (snd (run_state (manager_turn demo_modem) (demo_manager\<lparr>mg_queue := [MANAGER_EVENT_MANUAL_RESTART]\<rparr>)))) = []"
  using manager_silent_offline [of "demo_manager\<lparr>mg_queue := [MANAGER_EVENT_MANUAL_RESTART]\<rparr>" _ demo_modem]
  by (simp add: demo_manager_def initial_snapshot_def Let_def wire_def)

text \<open>C24: A modem that stays connected but answers no command is hard reset. From every state with the
  transport there and no event queued, with the settings in their configured ranges, a hard reset
  is performed at the latest in the turn in which the poll has been due
  \<open>(H + 2) * (T + 1)\<close> times, where \<open>T\<close> failures start a recovery round and a hard reset comes after
  \<open>H\<close> rounds. Turns that end before the poll is due only wait.\<close>

theorem dead_modem_is_reset:
  assumes "dead env" "kconfig env" "me_hard_reset env = Some reset"
    and "ms_transport_ready (mg_snapshot s)" "mg_queue s = []"
    and "mg_recoveries_since_hard_reset s \<le> me_hard_reset_after_recoveries env"
    and "ms_consecutive_failures (mg_snapshot s) < 0xFFFFFFFE"
    and "(unat (me_hard_reset_after_recoveries env) + 2) * (unat (me_failures_before_recovery env) + 1) \<le> due_turns env k s"
  shows "\<exists>j \<le> k. resets (turns env j s) = resets s + 1"
proof -
  let ?f = "ms_consecutive_failures (mg_snapshot s)" and ?r = "mg_recoveries_since_hard_reset s"
  have "watch (resets s) ?f (mg_reinitialize_pending s) ?r s" using assms(4,5) by (simp add: watch_def)
  from dead_turns [OF assms(1-3,6,7) this, of k] effort_bound [of env ?f ?r] assms(8) show ?thesis by fastforce
qed

definition demo_dead :: "int manager_env" where
  "demo_dead = \<lparr>me_execute = (\<lambda>rq r w. (ESP_FAIL, r, w)), me_hard_reset = Some (\<lambda>w. (ESP_OK, w)),
     me_now_ms = (\<lambda>w. (w, w)), me_wait = (\<lambda>t w. w + 60000), me_tick_rate_hz = 100, me_poll_ready_ms = 30000,
     me_poll_wait_ms = 5000, me_failures_before_recovery = 2, me_hard_reset_after_recoveries = 1, me_recovery_backoff_ms = 5000\<rparr>"

definition demo_connected :: "int manager" where
  "demo_connected = demo_manager\<lparr>mg_event_cb := False, mg_snapshot := initial_snapshot\<lparr>ms_transport_ready := True\<rparr>\<rparr>"

text \<open>In this world only waiting takes time, and every wait is longer than any interval.\<close>

definition steady :: "int manager \<Rightarrow> bool" where
  "steady s \<longleftrightarrow> mg_next_poll_ms s \<le> mg_world s + 60000 \<and> mg_queue s = []"

named_theorems steady_ops "operations that set no poll time"

abbreviation steadily :: "(int, 'a) mgr_m \<Rightarrow> bool" where
  "steadily m \<equiv> safe steady m (\<lambda>_. True)"

lemma steady_bind: "steadily m \<Longrightarrow> (\<And>a. steadily (f a)) \<Longrightarrow> steadily (m \<bind> f)"
  by (rule safe_bind)

lemma steady_upd:
  "(\<And>s. mg_next_poll_ms (f s) = mg_next_poll_ms s \<and> mg_world (f s) = mg_world s \<and> mg_queue (f s) = mg_queue s) \<Longrightarrow>
   steadily (upd f)"
  by (rule safe_upd) (simp_all add: steady_def)

lemma steady_snap [steady_ops]: "steadily (snap f)"
  by (rule steady_upd) simp

lemma steady_look [steady_ops]: "steadily (look g)"
  by (rule safe_look) simp

lemma steady_ret [steady_ops]: "steadily (ret a)"
  by (rule safe_ret) simp

lemma steady_now [steady_ops]: "steadily (now_ms demo_dead)"
  by (simp add: safe_def now_ms_def demo_dead_def steady_def)

lemma steady_next [steady_ops]: "d \<le> 60000 \<Longrightarrow> steadily (set_next_poll demo_dead d)"
  by (simp add: safe_def set_next_poll_def now_ms_def demo_dead_def steady_def)

lemma steady_send: "steadily (State (\<lambda>s. case me_execute demo_dead rq r (mg_world s) of
    (e, r, w) \<Rightarrow> ((e, r), s\<lparr>mg_world := w, mg_trace := mg_trace s @ [Sent rq]\<rparr>)))"
  by (simp add: safe_def demo_dead_def steady_def)

lemma steady_reset [steady_ops]: "steadily (hard_reset demo_dead)"
  by (simp add: safe_def hard_reset_def demo_dead_def steady_def)

lemma steady_emit [steady_ops]: "steadily emit_snapshot"
  unfolding emit_snapshot_def by (rule steady_upd) simp

lemma steady_state [steady_ops]: "steadily (snapshot_set_state st)"
  unfolding snapshot_set_state_def by (intro steady_bind safe_rules steady_ops)

lemma steady_execute [steady_ops]: "steadily (execute_command demo_dead c ps t)"
  unfolding execute_command_def snapshot_record_failure_def snapshot_record_success_def
  by (intro steady_bind steady_send safe_rules steady_ops) 

lemma steady_optional [steady_ops]: "steadily (execute_optional demo_dead c ps t)"
  unfolding execute_optional_def by (intro steady_bind safe_rules steady_ops)

lemma steady_parse [steady_ops]: "steadily (parse_into demo_dead f g r)"
  unfolding parse_into_def by (intro steady_bind safe_rules steady_ops)

lemma steady_operator_poll [steady_ops]: "steadily (set_next_operator_poll demo_dead)"
  unfolding set_next_operator_poll_def by (intro steady_bind steady_ops steady_upd) simp

lemma steady_queries [steady_ops]:
  "steadily (query_sim demo_dead)" "steadily (query_signal demo_dead)" "steadily (query_operator demo_dead)"
  "steadily recompute_registration" "steadily update_state_after_poll"
  unfolding query_sim_def query_signal_def query_operator_def response_parse_sim_def response_parse_signal_def
    response_parse_operator_def recompute_registration_def update_state_after_poll_def
  by (intro steady_bind safe_rules steady_ops)+

lemma steady_registration [steady_ops]: "steadily (query_registration demo_dead)"
  unfolding query_registration_def query_registration_one_def response_parse_registration_def
  by (intro steady_bind safe_rules steady_ops)

lemma steady_identity [steady_ops]: "steadily (query_identity demo_dead c st n)"
  unfolding query_identity_def
  by (intro steady_bind safe_rules steady_ops) (auto intro: steady_ops split: option.splits)

lemma demo_intervals [simp]:
  "me_poll_wait_ms demo_dead = 5000" "me_poll_ready_ms demo_dead = 30000" "me_recovery_backoff_ms demo_dead = 5000"
  by (simp_all add: demo_dead_def)

lemma steady_initialize [steady_ops]: "steadily (initialize_session demo_dead)"
  unfolding initialize_session_def finish_session_def configure_registration_urc_def
  by (intro steady_bind safe_rules steady_ops) (simp_all split: if_splits)

lemma steady_recovery [steady_ops]: "steadily (schedule_recovery demo_dead)"
  unfolding schedule_recovery_def perform_recovery_def
  by (intro steady_bind safe_rules steady_ops steady_upd) simp_all

lemma steady_poll [steady_ops]: "steadily (manager_poll demo_dead)"
  unfolding manager_poll_def poll_status_def
  by (intro steady_bind safe_rules steady_ops steady_upd) (simp_all add: Let_def)

lemma steady_work: "steadily (manager_work demo_dead)"
  unfolding manager_work_def session_due_def
  by (intro steady_bind safe_rules steady_ops steady_upd) simp_all

lemma steady_turn:
  assumes "steady s"
  shows "due demo_dead s \<and> steady (snd (run_state (manager_turn demo_dead) s))"
proof -
  obtain ticks where wait: "run_state (next_wait_ticks demo_dead) s = (ticks, s)"
  proof -
    have "\<exists>ticks. run_state (next_wait_ticks demo_dead) s = (ticks, s)"
      by (auto simp: next_wait_ticks_def now_ms_def demo_dead_def Let_def)
    with that show thesis by blast
  qed
  let ?s = "s\<lparr>mg_world := mg_world s + 60000\<rparr>"
  have receive: "run_state (receive_event demo_dead ticks) s = (None, ?s)"
    using assms by (simp add: receive_event_def steady_def demo_dead_def)
  have "steady ?s" using assms by (simp add: steady_def)
  then have "steady (snd (run_state (manager_work demo_dead) ?s))" using steady_work by (simp add: safe_def)
  then show ?thesis using assms
    by (simp add: manager_turn_def due_def wait receive) (simp add: now_ms_def demo_dead_def steady_def)
qed

lemma steady_turns: "steady s \<Longrightarrow> due_turns demo_dead k s = k"
proof -
  assume s: "steady s"
  have "steady (turns demo_dead j s)" for j by (induction j) (simp_all add: turns_def s steady_turn)
  then show ?thesis by (simp add: due_turns_def steady_turn)
qed

theorem dead_modem_is_reset_witness: "\<exists>j \<le> 9. resets (turns demo_dead j demo_connected) = 1"
proof -
  have "dead demo_dead" "kconfig demo_dead" by (simp_all add: dead_def kconfig_def demo_dead_def)
  moreover have "due_turns demo_dead 9 demo_connected = 9"
    by (rule steady_turns) (simp add: steady_def demo_connected_def demo_manager_def)
  ultimately show ?thesis
    using dead_modem_is_reset [of demo_dead "\<lambda>w. (ESP_OK, w)" demo_connected 9]
    by (simp add: demo_dead_def demo_connected_def demo_manager_def initial_snapshot_def Let_def resets_def)
qed

section \<open>Lines that outlive the connection\<close>

definition unplugged :: "manager_event list \<Rightarrow> 'w manager \<Rightarrow> bool" where
  "unplugged q s \<longleftrightarrow> \<not> ms_transport_ready (mg_snapshot s) \<and> mg_queue s = q \<and>
     rg_status (ms_eps_registration (mg_snapshot s)) = MODEM_REG_UNKNOWN \<and>
     rg_status (ms_packet_registration (mg_snapshot s)) = MODEM_REG_UNKNOWN"

lemma turn_event:
  assumes "mg_queue s = e # q"
  shows "\<exists>w. run_state (manager_turn env) s = run_state (manager_dispatch env e \<bind> (\<lambda>_. manager_work env)) (s\<lparr>mg_world := w, mg_queue := q\<rparr>)"
  using assms by (cases "me_now_ms env (mg_world s)")
    (auto simp: manager_turn_def next_wait_ticks_def receive_event_def now_ms_def Let_def intro: exI [of _ "mg_world s"])

lemma unplugged_work: "unplugged q s \<Longrightarrow> run_state (manager_work env) s = ((), s)"
  by (simp add: manager_work_def unplugged_def)

lemma lost_unplugged: "triple (\<lambda>s. mg_queue s = q) handle_transport_lost (\<lambda>_. unplugged q)"
  by (auto simp: triple_def handle_transport_lost_def snapshot_set_state_def emit_snapshot_def unplugged_def)

lemma sim_unplugged:
  "triple (unplugged q) (manager_handle_urc_line env ''+CPIN: READY'')
     (\<lambda>_ s. unplugged q s \<and> ms_sim (mg_snapshot s) = MODEM_SIM_READY)"
proof -
  have "modem_status_parse_cpin (Some ''+CPIN: READY'') = Some MODEM_SIM_READY" by code_simp
  then show ?thesis
    by (auto simp: triple_def manager_handle_urc_line_def urc_changed_def urc_status_update_def set_next_poll_def now_ms_def
        recompute_registration_def update_state_after_poll_def snapshot_set_state_def emit_snapshot_def unplugged_def
        split: prod.splits)
qed

lemma network_unplugged:
  "triple (\<lambda>s. unplugged q s \<and> ms_sim (mg_snapshot s) = MODEM_SIM_READY) (manager_handle_urc_line env ''+CREG: 1'')
     (\<lambda>_ s. unplugged q s \<and> ms_state (mg_snapshot s) = MODEM_MANAGER_READY)"
proof -
  let ?P = "\<lambda>s. unplugged q s \<and> ms_sim (mg_snapshot s) = MODEM_SIM_READY"
  let ?home = "\<lambda>s. ?P s \<and> rg_status (ms_circuit_registration (mg_snapshot s)) = MODEM_REG_HOME"
  have parse: "modem_status_parse_cpin (Some ''+CREG: 1'') = None" "modem_status_parse_csq (Some ''+CREG: 1'') = None"
    "modem_status_parse_registration (Some ''+CREG: 1'') ''+CREG:'' = Some \<lparr>rg_status = MODEM_REG_HOME, rg_access_technology = -1\<rparr>"
    by code_simp+
  have reg: "triple ?P (urc_registration env ''+CREG: 1'' ''+CREG:'' Circuit) (\<lambda>a s. a \<and> ?home s)"
    by (simp add: triple_def urc_registration_def parse urc_status_update_def set_next_poll_def now_ms_def unplugged_def split: prod.splits)
  have changed: "triple ?P (urc_changed env ''+CREG: 1'') (\<lambda>a s. a \<and> ?home s)"
    unfolding urc_changed_def parse option.case by (rule triple_bind [OF reg]) (auto simp: triple_def)
  have "triple ?home recompute_registration (\<lambda>_ s. ?P s \<and> ms_registered (mg_snapshot s))"
    by (simp add: triple_def recompute_registration_def registration_summary_def modem_registration_is_registered_def unplugged_def)
  moreover have "triple (\<lambda>s. ?P s \<and> ms_registered (mg_snapshot s)) (update_state_after_poll \<bind> (\<lambda>_. emit_snapshot))
      (\<lambda>_ s. unplugged q s \<and> ms_state (mg_snapshot s) = MODEM_MANAGER_READY)"
    by (simp add: triple_def update_state_after_poll_def snapshot_set_state_def emit_snapshot_def unplugged_def)
  ultimately have rest: "triple ?home (recompute_registration \<bind> (\<lambda>_. update_state_after_poll \<bind> (\<lambda>_. emit_snapshot)))
      (\<lambda>_ s. unplugged q s \<and> ms_state (mg_snapshot s) = MODEM_MANAGER_READY)" by (rule triple_bind)
  show ?thesis
    unfolding manager_handle_urc_line_def
    by (rule triple_bind [OF changed], rule triple_if, rule triple_weaken [OF rest]) (auto intro: triple_ret)
qed

lemma unplugged_turn:
  assumes "triple (\<lambda>s. mg_queue s = q \<and> P s) (manager_dispatch env e) (\<lambda>_ s. unplugged q s \<and> Q s)"
    and "mg_queue s = e # q" "\<And>w. P (s\<lparr>mg_world := w, mg_queue := q\<rparr>)"
  shows "unplugged q (snd (run_state (manager_turn env) s)) \<and> Q (snd (run_state (manager_turn env) s))"
proof -
  obtain w where t: "run_state (manager_turn env) s = run_state (manager_dispatch env e \<bind> (\<lambda>_. manager_work env)) (s\<lparr>mg_world := w, mg_queue := q\<rparr>)"
    using turn_event [OF assms(2)] by blast
  show ?thesis using tripleD [OF assms(1), of "s\<lparr>mg_world := w, mg_queue := q\<rparr>"] assms(3) [of w]
    by (cases "run_state (manager_dispatch env e) (s\<lparr>mg_world := w, mg_queue := q\<rparr>)") (simp add: t unplugged_work [of q])
qed

text \<open>When the transport is lost, lines the modem sent before are still in the queue, and they are
  handled after the loss: a queued report of the SIM and one of the network make the manager publish
  \<open>READY\<close> although there is no transport. The comment on the queue says a lost transport invalidates
  the lines in it, but the queue is cleared only when it is full.\<close>

theorem stale_lines_after_loss:
  assumes "mg_initialized s" "mg_queue s = [MANAGER_EVENT_URC ''+CPIN: READY'', MANAGER_EVENT_URC ''+CREG: 1'']"
  shows "\<exists>s'. s' = turns env 3 (snd (run_state modem_manager_notify_transport_lost s)) \<and>
    ms_state (mg_snapshot s') = MODEM_MANAGER_READY \<and> \<not> ms_transport_ready (mg_snapshot s')"
proof -
  let ?turn = "\<lambda>s. snd (run_state (manager_turn env) s)"
  let ?cpin = "MANAGER_EVENT_URC ''+CPIN: READY''" and ?creg = "MANAGER_EVENT_URC ''+CREG: 1''"
  define s0 where "s0 = snd (run_state modem_manager_notify_transport_lost s)"
  have q0: "mg_queue s0 = [MANAGER_EVENT_TRANSPORT_LOST, ?cpin, ?creg]"
    using assms by (simp add: s0_def modem_manager_notify_transport_lost_def manager_queue_simple_event_def send_front_def MODEM_MANAGER_QUEUE_DEPTH_def)
  have 1: "unplugged [?cpin, ?creg] (?turn s0)"
    by (rule conjunct1 [OF unplugged_turn [where P = "\<lambda>_. True" and Q = "\<lambda>_. True" and e = MANAGER_EVENT_TRANSPORT_LOST]])
      (use q0 lost_unplugged in simp_all)
  have 2: "unplugged [?creg] (?turn (?turn s0)) \<and> ms_sim (mg_snapshot (?turn (?turn s0))) = MODEM_SIM_READY"
    by (rule unplugged_turn [where P = "unplugged [?creg]" and e = ?cpin])
      (use 1 in \<open>auto intro: triple_weaken [OF sim_unplugged] simp: unplugged_def\<close>)
  have 3: "unplugged [] (?turn (?turn (?turn s0))) \<and> ms_state (mg_snapshot (?turn (?turn (?turn s0)))) = MODEM_MANAGER_READY"
    by (rule unplugged_turn [where P = "\<lambda>s. unplugged [] s \<and> ms_sim (mg_snapshot s) = MODEM_SIM_READY" and e = ?creg])
      (use 2 in \<open>auto intro: triple_weaken [OF network_unplugged] simp: unplugged_def\<close>)
  then show ?thesis by (simp add: s0_def turns_def numeral_3_eq_3 unplugged_def)
qed

theorem stale_lines_after_loss_witness:
  "ms_state (mg_snapshot (turns demo_dead 3 (snd (run_state modem_manager_notify_transport_lost
     (demo_connected\<lparr>mg_queue := [MANAGER_EVENT_URC ''+CPIN: READY'', MANAGER_EVENT_URC ''+CREG: 1'']\<rparr>))))) = MODEM_MANAGER_READY"
  using stale_lines_after_loss [of "demo_connected\<lparr>mg_queue := [MANAGER_EVENT_URC ''+CPIN: READY'', MANAGER_EVENT_URC ''+CREG: 1'']\<rparr>" demo_dead]
  by (simp add: demo_connected_def demo_manager_def)

end
