(* ===== verification/Modem_Core.thy ===== *)
theory Modem_Core
  imports Modem_Runs
begin

text \<open>
  The glue between the USB transport, the AT engine, the modem manager and the SMS service,
  \<open>modem_core.c\<close>. Its own state is the public modem state, the manager state it saw last and the
  table of observers; everything else it does is to call the other components. \<open>mc_calls\<close> records
  these calls in order. The functions that only pass their arguments on are the functions of the
  components themselves and have no definition here; log output is left out.
\<close>

section \<open>State\<close>

datatype modem_state =
    MODEM_STATE_BOOT | MODEM_STATE_WAIT_USB | MODEM_STATE_ENUMERATE | MODEM_STATE_FIND_AT_INTERFACE
  | MODEM_STATE_AT_PROBE | MODEM_STATE_AT_READY | MODEM_STATE_SIM_CHECK | MODEM_STATE_NETWORK_REGISTER
  | MODEM_STATE_READY | MODEM_STATE_DEGRADED | MODEM_STATE_RECOVERY

datatype modem_usb_event =
    MODEM_USB_EVENT_HOST_READY | MODEM_USB_EVENT_DEVICE_FOUND | MODEM_USB_EVENT_PROBING
  | MODEM_USB_EVENT_AT_READY | MODEM_USB_EVENT_DISCONNECTED | MODEM_USB_EVENT_ERROR

definition MODEM_CORE_SMS_OBSERVERS :: nat where "MODEM_CORE_SMS_OBSERVERS = 3"

text \<open>The calls to the other components, and the states that were shown to clients.\<close>

datatype core_call =
    At_Transport_Lost | Manager_Transport_Ready | Manager_Transport_Lost | Sms_Modem_Ready | Sms_Modem_Lost
  | State_Shown modem_state

record 'cb modem_core =
  mc_state :: modem_state
  mc_last_manager_state :: modem_manager_state
  mc_sms_observers :: "'cb option list"
  mc_calls :: "core_call list"

definition core_boot :: "'cb modem_core" where
  "core_boot = \<lparr>mc_state = MODEM_STATE_BOOT, mc_last_manager_state = MODEM_MANAGER_STOPPED,
     mc_sms_observers = replicate MODEM_CORE_SMS_OBSERVERS None, mc_calls = []\<rparr>"

definition core_calls :: "core_call \<Rightarrow> 'cb modem_core \<Rightarrow> 'cb modem_core" where
  "core_calls call c = c\<lparr>mc_calls := mc_calls c @ [call]\<rparr>"

definition set_state :: "modem_state \<Rightarrow> 'cb modem_core \<Rightarrow> 'cb modem_core" where
  "set_state state c = core_calls (State_Shown state) (c\<lparr>mc_state := state\<rparr>)"

section \<open>Events of the components\<close>

fun core_state_of :: "modem_manager_state \<Rightarrow> modem_state option" where
  "core_state_of MODEM_MANAGER_WAIT_TRANSPORT = Some MODEM_STATE_WAIT_USB"
| "core_state_of MODEM_MANAGER_INITIALIZING = Some MODEM_STATE_SIM_CHECK"
| "core_state_of MODEM_MANAGER_SIM_WAIT = Some MODEM_STATE_SIM_CHECK"
| "core_state_of MODEM_MANAGER_NETWORK_WAIT = Some MODEM_STATE_NETWORK_REGISTER"
| "core_state_of MODEM_MANAGER_READY = Some MODEM_STATE_READY"
| "core_state_of MODEM_MANAGER_RECOVERY = Some MODEM_STATE_RECOVERY"
| "core_state_of MODEM_MANAGER_DEGRADED = Some MODEM_STATE_DEGRADED"
| "core_state_of MODEM_MANAGER_STOPPED = None"

definition core_manager_event :: "modem_manager_snapshot option \<Rightarrow> 'cb modem_core \<Rightarrow> 'cb modem_core" where
  "core_manager_event snapshot c =
     (case snapshot of
        None \<Rightarrow> c
      | Some p \<Rightarrow>
          let previous = mc_last_manager_state c;
              c = c\<lparr>mc_last_manager_state := ms_state p\<rparr>;
              c = (if ms_state p = MODEM_MANAGER_READY \<and> previous \<noteq> MODEM_MANAGER_READY then core_calls Sms_Modem_Ready c
                   else if previous = MODEM_MANAGER_READY \<and> ms_state p \<noteq> MODEM_MANAGER_READY then core_calls Sms_Modem_Lost c
                   else c)
          in case core_state_of (ms_state p) of None \<Rightarrow> c | Some state \<Rightarrow> set_state state c)"

fun usb_transport_event :: "modem_usb_event \<Rightarrow> 'cb modem_core \<Rightarrow> 'cb modem_core" where
  "usb_transport_event MODEM_USB_EVENT_HOST_READY c = set_state MODEM_STATE_WAIT_USB c"
| "usb_transport_event MODEM_USB_EVENT_DEVICE_FOUND c =
     set_state MODEM_STATE_FIND_AT_INTERFACE (set_state MODEM_STATE_ENUMERATE c)"
| "usb_transport_event MODEM_USB_EVENT_PROBING c = set_state MODEM_STATE_AT_PROBE c"
| "usb_transport_event MODEM_USB_EVENT_AT_READY c =
     core_calls Manager_Transport_Ready (set_state MODEM_STATE_AT_READY c)"
| "usb_transport_event MODEM_USB_EVENT_DISCONNECTED c =
     set_state MODEM_STATE_WAIT_USB (core_calls Manager_Transport_Lost (core_calls Sms_Modem_Lost (core_calls At_Transport_Lost c)))"
| "usb_transport_event MODEM_USB_EVENT_ERROR c =
     set_state MODEM_STATE_DEGRADED (core_calls Manager_Transport_Lost (core_calls Sms_Modem_Lost (core_calls At_Transport_Lost c)))"

text \<open>
  Whether the SMS service may use the modem: the USB transport is up and the manager reports
  \<open>READY\<close>; the snapshot is the one \<open>modem_manager_get_snapshot\<close> returns.
\<close>

definition sms_modem_ready :: "bool \<Rightarrow> 'w manager \<Rightarrow> bool" where
  "sms_modem_ready usb_ready manager \<longleftrightarrow> usb_ready \<and>
     (case fst (run_state (modem_manager_get_snapshot True) manager) of
        (err, Some p) \<Rightarrow> err = ESP_OK \<and> ms_state p = MODEM_MANAGER_READY
      | _ \<Rightarrow> False)"

text \<open>
  The hard reset: whether the power of the socket can be switched, and the results of switching it
  off and on, are arguments; the result is the power it asked for, in order.
\<close>

definition manager_hard_reset :: "bool \<Rightarrow> (bool \<Rightarrow> esp_err) \<Rightarrow> 'cb modem_core \<Rightarrow> esp_err \<times> bool list \<times> 'cb modem_core" where
  "manager_hard_reset available power_set c =
     (if \<not> available then (ESP_ERR_NOT_SUPPORTED, [], c)
      else let c = core_calls At_Transport_Lost c;
               err = power_set False
           in if err \<noteq> ESP_OK then (err, [False], c) else (power_set True, [False, True], c))"

text \<open>The observers that are called for an event of the SMS service that carries a message.\<close>

definition sms_event :: "'m option \<Rightarrow> 'cb modem_core \<Rightarrow> 'cb list" where
  "sms_event message c = (case message of None \<Rightarrow> [] | Some _ \<Rightarrow> List.map_filter (\<lambda>x. x) (mc_sms_observers c))"

fun add_observer :: "'cb \<Rightarrow> 'cb option list \<Rightarrow> 'cb option list option" where
  "add_observer cb [] = None"
| "add_observer cb (None # xs) = Some (Some cb # xs)"
| "add_observer cb (Some x # xs) = (case add_observer cb xs of None \<Rightarrow> None | Some ys \<Rightarrow> Some (Some x # ys))"

definition modem_core_add_sms_event_callback :: "'cb option \<Rightarrow> 'cb modem_core \<Rightarrow> esp_err \<times> 'cb modem_core" where
  "modem_core_add_sms_event_callback cb c =
     (case cb of
        None \<Rightarrow> (ESP_ERR_INVALID_ARG, c)
      | Some f \<Rightarrow>
          (case add_observer f (mc_sms_observers c) of
             None \<Rightarrow> (ESP_ERR_NO_MEM, c)
           | Some xs \<Rightarrow> (ESP_OK, c\<lparr>mc_sms_observers := xs\<rparr>)))"

text \<open>
  The initialisation, with the results of initialising the AT engine, the manager and the SMS
  service and of starting the USB host as arguments.
\<close>

definition modem_core_init :: "bool \<Rightarrow> esp_err \<Rightarrow> esp_err \<Rightarrow> esp_err \<Rightarrow> esp_err \<Rightarrow> 'cb modem_core \<Rightarrow> esp_err \<times> 'cb modem_core" where
  "modem_core_init start_usb_host at_engine manager sms_service usb c =
     (let c = set_state MODEM_STATE_WAIT_USB c in
      if at_engine \<noteq> ESP_OK then (at_engine, set_state MODEM_STATE_DEGRADED c)
      else if manager \<noteq> ESP_OK then (manager, set_state MODEM_STATE_DEGRADED c)
      else if sms_service \<noteq> ESP_OK then (sms_service, set_state MODEM_STATE_DEGRADED c)
      else if \<not> start_usb_host then (ESP_OK, set_state MODEM_STATE_DEGRADED c)
      else (usb, if usb \<noteq> ESP_OK then set_state MODEM_STATE_DEGRADED c else c))"

fun modem_core_state_name :: "modem_state \<Rightarrow> string" where
  "modem_core_state_name MODEM_STATE_BOOT = ''boot''"
| "modem_core_state_name MODEM_STATE_WAIT_USB = ''wait_usb''"
| "modem_core_state_name MODEM_STATE_ENUMERATE = ''enumerate''"
| "modem_core_state_name MODEM_STATE_FIND_AT_INTERFACE = ''find_at_interface''"
| "modem_core_state_name MODEM_STATE_AT_PROBE = ''at_probe''"
| "modem_core_state_name MODEM_STATE_AT_READY = ''at_ready''"
| "modem_core_state_name MODEM_STATE_SIM_CHECK = ''sim_check''"
| "modem_core_state_name MODEM_STATE_NETWORK_REGISTER = ''network_register''"
| "modem_core_state_name MODEM_STATE_READY = ''ready''"
| "modem_core_state_name MODEM_STATE_DEGRADED = ''degraded''"
| "modem_core_state_name MODEM_STATE_RECOVERY = ''recovery''"

section \<open>What the SMS service hears from the manager\<close>

text \<open>
  \<open>hears ready calls\<close>: what the SMS service believes after the calls, when it believed \<open>ready\<close>
  before; \<open>None\<close> when it is told something twice in a row.
\<close>

fun hears :: "bool \<Rightarrow> core_call list \<Rightarrow> bool option" where
  "hears ready [] = Some ready"
| "hears ready (Sms_Modem_Ready # calls) = (if ready then None else hears True calls)"
| "hears ready (Sms_Modem_Lost # calls) = (if ready then hears False calls else None)"
| "hears ready (_ # calls) = hears ready calls"

lemma hears_append: "hears ready (xs @ ys) = Option.bind (hears ready xs) (\<lambda>r. hears r ys)"
  by (induction ready xs rule: hears.induct) auto

definition published :: "manager_action list \<Rightarrow> modem_manager_snapshot list" where
  "published trace = List.map_filter (\<lambda>a. case a of Published p \<Rightarrow> Some p | _ \<Rightarrow> None) trace"

lemma set_published: "p \<in> set (published t) \<longleftrightarrow> Published p \<in> set t"
  by (force simp: published_def List.map_filter_def split: manager_action.splits)

lemma manager_event_hears:
  assumes "hears False (mc_calls c) = Some (mc_last_manager_state c = MODEM_MANAGER_READY)" "ms_state p \<noteq> MODEM_MANAGER_STOPPED"
    and "c' = core_manager_event (Some p) c"
  shows "hears False (mc_calls c') = Some (ms_state p = MODEM_MANAGER_READY) \<and> mc_last_manager_state c' = ms_state p \<and>
    Some (mc_state c') = core_state_of (ms_state p)"
  using assms by (cases "ms_state p") (auto simp: core_manager_event_def Let_def set_state_def core_calls_def hears_append)

lemma manager_events_hear:
  assumes "\<forall>p \<in> set ps. ms_state p \<noteq> MODEM_MANAGER_STOPPED" "c = fold (\<lambda>p. core_manager_event (Some p)) ps core_boot"
  shows "hears False (mc_calls c) = Some (mc_last_manager_state c = MODEM_MANAGER_READY) \<and>
    (ps \<noteq> [] \<longrightarrow> mc_last_manager_state c = ms_state (last ps) \<and> Some (mc_state c) = core_state_of (ms_state (last ps))) \<and>
    (ps = [] \<longrightarrow> c = core_boot)"
  using assms
proof (induction ps arbitrary: c rule: rev_induct)
  case (snoc p ps)
  let ?c = "fold (\<lambda>p. core_manager_event (Some p)) ps core_boot :: 'a modem_core"
  have c: "c = core_manager_event (Some p) ?c" and p: "ms_state p \<noteq> MODEM_MANAGER_STOPPED" using snoc.prems by simp_all
  have "hears False (mc_calls ?c) = Some (mc_last_manager_state ?c = MODEM_MANAGER_READY)" using snoc by simp
  from manager_event_hears [OF this p c] show ?case by simp
qed (simp add: core_boot_def)

section \<open>Properties\<close>


lemma demo_ready_run:
  "manager_reachable demo_modem (snd (run_state (manager_turn demo_modem)
     (snd (run_state modem_manager_notify_transport_ready demo_manager))))"
proof -
  have "manager_reachable demo_modem demo_manager" using demo_start by (rule manager_reachable.start [rotated]) (simp add: demo_manager_def)
  then have "manager_reachable demo_modem (snd (run_state modem_manager_notify_transport_ready demo_manager))" by (rule manager_reachable.ready)
  then show ?thesis
    by (rule manager_reachable.turn)
      (simp add: modem_manager_notify_transport_ready_def manager_queue_simple_event_def send_back_def demo_manager_def MODEM_MANAGER_QUEUE_DEPTH_def)
qed


end
