(* ===== verification/Api_Common.thy ===== *)
theory Api_Common
  imports Pdu_Encode
begin

text \<open>
  What the REST and MQTT front ends accept, \<open>api_common.c\<close> and \<open>mqtt_command_policy.c\<close>: recipients,
  idempotency keys, diagnostic AT commands and MQTT commands. The token bucket of \<open>api_common.c\<close>
  computes with floating-point numbers and is a parameter of the theories that use it.
\<close>

section \<open>Recipients and keys\<close>

fun e164_loop :: "bool \<Rightarrow> nat \<Rightarrow> string \<Rightarrow> nat option" where
  "e164_loop first digits [] = Some digits"
| "e164_loop first digits (c # cs) =
     (if \<not> isdigit c then None
      else if first \<and> c = CHR ''0'' then None
      else if digits + 1 > 15 then None
      else e164_loop False (digits + 1) cs)"

definition gateway_e164_valid :: "string option \<Rightarrow> bool" where
  "gateway_e164_valid val =
     (case val of
        None \<Rightarrow> False
      | Some v \<Rightarrow>
          if cchar v 0 \<noteq> CHR ''+'' then False
          else (case e164_loop True 0 (drop 1 v) of None \<Rightarrow> False | Some digits \<Rightarrow> digits \<ge> 2))"

definition key_char :: "char \<Rightarrow> bool" where
  "key_char c \<longleftrightarrow> code (CHR ''a'') \<le> code c \<and> code c \<le> code (CHR ''z'') \<or>
     code (CHR ''A'') \<le> code c \<and> code c \<le> code (CHR ''Z'') \<or> isdigit c \<or>
     c = CHR ''-'' \<or> c = CHR ''_'' \<or> c = CHR ''.'' \<or> c = CHR '':''"

definition gateway_idempotency_key_valid :: "string option \<Rightarrow> bool" where
  "gateway_idempotency_key_valid val =
     (case val of
        None \<Rightarrow> False
      | Some v \<Rightarrow> if length v < 8 \<or> length v > 128 then False else list_all key_char v)"

section \<open>Diagnostic commands\<close>

fun starts_with_ignore_case :: "string \<Rightarrow> string \<Rightarrow> bool" where
  "starts_with_ignore_case val [] = True"
| "starts_with_ignore_case val (p # prefix) =
     (if toupper (cchar val 0) \<noteq> toupper p then False else starts_with_ignore_case (drop 1 val) prefix)"

definition line_break :: "char \<Rightarrow> bool" where
  "line_break c \<longleftrightarrow> c = CR \<or> c = LF \<or> c = CHR 0x1A"

definition gateway_at_command_allowed :: "string option \<Rightarrow> nat \<Rightarrow> bool" where
  "gateway_at_command_allowed command max_length =
     (case command of
        None \<Rightarrow> False
      | Some c \<Rightarrow>
          if \<not> starts_with_ignore_case c ''AT'' then False
          else if length c \<ge> max_length \<or> list_ex line_break c then False
          else \<not> starts_with_ignore_case c ''AT+CMGS'' \<and> \<not> starts_with_ignore_case c ''AT+CMGW'')"

text \<open>The text that is written to \<open>out\<close> when the result is true.\<close>

definition gateway_at_response_prefix :: "string option \<Rightarrow> nat \<Rightarrow> string option" where
  "gateway_at_response_prefix command out_size =
     (if out_size = 0 then None
      else (case command of
        None \<Rightarrow> None
      | Some c \<Rightarrow>
          if \<not> starts_with_ignore_case c ''AT'' \<or> (cchar c 2 \<noteq> CHR ''+'' \<and> cchar c 2 \<noteq> CHR ''^'') then None
          else let n = length (takeWhile (\<lambda>x. x \<noteq> CHR ''='' \<and> x \<noteq> CHR ''?'') (drop 2 c)) in
               if n < 2 \<or> n + 2 > out_size then None
               else Some (map toupper (take n (drop 2 c)) @ '':'')))"

section \<open>MQTT commands\<close>

datatype mqtt_command_kind =
    MQTT_COMMAND_NONE | MQTT_COMMAND_SMS_SEND | MQTT_COMMAND_NATIVE_NOTIFY
  | MQTT_COMMAND_MODEM_RESTART | MQTT_COMMAND_SYSTEM_REBOOT | MQTT_COMMAND_HA_STATUS

definition mqtt_command_allowed :: "mqtt_command_kind \<Rightarrow> bool \<Rightarrow> string option \<Rightarrow> bool" where
  "mqtt_command_allowed kind retained payload =
     (if kind = MQTT_COMMAND_NONE then False
      else if kind = MQTT_COMMAND_HA_STATUS then \<not> retained \<and> payload = Some ''online''
      else if retained then False
      else if kind = MQTT_COMMAND_MODEM_RESTART \<or> kind = MQTT_COMMAND_SYSTEM_REBOOT then payload = Some ''PRESS''
      else payload \<noteq> None)"

section \<open>What the checks guarantee\<close>

lemma nul_no_digit [simp]: "NUL \<noteq> CHR ''0''"
  by code_simp

lemma e164_loop_Some:
  "e164_loop first digits cs = Some n \<Longrightarrow>
     n = digits + length cs \<and> list_all isdigit cs \<and> (cs \<noteq> [] \<longrightarrow> n \<le> 15) \<and> (first \<longrightarrow> cchar cs 0 \<noteq> CHR ''0'')"
  by (induction first digits cs rule: e164_loop.induct) (auto simp: cchar_def split: if_splits)

lemma e164_loop_ok:
  "list_all isdigit cs \<Longrightarrow> digits + length cs \<le> 15 \<Longrightarrow> \<not> (first \<and> cchar cs 0 = CHR ''0'') \<Longrightarrow>
   e164_loop first digits cs = Some (digits + length cs)"
  by (induction first digits cs rule: e164_loop.induct) (auto simp: cchar_def)

lemma e164_valid_iff:
  "gateway_e164_valid (Some v) \<longleftrightarrow> (\<exists>ds. v = CHR ''+'' # ds \<and> list_all isdigit ds \<and> 2 \<le> length ds \<and> length ds \<le> 15 \<and> hd ds \<noteq> CHR ''0'')"
proof (cases v)
  case (Cons c ds)
  show ?thesis
  proof
    assume "gateway_e164_valid (Some v)"
    then obtain n where n: "c = CHR ''+''" "e164_loop True 0 ds = Some n" "2 \<le> n"
      using Cons by (auto simp: gateway_e164_valid_def cchar_def split: if_splits option.splits)
    from e164_loop_Some [OF n(2)] n Cons
    show "\<exists>ds. v = CHR ''+'' # ds \<and> list_all isdigit ds \<and> 2 \<le> length ds \<and> length ds \<le> 15 \<and> hd ds \<noteq> CHR ''0''"
      by (cases ds) (auto simp: cchar_def)
  next
    assume "\<exists>ds. v = CHR ''+'' # ds \<and> list_all isdigit ds \<and> 2 \<le> length ds \<and> length ds \<le> 15 \<and> hd ds \<noteq> CHR ''0''"
    then show "gateway_e164_valid (Some v)"
      using e164_loop_ok [of ds 0 True] Cons by (cases ds) (auto simp: gateway_e164_valid_def cchar_def)
  qed
qed (simp add: gateway_e164_valid_def cchar_def)

text \<open>A recipient the front ends accept can always be encoded as an address.\<close>

lemma e164_address: "gateway_e164_valid (Some v) \<Longrightarrow> \<exists>ds. address_validate v = Some (ds, True)"
  by (auto simp: e164_valid_iff address_validate_def cchar_def Let_def)

text \<open>
  An allowed diagnostic command is a single line, so it is sent as exactly one command line. But a
  command line may hold several commands: the check for the commands that prompt for a message
  looks only at the first, and \<open>AT+CSQ;+CMGS=23\<close> passes.
\<close>

lemma allowed_command_line: "gateway_at_command_allowed (Some c) n \<Longrightarrow> CR \<notin> set c \<and> LF \<notin> set c \<and> length c < n"
  by (auto simp: gateway_at_command_allowed_def list_ex_iff line_break_def split: if_splits)

lemma chained_prompt_allowed: "gateway_at_command_allowed (Some ''AT+CSQ;+CMGS=23'') 64"
  by code_simp

lemma response_prefix_example:
  "gateway_at_response_prefix (Some ''at+cpms?'') 16 = Some ''+CPMS:''" "gateway_at_response_prefix (Some ''ATI'') 16 = None"
  by code_simp+

end
