(* ===== verification/Front_End.thy ===== *)
theory Front_End
  imports Api_Common Sms_Api Idempotency_Runs
begin

text \<open>
  The requests that reach the message queue: the handlers of \<open>/api/v1/messages\<close> in
  \<open>api_server.c\<close> and the commands of \<open>mqtt_service.c\<close>. Both share the service and the
  idempotency records, which make up the state \<open>gateway\<close>.

  Outside the sources are the HTTP server (\<open>esp_http_server\<close>), whose answers about a request are
  the fields of \<open>http_request\<close>; cJSON, whose functions are the fields of \<open>json_ops\<close>; and what
  else a call meets while it runs (token, rate limiters, locks, allocations), the fields of
  \<open>surroundings\<close>. A handler yields the response that it hands to the server; the code with
  which the server answers that hand-over, and the allocation of the response document, are left
  out.
\<close>

section \<open>Outside the sources\<close>

record 'j json_ops =
  cJSON_Parse :: "string \<Rightarrow> 'j option"
  cJSON_children :: "'j \<Rightarrow> (string option \<times> 'j) list option"
  cJSON_GetObjectItemCaseSensitive :: "'j \<Rightarrow> string \<Rightarrow> 'j option"
  cJSON_string :: "'j \<Rightarrow> string option"
  cJSON_bool :: "'j \<Rightarrow> bool option"
  cJSON_IsNull :: "'j \<Rightarrow> bool"

datatype http_method = HTTP_GET | HTTP_POST | HTTP_DELETE | HTTP_PUT

record http_request =
  rq_method :: http_method
  rq_uri :: string
  rq_header_len :: "string \<Rightarrow> nat"
  rq_header :: "string \<Rightarrow> nat \<Rightarrow> esp_err + string"
  rq_query :: "string \<Rightarrow> string option"
  rq_content_len :: int
  rq_received :: "string option list"

record surroundings =
  su_bearer :: "string \<Rightarrow> bool"
  su_request_limiter :: bool
  su_sms_limiter :: bool
  su_body_alloc :: bool
  su_hash_alloc :: bool
  su_record_alloc :: "nat \<Rightarrow> bool"
  su_claim_lock :: bool
  su_release_lock :: bool
  su_finalize_lock :: "nat \<Rightarrow> bool"

section \<open>State\<close>

record mqtt_counters =
  mq_commands_received :: u32
  mq_commands_rejected :: u32

record ('n, 'w, 'i) gateway =
  gw_service :: "('n, 'w) service"
  gw_idem :: "'i idem_store"
  gw_mqtt :: mqtt_counters

type_synonym ('n, 'w, 'i, 'a) gateway_m = "(('n, 'w, 'i) gateway, 'a) state"

text \<open>The parameters of the handlers.\<close>

record ('n, 'w, 'i, 'j) gateway_env =
  ge_service :: "('n, 'w) service_env"
  ge_idem :: "('i, idem_record) nvs_ops"
  ge_sha256 :: "u8 list \<Rightarrow> esp_err + u8 list"
  ge_json :: "'j json_ops"

definition on_service :: "('n, 'w, 'a) sms_m \<Rightarrow> ('n, 'w, 'i, 'a) gateway_m" where
  "on_service m = State (\<lambda>g. case run_state m (gw_service g) of (a, s) \<Rightarrow> (a, g\<lparr>gw_service := s\<rparr>))"

definition on_idem :: "('i idem_store \<Rightarrow> 'a \<times> 'i idem_store) \<Rightarrow> ('n, 'w, 'i, 'a) gateway_m" where
  "on_idem f = State (\<lambda>g. case f (gw_idem g) of (a, st) \<Rightarrow> (a, g\<lparr>gw_idem := st\<rparr>))"

definition on_mqtt :: "(mqtt_counters \<Rightarrow> mqtt_counters) \<Rightarrow> ('n, 'w, 'i, unit) gateway_m" where
  "on_mqtt f = upd (\<lambda>g. g\<lparr>gw_mqtt := f (gw_mqtt g)\<rparr>)"

lemma run_on_service [simp]:
  "run_state (on_service m) g = (fst (run_state m (gw_service g)), g\<lparr>gw_service := snd (run_state m (gw_service g))\<rparr>)"
  by (simp add: on_service_def split: prod.splits)

lemma run_on_idem [simp]: "run_state (on_idem f) g = (fst (f (gw_idem g)), g\<lparr>gw_idem := snd (f (gw_idem g))\<rparr>)"
  by (simp add: on_idem_def split: prod.splits)

lemma run_on_mqtt [simp]: "run_state (on_mqtt f) g = ((), g\<lparr>gw_mqtt := f (gw_mqtt g)\<rparr>)"
  by (simp add: on_mqtt_def)

section \<open>Responses\<close>

datatype json_value = JNumber int | JString string | JBool bool | JNull

text \<open>
  \<open>Problem\<close> is a problem document with its status and type (without the prefix \<open>urn:sms-gateway:\<close>); \<open>Record\<close> a status, a message and
  the identifier in the header \<open>Location\<close>, and whether \<open>X-Idempotency-State: pending\<close> was set;
  \<open>Page\<close> the messages of a list and \<open>next_after_id\<close>; \<open>Empty_Reply\<close> a status without a body;
  \<open>No_Reply\<close> is a handler that gives up for want of memory.
\<close>

datatype http_reply =
    Problem nat string
  | Record nat "(string \<times> json_value) list" "u32 option" bool
  | Page "(string \<times> json_value) list list" u32
  | Empty_Reply nat
  | No_Reply

definition json_string :: "string \<Rightarrow> json_value" where
  "json_string val = (if val \<noteq> [] then JString val else JNull)"

definition message_json :: "sms_message \<Rightarrow> (string \<times> json_value) list" where
  "message_json m =
     [(''id'', JNumber (uint (msg_id m))),
      (''direction'', JString (if msg_direction m = SMS_DIRECTION_INBOUND then ''inbound'' else ''outbound'')),
      (''status'', JString (sms_message_status_name (msg_status m))),
      (''from'', if msg_direction m = SMS_DIRECTION_INBOUND then json_string (msg_sender m) else JNull),
      (''to'', if msg_direction m = SMS_DIRECTION_INBOUND then JNull else json_string (msg_recipient m)),
      (''text'', JString (if msg_status m = SMS_MESSAGE_UNSUPPORTED then [] else msg_text m)),
      (''service_center_timestamp'', json_string (msg_service_center_timestamp m)),
      (''delivery_report_requested'', JBool (msg_delivery_report_requested m)),
      (''segment_count'', JNumber (uint (msg_segment_count m))),
      (''send_attempts'', JNumber (uint (msg_send_attempts m))),
      (''last_modem_error'', if msg_last_modem_error m \<ge> 0 then JNumber (msg_last_modem_error m) else JNull)]"

section \<open>Reading a request\<close>

definition API_BODY_MAX :: int where "API_BODY_MAX = 4608"
definition API_AUTH_MAX :: nat where "API_AUTH_MAX = 160"
definition API_LIST_MAX :: nat where "API_LIST_MAX = 25"

definition json_has_only_fields :: "'j json_ops \<Rightarrow> 'j \<Rightarrow> string list \<Rightarrow> bool" where
  "json_has_only_fields js json allowed =
     (case cJSON_children js json of
        None \<Rightarrow> False
      | Some items \<Rightarrow> list_all (\<lambda>(name, _). case name of None \<Rightarrow> False | Some s \<Rightarrow> s \<in> set allowed) items)"

text \<open>The refusals of \<open>authorized\<close> and \<open>request_allowed\<close>, None when the request passes.\<close>

definition authorized :: "surroundings \<Rightarrow> http_request \<Rightarrow> http_reply option" where
  "authorized su req =
     (let len = rq_header_len req ''Authorization'' in
      if len < 8 \<or> len \<ge> API_AUTH_MAX then Some (Problem 401 ''unauthorized'')
      else (case rq_header req ''Authorization'' API_AUTH_MAX of
              Inl _ \<Rightarrow> Some (Problem 401 ''unauthorized'')
            | Inr header \<Rightarrow>
                if has_prefix header ''Bearer '' \<and> su_bearer su (drop 7 header) then None
                else Some (Problem 401 ''unauthorized'')))"

definition request_allowed :: "surroundings \<Rightarrow> bool \<Rightarrow> http_reply option" where
  "request_allowed su sms =
     (if \<not> su_request_limiter su then Some (Problem 429 ''rate-limit'')
      else if sms \<and> \<not> su_sms_limiter su then Some (Problem 429 ''sms-rate-limit'')
      else None)"

text \<open>
  The loop that receives the body: one element of the list is what a call of \<open>httpd_req_recv\<close>
  gives, None for an error or a closed connection. A call returns at most as much as was asked for.
\<close>

fun receive_loop :: "nat \<Rightarrow> string \<Rightarrow> string option list \<Rightarrow> string option" where
  "receive_loop content_len body rs =
     (if length body < content_len
      then (case rs of
              [] \<Rightarrow> None
            | None # _ \<Rightarrow> None
            | Some chunk # rest \<Rightarrow>
                if chunk = [] then None else receive_loop content_len (body @ take (content_len - length body) chunk) rest)
      else Some body)"

declare receive_loop.simps [simp del]

definition read_body :: "surroundings \<Rightarrow> http_request \<Rightarrow> esp_err + string" where
  "read_body su req =
     (if rq_content_len req \<le> 0 \<or> rq_content_len req > API_BODY_MAX then Inl ESP_ERR_INVALID_SIZE
      else if \<not> su_body_alloc su then Inl ESP_ERR_NO_MEM
      else (case receive_loop (nat (rq_content_len req)) [] (rq_received req) of
              None \<Rightarrow> Inl ESP_FAIL
            | Some body \<Rightarrow> Inr body))"

text \<open>\<open>strtoul(s, &end, 10)\<close> with the 32-bit \<open>unsigned long\<close> of the target.\<close>

definition strtoul :: "string \<Rightarrow> u32 \<times> string" where
  "strtoul s =
     (let p = dropWhile isspace s;
          neg = (p \<noteq> [] \<and> hd p = CHR ''-'');
          q = (if p \<noteq> [] \<and> (hd p = CHR ''-'' \<or> hd p = CHR ''+'') then tl p else p)
      in if q \<noteq> [] \<and> isdigit (hd q)
         then (let (v, rest) = digits_value 0 q
               in (if v > unat UINT32_MAX then UINT32_MAX
                   else if neg then - word_of_nat v else word_of_nat v, rest))
         else (0, s))"

text \<open>The identifier and whether the resource is \<open>/retry\<close>.\<close>

definition parse_message_id :: "string \<Rightarrow> (u32 \<times> bool) option" where
  "parse_message_id uri =
     (let prefix = ''/api/v1/messages/'' in
      if \<not> has_prefix uri prefix then None
      else let p = drop (length prefix) uri; (val, end) = strtoul p in
           if val = 0 \<or> end = p then None
           else let retry = (end = ''/retry'') in
                if end \<noteq> [] \<and> \<not> retry then None else Some (val, retry))"

section \<open>POST /api/v1/messages\<close>

definition cJSON_IsTrue :: "'j json_ops \<Rightarrow> 'j option \<Rightarrow> bool" where
  "cJSON_IsTrue js item = (Option.bind item (cJSON_bool js) = Some True)"

text \<open>
  The checks that come before the idempotency key: the recipient, the text and whether a delivery
  report is wanted.
\<close>

definition checked_message ::
    "'j json_ops \<Rightarrow> 'j option \<Rightarrow> 'j option \<Rightarrow> 'j option \<Rightarrow> (string \<times> string \<times> bool) option" where
  "checked_message js to body dr =
     (let delivery = (if dr = None then True else cJSON_IsTrue js dr) in
      case (Option.bind to (cJSON_string js), Option.bind body (cJSON_string js)) of
        (Some t, Some b) \<Rightarrow>
          if \<not> gateway_e164_valid (Some t) \<or> b = [] \<or> length b \<ge> SMS_MESSAGE_TEXT_MAX \<or>
             (dr \<noteq> None \<and> Option.bind dr (cJSON_bool js) = None)
          then None else Some (t, b, delivery)
      | _ \<Rightarrow> None)"

definition post_message ::
    "'j json_ops \<Rightarrow> surroundings \<Rightarrow> http_request \<Rightarrow> http_reply + (string \<times> string \<times> bool)" where
  "post_message js su req =
     (case read_body su req of
        Inl _ \<Rightarrow> Inl (Problem 400 ''invalid-body'')
      | Inr body \<Rightarrow>
          (case cJSON_Parse js body of
             None \<Rightarrow> Inl (Problem 400 ''invalid-json'')
           | Some json \<Rightarrow>
               if \<not> json_has_only_fields js json [''to'', ''text'', ''delivery_report'', ''request_delivery_report'']
               then Inl (Problem 400 ''invalid-json'')
               else let item = cJSON_GetObjectItemCaseSensitive js json;
                        dr = (if item ''delivery_report'' = None then item ''request_delivery_report'' else item ''delivery_report'')
                    in (case checked_message js (item ''to'') (item ''text'') dr of
                          None \<Rightarrow> Inl (Problem 400 ''invalid-message'')
                        | Some (to, txt, delivery) \<Rightarrow>
                            if sms_submit_preflight to txt 0x0100 = None then Inl (Problem 422 ''message-too-long'')
                            else Inr (to, txt, delivery))))"

text \<open>The key of the header and the hash of the request, None when the header is missing.\<close>

definition post_key ::
    "(u8 list \<Rightarrow> esp_err + u8 list) \<Rightarrow> surroundings \<Rightarrow> http_request \<Rightarrow> string \<times> string \<times> bool \<Rightarrow>
     http_reply + (string \<times> u8 list) option" where
  "post_key sha256 su req message =
     (let (to, txt, delivery) = message; idem_len = rq_header_len req ''Idempotency-Key''; refused = Inl (Problem 400 ''invalid-idempotency-key'') in
      if idem_len = 0 then Inr None
      else if idem_len \<ge> 129 then refused
      else (case rq_header req ''Idempotency-Key'' 129 of
              Inl _ \<Rightarrow> refused
            | Inr key \<Rightarrow>
                if \<not> gateway_idempotency_key_valid (Some key) then refused
                else (case gateway_idempotency_sms_fingerprint sha256 (su_hash_alloc su) (Some to) (Some txt) delivery of
                        Inl _ \<Rightarrow> refused
                      | Inr fingerprint \<Rightarrow> Inr (Some (key, fingerprint)))))"

text \<open>The attempts to finalize, one for each outcome of the lock.\<close>

fun finalize_attempts ::
    "('i, idem_record) nvs_ops \<Rightarrow> (u8 list \<Rightarrow> esp_err + u8 list) \<Rightarrow> string \<Rightarrow> u8 list \<Rightarrow> u32 \<Rightarrow> bool list \<Rightarrow>
     'i idem_store \<Rightarrow> bool \<times> 'i idem_store" where
  "finalize_attempts ops sha256 key fp mid [] st = (False, st)"
| "finalize_attempts ops sha256 key fp mid (taken # ts) st =
     (case gateway_idempotency_finalize ops sha256 taken key fp mid st of
        (e, st1) \<Rightarrow> if e = ESP_OK then (True, st1) else finalize_attempts ops sha256 key fp mid ts st1)"

text \<open>
  From the claim on. \<open>claimed_send\<close> is what both interfaces do with a request that was not seen
  before: queue the message, then finalize the claim or, when it was not queued, release it. It
  gives the error, the identifier and whether the claim was finalized.
\<close>

definition claimed_send ::
    "('n, 'w, 'i, 'j) gateway_env \<Rightarrow> surroundings \<Rightarrow> string \<times> string \<times> bool \<Rightarrow> (string \<times> u8 list) option \<Rightarrow>
     ('n, 'w, 'i, esp_err \<times> u32 \<times> bool) gateway_m" where
  "claimed_send ge su message claim = do {
     let (to, txt, delivery) = message;
     (err, i) \<leftarrow> on_service (sms_service_send (ge_service ge) (Some to) (Some txt) delivery);
     let message_id = (case i of None \<Rightarrow> 0 | Some x \<Rightarrow> x);
     case claim of
       None \<Rightarrow> ret (err, message_id, False)
     | Some (key, fp) \<Rightarrow>
         if err \<noteq> ESP_OK then do {
           _ \<leftarrow> on_idem (gateway_idempotency_release_pending (ge_idem ge) (ge_sha256 ge) (su_release_lock su) key fp);
           ret (err, message_id, False) }
         else do {
           finalized \<leftarrow> on_idem (finalize_attempts (ge_idem ge) (ge_sha256 ge) key fp message_id
             (map (su_finalize_lock su) [0..<3]));
           ret (err, message_id, finalized) } }"

definition post_send ::
    "('n, 'w, 'i, 'j) gateway_env \<Rightarrow> surroundings \<Rightarrow> string \<times> string \<times> bool \<Rightarrow> (string \<times> u8 list) option \<Rightarrow>
     ('n, 'w, 'i, http_reply) gateway_m" where
  "post_send ge su message claim = do {
     (err, message_id, finalized) \<leftarrow> claimed_send ge su message claim;
     if err \<noteq> ESP_OK then ret (Problem (if err = ESP_ERR_NO_MEM then 507 else 503) ''queue-failed'')
     else if \<not> su_record_alloc su 0 then ret No_Reply
     else do {
       (err, out) \<leftarrow> on_service (sms_service_get (ge_service ge) message_id);
       ret (case out of
              Some m \<Rightarrow> if err = ESP_OK then Record 202 (message_json m) (Some message_id) (claim \<noteq> None \<and> \<not> finalized)
                        else Problem 500 ''store-read''
            | None \<Rightarrow> Problem 500 ''store-read'') } }"

text \<open>What the claim said decides: a new key is sent, a known one is answered from its record.\<close>

definition post_claimed ::
    "('n, 'w, 'i, 'j) gateway_env \<Rightarrow> surroundings \<Rightarrow> string \<times> string \<times> bool \<Rightarrow> string \<times> u8 list \<Rightarrow>
     esp_err \<Rightarrow> gateway_idempotency_result \<times> u32 \<Rightarrow> ('n, 'w, 'i, http_reply) gateway_m" where
  "post_claimed ge su message claim err result =
     (let (replay, existing_id) = result in
      if err \<noteq> ESP_OK then ret (Problem 503 ''idempotency-unavailable'')
      else if replay = GATEWAY_IDEMPOTENCY_CONFLICT then ret (Problem 409 ''idempotency-conflict'')
      else if replay = GATEWAY_IDEMPOTENCY_REPLAY then
        if existing_id = 0 then ret (Problem 409 ''idempotency-pending'')
        else if \<not> su_record_alloc su 0 then ret No_Reply
        else do {
          (err, out) \<leftarrow> on_service (sms_service_get (ge_service ge) existing_id);
          ret (case out of
                 Some m \<Rightarrow> if err = ESP_OK then Record 202 (message_json m) None False else Problem 409 ''idempotency-expired''
               | None \<Rightarrow> Problem 409 ''idempotency-expired'') }
      else post_send ge su message (Some claim))"

text \<open>The claim of a handler: the error code, and the result and identifier, MISS and 0 when they were not written.\<close>

definition claim_key ::
    "('n, 'w, 'i, 'j) gateway_env \<Rightarrow> surroundings \<Rightarrow> string \<times> u8 list \<Rightarrow>
     ('n, 'w, 'i, esp_err \<times> gateway_idempotency_result \<times> u32) gateway_m" where
  "claim_key ge su claim = on_idem (\<lambda>st.
     case gateway_idempotency_claim (ge_idem ge) (ge_sha256 ge) (su_claim_lock su) (fst claim) (snd claim) st of
       (e, out, st1) \<Rightarrow> ((e, case out of None \<Rightarrow> (GATEWAY_IDEMPOTENCY_MISS, 0) | Some x \<Rightarrow> x), st1))"

definition messages_post_handler ::
    "('n, 'w, 'i, 'j) gateway_env \<Rightarrow> surroundings \<Rightarrow> http_request \<Rightarrow> ('n, 'w, 'i, http_reply) gateway_m" where
  "messages_post_handler ge su req =
     (case authorized su req of
        Some reply \<Rightarrow> ret reply
      | None \<Rightarrow>
     (case request_allowed su True of
        Some reply \<Rightarrow> ret reply
      | None \<Rightarrow>
     (case post_message (ge_json ge) su req of
        Inl reply \<Rightarrow> ret reply
      | Inr message \<Rightarrow>
     (case post_key (ge_sha256 ge) su req message of
        Inl reply \<Rightarrow> ret reply
      | Inr None \<Rightarrow> post_send ge su message None
      | Inr (Some claim) \<Rightarrow> do {
          (err, result) \<leftarrow> claim_key ge su claim;
          post_claimed ge su message claim err result }))))"

section \<open>GET /api/v1/messages\<close>

lemma list_moves_on:
  assumes "sms_store_list ops after 1 st = Inr rs" and "rs = r # rs'"
  shows "unat UINT32_MAX - unat (msg_id r) < unat UINT32_MAX - unat after"
proof -
  have "after < msg_id r" using assms sms_store_list_above by fastforce
  moreover have "unat (msg_id r) \<le> unat UINT32_MAX" using UINT32_MAX_max(1) word_le_nat_alt by blast
  ultimately show ?thesis by (simp add: word_less_nat_alt)
qed

text \<open>
  The loop over the records after \<open>cursor\<close>; \<open>n\<close> counts the allocations. The store does not
  change while it runs. None when an allocation fails.
\<close>

function page_loop ::
    "('n, persisted_record) nvs_ops \<Rightarrow> (nat \<Rightarrow> bool) \<Rightarrow> (sms_message \<Rightarrow> bool) \<Rightarrow> 'n sms_store \<Rightarrow> nat \<Rightarrow> nat \<Rightarrow>
     u32 \<Rightarrow> (sms_message list \<times> u32) option" where
  "page_loop ops alloc wanted st n remaining cursor =
     (if remaining = 0 then Some ([], cursor)
      else if \<not> alloc n then None
      else (case sms_store_list ops cursor 1 st of
              Inl _ \<Rightarrow> Some ([], cursor)
            | Inr [] \<Rightarrow> Some ([], cursor)
            | Inr (m # _) \<Rightarrow>
                if wanted m
                then map_option (\<lambda>(ms, next). (m # ms, next))
                       (page_loop ops alloc wanted st (n + 1) (remaining - 1) (msg_id m))
                else page_loop ops alloc wanted st (n + 1) remaining (msg_id m)))"
  by pat_completeness auto

termination
  by (relation "measure (\<lambda>(ops, alloc, wanted, st, n, remaining, cursor). unat UINT32_MAX - unat cursor)")
    (auto simp del: One_nat_def dest: list_moves_on)

declare page_loop.simps [simp del]

text \<open>\<open>direction\<close> is -1 without a filter.\<close>

definition page_direction :: "http_request \<Rightarrow> http_reply + sms_direction option" where
  "page_direction req =
     (case rq_query req ''direction'' of
        None \<Rightarrow> Inr None
      | Some v \<Rightarrow>
          if v = ''inbound'' then Inr (Some SMS_DIRECTION_INBOUND)
          else if v = ''outbound'' then Inr (Some SMS_DIRECTION_OUTBOUND)
          else Inl (Problem 400 ''invalid-direction''))"

definition page_after_id :: "http_request \<Rightarrow> u32" where
  "page_after_id req = (case rq_query req ''after_id'' of None \<Rightarrow> 0 | Some v \<Rightarrow> fst (strtoul v))"

definition page_limit :: "http_request \<Rightarrow> nat" where
  "page_limit req = (case rq_query req ''limit'' of None \<Rightarrow> 10 | Some v \<Rightarrow> unat (fst (strtoul v)))"

definition messages_get_handler ::
    "('n, 'w, 'i, 'j) gateway_env \<Rightarrow> surroundings \<Rightarrow> http_request \<Rightarrow> ('n, 'w, 'i, http_reply) gateway_m" where
  "messages_get_handler ge su req =
     (case authorized su req of
        Some reply \<Rightarrow> ret reply
      | None \<Rightarrow>
     (case request_allowed su False of
        Some reply \<Rightarrow> ret reply
      | None \<Rightarrow>
          if rq_query req ''limit'' \<noteq> None \<and> (page_limit req < 1 \<or> page_limit req > API_LIST_MAX)
          then ret (Problem 400 ''invalid-limit'')
             else (case page_direction req of
                     Inl reply \<Rightarrow> ret reply
                   | Inr direction \<Rightarrow>
                       on_service (store_query (\<lambda>st.
                         case page_loop (env_nvs (ge_service ge)) (su_record_alloc su)
                                (\<lambda>m. direction = None \<or> direction = Some (msg_direction m)) st 0 (page_limit req) (page_after_id req) of
                           None \<Rightarrow> No_Reply
                         | Some (ms, next) \<Rightarrow> Page (map message_json ms) next)))))"

section \<open>/api/v1/messages/<id>\<close>

definition message_retry ::
    "('n, 'w, 'i, 'j) gateway_env \<Rightarrow> surroundings \<Rightarrow> http_request \<Rightarrow> u32 \<Rightarrow> ('n, 'w, 'i, http_reply) gateway_m" where
  "message_retry ge su req i =
     (if rq_method req \<noteq> HTTP_POST then ret (Problem 405 ''method'')
      else (case read_body su req of
        Inl _ \<Rightarrow> ret (Problem 400 ''invalid-body'')
      | Inr body \<Rightarrow>
          let js = ge_json ge;
              accepted = (case cJSON_Parse js body of
                 None \<Rightarrow> False
               | Some json \<Rightarrow> json_has_only_fields js json [''acknowledge_duplicate_risk''] \<and>
                   cJSON_IsTrue js (cJSON_GetObjectItemCaseSensitive js json ''acknowledge_duplicate_risk''))
          in if \<not> accepted then ret (Problem 400 ''duplicate-risk'')
             else do {
               err \<leftarrow> on_service (sms_service_retry_uncertain (ge_service ge) i);
               ret (if err = ESP_ERR_NOT_FOUND then Problem 404 ''not-found''
                    else if err \<noteq> ESP_OK then Problem 409 ''not-uncertain'' else Empty_Reply 202) }))"

definition message_item_handler ::
    "('n, 'w, 'i, 'j) gateway_env \<Rightarrow> surroundings \<Rightarrow> http_request \<Rightarrow> ('n, 'w, 'i, http_reply) gateway_m" where
  "message_item_handler ge su req =
     (case authorized su req of
        Some reply \<Rightarrow> ret reply
      | None \<Rightarrow>
     (case request_allowed su (rq_method req = HTTP_POST) of
        Some reply \<Rightarrow> ret reply
      | None \<Rightarrow>
     (case parse_message_id (rq_uri req) of
        None \<Rightarrow> ret (Problem 404 ''not-found'')
      | Some (i, retry) \<Rightarrow>
          if retry then message_retry ge su req i
          else if rq_method req = HTTP_DELETE then do {
            err \<leftarrow> on_service (sms_service_delete (ge_service ge) i);
            ret (if err = ESP_ERR_NOT_FOUND then Problem 404 ''not-found''
                 else if err \<noteq> ESP_OK then Problem 409 ''not-deletable'' else Empty_Reply 204) }
          else if rq_method req \<noteq> HTTP_GET then ret (Problem 405 ''method'')
          else if \<not> su_record_alloc su 0 then ret No_Reply
          else do {
            (err, out) \<leftarrow> on_service (sms_service_get (ge_service ge) i);
            ret (case out of
                   Some m \<Rightarrow> if err = ESP_OK then Record 200 (message_json m) None False else Problem 404 ''not-found''
                 | None \<Rightarrow> Problem 404 ''not-found'') })))"

section \<open>MQTT commands\<close>

record command_result =
  cr_request_id :: "string option"
  cr_ok :: bool
  cr_code :: string
  cr_message_id :: u32
  cr_replayed :: bool

definition publish_command_result :: "string option \<Rightarrow> bool \<Rightarrow> string \<Rightarrow> u32 \<Rightarrow> bool \<Rightarrow> command_result" where
  "publish_command_result request_id ok cmd message_id replayed =
     \<lparr>cr_request_id = request_id, cr_ok = ok, cr_code = cmd, cr_message_id = message_id, cr_replayed = replayed\<rparr>"

definition command_claimed ::
    "('n, 'w, 'i, 'j) gateway_env \<Rightarrow> surroundings \<Rightarrow> string \<times> string \<times> bool \<Rightarrow> string \<times> u8 list \<Rightarrow>
     esp_err \<Rightarrow> gateway_idempotency_result \<times> u32 \<Rightarrow> ('n, 'w, 'i, command_result) gateway_m" where
  "command_claimed ge su message claim err result =
     (let (idem, existing) = result; answer = publish_command_result (Some (fst claim)) in
      if err \<noteq> ESP_OK then ret (answer False ''idempotency_unavailable'' 0 False)
      else if idem = GATEWAY_IDEMPOTENCY_CONFLICT then ret (answer False ''idempotency_conflict'' existing False)
      else if idem = GATEWAY_IDEMPOTENCY_REPLAY then
        if existing = 0 then ret (answer False ''idempotency_pending'' 0 True)
        else if \<not> su_record_alloc su 0 then ret (answer False ''idempotency_expired'' existing False)
        else do {
          (err, _) \<leftarrow> on_service (sms_service_get (ge_service ge) existing);
          ret (if err = ESP_OK then answer True ''accepted'' existing True
               else answer False ''idempotency_expired'' existing False) }
      else do {
        (err, i, finalized) \<leftarrow> claimed_send ge su message (Some claim);
        ret (if err \<noteq> ESP_OK then answer False ''queue_failed'' 0 False
             else answer True (if finalized then ''accepted'' else ''accepted_idempotency_pending'') i False) })"

text \<open>The items of a command, NULL when it is not JSON, and its request identifier.\<close>

definition command_item :: "'j json_ops \<Rightarrow> string \<Rightarrow> string \<Rightarrow> 'j option" where
  "command_item js payload name =
     Option.bind (cJSON_Parse js payload) (\<lambda>json. cJSON_GetObjectItemCaseSensitive js json name)"

definition command_key :: "'j json_ops \<Rightarrow> string \<Rightarrow> string option" where
  "command_key js payload = Option.bind (command_item js payload ''request_id'') (cJSON_string js)"

text \<open>The command result that is published.\<close>

definition handle_structured_send ::
    "('n, 'w, 'i, 'j) gateway_env \<Rightarrow> surroundings \<Rightarrow> string \<Rightarrow> ('n, 'w, 'i, command_result) gateway_m" where
  "handle_structured_send ge su payload = do {
     on_mqtt (\<lambda>d. d\<lparr>mq_commands_received := mq_commands_received d + 1\<rparr>);
     let js = ge_json ge;
     let item = command_item js payload;
     let request_id = command_key js payload;
     let reject = (\<lambda>cmd. do {
       on_mqtt (\<lambda>d. d\<lparr>mq_commands_rejected := mq_commands_rejected d + 1\<rparr>);
       ret (publish_command_result request_id False cmd 0 False) });
     case (request_id, checked_message js (item ''to'') (item ''text'') (item ''delivery_report'')) of
       (Some key, Some (to, txt, delivery)) \<Rightarrow>
         if \<not> gateway_idempotency_key_valid (Some key) then reject ''invalid_request''
         else if sms_submit_preflight to txt 0x0100 = None then reject ''message_too_long''
         else if \<not> su_sms_limiter su then ret (publish_command_result request_id False ''rate_limited'' 0 False)
         else (case gateway_idempotency_sms_fingerprint (ge_sha256 ge) (su_hash_alloc su) (Some to) (Some txt) delivery of
           Inl _ \<Rightarrow> ret (publish_command_result request_id False ''internal_error'' 0 False)
         | Inr fp \<Rightarrow> do {
             (err, result) \<leftarrow> claim_key ge su (key, fp);
             command_claimed ge su (to, txt, delivery) (key, fp) err result })
     | _ \<Rightarrow> reject ''invalid_request'' }"

text \<open>\<open>config_view\<close>, None when its lock times out.\<close>

record mqtt_config_view =
  cv_home_assistant_enabled :: bool
  cv_base_topic :: string
  cv_discovery_prefix :: string
  cv_default_recipient :: string

definition handle_native_notify ::
    "('n, 'w, 'i, 'j) gateway_env \<Rightarrow> surroundings \<Rightarrow> mqtt_config_view option \<Rightarrow> string \<Rightarrow> nat \<Rightarrow> ('n, 'w, 'i, unit) gateway_m" where
  "handle_native_notify ge su config payload len =
     (case config of
        None \<Rightarrow> ret ()
      | Some c \<Rightarrow>
          if cv_default_recipient c = [] \<or> len = 0 \<or> len \<ge> SMS_MESSAGE_TEXT_MAX \<or>
             sms_submit_preflight (cv_default_recipient c) payload 0x0100 = None \<or> \<not> su_sms_limiter su
          then ret ()
          else do {
            _ \<leftarrow> on_service (sms_service_send (ge_service ge) (Some (cv_default_recipient c)) (Some payload) True);
            ret () })"

definition MQTT_TOPIC_MAX :: nat where "MQTT_TOPIC_MAX = 192"

text \<open>\<open>snprintf(out, MQTT_TOPIC_MAX, "%s/%s", ...)\<close>; without the lock the topic is empty.\<close>

definition mqtt_topic :: "mqtt_config_view option \<Rightarrow> string \<Rightarrow> string" where
  "mqtt_topic config suffix =
     (case config of None \<Rightarrow> [] | Some c \<Rightarrow> take (MQTT_TOPIC_MAX - 1) (cv_base_topic c @ ''/'' @ suffix))"

record mqtt_data =
  md_topic :: string
  md_payload :: string
  md_payload_len :: nat
  md_retained :: bool

definition command_kind :: "mqtt_config_view option \<Rightarrow> string \<Rightarrow> mqtt_command_kind" where
  "command_kind config t =
     (if t = mqtt_topic config ''sms/send'' then MQTT_COMMAND_SMS_SEND
      else if t = mqtt_topic config ''ha/notify'' then MQTT_COMMAND_NATIVE_NOTIFY
      else if t = mqtt_topic config ''modem/restart'' then MQTT_COMMAND_MODEM_RESTART
      else if t = mqtt_topic config ''system/reboot'' then MQTT_COMMAND_SYSTEM_REBOOT
      else (case config of
              None \<Rightarrow> MQTT_COMMAND_NONE
            | Some c \<Rightarrow> if t = take (MQTT_TOPIC_MAX - 1) (cv_discovery_prefix c @ ''/status'') then MQTT_COMMAND_HA_STATUS
                        else MQTT_COMMAND_NONE))"

text \<open>What a command asks of the rest of the system besides the queue.\<close>

datatype mqtt_effect =
    Publish_Result command_result | Restart_Modem | Reboot_System | Publish_Discovery_And_Status

definition handle_data_work ::
    "('n, 'w, 'i, 'j) gateway_env \<Rightarrow> surroundings \<Rightarrow> mqtt_config_view option \<Rightarrow> mqtt_data \<Rightarrow> ('n, 'w, 'i, mqtt_effect list) gateway_m" where
  "handle_data_work ge su config work =
     (let kind = command_kind config (md_topic work) in
      if kind = MQTT_COMMAND_NONE then ret []
      else if \<not> mqtt_command_allowed kind (md_retained work) (Some (md_payload work)) then
        if kind \<noteq> MQTT_COMMAND_HA_STATUS then do {
          on_mqtt (\<lambda>d. d\<lparr>mq_commands_rejected := mq_commands_rejected d + 1\<rparr>);
          ret [] }
        else ret []
      else (case kind of
              MQTT_COMMAND_SMS_SEND \<Rightarrow> do {
                r \<leftarrow> handle_structured_send ge su (md_payload work);
                ret [Publish_Result r] }
            | MQTT_COMMAND_NATIVE_NOTIFY \<Rightarrow> do {
                handle_native_notify ge su config (md_payload work) (md_payload_len work);
                ret [] }
            | MQTT_COMMAND_MODEM_RESTART \<Rightarrow> ret [Restart_Modem]
            | MQTT_COMMAND_SYSTEM_REBOOT \<Rightarrow> ret [Reboot_System]
            | MQTT_COMMAND_HA_STATUS \<Rightarrow>
                ret (case config of
                       Some c \<Rightarrow> if cv_home_assistant_enabled c then [Publish_Discovery_And_Status] else []
                     | None \<Rightarrow> [])
            | MQTT_COMMAND_NONE \<Rightarrow> ret []))"

end
