(* ===== verification/Front_End_Runs.thy ===== *)
theory Front_End_Runs
  imports Front_End
begin

text \<open>
  What the interfaces guarantee to their clients: a request that is repeated with the key of an
  accepted one queues nothing, over REST or MQTT; a refused request changes nothing; the pages of
  the list miss no message; a retained MQTT command is not executed.
\<close>

section \<open>A key that is on record\<close>

definition recorded :: "('i, idem_record) nvs_ops \<Rightarrow> u8 list \<Rightarrow> u32 \<Rightarrow> 'i idem_store \<Rightarrow> bool" where
  "recorded ops kh x st \<longleftrightarrow> idem_inv ops (is_nvs st) \<and>
     (\<exists>i \<in> set idem_slots. \<exists>r. idem_view ops (is_nvs st) i = Inr (Some r) \<and> ir_key_hash r = kh \<and> ir_message_id r \<in> {0, x})"

context idem_partition
begin

lemma finalize_keeps:
  assumes "digest sha256" and "sha256 (map byte_of key) = Inr kh" and "recorded ops kh x st"
    and c: "gateway_idempotency_finalize ops sha256 taken key fp x st = (e, st')"
  shows "recorded ops kh x st'"
proof (cases "x = 0")
  case True
  then show ?thesis using assms(3) c by (simp add: gateway_idempotency_finalize_def)
next
  case False
  let ?act = "\<lambda>i r n. if \<not> equal32 (ir_request_hash r) fp then (ESP_ERR_INVALID_STATE, n)
      else idem_write_slot ops i (r\<lparr>ir_message_id := x\<rparr>) n"
  have inv: "idem_inv ops (is_nvs st)" using assms(3) by (simp add: recorded_def)
  have w: "with_key ops sha256 taken key ?act st = (e, st')"
    using c False by (simp add: gateway_idempotency_finalize_def)
  show ?thesis
  proof (rule with_key_effect [OF w assms(1)])
    assume "st' = st"
    then show ?thesis using assms(3) by simp
  next
    fix kh' i r n'
    assume h: "sha256 (map byte_of key) = Inr kh'" "i \<in> set idem_slots" "idem_view ops (is_nvs st) i = Inr (Some r)"
      "has_key kh' (Some r)" "?act i r (is_nvs st) = (e, n')" "st' = st\<lparr>is_nvs := n'\<rparr>"
    note l = idem_invD [OF inv h(2,3)]
    have k: "ir_key_hash r = kh" using h(1,4) assms(2) equal32_iff [OF l(1) digestD [OF assms(1,2)]] by simp
    show ?thesis
    proof (cases "equal32 (ir_request_hash r) fp")
      case True
      then have e: "idem_write_slot ops i (r\<lparr>ir_message_id := x\<rparr>) (is_nvs st) = (e, n')" using h(5) by simp
      have "valid_record (r\<lparr>ir_message_id := x\<rparr>)" using idem_view_valid [OF h(3)] by (simp add: valid_record_def)
      note wr = idem_write [OF e this]
      have "idem_inv ops n'"
        by (rule idem_inv_replace [OF inv, where i = i and r = "r\<lparr>ir_message_id := x\<rparr>"]) (use wr l in auto)
      moreover have "ir_message_id r \<in> {0, x}"
        using assms(3) l(3) h(3) k unfolding recorded_def by (metis Inr_inject option.inject)
      ultimately show ?thesis using wr(1) h(2,3,6) k unfolding recorded_def by fastforce
    next
      case False
      then show ?thesis using h(5,6) assms(3) by (auto simp: recorded_def)
    qed
  qed
qed

lemma attempts_keep:
  assumes "digest sha256" and "sha256 (map byte_of key) = Inr kh"
  shows "recorded ops kh x st \<Longrightarrow> recorded ops kh x (snd (finalize_attempts ops sha256 key fp x ts st))"
  by (induction ts arbitrary: st) (auto dest: finalize_keeps [OF assms] split: prod.splits)

lemma claim_recorded:
  assumes "digest sha256" and "sha256 (map byte_of key) = Inr kh" and "recorded ops kh x st"
    and c: "gateway_idempotency_claim ops sha256 taken key fp st = (e, out, st')"
  shows "st' = st \<and> (e = ESP_OK \<longrightarrow>
    (\<exists>v y. out = Some (v, y) \<and> v \<noteq> GATEWAY_IDEMPOTENCY_MISS \<and> y \<in> {0, x}))"
proof -
  obtain i r where r: "i \<in> set idem_slots" "idem_view ops (is_nvs st) i = Inr (Some r)" "ir_key_hash r = kh"
    "ir_message_id r \<in> {0, x}" "idem_inv ops (is_nvs st)" using assms(3) by (auto simp: recorded_def)
  have "st' = st"
  proof (rule claim_effect [OF c])
    fix kh' assume "sha256 (map byte_of key) = Inr kh'"
      "\<And>j. j \<in> set idem_slots \<Longrightarrow> \<exists>x. idem_view ops (is_nvs st) j = Inr x \<and> \<not> has_key kh' x"
    then show ?thesis using r(1,2,3) has_own_key [OF r(5,1,2)] assms(2) by fastforce
  qed
  moreover have "\<exists>v y. out = Some (v, y) \<and> v \<noteq> GATEWAY_IDEMPOTENCY_MISS \<and> y \<in> {0, x}" if "e = ESP_OK"
    using claim_known [OF r(5,1,2), of sha256 key taken fp out st'] c that assms(2) r(3,4)
    by (auto simp: verdict_def)
  ultimately show ?thesis by blast
qed

lemma claim_records:
  assumes "digest sha256" and "idem_inv ops (is_nvs st)" and "sha256 (map byte_of key) = Inr kh"
    and "length fp = GATEWAY_SHA256_LEN"
    and "gateway_idempotency_claim ops sha256 taken key fp st = (ESP_OK, Some (GATEWAY_IDEMPOTENCY_MISS, 0), st')"
  shows "recorded ops kh x st'"
  using claim_reserves [OF assms(1,2,4,3,5)] unfolding recorded_def reserved_def reservation_def
  by (metis idem_record.select_convs(6) insert_iff)

end

section \<open>Requests with a key\<close>

definition header_key :: "http_request \<Rightarrow> string option" where
  "header_key req = (if rq_header_len req ''Idempotency-Key'' = 0 then None
     else (case rq_header req ''Idempotency-Key'' 129 of Inl _ \<Rightarrow> None | Inr key \<Rightarrow> Some key))"

lemma post_key_header: "post_key sha256 su req message = Inr (Some (key, fp)) \<Longrightarrow>
    header_key req = Some key \<and> (\<exists>bytes. sha256 bytes = Inr fp)"
  by (auto simp: post_key_def header_key_def Let_def gateway_idempotency_sms_fingerprint_def
      split: prod.splits if_splits sum.splits)

lemma post_key_none: "post_key sha256 su req message = Inr None \<Longrightarrow> header_key req = None"
  by (auto simp: post_key_def header_key_def Let_def split: prod.splits if_splits sum.splits)

text \<open>Whatever is refused before the claim is refused with a problem document.\<close>

lemma refusals:
  "authorized su req = Some r \<Longrightarrow> r = Problem 401 ''unauthorized''"
  "request_allowed su sms = Some r \<Longrightarrow> r \<in> {Problem 429 ''rate-limit'', Problem 429 ''sms-rate-limit''}"
  "post_message js su req = Inl r \<Longrightarrow> r \<in> {Problem 400 ''invalid-body'', Problem 400 ''invalid-json'',
     Problem 400 ''invalid-message'', Problem 422 ''message-too-long''}"
  "post_key sha256 su req message = Inl r \<Longrightarrow> r = Problem 400 ''invalid-idempotency-key''"
  by (auto simp: authorized_def request_allowed_def post_message_def post_key_def Let_def
      split: if_splits sum.splits option.splits prod.splits)

text \<open>How a request ends: refused before the claim, sent without a key, or claimed.\<close>

lemma post_cases:
  obtains (refused) s t where "run_state (messages_post_handler ge su req) g = (Problem s t, g)" "s \<in> {400, 401, 422, 429}"
  | (plain) message where "post_message (ge_json ge) su req = Inr message" "header_key req = None"
      "run_state (messages_post_handler ge su req) g = run_state (post_send ge su message None) g"
  | (keyed) message key fp e out st' where "post_message (ge_json ge) su req = Inr message" "header_key req = Some key"
      "\<exists>bytes. ge_sha256 ge bytes = Inr fp"
      "gateway_idempotency_claim (ge_idem ge) (ge_sha256 ge) (su_claim_lock su) key fp (gw_idem g) = (e, out, st')"
      "run_state (messages_post_handler ge su req) g =
         run_state (post_claimed ge su message (key, fp) e (case out of None \<Rightarrow> (GATEWAY_IDEMPOTENCY_MISS, 0) | Some x \<Rightarrow> x))
           (g\<lparr>gw_idem := st'\<rparr>)"
proof (cases "authorized su req")
  case (Some r)
  then show ?thesis using refused refusals(1) [OF Some] by (simp add: messages_post_handler_def)
next
  case a: None
  show ?thesis
  proof (cases "request_allowed su True")
    case (Some r)
    then show ?thesis using a refused refusals(2) [OF Some] by (auto simp: messages_post_handler_def)
  next
    case l: None
    show ?thesis
    proof (cases "post_message (ge_json ge) su req")
      case (Inl r)
      then show ?thesis using a l refused refusals(3) [OF Inl] by (auto simp: messages_post_handler_def)
    next
      case m: (Inr message)
      show ?thesis
      proof (cases "post_key (ge_sha256 ge) su req message")
        case (Inl r)
        then show ?thesis using a l m refused refusals(4) [OF Inl] by (simp add: messages_post_handler_def)
      next
        case k: (Inr c)
        show ?thesis
        proof (cases c)
          case None
          then show ?thesis using a l m k plain post_key_none [of _ su req message] by (simp add: messages_post_handler_def)
        next
          case (Some kf)
          obtain key fp where kf: "kf = (key, fp)" by (cases kf)
          obtain e out st' where cl: "gateway_idempotency_claim (ge_idem ge) (ge_sha256 ge) (su_claim_lock su) key fp (gw_idem g) =
            (e, out, st')" by (metis surj_pair)
          have "header_key req = Some key \<and> (\<exists>bytes. ge_sha256 ge bytes = Inr fp)"
            using post_key_header k Some kf by metis
          then show ?thesis
            using keyed [OF m _ _ cl] a l m k Some kf cl by (simp add: messages_post_handler_def claim_key_def)
        qed
      qed
    qed
  qed
qed

lemma run_get [simp]: "run_state (sms_service_get env i) s = (sms_store_get (env_nvs env) i (sv_store s), s)"
  by (simp add: sms_service_get_def)

text \<open>What is answered from a record, in the words of the two interfaces.\<close>

definition answered :: "('n, 'w, 'i, 'j) gateway_env \<Rightarrow> ('n, 'w, 'i) gateway \<Rightarrow> u32 \<Rightarrow> http_reply \<Rightarrow> bool" where
  "answered ge g x reply = (case reply of
      Record status doc loc pending \<Rightarrow> loc = None \<and>
        (\<exists>m. sms_store_get (env_nvs (ge_service ge)) x (sv_store (gw_service g)) = (ESP_OK, Some m) \<and> doc = message_json m)
    | _ \<Rightarrow> True)"

definition answered_command :: "u32 \<Rightarrow> command_result \<Rightarrow> bool" where
  "answered_command x r \<longleftrightarrow> (cr_ok r \<longrightarrow> cr_replayed r \<and> cr_message_id r = x)"

lemma claimed_record_post:
  assumes "v \<noteq> GATEWAY_IDEMPOTENCY_MISS" and "y \<in> {0, x}"
  shows "snd (run_state (post_claimed ge su message claim e (v, y)) g) = g \<and>
      answered ge g x (fst (run_state (post_claimed ge su message claim e (v, y)) g))"
proof (cases v)
  case GATEWAY_IDEMPOTENCY_REPLAY
  then show ?thesis using assms(2)
    by (cases "sms_store_get (env_nvs (ge_service ge)) x (sv_store (gw_service g))")
      (auto simp: post_claimed_def answered_def split: option.splits)
qed (use assms in \<open>simp_all add: post_claimed_def answered_def\<close>)

lemma claimed_record_command:
  assumes "v \<noteq> GATEWAY_IDEMPOTENCY_MISS" and "y \<in> {0, x}"
  shows "snd (run_state (command_claimed ge su message claim e (v, y)) g) = g \<and>
      answered_command x (fst (run_state (command_claimed ge su message claim e (v, y)) g))"
proof (cases v)
  case GATEWAY_IDEMPOTENCY_REPLAY
  then show ?thesis using assms(2)
    by (cases "sms_store_get (env_nvs (ge_service ge)) x (sv_store (gw_service g))")
      (auto simp: command_claimed_def Let_def answered_command_def publish_command_result_def split: if_splits)
qed (use assms in \<open>simp_all add: command_claimed_def Let_def answered_command_def publish_command_result_def\<close>)

lemma claimed_error_post:
  "e \<noteq> ESP_OK \<Longrightarrow> run_state (post_claimed ge su message claim e r) g = (Problem 503 ''idempotency-unavailable'', g)"
  by (cases r) (simp add: post_claimed_def)

lemma claimed_error_command:
  "e \<noteq> ESP_OK \<Longrightarrow> run_state (command_claimed ge su message claim e r) g =
     (publish_command_result (Some (fst claim)) False ''idempotency_unavailable'' 0 False, g)"
  by (cases r) (simp add: command_claimed_def Let_def)

lemma post_recorded:
  assumes "idem_partition (ge_idem ge)" and "digest (ge_sha256 ge)" and "ge_sha256 ge (map byte_of key) = Inr kh"
    and "recorded (ge_idem ge) kh x (gw_idem g)" and "header_key req = Some key"
  shows "snd (run_state (messages_post_handler ge su req) g) = g \<and>
    answered ge g x (fst (run_state (messages_post_handler ge su req) g))"
proof (cases rule: post_cases [of ge su req g])
  case (refused s t)
  then show ?thesis by (simp add: answered_def)
next
  case (plain message)
  then show ?thesis using assms(5) by simp
next
  case (keyed message key' fp e out st')
  note k = idem_partition.claim_recorded [OF assms(1-4) keyed(4) [unfolded option.inject [THEN iffD1, OF keyed(2) [unfolded assms(5)], symmetric]]]
  show ?thesis
  proof (cases "e = ESP_OK")
    case True
    then obtain v y where "out = Some (v, y)" "v \<noteq> GATEWAY_IDEMPOTENCY_MISS" "y \<in> {0, x}" using k by blast
    with k keyed(5) claimed_record_post [OF this(2,3), of ge su message "(key', fp)" e g] show ?thesis by simp
  next
    case False
    then show ?thesis using k keyed(5) by (simp add: claimed_error_post answered_def)
  qed
qed

text \<open>A command that passes the checks claims its key; one that does not only counts.\<close>

lemma command_cases:
  obtains (rejected) c d where "run_state (handle_structured_send ge su payload) g =
      (publish_command_result (command_key (ge_json ge) payload) False c 0 False, g\<lparr>gw_mqtt := d\<rparr>)"
  | (claimed) message key fp e out st' d where "command_key (ge_json ge) payload = Some key"
      "\<exists>bytes. ge_sha256 ge bytes = Inr fp"
      "gateway_idempotency_claim (ge_idem ge) (ge_sha256 ge) (su_claim_lock su) key fp (gw_idem g) = (e, out, st')"
      "run_state (handle_structured_send ge su payload) g =
         run_state (command_claimed ge su message (key, fp) e (case out of None \<Rightarrow> (GATEWAY_IDEMPOTENCY_MISS, 0) | Some x \<Rightarrow> x))
           (g\<lparr>gw_mqtt := d, gw_idem := st'\<rparr>)"
proof -
  let ?item = "command_item (ge_json ge) payload"
  let ?msg = "checked_message (ge_json ge) (?item ''to'') (?item ''text'') (?item ''delivery_report'')"
  note unf = handle_structured_send_def Let_def
  show ?thesis
  proof (cases "\<exists>key to body delivery fp. command_key (ge_json ge) payload = Some key \<and> ?msg = Some (to, body, delivery) \<and>
      gateway_idempotency_key_valid (Some key) \<and> sms_submit_preflight to body 0x0100 \<noteq> None \<and> su_sms_limiter su \<and>
      gateway_idempotency_sms_fingerprint (ge_sha256 ge) (su_hash_alloc su) (Some to) (Some body) delivery = Inr fp")
    case True
    then obtain key to body delivery fp where c: "command_key (ge_json ge) payload = Some key" "?msg = Some (to, body, delivery)"
      "gateway_idempotency_key_valid (Some key)" "sms_submit_preflight to body 0x0100 \<noteq> None" "su_sms_limiter su"
      "gateway_idempotency_sms_fingerprint (ge_sha256 ge) (su_hash_alloc su) (Some to) (Some body) delivery = Inr fp" by blast
    obtain e out st' where cl: "gateway_idempotency_claim (ge_idem ge) (ge_sha256 ge) (su_claim_lock su) key fp (gw_idem g) =
      (e, out, st')" by (metis surj_pair)
    have "\<exists>bytes. ge_sha256 ge bytes = Inr fp"
      using c(6) by (auto simp: gateway_idempotency_sms_fingerprint_def split: if_splits)
    then show ?thesis
      using claimed [OF c(1) _ cl, of "(to, body, delivery)" "(gw_mqtt g)\<lparr>mq_commands_received := mq_commands_received (gw_mqtt g) + 1\<rparr>"] c cl
      by (simp add: unf claim_key_def)
  next
    case False
    then have "\<exists>c d. run_state (handle_structured_send ge su payload) g =
        (publish_command_result (command_key (ge_json ge) payload) False c 0 False, g\<lparr>gw_mqtt := d\<rparr>)"
      by (cases "command_key (ge_json ge) payload"; cases ?msg)
        (auto simp: unf split: prod.splits if_splits sum.splits)
    then show ?thesis using rejected by blast
  qed
qed

lemma command_recorded:
  assumes "idem_partition (ge_idem ge)" and "digest (ge_sha256 ge)" and "ge_sha256 ge (map byte_of key) = Inr kh"
    and "recorded (ge_idem ge) kh x (gw_idem g)" and "command_key (ge_json ge) payload = Some key"
  shows "(\<exists>d. snd (run_state (handle_structured_send ge su payload) g) = g\<lparr>gw_mqtt := d\<rparr>) \<and>
    answered_command x (fst (run_state (handle_structured_send ge su payload) g))"
proof (cases rule: command_cases [of ge su payload g])
  case (rejected c d)
  then show ?thesis by (auto simp: answered_command_def publish_command_result_def)
next
  case (claimed message key' fp e out st' d)
  then have "key' = key" using assms(5) by simp
  note k = idem_partition.claim_recorded [OF assms(1-4) claimed(3) [unfolded this]]
  show ?thesis
  proof (cases "e = ESP_OK")
    case True
    then obtain v y where "out = Some (v, y)" "v \<noteq> GATEWAY_IDEMPOTENCY_MISS" "y \<in> {0, x}" using k by blast
    with k claimed(4) claimed_record_command [OF this(2,3), of ge su message "(key', fp)" e "g\<lparr>gw_mqtt := d\<rparr>"] show ?thesis by auto
  next
    case False
    then show ?thesis using k claimed(4)
      by (auto simp: claimed_error_command answered_command_def publish_command_result_def)
  qed
qed

section \<open>Accepted requests\<close>

text \<open>The identifier in the header \<open>Location\<close>: the reply announces a new message.\<close>

fun location_of :: "http_reply \<Rightarrow> u32 option" where
  "location_of (Record _ _ loc _) = loc"
| "location_of _ = None"

text \<open>A claim that succeeds without a record of the key has made a reservation.\<close>

lemma claim_new:
  assumes "digest sha256" and "gateway_idempotency_claim ops sha256 taken key fp st = (ESP_OK, out, st')"
    and "(case out of None \<Rightarrow> (GATEWAY_IDEMPOTENCY_MISS, 0) | Some x \<Rightarrow> x) = (GATEWAY_IDEMPOTENCY_MISS, y)"
  shows "out = Some (GATEWAY_IDEMPOTENCY_MISS, 0) \<and> (\<exists>kh. sha256 (map byte_of key) = Inr kh)"
  using assms
  by (auto simp: gateway_idempotency_claim_def hash_key_def digest_def verdict_def
      split: if_splits sum.splits option.splits prod.splits)

lemma claimed_send_run:
  assumes "run_state (claimed_send ge su (to, body, delivery) claim) g = ((ESP_OK, x, fin), g')"
  obtains s where "run_state (sms_service_send (ge_service ge) (Some to) (Some body) delivery) (gw_service g) = ((ESP_OK, Some x), s)"
      "gw_service g' = s"
  | s where "run_state (sms_service_send (ge_service ge) (Some to) (Some body) delivery) (gw_service g) = ((ESP_OK, None), s)"
      "gw_service g' = s" "x = 0"
  using assms
  by (cases "run_state (sms_service_send (ge_service ge) (Some to) (Some body) delivery) (gw_service g)")
    (auto simp: claimed_send_def split: option.splits if_splits prod.splits)

lemma claimed_send_records:
  assumes "idem_partition (ge_idem ge)" and "digest (ge_sha256 ge)" and "ge_sha256 ge (map byte_of key) = Inr kh"
    and rec: "\<And>x. recorded (ge_idem ge) kh x (gw_idem g)"
    and run: "run_state (claimed_send ge su message (Some (key, fp))) g = ((ESP_OK, x, fin), g')"
  shows "recorded (ge_idem ge) kh x (gw_idem g')"
  using run idem_partition.attempts_keep [OF assms(1-3) rec] 
  by (cases message; cases "run_state (sms_service_send (ge_service ge) (Some (fst message)) (Some (fst (snd message))) (snd (snd message))) (gw_service g)")
    (auto simp: claimed_send_def Let_def split: if_splits prod.splits)

lemma post_send_run:
  assumes "run_state (post_send ge su message claim) g = (reply, g')" and "location_of reply = Some x"
  obtains fin m where "run_state (claimed_send ge su message claim) g = ((ESP_OK, x, fin), g')"
    "sms_store_get (env_nvs (ge_service ge)) x (sv_store (gw_service g')) = (ESP_OK, Some m)"
    "reply = Record 202 (message_json m) (Some x) (claim \<noteq> None \<and> \<not> fin)"
  using assms
  by (cases "run_state (claimed_send ge su message claim) g")
    (auto simp: post_send_def split: if_splits prod.splits option.splits)

lemma post_claimed_run:
  assumes "run_state (post_claimed ge su message claim e r) g = (reply, g')" and "location_of reply = Some x"
  shows "e = ESP_OK \<and> fst r = GATEWAY_IDEMPOTENCY_MISS \<and> run_state (post_send ge su message (Some claim)) g = (reply, g')"
  using assms
  by (cases r; cases "fst r")
    (auto simp: post_claimed_def split: if_splits prod.splits option.splits)

lemma post_accepted_records:
  assumes part: "idem_partition (ge_idem ge)" and "digest (ge_sha256 ge)" and "idem_inv (ge_idem ge) (is_nvs (gw_idem g))"
    and "header_key req = Some key"
    and run: "run_state (messages_post_handler ge su req) g = (reply, g1)" and "location_of reply = Some x"
  shows "\<exists>kh. ge_sha256 ge (map byte_of key) = Inr kh \<and> recorded (ge_idem ge) kh x (gw_idem g1)"
proof (cases rule: post_cases [of ge su req g])
  case (refused s t)
  then show ?thesis using run assms(6) by simp
next
  case (plain message)
  then show ?thesis using assms(4) by simp
next
  case (keyed message key' fp e out st')
  have key: "key' = key" using keyed(2) assms(4) by simp
  obtain v y where r: "(case out of None \<Rightarrow> (GATEWAY_IDEMPOTENCY_MISS, 0) | Some x \<Rightarrow> x) = (v, y)" by fastforce
  have "run_state (post_claimed ge su message (key, fp) e (v, y)) (g\<lparr>gw_idem := st'\<rparr>) = (reply, g1)"
    using keyed(5) run key unfolding r by simp
  from post_claimed_run [OF this assms(6)] have c: "e = ESP_OK" "v = GATEWAY_IDEMPOTENCY_MISS"
    "run_state (post_send ge su message (Some (key, fp))) (g\<lparr>gw_idem := st'\<rparr>) = (reply, g1)" by simp_all
  from claim_new [OF assms(2) keyed(4) [unfolded c(1)]] r c(2)
  obtain kh where o: "out = Some (GATEWAY_IDEMPOTENCY_MISS, 0)" and kh: "ge_sha256 ge (map byte_of key) = Inr kh" using key by auto
  have "length fp = GATEWAY_SHA256_LEN" using keyed(3) assms(2) by (auto simp: digest_def)
  from idem_partition.claim_records [OF part assms(2,3) kh this] keyed(4) c(1) o key
  have rec: "recorded (ge_idem ge) kh x (gw_idem (g\<lparr>gw_idem := st'\<rparr>))" for x by simp
  from post_send_run [OF c(3) assms(6)]
  obtain fin where "run_state (claimed_send ge su message (Some (key, fp))) (g\<lparr>gw_idem := st'\<rparr>) = ((ESP_OK, x, fin), g1)" by metis
  from claimed_send_records [OF part assms(2) kh rec this] kh show ?thesis by blast
qed

lemma command_claimed_run:
  assumes "run_state (command_claimed ge su message claim e r) g = (res, g')" and "cr_ok res" "\<not> cr_replayed res"
  obtains fin where "e = ESP_OK" "fst r = GATEWAY_IDEMPOTENCY_MISS"
    "run_state (claimed_send ge su message (Some claim)) g = ((ESP_OK, cr_message_id res, fin), g')"
  using assms
  by (cases r; cases "fst r"; cases "run_state (claimed_send ge su message (Some claim)) g")
    (auto simp: command_claimed_def Let_def publish_command_result_def split: if_splits prod.splits)

lemma command_accepted_records:
  assumes part: "idem_partition (ge_idem ge)" and "digest (ge_sha256 ge)" and "idem_inv (ge_idem ge) (is_nvs (gw_idem g))"
    and "command_key (ge_json ge) payload = Some key"
    and run: "run_state (handle_structured_send ge su payload) g = (res, g1)" and "cr_ok res" "\<not> cr_replayed res"
  shows "\<exists>kh. ge_sha256 ge (map byte_of key) = Inr kh \<and> recorded (ge_idem ge) kh (cr_message_id res) (gw_idem g1)"
proof (cases rule: command_cases [of ge su payload g])
  case (rejected c d)
  then show ?thesis using run assms(6) by (simp add: publish_command_result_def)
next
  case (claimed message key' fp e out st' d)
  have key: "key' = key" using claimed(1) assms(4) by simp
  obtain v y where r: "(case out of None \<Rightarrow> (GATEWAY_IDEMPOTENCY_MISS, 0) | Some x \<Rightarrow> x) = (v, y)" by fastforce
  have "run_state (command_claimed ge su message (key, fp) e (v, y)) (g\<lparr>gw_mqtt := d, gw_idem := st'\<rparr>) = (res, g1)"
    using claimed(4) run key unfolding r by simp
  from command_claimed_run [OF this assms(6,7)] obtain fin where c: "e = ESP_OK" "v = GATEWAY_IDEMPOTENCY_MISS"
    "run_state (claimed_send ge su message (Some (key, fp))) (g\<lparr>gw_mqtt := d, gw_idem := st'\<rparr>) =
       ((ESP_OK, cr_message_id res, fin), g1)" by (metis fst_conv)
  from claim_new [OF assms(2) claimed(3) [unfolded c(1)]] r c(2)
  obtain kh where o: "out = Some (GATEWAY_IDEMPOTENCY_MISS, 0)" and kh: "ge_sha256 ge (map byte_of key) = Inr kh" using key by auto
  have "length fp = GATEWAY_SHA256_LEN" using claimed(2) assms(2) by (auto simp: digest_def)
  from idem_partition.claim_records [OF part assms(2,3) kh this] claimed(3) c(1) o key
  have rec: "recorded (ge_idem ge) kh x (gw_idem (g\<lparr>gw_mqtt := d, gw_idem := st'\<rparr>))" for x by simp
  from claimed_send_records [OF part assms(2) kh rec c(3)] kh show ?thesis by blast
qed

text \<open>Queued with a new identifier, over either interface.\<close>

definition accepts ::
    "('n, 'w, 'i, 'j) gateway_env \<Rightarrow> string \<Rightarrow> u32 \<Rightarrow> ('n, 'w, 'i) gateway \<Rightarrow> ('n, 'w, 'i) gateway \<Rightarrow> bool" where
  "accepts ge key x g g' \<longleftrightarrow>
     (\<exists>su req reply. header_key req = Some key \<and> run_state (messages_post_handler ge su req) g = (reply, g') \<and>
        location_of reply = Some x) \<or>
     (\<exists>su payload res. command_key (ge_json ge) payload = Some key \<and> run_state (handle_structured_send ge su payload) g = (res, g') \<and>
        cr_ok res \<and> \<not> cr_replayed res \<and> cr_message_id res = x)"

lemma accepts_records:
  assumes "idem_partition (ge_idem ge)" and "digest (ge_sha256 ge)" and "idem_inv (ge_idem ge) (is_nvs (gw_idem g))"
    and "accepts ge key x g g1"
  obtains kh where "ge_sha256 ge (map byte_of key) = Inr kh" "recorded (ge_idem ge) kh x (gw_idem g1)"
  using assms(4) post_accepted_records [OF assms(1-3)] command_accepted_records [OF assms(1-3)] unfolding accepts_def by metis

section \<open>Pages\<close>

lemma filter_above_tail:
  assumes "sorted (map msg_id S)" and "distinct (map msg_id S)" and "filter (\<lambda>y. c < msg_id y) S = m # L"
  shows "filter (\<lambda>y. msg_id m < msg_id y) S = L"
proof -
  have s: "sorted (map msg_id (m # L))" "distinct (map msg_id (m # L))"
    using assms by (metis sorted_filter, metis distinct_map_filter)
  have "c < msg_id m" using assms(3) by (metis (no_types, lifting) filter_eq_ConsD)
  then have "filter (\<lambda>y. msg_id m < msg_id y) S = filter (\<lambda>y. msg_id m < msg_id y) (filter (\<lambda>y. c < msg_id y) S)"
    by (auto intro!: filter_cong simp: filter_filter intro: order.strict_trans)
  also have "\<dots> = filter (\<lambda>y. msg_id m < msg_id y) L" by (simp add: assms(3))
  also have "\<dots> = L"
    using s by (auto intro!: filter_True simp: image_iff dest: order.not_eq_order_implies_strict)
  finally show ?thesis .
qed

definition records_after :: "('n, persisted_record) nvs_ops \<Rightarrow> 'n sms_store \<Rightarrow> u32 \<Rightarrow> sms_message list" where
  "records_after ops st c = sort_key msg_id (filter (\<lambda>m. c < msg_id m) (stored ops (st_nvs st)))"

lemma records_after_above: "m \<in> set (records_after ops st c) \<Longrightarrow> c < msg_id m"
  by (simp add: records_after_def)

lemma records_after_tail:
  assumes "store_wf ops (st_nvs st)" and "records_after ops st c = m # L"
  shows "records_after ops st (msg_id m) = L"
  using filter_above_tail [of "sort_key msg_id (stored ops (st_nvs st))" c m L] assms
  by (simp add: records_after_def filter_sort store_wf_def distinct_map)

lemma page_loop_page:
  assumes wf: "store_wf ops (st_nvs st)" "st_initialized st"
  shows "(\<And>k. alloc k) \<Longrightarrow> \<exists>ms next. page_loop ops alloc wanted st n remaining cursor = Some (ms, next) \<and>
    ms = take remaining (filter wanted (records_after ops st cursor)) \<and> cursor \<le> next \<and>
    ms = filter wanted (filter (\<lambda>m. msg_id m \<le> next) (records_after ops st cursor)) \<and>
    (length ms < remaining \<longrightarrow> (\<forall>m \<in> set (records_after ops st cursor). msg_id m \<le> next))"
  using wf
proof (induction ops alloc wanted st n remaining cursor rule: page_loop.induct)
  case (1 ops alloc wanted st n remaining cursor)
  let ?L = "records_after ops st cursor"
  have l: "sms_store_list ops cursor 1 st = Inr (take 1 ?L)"
    using list_sorted [OF 1(4,5), of 1] by (simp add: records_after_def)
  have none: "filter (\<lambda>m. msg_id m \<le> cursor) ?L = []"
    using records_after_above by (fastforce simp: filter_empty_conv)
  note unf = page_loop.simps [of ops alloc wanted st n remaining cursor]
  show ?case
  proof (cases "remaining = 0")
    case True
    then show ?thesis using none
      by (intro exI [of _ "[]"] exI [of _ cursor]) (auto simp: page_loop.simps [where remaining = 0] filter_empty_conv)
  next
    case r: False
    show ?thesis
    proof (cases ?L)
      case Nil
      then show ?thesis unfolding unf using r l 1(3) by simp
    next
      case (Cons m L)
      note t = records_after_tail [OF 1(4) Cons]
      have lm: "sms_store_list ops cursor 1 st = Inr [m]" using l Cons by simp
      have a: "\<not> \<not> alloc n" using 1(3) by simp
      have c: "cursor < msg_id m" using records_after_above [of m ops st cursor] Cons by simp
      show ?thesis
      proof (cases "wanted m")
        case True
        obtain ms "next" where p: "page_loop ops alloc wanted st (n + 1) (remaining - 1) (msg_id m) = Some (ms, next)"
          "ms = take (remaining - 1) (filter wanted L)" "msg_id m \<le> next"
          "ms = filter wanted (filter (\<lambda>m. msg_id m \<le> next) L)"
          "length ms < remaining - 1 \<longrightarrow> (\<forall>m \<in> set L. msg_id m \<le> next)"
          using 1(1) [OF r a lm refl True 1(3-5), unfolded t] by blast
        have "page_loop ops alloc wanted st n remaining cursor = Some (m # ms, next)"
          unfolding unf using r lm p(1) True a by simp
        moreover have "m # ms = take remaining (filter wanted ?L)" using p(2) r True Cons by (cases remaining) simp_all
        moreover have "m # ms = filter wanted (filter (\<lambda>m. msg_id m \<le> next) ?L)" using p(3,4) True Cons by simp
        moreover have "length (m # ms) < remaining \<longrightarrow> (\<forall>m \<in> set ?L. msg_id m \<le> next)" using p(3,5) unfolding Cons by auto
        moreover have "cursor \<le> next" using c p(3) by simp
        ultimately show ?thesis by blast
      next
        case False
        obtain ms "next" where p: "page_loop ops alloc wanted st (n + 1) remaining (msg_id m) = Some (ms, next)"
          "ms = take remaining (filter wanted L)" "msg_id m \<le> next"
          "ms = filter wanted (filter (\<lambda>m. msg_id m \<le> next) L)"
          "length ms < remaining \<longrightarrow> (\<forall>m \<in> set L. msg_id m \<le> next)"
          using 1(2) [OF r a lm refl False 1(3-5), unfolded t] by blast
        have "page_loop ops alloc wanted st n remaining cursor = Some (ms, next)"
          unfolding unf using r lm p(1) False a by simp
        moreover have "ms = take remaining (filter wanted ?L)" "ms = filter wanted (filter (\<lambda>m. msg_id m \<le> next) ?L)"
          using p(2,4) False unfolding Cons by simp_all
        moreover have "length ms < remaining \<longrightarrow> (\<forall>m \<in> set ?L. msg_id m \<le> next)" using p(3,5) unfolding Cons by auto
        moreover have "cursor \<le> next" using c p(3) by simp
        ultimately show ?thesis by blast
      qed
    qed
  qed
qed

section \<open>An example\<close>

definition demo_json :: "nat json_ops" where
  "demo_json = \<lparr>cJSON_Parse = \<lambda>_. Some 0,
     cJSON_children = \<lambda>_. Some [(Some ''to'', 1), (Some ''text'', 2), (Some ''delivery_report'', 3)],
     cJSON_GetObjectItemCaseSensitive = \<lambda>_ name. map_of [(''to'', 1), (''text'', 2), (''delivery_report'', 3), (''request_id'', 4)] name,
     cJSON_string = \<lambda>j. map_of [(1, ''+4915''), (2, ''Hi''), (4, ''key-0001'')] j,
     cJSON_bool = \<lambda>j. map_of [(3, False)] j, cJSON_IsNull = \<lambda>_. False\<rparr>"

definition demo_post :: http_request where
  "demo_post = \<lparr>rq_method = HTTP_POST, rq_uri = ''/api/v1/messages'', rq_header_len = \<lambda>name. if name = ''Authorization'' then 12 else 8,
     rq_header = \<lambda>name _. Inr (if name = ''Authorization'' then ''Bearer token'' else ''key-0001''),
     rq_query = \<lambda>_. None, rq_content_len = 2, rq_received = [Some ''{'', Some ''}'']\<rparr>"

definition demo_surroundings :: surroundings where
  "demo_surroundings = \<lparr>su_bearer = \<lambda>t. t = ''token'', su_request_limiter = True, su_sms_limiter = True, su_body_alloc = True,
     su_hash_alloc = True, su_record_alloc = \<lambda>_. True, su_claim_lock = True, su_release_lock = True, su_finalize_lock = \<lambda>_. True\<rparr>"

definition demo_gateway_env where
  "demo_gateway_env = \<lparr>ge_service = demo_env, ge_idem = flash_ops, ge_sha256 = demo_sha, ge_json = demo_json\<rparr>"

definition demo_gateway where
  "demo_gateway = \<lparr>gw_service = demo_service empty_store [], gw_idem = empty_idem, gw_mqtt = \<lparr>mq_commands_received = 0, mq_commands_rejected = 0\<rparr>\<rparr>"

definition demo_print :: "u8 list" where
  "demo_print = projr (demo_sha (fingerprint_bytes ''+4915'' ''Hi'' False))"

lemma demo_preflight: "sms_submit_preflight ''+4915'' ''Hi'' 0x0100 \<noteq> None"
proof -
  have v: "address_validate ''+4915'' = Some (''4915'', True)" by code_simp
  have s: "gsm7_of_text ''Hi'' = Some [0x48, 0x69]" by code_simp
  then have c: "sms_gsm7_septet_count ''Hi'' \<noteq> SIZE_MAX" by (simp add: sms_gsm7_septet_count_spec SIZE_MAX_def)
  show ?thesis by (simp add: gsm7_branch(1) [OF v s c])
qed

lemma demo_post_message: "post_message demo_json demo_surroundings demo_post = Inr (''+4915'', ''Hi'', False)"
proof -
  have "read_body demo_surroundings demo_post = Inr ''{}''" by code_simp
  moreover have "json_has_only_fields demo_json 0 [''to'', ''text'', ''delivery_report'', ''request_delivery_report'']" by code_simp
  moreover have "gateway_e164_valid (Some ''+4915'')" by code_simp
  then have "checked_message demo_json (Some 1) (Some 2) (Some 3) = Some (''+4915'', ''Hi'', False)"
    by (simp add: checked_message_def demo_json_def SMS_MESSAGE_TEXT_MAX_def cJSON_IsTrue_def)
  moreover have "sms_submit_preflight ''+4915'' ''Hi'' 0x0100 \<noteq> None" by (rule demo_preflight)
  moreover have "cJSON_Parse demo_json s = Some 0" "cJSON_GetObjectItemCaseSensitive demo_json j ''to'' = Some 1"
    "cJSON_GetObjectItemCaseSensitive demo_json j ''text'' = Some 2"
    "cJSON_GetObjectItemCaseSensitive demo_json j ''delivery_report'' = Some 3" for s j by (simp_all add: demo_json_def)
  ultimately show ?thesis unfolding post_message_def Let_def by (simp only: sum.case option.case split_conv if_True if_False not_True_eq_False option.distinct if_not_P)
qed

lemma demo_key:
  "post_key demo_sha demo_surroundings demo_post (''+4915'', ''Hi'', False) = Inr (Some (''key-0001'', demo_print))"
proof -
  have "gateway_idempotency_key_valid (Some ''key-0001'')" by code_simp
  then show ?thesis
    by (simp add: post_key_def demo_post_def demo_surroundings_def gateway_idempotency_sms_fingerprint_def SIZE_MAX_def
        demo_print_def demo_sha_def)
qed

lemma demo_checks: "authorized demo_surroundings demo_post = None" "request_allowed demo_surroundings True = None"
  by code_simp+

lemma claim_loop_empty:
  "(\<And>i. view i = Inr None) \<Longrightarrow> claim_loop view kh is v =
     Inr (None, if is = [] \<or> cl_empty_slot v \<noteq> None then v else v\<lparr>cl_empty_slot := Some (hd is)\<rparr>)"
  by (induction view kh "is" v rule: claim_loop.induct) (auto simp: claim_step_def)

lemma empty_claim:
  assumes "sha256 (map byte_of key) = Inr kh"
  shows "\<exists>st. gateway_idempotency_claim flash_ops sha256 True key fp empty_idem = (ESP_OK, Some (GATEWAY_IDEMPOTENCY_MISS, 0), st)"
proof -
  have v: "idem_view flash_ops (is_nvs empty_idem) i = Inr None" for i
    by (simp add: idem_view_def read_slot_def flash_ops_def found_def empty_idem_def)
  have "fst (idem_write_slot flash_ops i r (is_nvs empty_idem)) = ESP_OK" for i r
    by (simp add: idem_write_slot_def flash_ops_def scripted_def empty_idem_def)
  moreover have "idem_slots \<noteq> []" by (simp add: idem_slots_def GATEWAY_IDEMPOTENCY_MAX_RECORDS_def)
  moreover have "lock_store True empty_idem = ESP_OK" by (simp add: lock_store_def empty_idem_def)
  ultimately show ?thesis
    using assms by (auto simp: gateway_idempotency_claim_def hash_key_def claim_loop_empty [OF v] split: prod.splits)
      (metis fst_conv)
qed

lemma demo_post_run:
  "\<exists>doc x p g1. run_state (messages_post_handler demo_gateway_env demo_surroundings demo_post) demo_gateway =
     (Record 202 doc (Some x) p, g1)"
proof -
  let ?s = "demo_service empty_store []"
  have s: "sv_store ?s = empty_store" by (simp add: demo_service_def)
  have c: "cstring ''+4915''" "cstring ''Hi''" by code_simp+
  obtain x t where r: "run_state (sms_service_send demo_env (Some ''+4915'') (Some ''Hi'') False) ?s = ((ESP_OK, x), t)"
    using demo_send by blast
  obtain m where m: "x = Some (msg_id m)" "sms_store_get flash_ops (msg_id m) (sv_store t) = (ESP_OK, Some m)"
    using accepted_message [OF _ _ c r] empty_store_inv by (auto simp: flash.nvs_partition_axioms s)
  obtain st where cl: "gateway_idempotency_claim flash_ops demo_sha True ''key-0001'' demo_print empty_idem =
      (ESP_OK, Some (GATEWAY_IDEMPOTENCY_MISS, 0), st)"
    using empty_claim [of demo_sha "''key-0001''"] by (auto simp: demo_sha_def)
  have su: "su_claim_lock demo_surroundings" "su_record_alloc demo_surroundings 0" by (simp_all add: demo_surroundings_def)
  have ge: "ge_service demo_gateway_env = demo_env" "ge_idem demo_gateway_env = flash_ops" "ge_sha256 demo_gateway_env = demo_sha"
    "ge_json demo_gateway_env = demo_json" "gw_service demo_gateway = ?s" "gw_idem demo_gateway = empty_idem"
    by (simp_all add: demo_gateway_env_def demo_gateway_def)
  obtain f st2 where f: "finalize_attempts flash_ops demo_sha ''key-0001'' demo_print (msg_id m)
      (map (su_finalize_lock demo_surroundings) [0..<3]) st = (f, st2)" by fastforce
  show ?thesis
    by (simp add: messages_post_handler_def demo_checks demo_post_message demo_key ge claim_key_def su cl post_claimed_def
        post_send_def claimed_send_def Let_def r m f)
qed

section \<open>Properties\<close>



text \<open>C26: A message that \<open>POST /api/v1/messages\<close> accepts is in the store: the identifier in the
  header \<open>Location\<close> names a queued outbound message with the recipient, the text and the report
  flag of the request, and the response describes that message.\<close>

theorem post_accepted:
  assumes "nvs_partition (env_nvs (ge_service ge))" and "store_inv (env_nvs (ge_service ge)) (st_nvs (sv_store (gw_service g)))"
    and "post_message (ge_json ge) su req = Inr (to, body, delivery)" and "cstring to" "cstring body"
    and "run_state (messages_post_handler ge su req) g = (Record status doc (Some x) pending, g')"
  shows "status = 202 \<and> (\<exists>m. sms_store_get (env_nvs (ge_service ge)) x (sv_store (gw_service g')) = (ESP_OK, Some m) \<and>
    msg_id m = x \<and> msg_status m = SMS_MESSAGE_QUEUED \<and> msg_direction m = SMS_DIRECTION_OUTBOUND \<and>
    msg_recipient m = to \<and> msg_text m = body \<and> msg_delivery_report_requested m = delivery \<and> doc = message_json m)"
proof -
  have "\<exists>claim g0. gw_service g0 = gw_service g \<and>
      run_state (post_send ge su (to, body, delivery) claim) g0 = (Record status doc (Some x) pending, g')"
  proof (cases rule: post_cases [of ge su req g])
    case (keyed message key fp e out st')
    with assms(6) post_claimed_run [of ge su message "(key, fp)" e _ "g\<lparr>gw_idem := st'\<rparr>" "Record status doc (Some x) pending" g' x] assms(3)
    show ?thesis by (intro exI [of _ "Some (key, fp)"] exI [of _ "g\<lparr>gw_idem := st'\<rparr>"]) auto
  qed (use assms(3,6) in auto)
  then obtain claim g0 where g0: "gw_service g0 = gw_service g"
    and s: "run_state (post_send ge su (to, body, delivery) claim) g0 = (Record status doc (Some x) pending, g')" by blast
  have l: "location_of (Record status doc (Some x) pending) = Some x" by simp
  obtain fin m where c: "run_state (claimed_send ge su (to, body, delivery) claim) g0 = ((ESP_OK, x, fin), g')"
    and m: "sms_store_get (env_nvs (ge_service ge)) x (sv_store (gw_service g')) = (ESP_OK, Some m)" "status = 202" "doc = message_json m"
    by (rule post_send_run [OF s l]) blast
  have inv: "store_inv (env_nvs (ge_service ge)) (st_nvs (sv_store (gw_service g0)))" using assms(2) g0 by simp
  show ?thesis
  proof (rule claimed_send_run [OF c])
    fix s assume r: "run_state (sms_service_send (ge_service ge) (Some to) (Some body) delivery) (gw_service g0) = ((ESP_OK, Some x), s)"
      "gw_service g' = s"
    from accepted_message [OF assms(1) inv assms(4,5) r(1)] obtain m' where m': "Some x = Some (msg_id m')"
      "sms_store_get (env_nvs (ge_service ge)) (msg_id m') (sv_store s) = (ESP_OK, Some m')"
      "msg_status m' = SMS_MESSAGE_QUEUED" "msg_direction m' = SMS_DIRECTION_OUTBOUND" "msg_recipient m' = to" "msg_text m' = body"
      "msg_delivery_report_requested m' = delivery" by metis
    then show ?thesis using m r(2) by auto
  next
    fix s assume r: "run_state (sms_service_send (ge_service ge) (Some to) (Some body) delivery) (gw_service g0) = ((ESP_OK, None), s)"
    from accepted_message [OF assms(1) inv assms(4,5) r] show ?thesis by (metis option.distinct(1))
  qed
qed

theorem post_accepted_witness:
  "\<exists>doc x p g1 m. run_state (messages_post_handler demo_gateway_env demo_surroundings demo_post) demo_gateway = (Record 202 doc (Some x) p, g1) \<and>
     sms_store_get flash_ops x (sv_store (gw_service g1)) = (ESP_OK, Some m) \<and> msg_text m = ''Hi'' \<and> msg_recipient m = ''+4915''"
proof -
  obtain doc x p g1 where r: "run_state (messages_post_handler demo_gateway_env demo_surroundings demo_post) demo_gateway =
      (Record 202 doc (Some x) p, g1)" using demo_post_run by blast
  have h: "nvs_partition (env_nvs (ge_service demo_gateway_env))"
    "store_inv (env_nvs (ge_service demo_gateway_env)) (st_nvs (sv_store (gw_service demo_gateway)))"
    "post_message (ge_json demo_gateway_env) demo_surroundings demo_post = Inr (''+4915'', ''Hi'', False)"
    using empty_store_inv
    by (simp_all add: demo_gateway_env_def demo_gateway_def demo_env_def demo_service_def flash.nvs_partition_axioms demo_post_message)
  have c: "cstring ''+4915''" "cstring ''Hi''" by code_simp+
  from post_accepted [OF h c r] r show ?thesis by (auto simp: demo_gateway_env_def demo_env_def)
qed



text \<open>C28: The pages of \<open>GET /api/v1/messages\<close> miss nothing and repeat nothing. A page holds the first
  \<open>limit\<close> messages of the wanted direction above \<open>after_id\<close>, in ascending order of their
  identifiers, and these are exactly the ones with an identifier up to \<open>next_after_id\<close>; a page that
  is not full ends the list. So a client that continues with \<open>next_after_id\<close> sees each message once.\<close>

theorem pages_complete:
  assumes "store_wf (env_nvs (ge_service ge)) (st_nvs (sv_store (gw_service g)))" and "st_initialized (sv_store (gw_service g))"
    and "\<And>k. su_record_alloc su k"
    and "run_state (messages_get_handler ge su req) g = (Page docs next, g')"
  defines "rest \<equiv> records_after (env_nvs (ge_service ge)) (sv_store (gw_service g))"
  shows "\<exists>direction ms. page_direction req = Inr direction \<and> docs = map message_json ms \<and>
    1 \<le> page_limit req \<and> page_limit req \<le> API_LIST_MAX \<and> page_after_id req \<le> next \<and>
    (let wanted = filter (\<lambda>m. direction = None \<or> direction = Some (msg_direction m)) (rest (page_after_id req)) in
     ms = take (page_limit req) wanted \<and> ms = filter (\<lambda>m. msg_id m \<le> next) wanted \<and>
     (length ms < page_limit req \<longrightarrow> ms = wanted)) \<and>
    g' = g"
proof -
  let ?after = "page_after_id req" and ?limit = "page_limit req"
  have no: "authorized su req = Some r \<Longrightarrow> r \<noteq> Page docs next" "request_allowed su False = Some r \<Longrightarrow> r \<noteq> Page docs next"
    "page_direction req = Inl r \<Longrightarrow> r \<noteq> Page docs next" for r
    using refusals(1) [of su req r] refusals(2) [of su False r] by (auto simp: page_direction_def split: option.splits if_splits)
  obtain direction where d: "page_direction req = Inr direction" "authorized su req = None" "request_allowed su False = None"
    "\<not> (rq_query req ''limit'' \<noteq> None \<and> (?limit < 1 \<or> ?limit > API_LIST_MAX))"
    using assms(4) no
    by (cases "authorized su req"; cases "request_allowed su False"; cases "page_direction req")
      (auto simp: messages_get_handler_def Let_def split: if_splits)
  let ?wanted = "\<lambda>m. direction = None \<or> direction = Some (msg_direction m)"
  obtain ms n where p: "page_loop (env_nvs (ge_service ge)) (su_record_alloc su) ?wanted (sv_store (gw_service g)) 0 ?limit ?after = Some (ms, n)"
    "ms = take ?limit (filter ?wanted (rest ?after))" "?after \<le> n"
    "ms = filter ?wanted (filter (\<lambda>m. msg_id m \<le> n) (rest ?after))"
    "length ms < ?limit \<longrightarrow> (\<forall>m \<in> set (rest ?after). msg_id m \<le> n)"
    using page_loop_page [OF assms(1,2), of "su_record_alloc su" ?wanted 0 ?limit ?after] assms(3) unfolding rest_def by blast
  have "docs = map message_json ms \<and> next = n \<and> g' = g"
    using assms(4) d p(1) by (auto simp: messages_get_handler_def Let_def)
  moreover have "1 \<le> ?limit \<and> ?limit \<le> API_LIST_MAX" using d(4) by (auto simp: API_LIST_MAX_def page_limit_def split: option.splits)
  moreover have "ms = filter (\<lambda>m. msg_id m \<le> n) (filter ?wanted (rest ?after))" using p(4) by (simp add: conj_commute)
  moreover have "length ms < ?limit \<longrightarrow> ms = filter ?wanted (rest ?after)" using p(2) by (metis not_less take_all_iff length_take min_less_iff_conj nless_le)
  ultimately show ?thesis using d(1) p(2,3) unfolding Let_def
    by (intro exI [of _ direction] exI [of _ ms]) blast
qed

lemma example_records: "records_after flash_ops example_store 0 = [example_message\<lparr>msg_id := 1\<rparr>]"
proof -
  have "held (load_slot flash_ops (st_nvs example_store)) [2..<128] = []"
  proof (rule held_empty)
    fix s :: nat assume "s \<in> set [2..<128]"
    then have "2 \<le> s" by (metis atLeastLessThan_iff set_upt)
    then show "load_slot flash_ops (st_nvs example_store) s = Inr None" by (simp add: example_load)
  qed
  then have "stored flash_ops (st_nvs example_store) = [example_message\<lparr>msg_id := 1\<rparr>]"
    unfolding stored_def store_slots_Cons held_simps example_load by simp
  then show ?thesis by (simp add: records_after_def)
qed

theorem pages_complete_witness:
  "\<exists>docs next g'. run_state (messages_get_handler demo_gateway_env demo_surroundings demo_post)
      (demo_gateway\<lparr>gw_service := demo_service example_store []\<rparr>) = (Page docs next, g') \<and>
    docs = [message_json (example_message\<lparr>msg_id := 1\<rparr>)]"
proof -
  let ?g = "demo_gateway\<lparr>gw_service := demo_service example_store []\<rparr>"
  have i: "st_initialized example_store" using save_initialized [OF example_save] by simp
  have a: "su_record_alloc demo_surroundings k" for k by (simp add: demo_surroundings_def)
  have s: "sv_store (gw_service ?g) = example_store" by (simp add: demo_service_def)
  have e: "env_nvs (ge_service demo_gateway_env) = flash_ops" by (simp add: demo_gateway_env_def demo_env_def)
  have q: "rq_query demo_post name = None" for name by (simp add: demo_post_def)
  have d: "page_direction demo_post = Inr None" "page_after_id demo_post = 0" "page_limit demo_post = 10"
    by (simp_all add: page_direction_def page_after_id_def page_limit_def q)
  have c: "authorized demo_surroundings demo_post = None" "request_allowed demo_surroundings False = None" by code_simp+
  obtain ms n where "page_loop flash_ops (su_record_alloc demo_surroundings) (\<lambda>m. True) example_store 0 10 0 = Some (ms, n)"
    using page_loop_page [OF example_wf i, of "su_record_alloc demo_surroundings" "\<lambda>m. True" 0 10 0] a by blast
  then have "\<exists>docs next g'. run_state (messages_get_handler demo_gateway_env demo_surroundings demo_post) ?g = (Page docs next, g')"
    using s by (simp add: messages_get_handler_def c d q e)
  then obtain docs "next" g' where r: "run_state (messages_get_handler demo_gateway_env demo_surroundings demo_post) ?g = (Page docs next, g')"
    by blast
  have "docs = [message_json (example_message\<lparr>msg_id := 1\<rparr>)]"
    using pages_complete [OF _ _ a r] example_wf i unfolding s e d Let_def by (auto simp: example_records)
  with r show ?thesis by blast
qed

text \<open>A retained MQTT message is never executed as a command: whatever its topic and payload, it
  asks for no effect, queues no message and touches no idempotency record; at most the counter of
  rejected commands changes. So a broker that replays its retained messages at every reconnect cannot
  make the gateway send a message again or restart.\<close>

theorem retained_commands_ignored:
  assumes "md_retained work" and "run_state (handle_data_work ge su config work) g = (effects, g')"
  shows "effects = [] \<and> gw_service g' = gw_service g \<and> gw_idem g' = gw_idem g"
proof -
  let ?kind = "command_kind config (md_topic work)"
  have "\<not> mqtt_command_allowed ?kind (md_retained work) (Some (md_payload work))"
    using assms(1) by (simp add: mqtt_command_allowed_def)
  then show ?thesis using assms(2) by (auto simp: handle_data_work_def Let_def split: if_splits)
qed

theorem retained_commands_ignored_witness:
  "\<exists>g'. run_state (handle_data_work demo_gateway_env demo_surroundings
      (Some \<lparr>cv_home_assistant_enabled = True, cv_base_topic = ''gw'', cv_discovery_prefix = ''ha'', cv_default_recipient = []\<rparr>)
      \<lparr>md_topic = ''gw/system/reboot'', md_payload = ''PRESS'', md_payload_len = 5, md_retained = True\<rparr>) demo_gateway = ([], g') \<and>
    gw_service g' = gw_service demo_gateway"
  using retained_commands_ignored [of "\<lparr>md_topic = ''gw/system/reboot'', md_payload = ''PRESS'', md_payload_len = 5, md_retained = True\<rparr>"
      demo_gateway_env demo_surroundings "Some \<lparr>cv_home_assistant_enabled = True, cv_base_topic = ''gw'', cv_discovery_prefix = ''ha'',
        cv_default_recipient = []\<rparr>" demo_gateway]
  by (cases "run_state (handle_data_work demo_gateway_env demo_surroundings
      (Some \<lparr>cv_home_assistant_enabled = True, cv_base_topic = ''gw'', cv_discovery_prefix = ''ha'', cv_default_recipient = []\<rparr>)
      \<lparr>md_topic = ''gw/system/reboot'', md_payload = ''PRESS'', md_payload_len = 5, md_retained = True\<rparr>) demo_gateway") simp

end
