(* ===== verification/Mqtt_Receive.thy ===== *)
theory Mqtt_Receive
  imports Front_End
begin

text \<open>
  How \<open>mqtt_event_handler\<close> of \<open>mqtt_service.c\<close> puts the fragments of a message together. The MQTT
  client hands a message over in pieces; the first carries the topic. The buffer holds at most
  \<open>MQTT_PAYLOAD_MAX\<close> bytes, and \<open>received\<close> is the length of \<open>rx_data\<close>.
\<close>

definition MQTT_PAYLOAD_MAX :: nat where "MQTT_PAYLOAD_MAX = 4608"

record mqtt_rx =
  rx_topic :: string
  rx_total :: nat
  rx_retained :: bool
  rx_duplicate :: bool
  rx_qos :: int
  rx_data :: string

record mqtt_data_event =
  ev_topic :: string
  ev_total_data_len :: int
  ev_current_data_offset :: int
  ev_data_len :: int
  ev_data :: string
  ev_retain :: bool
  ev_dup :: bool
  ev_qos :: int

definition zero_rx :: mqtt_rx where
  "zero_rx = \<lparr>rx_topic = [], rx_total = 0, rx_retained = False, rx_duplicate = False, rx_qos = 0, rx_data = []\<rparr>"

text \<open>The fields that the first fragment sets, None when its topic does not fit.\<close>

definition rx_begin :: "mqtt_data_event \<Rightarrow> mqtt_rx option" where
  "rx_begin ev =
     (if length (ev_topic ev) = 0 \<or> length (ev_topic ev) \<ge> MQTT_TOPIC_MAX then None
      else Some (zero_rx\<lparr>rx_topic := ev_topic ev, rx_total := nat (ev_total_data_len ev), rx_retained := ev_retain ev,
                         rx_duplicate := ev_dup ev, rx_qos := ev_qos ev\<rparr>))"

definition rx_work :: "mqtt_rx \<Rightarrow> mqtt_data" where
  "rx_work rx = \<lparr>md_topic = rx_topic rx, md_payload = takeWhile (\<lambda>c. c \<noteq> NUL) (rx_data rx), md_payload_len = rx_total rx,
     md_retained = rx_retained rx\<rparr>"

text \<open>
  The branch for \<open>MQTT_EVENT_DATA\<close>: the item for the work queue, if the message is complete and the
  item can be allocated and queued, and the buffer.
\<close>

definition mqtt_event_data :: "bool \<Rightarrow> mqtt_data_event \<Rightarrow> mqtt_rx \<Rightarrow> mqtt_data option \<times> mqtt_rx" where
  "mqtt_event_data queued ev rx =
     (if ev_total_data_len ev \<le> 0 \<or> ev_total_data_len ev > int MQTT_PAYLOAD_MAX \<or> ev_current_data_offset ev < 0 \<or> ev_data_len ev < 0
      then (None, rx)
      else (case (if ev_current_data_offset ev = 0 then rx_begin ev else Some rx) of
              None \<Rightarrow> (None, zero_rx)
            | Some rx \<Rightarrow>
                if nat (ev_current_data_offset ev) \<noteq> length (rx_data rx) \<or> rx_total rx \<noteq> nat (ev_total_data_len ev) \<or>
                   length (rx_data rx) + nat (ev_data_len ev) > rx_total rx
                then (None, zero_rx)
                else let rx = rx\<lparr>rx_data := rx_data rx @ take (nat (ev_data_len ev)) (ev_data ev)\<rparr> in
                     if length (rx_data rx) = rx_total rx then (if queued then Some (rx_work rx) else None, zero_rx)
                     else (None, rx)))"

section \<open>Bounds\<close>

definition rx_ok :: "mqtt_rx \<Rightarrow> bool" where
  "rx_ok rx \<longleftrightarrow> length (rx_data rx) \<le> rx_total rx \<and> rx_total rx \<le> MQTT_PAYLOAD_MAX \<and> length (rx_topic rx) < MQTT_TOPIC_MAX"

lemma rx_ok_zero [simp]: "rx_ok zero_rx"
  by (simp add: rx_ok_def zero_rx_def MQTT_TOPIC_MAX_def)

lemma rx_ok_begin: "rx_begin ev = Some rx \<Longrightarrow> ev_total_data_len ev \<le> int MQTT_PAYLOAD_MAX \<Longrightarrow> rx_ok rx"
  by (auto simp: rx_begin_def rx_ok_def zero_rx_def split: if_splits)

lemma rx_ok_append: "rx_ok rx \<Longrightarrow> length (rx_data rx) + n \<le> rx_total rx \<Longrightarrow> rx_ok (rx\<lparr>rx_data := rx_data rx @ take n d\<rparr>)"
  by (simp add: rx_ok_def)

text \<open>The cases of the handler: nothing is kept, or the piece is appended to a buffer that it fits into.\<close>

lemma data_cases:
  assumes "rx_ok rx" and "mqtt_event_data queued ev rx = (w, rx')"
  obtains "w = None" "rx' \<in> {rx, zero_rx}"
  | rx1 where "rx_ok rx1" "rx_total rx1 > 0" "length (rx_data rx1) \<noteq> rx_total rx1" "w = None" "rx' = rx1"
  | rx1 where "rx_ok rx1" "rx_total rx1 > 0" "length (rx_data rx1) = rx_total rx1" "w = Some (rx_work rx1)" "rx' = zero_rx"
proof (cases "ev_total_data_len ev \<le> 0 \<or> ev_total_data_len ev > int MQTT_PAYLOAD_MAX \<or> ev_current_data_offset ev < 0 \<or> ev_data_len ev < 0")
  case True
  then show ?thesis using assms that(1) by (simp add: mqtt_event_data_def)
next
  case g: False
  show ?thesis
  proof (cases "if ev_current_data_offset ev = 0 then rx_begin ev else Some rx")
    case None
    then show ?thesis using assms that(1) g by (simp add: mqtt_event_data_def)
  next
    case (Some r)
    have r: "rx_ok r" using Some assms(1) rx_ok_begin g by (auto split: if_splits)
    let ?r = "r\<lparr>rx_data := rx_data r @ take (nat (ev_data_len ev)) (ev_data ev)\<rparr>"
    show ?thesis
    proof (cases "nat (ev_current_data_offset ev) \<noteq> length (rx_data r) \<or> rx_total r \<noteq> nat (ev_total_data_len ev) \<or>
        length (rx_data r) + nat (ev_data_len ev) > rx_total r")
      case True
      then show ?thesis using assms that(1) g Some by (simp add: mqtt_event_data_def)
    next
      case fits: False
      then have ok: "rx_ok ?r" "0 < rx_total ?r" using rx_ok_append [OF r] g by auto
      show ?thesis
      proof (cases "length (rx_data ?r) = rx_total ?r")
        case True
        then have "(w, rx') = (if queued then Some (rx_work ?r) else None, zero_rx)"
          using assms(2) g Some fits by (simp add: mqtt_event_data_def Let_def)
        then show ?thesis using that(1) that(3) [OF ok True] by (cases queued) simp_all
      next
        case False
        then have "(w, rx') = (None, ?r)" using assms(2) g Some fits by (simp add: mqtt_event_data_def Let_def)
        then show ?thesis using that(2) [OF ok False] by simp
      qed
    qed
  qed
qed

lemma rx_ok_event:
  assumes "rx_ok rx"
  shows "rx_ok (snd (mqtt_event_data queued ev rx))"
  by (rule data_cases [OF assms, of queued ev "fst (mqtt_event_data queued ev rx)" "snd (mqtt_event_data queued ev rx)"])
    (use assms in auto)

lemma work_ok:
  assumes "rx_ok rx" and "mqtt_event_data queued ev rx = (Some w, rx')"
  shows "0 < md_payload_len w \<and> md_payload_len w \<le> MQTT_PAYLOAD_MAX \<and> length (md_payload w) \<le> md_payload_len w \<and>
    length (md_topic w) < MQTT_TOPIC_MAX"
  by (rule data_cases [OF assms]) (auto simp: rx_work_def rx_ok_def, metis length_takeWhile_le)

section \<open>Reassembly\<close>

text \<open>The events for a message that arrives in the pieces \<open>fs\<close>.\<close>

fun fragments :: "string \<Rightarrow> nat \<Rightarrow> bool \<Rightarrow> nat \<Rightarrow> string list \<Rightarrow> mqtt_data_event list" where
  "fragments topic size_all retain offset [] = []"
| "fragments topic size_all retain offset (f # fs) =
     \<lparr>ev_topic = (if offset = 0 then topic else []), ev_total_data_len = int size_all, ev_current_data_offset = int offset,
      ev_data_len = int (length f), ev_data = f, ev_retain = retain, ev_dup = False, ev_qos = 1\<rparr> #
     fragments topic size_all retain (offset + length f) fs"

fun receive :: "mqtt_data_event list \<Rightarrow> mqtt_rx \<Rightarrow> mqtt_data list \<times> mqtt_rx" where
  "receive [] rx = ([], rx)"
| "receive (ev # evs) rx =
     (case mqtt_event_data True ev rx of
        (w, rx1) \<Rightarrow> (case receive evs rx1 of (ws, rx2) \<Rightarrow> (case w of None \<Rightarrow> ws | Some x \<Rightarrow> x # ws, rx2)))"

lemma next_piece:
  assumes "0 < size_all" "size_all \<le> MQTT_PAYLOAD_MAX" and "rx_total rx = size_all" and "0 < length (rx_data rx)"
    and "length (rx_data rx) + length f \<le> size_all"
    and "ev_total_data_len ev = int size_all" "ev_current_data_offset ev = int (length (rx_data rx))" "ev_data_len ev = int (length f)" "ev_data ev = f"
  shows "mqtt_event_data True ev rx =
    (let rx1 = rx\<lparr>rx_data := rx_data rx @ f\<rparr> in if length (rx_data rx1) = size_all then (Some (rx_work rx1), zero_rx) else (None, rx1))"
  using assms by (simp add: mqtt_event_data_def Let_def)

lemma receive_rest:
  assumes "size_all \<le> MQTT_PAYLOAD_MAX"
  shows "rx_total rx = size_all \<Longrightarrow> 0 < length (rx_data rx) \<Longrightarrow> fs \<noteq> [] \<Longrightarrow> [] \<notin> set fs \<Longrightarrow>
    size_all = length (rx_data rx) + length (concat fs) \<Longrightarrow>
    receive (fragments topic size_all retain (length (rx_data rx)) fs) rx =
      ([rx_work (rx\<lparr>rx_data := rx_data rx @ concat fs\<rparr>)], zero_rx)"
proof (induction fs arbitrary: rx)
  case (Cons f fs)
  let ?rx = "rx\<lparr>rx_data := rx_data rx @ f\<rparr>"
  have pos: "0 < size_all" "length (rx_data rx) + length f \<le> size_all" using Cons.prems by simp_all
  note p = next_piece [OF pos(1) assms Cons.prems(1,2) pos(2)]
  show ?case
  proof (cases "fs = []")
    case True
    then show ?thesis using Cons.prems(2,5) by (simp add: p)
  next
    case False
    then have "0 < length (concat fs)" using Cons.prems(4) by (cases fs) auto
    then have "length (rx_data ?rx) \<noteq> size_all" using Cons.prems(5) by simp
    moreover have "receive (fragments topic size_all retain (length (rx_data ?rx)) fs) ?rx =
        ([rx_work (?rx\<lparr>rx_data := rx_data ?rx @ concat fs\<rparr>)], zero_rx)"
      by (rule Cons.IH) (use Cons.prems False in auto)
    ultimately show ?thesis using Cons.prems(2) by (simp add: p)
  qed
qed simp

lemma receive_fragments:
  assumes "0 < length topic" "length topic < MQTT_TOPIC_MAX" and "fs \<noteq> []" "[] \<notin> set fs" and "length (concat fs) \<le> MQTT_PAYLOAD_MAX"
  shows "receive (fragments topic (length (concat fs)) retain 0 fs) rx =
    ([\<lparr>md_topic = topic, md_payload = takeWhile (\<lambda>c. c \<noteq> NUL) (concat fs), md_payload_len = length (concat fs), md_retained = retain\<rparr>], zero_rx)"
proof -
  obtain f gs where fs: "fs = f # gs" using assms(3) by (cases fs) auto
  have f: "0 < length f" using assms(4) fs by auto
  let ?n = "length (concat fs)"
  let ?rx = "zero_rx\<lparr>rx_topic := topic, rx_total := ?n, rx_retained := retain, rx_duplicate := False, rx_qos := 1, rx_data := f\<rparr>"
  have n: "0 < ?n" "length f \<le> ?n" using f fs by simp_all
  define ev where "ev = \<lparr>ev_topic = topic, ev_total_data_len = int ?n, ev_current_data_offset = 0, ev_data_len = int (length f),
      ev_data = f, ev_retain = retain, ev_dup = False, ev_qos = 1\<rparr>"
  have first: "mqtt_event_data True ev rx = (if length f = ?n then (Some (rx_work ?rx), zero_rx) else (None, ?rx))"
    using assms(1,2,5) n by (auto simp: ev_def mqtt_event_data_def rx_begin_def zero_rx_def)
  have evs: "fragments topic ?n retain 0 fs = ev # fragments topic ?n retain (length f) gs" unfolding fs by (simp add: ev_def fs)
  have w: "rx_work (?rx\<lparr>rx_data := concat fs\<rparr>) =
      \<lparr>md_topic = topic, md_payload = takeWhile (\<lambda>c. c \<noteq> NUL) (concat fs), md_payload_len = ?n, md_retained = retain\<rparr>"
    by (simp add: rx_work_def)
  show ?thesis
  proof (cases "gs = []")
    case True
    then have "concat fs = f" using fs by simp
    then show ?thesis using first w True unfolding evs by simp
  next
    case False
    then have "0 < length (concat gs)" using assms(4) fs by (cases gs) auto
    then have "length f \<noteq> ?n" using fs by simp
    moreover have "receive (fragments topic ?n retain (length (rx_data ?rx)) gs) ?rx = ([rx_work (?rx\<lparr>rx_data := rx_data ?rx @ concat gs\<rparr>)], zero_rx)"
      by (rule receive_rest [OF assms(5)]) (use False f assms(4) fs in auto)
    moreover have "rx_data ?rx @ concat gs = concat fs" using fs by simp
    ultimately show ?thesis using first w unfolding evs by simp
  qed
qed

section \<open>Properties\<close>

text \<open>C29: A message that the MQTT client delivers in any number of pieces is put together exactly: if its
  topic and payload fit, the pieces that follow one another give one item for the worker, with the
  topic, the retain flag and the whole payload (as a C string, and its length), whatever was left in
  the buffer before, and the buffer is cleared.\<close>

theorem fragments_reassembled:
  assumes "0 < length topic" "length topic < MQTT_TOPIC_MAX" and "payload \<noteq> []" "length payload \<le> MQTT_PAYLOAD_MAX"
    and "concat fs = payload" and "[] \<notin> set fs"
  shows "receive (fragments topic (length payload) retain 0 fs) rx =
    ([\<lparr>md_topic = topic, md_payload = takeWhile (\<lambda>c. c \<noteq> NUL) payload, md_payload_len = length payload, md_retained = retain\<rparr>], zero_rx)"
  using receive_fragments [of topic fs retain rx] assms by (cases fs) auto

theorem fragments_reassembled_witness:
  "receive (fragments ''gw/sms/send'' 4 False 0 [''{'', ''ab'', ''}'']) (zero_rx\<lparr>rx_data := ''left''\<rparr>) =
    ([\<lparr>md_topic = ''gw/sms/send'', md_payload = ''{ab}'', md_payload_len = 4, md_retained = False\<rparr>], zero_rx)"
proof -
  have "takeWhile (\<lambda>c. c \<noteq> NUL) ''{ab}'' = ''{ab}''" by code_simp
  then show ?thesis
    using fragments_reassembled [of "''gw/sms/send''" "''{ab}''" "[''{'', ''ab'', ''}'']" False "zero_rx\<lparr>rx_data := ''left''\<rparr>"]
    by (simp add: MQTT_TOPIC_MAX_def MQTT_PAYLOAD_MAX_def)
qed

end
