(* ===== verification/Mqtt_Replay.thy ===== *)
theory Mqtt_Replay
  imports Front_End_Runs
begin

text \<open>
  The replay of received messages to the MQTT broker, \<open>mqtt_service.c\<close>: one message at a time is
  published with QoS 1, and when its acknowledgement arrives the durable cursor moves to it. The
  MQTT client (\<open>esp_mqtt\<close>) is outside the sources: the packet identifier that it returns and the
  events that it raises are arguments. The service is reached through \<open>sms_service_list\<close> and the
  replay watermark only, so its part of the state is the message store.

  The critical sections make the event handler and the worker alternate between the operations
  below; the worker holds \<open>s_runtime_mutex\<close> while it handles an item.
\<close>

section \<open>State\<close>

definition MQTT_WORK_QUEUE_DEPTH :: nat where "MQTT_WORK_QUEUE_DEPTH = 8"
definition MQTT_REPLAY_ACK_TIMEOUT_MS :: int where "MQTT_REPLAY_ACK_TIMEOUT_MS = 60000"
definition MQTT_REPLAY_CURSOR_KEY :: string where "MQTT_REPLAY_CURSOR_KEY = ''rx_cursor''"

text \<open>The items of the work queue that concern the replay.\<close>

datatype mqtt_work = MQTT_WORK_CONNECTED | MQTT_WORK_REPLAY | MQTT_WORK_REPLAY_ACK u32

text \<open>
  \<open>mr_published\<close> lists the messages handed to the client with their packet identifiers and
  documents, and \<open>mr_acknowledged\<close> the messages whose packet was reported as published. The
  program does not keep them; they say what happened.
\<close>

record ('n, 'r) mqtt_replay =
  mr_connected :: bool
  mr_connects :: u32
  mr_disconnects :: u32
  mr_events_dropped :: u32
  mr_cursor :: u32
  mr_diag_cursor :: u32
  mr_message_id :: u32
  mr_diag_inflight :: u32
  mr_packet_id :: int
  mr_started_ms :: int
  mr_queue :: "mqtt_work list"
  mr_nvs :: 'r
  mr_store :: "'n sms_store"
  mr_published :: "(u32 \<times> int \<times> (string \<times> json_value) list) list"
  mr_acknowledged :: "u32 list"

text \<open>
  What a step of the worker meets: whether the records can be allocated, the result of
  \<open>publish_raw\<close> (negative also when the document cannot be built) and the time.
\<close>

record replay_surroundings =
  rs_alloc :: "nat \<Rightarrow> bool"
  rs_packet :: int
  rs_now_ms :: int

section \<open>Operations\<close>

definition diag_connected :: "bool \<Rightarrow> ('n, 'r) mqtt_replay \<Rightarrow> ('n, 'r) mqtt_replay" where
  "diag_connected connected s =
     s\<lparr>mr_connects := (if connected \<and> \<not> mr_connected s then mr_connects s + 1 else mr_connects s),
       mr_disconnects := (if \<not> connected \<and> mr_connected s then mr_disconnects s + 1 else mr_disconnects s),
       mr_connected := connected\<rparr>"

definition replay_cursor_store ::
    "('r, 'b) nvs_ops \<Rightarrow> u32 \<Rightarrow> ('n, 'r) mqtt_replay \<Rightarrow> esp_err \<times> ('n, 'r) mqtt_replay" where
  "replay_cursor_store ops message_id s =
     (case nvs_set_u32 ops MQTT_REPLAY_CURSOR_KEY message_id (mr_nvs s) of
        (e1, n1) \<Rightarrow>
          (case (if e1 = ESP_OK then nvs_commit ops n1 else (e1, n1)) of
             (e, n2) \<Rightarrow>
               if e = ESP_OK
               then (e, s\<lparr>mr_nvs := n2, mr_cursor := message_id, mr_diag_cursor := message_id,
                          mr_store := sms_store_set_replay_watermark True message_id (mr_store s)\<rparr>)
               else (e, s\<lparr>mr_nvs := n2\<rparr>)))"

definition replay_json :: "sms_message \<Rightarrow> (string \<times> json_value) list" where
  "replay_json m =
     [(''id'', JNumber (uint (msg_id m))), (''status'', JString (sms_message_status_name (msg_status m))),
      (''event_type'', JString ''received''), (''from'', JString (msg_sender m)), (''text'', JString (msg_text m))] @
     (if msg_service_center_timestamp m \<noteq> [] then [(''received_at'', JString (msg_service_center_timestamp m))] else [])"

definition publish_inbound_replay ::
    "replay_surroundings \<Rightarrow> sms_message \<Rightarrow> ('n, 'r) mqtt_replay \<Rightarrow> bool \<times> ('n, 'r) mqtt_replay" where
  "publish_inbound_replay rs m s =
     (if rs_packet rs < 0 then (False, s)
      else (True, s\<lparr>mr_message_id := msg_id m, mr_diag_inflight := msg_id m, mr_packet_id := rs_packet rs,
                    mr_started_ms := rs_now_ms rs,
                    mr_published := (msg_id m, rs_packet rs, replay_json m) # mr_published s\<rparr>))"

definition replayable :: "sms_message \<Rightarrow> bool" where
  "replayable m \<longleftrightarrow> msg_direction m = SMS_DIRECTION_INBOUND \<and> msg_status m = SMS_MESSAGE_RECEIVED"

text \<open>The loop of \<open>replay_next_inbound\<close>: the record that it publishes, if it finds one; \<open>i\<close> counts the rounds.\<close>

fun replay_scan ::
    "('n, persisted_record) nvs_ops \<Rightarrow> (nat \<Rightarrow> bool) \<Rightarrow> 'n sms_store \<Rightarrow> nat \<Rightarrow> nat \<Rightarrow> u32 \<Rightarrow> sms_message option" where
  "replay_scan ops alloc st 0 i scan = None"
| "replay_scan ops alloc st (Suc k) i scan =
     (if \<not> alloc i then None
      else (case sms_store_list ops scan 1 st of
              Inl _ \<Rightarrow> None
            | Inr [] \<Rightarrow> None
            | Inr (r # _) \<Rightarrow> if replayable r then Some r else replay_scan ops alloc st k (i + 1) (msg_id r)))"

definition replay_next_inbound ::
    "('n, persisted_record) nvs_ops \<Rightarrow> replay_surroundings \<Rightarrow> ('n, 'r) mqtt_replay \<Rightarrow> ('n, 'r) mqtt_replay" where
  "replay_next_inbound sops rs s =
     (if \<not> mr_connected s then s
      else if mr_message_id s \<noteq> 0 then s
      else (case replay_scan sops (rs_alloc rs) (mr_store s) SMS_STORE_MAX_RECORDS 0 (mr_cursor s) of
              None \<Rightarrow> s
            | Some m \<Rightarrow>
                (case publish_inbound_replay rs m s of
                   (sent, s1) \<Rightarrow> if sent then s1 else s1\<lparr>mr_events_dropped := mr_events_dropped s1 + 1\<rparr>)))"

definition replay_inflight_clear :: "('n, 'r) mqtt_replay \<Rightarrow> ('n, 'r) mqtt_replay" where
  "replay_inflight_clear s = s\<lparr>mr_message_id := 0, mr_diag_inflight := 0, mr_packet_id := 0, mr_started_ms := 0\<rparr>"

definition handle_replay_ack ::
    "('n, persisted_record) nvs_ops \<Rightarrow> ('r, 'b) nvs_ops \<Rightarrow> replay_surroundings \<Rightarrow> u32 \<Rightarrow> ('n, 'r) mqtt_replay \<Rightarrow> ('n, 'r) mqtt_replay" where
  "handle_replay_ack sops ops rs message_id s =
     (if mr_message_id s = message_id \<and> message_id \<noteq> 0
      then (case replay_cursor_store ops message_id (replay_inflight_clear s) of
              (e, s1) \<Rightarrow> if e \<noteq> ESP_OK then s1 else replay_next_inbound sops rs s1)
      else s)"

definition replay_watchdog ::
    "('n, persisted_record) nvs_ops \<Rightarrow> replay_surroundings \<Rightarrow> ('n, 'r) mqtt_replay \<Rightarrow> ('n, 'r) mqtt_replay" where
  "replay_watchdog sops rs s =
     (if mr_message_id s \<noteq> 0 \<and> mr_started_ms s \<noteq> 0 \<and> rs_now_ms rs - mr_started_ms s \<ge> MQTT_REPLAY_ACK_TIMEOUT_MS
      then replay_next_inbound sops rs (replay_inflight_clear s) else s)"

text \<open>The queue, which a full queue or a failed allocation leaves as it is; some callers count the loss.\<close>

definition queue_simple_work :: "bool \<Rightarrow> mqtt_work \<Rightarrow> ('n, 'r) mqtt_replay \<Rightarrow> ('n, 'r) mqtt_replay" where
  "queue_simple_work work_alloc work s =
     (if \<not> work_alloc then s
      else if length (mr_queue s) < MQTT_WORK_QUEUE_DEPTH then s\<lparr>mr_queue := mr_queue s @ [work]\<rparr>
      else s\<lparr>mr_events_dropped := mr_events_dropped s + 1\<rparr>)"

definition mqtt_event_connected :: "bool \<Rightarrow> ('n, 'r) mqtt_replay \<Rightarrow> ('n, 'r) mqtt_replay" where
  "mqtt_event_connected work_alloc s = queue_simple_work work_alloc MQTT_WORK_CONNECTED (diag_connected True s)"

definition mqtt_event_disconnected :: "('n, 'r) mqtt_replay \<Rightarrow> ('n, 'r) mqtt_replay" where
  "mqtt_event_disconnected s = replay_inflight_clear (diag_connected False s)"

definition mqtt_event_published :: "bool \<Rightarrow> int \<Rightarrow> ('n, 'r) mqtt_replay \<Rightarrow> ('n, 'r) mqtt_replay" where
  "mqtt_event_published work_alloc packet s =
     (let replay_id = (if packet = mr_packet_id s then mr_message_id s else 0) in
      if replay_id = 0 then s
      else let s = s\<lparr>mr_acknowledged := replay_id # mr_acknowledged s\<rparr> in
           if work_alloc \<and> length (mr_queue s) < MQTT_WORK_QUEUE_DEPTH
           then s\<lparr>mr_queue := mr_queue s @ [MQTT_WORK_REPLAY_ACK replay_id]\<rparr> else s)"

text \<open>\<open>sms_event_callback\<close> for a message that was received.\<close>

definition sms_event_received :: "bool \<Rightarrow> ('n, 'r) mqtt_replay \<Rightarrow> ('n, 'r) mqtt_replay" where
  "sms_event_received work_alloc s = queue_simple_work work_alloc MQTT_WORK_REPLAY s"

text \<open>
  One round of \<open>worker_task\<close>: an item of the queue, dropped when the runtime mutex is not free in
  time, or, when the queue stays empty for 30 seconds, the periodic work.
\<close>

definition worker_round ::
    "('n, persisted_record) nvs_ops \<Rightarrow> ('r, 'b) nvs_ops \<Rightarrow> replay_surroundings \<Rightarrow> bool \<Rightarrow> ('n, 'r) mqtt_replay \<Rightarrow> ('n, 'r) mqtt_replay" where
  "worker_round sops ops rs taken s =
     (case mr_queue s of
        work # rest \<Rightarrow>
          let s = s\<lparr>mr_queue := rest\<rparr> in
          if \<not> taken then s\<lparr>mr_events_dropped := mr_events_dropped s + 1\<rparr>
          else (case work of
                  MQTT_WORK_CONNECTED \<Rightarrow> replay_next_inbound sops rs s
                | MQTT_WORK_REPLAY \<Rightarrow> replay_next_inbound sops rs s
                | MQTT_WORK_REPLAY_ACK message_id \<Rightarrow> handle_replay_ack sops ops rs message_id s)
      | [] \<Rightarrow> if mr_connected s \<and> taken then replay_next_inbound sops rs (replay_watchdog sops rs s) else s)"

text \<open>
  The start of the service after a reset: the cursor is read from the partition, an error other
  than a missing key stops the start. The queue and the attempt are gone.
\<close>

definition mqtt_replay_init :: "('r, 'b) nvs_ops \<Rightarrow> ('n, 'r) mqtt_replay \<Rightarrow> esp_err \<times> ('n, 'r) mqtt_replay" where
  "mqtt_replay_init ops s =
     (let s = s\<lparr>mr_connected := False, mr_connects := 0, mr_disconnects := 0, mr_events_dropped := 0, mr_cursor := 0,
                mr_diag_cursor := 0, mr_message_id := 0, mr_diag_inflight := 0, mr_packet_id := 0, mr_started_ms := 0, mr_queue := []\<rparr> in
      case nvs_get_u32 ops (mr_nvs s) MQTT_REPLAY_CURSOR_KEY of
        Inl e \<Rightarrow> if e \<noteq> ESP_ERR_NVS_NOT_FOUND then (e, s)
                 else (ESP_OK, s\<lparr>mr_store := sms_store_set_replay_watermark True 0 (mr_store s)\<rparr>)
      | Inr cursor \<Rightarrow> (ESP_OK, s\<lparr>mr_cursor := cursor, mr_diag_cursor := cursor,
                                 mr_store := sms_store_set_replay_watermark True cursor (mr_store s)\<rparr>))"

section \<open>What is published\<close>

text \<open>The messages that wait for the broker, oldest first.\<close>

definition waiting :: "('n, persisted_record) nvs_ops \<Rightarrow> ('n, 'r) mqtt_replay \<Rightarrow> sms_message list" where
  "waiting sops s = filter replayable (records_after sops (mr_store s) (mr_cursor s))"

lemma records_after_bound: "length (records_after ops st c) \<le> SMS_STORE_MAX_RECORDS"
proof -
  have "length (held load ss) \<le> length ss" for load :: "nat \<Rightarrow> esp_err + sms_message option" and ss
    by (induction ss) (auto split: sum.splits option.splits)
  then have "length (stored ops (st_nvs st)) \<le> SMS_STORE_MAX_RECORDS"
    unfolding stored_def store_slots_def by (metis diff_zero length_map length_upt)
  then show ?thesis using length_filter_le [of _ "stored ops (st_nvs st)"] unfolding records_after_def
    by (metis (no_types, lifting) length_sort le_trans)
qed

lemma replay_scan_first:
  assumes "store_wf ops (st_nvs st)" and "st_initialized st" and "\<And>i. alloc i"
  shows "length (records_after ops st scan) \<le> k \<Longrightarrow>
    replay_scan ops alloc st k i scan = (case filter replayable (records_after ops st scan) of [] \<Rightarrow> None | m # _ \<Rightarrow> Some m)"
proof (induction k arbitrary: i scan)
  case 0
  then show ?case by simp
next
  case (Suc k)
  have l: "sms_store_list ops scan 1 st = Inr (take 1 (records_after ops st scan))"
    using list_sorted [OF assms(1,2), of 1] by (simp add: records_after_def)
  show ?case
  proof (cases "records_after ops st scan")
    case Nil
    then show ?thesis using l assms(3) [of i] by simp
  next
    case (Cons m L)
    note t = records_after_tail [OF assms(1) Cons]
    have "replay_scan ops alloc st k (i + 1) (msg_id m) = (case filter replayable L of [] \<Rightarrow> None | m # _ \<Rightarrow> Some m)"
      using Suc.IH [of "msg_id m" "i + 1"] Suc.prems Cons t by simp
    then show ?thesis using l assms(3) [of i] Cons by simp
  qed
qed

lemma replay_next_publishes:
  assumes "store_wf sops (st_nvs (mr_store s))" and "st_initialized (mr_store s)" and "\<And>i. rs_alloc rs i" and "rs_packet rs \<ge> 0"
    and "mr_connected s" and "mr_message_id s = 0"
  shows "replay_next_inbound sops rs s =
    (case waiting sops s of
       [] \<Rightarrow> s
     | m # _ \<Rightarrow> s\<lparr>mr_message_id := msg_id m, mr_diag_inflight := msg_id m, mr_packet_id := rs_packet rs, mr_started_ms := rs_now_ms rs,
                   mr_published := (msg_id m, rs_packet rs, replay_json m) # mr_published s\<rparr>)"
  unfolding replay_next_inbound_def replay_scan_first [OF assms(1-3) records_after_bound] waiting_def publish_inbound_replay_def
  using assms(4-6) by (auto split: list.splits)

section \<open>Runs\<close>

text \<open>
  Everything that can happen: the events of the client, messages received, rounds of the worker
  with any outcome of allocations, publishing and flash, restarts, and steps of the service. The
  service may delete or add records; a received message that it adds has an identifier above
  every one that was published before, since the store never allocates an identifier twice, and
  the watermark is set by nobody else.
\<close>

inductive replay_run ::
    "('n, persisted_record) nvs_ops \<Rightarrow> ('r, 'b) nvs_ops \<Rightarrow> ('n, 'r) mqtt_replay \<Rightarrow> ('n, 'r) mqtt_replay \<Rightarrow> bool"
  for sops :: "('n, persisted_record) nvs_ops" and ops :: "('r, 'b) nvs_ops" and s0 :: "('n, 'r) mqtt_replay" where
  replay_start: "replay_run sops ops s0 s0"
| replay_connected: "replay_run sops ops s0 s \<Longrightarrow> replay_run sops ops s0 (mqtt_event_connected b s)"
| replay_disconnected: "replay_run sops ops s0 s \<Longrightarrow> replay_run sops ops s0 (mqtt_event_disconnected s)"
| replay_published: "replay_run sops ops s0 s \<Longrightarrow> replay_run sops ops s0 (mqtt_event_published b packet s)"
| replay_received: "replay_run sops ops s0 s \<Longrightarrow> replay_run sops ops s0 (sms_event_received b s)"
| replay_round: "replay_run sops ops s0 s \<Longrightarrow> replay_run sops ops s0 (worker_round sops ops rs taken s)"
| replay_restart: "replay_run sops ops s0 s \<Longrightarrow> mqtt_replay_init ops s = (ESP_OK, s') \<Longrightarrow> replay_run sops ops s0 s'"
| replay_service: "replay_run sops ops s0 s \<Longrightarrow> store_wf sops (st_nvs st) \<Longrightarrow> st_initialized st \<Longrightarrow>
    st_replay_protection_enabled st = st_replay_protection_enabled (mr_store s) \<Longrightarrow>
    st_replay_watermark st = st_replay_watermark (mr_store s) \<Longrightarrow>
    \<forall>m x. m \<in> set (stored sops (st_nvs st)) \<longrightarrow> replayable m \<longrightarrow> m \<notin> set (stored sops (st_nvs (mr_store s))) \<longrightarrow>
       x \<in> fst ` set (mr_published s) \<longrightarrow> x < msg_id m \<Longrightarrow>
    replay_run sops ops s0 (s\<lparr>mr_store := st\<rparr>)"

text \<open>
  The invariant. \<open>settled P\<close>: every received message with an identifier in \<open>P\<close> was acknowledged.
  This is so up to the cursor, up to the cursor in the partition (a commit may fail after the
  value was written), and below the message in flight.
\<close>

definition settled :: "('n, persisted_record) nvs_ops \<Rightarrow> ('n, 'r) mqtt_replay \<Rightarrow> (u32 \<Rightarrow> bool) \<Rightarrow> bool" where
  "settled sops s P \<longleftrightarrow> (\<forall>m \<in> set (stored sops (st_nvs (mr_store s))). replayable m \<longrightarrow> P (msg_id m) \<longrightarrow> msg_id m \<in> set (mr_acknowledged s))"

definition cursor_ok :: "('n, persisted_record) nvs_ops \<Rightarrow> ('n, 'r) mqtt_replay \<Rightarrow> u32 \<Rightarrow> bool" where
  "cursor_ok sops s c \<longleftrightarrow> settled sops s (\<lambda>i. i \<le> c) \<and> (c = 0 \<or> c \<in> set (mr_acknowledged s))"

definition replay_inv :: "('n, persisted_record) nvs_ops \<Rightarrow> ('r, 'b) nvs_ops \<Rightarrow> ('n, 'r) mqtt_replay \<Rightarrow> bool" where
  "replay_inv sops ops s \<longleftrightarrow>
     store_wf sops (st_nvs (mr_store s)) \<and> st_initialized (mr_store s) \<and>
     st_replay_protection_enabled (mr_store s) \<and> st_replay_watermark (mr_store s) = mr_cursor s \<and>
     set (mr_acknowledged s) \<subseteq> fst ` set (mr_published s) \<and> cursor_ok sops s (mr_cursor s) \<and>
     (\<forall>c. nvs_get_u32 ops (mr_nvs s) MQTT_REPLAY_CURSOR_KEY = Inr c \<longrightarrow> cursor_ok sops s c) \<and>
     (mr_message_id s \<noteq> 0 \<longrightarrow> mr_message_id s \<in> fst ` set (mr_published s) \<and> settled sops s (\<lambda>i. i < mr_message_id s)) \<and>
     (\<forall>x. MQTT_WORK_REPLAY_ACK x \<in> set (mr_queue s) \<longrightarrow> x \<in> set (mr_acknowledged s))"

lemmas inv_defs = replay_inv_def cursor_ok_def settled_def

lemma replay_scan_some:
  assumes "store_wf ops (st_nvs st)" and "st_initialized st"
  shows "replay_scan ops alloc st k i scan = Some m \<Longrightarrow> \<exists>L. filter replayable (records_after ops st scan) = m # L"
proof (induction k arbitrary: i scan)
  case (Suc k)
  have l: "sms_store_list ops scan 1 st = Inr (take 1 (records_after ops st scan))"
    using list_sorted [OF assms, of 1] by (simp add: records_after_def)
  show ?case
  proof (cases "records_after ops st scan")
    case Nil
    then show ?thesis using l Suc.prems by (simp split: if_splits)
  next
    case (Cons m' L)
    then show ?thesis using Suc.IH [of "i + 1" "msg_id m'"] Suc.prems l records_after_tail [OF assms(1) Cons]
      by (auto split: if_splits)
  qed
qed simp

lemma waiting_first:
  assumes "filter replayable (records_after ops st c) = m # L"
  shows "replayable m" "c < msg_id m"
    "m' \<in> set (stored ops (st_nvs st)) \<Longrightarrow> replayable m' \<Longrightarrow> msg_id m' < msg_id m \<Longrightarrow> msg_id m' \<le> c"
proof -
  have m: "m \<in> set (filter replayable (records_after ops st c))" using assms by simp
  then show "replayable m" by simp
  show "c < msg_id m" using m records_after_above [of m ops st c] by simp
  have "sorted (map msg_id (m # L))" using assms by (metis records_after_def sorted_filter sorted_sort_key)
  then have "msg_id m \<le> msg_id x" if "x \<in> set (filter replayable (records_after ops st c))" for x
    using that unfolding assms by auto
  moreover assume "m' \<in> set (stored ops (st_nvs st))" "replayable m'" "msg_id m' < msg_id m"
  ultimately show "msg_id m' \<le> c" by (fastforce simp: records_after_def)
qed

lemma next_inv:
  assumes "replay_inv sops ops s"
  shows "replay_inv sops ops (replay_next_inbound sops rs s)"
proof (cases "mr_connected s \<and> mr_message_id s = 0")
  case True
  show ?thesis
  proof (cases "replay_scan sops (rs_alloc rs) (mr_store s) SMS_STORE_MAX_RECORDS 0 (mr_cursor s)")
    case None
    then show ?thesis using assms by (simp add: replay_next_inbound_def)
  next
    case (Some m)
    obtain L where L: "filter replayable (records_after sops (mr_store s) (mr_cursor s)) = m # L"
      using replay_scan_some [OF _ _ Some] assms by (auto simp: replay_inv_def)
    have "settled sops s (\<lambda>i. i < msg_id m)"
      using waiting_first(3) [OF L] assms by (auto simp: inv_defs)
    then show ?thesis using Some True assms by (auto simp: replay_next_inbound_def publish_inbound_replay_def inv_defs)
  qed
qed (use assms in \<open>auto simp: replay_next_inbound_def\<close>)

lemma clear_inv: "replay_inv sops ops s \<Longrightarrow> replay_inv sops ops (replay_inflight_clear s)"
  by (simp add: replay_inflight_clear_def inv_defs)

lemma cursor_store_inv:
  assumes part: "nvs_partition ops" and inv: "replay_inv sops ops s" and "x \<in> set (mr_acknowledged s)" "settled sops s (\<lambda>i. i < x)"
    and "mr_message_id s = 0" and run: "replay_cursor_store ops x s = (e, s')"
  shows "replay_inv sops ops s'"
proof -
  obtain e1 n1 where w: "nvs_set_u32 ops MQTT_REPLAY_CURSOR_KEY x (mr_nvs s) = (e1, n1)" by fastforce
  obtain e2 n2 where c: "(if e1 = ESP_OK then nvs_commit ops n1 else (e1, n1)) = (e2, n2)" by fastforce
  have g: "nvs_get_u32 ops n2 MQTT_REPLAY_CURSOR_KEY = nvs_get_u32 ops (mr_nvs s) MQTT_REPLAY_CURSOR_KEY \<or>
      nvs_get_u32 ops n2 MQTT_REPLAY_CURSOR_KEY = Inr x"
    using nvs_partition.set_u32_failed [OF part w] nvs_partition.commit_u32 [OF part] c by (metis prod.inject)
  have ok: "cursor_ok sops s x" using assms(3,4) unfolding cursor_ok_def settled_def by (metis order_le_less)
  show ?thesis
  proof (cases "e2 = ESP_OK")
    case True
    then have "s' = s\<lparr>mr_nvs := n2, mr_cursor := x, mr_diag_cursor := x,
        mr_store := sms_store_set_replay_watermark True x (mr_store s)\<rparr>"
      using run w c by (simp add: replay_cursor_store_def)
    then show ?thesis using inv g ok assms(5) by (auto simp: inv_defs sms_store_set_replay_watermark_def)
  next
    case False
    then have "s' = s\<lparr>mr_nvs := n2\<rparr>" using run w c by (simp add: replay_cursor_store_def)
    then show ?thesis using inv g ok by (auto simp: inv_defs)
  qed
qed

lemma ack_inv:
  assumes "nvs_partition ops" and inv: "replay_inv sops ops s" and "x \<in> set (mr_acknowledged s)"
  shows "replay_inv sops ops (handle_replay_ack sops ops rs x s)"
proof (cases "mr_message_id s = x \<and> x \<noteq> 0")
  case True
  obtain e s1 where c: "replay_cursor_store ops x (replay_inflight_clear s) = (e, s1)" by fastforce
  have "settled sops (replay_inflight_clear s) (\<lambda>i. i < x)" "mr_message_id (replay_inflight_clear s) = 0"
    "x \<in> set (mr_acknowledged (replay_inflight_clear s))"
    using True inv assms(3) by (auto simp: inv_defs replay_inflight_clear_def)
  from cursor_store_inv [OF assms(1) clear_inv [OF inv] this(3,1,2) c] have "replay_inv sops ops s1" .
  then show ?thesis using True c next_inv by (auto simp: handle_replay_ack_def)
qed (use inv in \<open>auto simp: handle_replay_ack_def\<close>)

lemma watchdog_inv: "replay_inv sops ops s \<Longrightarrow> replay_inv sops ops (replay_watchdog sops rs s)"
  by (simp add: replay_watchdog_def clear_inv next_inv)

lemma queue_inv: "replay_inv sops ops s \<Longrightarrow> \<forall>x. work \<noteq> MQTT_WORK_REPLAY_ACK x \<Longrightarrow> replay_inv sops ops (queue_simple_work b work s)"
  by (auto simp: queue_simple_work_def inv_defs)

lemma diag_inv: "replay_inv sops ops s \<Longrightarrow> replay_inv sops ops (diag_connected b s)"
  by (simp add: diag_connected_def inv_defs)

lemma published_inv: "replay_inv sops ops s \<Longrightarrow> replay_inv sops ops (mqtt_event_published b packet s)"
  by (auto simp: mqtt_event_published_def Let_def inv_defs)

lemma round_inv:
  assumes "nvs_partition ops" and inv: "replay_inv sops ops s"
  shows "replay_inv sops ops (worker_round sops ops rs taken s)"
proof (cases "mr_queue s")
  case Nil
  then show ?thesis using inv by (simp add: worker_round_def next_inv watchdog_inv)
next
  case (Cons work rest)
  let ?s = "s\<lparr>mr_queue := rest\<rparr>"
  have i: "replay_inv sops ops ?s" using inv Cons by (auto simp: inv_defs)
  then have "replay_inv sops ops (?s\<lparr>mr_events_dropped := d\<rparr>)" for d by (simp add: inv_defs)
  moreover have "replay_inv sops ops (handle_replay_ack sops ops rs x ?s)" if "work = MQTT_WORK_REPLAY_ACK x" for x
    using ack_inv [OF assms(1) i] inv Cons that by (simp add: inv_defs)
  ultimately show ?thesis using i Cons next_inv by (auto simp: worker_round_def Let_def split: mqtt_work.splits)
qed

lemma stored_id: "store_wf ops n \<Longrightarrow> m \<in> set (stored ops n) \<Longrightarrow> msg_id m \<noteq> 0"
  using store_map_fields [of ops n "msg_id m" m] by (auto simp: store_map_iff set_stored)

lemma replay_restart_inv:
  assumes "nvs_partition ops" and inv: "replay_inv sops ops s" and "mqtt_replay_init ops s = (ESP_OK, s')"
  shows "replay_inv sops ops s'"
proof -
  let ?r = "nvs_get_u32 ops (mr_nvs s) MQTT_REPLAY_CURSOR_KEY"
  define c where "c = (case ?r of Inl _ \<Rightarrow> 0 | Inr c \<Rightarrow> c)"
  have "cursor_ok sops s 0" using stored_id [of sops "st_nvs (mr_store s)"] inv
    unfolding cursor_ok_def settled_def replay_inv_def by auto
  then have ok: "cursor_ok sops s c" using inv by (auto simp: c_def replay_inv_def split: sum.splits)
  have "?r \<noteq> Inl ESP_OK" using nvs_partition.get_u32_error [OF assms(1)] by metis
  then have "s' = s\<lparr>mr_connected := False, mr_connects := 0, mr_disconnects := 0, mr_events_dropped := 0, mr_cursor := c,
      mr_diag_cursor := c, mr_message_id := 0, mr_diag_inflight := 0, mr_packet_id := 0, mr_started_ms := 0, mr_queue := [],
      mr_store := sms_store_set_replay_watermark True c (mr_store s)\<rparr>"
    using assms(3) by (auto simp: mqtt_replay_init_def Let_def c_def split: sum.splits if_splits)
  then show ?thesis using inv ok by (simp add: inv_defs sms_store_set_replay_watermark_def)
qed

lemma service_inv:
  assumes inv: "replay_inv sops ops s" and "store_wf sops (st_nvs st)" "st_initialized st"
    "st_replay_protection_enabled st = st_replay_protection_enabled (mr_store s)" "st_replay_watermark st = st_replay_watermark (mr_store s)"
    and new: "\<forall>m x. m \<in> set (stored sops (st_nvs st)) \<longrightarrow> replayable m \<longrightarrow> m \<notin> set (stored sops (st_nvs (mr_store s))) \<longrightarrow>
       x \<in> fst ` set (mr_published s) \<longrightarrow> x < msg_id m"
  shows "replay_inv sops ops (s\<lparr>mr_store := st\<rparr>)"
proof -
  have keep: "settled sops (s\<lparr>mr_store := st\<rparr>) P"
    if old: "settled sops s P" and seen: "\<And>i. P i \<Longrightarrow> i \<noteq> 0 \<Longrightarrow> \<exists>x \<in> fst ` set (mr_published s). i \<le> x" for P
    unfolding settled_def
  proof (intro ballI impI)
    fix m assume m: "m \<in> set (stored sops (st_nvs (mr_store (s\<lparr>mr_store := st\<rparr>))))" "replayable m" "P (msg_id m)"
    then have st: "m \<in> set (stored sops (st_nvs st))" by simp
    then obtain x where "x \<in> fst ` set (mr_published s)" "msg_id m \<le> x" using seen [OF m(3)] stored_id [OF assms(2)] by blast
    then have "m \<in> set (stored sops (st_nvs (mr_store s)))" using new st m(2) by (meson linorder_not_less)
    then show "msg_id m \<in> set (mr_acknowledged (s\<lparr>mr_store := st\<rparr>))" using old m(2,3) by (simp add: settled_def)
  qed
  have acked: "set (mr_acknowledged s) \<subseteq> fst ` set (mr_published s)" using inv by (simp add: replay_inv_def)
  have cur: "cursor_ok sops (s\<lparr>mr_store := st\<rparr>) c" if "cursor_ok sops s c" for c
  proof -
    have "settled sops (s\<lparr>mr_store := st\<rparr>) (\<lambda>i. i \<le> c)"
    proof (rule keep)
      show "\<exists>x \<in> fst ` set (mr_published s). i \<le> x" if "i \<le> c" "i \<noteq> 0" for i
        using \<open>cursor_ok sops s c\<close> acked that by (auto simp: cursor_ok_def)
    qed (use that in \<open>simp add: cursor_ok_def\<close>)
    then show ?thesis using that by (simp add: cursor_ok_def)
  qed
  have "settled sops (s\<lparr>mr_store := st\<rparr>) (\<lambda>i. i < mr_message_id s)" if "mr_message_id s \<noteq> 0"
  proof (rule keep)
    show "\<exists>x \<in> fst ` set (mr_published s). i \<le> x" if "i < mr_message_id s" for i
      using inv that \<open>mr_message_id s \<noteq> 0\<close> unfolding replay_inv_def by (meson less_imp_le)
  qed (use that inv in \<open>simp add: replay_inv_def\<close>)
  then show ?thesis using inv cur assms(2-5) by (simp add: replay_inv_def)
qed

lemma replay_run_inv:
  assumes "replay_run sops ops s0 s" and "nvs_partition ops" and "replay_inv sops ops s0"
  shows "replay_inv sops ops s"
  using assms
proof (induction rule: replay_run.induct)
  case (replay_service s st)
  then show ?case using service_inv by blast
qed (auto simp: mqtt_event_connected_def mqtt_event_disconnected_def sms_event_received_def
    intro: queue_inv diag_inv clear_inv published_inv round_inv replay_restart_inv)

section \<open>Progress\<close>

lemma waiting_tail:
  assumes "store_wf ops (st_nvs st)" and "filter replayable (records_after ops st c) = m # ms"
  shows "filter replayable (records_after ops st (msg_id m)) = ms"
proof -
  let ?S = "sort_key msg_id (filter replayable (stored ops (st_nvs st)))"
  have f: "filter replayable (records_after ops st c) = filter (\<lambda>y. c < msg_id y) ?S" for c
    by (simp add: records_after_def filter_sort conj_commute)
  have "distinct (map msg_id ?S)"
    using assms(1) by (auto simp: store_wf_def distinct_map intro: inj_on_subset)
  then show ?thesis using filter_above_tail [of ?S c m ms] assms(2) unfolding f by simp
qed

text \<open>The acknowledgement of the message in flight arrives and the worker handles it.\<close>

definition exchange ::
    "('n, persisted_record) nvs_ops \<Rightarrow> ('r, 'b) nvs_ops \<Rightarrow> replay_surroundings \<Rightarrow> ('n, 'r) mqtt_replay \<Rightarrow> ('n, 'r) mqtt_replay" where
  "exchange sops ops rs s = worker_round sops ops rs True (mqtt_event_published True (mr_packet_id s) s)"

definition cursor_writable :: "('r, 'b) nvs_ops \<Rightarrow> bool" where
  "cursor_writable ops \<longleftrightarrow> (\<forall>k w n. fst (nvs_set_u32 ops k w n) = ESP_OK) \<and> (\<forall>n. fst (nvs_commit ops n) = ESP_OK)"

definition helpful :: "replay_surroundings \<Rightarrow> bool" where
  "helpful rs \<longleftrightarrow> (\<forall>i. rs_alloc rs i) \<and> rs_packet rs \<ge> 0"

text \<open>A worker that waits for the acknowledgement of the first message that waits, if there is one.\<close>

definition underway :: "('n, persisted_record) nvs_ops \<Rightarrow> ('n, 'r) mqtt_replay \<Rightarrow> bool" where
  "underway sops s \<longleftrightarrow> store_wf sops (st_nvs (mr_store s)) \<and> st_initialized (mr_store s) \<and> mr_connected s \<and> mr_queue s = [] \<and>
     mr_message_id s = (case waiting sops s of [] \<Rightarrow> 0 | m # _ \<Rightarrow> msg_id m)"

lemma next_underway:
  assumes "store_wf sops (st_nvs (mr_store s))" "st_initialized (mr_store s)" "mr_connected s" "mr_queue s = []" "mr_message_id s = 0"
    and "helpful rs"
  shows "underway sops (replay_next_inbound sops rs s) \<and> waiting sops (replay_next_inbound sops rs s) = waiting sops s \<and>
    mr_acknowledged (replay_next_inbound sops rs s) = mr_acknowledged s \<and> mr_cursor (replay_next_inbound sops rs s) = mr_cursor s"
proof (cases "waiting sops s")
  case Nil
  then show ?thesis using replay_next_publishes [OF assms(1,2) _ _ assms(3,5), of rs] assms by (simp add: underway_def helpful_def)
next
  case (Cons m ms)
  then show ?thesis using replay_next_publishes [OF assms(1,2) _ _ assms(3,5), of rs] assms
    by (simp add: underway_def helpful_def waiting_def)
qed

lemma exchange_step:
  assumes "underway sops s" and "cursor_writable ops" and "helpful rs" and w: "waiting sops s = m # ms"
  defines "t \<equiv> exchange sops ops rs s"
  shows "underway sops t \<and> waiting sops t = ms \<and> mr_acknowledged t = msg_id m # mr_acknowledged s \<and> mr_cursor t = msg_id m"
proof -
  note u = assms(1) [unfolded underway_def w]
  have m: "msg_id m \<noteq> 0" using waiting_first(2) [of sops "mr_store s" "mr_cursor s" m ms] w by (auto simp: waiting_def)
  obtain n1 where n1: "nvs_set_u32 ops MQTT_REPLAY_CURSOR_KEY (msg_id m) (mr_nvs s) = (ESP_OK, n1)"
    using assms(2) unfolding cursor_writable_def by (metis prod.collapse)
  obtain n2 where n2: "nvs_commit ops n1 = (ESP_OK, n2)" using assms(2) unfolding cursor_writable_def by (metis prod.collapse)
  let ?s = "s\<lparr>mr_acknowledged := msg_id m # mr_acknowledged s\<rparr>"
  let ?v = "(replay_inflight_clear ?s)\<lparr>mr_nvs := n2, mr_cursor := msg_id m, mr_diag_cursor := msg_id m,
      mr_store := sms_store_set_replay_watermark True (msg_id m) (mr_store s)\<rparr>"
  have "mqtt_event_published True (mr_packet_id s) s = ?s\<lparr>mr_queue := [MQTT_WORK_REPLAY_ACK (msg_id m)]\<rparr>"
    using u m by (simp add: mqtt_event_published_def MQTT_WORK_QUEUE_DEPTH_def Let_def)
  moreover have "handle_replay_ack sops ops rs (msg_id m) ?s = replay_next_inbound sops rs ?v"
    using u m n1 n2 by (simp add: handle_replay_ack_def replay_cursor_store_def replay_inflight_clear_def)
  moreover have "?s\<lparr>mr_queue := []\<rparr> = ?s" using u by simp
  ultimately have t: "t = replay_next_inbound sops rs ?v" by (simp add: t_def exchange_def worker_round_def)
  have "waiting sops ?v = ms" 
    using waiting_tail [of sops "mr_store s" "mr_cursor s" m ms] u w
    by (simp add: waiting_def records_after_def sms_store_set_replay_watermark_def)
  moreover have "underway sops t \<and> waiting sops t = waiting sops ?v \<and> mr_acknowledged t = mr_acknowledged ?v \<and> mr_cursor t = mr_cursor ?v"
    unfolding t by (rule next_underway) (use u assms(3) in \<open>simp_all add: replay_inflight_clear_def sms_store_set_replay_watermark_def\<close>)
  ultimately show ?thesis by (simp add: replay_inflight_clear_def)
qed

lemma exchanges_drain:
  assumes "cursor_writable ops"
  shows "underway sops s \<Longrightarrow> length rss = length (waiting sops s) \<Longrightarrow> list_all helpful rss \<Longrightarrow>
    waiting sops (fold (exchange sops ops) rss s) = [] \<and>
    mr_acknowledged (fold (exchange sops ops) rss s) = rev (map msg_id (waiting sops s)) @ mr_acknowledged s"
proof (induction rss arbitrary: s)
  case (Cons rs rss)
  then obtain m ms where w: "waiting sops s = m # ms" by (cases "waiting sops s") auto
  with exchange_step [OF Cons.prems(1) assms _ w, of rs] Cons show ?case by simp
qed simp

section \<open>An example\<close>

definition demo_replay :: "(persisted_record flash, persisted_record flash) mqtt_replay" where
  "demo_replay = \<lparr>mr_connected = False, mr_connects = 0, mr_disconnects = 0, mr_events_dropped = 0, mr_cursor = 0, mr_diag_cursor = 0,
     mr_message_id = 0, mr_diag_inflight = 0, mr_packet_id = 0, mr_started_ms = 0, mr_queue = [],
     mr_nvs = \<lparr>fl_blobs = [], fl_u32s = [], fl_script = []\<rparr>, mr_store = example_store, mr_published = [], mr_acknowledged = []\<rparr>"

definition demo_rs :: replay_surroundings where
  "demo_rs = \<lparr>rs_alloc = \<lambda>_. True, rs_packet = 17, rs_now_ms = 1000\<rparr>"

text \<open>A partition for the cursor on which every write succeeds.\<close>

definition solid_cursor :: "(persisted_record flash, persisted_record) nvs_ops" where
  "solid_cursor = solid_ops\<lparr>nvs_set_u32 := \<lambda>k w n. (ESP_OK, n\<lparr>fl_u32s := (k, w) # without k (fl_u32s n)\<rparr>)\<rparr>"

interpretation solid_cursor: nvs_partition solid_cursor
  by unfold_locales
    (auto simp: solid_cursor_def solid_ops_def flash_ops_def scripted_def found_def map_of_without
      split: list.splits if_splits option.splits)

lemma example_ready: "store_wf flash_ops (st_nvs example_store)" "st_initialized example_store"
  using example_wf save_initialized [OF example_save] by simp_all

lemma example_stored: "set (stored flash_ops (st_nvs example_store)) = {example_message\<lparr>msg_id := 1\<rparr>}"
proof -
  have "x \<in> set (stored flash_ops (st_nvs example_store)) \<longleftrightarrow> x \<in> set (records_after flash_ops example_store 0)" for x
    using stored_id [OF example_ready(1), of x] by (auto simp: records_after_def word_gt_0)
  then show ?thesis by (auto simp: example_records)
qed

lemma example_replayable: "replayable (example_message\<lparr>msg_id := 1\<rparr>)"
  by (simp add: replayable_def example_message_def zero_message_def)

section \<open>Properties\<close>



text \<open>C30: The replay comes to an end. When the client is connected, the cursor can be written and every
  publication is acknowledged, the worker publishes the waiting messages one after the other in the
  order of their identifiers: after as many acknowledgements as messages were waiting, none waits any
  more and the broker has acknowledged exactly these messages in this order. The scan of at most
  \<open>SMS_STORE_MAX_RECORDS\<close> records always reaches the next one.\<close>

theorem replay_drains:
  assumes "store_wf sops (st_nvs (mr_store s))" and "st_initialized (mr_store s)" and "mr_connected s" and "mr_queue s = []"
    and "mr_message_id s = 0" and "cursor_writable ops" and "helpful rs" and "list_all helpful rss"
    and "length rss = length (waiting sops s)"
  shows "waiting sops (fold (exchange sops ops) rss (replay_next_inbound sops rs s)) = [] \<and>
    mr_acknowledged (fold (exchange sops ops) rss (replay_next_inbound sops rs s)) = rev (map msg_id (waiting sops s)) @ mr_acknowledged s"
  using exchanges_drain [OF assms(6), of sops "replay_next_inbound sops rs s" rss] next_underway [OF assms(1-5,7)] assms(8,9) by simp

theorem replay_drains_witness:
  "waiting flash_ops (exchange flash_ops solid_cursor demo_rs (replay_next_inbound flash_ops demo_rs (demo_replay\<lparr>mr_connected := True\<rparr>))) = [] \<and>
   mr_acknowledged (exchange flash_ops solid_cursor demo_rs (replay_next_inbound flash_ops demo_rs (demo_replay\<lparr>mr_connected := True\<rparr>))) = [1]"
proof -
  let ?s = "demo_replay\<lparr>mr_connected := True\<rparr>"
  have "waiting flash_ops ?s = [example_message\<lparr>msg_id := 1\<rparr>]"
    using example_replayable by (simp add: waiting_def demo_replay_def example_records)
  moreover have "cursor_writable solid_cursor" by (simp add: cursor_writable_def solid_cursor_def solid_ops_def)
  moreover have "helpful demo_rs" by (simp add: helpful_def demo_rs_def)
  moreover have "mr_store ?s = example_store" "mr_queue ?s = []" "mr_message_id ?s = 0" "mr_acknowledged ?s = []" by (simp_all add: demo_replay_def)
  ultimately show ?thesis using replay_drains [of flash_ops ?s solid_cursor demo_rs "[demo_rs]"] example_ready by simp
qed

end
