(* ===== verification/Gateway_Settings.thy ===== *)
theory Gateway_Settings
  imports Front_End_Runs
begin

text \<open>
  The MQTT configuration: its rules (\<open>mqtt_config.c\<close>), its storage (\<open>gateway_settings.c\<close>) and the
  handlers of \<open>/api/v1/config/mqtt\<close> in \<open>api_server.c\<close>. A character array is the C string that it
  holds, at most one character shorter than the array; in the packed record of the partition it may
  fill the array.
\<close>

section \<open>Configuration\<close>

definition MQTT_BROKER_URI_MAX :: nat where "MQTT_BROKER_URI_MAX = 256"
definition MQTT_USERNAME_MAX :: nat where "MQTT_USERNAME_MAX = 96"
definition MQTT_PASSWORD_MAX :: nat where "MQTT_PASSWORD_MAX = 160"
definition MQTT_BASE_TOPIC_MAX :: nat where "MQTT_BASE_TOPIC_MAX = 128"
definition MQTT_DISCOVERY_PREFIX_MAX :: nat where "MQTT_DISCOVERY_PREFIX_MAX = 64"
definition MQTT_DEFAULT_RECIPIENT_MAX :: nat where "MQTT_DEFAULT_RECIPIENT_MAX = 24"
definition MQTT_CA_PEM_MAX :: nat where "MQTT_CA_PEM_MAX = 3072"

lemmas field_sizes = MQTT_BROKER_URI_MAX_def MQTT_USERNAME_MAX_def MQTT_PASSWORD_MAX_def MQTT_BASE_TOPIC_MAX_def
  MQTT_DISCOVERY_PREFIX_MAX_def MQTT_DEFAULT_RECIPIENT_MAX_def MQTT_CA_PEM_MAX_def

record gateway_mqtt_config =
  mc_enabled :: bool
  mc_broker_uri :: string
  mc_username :: string
  mc_password :: string
  mc_base_topic :: string
  mc_home_assistant_enabled :: bool
  mc_discovery_prefix :: string
  mc_default_recipient :: string
  mc_ca_pem :: string

definition zero_config :: gateway_mqtt_config where
  "zero_config = \<lparr>mc_enabled = False, mc_broker_uri = [], mc_username = [], mc_password = [], mc_base_topic = [],
     mc_home_assistant_enabled = False, mc_discovery_prefix = [], mc_default_recipient = [], mc_ca_pem = []\<rparr>"

text \<open>\<open>e164_valid\<close> of \<open>mqtt_config.c\<close>, a second copy of the check in \<open>api_common.c\<close>.\<close>

fun e164_digits :: "bool \<Rightarrow> nat \<Rightarrow> string \<Rightarrow> nat option" where
  "e164_digits first digits [] = Some digits"
| "e164_digits first digits (c # cs) =
     (if \<not> isdigit c \<or> (first \<and> c = CHR ''0'') then None
      else if digits + 1 > 15 then None else e164_digits False (digits + 1) cs)"

definition e164_valid :: "string \<Rightarrow> bool" where
  "e164_valid v = (if cchar v 0 \<noteq> CHR ''+'' then False
     else (case e164_digits True 0 (drop 1 v) of None \<Rightarrow> False | Some digits \<Rightarrow> digits \<ge> 2))"

definition topic_char :: "char \<Rightarrow> bool" where
  "topic_char c \<longleftrightarrow> \<not> (code c < 0x21 \<or> code c > 0x7e \<or> c = CHR 0x23 \<or> c = CHR ''+'')"

definition topic_valid :: "string \<Rightarrow> nat \<Rightarrow> bool" where
  "topic_valid v max_len =
     (if length v = 0 \<or> length v \<ge> max_len \<or> hd v = CHR ''/'' \<or> last v = CHR ''/'' then False
      else list_all topic_char v)"

definition gateway_mqtt_uri_is_tls :: "string \<Rightarrow> bool" where
  "gateway_mqtt_uri_is_tls uri \<longleftrightarrow> has_prefix uri ''mqtts://''"

text \<open>\<open>strstr(s, t) != NULL\<close>\<close>

fun contains :: "string \<Rightarrow> string \<Rightarrow> bool" where
  "contains [] t = (t = [])"
| "contains (c # s) t = (has_prefix (c # s) t \<or> contains s t)"

definition gateway_mqtt_config_defaults :: "string option \<Rightarrow> gateway_mqtt_config" where
  "gateway_mqtt_config_defaults device_id =
     zero_config\<lparr>mc_home_assistant_enabled := True,
       mc_base_topic := take (MQTT_BASE_TOPIC_MAX - 1)
         (''sms-gateway/'' @ (case device_id of Some d \<Rightarrow> if d \<noteq> [] then d else ''gateway'' | None \<Rightarrow> ''gateway'')),
       mc_discovery_prefix := ''homeassistant''\<rparr>"

definition gateway_mqtt_config_validate :: "gateway_mqtt_config \<Rightarrow> esp_err" where
  "gateway_mqtt_config_validate c =
     (if \<not> topic_valid (mc_base_topic c) MQTT_BASE_TOPIC_MAX \<or> \<not> topic_valid (mc_discovery_prefix c) MQTT_DISCOVERY_PREFIX_MAX
      then ESP_ERR_INVALID_ARG
      else if mc_default_recipient c \<noteq> [] \<and> \<not> e164_valid (mc_default_recipient c) then ESP_ERR_INVALID_ARG
      else if \<not> mc_enabled c then ESP_OK
      else let mqtt = has_prefix (mc_broker_uri c) ''mqtt://''; mqtts = gateway_mqtt_uri_is_tls (mc_broker_uri c) in
           if (\<not> mqtt \<and> \<not> mqtts) \<or> CHR 0x40 \<in> set (mc_broker_uri c) \<or> CHR '' '' \<in> set (mc_broker_uri c) then ESP_ERR_INVALID_ARG
           else let host = drop (if mqtts then 8 else 7) (mc_broker_uri c) in
                if host = [] \<or> cchar host 0 = CHR ''/'' then ESP_ERR_INVALID_ARG
                else if \<not> mqtts \<and> mc_ca_pem c \<noteq> [] then ESP_ERR_INVALID_ARG
                else if mc_ca_pem c \<noteq> [] \<and> \<not> contains (mc_ca_pem c) ''-----BEGIN CERTIFICATE-----'' then ESP_ERR_INVALID_ARG
                else ESP_OK)"

section \<open>Storage\<close>

definition SETTINGS_MAGIC :: u32 where "SETTINGS_MAGIC = 0x4d515454"
definition SETTINGS_VERSION :: u16 where "SETTINGS_VERSION = 1"
definition MQTT_KEY :: string where "MQTT_KEY = ''mqtt_v1''"

record mqtt_record =
  rc_magic :: u32
  rc_version :: u16
  rc_enabled :: u8
  rc_ha_enabled :: u8
  rc_broker_uri :: string
  rc_username :: string
  rc_password :: string
  rc_base_topic :: string
  rc_discovery_prefix :: string
  rc_default_recipient :: string
  rc_ca_pem :: string

text \<open>\<open>sizeof(mqtt_record_t)\<close>, a packed structure.\<close>

definition sizeof_mqtt_record :: nat where
  "sizeof_mqtt_record = 4 + 2 + 1 + 1 + MQTT_BROKER_URI_MAX + MQTT_USERNAME_MAX + MQTT_PASSWORD_MAX + MQTT_BASE_TOPIC_MAX +
     MQTT_DISCOVERY_PREFIX_MAX + MQTT_DEFAULT_RECIPIENT_MAX + MQTT_CA_PEM_MAX"

definition record_to_config :: "mqtt_record \<Rightarrow> gateway_mqtt_config" where
  "record_to_config r =
     \<lparr>mc_enabled = (rc_enabled r \<noteq> 0), mc_broker_uri = take (MQTT_BROKER_URI_MAX - 1) (rc_broker_uri r),
      mc_username = take (MQTT_USERNAME_MAX - 1) (rc_username r), mc_password = take (MQTT_PASSWORD_MAX - 1) (rc_password r),
      mc_base_topic = take (MQTT_BASE_TOPIC_MAX - 1) (rc_base_topic r), mc_home_assistant_enabled = (rc_ha_enabled r \<noteq> 0),
      mc_discovery_prefix = take (MQTT_DISCOVERY_PREFIX_MAX - 1) (rc_discovery_prefix r),
      mc_default_recipient = take (MQTT_DEFAULT_RECIPIENT_MAX - 1) (rc_default_recipient r),
      mc_ca_pem = take (MQTT_CA_PEM_MAX - 1) (rc_ca_pem r)\<rparr>"

definition config_to_record :: "gateway_mqtt_config \<Rightarrow> mqtt_record" where
  "config_to_record c =
     \<lparr>rc_magic = SETTINGS_MAGIC, rc_version = SETTINGS_VERSION, rc_enabled = (if mc_enabled c then 1 else 0),
      rc_ha_enabled = (if mc_home_assistant_enabled c then 1 else 0), rc_broker_uri = mc_broker_uri c, rc_username = mc_username c,
      rc_password = mc_password c, rc_base_topic = mc_base_topic c, rc_discovery_prefix = mc_discovery_prefix c,
      rc_default_recipient = mc_default_recipient c, rc_ca_pem = mc_ca_pem c\<rparr>"

record 'n settings =
  ss_initialized :: bool
  ss_mutex :: bool
  ss_nvs :: 'n
  ss_config :: gateway_mqtt_config

text \<open>
  The part of the start after the record was read: the error and the configuration, which is zero
  when nothing valid was read. After an error the record is erased, if the partition allows it.
\<close>

definition load_config :: "esp_err + nat \<times> mqtt_record \<Rightarrow> esp_err \<times> gateway_mqtt_config" where
  "load_config blob =
     (case blob of
        Inr (len, record) \<Rightarrow>
          if len = sizeof_mqtt_record \<and> rc_magic record = SETTINGS_MAGIC \<and> rc_version record = SETTINGS_VERSION
          then (gateway_mqtt_config_validate (record_to_config record), record_to_config record)
          else (ESP_ERR_INVALID_VERSION, zero_config)
      | Inl e \<Rightarrow> (if e = ESP_ERR_NVS_NOT_FOUND then ESP_OK else e, zero_config))"

definition gateway_settings_init ::
    "('n, mqtt_record) nvs_ops \<Rightarrow> bool \<Rightarrow> esp_err \<times> 'n \<Rightarrow> bool \<Rightarrow> string option \<Rightarrow> 'n settings \<Rightarrow> esp_err \<times> 'n settings" where
  "gateway_settings_init ops mutex_created opened record_ok device_id st =
     (if ss_initialized st then (ESP_ERR_INVALID_STATE, st)
      else if \<not> mutex_created then (ESP_ERR_NO_MEM, st\<lparr>ss_mutex := False\<rparr>)
      else if fst opened \<noteq> ESP_OK then (fst opened, st\<lparr>ss_mutex := True\<rparr>)
      else if \<not> record_ok then (ESP_ERR_NO_MEM, st\<lparr>ss_mutex := True, ss_nvs := snd opened\<rparr>)
      else let (err, config) = load_config (nvs_get_blob ops (snd opened) MQTT_KEY);
               n = (if err \<noteq> ESP_OK then snd (nvs_commit ops (snd (nvs_erase_key ops MQTT_KEY (snd opened)))) else snd opened);
               config = (if err \<noteq> ESP_OK \<or> mc_base_topic config = [] then gateway_mqtt_config_defaults device_id else config)
           in (ESP_OK, st\<lparr>ss_mutex := True, ss_nvs := n, ss_config := config, ss_initialized := True\<rparr>))"

definition gateway_settings_get_mqtt :: "bool \<Rightarrow> 'n settings \<Rightarrow> esp_err + gateway_mqtt_config" where
  "gateway_settings_get_mqtt taken st =
     (if \<not> ss_initialized st \<or> \<not> ss_mutex st then Inl ESP_ERR_INVALID_STATE
      else if \<not> taken then Inl ESP_ERR_TIMEOUT else Inr (ss_config st))"

definition gateway_settings_set_mqtt ::
    "('n, mqtt_record) nvs_ops \<Rightarrow> bool \<Rightarrow> bool \<Rightarrow> gateway_mqtt_config \<Rightarrow> 'n settings \<Rightarrow> esp_err \<times> 'n settings" where
  "gateway_settings_set_mqtt ops record_ok taken config st =
     (if \<not> ss_initialized st \<or> \<not> ss_mutex st then (ESP_ERR_INVALID_STATE, st)
      else if gateway_mqtt_config_validate config \<noteq> ESP_OK then (gateway_mqtt_config_validate config, st)
      else if \<not> record_ok then (ESP_ERR_NO_MEM, st)
      else if \<not> taken then (ESP_ERR_TIMEOUT, st)
      else (case nvs_set_blob ops MQTT_KEY (sizeof_mqtt_record, config_to_record config) (ss_nvs st) of
              (e1, n1) \<Rightarrow>
                (case (if e1 = ESP_OK then nvs_commit ops n1 else (e1, n1)) of
                   (e, n2) \<Rightarrow> if e = ESP_OK then (e, st\<lparr>ss_nvs := n2, ss_config := config\<rparr>) else (e, st\<lparr>ss_nvs := n2\<rparr>))))"

text \<open>The part of the configuration that the worker of the MQTT service uses, \<open>config_view\<close>.\<close>

definition config_view_of :: "gateway_mqtt_config \<Rightarrow> mqtt_config_view" where
  "config_view_of c = \<lparr>cv_home_assistant_enabled = mc_home_assistant_enabled c, cv_base_topic = mc_base_topic c,
     cv_discovery_prefix = mc_discovery_prefix c, cv_default_recipient = mc_default_recipient c\<rparr>"

section \<open>The handlers\<close>

text \<open>The status of the client in the response, when \<open>mqtt_service_get_diagnostics\<close> gives it.\<close>

definition mqtt_config_json :: "(bool \<times> int) option \<Rightarrow> gateway_mqtt_config \<Rightarrow> (string \<times> json_value) list" where
  "mqtt_config_json status c =
     [(''enabled'', JBool (mc_enabled c)), (''broker_uri'', JString (mc_broker_uri c)), (''username'', JString (mc_username c)),
      (''password_set'', JBool (mc_password c \<noteq> [])), (''base_topic'', JString (mc_base_topic c)),
      (''home_assistant_enabled'', JBool (mc_home_assistant_enabled c)), (''discovery_prefix'', JString (mc_discovery_prefix c)),
      (''default_recipient'', json_string (mc_default_recipient c)), (''ca_configured'', JBool (mc_ca_pem c \<noteq> [])),
      (''tls'', JBool (gateway_mqtt_uri_is_tls (mc_broker_uri c)))] @
     (case status of
        None \<Rightarrow> []
      | Some (connected, last_error) \<Rightarrow> [(''connected'', JBool connected), (''last_mqtt_error'', JNumber last_error)])"

text \<open>The new value of a field, None when the item is not acceptable.\<close>

definition json_copy_optional_string :: "'j json_ops \<Rightarrow> 'j \<Rightarrow> string \<Rightarrow> nat \<Rightarrow> bool \<Rightarrow> string \<Rightarrow> string option" where
  "json_copy_optional_string js json name dst_size nullable dst =
     (case cJSON_GetObjectItemCaseSensitive js json name of
        None \<Rightarrow> Some dst
      | Some v \<Rightarrow>
          if nullable \<and> cJSON_IsNull js v then Some []
          else (case cJSON_string js v of
                  None \<Rightarrow> None
                | Some s \<Rightarrow> if length s \<ge> dst_size then None else Some s))"

definition json_copy_optional_bool :: "'j json_ops \<Rightarrow> 'j \<Rightarrow> string \<Rightarrow> bool \<Rightarrow> bool option" where
  "json_copy_optional_bool js json name dst =
     (case cJSON_GetObjectItemCaseSensitive js json name of None \<Rightarrow> Some dst | Some v \<Rightarrow> cJSON_bool js v)"

definition patched_config :: "'j json_ops \<Rightarrow> 'j \<Rightarrow> gateway_mqtt_config \<Rightarrow> gateway_mqtt_config option" where
  "patched_config js json c =
     Option.bind (json_copy_optional_bool js json ''enabled'' (mc_enabled c)) (\<lambda>enabled.
     Option.bind (json_copy_optional_string js json ''broker_uri'' MQTT_BROKER_URI_MAX False (mc_broker_uri c)) (\<lambda>broker_uri.
     Option.bind (json_copy_optional_string js json ''username'' MQTT_USERNAME_MAX False (mc_username c)) (\<lambda>username.
     Option.bind (json_copy_optional_string js json ''password'' MQTT_PASSWORD_MAX True (mc_password c)) (\<lambda>password.
     Option.bind (json_copy_optional_string js json ''base_topic'' MQTT_BASE_TOPIC_MAX False (mc_base_topic c)) (\<lambda>base_topic.
     Option.bind (json_copy_optional_bool js json ''home_assistant_enabled'' (mc_home_assistant_enabled c)) (\<lambda>ha.
     Option.bind (json_copy_optional_string js json ''discovery_prefix'' MQTT_DISCOVERY_PREFIX_MAX False (mc_discovery_prefix c)) (\<lambda>prefix.
     Option.bind (json_copy_optional_string js json ''default_recipient'' MQTT_DEFAULT_RECIPIENT_MAX True (mc_default_recipient c)) (\<lambda>recipient.
     Option.bind (json_copy_optional_string js json ''ca_pem'' MQTT_CA_PEM_MAX True (mc_ca_pem c)) (\<lambda>ca_pem.
       Some \<lparr>mc_enabled = enabled, mc_broker_uri = broker_uri, mc_username = username, mc_password = password, mc_base_topic = base_topic,
         mc_home_assistant_enabled = ha, mc_discovery_prefix = prefix, mc_default_recipient = recipient, mc_ca_pem = ca_pem\<rparr>)))))))))"

text \<open>A response: a problem, or the status and the document.\<close>

datatype config_reply = Config_Problem nat string | Config_Document nat "(string \<times> json_value) list" | Config_No_Memory | Config_Refused http_reply

record config_surroundings =
  cs_request :: surroundings
  cs_config_alloc :: bool
  cs_get_lock :: bool
  cs_record_alloc :: bool
  cs_set_lock :: bool
  cs_reconfigured :: esp_err
  cs_json_alloc :: bool
  cs_diag :: "(bool \<times> int) option"

definition mqtt_config_get_handler :: "config_surroundings \<Rightarrow> http_request \<Rightarrow> 'n settings \<Rightarrow> config_reply" where
  "mqtt_config_get_handler cs req st =
     (case authorized (cs_request cs) req of
        Some reply \<Rightarrow> Config_Refused reply
      | None \<Rightarrow>
     (case request_allowed (cs_request cs) False of
        Some reply \<Rightarrow> Config_Refused reply
      | None \<Rightarrow>
          if \<not> cs_config_alloc cs then Config_No_Memory
          else (case gateway_settings_get_mqtt (cs_get_lock cs) st of
                  Inl _ \<Rightarrow> Config_Problem 503 ''mqtt-config''
                | Inr config \<Rightarrow>
                    if \<not> cs_json_alloc cs then Config_No_Memory else Config_Document 200 (mqtt_config_json (cs_diag cs) config))))"

definition mqtt_config_patch_handler ::
    "('n, mqtt_record) nvs_ops \<Rightarrow> 'j json_ops \<Rightarrow> config_surroundings \<Rightarrow> http_request \<Rightarrow> 'n settings \<Rightarrow> config_reply \<times> 'n settings" where
  "mqtt_config_patch_handler ops js cs req st =
     (case authorized (cs_request cs) req of
        Some reply \<Rightarrow> (Config_Refused reply, st)
      | None \<Rightarrow>
     (case request_allowed (cs_request cs) False of
        Some reply \<Rightarrow> (Config_Refused reply, st)
      | None \<Rightarrow>
     (case read_body (cs_request cs) req of
        Inl _ \<Rightarrow> (Config_Problem 400 ''invalid-body'', st)
      | Inr body \<Rightarrow>
          let stored = (if cs_config_alloc cs then gateway_settings_get_mqtt (cs_get_lock cs) st else Inl ESP_ERR_NO_MEM);
              fields = [''enabled'', ''broker_uri'', ''username'', ''password'', ''base_topic'', ''home_assistant_enabled'',
                ''discovery_prefix'', ''default_recipient'', ''ca_pem''];
              next_config = (case (cJSON_Parse js body, stored) of
                 (Some json, Inr config) \<Rightarrow>
                   if json_has_only_fields js json fields
                   then Option.bind (patched_config js json config) (\<lambda>c. if gateway_mqtt_config_validate c = ESP_OK then Some c else None)
                   else None
               | _ \<Rightarrow> None)
          in (case next_config of
                None \<Rightarrow> (Config_Problem 400 ''invalid-mqtt-config'', st)
              | Some config \<Rightarrow>
                  (case gateway_settings_set_mqtt ops (cs_record_alloc cs) (cs_set_lock cs) config st of
                     (e, st1) \<Rightarrow>
                       if e \<noteq> ESP_OK \<or> cs_reconfigured cs \<noteq> ESP_OK then (Config_Problem 503 ''mqtt-reconfigure'', st1)
                       else if \<not> cs_json_alloc cs then (Config_No_Memory, st1)
                       else (Config_Document 200 (mqtt_config_json (cs_diag cs) config), st1))))))"

section \<open>Rules\<close>

text \<open>The two copies of the check for recipients agree.\<close>

lemma e164_digits_eq: "e164_digits first digits cs = e164_loop first digits cs"
  by (induction first digits cs rule: e164_digits.induct) auto

lemma e164_valid_eq: "e164_valid v = gateway_e164_valid (Some v)"
  by (simp add: e164_valid_def gateway_e164_valid_def e164_digits_eq)

text \<open>A configuration in the memory of the program: C strings that fit their arrays.\<close>

definition config_fits :: "gateway_mqtt_config \<Rightarrow> bool" where
  "config_fits c \<longleftrightarrow> length (mc_broker_uri c) < MQTT_BROKER_URI_MAX \<and> length (mc_username c) < MQTT_USERNAME_MAX \<and>
     length (mc_password c) < MQTT_PASSWORD_MAX \<and> length (mc_base_topic c) < MQTT_BASE_TOPIC_MAX \<and>
     length (mc_discovery_prefix c) < MQTT_DISCOVERY_PREFIX_MAX \<and> length (mc_default_recipient c) < MQTT_DEFAULT_RECIPIENT_MAX \<and>
     length (mc_ca_pem c) < MQTT_CA_PEM_MAX"

lemma config_record_roundtrip: "config_fits c \<Longrightarrow> record_to_config (config_to_record c) = c"
  by (cases c) (simp add: config_fits_def record_to_config_def config_to_record_def field_sizes)

lemma record_fits: "config_fits (record_to_config r)"
  by (simp add: config_fits_def record_to_config_def field_sizes min_less_iff_disj)

lemma valid_topics: "gateway_mqtt_config_validate c = ESP_OK \<Longrightarrow>
    topic_valid (mc_base_topic c) MQTT_BASE_TOPIC_MAX \<and> topic_valid (mc_discovery_prefix c) MQTT_DISCOVERY_PREFIX_MAX"
  by (auto simp: gateway_mqtt_config_validate_def split: if_splits)

lemma valid_base_topic: "gateway_mqtt_config_validate c = ESP_OK \<Longrightarrow> mc_base_topic c \<noteq> []"
  using valid_topics [of c] by (auto simp: topic_valid_def)

text \<open>What the names of devices are like.\<close>

definition device_name :: "string option \<Rightarrow> bool" where
  "device_name d = (case d of None \<Rightarrow> True | Some s \<Rightarrow> list_all topic_char s \<and> (s \<noteq> [] \<longrightarrow> last s \<noteq> CHR ''/'') \<and> length s \<le> 64)"

lemma default_topics:
  "list_all topic_char ''sms-gateway/''" "list_all topic_char ''gateway''" "topic_valid ''homeassistant'' MQTT_DISCOVERY_PREFIX_MAX"
  by (simp_all add: topic_char_def topic_valid_def field_sizes)

lemma defaults_valid:
  assumes "device_name d"
  shows "gateway_mqtt_config_validate (gateway_mqtt_config_defaults d) = ESP_OK \<and> config_fits (gateway_mqtt_config_defaults d)"
proof -
  define s where "s = (case d of Some s \<Rightarrow> if s \<noteq> [] then s else ''gateway'' | None \<Rightarrow> ''gateway'')"
  have s: "list_all topic_char s" "s \<noteq> []" "last s \<noteq> CHR ''/''" "length s \<le> 64"
    using assms default_topics(2) by (auto simp: s_def device_name_def split: option.splits)
  have b: "mc_base_topic (gateway_mqtt_config_defaults d) = ''sms-gateway/'' @ s"
    using s(4) by (simp add: gateway_mqtt_config_defaults_def s_def [symmetric] field_sizes)
  have "topic_valid (''sms-gateway/'' @ s) MQTT_BASE_TOPIC_MAX"
    using s default_topics(1) by (simp add: topic_valid_def field_sizes)
  moreover have "length (''sms-gateway/'' @ s) < MQTT_BASE_TOPIC_MAX" using s(4) by (simp add: field_sizes)
  ultimately show ?thesis
    using default_topics(3) unfolding gateway_mqtt_config_validate_def config_fits_def b
    by (simp add: gateway_mqtt_config_defaults_def zero_config_def field_sizes)
qed

section \<open>Storage is atomic\<close>

text \<open>The configuration that a start would load from a partition.\<close>

definition boot_config :: "('n, mqtt_record) nvs_ops \<Rightarrow> string option \<Rightarrow> 'n \<Rightarrow> gateway_mqtt_config" where
  "boot_config ops device_id n =
     (case load_config (nvs_get_blob ops n MQTT_KEY) of
        (err, config) \<Rightarrow> if err \<noteq> ESP_OK \<or> mc_base_topic config = [] then gateway_mqtt_config_defaults device_id else config)"

lemma init_config:
  assumes "gateway_settings_init ops mutex_created (ESP_OK, n) record_ok device_id st = (ESP_OK, st')"
  shows "ss_config st' = boot_config ops device_id n" "ss_initialized st'" "ss_mutex st'"
  using assms by (auto simp: gateway_settings_init_def boot_config_def Let_def split: if_splits prod.splits)

lemma load_stored:
  "config_fits c \<Longrightarrow> load_config (Inr (sizeof_mqtt_record, config_to_record c)) = (gateway_mqtt_config_validate c, c)"
  by (simp add: load_config_def config_record_roundtrip) (simp add: config_to_record_def)

lemma boot_stored:
  assumes "nvs_get_blob ops n MQTT_KEY = Inr (sizeof_mqtt_record, config_to_record c)" and "config_fits c"
    and "gateway_mqtt_config_validate c = ESP_OK"
  shows "boot_config ops device_id n = c"
  using assms valid_base_topic [OF assms(3)] by (simp add: boot_config_def load_stored)

lemma boot_cong: "nvs_get_blob ops n MQTT_KEY = nvs_get_blob ops n' MQTT_KEY \<Longrightarrow> boot_config ops d n = boot_config ops d n'"
  by (simp add: boot_config_def)

lemma boot_valid:
  assumes "device_name d"
  shows "gateway_mqtt_config_validate (boot_config ops d n) = ESP_OK \<and> config_fits (boot_config ops d n)"
  using defaults_valid [OF assms] record_fits
  by (auto simp: boot_config_def load_config_def zero_config_def split: sum.splits prod.splits if_splits)

lemma set_effect:
  assumes part: "nvs_partition ops" and "config_fits c" and run: "gateway_settings_set_mqtt ops a t c st = (e, st')"
  shows "if e = ESP_OK then ss_config st' = c \<and> boot_config ops d (ss_nvs st') = c \<and> gateway_mqtt_config_validate c = ESP_OK
    else ss_config st' = ss_config st \<and> boot_config ops d (ss_nvs st') \<in> {c, boot_config ops d (ss_nvs st)}"
proof (cases "ss_initialized st \<and> ss_mutex st \<and> gateway_mqtt_config_validate c = ESP_OK \<and> a \<and> t")
  case True
  obtain e1 n1 where w: "nvs_set_blob ops MQTT_KEY (sizeof_mqtt_record, config_to_record c) (ss_nvs st) = (e1, n1)" by fastforce
  obtain e2 n2 where k: "(if e1 = ESP_OK then nvs_commit ops n1 else (e1, n1)) = (e2, n2)" by fastforce
  have g: "nvs_get_blob ops n2 MQTT_KEY = nvs_get_blob ops n1 MQTT_KEY"
    using k nvs_partition.commit_blob [OF part] by (auto split: if_splits)
  have b: "boot_config ops d n2 \<in> {c, boot_config ops d (ss_nvs st)}"
    using nvs_partition.set_blob_failed [OF part w] g boot_stored [OF _ assms(2)] True boot_cong by (metis insert_iff)
  show ?thesis
  proof (cases "e2 = ESP_OK")
    case ok: True
    then have "e1 = ESP_OK" using k by (auto split: if_splits)
    then have "boot_config ops d n2 = c"
      using nvs_partition.set_blob_get [OF part] w g boot_stored [OF _ assms(2)] True by metis
    moreover have "e = ESP_OK" "st' = st\<lparr>ss_nvs := n2, ss_config := c\<rparr>"
      using run True w k ok by (simp_all add: gateway_settings_set_mqtt_def)
    ultimately show ?thesis using True by simp
  next
    case False
    then have "e = e2" "st' = st\<lparr>ss_nvs := n2\<rparr>" using run True w k by (simp_all add: gateway_settings_set_mqtt_def)
    then show ?thesis using b False by simp
  qed
next
  case False
  then show ?thesis using run by (auto simp: gateway_settings_set_mqtt_def split: if_splits)
qed

section \<open>The configuration is always valid\<close>

lemma copied_fits: "json_copy_optional_string js json name n nullable dst = Some s \<Longrightarrow> length dst < n \<Longrightarrow> 0 < n \<Longrightarrow> length s < n"
  by (auto simp: json_copy_optional_string_def split: option.splits if_splits)

lemma patched_fits:
  assumes "patched_config js json c = Some c'" and "config_fits c"
  shows "config_fits c'"
  using assms copied_fits unfolding config_fits_def patched_config_def bind_eq_Some_conv
  by (auto simp: field_sizes bind_eq_Some_conv)

text \<open>
  The states after a start, after changes through the API and after restarts, with any outcome of
  the locks, allocations and writes.
\<close>

inductive settings_run :: "('n, mqtt_record) nvs_ops \<Rightarrow> 'j json_ops \<Rightarrow> string option \<Rightarrow> 'n settings \<Rightarrow> bool"
  for ops :: "('n, mqtt_record) nvs_ops" and js :: "'j json_ops" and d :: "string option" where
  settings_boot: "\<not> ss_initialized st \<Longrightarrow> gateway_settings_init ops a (ESP_OK, n) b d st = (ESP_OK, st') \<Longrightarrow> settings_run ops js d st'"
| settings_set: "settings_run ops js d st \<Longrightarrow> config_fits c \<Longrightarrow> gateway_settings_set_mqtt ops a t c st = (e, st') \<Longrightarrow> settings_run ops js d st'"
| settings_patch: "settings_run ops js d st \<Longrightarrow> mqtt_config_patch_handler ops js cs req st = (reply, st') \<Longrightarrow> settings_run ops js d st'"

lemma set_valid:
  assumes "gateway_mqtt_config_validate (ss_config st) = ESP_OK \<and> config_fits (ss_config st)" and "config_fits c"
    and "gateway_settings_set_mqtt ops a t c st = (e, st')"
  shows "gateway_mqtt_config_validate (ss_config st') = ESP_OK \<and> config_fits (ss_config st')"
  using assms by (auto simp: gateway_settings_set_mqtt_def split: if_splits prod.splits)

lemma patch_cases:
  assumes "mqtt_config_patch_handler ops js cs req st = (reply, st')"
  obtains "st' = st"
  | json c c' e where "gateway_settings_get_mqtt (cs_get_lock cs) st = Inr c" "patched_config js json c = Some c'"
      "gateway_settings_set_mqtt ops (cs_record_alloc cs) (cs_set_lock cs) c' st = (e, st')"
  using assms
  by (auto simp: mqtt_config_patch_handler_def Let_def bind_eq_Some_conv split: option.splits sum.splits if_splits prod.splits)

lemma settings_run_valid:
  assumes "settings_run ops js d st" and "device_name d"
  shows "gateway_mqtt_config_validate (ss_config st) = ESP_OK \<and> config_fits (ss_config st)"
  using assms
proof (induction rule: settings_run.induct)
  case (settings_boot st a n b st')
  then show ?case using init_config(1) boot_valid by metis
next
  case (settings_set st c a t e st')
  then show ?case using set_valid by blast
next
  case (settings_patch st cs req reply st')
  from settings_patch.hyps(2) show ?case
  proof (cases rule: patch_cases)
    case 1
    then show ?thesis using settings_patch by simp
  next
    case (2 json c c' e)
    then have "c = ss_config st" by (auto simp: gateway_settings_get_mqtt_def split: if_splits)
    then show ?thesis using set_valid [OF _ patched_fits [OF 2(2)] 2(3)] settings_patch.IH settings_patch.prems by simp
  qed
qed

text \<open>
  The responses do not give away what is secret: they are the same for configurations that differ
  only in the password and the certificate, as long as these are set in both or in neither.
\<close>

lemma config_secrets_hidden:
  assumes "p = [] \<longleftrightarrow> mc_password c = []" and "ca = [] \<longleftrightarrow> mc_ca_pem c = []"
  shows "mqtt_config_json status (c\<lparr>mc_password := p, mc_ca_pem := ca\<rparr>) = mqtt_config_json status c"
  using assms by (simp add: mqtt_config_json_def)

section \<open>An example\<close>

definition demo_config :: gateway_mqtt_config where
  "demo_config = (gateway_mqtt_config_defaults (Some ''a1''))\<lparr>mc_enabled := True, mc_broker_uri := ''mqtt://broker'', mc_password := ''secret''\<rparr>"

definition blank_settings :: "mqtt_record flash settings" where
  "blank_settings = \<lparr>ss_initialized = False, ss_mutex = False, ss_nvs = \<lparr>fl_blobs = [], fl_u32s = [], fl_script = []\<rparr>, ss_config = zero_config\<rparr>"

lemma demo_config_ok: "gateway_mqtt_config_validate demo_config = ESP_OK" "config_fits demo_config"
proof -
  have d: "device_name (Some ''a1'')" by (simp add: device_name_def topic_char_def)
  have t: "topic_valid (mc_base_topic demo_config) MQTT_BASE_TOPIC_MAX" "topic_valid (mc_discovery_prefix demo_config) MQTT_DISCOVERY_PREFIX_MAX"
    using valid_topics defaults_valid [OF d] by (simp_all add: demo_config_def)
  have e: "mc_enabled demo_config" "mc_broker_uri demo_config = ''mqtt://broker''" "mc_default_recipient demo_config = []"
    "mc_ca_pem demo_config = []" by (simp_all add: demo_config_def gateway_mqtt_config_defaults_def zero_config_def)
  show "gateway_mqtt_config_validate demo_config = ESP_OK"
    by (simp add: gateway_mqtt_config_validate_def t e has_prefix_def gateway_mqtt_uri_is_tls_def cchar_def)
  show "config_fits demo_config" using defaults_valid [OF d] by (simp add: config_fits_def demo_config_def field_sizes)
qed

lemma blank_init:
  "\<exists>st'. gateway_settings_init flash_ops True (ESP_OK, n) True (Some ''a1'') blank_settings = (ESP_OK, st') \<and>
    (nvs_get_blob flash_ops n MQTT_KEY = Inl ESP_ERR_NVS_NOT_FOUND \<longrightarrow> ss_nvs st' = n)"
proof -
  have "\<not> ss_initialized blank_settings" by (simp add: blank_settings_def)
  then show ?thesis by (auto simp: gateway_settings_init_def Let_def load_config_def split: prod.splits)
qed

section \<open>Properties\<close>

text \<open>C31: A change of the MQTT configuration is durable and atomic. When \<open>gateway_settings_set_mqtt\<close>
  reports success, the running configuration and the one that every later start loads are the new one,
  field by field. When it reports an error (an invalid configuration, no memory, the lock, the
  partition), the running configuration is unchanged, and a later start loads the new one or the one
  it would have loaded before, never a mixture and never an invalid one.\<close>

theorem settings_durable:
  assumes "nvs_partition ops" and "config_fits c" and "device_name d"
    and "gateway_settings_set_mqtt ops record_ok taken c st = (e, st1)"
    and "\<not> ss_initialized st0" and "gateway_settings_init ops True (ESP_OK, ss_nvs st1) True d st0 = (ESP_OK, st2)"
  shows "(if e = ESP_OK then ss_config st1 = c \<and> ss_config st2 = c
      else ss_config st1 = ss_config st \<and> ss_config st2 \<in> {c, boot_config ops d (ss_nvs st)}) \<and>
    gateway_mqtt_config_validate (ss_config st2) = ESP_OK \<and> gateway_settings_get_mqtt True st2 = Inr (ss_config st2)"
  using set_effect [OF assms(1,2,4), of d] init_config [OF assms(6)] boot_valid [OF assms(3), of ops "ss_nvs st1"]
  by (auto simp: gateway_settings_get_mqtt_def)

theorem settings_durable_witness:
  "\<exists>st0 st1 st2. gateway_settings_init flash_ops True (ESP_OK, ss_nvs blank_settings) True (Some ''a1'') blank_settings = (ESP_OK, st0) \<and>
     gateway_settings_set_mqtt flash_ops True True demo_config st0 = (ESP_OK, st1) \<and>
     gateway_settings_init flash_ops True (ESP_OK, ss_nvs st1) True (Some ''a1'') blank_settings = (ESP_OK, st2) \<and>
     gateway_settings_get_mqtt True st2 = Inr demo_config"
proof -
  have b: "\<not> ss_initialized blank_settings" by (simp add: blank_settings_def)
  note i = blank_init
  obtain st0 where st0: "gateway_settings_init flash_ops True (ESP_OK, ss_nvs blank_settings) True (Some ''a1'') blank_settings = (ESP_OK, st0)"
    "ss_nvs st0 = ss_nvs blank_settings"
    using i [of "ss_nvs blank_settings"] by (auto simp: flash_ops_def found_def blank_settings_def)
  have "\<exists>st1. gateway_settings_set_mqtt flash_ops True True demo_config st0 = (ESP_OK, st1)"
    using init_config(2,3) [OF st0(1)] demo_config_ok(1) st0(2)
    by (simp add: gateway_settings_set_mqtt_def flash_ops_def scripted_def blank_settings_def)
  then obtain st1 where st1: "gateway_settings_set_mqtt flash_ops True True demo_config st0 = (ESP_OK, st1)" by blast
  obtain st2 where st2: "gateway_settings_init flash_ops True (ESP_OK, ss_nvs st1) True (Some ''a1'') blank_settings = (ESP_OK, st2)"
    using i by blast
  have d: "device_name (Some ''a1'')" by (simp add: device_name_def topic_char_def)
  from settings_durable [OF _ demo_config_ok(2) d st1 b st2] st0(1) st1 st2 show ?thesis
    by (auto simp: flash.nvs_partition_axioms)
qed

text \<open>C32: The running configuration is always usable. In every run of starts, changes and restarts, with
  any outcome of locks, allocations and writes and whatever a start found in the partition, the
  configuration that \<open>gateway_settings_get_mqtt\<close> returns satisfies the rules; its default recipient,
  if it has one, can be encoded as an address; and its topics fit the buffer, so that the worker
  recognises the commands that it subscribed to.\<close>

theorem running_config_usable:
  assumes "settings_run ops js d st" and "device_name d" and "gateway_settings_get_mqtt taken st = Inr c"
  shows "gateway_mqtt_config_validate c = ESP_OK \<and>
    (mc_default_recipient c \<noteq> [] \<longrightarrow> (\<exists>ds. address_validate (mc_default_recipient c) = Some (ds, True))) \<and>
    (let view = Some (config_view_of c); base = mc_base_topic c in
     command_kind view (base @ ''/sms/send'') = MQTT_COMMAND_SMS_SEND \<and>
     command_kind view (base @ ''/ha/notify'') = MQTT_COMMAND_NATIVE_NOTIFY \<and>
     command_kind view (base @ ''/modem/restart'') = MQTT_COMMAND_MODEM_RESTART \<and>
     command_kind view (base @ ''/system/reboot'') = MQTT_COMMAND_SYSTEM_REBOOT)"
proof -
  have c: "gateway_mqtt_config_validate c = ESP_OK" "config_fits c"
    using settings_run_valid [OF assms(1,2)] assms(3) by (auto simp: gateway_settings_get_mqtt_def split: if_splits)
  have "mc_default_recipient c \<noteq> [] \<Longrightarrow> e164_valid (mc_default_recipient c)"
    using c(1) by (auto simp: gateway_mqtt_config_validate_def split: if_splits)
  then have "mc_default_recipient c \<noteq> [] \<Longrightarrow> \<exists>ds. address_validate (mc_default_recipient c) = Some (ds, True)"
    using e164_address e164_valid_eq by simp
  moreover have "length (mc_base_topic c) < 128" using c(2) by (simp add: config_fits_def field_sizes)
  then have "mqtt_topic (Some (config_view_of c)) suffix = mc_base_topic c @ ''/'' @ suffix" if "length suffix \<le> 63" for suffix
    using that by (simp add: mqtt_topic_def config_view_of_def MQTT_TOPIC_MAX_def)
  then have "mqtt_topic (Some (config_view_of c)) ''sms/send'' = mc_base_topic c @ ''/sms/send''"
    "mqtt_topic (Some (config_view_of c)) ''ha/notify'' = mc_base_topic c @ ''/ha/notify''"
    "mqtt_topic (Some (config_view_of c)) ''modem/restart'' = mc_base_topic c @ ''/modem/restart''"
    "mqtt_topic (Some (config_view_of c)) ''system/reboot'' = mc_base_topic c @ ''/system/reboot''" by simp_all
  ultimately show ?thesis using c(1) by (simp add: command_kind_def Let_def)
qed

theorem running_config_usable_witness:
  "\<exists>st0 st1. gateway_settings_init flash_ops True (ESP_OK, ss_nvs blank_settings) True (Some ''a1'') blank_settings = (ESP_OK, st0) \<and>
     gateway_settings_set_mqtt flash_ops False True demo_config st0 = (ESP_ERR_NO_MEM, st1) \<and>
     gateway_mqtt_config_validate (ss_config st1) = ESP_OK"
proof -
  have b: "\<not> ss_initialized blank_settings" by (simp add: blank_settings_def)
  obtain st0 where st0: "gateway_settings_init flash_ops True (ESP_OK, ss_nvs blank_settings) True (Some ''a1'') blank_settings = (ESP_OK, st0)"
    using blank_init by blast
  note i = init_config(2,3) [OF st0]
  have st1: "gateway_settings_set_mqtt flash_ops False True demo_config st0 = (ESP_ERR_NO_MEM, st0)"
    using i demo_config_ok(1) by (simp add: gateway_settings_set_mqtt_def)
  have "settings_run flash_ops demo_json (Some ''a1'') st0"
    by (rule settings_set [OF settings_boot [OF b st0] demo_config_ok(2) st1])
  moreover have "device_name (Some ''a1'')" by (simp add: device_name_def topic_char_def)
  moreover have "gateway_settings_get_mqtt True st0 = Inr (ss_config st0)" using i by (simp add: gateway_settings_get_mqtt_def)
  ultimately show ?thesis using running_config_usable st0 st1 by blast
qed

end
