(* ===== verification/Gateway_Security.thy ===== *)
theory Gateway_Security
  imports Front_End_Runs
begin

text \<open>
  The bearer token of the management interface, \<open>gateway_security.c\<close>. Only the SHA-256 hash of the token is
  stored. The hash is computed by the PSA cryptography library, which is not part of the repository:
  it is the parameter \<open>psa\<close>, None when \<open>psa_crypto_init\<close> or \<open>psa_hash_compute\<close> fails. The random bytes of a
  generated token are an argument, as is the result of \<open>nvs_open\<close>. Wiping memory is not visible in the
  model, except where the wiped variable is part of the state or the result.
\<close>

section \<open>State and helpers\<close>

definition TOKEN_HASH_KEY :: string where "TOKEN_HASH_KEY = ''api_hash''"
definition GATEWAY_API_TOKEN_HEX_LEN :: nat where "GATEWAY_API_TOKEN_HEX_LEN = 64"

record 'n security =
  sec_token_hash :: "u8 list"
  sec_initialized :: bool
  sec_nvs :: 'n

definition security_reset :: "'n \<Rightarrow> 'n security" where
  "security_reset n = \<lparr>sec_token_hash = replicate GATEWAY_SHA256_LEN 0, sec_initialized = False, sec_nvs = n\<rparr>"

definition gateway_security_sha256 :: "(u8 list \<Rightarrow> u8 list option) \<Rightarrow> u8 list \<Rightarrow> esp_err + u8 list" where
  "gateway_security_sha256 psa data =
     (case psa data of
        None \<Rightarrow> Inl ESP_FAIL
      | Some hash \<Rightarrow> if length hash = GATEWAY_SHA256_LEN then Inr hash else Inl ESP_FAIL)"

definition constant_equal :: "u8 list \<Rightarrow> u8 list \<Rightarrow> nat \<Rightarrow> bool" where
  "constant_equal a b len = (fold (\<lambda>i diff. diff OR (a ! i XOR b ! i)) [0..<len] 0 = 0)"

definition token_hex_digit :: "u8 \<Rightarrow> char" where
  "token_hex_digit d = ''0123456789abcdef'' ! unat d"

text \<open>\<open>hex_encode\<close> of \<open>gateway_security.c\<close>.\<close>

definition token_hex :: "u8 list \<Rightarrow> string" where
  "token_hex src = concat (map (\<lambda>b. [token_hex_digit (drop_bit 4 b AND 0x0f), token_hex_digit (b AND 0x0f)]) src)"

text \<open>\<open>nvs_set_blob\<close> and \<open>nvs_commit\<close> of the hash.\<close>

definition store_digest :: "('n, u8 list) nvs_ops \<Rightarrow> u8 list \<Rightarrow> 'n \<Rightarrow> esp_err \<times> 'n" where
  "store_digest ops hash n =
     (case nvs_set_blob ops TOKEN_HASH_KEY (GATEWAY_SHA256_LEN, hash) n of
        (e, n1) \<Rightarrow> if e = ESP_OK then nvs_commit ops n1 else (e, n1))"

section \<open>Operations\<close>

text \<open>
  The error code, \<open>generated\<close>, the text in \<open>bootstrap_token\<close> and the state. \<open>bootstrap\<close> is the capacity of the
  buffer, None when the pointer is NULL.
\<close>

definition gateway_security_init ::
    "('n, u8 list) nvs_ops \<Rightarrow> (u8 list \<Rightarrow> u8 list option) \<Rightarrow> esp_err \<Rightarrow> nat option \<Rightarrow> u8 list \<Rightarrow> 'n security \<Rightarrow>
     esp_err \<times> bool \<times> string \<times> 'n security" where
  "gateway_security_init ops psa opened bootstrap random st =
     (if opened \<noteq> ESP_OK then (opened, False, [], st)
      else (case nvs_get_blob ops (sec_nvs st) TOKEN_HASH_KEY of
              Inr (len, bytes) \<Rightarrow>
                if len = GATEWAY_SHA256_LEN then (ESP_OK, False, [], st\<lparr>sec_token_hash := bytes, sec_initialized := True\<rparr>)
                else (ESP_ERR_INVALID_SIZE, False, [], st\<lparr>sec_token_hash := take len bytes @ drop len (sec_token_hash st)\<rparr>)
            | Inl e \<Rightarrow>
                if e \<noteq> ESP_ERR_NVS_NOT_FOUND then (e, False, [], st)
                else (case bootstrap of
                        None \<Rightarrow> (ESP_OK, False, [], st\<lparr>sec_initialized := True\<rparr>)
                      | Some capacity \<Rightarrow>
                          if capacity = 0 then (ESP_OK, False, [], st\<lparr>sec_initialized := True\<rparr>)
                          else if capacity < GATEWAY_API_TOKEN_HEX_LEN + 1 then (ESP_ERR_INVALID_SIZE, False, [], st)
                          else let token = token_hex random in
                               (case gateway_security_sha256 psa (map byte_of token) of
                                  Inl e \<Rightarrow> (e, False, [], st\<lparr>sec_token_hash := replicate GATEWAY_SHA256_LEN 0\<rparr>)
                                | Inr hash \<Rightarrow>
                                    (case store_digest ops hash (sec_nvs st) of
                                       (e, n) \<Rightarrow>
                                         if e \<noteq> ESP_OK
                                         then (e, False, [], st\<lparr>sec_token_hash := replicate GATEWAY_SHA256_LEN 0, sec_nvs := n\<rparr>)
                                         else (ESP_OK, True, token, st\<lparr>sec_token_hash := hash, sec_initialized := True, sec_nvs := n\<rparr>))))))"

definition token_length_ok :: "string \<Rightarrow> bool" where
  "token_length_ok token \<longleftrightarrow> \<not> (length token < 32 \<or> length token > 128)"

definition gateway_security_set_token ::
    "('n, u8 list) nvs_ops \<Rightarrow> (u8 list \<Rightarrow> u8 list option) \<Rightarrow> esp_err \<Rightarrow> string \<Rightarrow> 'n security \<Rightarrow> esp_err \<times> 'n security" where
  "gateway_security_set_token ops psa opened token st =
     (if \<not> token_length_ok token then (ESP_ERR_INVALID_ARG, st)
      else (case gateway_security_sha256 psa (map byte_of token) of
              Inl e \<Rightarrow> (e, st)
            | Inr hash \<Rightarrow>
                (case (if opened = ESP_OK then store_digest ops hash (sec_nvs st) else (opened, sec_nvs st)) of
                   (e, n) \<Rightarrow>
                     if e = ESP_OK then (ESP_OK, st\<lparr>sec_token_hash := hash, sec_nvs := n\<rparr>) else (e, st\<lparr>sec_nvs := n\<rparr>))))"

definition gateway_security_generate_token ::
    "('n, u8 list) nvs_ops \<Rightarrow> (u8 list \<Rightarrow> u8 list option) \<Rightarrow> esp_err \<Rightarrow> u8 list \<Rightarrow> nat \<Rightarrow> 'n security \<Rightarrow> esp_err \<times> string \<times> 'n security" where
  "gateway_security_generate_token ops psa opened random capacity st =
     (if capacity < GATEWAY_API_TOKEN_HEX_LEN + 1 then (ESP_ERR_INVALID_ARG, [], st)
      else (case gateway_security_set_token ops psa opened (token_hex random) st of
              (e, st1) \<Rightarrow> (e, if e \<noteq> ESP_OK then [] else token_hex random, st1)))"

definition gateway_security_has_token :: "'n security \<Rightarrow> bool" where
  "gateway_security_has_token st \<longleftrightarrow> sec_initialized st \<and> fold (\<lambda>i any. any OR sec_token_hash st ! i) [0..<GATEWAY_SHA256_LEN] 0 \<noteq> 0"

definition gateway_security_validate_bearer :: "(u8 list \<Rightarrow> u8 list option) \<Rightarrow> 'n security \<Rightarrow> string \<Rightarrow> bool" where
  "gateway_security_validate_bearer psa st token =
     (if \<not> sec_initialized st \<or> \<not> token_length_ok token then False
      else (case gateway_security_sha256 psa (map byte_of token) of
              Inl _ \<Rightarrow> False
            | Inr candidate \<Rightarrow> constant_equal candidate (sec_token_hash st) GATEWAY_SHA256_LEN))"

section \<open>Tokens\<close>

lemma constant_equal_32: "constant_equal a b GATEWAY_SHA256_LEN = equal32 a b"
  by (simp add: constant_equal_def equal32_def)

text \<open>A token has the hash \<open>d\<close>.\<close>

definition token_digest :: "(u8 list \<Rightarrow> u8 list option) \<Rightarrow> string \<Rightarrow> u8 list \<Rightarrow> bool" where
  "token_digest psa token d \<longleftrightarrow> token_length_ok token \<and> length d = GATEWAY_SHA256_LEN \<and> psa (map byte_of token) = Some d"

lemma sha256_Inr: "gateway_security_sha256 psa data = Inr d \<longleftrightarrow> psa data = Some d \<and> length d = GATEWAY_SHA256_LEN"
  by (auto simp: gateway_security_sha256_def split: option.splits if_splits)

lemma validate_iff:
  assumes "sec_initialized st" and "length (sec_token_hash st) = GATEWAY_SHA256_LEN"
  shows "gateway_security_validate_bearer psa st token \<longleftrightarrow> token_digest psa token (sec_token_hash st)"
  using assms equal32_iff [of _ "sec_token_hash st"]
  by (cases "psa (map byte_of token)")
    (auto simp: gateway_security_validate_bearer_def token_digest_def gateway_security_sha256_def constant_equal_32)

lemma sha_error: "gateway_security_sha256 psa data \<noteq> Inl ESP_OK"
  by (simp add: gateway_security_sha256_def split: option.splits)

text \<open>The hash that a start would load.\<close>

definition stored_digest :: "('n, u8 list) nvs_ops \<Rightarrow> 'n \<Rightarrow> esp_err + nat \<times> u8 list" where
  "stored_digest ops n = nvs_get_blob ops n TOKEN_HASH_KEY"

lemma store_digest_effect:
  assumes part: "nvs_partition ops" and run: "store_digest ops d n = (e, n')"
  shows "stored_digest ops n' \<in> {Inr (GATEWAY_SHA256_LEN, d), stored_digest ops n}"
    "e = ESP_OK \<Longrightarrow> stored_digest ops n' = Inr (GATEWAY_SHA256_LEN, d)"
proof -
  obtain e1 n1 where w: "nvs_set_blob ops TOKEN_HASH_KEY (GATEWAY_SHA256_LEN, d) n = (e1, n1)" by fastforce
  have g: "stored_digest ops n' = stored_digest ops n1"
    using run w nvs_partition.commit_blob [OF part] by (auto simp: store_digest_def stored_digest_def split: if_splits)
  then show "stored_digest ops n' \<in> {Inr (GATEWAY_SHA256_LEN, d), stored_digest ops n}"
    using nvs_partition.set_blob_failed [OF part w] by (auto simp: stored_digest_def)
  show "stored_digest ops n' = Inr (GATEWAY_SHA256_LEN, d)" if "e = ESP_OK"
  proof -
    have "e1 = ESP_OK" using run w that by (auto simp: store_digest_def split: if_splits)
    then show ?thesis using g nvs_partition.set_blob_get [OF part] w by (simp add: stored_digest_def)
  qed
qed

lemma set_token_effect:
  assumes part: "nvs_partition ops" and run: "gateway_security_set_token ops psa opened token st = (e, st')"
  shows "sec_initialized st' = sec_initialized st"
    and "if e = ESP_OK then token_digest psa token (sec_token_hash st') \<and> stored_digest ops (sec_nvs st') = Inr (GATEWAY_SHA256_LEN, sec_token_hash st')
      else sec_token_hash st' = sec_token_hash st \<and>
        (stored_digest ops (sec_nvs st') = stored_digest ops (sec_nvs st) \<or>
         (\<exists>d. token_digest psa token d \<and> stored_digest ops (sec_nvs st') = Inr (GATEWAY_SHA256_LEN, d)))"
proof -
  consider (refused) "st' = st" "e \<noteq> ESP_OK"
    | (written) d n where "token_digest psa token d" "store_digest ops d (sec_nvs st) = (e, n)"
        "st' = (if e = ESP_OK then st\<lparr>sec_token_hash := d, sec_nvs := n\<rparr> else st\<lparr>sec_nvs := n\<rparr>)"
  proof (cases "token_length_ok token \<and> (\<exists>d. gateway_security_sha256 psa (map byte_of token) = Inr d) \<and> opened = ESP_OK")
    case True
    then obtain d where d: "gateway_security_sha256 psa (map byte_of token) = Inr d" by blast
    obtain e1 n where w: "store_digest ops d (sec_nvs st) = (e1, n)" by fastforce
    have "e = e1" "st' = (if e = ESP_OK then st\<lparr>sec_token_hash := d, sec_nvs := n\<rparr> else st\<lparr>sec_nvs := n\<rparr>)"
      using run True d w by (auto simp: gateway_security_set_token_def split: if_splits)
    then show thesis using written [of d n] w d True by (simp add: token_digest_def sha256_Inr)
  next
    case False
    then show thesis using refused run sha_error [of psa "map byte_of token"]
      by (auto simp: gateway_security_set_token_def split: if_splits sum.splits)
  qed
  note cases = this
  then show "sec_initialized st' = sec_initialized st" by cases simp_all
  from cases show "if e = ESP_OK then token_digest psa token (sec_token_hash st') \<and> stored_digest ops (sec_nvs st') = Inr (GATEWAY_SHA256_LEN, sec_token_hash st')
      else sec_token_hash st' = sec_token_hash st \<and>
        (stored_digest ops (sec_nvs st') = stored_digest ops (sec_nvs st) \<or>
         (\<exists>d. token_digest psa token d \<and> stored_digest ops (sec_nvs st') = Inr (GATEWAY_SHA256_LEN, d)))"
  proof cases
    case refused
    then show ?thesis by simp
  next
    case written
    then show ?thesis using store_digest_effect [OF part written(2)] by auto
  qed
qed

lemma init_loads:
  assumes "stored_digest ops n = Inr (GATEWAY_SHA256_LEN, d)"
  shows "gateway_security_init ops psa ESP_OK bootstrap random (security_reset n) =
    (ESP_OK, False, [], \<lparr>sec_token_hash = d, sec_initialized = True, sec_nvs = n\<rparr>)"
  using assms by (simp add: gateway_security_init_def stored_digest_def security_reset_def)

text \<open>The generated token is long enough to be accepted, and its characters can be sent in a header.\<close>

lemma token_hex_length: "length (token_hex src) = 2 * length src"
  by (induction src) (simp_all add: token_hex_def)

lemma token_hex_digits: "set (token_hex src) \<subseteq> set ''0123456789abcdef''"
proof -
  have "token_hex_digit (w AND 0x0f) \<in> set ''0123456789abcdef''" for w :: u8
  proof -
    have "w AND 0x0f \<le> 0x0f" by (rule word_and_le1)
    then have "unat (w AND 0x0f) < length ''0123456789abcdef''" by (simp add: word_le_nat_alt)
    then show ?thesis unfolding token_hex_digit_def by (rule nth_mem)
  qed
  then show ?thesis unfolding token_hex_def by auto
qed

section \<open>Requests\<close>

lemma authorized_iff:
  "authorized su req = None \<longleftrightarrow>
    8 \<le> rq_header_len req ''Authorization'' \<and> rq_header_len req ''Authorization'' < API_AUTH_MAX \<and>
    (\<exists>token. rq_header req ''Authorization'' API_AUTH_MAX = Inr (''Bearer '' @ token) \<and> su_bearer su token)"
  by (auto simp: authorized_def Let_def not_less not_le has_prefix_iff split: sum.splits if_splits)

section \<open>An example\<close>

definition demo_psa :: "u8 list \<Rightarrow> u8 list option" where
  "demo_psa data = Some (take GATEWAY_SHA256_LEN (data @ replicate GATEWAY_SHA256_LEN 0))"

definition demo_token :: string where
  "demo_token = ''0123456789abcdef0123456789abcdef''"

definition fresh_security :: "u8 list flash security" where
  "fresh_security = (security_reset \<lparr>fl_blobs = [], fl_u32s = [], fl_script = []\<rparr>)\<lparr>sec_initialized := True\<rparr>"

definition demo_bearer :: http_request where
  "demo_bearer = demo_post\<lparr>rq_header_len := (\<lambda>_. 39), rq_header := (\<lambda>_ _. Inr (''Bearer '' @ demo_token))\<rparr>"

lemma demo_token_ok: "token_length_ok demo_token"
  by (simp add: token_length_ok_def demo_token_def)

lemma demo_set_token: "fst (gateway_security_set_token flash_ops demo_psa ESP_OK demo_token fresh_security) = ESP_OK"
  by (simp add: gateway_security_set_token_def demo_token_ok gateway_security_sha256_def demo_psa_def GATEWAY_SHA256_LEN_def store_digest_def
      flash_ops_def scripted_def fresh_security_def security_reset_def)

section \<open>Properties\<close>

text \<open>C36: The interface is protected by exactly the token that was set. When \<open>gateway_security_set_token\<close> reports success, a
  request is authorized, now and after every later start, exactly when its Authorization header is
  the bearer scheme followed by a text of 32 to 128 characters with the digest of the token: the token
  itself and, as far as SHA-256 has no collisions, nothing else. When it reports an error, the requests
  that are authorized do not change, and a later start accepts the texts that it would have accepted
  before or those with the digest of the new token.\<close>

theorem token_authenticates:
  assumes "nvs_partition ops" and "sec_initialized st" and "length (sec_token_hash st) = GATEWAY_SHA256_LEN"
    and "gateway_security_set_token ops psa opened token st = (e, st1)"
    and "gateway_security_init ops psa ESP_OK bootstrap random (security_reset (sec_nvs st1)) = (e2, generated, shown, st2)"
  shows "if e = ESP_OK then
      e2 = ESP_OK \<and> \<not> generated \<and>
      (\<forall>su req. \<forall>st' \<in> {st1, st2}. authorized (su\<lparr>su_bearer := gateway_security_validate_bearer psa st'\<rparr>) req = None \<longleftrightarrow>
         8 \<le> rq_header_len req ''Authorization'' \<and> rq_header_len req ''Authorization'' < API_AUTH_MAX \<and>
         (\<exists>t. rq_header req ''Authorization'' API_AUTH_MAX = Inr (''Bearer '' @ t) \<and> 32 \<le> length t \<and> length t \<le> 128 \<and>
              psa (map byte_of t) = psa (map byte_of token)))
    else gateway_security_validate_bearer psa st1 = gateway_security_validate_bearer psa st \<and>
      (stored_digest ops (sec_nvs st1) = stored_digest ops (sec_nvs st) \<or>
       (\<forall>t. gateway_security_validate_bearer psa st2 t \<longleftrightarrow>
          32 \<le> length t \<and> length t \<le> 128 \<and> psa (map byte_of t) = psa (map byte_of token)))"
proof -
  note set = set_token_effect [OF assms(1,4)]
  have loaded: "e2 = ESP_OK \<and> \<not> generated \<and> sec_initialized st2 \<and> sec_token_hash st2 = d"
    if "stored_digest ops (sec_nvs st1) = Inr (GATEWAY_SHA256_LEN, d)" for d
    using init_loads [OF that, of psa bootstrap random] assms(5) by auto
  have same: "gateway_security_validate_bearer psa s t \<longleftrightarrow> 32 \<le> length t \<and> length t \<le> 128 \<and> psa (map byte_of t) = psa (map byte_of token)"
    if "token_digest psa token (sec_token_hash s)" "sec_initialized s" for t and s :: "'a security"
    using validate_iff [OF that(2), of psa t] that(1) by (auto simp: token_digest_def token_length_ok_def)
  show ?thesis
  proof (cases "e = ESP_OK")
    case True
    then have t: "token_digest psa token (sec_token_hash st1)" "sec_initialized st1" using set assms(2) by simp_all
    have l: "e2 = ESP_OK" "\<not> generated" "sec_initialized st2" "sec_token_hash st2 = sec_token_hash st1"
      using loaded [of "sec_token_hash st1"] set(2) True by simp_all
    show ?thesis using True l t same [OF t] same [of st2] by (auto simp: authorized_iff)
  next
    case False
    then have h: "sec_token_hash st1 = sec_token_hash st" "sec_initialized st1" using set assms(2) by simp_all
    have "gateway_security_validate_bearer psa st1 = gateway_security_validate_bearer psa st"
      using h assms(2) by (simp add: gateway_security_validate_bearer_def fun_eq_iff split: sum.splits)
    then show ?thesis using False set(2) loaded same [of st2] by auto
  qed
qed

theorem token_authenticates_witness:
  "\<exists>st1. gateway_security_set_token flash_ops demo_psa ESP_OK demo_token fresh_security = (ESP_OK, st1) \<and>
     authorized (demo_surroundings\<lparr>su_bearer := gateway_security_validate_bearer demo_psa st1\<rparr>) demo_bearer = None"
proof -
  obtain st1 where s: "gateway_security_set_token flash_ops demo_psa ESP_OK demo_token fresh_security = (ESP_OK, st1)"
    using demo_set_token by (metis prod.collapse)
  obtain e2 generated shown st2 where i: "gateway_security_init flash_ops demo_psa ESP_OK None [] (security_reset (sec_nvs st1)) = (e2, generated, shown, st2)"
    by (cases "gateway_security_init flash_ops demo_psa ESP_OK None [] (security_reset (sec_nvs st1))") auto
  have f: "sec_initialized fresh_security" "length (sec_token_hash fresh_security) = GATEWAY_SHA256_LEN"
    by (simp_all add: fresh_security_def security_reset_def)
  have "8 \<le> rq_header_len demo_bearer ''Authorization''" "rq_header_len demo_bearer ''Authorization'' < API_AUTH_MAX"
    "rq_header demo_bearer ''Authorization'' API_AUTH_MAX = Inr (''Bearer '' @ demo_token)" "32 \<le> length demo_token" "length demo_token \<le> 128"
    by (simp_all add: demo_bearer_def API_AUTH_MAX_def demo_token_def)
  then show ?thesis using token_authenticates [OF flash.nvs_partition_axioms f s i] s by auto
qed

end
