(* ===== verification/Usb_Descriptor.thy ===== *)
theory Usb_Descriptor
  imports Gateway_Prelude "HOL-Library.Multiset"
begin

text \<open>
  The search for the serial interfaces of a modem in its USB configuration descriptor,
  \<open>usb_modem_descriptor.c\<close>, and the constants of \<open>huawei_mode_switch.c\<close>. The descriptor comes from
  the device, so every byte may have any value; reading outside of it is a \<open>Fault\<close>.
\<close>

section \<open>Candidates\<close>

definition USB_DESC_TYPE_INTERFACE :: u8 where "USB_DESC_TYPE_INTERFACE = 0x04"
definition USB_DESC_TYPE_ENDPOINT :: u8 where "USB_DESC_TYPE_ENDPOINT = 0x05"
definition USB_EP_XFER_TYPE_MASK :: u8 where "USB_EP_XFER_TYPE_MASK = 0x03"
definition USB_EP_XFER_BULK :: u8 where "USB_EP_XFER_BULK = 0x02"
definition USB_EP_XFER_INTERRUPT :: u8 where "USB_EP_XFER_INTERRUPT = 0x03"
definition USB_EP_DIR_IN :: u8 where "USB_EP_DIR_IN = 0x80"
definition USB_VENDOR_SPECIFIC_CLASS :: u8 where "USB_VENDOR_SPECIFIC_CLASS = 0xFF"

record modem_usb_candidate =
  uc_interface_number :: u8
  uc_interface_class :: u8
  uc_interface_subclass :: u8
  uc_interface_protocol :: u8
  uc_bulk_in_ep :: u8
  uc_bulk_out_ep :: u8
  uc_interrupt_in_ep :: u8
  uc_score :: u8

definition zero_candidate :: modem_usb_candidate where
  "zero_candidate = \<lparr>uc_interface_number = 0, uc_interface_class = 0, uc_interface_subclass = 0, uc_interface_protocol = 0,
     uc_bulk_in_ep = 0, uc_bulk_out_ep = 0, uc_interrupt_in_ep = 0, uc_score = 0\<rparr>"

definition candidate_score :: "modem_usb_candidate \<Rightarrow> u8" where
  "candidate_score c =
     (let score = 10;
          score = (if uc_interface_protocol c = 0x01 then score + 100
                   else if uc_interface_protocol c = 0x12 then score + 50 else score)
      in if uc_interrupt_in_ep c \<noteq> 0 then score + 10 else score)"

text \<open>
  The in-place insertion sort: the inner loop moves candidates of lower score one place up and
  gives the array and the place of the current one.
\<close>

fun candidate_shift :: "modem_usb_candidate list \<Rightarrow> modem_usb_candidate \<Rightarrow> nat \<Rightarrow> modem_usb_candidate list \<times> nat" where
  "candidate_shift cs current 0 = (cs, 0)"
| "candidate_shift cs current (Suc j) =
     (if uc_score (cs ! j) < uc_score current then candidate_shift (cs[Suc j := cs ! j]) current j else (cs, Suc j))"

definition candidate_step :: "nat \<Rightarrow> modem_usb_candidate list \<Rightarrow> modem_usb_candidate list" where
  "candidate_step i cs = (let current = cs ! i; (cs1, j) = candidate_shift cs current i in cs1[j := current])"

definition sort_candidates :: "modem_usb_candidate list \<Rightarrow> modem_usb_candidate list" where
  "sort_candidates cs = fold candidate_step [1..<length cs] cs"

text \<open>The array up to \<open>count\<close>.\<close>

definition add_candidate :: "nat \<Rightarrow> modem_usb_candidate \<Rightarrow> modem_usb_candidate list \<Rightarrow> modem_usb_candidate list" where
  "add_candidate max_candidates c cs =
     (if uc_interface_class c \<noteq> USB_VENDOR_SPECIFIC_CLASS \<or> uc_bulk_in_ep c = 0 \<or> uc_bulk_out_ep c = 0 \<or> length cs \<ge> max_candidates
      then cs else cs @ [c\<lparr>uc_score := candidate_score c\<rparr>])"

section \<open>The loop over the descriptors\<close>

record find_vars =
  fv_current :: modem_usb_candidate
  fv_collecting :: bool
  fv_candidates :: "modem_usb_candidate list"

definition endpoint_update :: "u8 \<Rightarrow> u8 \<Rightarrow> modem_usb_candidate \<Rightarrow> modem_usb_candidate" where
  "endpoint_update address attributes c =
     (let transfer_type = attributes AND USB_EP_XFER_TYPE_MASK; dir_in = (address AND USB_EP_DIR_IN \<noteq> 0) in
      if transfer_type = USB_EP_XFER_BULK then (if dir_in then c\<lparr>uc_bulk_in_ep := address\<rparr> else c\<lparr>uc_bulk_out_ep := address\<rparr>)
      else if transfer_type = USB_EP_XFER_INTERRUPT \<and> dir_in then c\<lparr>uc_interrupt_in_ep := address\<rparr> else c)"

definition interface_candidate :: "u8 \<Rightarrow> u8 \<Rightarrow> u8 \<Rightarrow> u8 \<Rightarrow> modem_usb_candidate" where
  "interface_candidate number class subclass protocol =
     zero_candidate\<lparr>uc_interface_number := number, uc_interface_class := class, uc_interface_subclass := subclass,
       uc_interface_protocol := protocol\<rparr>"

definition descriptor_step :: "u8 list \<Rightarrow> nat \<Rightarrow> nat \<Rightarrow> u8 \<Rightarrow> u8 \<Rightarrow> find_vars \<Rightarrow> (unit, find_vars) outcome" where
  "descriptor_step d max_candidates cursor len kind v =
     (if kind = USB_DESC_TYPE_INTERFACE \<and> len \<ge> 9 then
        let cs = (if fv_collecting v then add_candidate max_candidates (fv_current v) (fv_candidates v) else fv_candidates v) in
        and_then (aread d (cursor + 2)) (\<lambda>number.
        and_then (aread d (cursor + 3)) (\<lambda>alternate_setting.
        and_then (aread d (cursor + 5)) (\<lambda>class.
        and_then (aread d (cursor + 6)) (\<lambda>subclass.
        and_then (aread d (cursor + 7)) (\<lambda>protocol.
          Ret \<lparr>fv_current = interface_candidate number class subclass protocol,
               fv_collecting = (alternate_setting = 0 \<and> class = USB_VENDOR_SPECIFIC_CLASS), fv_candidates = cs\<rparr>)))))
      else if kind = USB_DESC_TYPE_ENDPOINT \<and> len \<ge> 7 \<and> fv_collecting v then
        and_then (aread d (cursor + 2)) (\<lambda>address.
        and_then (aread d (cursor + 3)) (\<lambda>attributes.
          Ret (v\<lparr>fv_current := endpoint_update address attributes (fv_current v)\<rparr>)))
      else Ret v)"

function find_loop :: "u8 list \<Rightarrow> nat \<Rightarrow> nat \<Rightarrow> find_vars \<Rightarrow> (unit, find_vars) outcome" where
  "find_loop d max_candidates cursor v =
     (if cursor + 2 \<le> length d then
        (case (aread d cursor :: (unit, u8) outcome, aread d (cursor + 1) :: (unit, u8) outcome) of
           (Ret len, Ret kind) \<Rightarrow>
             if len < 2 \<or> cursor + unat len > length d then Ret v
             else (case descriptor_step d max_candidates cursor len kind v of
                     Ret v1 \<Rightarrow> find_loop d max_candidates (cursor + unat len) v1
                   | Err e \<Rightarrow> Err e
                   | Fault \<Rightarrow> Fault)
         | _ \<Rightarrow> Fault)
      else Ret v)"
  by pat_completeness auto

termination
proof (relation "measure (\<lambda>(d, m, cursor, v). length d - cursor)", goal_cases)
  case (2 d m cursor v x xa len kind v1)
  then have "2 \<le> len" by (simp add: not_less)
  then have "0 < unat len" by (simp add: word_le_nat_alt)
  then show ?case using 2 by auto
qed simp

declare find_loop.simps [simp del]

text \<open>The candidates; the arguments are not NULL.\<close>

definition modem_usb_find_serial_candidates :: "u8 list \<Rightarrow> nat \<Rightarrow> (unit, modem_usb_candidate list) outcome" where
  "modem_usb_find_serial_candidates d max_candidates =
     (if max_candidates = 0 then Ret []
      else and_then (find_loop d max_candidates 0 \<lparr>fv_current = zero_candidate, fv_collecting = False, fv_candidates = []\<rparr>) (\<lambda>v.
        Ret (sort_candidates (if fv_collecting v then add_candidate max_candidates (fv_current v) (fv_candidates v) else fv_candidates v))))"

section \<open>Mode switch\<close>

definition huawei_mode_switch_pid_supported :: "u16 \<Rightarrow> u16 \<Rightarrow> bool" where
  "huawei_mode_switch_pid_supported pid extra_pid \<longleftrightarrow>
     pid = 0x1446 \<or> pid = 0x14FE \<or> pid = 0x1F01 \<or> (extra_pid \<noteq> 0 \<and> pid = extra_pid)"

definition huawei_modem_pid_supported :: "u16 \<Rightarrow> u16 \<Rightarrow> bool" where
  "huawei_modem_pid_supported pid configured_pid \<longleftrightarrow> pid = configured_pid \<or> pid = 0x1506 \<or> pid = 0x1442"

definition huawei_mode_switch_message :: "nat \<Rightarrow> u8 list option" where
  "huawei_mode_switch_message capacity =
     (let message = [0x55, 0x53, 0x42, 0x43, 0x12, 0x34, 0x56, 0x78, 0x00, 0x00, 0x00, 0x00, 0x00, 0x00, 0x00, 0x11,
        0x06, 0x20, 0x00, 0x00, 0x01, 0x01, 0x00, 0x01, 0x00, 0x00, 0x00, 0x00, 0x00, 0x00, 0x00] in
      if capacity < length message then None else Some message)"

section \<open>Sorting\<close>

text \<open>The insertion into the part that is sorted already, last place first.\<close>

fun ins_score :: "modem_usb_candidate \<Rightarrow> modem_usb_candidate list \<Rightarrow> modem_usb_candidate list" where
  "ins_score c [] = [c]"
| "ins_score c (x # xs) = (if uc_score x < uc_score c then x # ins_score c xs else c # x # xs)"

lemma mset_ins_score [simp]: "mset (ins_score c xs) = add_mset c (mset xs)"
  by (induction xs) auto

lemma set_ins_score [simp]: "set (ins_score c xs) = insert c (set xs)"
  by (induction xs) auto

lemma sorted_ins_score:
  "sorted_wrt (\<lambda>a b. uc_score a \<le> uc_score b) xs \<Longrightarrow> sorted_wrt (\<lambda>a b. uc_score a \<le> uc_score b) (ins_score c xs)"
  by (induction xs) auto

lemma filter_ins_score: "filter (\<lambda>x. uc_score x = k) (ins_score c xs) = filter (\<lambda>x. uc_score x = k) (c # xs)"
  by (induction xs) auto

lemma candidate_shift_ins:
  assumes "candidate_shift (xs @ y # ys) c (length xs) = (cs, k)"
  shows "cs[k := c] = rev (ins_score c (rev xs)) @ ys"
  using assms
proof (induction xs arbitrary: y ys rule: rev_induct)
  case Nil
  then show ?case by auto
next
  case (snoc x xs)
  show ?case
  proof (cases "uc_score x < uc_score c")
    case True
    then have "candidate_shift (xs @ x # x # ys) c (length xs) = (cs, k)"
      using snoc.prems by (simp add: nth_append list_update_append)
    from snoc.IH [OF this] True show ?thesis by simp
  next
    case False
    with snoc.prems show ?thesis by (auto simp: nth_append list_update_append)
  qed
qed

lemma candidate_step_ins: "candidate_step (length xs) (xs @ c # ys) = rev (ins_score c (rev xs)) @ ys"
proof -
  obtain cs k where s: "candidate_shift (xs @ c # ys) c (length xs) = (cs, k)" by fastforce
  from candidate_shift_ins [OF this] s show ?thesis by (simp add: candidate_step_def)
qed

text \<open>The prefix that is sorted: a permutation that keeps the order of equal scores.\<close>

definition ranked :: "modem_usb_candidate list \<Rightarrow> modem_usb_candidate list \<Rightarrow> bool" where
  "ranked xs ys \<longleftrightarrow> mset ys = mset xs \<and> sorted_wrt (\<lambda>a b. uc_score a \<ge> uc_score b) ys \<and>
     (\<forall>k. filter (\<lambda>x. uc_score x = k) ys = filter (\<lambda>x. uc_score x = k) xs)"

lemma ranked_insert:
  assumes "ranked xs ys"
  shows "ranked (xs @ [c]) (rev (ins_score c (rev ys)))"
proof -
  have "sorted_wrt (\<lambda>a b. uc_score a \<le> uc_score b) (rev ys)" using assms by (simp add: ranked_def sorted_wrt_rev)
  from sorted_ins_score [OF this] have "sorted_wrt (\<lambda>a b. uc_score a \<ge> uc_score b) (rev (ins_score c (rev ys)))"
    by (simp add: sorted_wrt_rev)
  moreover have "filter (\<lambda>x. uc_score x = k) (rev (ins_score c (rev ys))) = filter (\<lambda>x. uc_score x = k) (xs @ [c])" for k
    using assms by (simp add: ranked_def filter_ins_score flip: rev_filter)
  ultimately show ?thesis using assms by (simp add: ranked_def)
qed

lemma sort_candidates_fold:
  assumes "1 \<le> n" and "n \<le> length cs"
  shows "\<exists>ss. fold candidate_step [1..<n] cs = ss @ drop n cs \<and> ranked (take n cs) ss"
  using assms
proof (induction n rule: dec_induct)
  case base
  then show ?case by (cases cs) (auto simp: ranked_def)
next
  case (step n)
  then obtain ss where ss: "fold candidate_step [1..<n] cs = ss @ drop n cs" "ranked (take n cs) ss" by auto
  have len: "length ss = n" using ss(2) step by (metis ranked_def length_take min.absorb2 size_mset Suc_leD)
  have d: "drop n cs = cs ! n # drop (Suc n) cs" using step by (simp add: Cons_nth_drop_Suc)
  have "fold candidate_step [1..<Suc n] cs = rev (ins_score (cs ! n) (rev ss)) @ drop (Suc n) cs"
    using step ss(1) d candidate_step_ins [of ss "cs ! n" "drop (Suc n) cs"] len by simp
  moreover have "take (Suc n) cs = take n cs @ [cs ! n]" using step by (simp add: take_Suc_conv_app_nth)
  ultimately show ?case using ranked_insert [OF ss(2), of "cs ! n"] by auto
qed

lemma sort_candidates_ranked: "ranked cs (sort_candidates cs)"
proof (cases cs)
  case Nil
  then show ?thesis by (simp add: sort_candidates_def ranked_def)
next
  case (Cons c cs')
  then show ?thesis using sort_candidates_fold [of "length cs" cs] by (auto simp: sort_candidates_def)
qed

section \<open>What is found\<close>

text \<open>
  The descriptors that follow one another in the buffer, up to the first one that is too short or
  does not fit.
\<close>

function blocks :: "u8 list \<Rightarrow> u8 list list" where
  "blocks d =
     (if 2 \<le> length d \<and> 2 \<le> hd d \<and> unat (hd d) \<le> length d
      then take (unat (hd d)) d # blocks (drop (unat (hd d)) d) else [])"
  by pat_completeness auto

termination
proof (relation "measure length", goal_cases)
  case (2 d)
  then have "2 \<le> unat (hd d)" "2 \<le> length d" by (auto simp: word_le_nat_alt)
  then show ?case by simp
qed simp

declare blocks.simps [simp del]

definition is_interface :: "u8 list \<Rightarrow> bool" where
  "is_interface b \<longleftrightarrow> 9 \<le> length b \<and> b ! 1 = USB_DESC_TYPE_INTERFACE"

definition is_endpoint :: "u8 list \<Rightarrow> bool" where
  "is_endpoint b \<longleftrightarrow> 7 \<le> length b \<and> b ! 1 = USB_DESC_TYPE_ENDPOINT"

definition interface_of :: "u8 list \<Rightarrow> modem_usb_candidate" where
  "interface_of b = interface_candidate (b ! 2) (b ! 5) (b ! 6) (b ! 7)"

definition with_endpoint :: "u8 list \<Rightarrow> modem_usb_candidate \<Rightarrow> modem_usb_candidate" where
  "with_endpoint b c = (if is_endpoint b then endpoint_update (b ! 2) (b ! 3) c else c)"

definition usable :: "modem_usb_candidate \<Rightarrow> modem_usb_candidate list" where
  "usable c = (if uc_bulk_in_ep c \<noteq> 0 \<and> uc_bulk_out_ep c \<noteq> 0 then [c\<lparr>uc_score := candidate_score c\<rparr>] else [])"

text \<open>
  The specification: the vendor-specific interfaces with alternate setting 0 in the order of the
  descriptor, each with the endpoints up to the next interface, that have a bulk endpoint in both
  directions.
\<close>

fun serial_interfaces :: "u8 list list \<Rightarrow> modem_usb_candidate list" where
  "serial_interfaces [] = []"
| "serial_interfaces (b # bs) =
     (if is_interface b \<and> b ! 3 = 0 \<and> b ! 5 = USB_VENDOR_SPECIFIC_CLASS
      then usable (fold with_endpoint (takeWhile (\<lambda>x. \<not> is_interface x) bs) (interface_of b)) else []) @
     serial_interfaces bs"

definition block_step :: "nat \<Rightarrow> u8 list \<Rightarrow> find_vars \<Rightarrow> find_vars" where
  "block_step max_candidates b v =
     (if is_interface b
      then \<lparr>fv_current = interface_of b, fv_collecting = (b ! 3 = 0 \<and> b ! 5 = USB_VENDOR_SPECIFIC_CLASS),
            fv_candidates = (if fv_collecting v then add_candidate max_candidates (fv_current v) (fv_candidates v) else fv_candidates v)\<rparr>
      else if fv_collecting v then v\<lparr>fv_current := with_endpoint b (fv_current v)\<rparr> else v)"

lemma descriptor_step_block:
  assumes "cursor + unat len \<le> length d" and "2 \<le> len"
  shows "descriptor_step d max_candidates cursor len (d ! (cursor + 1)) v =
    Ret (block_step max_candidates (take (unat len) (drop cursor d)) v)"
proof -
  define b where "b = take (unat len) (drop cursor d)"
  let ?r = "\<lambda>k. aread d (cursor + k) :: (unit, u8) outcome"
  have len: "length b = unat len" using assms(1) by (simp add: b_def)
  have nth: "b ! k = d ! (cursor + k)" "?r k = Ret (b ! k)" if "k < length b" for k
    using that assms(1) by (simp_all add: aread_def b_def)
  have "2 \<le> length b" using assms(2) by (simp add: word_le_nat_alt len)
  then have one: "d ! (cursor + 1) = b ! 1" using nth(1) [of 1] by simp
  have c: "9 \<le> len \<longleftrightarrow> 9 \<le> length b" "7 \<le> len \<longleftrightarrow> 7 \<le> length b" by (simp_all add: word_le_nat_alt len)
  have "descriptor_step d max_candidates cursor len (b ! 1) v = Ret (block_step max_candidates b v)"
  proof (cases "is_interface b")
    case True
    then have l: "9 \<le> length b" and "b ! 1 = USB_DESC_TYPE_INTERFACE" by (simp_all add: is_interface_def)
    moreover have "?r 2 = Ret (b ! 2)" "?r 3 = Ret (b ! 3)" "?r 5 = Ret (b ! 5)" "?r 6 = Ret (b ! 6)" "?r 7 = Ret (b ! 7)"
      using l by (intro nth(2); linarith)+
    ultimately show ?thesis using True unfolding descriptor_step_def block_step_def interface_of_def c Let_def by simp
  next
    case i: False
    have kinds: "USB_DESC_TYPE_ENDPOINT \<noteq> USB_DESC_TYPE_INTERFACE"
      by (simp add: USB_DESC_TYPE_INTERFACE_def USB_DESC_TYPE_ENDPOINT_def)
    show ?thesis
    proof (cases "is_endpoint b")
      case True
      then have l: "7 \<le> length b" and "b ! 1 = USB_DESC_TYPE_ENDPOINT" by (simp_all add: is_endpoint_def)
      moreover have "?r 2 = Ret (b ! 2)" "?r 3 = Ret (b ! 3)" using l by (intro nth(2); linarith)+
      ultimately show ?thesis using True i kinds unfolding descriptor_step_def block_step_def with_endpoint_def c by simp
    next
      case False
      with i show ?thesis unfolding descriptor_step_def block_step_def with_endpoint_def c is_interface_def is_endpoint_def by auto
    qed
  qed
  then show ?thesis unfolding one b_def .
qed

lemma find_loop_blocks: "find_loop d max_candidates cursor v = Ret (fold (block_step max_candidates) (blocks (drop cursor d)) v)"
proof (induction d max_candidates cursor v rule: find_loop.induct)
  case (1 d max_candidates cursor v)
  show ?case
  proof (cases "cursor + 2 \<le> length d")
    case False
    then have "\<not> 2 \<le> length (drop cursor d)" by (simp add: not_le)
    with False show ?thesis by (simp add: find_loop.simps [of d max_candidates cursor v] blocks.simps [of "drop cursor d"])
  next
    case True
    let ?len = "d ! cursor" and ?kind = "d ! (cursor + 1)"
    have r: "aread d cursor = (Ret ?len :: (unit, u8) outcome)" "aread d (cursor + 1) = (Ret ?kind :: (unit, u8) outcome)"
      using True by (simp_all add: aread_def)
    have h: "hd (drop cursor d) = ?len" using True by (simp add: hd_drop_conv_nth)
    show ?thesis
    proof (cases "?len < 2 \<or> cursor + unat ?len > length d")
      case stop: True
      then have "find_loop d max_candidates cursor v = Ret v" using True r
        unfolding find_loop.simps [of d max_candidates cursor v] by simp
      moreover have "blocks (drop cursor d) = []" using stop h by (auto simp: blocks.simps [of "drop cursor d"])
      ultimately show ?thesis by simp
    next
      case False
      then have s: "cursor + unat ?len \<le> length d" "2 \<le> ?len" by (simp_all add: not_less)
      note b = descriptor_step_block [OF s, of max_candidates v]
      have "blocks (drop cursor d) = take (unat ?len) (drop cursor d) # blocks (drop (cursor + unat ?len) d)"
        using True s h by (subst blocks.simps) (simp add: add.commute, linarith)
      then show ?thesis using 1 [OF True _ r(1) r(2) False b] True False r b
        by (simp add: find_loop.simps [of d max_candidates cursor v])
    qed
  qed
qed

definition finish :: "nat \<Rightarrow> find_vars \<Rightarrow> modem_usb_candidate list" where
  "finish max_candidates v = (if fv_collecting v then add_candidate max_candidates (fv_current v) (fv_candidates v) else fv_candidates v)"

definition open_interface :: "find_vars \<Rightarrow> u8 list list \<Rightarrow> modem_usb_candidate list" where
  "open_interface v bs = (if fv_collecting v then usable (fold with_endpoint (takeWhile (\<lambda>x. \<not> is_interface x) bs) (fv_current v)) else [])"

definition collecting_ok :: "nat \<Rightarrow> find_vars \<Rightarrow> bool" where
  "collecting_ok max_candidates v \<longleftrightarrow> length (fv_candidates v) \<le> max_candidates \<and>
     (fv_collecting v \<longrightarrow> uc_interface_class (fv_current v) = USB_VENDOR_SPECIFIC_CLASS)"

lemma class_with_endpoint [simp]: "uc_interface_class (with_endpoint b c) = uc_interface_class c"
  by (simp add: with_endpoint_def endpoint_update_def Let_def)

lemma finish_take:
  assumes "collecting_ok max_candidates v"
  shows "finish max_candidates v = take max_candidates (fv_candidates v @ (if fv_collecting v then usable (fv_current v) else []))"
  using assms by (auto simp: finish_def add_candidate_def usable_def collecting_ok_def take_Cons')

lemma take_take_append: "take n (take n xs @ ys) = take n (xs @ ys)"
  by (cases "length xs \<le> n") (auto simp: min_def)

lemma fold_blocks:
  assumes "collecting_ok max_candidates v"
  shows "finish max_candidates (fold (block_step max_candidates) bs v) =
    take max_candidates (fv_candidates v @ open_interface v bs @ serial_interfaces bs)"
  using assms
proof (induction bs arbitrary: v)
  case Nil
  then show ?case using finish_take by (simp add: open_interface_def)
next
  case (Cons b bs)
  let ?v = "block_step max_candidates b v"
  show ?case
  proof (cases "is_interface b")
    case True
    have cands: "fv_candidates ?v = finish max_candidates v" using True by (simp add: block_step_def finish_def)
    have ok: "collecting_ok max_candidates ?v"
      using True Cons.prems finish_take [OF Cons.prems]
      by (auto simp: collecting_ok_def block_step_def interface_of_def interface_candidate_def zero_candidate_def add_candidate_def)
    have rest: "open_interface ?v bs @ serial_interfaces bs = serial_interfaces (b # bs)"
      using True by (simp add: open_interface_def block_step_def)
    have now: "(if fv_collecting v then usable (fv_current v) else []) = open_interface v (b # bs)"
      using True by (simp add: open_interface_def)
    have "finish max_candidates (fold (block_step max_candidates) (b # bs) v) =
        take max_candidates (take max_candidates (fv_candidates v @ open_interface v (b # bs)) @ serial_interfaces (b # bs))"
      unfolding fold_simps o_apply Cons.IH [OF ok] rest cands finish_take [OF Cons.prems] now ..
    then show ?thesis unfolding take_take_append append_assoc .
  next
    case False
    have ok: "collecting_ok max_candidates ?v" using False Cons.prems by (simp add: collecting_ok_def block_step_def)
    have "open_interface ?v bs = open_interface v (b # bs)" "fv_candidates ?v = fv_candidates v"
      using False by (simp_all add: open_interface_def block_step_def)
    then show ?thesis using Cons.IH [OF ok] False by simp
  qed
qed

section \<open>Properties\<close>

text \<open>C33: The parser of the USB configuration descriptor is safe and correct for every sequence of bytes
  that a device may send: it never reads outside of the buffer, it ends, and it returns the first
  \<open>max_candidates\<close> usable serial interfaces of the specification (vendor-specific, alternate setting 0,
  a bulk endpoint in both directions), ordered by descending score, equal scores in the order of the
  descriptor.\<close>

theorem serial_candidates_correct:
  "\<exists>cs. modem_usb_find_serial_candidates d max_candidates = Ret cs \<and> ranked (take max_candidates (serial_interfaces (blocks d))) cs"
proof (cases "max_candidates = 0")
  case True
  then show ?thesis by (simp add: modem_usb_find_serial_candidates_def ranked_def)
next
  case False
  let ?v = "\<lparr>fv_current = zero_candidate, fv_collecting = False, fv_candidates = []\<rparr>"
  have "collecting_ok max_candidates ?v" by (simp add: collecting_ok_def)
  from fold_blocks [OF this, of "blocks d"]
  have "finish max_candidates (fold (block_step max_candidates) (blocks d) ?v) = take max_candidates (serial_interfaces (blocks d))"
    by (simp add: open_interface_def)
  then show ?thesis
    using False sort_candidates_ranked [of "take max_candidates (serial_interfaces (blocks d))"] find_loop_blocks [of d max_candidates 0 ?v]
    by (simp add: modem_usb_find_serial_candidates_def finish_def)
qed

end
