(* ===== verification/Board_Power.thy ===== *)
theory Board_Power
  imports Nvs
begin

text \<open>
  The supply of the modem, \<open>gateway_board.c\<close>: the two switched paths to the USB socket, the
  over-current latch and the task that watches the fault signal. The GPIO driver is not part of
  the repository: \<open>gp_script\<close> lists what its calls return (all succeed when it is used up), and a call
  that fails leaves the level of the pin as it was. The configuration of the build (the path that
  supplies the socket, the tick rate) is a parameter. Log output, buttons and LEDs are left out,
  except for the calls that can make \<open>gateway_board_init\<close> fail.
\<close>

section \<open>GPIO\<close>

record gpio =
  gp_level :: "nat \<Rightarrow> bool"
  gp_script :: "esp_err list"

definition gpio_call :: "(gpio \<Rightarrow> gpio) \<Rightarrow> gpio \<Rightarrow> esp_err \<times> gpio" where
  "gpio_call f g =
     (case gp_script g of
        [] \<Rightarrow> (ESP_OK, f g)
      | e # es \<Rightarrow> (e, if e = ESP_OK then f (g\<lparr>gp_script := es\<rparr>) else g\<lparr>gp_script := es\<rparr>))"

definition gpio_set_level :: "nat \<Rightarrow> bool \<Rightarrow> gpio \<Rightarrow> esp_err \<times> gpio" where
  "gpio_set_level pin level = gpio_call (\<lambda>g. g\<lparr>gp_level := (gp_level g)(pin := level)\<rparr>)"

text \<open>A call that configures pins and changes no output level.\<close>

definition gpio_configure :: "gpio \<Rightarrow> esp_err \<times> gpio" where
  "gpio_configure = gpio_call (\<lambda>g. g)"

text \<open>\<open>ESP_RETURN_ON_ERROR\<close>.\<close>

definition return_on_error :: "('s \<Rightarrow> esp_err \<times> 's) \<Rightarrow> ('s \<Rightarrow> esp_err \<times> 's) \<Rightarrow> 's \<Rightarrow> esp_err \<times> 's" where
  "return_on_error f k s = (case f s of (e, s1) \<Rightarrow> if e \<noteq> ESP_OK then (e, s1) else k s1)"

section \<open>The board\<close>

definition PIN_USB_SEL :: nat where "PIN_USB_SEL = 18"
definition PIN_USB_LIMIT_EN :: nat where "PIN_USB_LIMIT_EN = 17"
definition PIN_DEV_VBUS_EN :: nat where "PIN_DEV_VBUS_EN = 12"
definition PIN_BOOST_EN :: nat where "PIN_BOOST_EN = 13"
definition PIN_LED_GREEN :: nat where "PIN_LED_GREEN = 15"
definition PIN_LED_YELLOW :: nat where "PIN_LED_YELLOW = 16"

lemmas pins = PIN_USB_SEL_def PIN_USB_LIMIT_EN_def PIN_DEV_VBUS_EN_def PIN_BOOST_EN_def PIN_LED_GREEN_def PIN_LED_YELLOW_def

definition USB_OC_CLEAR_COOLDOWN_MS :: nat where "USB_OC_CLEAR_COOLDOWN_MS = 5000"
definition USB_OC_ASSERT_POLLS :: u32 where "USB_OC_ASSERT_POLLS = 3"

datatype power_source = POWER_USB_DEV | POWER_BATTERY | POWER_EXTERNAL

record board =
  bd_gpio :: gpio
  bd_power_mutex :: bool
  bd_power_requested :: bool
  bd_overcurrent_latched :: bool
  bd_overcurrent_events :: u32
  bd_power_cutoffs :: u32

definition board_reset :: "gpio \<Rightarrow> board" where
  "board_reset g = \<lparr>bd_gpio = g, bd_power_mutex = False, bd_power_requested = True, bd_overcurrent_latched = False,
     bd_overcurrent_events = 0, bd_power_cutoffs = 0\<rparr>"

definition on_gpio :: "(gpio \<Rightarrow> esp_err \<times> gpio) \<Rightarrow> board \<Rightarrow> esp_err \<times> board" where
  "on_gpio f b = (case f (bd_gpio b) of (e, g) \<Rightarrow> (e, b\<lparr>bd_gpio := g\<rparr>))"

definition set_output :: "nat \<Rightarrow> bool \<Rightarrow> gpio \<Rightarrow> esp_err \<times> gpio" where
  "set_output pin level = return_on_error gpio_configure (gpio_set_level pin level)"

definition power_apply :: "power_source \<Rightarrow> bool \<Rightarrow> gpio \<Rightarrow> esp_err \<times> gpio" where
  "power_apply source enabled =
     return_on_error (gpio_set_level PIN_DEV_VBUS_EN False)
    (return_on_error (gpio_set_level PIN_BOOST_EN False)
       (\<lambda>g. if \<not> enabled then (ESP_OK, g)
            else (case source of
                    POWER_USB_DEV \<Rightarrow> gpio_set_level PIN_DEV_VBUS_EN True g
                  | POWER_BATTERY \<Rightarrow> gpio_set_level PIN_BOOST_EN True g
                  | POWER_EXTERNAL \<Rightarrow> (ESP_OK, g))))"

definition gateway_board_usb_host_power_set :: "power_source \<Rightarrow> bool \<Rightarrow> bool \<Rightarrow> board \<Rightarrow> esp_err \<times> board" where
  "gateway_board_usb_host_power_set source taken enabled b =
     (if bd_power_mutex b \<and> \<not> taken then (ESP_ERR_TIMEOUT, b)
      else let b = b\<lparr>bd_power_requested := enabled\<rparr> in
           if enabled \<and> bd_overcurrent_latched b then (ESP_ERR_INVALID_STATE, b)
           else on_gpio (power_apply source enabled) b)"

definition gateway_board_usb_host_power_control_available :: "power_source \<Rightarrow> bool" where
  "gateway_board_usb_host_power_control_available source \<longleftrightarrow> source = POWER_USB_DEV \<or> source = POWER_BATTERY"

definition gateway_board_usb_host_power_source_name :: "power_source \<Rightarrow> string" where
  "gateway_board_usb_host_power_source_name source =
     (case source of POWER_USB_DEV \<Rightarrow> ''USB_DEV'' | POWER_BATTERY \<Rightarrow> ''battery_boost'' | POWER_EXTERNAL \<Rightarrow> ''external/off'')"

record power_diagnostics =
  pd_overcurrent :: bool
  pd_cutoff_latched :: bool
  pd_overcurrent_events :: u32
  pd_power_cutoffs :: u32

definition gateway_board_power_diagnostics :: "bool \<Rightarrow> bool \<Rightarrow> board \<Rightarrow> esp_err + power_diagnostics" where
  "gateway_board_power_diagnostics overcurrent taken b =
     (if bd_power_mutex b \<and> \<not> taken then Inl ESP_ERR_TIMEOUT
      else Inr \<lparr>pd_overcurrent = overcurrent, pd_cutoff_latched = bd_overcurrent_latched b,
                pd_overcurrent_events = bd_overcurrent_events b, pd_power_cutoffs = bd_power_cutoffs b\<rparr>)"

text \<open>The seven calls before the supply is switched on, then the supply, the LED and the task.\<close>

definition gateway_board_init :: "power_source \<Rightarrow> bool \<Rightarrow> bool \<Rightarrow> bool \<Rightarrow> board \<Rightarrow> esp_err \<times> board" where
  "gateway_board_init source mutex_created taken task_created b =
     (let b = b\<lparr>bd_power_mutex := mutex_created\<rparr> in
      if \<not> mutex_created then (ESP_ERR_NO_MEM, b)
      else return_on_error (on_gpio (set_output PIN_DEV_VBUS_EN False))
          (return_on_error (on_gpio (set_output PIN_BOOST_EN False))
          (return_on_error (on_gpio (set_output PIN_USB_LIMIT_EN False))
          (return_on_error (on_gpio (set_output PIN_USB_SEL True))
          (return_on_error (on_gpio (set_output PIN_LED_GREEN False))
          (return_on_error (on_gpio (set_output PIN_LED_YELLOW False))
          (return_on_error (on_gpio gpio_configure)
          (return_on_error (on_gpio gpio_configure)
          (return_on_error (on_gpio (gpio_set_level PIN_USB_LIMIT_EN True))
          (return_on_error (gateway_board_usb_host_power_set source taken True)
          (return_on_error (on_gpio (gpio_set_level PIN_LED_GREEN True))
             (\<lambda>b. (if task_created then ESP_OK else ESP_ERR_NO_MEM, b)))))))))))) b)"

section \<open>The monitor\<close>

text \<open>The local variables of the task.\<close>

record power_monitor =
  pm_clear_since :: u32
  pm_asserted_polls :: u32

definition pdMS_TO_TICKS :: "nat \<Rightarrow> nat \<Rightarrow> u32" where
  "pdMS_TO_TICKS tick_rate ms = of_nat (ms * tick_rate div 1000)"

text \<open>
  One turn of the loop: the level of the fault signal, whether the lock was free, and the results
  of the two calls of \<open>xTaskGetTickCount\<close>.
\<close>

record poll =
  po_overcurrent :: bool
  po_taken :: bool
  po_tick :: u32
  po_tick2 :: u32

definition latch_overcurrent :: "power_source \<Rightarrow> board \<Rightarrow> board" where
  "latch_overcurrent source b =
     (let b = b\<lparr>bd_overcurrent_latched := True, bd_overcurrent_events := bd_overcurrent_events b + 1\<rparr> in
      if gateway_board_usb_host_power_control_available source then
        (case on_gpio (power_apply source False) b of
           (e, b) \<Rightarrow> if e = ESP_OK then b\<lparr>bd_power_cutoffs := bd_power_cutoffs b + 1\<rparr> else b)
      else b)"

definition clear_overcurrent :: "power_source \<Rightarrow> board \<Rightarrow> board" where
  "clear_overcurrent source b =
     (let b = b\<lparr>bd_overcurrent_latched := False\<rparr> in
      if bd_power_requested b \<and> gateway_board_usb_host_power_control_available source
      then snd (on_gpio (power_apply source True) b) else b)"

definition power_monitor_turn ::
    "power_source \<Rightarrow> nat \<Rightarrow> poll \<Rightarrow> power_monitor \<times> board \<Rightarrow> power_monitor \<times> board" where
  "power_monitor_turn source tick_rate p mb =
     (case mb of (m, b) \<Rightarrow>
        let m = m\<lparr>pm_asserted_polls := if po_overcurrent p then pm_asserted_polls m + 1 else 0\<rparr>;
            asserted = (pm_asserted_polls m \<ge> USB_OC_ASSERT_POLLS) in
        if bd_power_mutex b \<and> po_taken p then
          if asserted then (m\<lparr>pm_clear_since := 0\<rparr>, if \<not> bd_overcurrent_latched b then latch_overcurrent source b else b)
          else if bd_overcurrent_latched b then
            let m = (if pm_clear_since m = 0 then m\<lparr>pm_clear_since := po_tick p\<rparr> else m) in
            if po_tick2 p - pm_clear_since m \<ge> pdMS_TO_TICKS tick_rate USB_OC_CLEAR_COOLDOWN_MS
            then (m\<lparr>pm_clear_since := 0\<rparr>, clear_overcurrent source b)
            else (m, b)
          else (m, b)
        else (m, b))"

text \<open>What happens after the start: the other tasks switch the supply, and the monitor takes a turn.\<close>

datatype board_event = Power_Set bool bool | Monitor poll

fun board_step :: "power_source \<Rightarrow> nat \<Rightarrow> board_event \<Rightarrow> power_monitor \<times> board \<Rightarrow> power_monitor \<times> board" where
  "board_step source tick_rate (Power_Set taken enabled) (m, b) = (m, snd (gateway_board_usb_host_power_set source taken enabled b))"
| "board_step source tick_rate (Monitor p) mb = power_monitor_turn source tick_rate p mb"

definition board_run :: "power_source \<Rightarrow> nat \<Rightarrow> board_event list \<Rightarrow> board \<Rightarrow> power_monitor \<times> board" where
  "board_run source tick_rate es b = fold (board_step source tick_rate) es (\<lparr>pm_clear_since = 0, pm_asserted_polls = 0\<rparr>, b)"

section \<open>Levels\<close>

abbreviation dev_vbus :: "board \<Rightarrow> bool" where "dev_vbus b \<equiv> gp_level (bd_gpio b) PIN_DEV_VBUS_EN"
abbreviation boost :: "board \<Rightarrow> bool" where "boost b \<equiv> gp_level (bd_gpio b) PIN_BOOST_EN"

text \<open>Only the configured path can be on, and the limiter and the switch of the socket are set.\<close>

definition paths_ok :: "power_source \<Rightarrow> gpio \<Rightarrow> bool" where
  "paths_ok source g \<longleftrightarrow> (gp_level g PIN_DEV_VBUS_EN \<longrightarrow> source = POWER_USB_DEV) \<and> (gp_level g PIN_BOOST_EN \<longrightarrow> source = POWER_BATTERY) \<and>
     gp_level g PIN_USB_LIMIT_EN \<and> gp_level g PIN_USB_SEL"

lemma return_on_error_ok:
  "return_on_error f k s = (ESP_OK, s') \<longleftrightarrow> (\<exists>s1. f s = (ESP_OK, s1) \<and> k s1 = (ESP_OK, s'))"
  by (auto simp: return_on_error_def split: prod.splits)

lemma set_level_cases:
  "gpio_set_level pin l g = (e, g') \<Longrightarrow>
    gp_level g' = (if e = ESP_OK then (gp_level g)(pin := l) else gp_level g) \<and> (gp_script g = [] \<longrightarrow> e = ESP_OK \<and> gp_script g' = [])"
  by (auto simp: gpio_set_level_def gpio_call_def split: list.splits if_splits)

lemma configure_level: "gpio_configure g = (e, g') \<Longrightarrow> gp_level g' = gp_level g"
  by (auto simp: gpio_configure_def gpio_call_def split: list.splits if_splits)

lemma set_output_ok: "set_output pin l g = (ESP_OK, g') \<Longrightarrow> gp_level g' = (gp_level g)(pin := l)"
  by (auto simp: set_output_def return_on_error_ok dest!: set_level_cases configure_level)

lemma power_apply_paths:
  assumes "power_apply source enabled g = (e, g')" and "paths_ok source g"
  shows "paths_ok source g'"
  using assms unfolding power_apply_def return_on_error_def paths_ok_def
  by (auto split: prod.splits if_splits power_source.splits dest!: set_level_cases simp: pins)

lemma power_apply_works:
  assumes "power_apply source enabled g = (e, g')" and "gp_script g = []"
  shows "e = ESP_OK \<and> gp_script g' = [] \<and> gp_level g' PIN_DEV_VBUS_EN = (enabled \<and> source = POWER_USB_DEV) \<and>
    gp_level g' PIN_BOOST_EN = (enabled \<and> source = POWER_BATTERY)"
  using assms unfolding power_apply_def return_on_error_def
  by (auto split: prod.splits if_splits power_source.splits dest!: set_level_cases simp: pins)

lemma on_gpio_ok: "on_gpio f b = (ESP_OK, b') \<longleftrightarrow> (\<exists>g. f (bd_gpio b) = (ESP_OK, g) \<and> b' = b\<lparr>bd_gpio := g\<rparr>)"
  by (auto simp: on_gpio_def split: prod.splits)

lemma power_set_ok:
  assumes "gateway_board_usb_host_power_set source taken enabled b = (ESP_OK, b')"
  shows "\<exists>g. power_apply source enabled (bd_gpio b) = (ESP_OK, g) \<and> b' = b\<lparr>bd_power_requested := enabled, bd_gpio := g\<rparr>"
  using assms by (auto simp: gateway_board_usb_host_power_set_def Let_def on_gpio_ok split: if_splits)

lemma init_paths:
  assumes "gateway_board_init source mutex_created taken task_created b = (ESP_OK, b1)"
  shows "paths_ok source (bd_gpio b1)" "bd_power_mutex b1" "bd_overcurrent_latched b1 = bd_overcurrent_latched b"
    "bd_overcurrent_events b1 = bd_overcurrent_events b"
proof -
  from assms obtain g1 g2 g3 g4 g5 g6 g7 g8 g9 g10 g11 where
    o: "set_output PIN_DEV_VBUS_EN False (bd_gpio b) = (ESP_OK, g1)" "set_output PIN_BOOST_EN False g1 = (ESP_OK, g2)"
      "set_output PIN_USB_LIMIT_EN False g2 = (ESP_OK, g3)" "set_output PIN_USB_SEL True g3 = (ESP_OK, g4)"
      "set_output PIN_LED_GREEN False g4 = (ESP_OK, g5)" "set_output PIN_LED_YELLOW False g5 = (ESP_OK, g6)"
    and c: "gpio_configure g6 = (ESP_OK, g7)" "gpio_configure g7 = (ESP_OK, g8)"
    and l: "gpio_set_level PIN_USB_LIMIT_EN True g8 = (ESP_OK, g9)" "gpio_set_level PIN_LED_GREEN True g10 = (ESP_OK, g11)"
    and p: "power_apply source True g9 = (ESP_OK, g10)"
    and b1: "b1 = b\<lparr>bd_power_mutex := True, bd_power_requested := True, bd_gpio := g11\<rparr>"
    by (auto simp: gateway_board_init_def Let_def return_on_error_ok on_gpio_ok dest!: power_set_ok split: if_splits)
  have "gp_level g9 = (gp_level (bd_gpio b))(PIN_DEV_VBUS_EN := False, PIN_BOOST_EN := False, PIN_USB_LIMIT_EN := False,
      PIN_USB_SEL := True, PIN_LED_GREEN := False, PIN_LED_YELLOW := False, PIN_USB_LIMIT_EN := True)"
    using o [THEN set_output_ok] c [THEN configure_level] set_level_cases [OF l(1)] by simp
  then have "paths_ok source g9" by (simp add: paths_ok_def pins)
  then have "paths_ok source g10" by (rule power_apply_paths [OF p])
  moreover have "gp_level g11 = (gp_level g10)(PIN_LED_GREEN := True)" using set_level_cases [OF l(2)] by simp
  ultimately show "paths_ok source (bd_gpio b1)" using b1 by (simp add: paths_ok_def pins)
  show "bd_power_mutex b1" "bd_overcurrent_latched b1 = bd_overcurrent_latched b" "bd_overcurrent_events b1 = bd_overcurrent_events b"
    using b1 by simp_all
qed

section \<open>Runs\<close>

lemma power_set_board:
  "snd (gateway_board_usb_host_power_set source taken enabled b) =
    (if bd_power_mutex b \<and> \<not> taken then b
     else if enabled \<and> bd_overcurrent_latched b then b\<lparr>bd_power_requested := enabled\<rparr>
     else b\<lparr>bd_power_requested := enabled, bd_gpio := snd (power_apply source enabled (bd_gpio b))\<rparr>)"
  by (cases "power_apply source enabled (bd_gpio b)") (simp add: gateway_board_usb_host_power_set_def on_gpio_def Let_def)

lemma latch_gpio [simp]:
  "bd_overcurrent_latched (latch_overcurrent source b)" "bd_power_mutex (latch_overcurrent source b) = bd_power_mutex b"
  "bd_gpio (latch_overcurrent source b) =
    (if gateway_board_usb_host_power_control_available source then snd (power_apply source False (bd_gpio b)) else bd_gpio b)"
  by (cases "power_apply source False (bd_gpio b)"; simp add: latch_overcurrent_def Let_def on_gpio_def)+

lemma clear_gpio [simp]:
  "\<not> bd_overcurrent_latched (clear_overcurrent source b)" "bd_power_mutex (clear_overcurrent source b) = bd_power_mutex b"
  "bd_gpio (clear_overcurrent source b) =
    (if bd_power_requested b \<and> gateway_board_usb_host_power_control_available source
     then snd (power_apply source True (bd_gpio b)) else bd_gpio b)"
  by (cases "power_apply source True (bd_gpio b)"; simp add: clear_overcurrent_def Let_def on_gpio_def)+

text \<open>The next value of the poll counter.\<close>

definition polls_after :: "poll \<Rightarrow> power_monitor \<Rightarrow> u32" where
  "polls_after p m = (if po_overcurrent p then pm_asserted_polls m + 1 else 0)"

lemma turn_board:
  "snd (power_monitor_turn source tick_rate p (m, b)) =
    (if bd_power_mutex b \<and> po_taken p then
       if polls_after p m \<ge> USB_OC_ASSERT_POLLS then (if bd_overcurrent_latched b then b else latch_overcurrent source b)
       else if bd_overcurrent_latched b \<and>
         po_tick2 p - (if pm_clear_since m = 0 then po_tick p else pm_clear_since m) \<ge> pdMS_TO_TICKS tick_rate USB_OC_CLEAR_COOLDOWN_MS
       then clear_overcurrent source b else b
     else b)"
  by (simp add: power_monitor_turn_def polls_after_def Let_def)

lemma turn_polls: "pm_asserted_polls (fst (power_monitor_turn source tick_rate p (m, b))) = polls_after p m"
  by (simp add: power_monitor_turn_def polls_after_def Let_def)

lemma turn_clear_since:
  "pm_clear_since (fst (power_monitor_turn source tick_rate p (m, b))) =
    (if bd_power_mutex b \<and> po_taken p then
       if polls_after p m \<ge> USB_OC_ASSERT_POLLS then 0
       else if bd_overcurrent_latched b then
         (let since = (if pm_clear_since m = 0 then po_tick p else pm_clear_since m) in
          if po_tick2 p - since \<ge> pdMS_TO_TICKS tick_rate USB_OC_CLEAR_COOLDOWN_MS then 0 else since)
       else pm_clear_since m
     else pm_clear_since m)"
  by (simp add: power_monitor_turn_def polls_after_def Let_def)

text \<open>The run, one event at a time.\<close>

lemma run_simps [simp]:
  "board_run source tick_rate [] b = (\<lparr>pm_clear_since = 0, pm_asserted_polls = 0\<rparr>, b)"
  "board_run source tick_rate (es @ [x]) b = board_step source tick_rate x (board_run source tick_rate es b)"
  by (simp_all add: board_run_def)

lemma step_polls: "pm_asserted_polls (fst (board_step source tick_rate (Monitor p) mb)) = polls_after p (fst mb)"
  by (cases mb) (simp add: turn_polls)

lemma apply_paths: "paths_ok source g \<Longrightarrow> paths_ok source (snd (power_apply source enabled g))"
  using power_apply_paths by (metis prod.collapse)

lemma apply_works:
  assumes "gp_script g = []"
  shows "gp_script (snd (power_apply source enabled g)) = []"
    "gp_level (snd (power_apply source enabled g)) PIN_DEV_VBUS_EN = (enabled \<and> source = POWER_USB_DEV)"
    "gp_level (snd (power_apply source enabled g)) PIN_BOOST_EN = (enabled \<and> source = POWER_BATTERY)"
  using power_apply_works [OF _ assms, of source enabled] by (metis prod.collapse)+

lemma step_mutex: "bd_power_mutex (snd (board_step source tick_rate x mb)) = bd_power_mutex (snd mb)"
  by (cases mb; cases x) (simp_all add: power_set_board turn_board)

lemma run_mutex: "bd_power_mutex (snd (board_run source tick_rate es b)) = bd_power_mutex b"
  by (induction es rule: rev_induct) (simp_all add: step_mutex)

lemma step_paths: "paths_ok source (bd_gpio (snd mb)) \<Longrightarrow> paths_ok source (bd_gpio (snd (board_step source tick_rate x mb)))"
  by (cases mb; cases x) (simp_all add: power_set_board turn_board apply_paths)

lemma run_paths: "paths_ok source (bd_gpio b) \<Longrightarrow> paths_ok source (bd_gpio (snd (board_run source tick_rate es b)))"
  by (induction es rule: rev_induct) (simp_all add: step_paths)

text \<open>While the latch is set both paths are off, when the driver works.\<close>

definition latch_ok :: "power_source \<Rightarrow> board \<Rightarrow> bool" where
  "latch_ok source b \<longleftrightarrow> paths_ok source (bd_gpio b) \<and> gp_script (bd_gpio b) = [] \<and>
     (bd_overcurrent_latched b \<longrightarrow> \<not> dev_vbus b \<and> \<not> boost b)"

lemma external_low: "paths_ok source g \<Longrightarrow> \<not> gateway_board_usb_host_power_control_available source \<Longrightarrow>
    \<not> gp_level g PIN_DEV_VBUS_EN \<and> \<not> gp_level g PIN_BOOST_EN"
  by (auto simp: paths_ok_def gateway_board_usb_host_power_control_available_def)

lemma step_latch: "latch_ok source (snd mb) \<Longrightarrow> latch_ok source (snd (board_step source tick_rate x mb))"
  by (cases mb; cases x) (auto simp: power_set_board turn_board latch_ok_def apply_paths apply_works dest: external_low)

lemma run_latch: "latch_ok source b \<Longrightarrow> latch_ok source (snd (board_run source tick_rate es b))"
  by (induction es rule: rev_induct) (simp_all add: step_latch)

section \<open>Three polls\<close>

lemma run_polls: "unat (pm_asserted_polls (fst (board_run source tick_rate es b))) \<le> length es"
proof (induction es rule: rev_induct)
  case (snoc x es)
  let ?mb = "board_run source tick_rate es b"
  show ?case
  proof (cases x)
    case (Power_Set t e)
    then show ?thesis using snoc by (cases ?mb) simp
  next
    case (Monitor p)
    have "unat (pm_asserted_polls (fst ?mb) + 1) \<le> unat (pm_asserted_polls (fst ?mb)) + 1"
      by (simp add: unat_word_ariths)
    then show ?thesis using snoc Monitor by (auto simp del: board_step.simps simp: step_polls polls_after_def)
  qed
qed simp

text \<open>Changes of the supply by other tasks, as \<open>Power_Set\<close> events.\<close>

abbreviation requests :: "(bool \<times> bool) list \<Rightarrow> board_event list" where
  "requests xs \<equiv> map (\<lambda>(taken, enabled). Power_Set taken enabled) xs"

lemma requests_monitor: "fst (board_run source tick_rate (es @ requests xs) b) = fst (board_run source tick_rate es b)"
proof (induction xs rule: rev_induct)
  case (snoc x xs)
  obtain t e where x: "x = (t, e)" by fastforce
  have "board_run source tick_rate (es @ requests (xs @ [x])) b =
      board_step source tick_rate (Power_Set t e) (board_run source tick_rate (es @ requests xs) b)"
    unfolding x using run_simps(2) [of source tick_rate "es @ requests xs" "Power_Set t e" b] by simp
  then show ?case using snoc by (cases "board_run source tick_rate (es @ requests xs) b") simp
qed simp

lemma polls_counted:
  assumes "po_overcurrent p" and "unat (pm_asserted_polls (fst mb)) + 1 < 2 ^ 32"
  shows "unat (pm_asserted_polls (fst (board_step source tick_rate (Monitor p) mb))) = unat (pm_asserted_polls (fst mb)) + 1"
  using assms unat_add_lem [of "pm_asserted_polls (fst mb)" 1] by (simp del: board_step.simps add: step_polls polls_after_def)

lemma three_polls:
  assumes "po_overcurrent p1" "po_overcurrent p2" "po_overcurrent p3" and "length es + 3 < 2 ^ 32"
  shows "USB_OC_ASSERT_POLLS \<le> pm_asserted_polls (fst (board_run source tick_rate
    (((((es @ [Monitor p1]) @ requests xs) @ [Monitor p2]) @ requests ys) @ [Monitor p3]) b))"
proof -
  let ?n = "\<lambda>es. unat (pm_asserted_polls (fst (board_run source tick_rate es b)))"
  have es: "?n es + 3 < 2 ^ 32" using run_polls [of source tick_rate es b] assms(4) by simp
  then have "?n (es @ [Monitor p1]) = ?n es + 1" unfolding run_simps by (subst polls_counted [OF assms(1)]) simp_all
  then have "?n ((es @ [Monitor p1]) @ requests xs) = ?n es + 1" unfolding requests_monitor .
  then have "?n (((es @ [Monitor p1]) @ requests xs) @ [Monitor p2]) = ?n es + 2"
    unfolding run_simps using es by (subst polls_counted [OF assms(2)]) simp_all
  then have "?n ((((es @ [Monitor p1]) @ requests xs) @ [Monitor p2]) @ requests ys) = ?n es + 2" unfolding requests_monitor .
  then have "?n (((((es @ [Monitor p1]) @ requests xs) @ [Monitor p2]) @ requests ys) @ [Monitor p3]) = ?n es + 3"
    unfolding run_simps(2) [of _ _ _ "Monitor p3"] using es by (subst polls_counted [OF assms(3)]) simp_all
  then show ?thesis by (simp add: USB_OC_ASSERT_POLLS_def word_le_nat_alt)
qed

lemma asserted_latches:
  assumes "bd_power_mutex (snd mb)" and "po_taken p"
    and "USB_OC_ASSERT_POLLS \<le> pm_asserted_polls (fst (board_step source tick_rate (Monitor p) mb))"
  shows "bd_overcurrent_latched (snd (board_step source tick_rate (Monitor p) mb))"
  using assms by (cases mb) (simp add: turn_polls turn_board)

section \<open>The cooldown\<close>

text \<open>
  After \<open>pre\<close>, no turn of the monitor in \<open>post\<close> that had the lock saw the fault for the third time or
  longer.
\<close>

definition calm :: "power_source \<Rightarrow> nat \<Rightarrow> board \<Rightarrow> board_event list \<Rightarrow> board_event list \<Rightarrow> bool" where
  "calm source tick_rate b pre post \<longleftrightarrow>
     (\<forall>mid q rest. post = mid @ Monitor q # rest \<longrightarrow> po_taken q \<longrightarrow>
        pm_asserted_polls (fst (board_run source tick_rate (pre @ mid @ [Monitor q]) b)) < USB_OC_ASSERT_POLLS)"

lemma calm_snoc:
  assumes "calm source tick_rate b pre post"
    and "\<And>q. x = Monitor q \<Longrightarrow> po_taken q \<Longrightarrow>
      pm_asserted_polls (fst (board_run source tick_rate (pre @ post @ [Monitor q]) b)) < USB_OC_ASSERT_POLLS"
  shows "calm source tick_rate b pre (post @ [x])"
  unfolding calm_def
proof (intro allI impI)
  fix mid q rest assume eq: "post @ [x] = mid @ Monitor q # rest" and q: "po_taken q"
  show "pm_asserted_polls (fst (board_run source tick_rate (pre @ mid @ [Monitor q]) b)) < USB_OC_ASSERT_POLLS"
  proof (cases rest rule: rev_cases)
    case Nil
    then show ?thesis using eq q assms(2) by simp
  next
    case (snoc rest' y)
    then show ?thesis using eq q assms(1) by (simp add: calm_def)
  qed
qed

lemma calm_Nil: "calm source tick_rate b pre []"
  by (simp add: calm_def)

text \<open>Where the time of the cooldown comes from.\<close>

definition counted_from :: "power_source \<Rightarrow> nat \<Rightarrow> board \<Rightarrow> u32 \<Rightarrow> board_event list \<Rightarrow> bool" where
  "counted_from source tick_rate b since es \<longleftrightarrow>
     (\<exists>pre p0 post. es = pre @ Monitor p0 # post \<and> po_taken p0 \<and> po_tick p0 = since \<and> calm source tick_rate b pre (Monitor p0 # post))"

lemma counted_extend:
  assumes "counted_from source tick_rate b since es"
    and "\<And>q. x = Monitor q \<Longrightarrow> po_taken q \<Longrightarrow> pm_asserted_polls (fst (board_run source tick_rate (es @ [x]) b)) < USB_OC_ASSERT_POLLS"
  shows "counted_from source tick_rate b since (es @ [x])"
proof -
  obtain pre p0 post where d: "es = pre @ Monitor p0 # post" "po_taken p0" "po_tick p0 = since" "calm source tick_rate b pre (Monitor p0 # post)"
    using assms(1) by (auto simp: counted_from_def)
  have "calm source tick_rate b pre ((Monitor p0 # post) @ [x])"
    using assms(2) d by (intro calm_snoc) (auto simp del: run_simps)
  then show ?thesis unfolding counted_from_def using d by (intro exI [of _ pre] exI [of _ p0] exI [of _ "post @ [x]"]) simp
qed

lemma counted_start:
  assumes "po_taken p" and "pm_asserted_polls (fst (board_run source tick_rate (es @ [Monitor p]) b)) < USB_OC_ASSERT_POLLS"
  shows "counted_from source tick_rate b (po_tick p) (es @ [Monitor p])"
proof -
  have "calm source tick_rate b es ([] @ [Monitor p])" using assms by (intro calm_snoc calm_Nil) simp
  then show ?thesis unfolding counted_from_def using assms(1) by (intro exI [of _ es] exI [of _ p] exI [of _ "[]"]) simp
qed

lemma since_counted:
  assumes "bd_power_mutex b" and "pm_clear_since (fst (board_run source tick_rate es b)) \<noteq> 0"
  shows "counted_from source tick_rate b (pm_clear_since (fst (board_run source tick_rate es b))) es"
  using assms(2)
proof (induction es rule: rev_induct)
  case Nil
  then show ?case by simp
next
  case (snoc x es)
  obtain m b1 where mb: "board_run source tick_rate es b = (m, b1)" by fastforce
  have mutex: "bd_power_mutex b1" using run_mutex [of source tick_rate es b] mb assms(1) by simp
  show ?case
  proof (cases x)
    case (Power_Set t e)
    have "board_run source tick_rate (es @ [x]) b = (m, snd (gateway_board_usb_host_power_set source t e b1))"
      using mb Power_Set by simp
    moreover have "counted_from source tick_rate b (pm_clear_since m) (es @ [x])"
      using snoc calculation mb Power_Set by (intro counted_extend) simp_all
    ultimately show ?thesis by simp
  next
    case (Monitor p)
    have run: "board_run source tick_rate (es @ [x]) b = power_monitor_turn source tick_rate p (m, b1)" using mb Monitor by simp
    have low: "po_taken p \<Longrightarrow> pm_asserted_polls (fst (board_run source tick_rate (es @ [x]) b)) < USB_OC_ASSERT_POLLS"
      using snoc.prems mutex unfolding run turn_polls turn_clear_since by (simp split: if_splits)
    have "pm_clear_since (fst (board_run source tick_rate (es @ [x]) b)) = pm_clear_since m \<or>
        po_taken p \<and> pm_clear_since (fst (board_run source tick_rate (es @ [x]) b)) = po_tick p"
      using snoc.prems unfolding run turn_clear_since by (auto simp: Let_def split: if_splits)
    then show ?thesis
    proof
      assume same: "pm_clear_since (fst (board_run source tick_rate (es @ [x]) b)) = pm_clear_since m"
      then have "counted_from source tick_rate b (pm_clear_since m) es" using snoc mb by simp
      then show ?thesis unfolding same using low Monitor by (intro counted_extend) simp_all
    next
      assume new: "po_taken p \<and> pm_clear_since (fst (board_run source tick_rate (es @ [x]) b)) = po_tick p"
      then show ?thesis using counted_start low Monitor by metis
    qed
  qed
qed

section \<open>An example\<close>

text \<open>A board with a fault signal that stays low for three polls.\<close>

definition idle_gpio :: gpio where
  "idle_gpio = \<lparr>gp_level = (\<lambda>_. False), gp_script = []\<rparr>"

definition demo_poll :: "bool \<Rightarrow> u32 \<Rightarrow> poll" where
  "demo_poll fault t = \<lparr>po_overcurrent = fault, po_taken = True, po_tick = t, po_tick2 = t\<rparr>"

lemma demo_init:
  "gateway_board_init POWER_USB_DEV True True True (board_reset idle_gpio) =
    (ESP_OK, (board_reset \<lparr>gp_level = (\<lambda>_. False)(PIN_USB_LIMIT_EN := True, PIN_USB_SEL := True, PIN_DEV_VBUS_EN := True, PIN_LED_GREEN := True),
      gp_script = []\<rparr>)\<lparr>bd_power_mutex := True\<rparr>)"
  by (simp add: gateway_board_init_def Let_def return_on_error_def on_gpio_def set_output_def gpio_configure_def gpio_set_level_def gpio_call_def
      board_reset_def idle_gpio_def gateway_board_usb_host_power_set_def power_apply_def pins fun_eq_iff)

definition demo_board :: board where
  "demo_board = snd (gateway_board_init POWER_USB_DEV True True True (board_reset idle_gpio))"

lemma demo_board_init: "gateway_board_init POWER_USB_DEV True True True (board_reset idle_gpio) = (ESP_OK, demo_board)"
  by (simp add: demo_board_def demo_init)

lemma demo_board_gpio: "gp_script (bd_gpio demo_board) = []"
  unfolding demo_board_def demo_init by (simp add: board_reset_def)

lemma demo_board_fields:
  "bd_power_mutex demo_board" "bd_power_requested demo_board" "\<not> bd_overcurrent_latched demo_board"
  unfolding demo_board_def demo_init by (simp_all add: board_reset_def)

text \<open>Three polls with the fault, then two without it, 5 s apart at 100 ticks a second.\<close>

definition demo_fault :: "board_event list" where
  "demo_fault = [Monitor (demo_poll True 1), Monitor (demo_poll True 11), Monitor (demo_poll True 21), Monitor (demo_poll False 31)]"

lemma demo_fault_run:
  "bd_overcurrent_latched (snd (board_run POWER_USB_DEV 100 demo_fault demo_board))"
  "\<not> bd_overcurrent_latched (snd (board_run POWER_USB_DEV 100 (demo_fault @ [Monitor (demo_poll False 531)]) demo_board))"
  by (simp_all add: board_run_def demo_fault_def demo_poll_def power_monitor_turn_def demo_board_fields
      USB_OC_ASSERT_POLLS_def pdMS_TO_TICKS_def USB_OC_CLEAR_COOLDOWN_MS_def Let_def)

section \<open>Properties\<close>

text \<open>Once \<open>gateway_board_init\<close> has succeeded, whatever the pins were before, the two paths that can supply
  the socket are never on at the same time, and the one that the build does not use is never on:
  through every sequence of requests and turns of the monitor and with every outcome of the calls of
  the GPIO driver. The current limiter stays enabled and the socket stays routed to the host.\<close>

theorem vbus_paths_exclusive:
  assumes "gateway_board_init source mutex_created taken task_created (board_reset g) = (ESP_OK, b)"
  shows "let b1 = snd (board_run source tick_rate es b) in
    \<not> (dev_vbus b1 \<and> boost b1) \<and> (dev_vbus b1 \<longrightarrow> source = POWER_USB_DEV) \<and> (boost b1 \<longrightarrow> source = POWER_BATTERY) \<and>
    gp_level (bd_gpio b1) PIN_USB_LIMIT_EN \<and> gp_level (bd_gpio b1) PIN_USB_SEL"
  using run_paths [OF init_paths(1) [OF assms], of tick_rate es] by (auto simp: paths_ok_def Let_def)

text \<open>C34: Over-current cuts the supply. While the GPIO driver works, whenever the latch is set both paths are off,
  and a request for power is refused and leaves them off; and when three polls in a row see the fault
  and the third gets the lock, the latch is set, whatever other tasks request between the polls. The
  counter of polls wraps after \<open>2 ^ 32\<close> polls of 100 ms, thirteen years, which bounds the run before.\<close>

theorem overcurrent_cuts_power:
  assumes "gateway_board_init source mutex_created taken task_created (board_reset g) = (ESP_OK, b)" and "gp_script (bd_gpio b) = []"
    and "length es + 3 < 2 ^ 32" and "po_overcurrent p1" "po_overcurrent p2" "po_overcurrent p3" "po_taken p3"
  shows "let cut = (\<lambda>b. bd_overcurrent_latched b \<and> \<not> dev_vbus b \<and> \<not> boost b);
      b1 = snd (board_run source tick_rate es b);
      b2 = snd (board_run source tick_rate (es @ [Monitor p1] @ requests xs @ [Monitor p2] @ requests ys @ [Monitor p3]) b) in
    (bd_overcurrent_latched b1 \<longrightarrow> cut b1 \<and>
      (case gateway_board_usb_host_power_set source True True b1 of (e, b3) \<Rightarrow> e = ESP_ERR_INVALID_STATE \<and> cut b3)) \<and> cut b2"
proof -
  have ok: "latch_ok source b" using init_paths [OF assms(1)] assms(2) by (simp add: latch_ok_def board_reset_def)
  have mutex: "bd_power_mutex b" by (rule init_paths(2) [OF assms(1)])
  let ?b1 = "snd (board_run source tick_rate es b)"
  let ?es = "(((es @ [Monitor p1]) @ requests xs) @ [Monitor p2]) @ requests ys"
  have "bd_overcurrent_latched (snd (board_run source tick_rate (?es @ [Monitor p3]) b))"
    using three_polls [OF assms(4,5,6,3), of source tick_rate xs ys b] run_mutex [of source tick_rate ?es b] mutex assms(7)
    unfolding run_simps(2) [of _ _ _ "Monitor p3"] by (intro asserted_latches) simp_all
  moreover have "latch_ok source (snd (board_run source tick_rate (?es @ [Monitor p3]) b))" by (rule run_latch [OF ok])
  moreover have "latch_ok source ?b1" by (rule run_latch [OF ok])
  ultimately show ?thesis
    by (auto simp del: run_simps simp: latch_ok_def Let_def gateway_board_usb_host_power_set_def)
qed

text \<open>C35: After over-current the supply comes back only after the cooldown. Whatever happens between the turns of
  the monitor and whatever the calls of the GPIO driver return, the latch is only released by a turn of
  the monitor, and there is a turn \<open>p0\<close> with the lock, this one or an earlier one, at least five seconds
  of ticks before it, such that from \<open>p0\<close> on no turn that had the lock found the fault asserted for
  three polls.\<close>

theorem power_restored_after_cooldown:
  assumes "gateway_board_init source mutex_created taken task_created (board_reset g) = (ESP_OK, b)"
    and "bd_overcurrent_latched (snd (board_run source tick_rate es b))"
    and "\<not> bd_overcurrent_latched (snd (board_run source tick_rate (es @ [x]) b))"
  shows "\<exists>p pre p0 post. x = Monitor p \<and> es @ [x] = pre @ Monitor p0 # post \<and> po_taken p0 \<and>
    po_tick2 p - po_tick p0 \<ge> pdMS_TO_TICKS tick_rate USB_OC_CLEAR_COOLDOWN_MS \<and> calm source tick_rate b pre (Monitor p0 # post)"
proof (cases x)
  case (Power_Set t e)
  then show ?thesis using assms(2,3) by (cases "board_run source tick_rate es b") (simp add: power_set_board split: if_splits)
next
  case (Monitor p)
  obtain m b1 where mb: "board_run source tick_rate es b = (m, b1)" by fastforce
  have run: "board_run source tick_rate (es @ [x]) b = power_monitor_turn source tick_rate p (m, b1)" using mb Monitor by simp
  let ?since = "if pm_clear_since m = 0 then po_tick p else pm_clear_since m"
  have p: "po_taken p" "polls_after p m < USB_OC_ASSERT_POLLS" "po_tick2 p - ?since \<ge> pdMS_TO_TICKS tick_rate USB_OC_CLEAR_COOLDOWN_MS"
    using assms(2,3) mb unfolding run turn_board by (simp_all add: not_le split: if_splits)
  have low: "pm_asserted_polls (fst (board_run source tick_rate (es @ [x]) b)) < USB_OC_ASSERT_POLLS"
    unfolding run turn_polls by (rule p(2))
  have "counted_from source tick_rate b ?since (es @ [x])"
  proof (cases "pm_clear_since m = 0")
    case True
    then show ?thesis using counted_start [OF p(1) low [unfolded Monitor]] Monitor by simp
  next
    case False
    then have "counted_from source tick_rate b (pm_clear_since m) es"
      using since_counted [OF init_paths(2) [OF assms(1)], of source tick_rate es] mb by simp
    then have "counted_from source tick_rate b (pm_clear_since m) (es @ [x])" using low by (rule counted_extend)
    then show ?thesis using False by simp
  qed
  then obtain pre p0 post where "es @ [x] = pre @ Monitor p0 # post" "po_taken p0" "po_tick p0 = ?since"
    "calm source tick_rate b pre (Monitor p0 # post)" unfolding counted_from_def by blast
  then show ?thesis using p(3) Monitor by (intro exI [of _ p] exI [of _ pre] exI [of _ p0] exI [of _ post]) simp
qed

theorem vbus_paths_exclusive_witness:
  "\<not> boost (snd (board_run POWER_USB_DEV 100 demo_fault demo_board))"
  using vbus_paths_exclusive [OF demo_board_init, of 100 demo_fault] by (simp add: Let_def)

theorem overcurrent_cuts_power_witness:
  "\<not> dev_vbus (snd (board_run POWER_USB_DEV 100
     ([] @ [Monitor (demo_poll True 1)] @ requests [(True, True)] @ [Monitor (demo_poll True 11)] @ requests [] @ [Monitor (demo_poll True 21)]) demo_board))"
  using overcurrent_cuts_power [OF demo_board_init demo_board_gpio, of "[]" "demo_poll True 1" "demo_poll True 11" "demo_poll True 21" 100 "[(True, True)]" "[]"]
  unfolding Let_def by (auto simp del: run_simps simp: demo_poll_def)

theorem power_restored_after_cooldown_witness:
  "\<exists>pre p0 post. demo_fault @ [Monitor (demo_poll False 531)] = pre @ Monitor p0 # post \<and> 500 \<le> 531 - po_tick p0"
  using power_restored_after_cooldown [OF demo_board_init demo_fault_run]
  by (auto simp: demo_poll_def pdMS_TO_TICKS_def USB_OC_CLEAR_COOLDOWN_MS_def)

end
