(* ===== verification/Network_Service.thy ===== *)
theory Network_Service
  imports Gateway_Prelude
begin

text \<open>
  The Wi-Fi state machine, \<open>network_service.c\<close>: one task owns all transitions, the event handlers of ESP-IDF
  and the portal only post commands to it. The Wi-Fi driver is not part of the repository: the results of
  its calls in a turn, the clock at each call of \<open>now_ms\<close>, and the outcome of opening the portal are the
  fields of \<open>net_env\<close>. \<open>nw_effects\<close> records the calls of the driver and the snapshots shown to the other
  components. A restart ends the run. Log output is left out.
\<close>

section \<open>State\<close>

definition RECONNECT_MIN_MS :: u32 where "RECONNECT_MIN_MS = 1000"
definition RECONNECT_MAX_MS :: u32 where "RECONNECT_MAX_MS = 30000"
definition RECONNECT_WITH_PORTAL_MS :: u32 where "RECONNECT_WITH_PORTAL_MS = 30000"
definition SETUP_CONNECT_ATTEMPTS :: u32 where "SETUP_CONNECT_ATTEMPTS = 3"
definition SETUP_CONNECT_TIMEOUT_MS :: int where "SETUP_CONNECT_TIMEOUT_MS = 30000"
definition SETUP_RESTART_DELAY_MS :: int where "SETUP_RESTART_DELAY_MS = 10000"
definition PORTAL_PASSWORD_CHARS :: nat where "PORTAL_PASSWORD_CHARS = 12"
definition NETWORK_PORTAL_PASSWORD_MAX :: nat where "NETWORK_PORTAL_PASSWORD_MAX = 17"
definition NETWORK_IPV4_MAX :: nat where "NETWORK_IPV4_MAX = 16"

text \<open>Codes of the driver.\<close>

definition WIFI_REASON_ASSOC_LEAVE :: int where "WIFI_REASON_ASSOC_LEAVE = 8"
definition ESP_ERR_WIFI_STATE :: esp_err where "ESP_ERR_WIFI_STATE = ESP_ERR_OTHER 0x3006"

datatype network_portal_reason =
  NETWORK_PORTAL_CLOSED | NETWORK_PORTAL_FIRST_SETUP | NETWORK_PORTAL_FALLBACK | NETWORK_PORTAL_MANUAL

datatype network_setup_state = NETWORK_SETUP_IDLE | NETWORK_SETUP_CONNECTING | NETWORK_SETUP_CONNECTED | NETWORK_SETUP_FAILED

record net_snapshot =
  ns_provisioned :: bool
  ns_provisioning :: bool
  ns_connected :: bool
  ns_portal_reason :: network_portal_reason
  ns_setup_state :: network_setup_state
  ns_reconnects :: u32
  ns_disconnects :: u32
  ns_last_disconnect_reason :: int
  ns_ipv4 :: string
  ns_sta_ssid :: string
  ns_portal_passphrase :: string

datatype net_effect = Wifi_Connect esp_err | Wifi_Disconnect | Portal_Stopped | Portal_Preparing | Shown net_snapshot | Restarted

record network =
  nw_snapshot :: net_snapshot
  nw_reconnect_delay_ms :: u32
  nw_next_connect_ms :: int
  nw_offline_since_ms :: int
  nw_portal_opened_ms :: int
  nw_setup_deadline_ms :: int
  nw_restart_at_ms :: int
  nw_setup_failures :: u32
  nw_sta_connecting :: bool
  nw_sntp_started :: bool
  nw_ap_netif :: bool
  nw_effects :: "net_effect list"

datatype net_cmd =
    NET_CMD_STA_START | NET_CMD_DISCONNECTED int | NET_CMD_GOT_IP string | NET_CMD_OPEN_PORTAL network_portal_reason
  | NET_CMD_SETUP_SUBMITTED string string | NET_CMD_TICK

text \<open>The outcome of opening the portal: the interface, the password in flash, the random bytes, and the driver.\<close>

record portal_env =
  pe_ap_created :: bool
  pe_nvs_open :: esp_err
  pe_stored_password :: "esp_err + string"
  pe_random :: "u8 list"
  pe_store_password :: esp_err
  pe_set_mode :: esp_err
  pe_set_config :: esp_err
  pe_start :: esp_err

record net_env =
  ne_offline :: int
  ne_schedule :: int
  ne_restart :: int
  ne_opened :: int
  ne_deadline :: int
  ne_next :: int
  ne_tick :: int
  ne_tick_schedule :: int
  ne_tick_opened :: int
  ne_start_connect :: esp_err
  ne_tick_connect :: esp_err
  ne_set_config :: "nat \<Rightarrow> esp_err"
  ne_saved_ssid :: "string option"
  ne_sntp :: bool
  ne_portal :: portal_env
  ne_tick_portal :: portal_env

text \<open>The configuration of the build.\<close>

record net_config =
  CONFIG_GATEWAY_WIFI_PORTAL_FALLBACK_SECONDS :: int
  CONFIG_GATEWAY_WIFI_MANUAL_PORTAL_SECONDS :: int

section \<open>Helpers\<close>

abbreviation on_snapshot :: "(net_snapshot \<Rightarrow> net_snapshot) \<Rightarrow> network \<Rightarrow> network" where
  "on_snapshot f s \<equiv> s\<lparr>nw_snapshot := f (nw_snapshot s)\<rparr>"

definition effect :: "net_effect \<Rightarrow> network \<Rightarrow> network" where
  "effect e s = s\<lparr>nw_effects := nw_effects s @ [e]\<rparr>"

definition net_emit_snapshot :: "network \<Rightarrow> network" where
  "net_emit_snapshot s = effect (Shown (nw_snapshot s)) s"

definition portal_alphabet :: string where "portal_alphabet = ''ABCDEFGHJKLMNPQRSTUVWXYZ23456789''"

definition load_portal_password :: "portal_env \<Rightarrow> esp_err + string" where
  "load_portal_password pe =
     (if pe_nvs_open pe \<noteq> ESP_OK then Inl (pe_nvs_open pe)
      else let generated = map (\<lambda>b. portal_alphabet ! (unat b mod length portal_alphabet)) (pe_random pe);
               fresh = (if pe_store_password pe = ESP_OK then Inr generated else Inl (pe_store_password pe)) in
           (case pe_stored_password pe of
              Inr stored \<Rightarrow> if length stored \<ge> 8 then Inr stored else fresh
            | Inl _ \<Rightarrow> fresh))"

definition sta_connect_now :: "esp_err \<Rightarrow> network \<Rightarrow> network" where
  "sta_connect_now result s = effect (Wifi_Connect result) (s\<lparr>nw_next_connect_ms := 0, nw_sta_connecting := (result = ESP_OK)\<rparr>)"

definition schedule_reconnect :: "int \<Rightarrow> network \<Rightarrow> network" where
  "schedule_reconnect now s =
     (let portal = ns_provisioning (nw_snapshot s);
          s = on_snapshot (\<lambda>p. p\<lparr>ns_reconnects := ns_reconnects p + 1\<rparr>) s;
          delay = (if portal \<and> nw_reconnect_delay_ms s < RECONNECT_WITH_PORTAL_MS then RECONNECT_WITH_PORTAL_MS else nw_reconnect_delay_ms s);
          s = s\<lparr>nw_next_connect_ms := now + uint delay\<rparr> in
      if nw_reconnect_delay_ms s < RECONNECT_MAX_MS
      then let doubled = nw_reconnect_delay_ms s * 2 in
           s\<lparr>nw_reconnect_delay_ms := if doubled > RECONNECT_MAX_MS then RECONNECT_MAX_MS else doubled\<rparr>
      else s)"

definition open_portal :: "portal_env \<Rightarrow> int \<Rightarrow> network_portal_reason \<Rightarrow> network \<Rightarrow> esp_err \<times> network" where
  "open_portal pe now reason s =
     (if ns_provisioning (nw_snapshot s) then
        let s = (if reason = NETWORK_PORTAL_MANUAL then on_snapshot (\<lambda>p. p\<lparr>ns_portal_reason := reason\<rparr>) s else s) in
        (ESP_OK, net_emit_snapshot (s\<lparr>nw_portal_opened_ms := now\<rparr>))
      else let s = effect Portal_Preparing s in
        if \<not> nw_ap_netif s \<and> \<not> pe_ap_created pe then (ESP_ERR_NO_MEM, s)
        else let s = s\<lparr>nw_ap_netif := True\<rparr> in
          (case load_portal_password pe of
             Inl e \<Rightarrow> (e, s)
           | Inr passphrase \<Rightarrow>
               let err = (if pe_set_mode pe \<noteq> ESP_OK then pe_set_mode pe
                          else if pe_set_config pe \<noteq> ESP_OK then pe_set_config pe else pe_start pe) in
               if err \<noteq> ESP_OK then (err, s)
               else (ESP_OK, net_emit_snapshot ((on_snapshot (\<lambda>p. p\<lparr>ns_provisioning := True, ns_portal_reason := reason,
                       ns_portal_passphrase := passphrase\<rparr>) s)\<lparr>nw_portal_opened_ms := now\<rparr>))))"

definition close_portal :: "network \<Rightarrow> network" where
  "close_portal s =
     (if \<not> ns_provisioning (nw_snapshot s) then s
      else net_emit_snapshot (on_snapshot (\<lambda>p. p\<lparr>ns_provisioning := False, ns_portal_reason := NETWORK_PORTAL_CLOSED, ns_portal_passphrase := []\<rparr>)
             (effect Portal_Stopped s)))"

definition set_setup_state :: "network_setup_state \<Rightarrow> network \<Rightarrow> network" where
  "set_setup_state state s = net_emit_snapshot (on_snapshot (\<lambda>p. p\<lparr>ns_setup_state := state\<rparr>) s)"

definition start_sntp_once :: "bool \<Rightarrow> network \<Rightarrow> network" where
  "start_sntp_once ok s = (if nw_sntp_started s then s else if ok then s\<lparr>nw_sntp_started := True\<rparr> else s)"

section \<open>Handlers\<close>

definition handle_disconnected :: "net_env \<Rightarrow> int \<Rightarrow> network \<Rightarrow> network" where
  "handle_disconnected ne reason s =
     (let was_connected = ns_connected (nw_snapshot s);
          s = on_snapshot (\<lambda>p. p\<lparr>ns_connected := False, ns_ipv4 := [], ns_disconnects := ns_disconnects p + 1, ns_last_disconnect_reason := reason\<rparr>)
                (s\<lparr>nw_sta_connecting := False\<rparr>);
          stage = ns_setup_state (nw_snapshot s); provisioned = ns_provisioned (nw_snapshot s);
          s = (if was_connected then s\<lparr>nw_offline_since_ms := ne_offline ne, nw_reconnect_delay_ms := RECONNECT_MIN_MS\<rparr> else s) in
      if stage = NETWORK_SETUP_CONNECTING then
        if reason = WIFI_REASON_ASSOC_LEAVE then s
        else let s = s\<lparr>nw_setup_failures := nw_setup_failures s + 1\<rparr> in
             if nw_setup_failures s \<ge> SETUP_CONNECT_ATTEMPTS
             then schedule_reconnect (ne_schedule ne) (set_setup_state NETWORK_SETUP_FAILED s)
             else net_emit_snapshot (s\<lparr>nw_next_connect_ms := ne_schedule ne + 2000\<rparr>)
      else if stage = NETWORK_SETUP_CONNECTED then s
      else net_emit_snapshot (if provisioned then schedule_reconnect (ne_schedule ne) s else s))"

definition handle_got_ip :: "net_env \<Rightarrow> string \<Rightarrow> network \<Rightarrow> network" where
  "handle_got_ip ne ip s =
     (let s = s\<lparr>nw_sta_connecting := False, nw_next_connect_ms := 0, nw_reconnect_delay_ms := RECONNECT_MIN_MS\<rparr>;
          ssid = (case ne_saved_ssid ne of None \<Rightarrow> [] | Some x \<Rightarrow> x);
          s = on_snapshot (\<lambda>p. p\<lparr>ns_connected := True, ns_provisioned := True, ns_ipv4 := take (NETWORK_IPV4_MAX - 1) ip, ns_sta_ssid := ssid,
                ns_setup_state := (if ns_setup_state p = NETWORK_SETUP_FAILED then NETWORK_SETUP_IDLE else ns_setup_state p)\<rparr>) s;
          stage = ns_setup_state (nw_snapshot s);
          portal = (if ns_provisioning (nw_snapshot s) then ns_portal_reason (nw_snapshot s) else NETWORK_PORTAL_CLOSED);
          s = start_sntp_once (ne_sntp ne) s in
      if stage = NETWORK_SETUP_CONNECTING
      then set_setup_state NETWORK_SETUP_CONNECTED (s\<lparr>nw_restart_at_ms := ne_restart ne + SETUP_RESTART_DELAY_MS\<rparr>)
      else if portal = NETWORK_PORTAL_FALLBACK \<or> portal = NETWORK_PORTAL_FIRST_SETUP then close_portal s
      else net_emit_snapshot s)"

text \<open>The loop of at most five attempts to store the credentials.\<close>

fun config_attempts :: "(nat \<Rightarrow> esp_err) \<Rightarrow> nat \<Rightarrow> nat \<Rightarrow> esp_err \<Rightarrow> esp_err" where
  "config_attempts set_config i 0 err = err"
| "config_attempts set_config i (Suc n) err =
     (if set_config i \<noteq> ESP_ERR_WIFI_STATE then set_config i else config_attempts set_config (i + 1) n (set_config i))"

definition handle_setup_submitted :: "net_env \<Rightarrow> string \<Rightarrow> network \<Rightarrow> network" where
  "handle_setup_submitted ne ssid s =
     (let s = effect Wifi_Disconnect s;
          err = config_attempts (ne_set_config ne) 0 5 ESP_FAIL;
          s = s\<lparr>nw_sta_connecting := False\<rparr> in
      if err \<noteq> ESP_OK then set_setup_state NETWORK_SETUP_FAILED s
      else net_emit_snapshot ((on_snapshot (\<lambda>p. p\<lparr>ns_provisioned := True, ns_setup_state := NETWORK_SETUP_CONNECTING, ns_sta_ssid := ssid\<rparr>) s)
             \<lparr>nw_setup_failures := 0, nw_setup_deadline_ms := ne_deadline ne + SETUP_CONNECT_TIMEOUT_MS,
              nw_reconnect_delay_ms := RECONNECT_MIN_MS, nw_next_connect_ms := ne_next ne + 1000\<rparr>))"

text \<open>
  The steps of \<open>handle_tick\<close>, with the time and the snapshot taken at its start: a test of new credentials
  that takes too long, the reconnect that is due, the portal after a long time offline, and the end of a
  portal that was opened by hand.
\<close>

definition tick_setup_timeout :: "net_env \<Rightarrow> net_snapshot \<Rightarrow> network \<Rightarrow> network" where
  "tick_setup_timeout ne snap s =
     (if ns_setup_state snap = NETWORK_SETUP_CONNECTING \<and> ne_tick ne \<ge> nw_setup_deadline_ms s
      then schedule_reconnect (ne_tick_schedule ne) (effect Wifi_Disconnect (set_setup_state NETWORK_SETUP_FAILED s)) else s)"

definition tick_connect :: "net_env \<Rightarrow> net_snapshot \<Rightarrow> network \<Rightarrow> network" where
  "tick_connect ne snap s =
     (if nw_next_connect_ms s \<noteq> 0 \<and> ne_tick ne \<ge> nw_next_connect_ms s \<and> \<not> ns_connected snap \<and> ns_provisioned snap
      then sta_connect_now (ne_tick_connect ne) s else s)"

definition tick_fallback :: "net_config \<Rightarrow> net_env \<Rightarrow> net_snapshot \<Rightarrow> network \<Rightarrow> network" where
  "tick_fallback nc ne snap s =
     (if \<not> ns_connected snap \<and> ns_provisioned snap \<and> \<not> ns_provisioning snap \<and>
         ne_tick ne - nw_offline_since_ms s \<ge> CONFIG_GATEWAY_WIFI_PORTAL_FALLBACK_SECONDS nc * 1000
      then (case open_portal (ne_tick_portal ne) (ne_tick_opened ne) NETWORK_PORTAL_FALLBACK s of
              (e, s) \<Rightarrow> if e \<noteq> ESP_OK then s\<lparr>nw_offline_since_ms := ne_tick ne\<rparr> else s) else s)"

definition tick_manual :: "net_config \<Rightarrow> net_env \<Rightarrow> net_snapshot \<Rightarrow> network \<Rightarrow> network" where
  "tick_manual nc ne snap s =
     (if ns_provisioning snap \<and> ns_portal_reason snap = NETWORK_PORTAL_MANUAL \<and>
         ns_setup_state snap \<noteq> NETWORK_SETUP_CONNECTING \<and> ns_setup_state snap \<noteq> NETWORK_SETUP_CONNECTED \<and>
         ne_tick ne - nw_portal_opened_ms s \<ge> CONFIG_GATEWAY_WIFI_MANUAL_PORTAL_SECONDS nc * 1000
      then let s = close_portal s in if \<not> ns_connected snap then s\<lparr>nw_offline_since_ms := ne_tick ne\<rparr> else s
      else s)"

definition handle_tick :: "net_config \<Rightarrow> net_env \<Rightarrow> network \<Rightarrow> network" where
  "handle_tick nc ne s =
     (let snap = nw_snapshot s in
      if nw_restart_at_ms s \<noteq> 0 \<and> ne_tick ne \<ge> nw_restart_at_ms s then effect Restarted s
      else tick_manual nc ne snap (tick_fallback nc ne snap (tick_connect ne snap (tick_setup_timeout ne snap s))))"

definition handle_command :: "net_env \<Rightarrow> net_cmd \<Rightarrow> network \<Rightarrow> network" where
  "handle_command ne cmd s =
     (case cmd of
        NET_CMD_STA_START \<Rightarrow>
          if ns_provisioned (nw_snapshot s) \<and> ns_portal_reason (nw_snapshot s) \<noteq> NETWORK_PORTAL_FIRST_SETUP
          then sta_connect_now (ne_start_connect ne) s else s
      | NET_CMD_DISCONNECTED reason \<Rightarrow> handle_disconnected ne reason s
      | NET_CMD_GOT_IP ip \<Rightarrow> handle_got_ip ne ip s
      | NET_CMD_OPEN_PORTAL reason \<Rightarrow> snd (open_portal (ne_portal ne) (ne_opened ne) reason s)
      | NET_CMD_SETUP_SUBMITTED ssid password \<Rightarrow> handle_setup_submitted ne ssid s
      | NET_CMD_TICK \<Rightarrow> s)"

text \<open>One turn of \<open>network_task\<close>.\<close>

definition network_turn :: "net_config \<Rightarrow> net_env \<Rightarrow> net_cmd \<Rightarrow> network \<Rightarrow> network" where
  "network_turn nc ne cmd s = handle_tick nc ne (handle_command ne cmd s)"

text \<open>The state after \<open>network_service_init\<close> has read the stored network.\<close>

definition network_start :: "string option \<Rightarrow> int \<Rightarrow> network" where
  "network_start saved now =
     \<lparr>nw_snapshot = \<lparr>ns_provisioned = (case saved of Some ssid \<Rightarrow> ssid \<noteq> [] | None \<Rightarrow> False), ns_provisioning = False, ns_connected = False,
        ns_portal_reason = NETWORK_PORTAL_CLOSED, ns_setup_state = NETWORK_SETUP_IDLE, ns_reconnects = 0, ns_disconnects = 0,
        ns_last_disconnect_reason = 0, ns_ipv4 = [], ns_sta_ssid = (case saved of Some ssid \<Rightarrow> ssid | None \<Rightarrow> []), ns_portal_passphrase = []\<rparr>,
      nw_reconnect_delay_ms = RECONNECT_MIN_MS, nw_next_connect_ms = 0, nw_offline_since_ms = now, nw_portal_opened_ms = 0,
      nw_setup_deadline_ms = 0, nw_restart_at_ms = 0, nw_setup_failures = 0, nw_sta_connecting = False, nw_sntp_started = False,
      nw_ap_netif = False, nw_effects = []\<rparr>"

section \<open>Runs\<close>

text \<open>An event of the driver that answers a request to connect; leaving the previous network during a test is no answer.\<close>

definition answers :: "network \<Rightarrow> net_cmd \<Rightarrow> bool" where
  "answers s cmd =
     (case cmd of
        NET_CMD_GOT_IP _ \<Rightarrow> True
      | NET_CMD_DISCONNECTED reason \<Rightarrow> \<not> (ns_setup_state (nw_snapshot s) = NETWORK_SETUP_CONNECTING \<and> reason = WIFI_REASON_ASSOC_LEAVE)
      | _ \<Rightarrow> False)"

definition requested :: "network \<Rightarrow> network \<Rightarrow> bool" where
  "requested s s' \<longleftrightarrow> Wifi_Connect ESP_OK \<in> set (drop (length (nw_effects s)) (nw_effects s'))"

text \<open>Turns in which the clock is not negative and the driver accepts the requests to connect.\<close>

definition env_ok :: "net_env \<Rightarrow> bool" where
  "env_ok ne \<longleftrightarrow> ne_start_connect ne = ESP_OK \<and> ne_tick_connect ne = ESP_OK \<and> 0 \<le> ne_schedule ne \<and> 0 \<le> ne_restart ne \<and>
     0 \<le> ne_next ne \<and> 0 \<le> ne_tick_schedule ne"

text \<open>
  The states of the task, with two facts about the driver: whether it has accepted a request to connect and not
  answered it yet, and whether the start of the station is still to come. \<open>stored\<close> says whether a network
  was stored when the gateway started; the first-time portal is only requested when there was none.
\<close>

inductive net_run :: "net_config \<Rightarrow> bool \<Rightarrow> network \<Rightarrow> bool \<Rightarrow> bool \<Rightarrow> bool" for nc :: net_config where
  net_start: "net_run nc (ns_provisioned (nw_snapshot (network_start saved now))) (network_start saved now) False
    (ns_provisioned (nw_snapshot (network_start saved now)))"
| net_turn: "net_run nc stored s owed waiting \<Longrightarrow> env_ok ne \<Longrightarrow> Restarted \<notin> set (nw_effects s) \<Longrightarrow>
    cmd \<noteq> NET_CMD_OPEN_PORTAL NETWORK_PORTAL_CLOSED \<Longrightarrow> (stored \<longrightarrow> cmd \<noteq> NET_CMD_OPEN_PORTAL NETWORK_PORTAL_FIRST_SETUP) \<Longrightarrow>
    s' = network_turn nc ne cmd s \<Longrightarrow>
    net_run nc stored s' (owed \<and> \<not> answers s cmd \<or> requested s s') (waiting \<and> cmd \<noteq> NET_CMD_STA_START)"

definition delay_ok :: "network \<Rightarrow> bool" where
  "delay_ok s \<longleftrightarrow> RECONNECT_MIN_MS \<le> nw_reconnect_delay_ms s \<and> nw_reconnect_delay_ms s \<le> RECONNECT_MAX_MS"

definition portal_ok :: "net_snapshot \<Rightarrow> bool" where
  "portal_ok p \<longleftrightarrow> (ns_provisioning p \<longleftrightarrow> ns_portal_reason p \<noteq> NETWORK_PORTAL_CLOSED) \<and> (ns_provisioning p \<or> ns_portal_passphrase p = [])"

text \<open>Nothing is forgotten: offline, with a stored network, something is going to happen.\<close>

definition alive :: "bool \<Rightarrow> bool \<Rightarrow> network \<Rightarrow> bool" where
  "alive owed waiting s \<longleftrightarrow>
     (ns_provisioned (nw_snapshot s) \<and> \<not> ns_connected (nw_snapshot s) \<longrightarrow> waiting \<or> nw_next_connect_ms s \<noteq> 0 \<or> owed \<or> nw_restart_at_ms s \<noteq> 0) \<and>
     (ns_setup_state (nw_snapshot s) = NETWORK_SETUP_CONNECTING \<longrightarrow> nw_next_connect_ms s \<noteq> 0 \<or> owed) \<and>
     (ns_setup_state (nw_snapshot s) = NETWORK_SETUP_CONNECTED \<longrightarrow> nw_restart_at_ms s \<noteq> 0)"

definition net_inv :: "bool \<Rightarrow> bool \<Rightarrow> bool \<Rightarrow> network \<Rightarrow> bool" where
  "net_inv stored owed waiting s \<longleftrightarrow> delay_ok s \<and> portal_ok (nw_snapshot s) \<and> alive owed waiting s \<and> (waiting \<longrightarrow> stored) \<and>
     (stored \<longrightarrow> ns_portal_reason (nw_snapshot s) \<noteq> NETWORK_PORTAL_FIRST_SETUP)"

lemmas net_simps = effect_def net_emit_snapshot_def set_setup_state_def sta_connect_now_def start_sntp_once_def Let_def

lemma portal_ok_simps [simp]:
  "portal_ok (p\<lparr>ns_setup_state := x\<rparr>) = portal_ok p" "portal_ok (p\<lparr>ns_reconnects := n\<rparr>) = portal_ok p"
  by (simp_all add: portal_ok_def)

text \<open>The delay stays between one second and thirty.\<close>

lemma schedule_fields:
  "nw_snapshot (schedule_reconnect now s) = (nw_snapshot s)\<lparr>ns_reconnects := ns_reconnects (nw_snapshot s) + 1\<rparr>"
  "nw_effects (schedule_reconnect now s) = nw_effects s"
  "nw_restart_at_ms (schedule_reconnect now s) = nw_restart_at_ms s"
  by (simp_all add: schedule_reconnect_def Let_def)

lemma schedule_delay:
  assumes "delay_ok s"
  shows "delay_ok (schedule_reconnect now s)" "0 \<le> now \<Longrightarrow> nw_next_connect_ms (schedule_reconnect now s) \<noteq> 0"
    "nw_next_connect_ms (schedule_reconnect now s) \<le> now + 30000"
proof -
  have d: "1000 \<le> unat (nw_reconnect_delay_ms s)" "unat (nw_reconnect_delay_ms s) \<le> 30000"
    using assms by (simp_all add: delay_ok_def RECONNECT_MIN_MS_def RECONNECT_MAX_MS_def word_le_nat_alt)
  then have "unat (nw_reconnect_delay_ms s * 2) = unat (nw_reconnect_delay_ms s) * 2" by (simp add: unat_word_ariths)
  then show "delay_ok (schedule_reconnect now s)"
    using d by (auto simp: delay_ok_def schedule_reconnect_def Let_def RECONNECT_MIN_MS_def RECONNECT_MAX_MS_def word_le_nat_alt word_less_nat_alt)
  have u: "1000 \<le> uint (nw_reconnect_delay_ms s)" "uint (nw_reconnect_delay_ms s) \<le> 30000"
    using assms by (simp_all add: delay_ok_def RECONNECT_MIN_MS_def RECONNECT_MAX_MS_def word_le_def)
  show "nw_next_connect_ms (schedule_reconnect now s) \<noteq> 0" if "0 \<le> now"
    using that d u by (simp add: schedule_reconnect_def Let_def RECONNECT_WITH_PORTAL_MS_def)
  show "nw_next_connect_ms (schedule_reconnect now s) \<le> now + 30000"
    using d u by (simp add: schedule_reconnect_def Let_def RECONNECT_WITH_PORTAL_MS_def)
qed

text \<open>What the helpers do to the fields of the invariant.\<close>

lemma open_portal_fields:
  assumes "open_portal pe now reason s = (e, s')" and "portal_ok (nw_snapshot s)" and "reason \<noteq> NETWORK_PORTAL_CLOSED"
  shows "portal_ok (nw_snapshot s')" "ns_provisioned (nw_snapshot s') = ns_provisioned (nw_snapshot s)"
    "ns_connected (nw_snapshot s') = ns_connected (nw_snapshot s)" "ns_setup_state (nw_snapshot s') = ns_setup_state (nw_snapshot s)"
    "ns_portal_reason (nw_snapshot s') \<in> {ns_portal_reason (nw_snapshot s), reason}"
    "nw_next_connect_ms s' = nw_next_connect_ms s" "nw_restart_at_ms s' = nw_restart_at_ms s"
    "nw_reconnect_delay_ms s' = nw_reconnect_delay_ms s" "\<exists>es. nw_effects s' = nw_effects s @ es \<and> (\<forall>x. Wifi_Connect x \<notin> set es)"
  using assms by (auto simp: open_portal_def net_simps portal_ok_def split: if_splits sum.splits)

lemma close_portal_fields:
  "portal_ok (nw_snapshot s) \<Longrightarrow> portal_ok (nw_snapshot (close_portal s))" "ns_provisioned (nw_snapshot (close_portal s)) = ns_provisioned (nw_snapshot s)"
  "ns_connected (nw_snapshot (close_portal s)) = ns_connected (nw_snapshot s)"
  "ns_setup_state (nw_snapshot (close_portal s)) = ns_setup_state (nw_snapshot s)"
  "ns_portal_reason (nw_snapshot (close_portal s)) \<in> {ns_portal_reason (nw_snapshot s), NETWORK_PORTAL_CLOSED}"
  "nw_next_connect_ms (close_portal s) = nw_next_connect_ms s" "nw_restart_at_ms (close_portal s) = nw_restart_at_ms s"
  "nw_reconnect_delay_ms (close_portal s) = nw_reconnect_delay_ms s"
  "\<exists>es. nw_effects (close_portal s) = nw_effects s @ es \<and> (\<forall>x. Wifi_Connect x \<notin> set es)"
  by (auto simp: close_portal_def net_simps portal_ok_def)

lemma net_inv_cong:
  assumes "net_inv stored owed waiting s" and "portal_ok (nw_snapshot s')" "ns_provisioned (nw_snapshot s') = ns_provisioned (nw_snapshot s)"
    "ns_connected (nw_snapshot s') = ns_connected (nw_snapshot s)" "ns_setup_state (nw_snapshot s') = ns_setup_state (nw_snapshot s)"
    "ns_portal_reason (nw_snapshot s') \<in> {ns_portal_reason (nw_snapshot s), reason}" "stored \<longrightarrow> reason \<noteq> NETWORK_PORTAL_FIRST_SETUP"
    "nw_next_connect_ms s' = nw_next_connect_ms s" "nw_restart_at_ms s' = nw_restart_at_ms s" "nw_reconnect_delay_ms s' = nw_reconnect_delay_ms s"
  shows "net_inv stored owed waiting s'"
  using assms by (auto simp: net_inv_def alive_def delay_ok_def)

text \<open>The invariant in the middle of a turn: a request of this turn counts.\<close>

definition turn_inv :: "bool \<Rightarrow> bool \<Rightarrow> bool \<Rightarrow> network \<Rightarrow> network \<Rightarrow> bool" where
  "turn_inv stored owed waiting s0 s \<longleftrightarrow> (\<exists>es. nw_effects s = nw_effects s0 @ es) \<and> net_inv stored (owed \<or> requested s0 s) waiting s"

lemma requested_append: "nw_effects s = nw_effects s0 @ es \<Longrightarrow> requested s0 s \<longleftrightarrow> Wifi_Connect ESP_OK \<in> set es"
  by (simp add: requested_def)

lemma turn_inv_keep:
  assumes "turn_inv stored owed waiting s0 s" and "nw_effects s' = nw_effects s @ es" and "\<forall>x. Wifi_Connect x \<notin> set es"
    and "net_inv stored (owed \<or> requested s0 s) waiting s \<Longrightarrow> net_inv stored (owed \<or> requested s0 s) waiting s'"
  shows "turn_inv stored owed waiting s0 s'"
  using assms by (auto simp: turn_inv_def requested_def)

lemma tick_timeout_inv:
  assumes "turn_inv stored owed waiting s0 s" and "env_ok ne"
  shows "turn_inv stored owed waiting s0 (tick_setup_timeout ne snap s)"
proof (cases "ns_setup_state snap = NETWORK_SETUP_CONNECTING \<and> ne_tick ne \<ge> nw_setup_deadline_ms s")
  case True
  let ?s = "effect Wifi_Disconnect (set_setup_state NETWORK_SETUP_FAILED s)"
  have "net_inv stored o' waiting (schedule_reconnect (ne_tick_schedule ne) ?s)" if "net_inv stored o' waiting s" for o'
  proof -
    have "delay_ok ?s" using that by (simp add: net_inv_def delay_ok_def net_simps)
    from schedule_delay(1,2) [OF this, of "ne_tick_schedule ne"] that assms(2) show ?thesis
      by (simp add: net_inv_def alive_def portal_ok_def schedule_fields env_ok_def) (auto simp: net_simps)
  qed
  then show ?thesis using True assms(1)
    by (intro turn_inv_keep [OF assms(1), of _ "[Shown (nw_snapshot s\<lparr>ns_setup_state := NETWORK_SETUP_FAILED\<rparr>), Wifi_Disconnect]"])
      (simp_all add: tick_setup_timeout_def schedule_fields, simp add: net_simps)
next
  case False
  then show ?thesis using assms by (auto simp: tick_setup_timeout_def)
qed

lemma connect_inv:
  assumes "turn_inv stored owed waiting s0 s" and "waiting' \<longrightarrow> waiting"
  shows "turn_inv stored owed waiting' s0 (sta_connect_now ESP_OK s)"
proof -
  obtain es where es: "nw_effects s = nw_effects s0 @ es" using assms(1) by (auto simp: turn_inv_def)
  then have e: "nw_effects (sta_connect_now ESP_OK s) = nw_effects s0 @ (es @ [Wifi_Connect ESP_OK])" by (simp add: net_simps)
  then have "requested s0 (sta_connect_now ESP_OK s)" by (simp add: requested_append)
  moreover have "net_inv stored True waiting' (sta_connect_now ESP_OK s)"
    using assms by (auto simp: turn_inv_def net_inv_def alive_def delay_ok_def net_simps)
  ultimately show ?thesis using e by (simp add: turn_inv_def)
qed

lemma tick_connect_inv:
  assumes "turn_inv stored owed waiting s0 s" and "env_ok ne"
  shows "turn_inv stored owed waiting s0 (tick_connect ne snap s)"
  using connect_inv [OF assms(1), of waiting] assms by (simp add: tick_connect_def env_ok_def)

lemma tick_fallback_inv:
  assumes "turn_inv stored owed waiting s0 s"
  shows "turn_inv stored owed waiting s0 (tick_fallback nc ne snap s)"
proof -
  obtain e s1 where o: "open_portal (ne_tick_portal ne) (ne_tick_opened ne) NETWORK_PORTAL_FALLBACK s = (e, s1)" by fastforce
  have p: "portal_ok (nw_snapshot s)" using assms by (simp add: turn_inv_def net_inv_def)
  note f = open_portal_fields [OF o p]
  obtain es where es: "nw_effects s1 = nw_effects s @ es" "\<forall>x. Wifi_Connect x \<notin> set es" using f(9) by auto
  have "turn_inv stored owed waiting s0 s1"
    using f by (intro turn_inv_keep [OF assms es] net_inv_cong [of stored _ waiting s s1 NETWORK_PORTAL_FALLBACK]) simp_all
  moreover have "turn_inv stored owed waiting s0 (s1\<lparr>nw_offline_since_ms := t\<rparr>)" if "turn_inv stored owed waiting s0 s1" for t
    using that by (simp add: turn_inv_def net_inv_def alive_def delay_ok_def requested_def)
  ultimately show ?thesis using assms o by (simp add: tick_fallback_def)
qed

lemma tick_manual_inv:
  assumes "turn_inv stored owed waiting s0 s"
  shows "turn_inv stored owed waiting s0 (tick_manual nc ne snap s)"
proof -
  have p: "portal_ok (nw_snapshot s)" using assms by (simp add: turn_inv_def net_inv_def)
  obtain es where es: "nw_effects (close_portal s) = nw_effects s @ es" "\<forall>x. Wifi_Connect x \<notin> set es" using close_portal_fields(9) by auto
  have "turn_inv stored owed waiting s0 (close_portal s)"
    using close_portal_fields [of s] p
    by (intro turn_inv_keep [OF assms es] net_inv_cong [of stored _ waiting s "close_portal s" NETWORK_PORTAL_CLOSED]) simp_all
  moreover have "turn_inv stored owed waiting s0 (s1\<lparr>nw_offline_since_ms := t\<rparr>)" if "turn_inv stored owed waiting s0 s1" for t s1
    using that by (simp add: turn_inv_def net_inv_def alive_def delay_ok_def requested_def)
  ultimately show ?thesis using assms by (simp add: tick_manual_def Let_def)
qed

lemma tick_inv:
  assumes "turn_inv stored owed waiting s0 s" and "env_ok ne"
  shows "turn_inv stored owed waiting s0 (handle_tick nc ne s)"
proof -
  have "turn_inv stored owed waiting s0 (effect Restarted s)"
    by (rule turn_inv_keep [OF assms(1), of _ "[Restarted]"]) (simp_all add: effect_def net_inv_def alive_def delay_ok_def)
  then show ?thesis using assms tick_timeout_inv tick_connect_inv tick_fallback_inv tick_manual_inv by (simp add: handle_tick_def Let_def)
qed

section \<open>Commands\<close>

lemma turn_inv_start: "net_inv stored owed waiting s \<Longrightarrow> turn_inv stored owed waiting s s"
  by (simp add: turn_inv_def requested_def)

lemma turn_inv_quiet:
  assumes "nw_effects s' = nw_effects s @ es" and "\<forall>x. Wifi_Connect x \<notin> set es" and "net_inv stored owed waiting s'"
  shows "turn_inv stored owed waiting s s'"
  using assms by (auto simp: turn_inv_def requested_def)

lemma start_inv:
  assumes "net_inv stored owed waiting s" and "env_ok ne"
  shows "turn_inv stored owed False s (handle_command ne NET_CMD_STA_START s)"
proof (cases "ns_provisioned (nw_snapshot s) \<and> ns_portal_reason (nw_snapshot s) \<noteq> NETWORK_PORTAL_FIRST_SETUP")
  case True
  then show ?thesis using connect_inv [OF turn_inv_start [OF assms(1)], of False] assms(2) by (simp add: handle_command_def env_ok_def)
next
  case False
  then have "net_inv stored owed False s" using assms(1) by (auto simp: net_inv_def alive_def)
  then show ?thesis using False turn_inv_start by (auto simp: handle_command_def)
qed

text \<open>The state after the first part of \<open>handle_disconnected\<close>.\<close>

definition lost :: "net_env \<Rightarrow> int \<Rightarrow> network \<Rightarrow> network" where
  "lost ne reason s =
     (let s1 = on_snapshot (\<lambda>p. p\<lparr>ns_connected := False, ns_ipv4 := [], ns_disconnects := ns_disconnects p + 1, ns_last_disconnect_reason := reason\<rparr>)
                 (s\<lparr>nw_sta_connecting := False\<rparr>) in
      if ns_connected (nw_snapshot s) then s1\<lparr>nw_offline_since_ms := ne_offline ne, nw_reconnect_delay_ms := RECONNECT_MIN_MS\<rparr> else s1)"

lemma lost_fields:
  "ns_setup_state (nw_snapshot (lost ne reason s)) = ns_setup_state (nw_snapshot s)" "ns_provisioned (nw_snapshot (lost ne reason s)) = ns_provisioned (nw_snapshot s)"
  "\<not> ns_connected (nw_snapshot (lost ne reason s))" "ns_portal_reason (nw_snapshot (lost ne reason s)) = ns_portal_reason (nw_snapshot s)"
  "portal_ok (nw_snapshot (lost ne reason s)) = portal_ok (nw_snapshot s)" "nw_effects (lost ne reason s) = nw_effects s"
  "nw_next_connect_ms (lost ne reason s) = nw_next_connect_ms s" "nw_restart_at_ms (lost ne reason s) = nw_restart_at_ms s"
  "delay_ok s \<Longrightarrow> delay_ok (lost ne reason s)"
  by (auto simp: lost_def Let_def portal_ok_def delay_ok_def RECONNECT_MIN_MS_def RECONNECT_MAX_MS_def)

lemma disconnected_lost:
  "handle_disconnected ne reason s =
    (let s1 = lost ne reason s; s2 = s1\<lparr>nw_setup_failures := nw_setup_failures s1 + 1\<rparr> in
     if ns_setup_state (nw_snapshot s) = NETWORK_SETUP_CONNECTING then
       if reason = WIFI_REASON_ASSOC_LEAVE then s1
       else if nw_setup_failures s2 \<ge> SETUP_CONNECT_ATTEMPTS then schedule_reconnect (ne_schedule ne) (set_setup_state NETWORK_SETUP_FAILED s2)
       else net_emit_snapshot (s2\<lparr>nw_next_connect_ms := ne_schedule ne + 2000\<rparr>)
     else if ns_setup_state (nw_snapshot s) = NETWORK_SETUP_CONNECTED then s1
     else net_emit_snapshot (if ns_provisioned (nw_snapshot s) then schedule_reconnect (ne_schedule ne) s1 else s1))"
  by (simp add: handle_disconnected_def lost_def Let_def)

lemma disconnected_inv:
  assumes inv: "net_inv stored owed waiting s" and env: "env_ok ne"
  shows "turn_inv stored (owed \<and> \<not> answers s (NET_CMD_DISCONNECTED reason)) waiting s (handle_disconnected ne reason s)"
proof -
  let ?o = "owed \<and> \<not> answers s (NET_CMD_DISCONNECTED reason)" and ?s1 = "lost ne reason s"
  let ?s2 = "?s1\<lparr>nw_setup_failures := nw_setup_failures ?s1 + 1\<rparr>"
  note f = lost_fields [where ne = ne and reason = reason and s = s]
  have i: "delay_ok s" "portal_ok (nw_snapshot s)" "alive owed waiting s" "waiting \<longrightarrow> stored"
    "stored \<longrightarrow> ns_portal_reason (nw_snapshot s) \<noteq> NETWORK_PORTAL_FIRST_SETUP" using inv by (simp_all add: net_inv_def)
  have sch: "net_inv stored ?o waiting (schedule_reconnect (ne_schedule ne) t)"
    if "delay_ok t" "portal_ok (nw_snapshot t)" "ns_portal_reason (nw_snapshot t) = ns_portal_reason (nw_snapshot s)"
      "ns_setup_state (nw_snapshot t) \<noteq> NETWORK_SETUP_CONNECTED" for t
    using schedule_delay [OF that(1), of "ne_schedule ne"] that i env by (auto simp: net_inv_def alive_def schedule_fields env_ok_def portal_ok_def)
  consider (leave) "ns_setup_state (nw_snapshot s) = NETWORK_SETUP_CONNECTING" "reason = WIFI_REASON_ASSOC_LEAVE"
    | (failed) "ns_setup_state (nw_snapshot s) = NETWORK_SETUP_CONNECTING" "reason \<noteq> WIFI_REASON_ASSOC_LEAVE" "nw_setup_failures ?s2 \<ge> SETUP_CONNECT_ATTEMPTS"
    | (again) "ns_setup_state (nw_snapshot s) = NETWORK_SETUP_CONNECTING" "reason \<noteq> WIFI_REASON_ASSOC_LEAVE" "\<not> nw_setup_failures ?s2 \<ge> SETUP_CONNECT_ATTEMPTS"
    | (restarting) "ns_setup_state (nw_snapshot s) = NETWORK_SETUP_CONNECTED"
    | (plain) "ns_setup_state (nw_snapshot s) \<noteq> NETWORK_SETUP_CONNECTING" "ns_setup_state (nw_snapshot s) \<noteq> NETWORK_SETUP_CONNECTED"
    by blast
  then show ?thesis
  proof cases
    case leave
    have "net_inv stored ?o waiting ?s1" using i f leave by (auto simp: net_inv_def alive_def answers_def)
    then show ?thesis using leave f by (intro turn_inv_quiet [of _ _ "[]"]) (simp_all add: disconnected_lost Let_def)
  next
    case failed
    let ?t = "set_setup_state NETWORK_SETUP_FAILED ?s2"
    have "net_inv stored ?o waiting (schedule_reconnect (ne_schedule ne) ?t)"
      using i f by (intro sch) (simp_all add: net_simps delay_ok_def)
    then show ?thesis using failed f
      by (intro turn_inv_quiet [of _ _ "[Shown (nw_snapshot ?t)]"]) (simp_all add: disconnected_lost Let_def schedule_fields, simp add: net_simps)
  next
    case again
    let ?t = "net_emit_snapshot (?s2\<lparr>nw_next_connect_ms := ne_schedule ne + 2000\<rparr>)"
    have "net_inv stored ?o waiting ?t" using i f again env by (auto simp: net_inv_def alive_def net_simps env_ok_def delay_ok_def)
    then show ?thesis using again f
      by (intro turn_inv_quiet [of _ _ "[Shown (nw_snapshot ?t)]"]) (simp_all add: disconnected_lost Let_def, simp add: net_simps)
  next
    case restarting
    have "net_inv stored ?o waiting ?s1" using i f restarting by (auto simp: net_inv_def alive_def)
    then show ?thesis using restarting f by (intro turn_inv_quiet [of _ _ "[]"]) (simp_all add: disconnected_lost Let_def)
  next
    case plain
    let ?t = "if ns_provisioned (nw_snapshot s) then schedule_reconnect (ne_schedule ne) ?s1 else ?s1"
    have "net_inv stored ?o waiting ?t" using sch [of ?s1] i f plain by (auto simp: net_inv_def alive_def)
    then have "net_inv stored ?o waiting (net_emit_snapshot ?t)" by (simp add: net_inv_def alive_def delay_ok_def net_simps)
    then show ?thesis using plain f
      by (intro turn_inv_quiet [of _ _ "[Shown (nw_snapshot ?t)]"]) (simp_all add: disconnected_lost Let_def, simp add: net_simps schedule_fields)
  qed
qed

lemma got_ip_inv:
  assumes inv: "net_inv stored owed waiting s" and env: "env_ok ne"
  shows "turn_inv stored False waiting s (handle_got_ip ne ip s)"
proof -
  define s1 where "s1 = start_sntp_once (ne_sntp ne) (on_snapshot (\<lambda>p. p\<lparr>ns_connected := True, ns_provisioned := True,
      ns_ipv4 := take (NETWORK_IPV4_MAX - 1) ip, ns_sta_ssid := (case ne_saved_ssid ne of None \<Rightarrow> [] | Some x \<Rightarrow> x),
      ns_setup_state := (if ns_setup_state p = NETWORK_SETUP_FAILED then NETWORK_SETUP_IDLE else ns_setup_state p)\<rparr>)
    (s\<lparr>nw_sta_connecting := False, nw_next_connect_ms := 0, nw_reconnect_delay_ms := RECONNECT_MIN_MS\<rparr>))"
  have f: "ns_connected (nw_snapshot s1)" "portal_ok (nw_snapshot s1) = portal_ok (nw_snapshot s)" "delay_ok s1" "nw_effects s1 = nw_effects s"
    "ns_portal_reason (nw_snapshot s1) = ns_portal_reason (nw_snapshot s)" "ns_provisioning (nw_snapshot s1) = ns_provisioning (nw_snapshot s)"
    "ns_setup_state (nw_snapshot s1) = (if ns_setup_state (nw_snapshot s) = NETWORK_SETUP_FAILED then NETWORK_SETUP_IDLE else ns_setup_state (nw_snapshot s))"
    "nw_restart_at_ms s1 = nw_restart_at_ms s"
    by (simp_all add: s1_def start_sntp_once_def portal_ok_def delay_ok_def RECONNECT_MIN_MS_def RECONNECT_MAX_MS_def)
  have i: "portal_ok (nw_snapshot s)" "alive owed waiting s" "waiting \<longrightarrow> stored"
    "stored \<longrightarrow> ns_portal_reason (nw_snapshot s) \<noteq> NETWORK_PORTAL_FIRST_SETUP" using inv by (simp_all add: net_inv_def)
  let ?stage = "ns_setup_state (nw_snapshot s1)" and ?portal = "if ns_provisioning (nw_snapshot s1) then ns_portal_reason (nw_snapshot s1) else NETWORK_PORTAL_CLOSED"
  have h: "handle_got_ip ne ip s =
     (if ?stage = NETWORK_SETUP_CONNECTING then set_setup_state NETWORK_SETUP_CONNECTED (s1\<lparr>nw_restart_at_ms := ne_restart ne + SETUP_RESTART_DELAY_MS\<rparr>)
      else if ?portal = NETWORK_PORTAL_FALLBACK \<or> ?portal = NETWORK_PORTAL_FIRST_SETUP then close_portal s1 else net_emit_snapshot s1)"
    by (simp add: handle_got_ip_def s1_def start_sntp_once_def Let_def)
  show ?thesis
  proof (cases "?stage = NETWORK_SETUP_CONNECTING")
    case True
    let ?t = "set_setup_state NETWORK_SETUP_CONNECTED (s1\<lparr>nw_restart_at_ms := ne_restart ne + SETUP_RESTART_DELAY_MS\<rparr>)"
    have "net_inv stored False waiting ?t"
      using f i env by (auto simp: net_inv_def alive_def net_simps delay_ok_def portal_ok_def env_ok_def SETUP_RESTART_DELAY_MS_def)
    then show ?thesis using h True f(4) by (intro turn_inv_quiet [of _ _ "[Shown (nw_snapshot ?t)]"]) (simp_all add: net_simps)
  next
    case False
    have inv1: "net_inv stored False waiting s1" using f i False by (auto simp: net_inv_def alive_def)
    obtain es where es: "nw_effects (close_portal s1) = nw_effects s1 @ es" "\<forall>x. Wifi_Connect x \<notin> set es" using close_portal_fields(9) by auto
    have "net_inv stored False waiting (close_portal s1)"
      using close_portal_fields [of s1] f(2) i(1) inv1 by (intro net_inv_cong [of stored _ waiting s1 "close_portal s1" NETWORK_PORTAL_CLOSED]) simp_all
    then have "turn_inv stored False waiting s (close_portal s1)" using es f(4) by (intro turn_inv_quiet [of _ _ es]) simp_all
    moreover have "turn_inv stored False waiting s (net_emit_snapshot s1)"
      using inv1 f(4) by (intro turn_inv_quiet [of _ _ "[Shown (nw_snapshot s1)]"]) (simp_all add: net_inv_def alive_def delay_ok_def net_simps)
    ultimately show ?thesis using h False by simp
  qed
qed

lemma open_inv:
  assumes inv: "net_inv stored owed waiting s" and "reason \<noteq> NETWORK_PORTAL_CLOSED" "stored \<longrightarrow> reason \<noteq> NETWORK_PORTAL_FIRST_SETUP"
  shows "turn_inv stored owed waiting s (snd (open_portal pe now reason s))"
proof -
  obtain e s1 where o: "open_portal pe now reason s = (e, s1)" by fastforce
  have p: "portal_ok (nw_snapshot s)" using inv by (simp add: net_inv_def)
  note f = open_portal_fields [OF o p assms(2)]
  obtain es where es: "nw_effects s1 = nw_effects s @ es" "\<forall>x. Wifi_Connect x \<notin> set es" using f(9) by auto
  have "net_inv stored owed waiting s1" using f assms(3) by (intro net_inv_cong [OF inv, of s1 reason]) simp_all
  then show ?thesis using o turn_inv_quiet [OF es] by simp
qed

lemma submitted_inv:
  assumes inv: "net_inv stored owed waiting s" and env: "env_ok ne"
  shows "turn_inv stored owed waiting s (handle_setup_submitted ne ssid s)"
proof -
  let ?s = "(effect Wifi_Disconnect s)\<lparr>nw_sta_connecting := False\<rparr>"
  show ?thesis
  proof (cases "config_attempts (ne_set_config ne) 0 5 ESP_FAIL = ESP_OK")
    case True
    then show ?thesis using inv env
      by (intro turn_inv_quiet [of _ _ "[Wifi_Disconnect, Shown (nw_snapshot s\<lparr>ns_provisioned := True, ns_setup_state := NETWORK_SETUP_CONNECTING, ns_sta_ssid := ssid\<rparr>)]"])
        (auto simp: handle_setup_submitted_def net_simps net_inv_def alive_def delay_ok_def portal_ok_def env_ok_def RECONNECT_MIN_MS_def RECONNECT_MAX_MS_def)
  next
    case False
    then show ?thesis using inv
      by (intro turn_inv_quiet [of _ _ "[Wifi_Disconnect, Shown (nw_snapshot s\<lparr>ns_setup_state := NETWORK_SETUP_FAILED\<rparr>)]"])
        (auto simp: handle_setup_submitted_def net_simps net_inv_def alive_def delay_ok_def portal_ok_def)
  qed
qed

lemma command_inv:
  assumes inv: "net_inv stored owed waiting s" and env: "env_ok ne"
    and "cmd \<noteq> NET_CMD_OPEN_PORTAL NETWORK_PORTAL_CLOSED" "stored \<longrightarrow> cmd \<noteq> NET_CMD_OPEN_PORTAL NETWORK_PORTAL_FIRST_SETUP"
  shows "turn_inv stored (owed \<and> \<not> answers s cmd) (waiting \<and> cmd \<noteq> NET_CMD_STA_START) s (handle_command ne cmd s)"
proof (cases cmd)
  case NET_CMD_STA_START
  then show ?thesis using start_inv [OF inv env] by (simp add: answers_def)
next
  case (NET_CMD_DISCONNECTED reason)
  then show ?thesis using disconnected_inv [OF inv env, of reason] by (simp add: handle_command_def)
next
  case (NET_CMD_GOT_IP ip)
  then show ?thesis using got_ip_inv [OF inv env, of ip] by (simp add: handle_command_def answers_def)
next
  case (NET_CMD_OPEN_PORTAL reason)
  then show ?thesis using open_inv [OF inv, of reason "ne_portal ne" "ne_opened ne"] assms(3,4) by (simp add: handle_command_def answers_def)
next
  case (NET_CMD_SETUP_SUBMITTED ssid password)
  then show ?thesis using submitted_inv [OF inv env, of ssid] by (simp add: handle_command_def answers_def)
next
  case NET_CMD_TICK
  then show ?thesis using turn_inv_start [OF inv] by (simp add: handle_command_def answers_def)
qed

lemma net_run_inv: "net_run nc stored s owed waiting \<Longrightarrow> net_inv stored owed waiting s"
proof (induction rule: net_run.induct)
  case (net_start saved now)
  then show ?case by (simp add: net_inv_def alive_def delay_ok_def portal_ok_def network_start_def RECONNECT_MIN_MS_def RECONNECT_MAX_MS_def)
next
  case (net_turn stored s owed waiting ne cmd s')
  have "turn_inv stored (owed \<and> \<not> answers s cmd) (waiting \<and> cmd \<noteq> NET_CMD_STA_START) s (handle_tick nc ne (handle_command ne cmd s))"
    by (rule tick_inv [OF command_inv [OF net_turn.IH net_turn.hyps(2,4,5)] net_turn.hyps(2)])
  then show ?case using net_turn.hyps(6) by (simp add: turn_inv_def network_turn_def)
qed

section \<open>Properties\<close>

lemma requested_mono: "requested s0 s \<Longrightarrow> nw_effects s' = nw_effects s @ es \<Longrightarrow> requested s0 s'"
  by (auto simp: requested_def)

lemma later_effects:
  "\<exists>es. nw_effects (tick_manual nc ne snap (tick_fallback nc ne snap s)) = nw_effects s @ es"
proof -
  have o: "\<exists>es. nw_effects (snd (open_portal pe now reason s)) = nw_effects s @ es" for pe now reason
    by (auto simp: open_portal_def net_simps split: sum.splits)
  have f: "\<exists>es. nw_effects (tick_fallback nc ne snap s) = nw_effects s @ es"
    using o [of "ne_tick_portal ne" "ne_tick_opened ne" NETWORK_PORTAL_FALLBACK] by (auto simp: tick_fallback_def split: prod.splits)
  have "\<exists>es. nw_effects (tick_manual nc ne snap t) = nw_effects t @ es" for t
    using close_portal_fields(9) [of t] by (auto simp: tick_manual_def Let_def)
  then show ?thesis using f by (metis append_assoc)
qed


text \<open>A run that starts with a stored network.\<close>

definition demo_portal_env :: portal_env where
  "demo_portal_env = \<lparr>pe_ap_created = True, pe_nvs_open = ESP_OK, pe_stored_password = Inr ''ABCDEFGH'', pe_random = [], pe_store_password = ESP_OK,
     pe_set_mode = ESP_OK, pe_set_config = ESP_OK, pe_start = ESP_OK\<rparr>"

definition demo_net_env :: "int \<Rightarrow> net_env" where
  "demo_net_env t = \<lparr>ne_offline = t, ne_schedule = t, ne_restart = t, ne_opened = t, ne_deadline = t, ne_next = t, ne_tick = t, ne_tick_schedule = t,
     ne_tick_opened = t, ne_start_connect = ESP_OK, ne_tick_connect = ESP_OK, ne_set_config = (\<lambda>_. ESP_OK), ne_saved_ssid = Some ''home'',
     ne_sntp = True, ne_portal = demo_portal_env, ne_tick_portal = demo_portal_env\<rparr>"

definition demo_net_config :: net_config where
  "demo_net_config = \<lparr>CONFIG_GATEWAY_WIFI_PORTAL_FALLBACK_SECONDS = 180, CONFIG_GATEWAY_WIFI_MANUAL_PORTAL_SECONDS = 600\<rparr>"

lemma demo_env_ok: "0 \<le> t \<Longrightarrow> env_ok (demo_net_env t)"
  by (simp add: env_ok_def demo_net_env_def)

lemma demo_disconnect_run:
  "\<exists>s owed waiting. net_run demo_net_config True s owed waiting \<and> ns_provisioned (nw_snapshot s) \<and> \<not> ns_connected (nw_snapshot s) \<and>
     nw_next_connect_ms s = 1100 \<and> nw_restart_at_ms s = 0 \<and> ns_setup_state (nw_snapshot s) = NETWORK_SETUP_IDLE"
proof -
  let ?s0 = "network_start (Some ''home'') 0"
  have p: "ns_provisioned (nw_snapshot ?s0)" by (simp add: network_start_def)
  define s1 where "s1 = network_turn demo_net_config (demo_net_env 100) (NET_CMD_DISCONNECTED 201) ?s0"
  have r: "net_run demo_net_config True ?s0 False True" using net_start [of demo_net_config "Some ''home''" 0] p by simp
  have "Restarted \<notin> set (nw_effects ?s0)" by (simp add: network_start_def)
  then have "\<exists>owed waiting. net_run demo_net_config True s1 owed waiting"
    using net_turn [OF r demo_env_ok, of 100 "NET_CMD_DISCONNECTED 201" s1] s1_def by auto
  moreover have "ns_provisioned (nw_snapshot s1)" "\<not> ns_connected (nw_snapshot s1)" "nw_next_connect_ms s1 = 1100" "nw_restart_at_ms s1 = 0"
    "ns_setup_state (nw_snapshot s1) = NETWORK_SETUP_IDLE"
    by (simp_all add: s1_def network_turn_def handle_command_def handle_disconnected_def network_start_def demo_net_env_def demo_net_config_def
        schedule_reconnect_def handle_tick_def tick_setup_timeout_def tick_connect_def tick_fallback_def tick_manual_def net_simps
        RECONNECT_MIN_MS_def RECONNECT_MAX_MS_def)
  ultimately show ?thesis by blast
qed


text \<open>
  A request to connect that the driver refuses is not repeated: no reconnect is scheduled, and however
  many turns without an event follow, none is attempted.
\<close>

lemma refused_connect_forgotten:
  assumes "nw_next_connect_ms s = 0" and "ns_setup_state (nw_snapshot s) = NETWORK_SETUP_IDLE"
  shows "nw_next_connect_ms (network_turn nc ne NET_CMD_TICK s) = 0 \<and>
    ns_setup_state (nw_snapshot (network_turn nc ne NET_CMD_TICK s)) = NETWORK_SETUP_IDLE \<and>
    \<not> requested s (network_turn nc ne NET_CMD_TICK s)"
proof -
  have t: "tick_connect ne (nw_snapshot s) (tick_setup_timeout ne (nw_snapshot s) s) = s"
    using assms by (simp add: tick_connect_def tick_setup_timeout_def)
  obtain e s1 where o: "open_portal (ne_tick_portal ne) (ne_tick_opened ne) NETWORK_PORTAL_FALLBACK s = (e, s1)" by fastforce
  have s1: "nw_next_connect_ms s1 = 0" "ns_setup_state (nw_snapshot s1) = NETWORK_SETUP_IDLE"
    "\<exists>es. nw_effects s1 = nw_effects s @ es \<and> (\<forall>x. Wifi_Connect x \<notin> set es)"
    using o assms by (auto simp: open_portal_def net_simps split: if_splits sum.splits)
  define u where "u = tick_fallback nc ne (nw_snapshot s) s"
  have u: "nw_next_connect_ms u = 0" "ns_setup_state (nw_snapshot u) = NETWORK_SETUP_IDLE"
    "\<exists>es. nw_effects u = nw_effects s @ es \<and> (\<forall>x. Wifi_Connect x \<notin> set es)"
    using s1 assms o by (auto simp: u_def tick_fallback_def)
  define v where "v = tick_manual nc ne (nw_snapshot s) u"
  have v: "nw_next_connect_ms v = 0" "ns_setup_state (nw_snapshot v) = NETWORK_SETUP_IDLE"
    "\<exists>es. nw_effects v = nw_effects s @ es \<and> (\<forall>x. Wifi_Connect x \<notin> set es)"
    using u close_portal_fields(4,6,9) [of u] by (auto simp: v_def tick_manual_def Let_def)
  have "network_turn nc ne NET_CMD_TICK s = (if nw_restart_at_ms s \<noteq> 0 \<and> ne_tick ne \<ge> nw_restart_at_ms s then effect Restarted s else v)"
    using t by (simp add: network_turn_def handle_command_def handle_tick_def v_def u_def Let_def)
  then show ?thesis using v assms by (auto simp: requested_def effect_def)
qed

end
