(* ===== verification/Provisioning_Portal.thy ===== *)
theory Provisioning_Portal
  imports Gateway_Settings Gateway_Security
begin

text \<open>
  The setup portal, \<open>provisioning_portal.c\<close>: the form that stores the MQTT settings and the token and hands
  the Wi-Fi credentials to \<open>network_service.c\<close>, and the captive DNS server. cJSON is the parameter of
  \<open>Front_End\<close>; the integer of a JSON number is the parameter \<open>num\<close>. The page, the Wi-Fi scan and the status
  document are not modelled, nor is the driver that stores and tests the credentials: its part is the result of
  posting the command. The DNS server works on an array of 512 bytes; accesses outside of it are a \<open>Fault\<close>.
\<close>

section \<open>The broker in the form\<close>

definition PORTAL_BODY_MAX :: nat where "PORTAL_BODY_MAX = 1536"
definition PORTAL_HOST_MAX :: nat where "PORTAL_HOST_MAX = 200"

text \<open>\<open>strstr(uri, "://") + 3\<close> and the position of \<open>strrchr(s, ':')\<close>.\<close>

fun after_scheme :: "string \<Rightarrow> string option" where
  "after_scheme [] = None"
| "after_scheme (c # s) = (if has_prefix (c # s) ''://'' then Some (drop 3 (c # s)) else after_scheme s)"

definition last_colon :: "string \<Rightarrow> nat option" where
  "last_colon s = (if CHR '':'' \<in> set s then Some (length s - 1 - length (takeWhile (\<lambda>c. c \<noteq> CHR '':'') (rev s))) else None)"

text \<open>The host, the port and whether TLS is used.\<close>

definition split_broker_uri :: "string \<Rightarrow> nat \<Rightarrow> string \<times> int \<times> bool" where
  "split_broker_uri uri host_size =
     (let tls = gateway_mqtt_uri_is_tls uri; port = (if tls then 8883 else 1883) in
      case after_scheme uri of
        None \<Rightarrow> ([], port, tls)
      | Some start \<Rightarrow>
          let colon = last_colon start;
              len = (case colon of Some i \<Rightarrow> i | None \<Rightarrow> length (takeWhile (\<lambda>c. c \<noteq> CHR ''/'') start));
              host = take (if len < host_size then len else host_size - 1) start
          in (host, case colon of Some i \<Rightarrow> fst (strtol (drop (i + 1) start)) | None \<Rightarrow> port, tls))"

text \<open>\<open>json_string\<close> of \<open>provisioning_portal.c\<close>: the string, empty when it is missing, and None when it is not acceptable.\<close>

definition portal_string :: "'j json_ops \<Rightarrow> 'j \<Rightarrow> string \<Rightarrow> nat \<Rightarrow> string option" where
  "portal_string js json name max_len =
     (case cJSON_GetObjectItemCaseSensitive js json name of
        None \<Rightarrow> Some []
      | Some item \<Rightarrow>
          if cJSON_IsNull js item then Some []
          else (case cJSON_string js item of
                  None \<Rightarrow> None
                | Some s \<Rightarrow> if length s > max_len then None else Some s))"

definition host_char :: "char \<Rightarrow> bool" where
  "host_char c \<longleftrightarrow> isalnum c \<or> c = CHR ''.'' \<or> c = CHR ''-'' \<or> c = CHR ''_''"

definition host_valid :: "string \<Rightarrow> bool" where
  "host_valid host = (if length host = 0 \<or> length host > PORTAL_HOST_MAX then False else list_all host_char host)"

datatype form_error = MQTT_Field_Too_Long | MQTT_Host_Characters | MQTT_Port_Range

definition form_port :: "('j \<Rightarrow> int option) \<Rightarrow> 'j option \<Rightarrow> bool \<Rightarrow> int" where
  "form_port num item tls = (case Option.bind item num of Some n \<Rightarrow> n | None \<Rightarrow> if tls then 8883 else 1883)"

text \<open>The text of a port that is not negative.\<close>

definition broker_uri :: "bool \<Rightarrow> string \<Rightarrow> int \<Rightarrow> string" where
  "broker_uri tls host port = take (MQTT_BROKER_URI_MAX - 1) ((if tls then ''mqtts'' else ''mqtt'') @ ''://'' @ host @ '':'' @ dec (nat port))"

definition apply_mqtt_form ::
    "'j json_ops \<Rightarrow> ('j \<Rightarrow> int option) \<Rightarrow> 'j \<Rightarrow> gateway_mqtt_config \<Rightarrow> form_error + gateway_mqtt_config" where
  "apply_mqtt_form js num json config =
     (case (portal_string js json ''mqtt_host'' PORTAL_HOST_MAX, portal_string js json ''mqtt_username'' (MQTT_USERNAME_MAX - 1),
            portal_string js json ''mqtt_password'' (MQTT_PASSWORD_MAX - 1), portal_string js json ''default_recipient'' (MQTT_DEFAULT_RECIPIENT_MAX - 1)) of
        (Some host, Some username, Some password, Some recipient) \<Rightarrow>
          let ha_item = cJSON_GetObjectItemCaseSensitive js json ''home_assistant'';
              config = config\<lparr>mc_default_recipient := recipient,
                mc_home_assistant_enabled := (if ha_item \<noteq> None then cJSON_IsTrue js ha_item else mc_home_assistant_enabled config)\<rparr> in
          if host = [] then Inr (config\<lparr>mc_enabled := False\<rparr>)
          else if \<not> host_valid host then Inl MQTT_Host_Characters
          else let tls = cJSON_IsTrue js (cJSON_GetObjectItemCaseSensitive js json ''mqtt_tls'');
                   port = form_port num (cJSON_GetObjectItemCaseSensitive js json ''mqtt_port'') tls in
               if port < 1 \<or> port > 65535 then Inl MQTT_Port_Range
               else let same_broker = (mc_enabled config \<and> fst (split_broker_uri (mc_broker_uri config) (PORTAL_HOST_MAX + 1)) = host) in
                    Inr (config\<lparr>mc_broker_uri := broker_uri tls host port, mc_username := username,
                      mc_password := (if password \<noteq> [] then password else if \<not> same_broker then [] else mc_password config),
                      mc_ca_pem := (if \<not> tls then [] else mc_ca_pem config), mc_enabled := True\<rparr>)
      | _ \<Rightarrow> Inl MQTT_Field_Too_Long)"

section \<open>Saving the form\<close>

definition network_service_submit_credentials :: "bool \<Rightarrow> bool \<Rightarrow> string \<Rightarrow> string \<Rightarrow> esp_err" where
  "network_service_submit_credentials initialized queued ssid password =
     (if \<not> initialized then ESP_ERR_INVALID_STATE
      else if length ssid = 0 \<or> length ssid > 32 \<or> length password > 64 \<or> (length password > 0 \<and> length password < 8) then ESP_ERR_INVALID_ARG
      else if queued then ESP_OK else ESP_ERR_NO_MEM)"

text \<open>What surrounds a request: the locks and allocations, the network, and the random bytes.\<close>

record portal_surroundings =
  ps_alloc :: bool
  ps_get_lock :: bool
  ps_record_alloc :: bool
  ps_set_lock :: bool
  ps_opened :: esp_err
  ps_random :: "u8 list"
  ps_sta_ssid :: string
  ps_saved_password :: "string option"
  ps_network_initialized :: bool
  ps_command_queued :: bool

record ('n, 'm) portal =
  po_settings :: "'n settings"
  po_security :: "'m security"
  po_submitted :: "(string \<times> string) list"

text \<open>The messages of the error responses, and the answers: the connection is closed, 500, 400, or 200 with a token that was generated.\<close>

datatype portal_problem =
    Invalid_Request | Network_Name | Wifi_Password | Token_Length | Settings_Not_Ready | Mqtt_Form form_error | Invalid_Mqtt
  | Save_Mqtt | Save_Token | Generate_Token | Apply_Wifi

datatype portal_reply = Portal_Closed | Portal_Error | Portal_Bad_Request portal_problem | Portal_Saved "string option"

text \<open>The checks of the form, in their order: the Wi-Fi network, its password, the token and the new MQTT configuration.\<close>

definition checked_form ::
    "'j json_ops \<Rightarrow> ('j \<Rightarrow> int option) \<Rightarrow> bool \<Rightarrow> 'j option \<Rightarrow> 'n settings \<Rightarrow>
     portal_problem + string \<times> string \<times> string \<times> gateway_mqtt_config" where
  "checked_form js num get_lock json st =
     (case json of
        None \<Rightarrow> Inl Network_Name
      | Some j \<Rightarrow>
     (case (portal_string js j ''ssid'' 32, portal_string js j ''password'' 64, portal_string js j ''token'' 128) of
        (Some ssid, Some password, Some token) \<Rightarrow>
          if ssid = [] then Inl Network_Name
          else if password \<noteq> [] \<and> length password < 8 then Inl Wifi_Password
          else if token \<noteq> [] \<and> length token < 32 then Inl Token_Length
          else (case gateway_settings_get_mqtt get_lock st of
                  Inl _ \<Rightarrow> Inl Settings_Not_Ready
                | Inr mqtt \<Rightarrow>
                    (case apply_mqtt_form js num j mqtt of
                       Inl e \<Rightarrow> Inl (Mqtt_Form e)
                     | Inr mqtt \<Rightarrow>
                         if gateway_mqtt_config_validate mqtt \<noteq> ESP_OK then Inl Invalid_Mqtt else Inr (ssid, password, token, mqtt)))
      | _ \<Rightarrow> Inl Network_Name))"

definition form_password :: "portal_surroundings \<Rightarrow> string \<Rightarrow> string \<Rightarrow> string" where
  "form_password ps ssid password =
     (if password = [] \<and> ssid = ps_sta_ssid ps then (case ps_saved_password ps of None \<Rightarrow> [] | Some p \<Rightarrow> p) else password)"

text \<open>The token: a given one is set, a missing one is generated unless there is one already.\<close>

definition form_token ::
    "('m, u8 list) nvs_ops \<Rightarrow> (u8 list \<Rightarrow> u8 list option) \<Rightarrow> portal_surroundings \<Rightarrow> string \<Rightarrow> 'm security \<Rightarrow>
     esp_err \<times> string \<times> 'm security" where
  "form_token sops psa ps token sec =
     (if token \<noteq> [] then (case gateway_security_set_token sops psa (ps_opened ps) token sec of (e, sec1) \<Rightarrow> (e, [], sec1))
      else if \<not> gateway_security_has_token sec
      then gateway_security_generate_token sops psa (ps_opened ps) (ps_random ps) (GATEWAY_API_TOKEN_HEX_LEN + 1) sec
      else (ESP_OK, [], sec))"

definition save_form ::
    "('n, mqtt_record) nvs_ops \<Rightarrow> ('m, u8 list) nvs_ops \<Rightarrow> (u8 list \<Rightarrow> u8 list option) \<Rightarrow> portal_surroundings \<Rightarrow>
     string \<Rightarrow> string \<Rightarrow> string \<Rightarrow> gateway_mqtt_config \<Rightarrow> ('n, 'm) portal \<Rightarrow> portal_reply \<times> ('n, 'm) portal" where
  "save_form ops sops psa ps ssid password token mqtt p =
     (case gateway_settings_set_mqtt ops (ps_record_alloc ps) (ps_set_lock ps) mqtt (po_settings p) of
        (e, st) \<Rightarrow>
          let p = p\<lparr>po_settings := st\<rparr> in
          if e \<noteq> ESP_OK then (Portal_Bad_Request Save_Mqtt, p)
          else (case form_token sops psa ps token (po_security p) of
                  (e, generated, sec) \<Rightarrow>
                    let p = p\<lparr>po_security := sec\<rparr> in
                    if e \<noteq> ESP_OK then (Portal_Bad_Request (if token \<noteq> [] then Save_Token else Generate_Token), p)
                    else if network_service_submit_credentials (ps_network_initialized ps) (ps_command_queued ps) ssid password \<noteq> ESP_OK
                    then (Portal_Bad_Request Apply_Wifi, p)
                    else (Portal_Saved (if generated \<noteq> [] then Some generated else None),
                          p\<lparr>po_submitted := po_submitted p @ [(ssid, password)]\<rparr>)))"

definition setup_handler ::
    "('n, mqtt_record) nvs_ops \<Rightarrow> ('m, u8 list) nvs_ops \<Rightarrow> (u8 list \<Rightarrow> u8 list option) \<Rightarrow> 'j json_ops \<Rightarrow> ('j \<Rightarrow> int option) \<Rightarrow>
     portal_surroundings \<Rightarrow> http_request \<Rightarrow> ('n, 'm) portal \<Rightarrow> portal_reply \<times> ('n, 'm) portal" where
  "setup_handler ops sops psa js num ps req p =
     (if rq_content_len req \<le> 0 \<or> rq_content_len req \<ge> int PORTAL_BODY_MAX then (Portal_Bad_Request Invalid_Request, p)
      else if \<not> ps_alloc ps then (Portal_Error, p)
      else (case receive_loop (nat (rq_content_len req)) [] (rq_received req) of
              None \<Rightarrow> (Portal_Closed, p)
            | Some body \<Rightarrow>
                (case checked_form js num (ps_get_lock ps) (cJSON_Parse js body) (po_settings p) of
                   Inl problem \<Rightarrow> (Portal_Bad_Request problem, p)
                 | Inr (ssid, password, token, mqtt) \<Rightarrow>
                     save_form ops sops psa ps ssid (form_password ps ssid password) token mqtt p)))"

section \<open>Captive DNS\<close>

definition DNS_PACKET :: nat where "DNS_PACKET = 512"

text \<open>The end of the labels of the question; the received bytes are \<open>packet\<close>, and the array has room for all of them.\<close>

function question_end :: "u8 list \<Rightarrow> nat \<Rightarrow> (unit, nat) outcome" where
  "question_end packet q =
     (if q < length packet
      then (case (aread packet q :: (unit, u8) outcome) of
              Ret b \<Rightarrow> if b \<noteq> 0 then question_end packet (q + unat b + 1) else Ret q
            | Err e \<Rightarrow> Err e
            | Fault \<Rightarrow> Fault)
      else Ret q)"
  by pat_completeness auto

termination
  by (relation "measure (\<lambda>(packet, q). length packet - q)") auto

declare question_end.simps [simp del]

definition dns_record :: "u8 list" where
  "dns_record = [0xc0, 0x0c, 0, 1, 0, 1, 0, 0, 0, 30, 0, 4, 192, 168, 4, 1]"

text \<open>\<open>memcpy\<close> of bytes into the array of 512 bytes, whose first bytes are \<open>packet\<close>.\<close>

definition put_bytes :: "nat \<Rightarrow> u8 list \<Rightarrow> u8 list \<Rightarrow> (unit, u8 list) outcome" where
  "put_bytes i bs packet =
     (if i + length bs \<le> DNS_PACKET then Ret (take i packet @ bs @ drop (i + length bs) packet) else Fault)"

text \<open>The answer to a datagram, None when there is none.\<close>

definition dns_answer :: "u8 list \<Rightarrow> (unit, u8 list option) outcome" where
  "dns_answer packet =
     (if length packet < 13 then Ret None
      else and_then (question_end packet 12) (\<lambda>q.
        let q = q + 5 in
        if q > length packet \<or> q + 16 > DNS_PACKET then Ret None
        else and_then (put_bytes 2 [0x81, 0x80] packet) (\<lambda>packet.
             and_then (put_bytes 6 [0, 1] packet) (\<lambda>packet.
             and_then (put_bytes 8 [0, 0, 0, 0] packet) (\<lambda>packet.
             and_then (put_bytes q dns_record packet) (\<lambda>packet.
               Ret (Some (take (q + length dns_record) packet))))))))"

section \<open>The broker URI\<close>

lemma last_colon_append:
  assumes "CHR '':'' \<notin> set t"
  shows "last_colon (s @ '':'' @ t) = Some (length s)"
proof -
  have "takeWhile (\<lambda>c. c \<noteq> CHR '':'') (rev (s @ '':'' @ t)) = rev t" using assms by (auto simp: takeWhile_tail)
  then show ?thesis by (simp add: last_colon_def)
qed

lemma after_scheme_uri: "after_scheme ((if tls then ''mqtts'' else ''mqtt'') @ ''://'' @ s) = Some s"
  by (simp add: has_prefix_def)

lemma uri_is_tls: "gateway_mqtt_uri_is_tls ((if tls then ''mqtts'' else ''mqtt'') @ ''://'' @ s) = tls"
  by (simp add: gateway_mqtt_uri_is_tls_def has_prefix_def)

lemma isdigit_not_colon: "isdigit c \<Longrightarrow> c \<noteq> CHR '':''"
  by (auto simp: isdigit_def)

lemma port_digits: "CHR '':'' \<notin> set (dec n)"
  using dec_digits isdigit_not_colon by blast

lemma dec_port_length: "n \<le> 65535 \<Longrightarrow> length (dec n) \<le> 5"
  by (simp add: dec.simps)

lemma broker_uri_eq:
  assumes "length host \<le> PORTAL_HOST_MAX" and "1 \<le> port" and "port \<le> 65535"
  shows "broker_uri tls host port = (if tls then ''mqtts'' else ''mqtt'') @ ''://'' @ host @ '':'' @ dec (nat port)"
proof -
  have "length (dec (nat port)) \<le> 5" using assms(3) by (intro dec_port_length) simp
  then show ?thesis using assms(1) by (simp add: broker_uri_def PORTAL_HOST_MAX_def MQTT_BROKER_URI_MAX_def)
qed

lemma split_broker:
  assumes "length host \<le> PORTAL_HOST_MAX" and "1 \<le> port" and "port \<le> 65535"
  shows "split_broker_uri (broker_uri tls host port) (PORTAL_HOST_MAX + 1) = (host, port, tls)"
proof -
  have "strtol ([] @ dec (nat port) @ []) = (int (nat port), [])" using assms by (intro strtol_dec) (simp_all add: LONG_MAX_def)
  then have "fst (strtol (dec (nat port))) = port" using assms(2) by simp
  moreover have "last_colon (host @ '':'' @ dec (nat port)) = Some (length host)" by (rule last_colon_append [OF port_digits])
  ultimately show ?thesis unfolding broker_uri_eq [OF assms] split_broker_uri_def after_scheme_uri uri_is_tls
    using assms(1) by (simp add: Let_def)
qed

lemma host_char_safe: "host_char c \<Longrightarrow> c \<noteq> CHR 0x40 \<and> c \<noteq> CHR '' '' \<and> c \<noteq> CHR ''/''"
  by (auto simp: host_char_def isalnum_def isdigit_def)

text \<open>What the form leaves in the configuration.\<close>

lemma apply_form_cases:
  assumes "apply_mqtt_form js num json c = Inr c'"
  obtains (off) "\<not> mc_enabled c'" "mc_broker_uri c' = mc_broker_uri c" "mc_password c' = mc_password c"
  | (on) host password tls port where
      "portal_string js json ''mqtt_host'' PORTAL_HOST_MAX = Some host" "portal_string js json ''mqtt_password'' (MQTT_PASSWORD_MAX - 1) = Some password"
      "host_valid host" "1 \<le> port" "port \<le> 65535" "mc_enabled c'" "mc_broker_uri c' = broker_uri tls host port"
      "tls = cJSON_IsTrue js (cJSON_GetObjectItemCaseSensitive js json ''mqtt_tls'')"
      "port = form_port num (cJSON_GetObjectItemCaseSensitive js json ''mqtt_port'') tls"
      "mc_password c' = (if password \<noteq> [] then password
         else if mc_enabled c \<and> fst (split_broker_uri (mc_broker_uri c) (PORTAL_HOST_MAX + 1)) = host then mc_password c else [])"
      "mc_ca_pem c' = (if tls then mc_ca_pem c else [])"
proof -
  obtain host username password recipient where f: "portal_string js json ''mqtt_host'' PORTAL_HOST_MAX = Some host"
    "portal_string js json ''mqtt_username'' (MQTT_USERNAME_MAX - 1) = Some username"
    "portal_string js json ''mqtt_password'' (MQTT_PASSWORD_MAX - 1) = Some password"
    "portal_string js json ''default_recipient'' (MQTT_DEFAULT_RECIPIENT_MAX - 1) = Some recipient"
    using assms by (auto simp: apply_mqtt_form_def split: option.splits)
  show thesis
  proof (cases "host = []")
    case True
    then show thesis using off assms f by (auto simp: apply_mqtt_form_def Let_def)
  next
    case False
    let ?tls = "cJSON_IsTrue js (cJSON_GetObjectItemCaseSensitive js json ''mqtt_tls'')"
    let ?port = "form_port num (cJSON_GetObjectItemCaseSensitive js json ''mqtt_port'') ?tls"
    have v: "host_valid host" "1 \<le> ?port" "?port \<le> 65535" using assms f False by (auto simp: apply_mqtt_form_def Let_def split: if_splits)
    then show thesis using assms f False on [of host password ?port ?tls]
      by (auto simp: apply_mqtt_form_def Let_def)
  qed
qed

lemma portal_string_length: "portal_string js json name n = Some s \<Longrightarrow> length s \<le> n"
  by (auto simp: portal_string_def split: option.splits if_splits)

lemma apply_form_fits:
  assumes "apply_mqtt_form js num json c = Inr c'" and "config_fits c"
  shows "config_fits c'"
proof -
  have "length (broker_uri tls host port) < MQTT_BROKER_URI_MAX" for tls host port
    by (simp add: broker_uri_def MQTT_BROKER_URI_MAX_def min_less_iff_disj)
  then show ?thesis
    using assms unfolding apply_mqtt_form_def config_fits_def
    by (auto simp: Let_def field_sizes dest!: portal_string_length split: option.splits if_splits)
qed

section \<open>The form is saved\<close>

lemma checked_form_Inr:
  assumes "checked_form js num lock json st = Inr (ssid, password, token, mqtt)"
  obtains j c where "ssid \<noteq> []" "length ssid \<le> 32" "password = [] \<or> 8 \<le> length password \<and> length password \<le> 64"
    "gateway_settings_get_mqtt lock st = Inr c" "apply_mqtt_form js num j c = Inr mqtt" "gateway_mqtt_config_validate mqtt = ESP_OK"
  using assms by (auto simp: checked_form_def dest!: portal_string_length split: option.splits if_splits sum.splits)

lemma submit_ok:
  "network_service_submit_credentials i q ssid password = ESP_OK \<Longrightarrow>
    ssid \<noteq> [] \<and> length ssid \<le> 32 \<and> (password = [] \<or> 8 \<le> length password) \<and> length password \<le> 64"
  by (auto simp: network_service_submit_credentials_def split: if_splits)

text \<open>After \<open>form_token\<close> there is a token: the one of the form, a new one, or the old one.\<close>

lemma set_token_valid:
  assumes "nvs_partition sops" and "sec_initialized sec" and "gateway_security_set_token sops psa opened token sec = (ESP_OK, sec1)"
  shows "gateway_security_validate_bearer psa sec1 token"
proof -
  have "token_digest psa token (sec_token_hash sec1)" "sec_initialized sec1"
    using set_token_effect [OF assms(1,3)] assms(2) by simp_all
  then show ?thesis using validate_iff [of sec1 psa token] by (simp add: token_digest_def)
qed

lemma form_token_valid:
  assumes "nvs_partition sops" and "sec_initialized sec" and "form_token sops psa ps token sec = (ESP_OK, generated, sec1)"
  shows "if token \<noteq> [] then generated = [] \<and> gateway_security_validate_bearer psa sec1 token
    else if gateway_security_has_token sec then generated = [] \<and> sec1 = sec
    else generated = token_hex (ps_random ps) \<and> gateway_security_validate_bearer psa sec1 generated"
  using assms(3) set_token_valid [OF assms(1,2)]
  by (auto simp: form_token_def gateway_security_generate_token_def split: if_splits prod.splits)

lemma save_form_saved:
  assumes "save_form ops sops psa ps ssid password token mqtt p = (Portal_Saved shown, p1)"
  obtains generated where
    "gateway_settings_set_mqtt ops (ps_record_alloc ps) (ps_set_lock ps) mqtt (po_settings p) = (ESP_OK, po_settings p1)"
    "form_token sops psa ps token (po_security p) = (ESP_OK, generated, po_security p1)" "shown = (if generated \<noteq> [] then Some generated else None)"
    "network_service_submit_credentials (ps_network_initialized ps) (ps_command_queued ps) ssid password = ESP_OK"
    "po_submitted p1 = po_submitted p @ [(ssid, password)]"
proof -
  obtain e st where s: "gateway_settings_set_mqtt ops (ps_record_alloc ps) (ps_set_lock ps) mqtt (po_settings p) = (e, st)" by fastforce
  obtain e' g sec where t: "form_token sops psa ps token (po_security p) = (e', g, sec)" by (cases "form_token sops psa ps token (po_security p)") auto
  show thesis using assms s t that [of g] by (auto simp: save_form_def Let_def split: if_splits)
qed

lemma save_form_bad:
  assumes "save_form ops sops psa ps ssid password token mqtt p = (reply, p1)" and "\<And>shown. reply \<noteq> Portal_Saved shown"
  shows "reply \<in> Portal_Bad_Request ` {Save_Mqtt, Save_Token, Generate_Token, Apply_Wifi}"
  using assms by (auto simp: save_form_def Let_def split: if_splits prod.splits)

section \<open>DNS\<close>

lemma question_end_Ret: "\<exists>r. question_end packet q = Ret r \<and> q \<le> r \<and> (length packet \<le> r \<or> packet ! r = 0)"
proof (induction packet q rule: question_end.induct)
  case (1 packet q)
  show ?case
  proof (cases "q < length packet \<and> packet ! q \<noteq> 0")
    case True
    then have r: "aread packet q = (Ret (packet ! q) :: (unit, u8) outcome)" by (simp add: aread_def)
    obtain r where "question_end packet (q + unat (packet ! q) + 1) = Ret r" "q + unat (packet ! q) + 1 \<le> r" "length packet \<le> r \<or> packet ! r = 0"
      using 1 [OF _ r] True by blast
    then show ?thesis using True r by (simp add: question_end.simps [of packet q])
  next
    case False
    then show ?thesis by (auto simp: question_end.simps [of packet q] aread_def)
  qed
qed

definition dns_reply :: "u8 list \<Rightarrow> nat \<Rightarrow> u8 list" where
  "dns_reply packet q = take 2 packet @ [0x81, 0x80] @ take 2 (drop 4 packet) @ [0, 1, 0, 0, 0, 0] @ take (q - 12) (drop 12 packet) @ dns_record"

lemma twelve_bytes:
  assumes "13 \<le> length packet"
  obtains a b c d e f g h i j k l rest where "packet = a # b # c # d # e # f # g # h # i # j # k # l # rest"
  using assms by (auto simp: numeral_eq_Suc Suc_le_length_iff)

lemma dns_answer_eq:
  assumes "13 \<le> length packet" and "question_end packet 12 = Ret q" and "12 \<le> q"
  shows "dns_answer packet = Ret (if q + 5 \<le> length packet \<and> q + 21 \<le> 512 then Some (dns_reply packet (q + 5)) else None)"
proof (cases "q + 5 \<le> length packet \<and> q + 21 \<le> 512")
  case True
  obtain a b c d e f g h i j k l rest where p: "packet = a # b # c # d # e # f # g # h # i # j # k # l # rest"
    using twelve_bytes [OF assms(1)] by blast
  obtain r where r: "q = 12 + r" using assms(3) by (metis le_Suc_ex)
  have "take (9 + r) (0 # 0 # 0 # 0 # rest) = 0 # 0 # 0 # 0 # take (5 + r) rest" "rest \<noteq> []"
    using True r p by (auto simp: numeral_eq_Suc)
  then show ?thesis using True assms(1,2) r
    by (simp add: dns_answer_def Let_def put_bytes_def DNS_PACKET_def dns_reply_def dns_record_def p)
next
  case False
  then show ?thesis using assms by (auto simp: dns_answer_def Let_def DNS_PACKET_def)
qed

section \<open>An example\<close>

text \<open>A form with the name of the network only.\<close>

definition demo_form :: "nat json_ops" where
  "demo_form = \<lparr>cJSON_Parse = (\<lambda>_. Some 0), cJSON_children = (\<lambda>_. None),
     cJSON_GetObjectItemCaseSensitive = (\<lambda>j name. if j = 0 \<and> name = ''ssid'' then Some 1 else None),
     cJSON_string = (\<lambda>j. if j = 1 then Some ''home'' else None), cJSON_bool = (\<lambda>_. None), cJSON_IsNull = (\<lambda>_. False)\<rparr>"

definition demo_broker_form :: "nat json_ops" where
  "demo_broker_form = demo_form\<lparr>cJSON_GetObjectItemCaseSensitive := (\<lambda>j name. if j = 0 \<and> name = ''mqtt_host'' then Some 1 else None)\<rparr>"

definition demo_portal_surroundings :: portal_surroundings where
  "demo_portal_surroundings = \<lparr>ps_alloc = True, ps_get_lock = True, ps_record_alloc = True, ps_set_lock = True, ps_opened = ESP_OK,
     ps_random = replicate 32 7, ps_sta_ssid = [], ps_saved_password = None, ps_network_initialized = True, ps_command_queued = True\<rparr>"

section \<open>Properties\<close>



text \<open>C40: The captive DNS server is safe on every datagram: the search for the end of the question ends and
  stays within the datagram, nothing is written outside of the array, and the answer, when there is
  one, is the datagram up to the end of its question with the flags of a response, one answer and no
  further records, followed by the address of the portal. It is given exactly when the question and
  the record fit.\<close>

theorem dns_answer_correct:
  "\<exists>q. 12 \<le> q \<and> question_end packet 12 = Ret q \<and> (length packet \<le> q \<or> packet ! q = 0) \<and>
     dns_answer packet = Ret (if 13 \<le> length packet \<and> q + 5 \<le> length packet \<and> q + 21 \<le> 512 then Some (dns_reply packet (q + 5)) else None)"
proof -
  obtain q where q: "question_end packet 12 = Ret q" "12 \<le> q" "length packet \<le> q \<or> packet ! q = 0"
    using question_end_Ret by blast
  then show ?thesis using dns_answer_eq [OF _ q(1,2)] by (cases "13 \<le> length packet") (auto simp: dns_answer_def)
qed


lemma demo_form_strings:
  "portal_string demo_form 0 ''ssid'' 32 = Some ''home''"
  "name \<noteq> ''ssid'' \<Longrightarrow> portal_string demo_form 0 name n = Some []"
  "name \<noteq> ''ssid'' \<Longrightarrow> cJSON_GetObjectItemCaseSensitive demo_form 0 name = None"
  by (simp_all add: portal_string_def demo_form_def)

lemma demo_generate:
  "\<exists>sec1. form_token flash_ops demo_psa demo_portal_surroundings [] fresh_security = (ESP_OK, token_hex (replicate 32 7), sec1)"
proof -
  have "\<not> gateway_security_has_token fresh_security"
    by (simp add: gateway_security_has_token_def fold_or_zero fresh_security_def security_reset_def)
  moreover have "token_length_ok (token_hex (replicate 32 7))" by (simp add: token_length_ok_def token_hex_length)
  ultimately show ?thesis
    by (simp add: form_token_def gateway_security_generate_token_def gateway_security_set_token_def demo_portal_surroundings_def
        gateway_security_sha256_def demo_psa_def GATEWAY_SHA256_LEN_def store_digest_def flash_ops_def scripted_def fresh_security_def security_reset_def)
qed


end
