(* ===== verification/Spec2Isabelle.thy ===== *)
theory Spec2Isabelle
  imports Gateway_Prelude Gsm7 Pdu_Octets Pdu_Encode Pdu_Split Pdu_Submit Pdu_Decode Pdu_Text Pdu_Roundtrip At_Parser At_Protocol At_Engine At_Transactions
    Nvs Sms_Store Sms_Store_Slots Sms_Store_Map Sms_Store_Queries Sms_Store_Runs
    Gateway_Monad Sms_Service Sms_Outbound Sms_Records Sms_Lifecycle Sms_Traces Sms_Delivery Sms_Inbound Sms_Api
    Idempotency Idempotency_Runs Ota_Version_Policy Modem_Status
    Modem_Manager Modem_Runs Modem_Recovery Modem_Core
    Api_Common Front_End Front_End_Runs Mqtt_Receive Mqtt_Replay Gateway_Settings Gateway_Security Usb_Descriptor Board_Power Network_Service Provisioning_Portal
begin

text \<open>
  Verification of the firmware of the ESP32 SMS gateway: an ESP32-S3 that hosts a USB modem, sends and
  receives SMS through it, and offers them over REST and MQTT. The sources are under src/components.

  The parts and how they interact. \<open>usb_modem_transport\<close> finds the serial interface of the modem and moves
  bytes; \<open>at_engine\<close> turns the bytes into lines, runs one command at a time and hands unsolicited lines on;
  \<open>modem_manager\<close> brings up the session, polls the SIM and the network and recovers a modem that stopped
  answering; \<open>sms_service\<close> reads messages from the modem, assembles multipart messages, and sends the
  queued ones; \<open>sms_codec\<close> translates between text and PDUs; \<open>sms_store\<close> keeps all messages in flash.
  \<open>modem_core\<close> connects these. \<open>api_server\<close> and \<open>mqtt_service\<close> are the clients: both send through
  \<open>sms_service\<close>, both claim idempotency keys in \<open>api_idempotency\<close>, and MQTT replays received messages
  until the broker has acknowledged them. \<open>gateway_settings\<close>, \<open>gateway_security\<close>, \<open>ota_service\<close> and \<open>board\<close>
  keep the configuration, the token, the version policy and the supply of the modem; \<open>network_service\<close> keeps the
  Wi-Fi connection and opens a setup portal when there is none.

  Conventions. Machine integers are words of their width, \<open>size_t\<close> is \<open>nat\<close>, C strings are lists of
  characters without the terminator. Code that indexes arrays with values from outside returns an
  \<open>outcome\<close>, in which \<open>Fault\<close> is an access out of bounds. A component's variables are a record, its functions are
  definitions over it; longer functions with effects use the state monad (\<open>Gateway_Monad\<close>). Locks,
  allocations, clocks and the results of calls outside of src are arguments or fields of an environment
  record, so that a theorem holds for every outcome of them. Flash is the interface \<open>nvs_ops\<close> of \<open>Nvs\<close>,
  with the locale \<open>nvs_partition\<close> for its documented behaviour: a failed write leaves the old value or the
  new one. Loops are recursive functions with termination proofs.

  The theories.

  \<^item> \<open>Gateway_Prelude\<close>, \<open>Gateway_Monad\<close>, \<open>Nvs\<close>: the shared vocabulary: words, strings, \<open>strtol\<close>, error codes,
    \<open>outcome\<close>; the state monad with its rules; the flash interface, its laws and the scans over slots.
  \<^item> \<open>Gsm7\<close> (sms_gsm7.c): the two tables of GSM 03.38, UTF-8, counting, encoding and decoding of septets.
    \<open>Pdu_Octets\<close>, \<open>Pdu_Encode\<close>, \<open>Pdu_Split\<close>, \<open>Pdu_Submit\<close>, \<open>Pdu_Decode\<close>, \<open>Pdu_Text\<close>, \<open>Pdu_Roundtrip\<close> (sms_pdu.c):
    hexadecimal text and septet packing, addresses and SMS-SUBMIT PDUs, the split into parts, the entry
    points, the decoders. Shown: decoding what was encoded gives the text back, for every accepted
    text and every split; the decoders stay in bounds on every input and return valid UTF-8; the encoder
    succeeds exactly when the preflight says so. The locale \<open>part_splitter\<close> is the contract of the two
    splitters, interpreted on the GSM and the UCS-2 one.
  \<^item> \<open>At_Parser\<close>, \<open>At_Protocol\<close>, \<open>At_Engine\<close>, \<open>At_Transactions\<close> (at_parser.c, at_protocol.c, at_router.c, at_engine.c): the
    tokenizer, the classification of lines, the worker with its queues, retries and deadlines. Shown:
    the parser refines a specification on the whole stream however it arrives in pieces; a transaction
    writes its command once per attempt and its payload at most once per prompt; it ends at its deadline;
    the body of a stored message is never taken for a result. The locale \<open>token_handler\<close> is the contract of
    the parser's callback, \<open>attempt_invariant\<close> carries a property through the waiting loop.
  \<^item> \<open>Sms_Store\<close>, \<open>Sms_Store_Slots\<close>, \<open>Sms_Store_Map\<close>, \<open>Sms_Store_Queries\<close>, \<open>Sms_Store_Runs\<close> (sms_store.c): the 128 slots, the
    persisted record, identifiers, pruning and queries. Shown: the slots refine a map from identifiers to
    messages under every operation and every write error; unsent and unacknowledged messages are not pruned.
  \<^item> \<open>Sms_Service\<close>, \<open>Sms_Outbound\<close>, \<open>Sms_Records\<close>, \<open>Sms_Lifecycle\<close>, \<open>Sms_Traces\<close>, \<open>Sms_Delivery\<close>, \<open>Sms_Inbound\<close>, \<open>Sms_Api\<close>
    (sms_service.c): the whole service over the store, the codec and the engine. Shown: the life cycle of every
    stored record; a segment is handed to the modem only after the record says so, each once and in
    order; a received message is deleted from the modem only after it is stored and is not stored twice;
    interrupted sends are marked at the next start. The locale \<open>sms_environment\<close> is what the service relies on.
  \<^item> \<open>Modem_Status\<close>, \<open>Modem_Manager\<close>, \<open>Modem_Runs\<close>, \<open>Modem_Recovery\<close>, \<open>Modem_Core\<close> (modem_status.c, modem_recovery_policy.c,
    modem_manager.c, modem_core.c): the status lines, the manager with its queue and polls, and the glue. Shown:
    every published snapshot is coherent; a modem that answers nothing is reset after a bounded number of
    turns, and nothing is sent while it is unplugged; the service is told about the modem exactly when the
    state READY is entered or left.
  \<^item> \<open>Idempotency\<close>, \<open>Idempotency_Runs\<close> (api_idempotency.c): the records of keys. Shown: a claimed key keeps its
    reservation through every sequence of operations of other clients.
  \<^item> \<open>Api_Common\<close>, \<open>Front_End\<close>, \<open>Front_End_Runs\<close> (api_common.c, mqtt_command_policy.c, the message handlers of api_server.c and the
    commands of mqtt_service.c): Shown: a request that was accepted once is never queued again under its
    key, over REST and MQTT together; accepted messages are stored as asked; refused requests change nothing;
    the pages of the listing are complete; retained commands are ignored.
  \<^item> \<open>Mqtt_Receive\<close>, \<open>Mqtt_Replay\<close> (mqtt_service.c): reassembly of fragments, and the replay cursor. Shown: the
    payload is put together exactly; no message that the broker did not acknowledge is passed by the cursor or
    pruned, across disconnects, failed writes and restarts; all of them are delivered when the broker answers.
  \<^item> \<open>Gateway_Settings\<close> (gateway_settings.c, mqtt_config.c and the configuration handlers of api_server.c): Shown: a change is
    durable and atomic, and the running configuration always satisfies the rules.
  \<^item> \<open>Gateway_Security\<close> (gateway_security.c): Shown: exactly the token that was set authorizes requests, also after a restart.
  \<^item> \<open>Usb_Descriptor\<close> (usb_modem_descriptor.c, huawei_mode_switch.c): Shown: the search for serial interfaces is safe on every
    sequence of bytes and finds the specified interfaces, ranked.
  \<^item> \<open>Ota_Version_Policy\<close> (ota_version_policy.c): Shown: the comparison is the precedence of semantic versions.
  \<^item> \<open>Board_Power\<close> (gateway_board.c): Shown: the two supply paths exclude each other; over-current cuts the supply, which
    comes back only after the cooldown.
  \<^item> \<open>Network_Service\<close> (the task of network_service.c): Shown: with a stored network the gateway never stops trying to
    connect, as long as the driver accepts its requests; delays are bounded.
  \<^item> \<open>Provisioning_Portal\<close> (the form and the DNS server of provisioning_portal.c): Shown: what a saved form leaves behind in the
    settings, the token and the network; the broker URI is read back as entered and a saved password stays with its
    host; the DNS server is in bounds on every datagram.

  Bounds and fuel. No definition uses fuel. The waiting loop of a transaction and the recovery of the
  modem run on a script of the world (what arrives, the clock, the answers of the modem) and end at a deadline or
  after a bounded number of turns, which is stated in the theorems: \<open>(H + 2) * (T + 1)\<close> turns with work for the
  recovery, where \<open>T\<close> is the failure threshold and \<open>H\<close> the number of rounds before a hard reset. Scans of
  the store are bounded by its 128 slots, pages and replays by the identifiers, which grow. Runs of the
  store stop before the 32-bit identifiers wrap, and the run before a poll of the board before \<open>2 ^ 32\<close> polls.

  Interpretations. \<open>nvs_partition\<close> holds for \<open>flash_ops\<close>, a partition with a script of write errors, and for two
  partitions without errors; \<open>message_partition\<close> and \<open>idem_partition\<close> for \<open>flash_ops\<close>; \<open>sms_environment\<close> for an environment
  with a scripted modem. The witnesses run on these.

  Not modelled. The USB host driver (usb_modem_transport.c), the Wi-Fi driver and the pages of the setup portal, the display,
  the download and flashing of images (ota_service.c), diagnostics and the order of initialisation in
  main/app_main.c: they consist of calls into ESP-IDF, LVGL and lwIP, which are not under src. The token bucket of
  api_common.c computes with doubles and is a parameter of the handlers. The status and discovery documents of
  mqtt_service.c, its client life cycle, and the handlers of api_server.c that print the result of one call as JSON
  (status, firmware, AT console, SIM PIN, restart) are left out. Tasks interleave at the calls that
  block; the preemption of a task in the middle of a critical section is not visible, because the
  sections take the mutex that the definitions have as an argument.
\<close>

end
